(* ===== verification/Prelude.thy ===== *)
theory Prelude
  imports Main "HOL-Library.Sublist" "HOL-Library.Multiset"
begin

text \<open>
  Shared material of the development: the fact collections the component
  theories feed, the type synonyms for Go values, a stable insertion sort (the
  contract of \<^verbatim>\<open>sort.SliceStable\<close>), generic lemmas on lists and on the
  left-to-right loops of the source, and the interface locales that more than
  one component implements.
\<close>

named_theorems go_simps "evaluation rules for the modelled Go library calls"
named_theorems node_simps "how the XML node observers see the node builders"
named_theorems inv_intros "operations preserve the invariant of their component"

text \<open>A Go \<^verbatim>\<open>string\<close> and a \<^verbatim>\<open>[]byte\<close> are both byte sequences; \<^typ>\<open>char\<close> is a byte.\<close>

type_synonym bytes = string

subsection \<open>Lists and loops\<close>

text \<open>
  \<open>find_map f xs\<close> is the first defined \<open>f x\<close>: the shape of a Go loop that returns from
  its body at the first element it likes.
\<close>

fun find_map :: "('a \<Rightarrow> 'b option) \<Rightarrow> 'a list \<Rightarrow> 'b option" where
  "find_map f [] = None"
| "find_map f (x # xs) = (case f x of Some y \<Rightarrow> Some y | None \<Rightarrow> find_map f xs)"

lemma find_map_None: "find_map f xs = None \<longleftrightarrow> (\<forall>x\<in>set xs. f x = None)"
  by (induction xs) (auto split: option.splits)

lemma find_map_SomeD: "find_map f xs = Some y \<Longrightarrow> \<exists>x\<in>set xs. f x = Some y"
  by (induction xs) (auto split: option.splits)

lemma find_append_split:
  "find P (xs @ ys) = (case find P xs of Some x \<Rightarrow> Some x | None \<Rightarrow> find P ys)"
  by (induction xs) auto

lemma find_map_append:
  "find_map f (xs @ ys) = (case find_map f xs of Some y \<Rightarrow> Some y | None \<Rightarrow> find_map f ys)"
  by (induction xs) (auto split: option.splits)

text \<open>
  \<open>map_result f xs\<close> runs a fallible body over a list and stops at the first error.
\<close>

fun map_result :: "('a \<Rightarrow> 'e + 'b) \<Rightarrow> 'a list \<Rightarrow> 'e + 'b list" where
  "map_result f [] = Inr []"
| "map_result f (x # xs) =
     (case f x of Inl e \<Rightarrow> Inl e
      | Inr y \<Rightarrow> (case map_result f xs of Inl e \<Rightarrow> Inl e | Inr ys \<Rightarrow> Inr (y # ys)))"

lemma map_result_map_Inr:
  "(\<And>x. x \<in> set xs \<Longrightarrow> f (g x) = Inr (h x)) \<Longrightarrow> map_result f (map g xs) = Inr (map h xs)"
  by (induction xs) auto

lemma map_result_length: "map_result f xs = Inr ys \<Longrightarrow> length ys = length xs"
  by (induction xs arbitrary: ys) (auto split: sum.splits)

lemma map_result_all:
  assumes "map_result f xs = Inr ys" "\<And>x y. f x = Inr y \<Longrightarrow> P y"
  shows "\<forall>y\<in>set ys. P y"
  using assms(1) by (induction xs arbitrary: ys) (auto split: sum.splits intro: assms(2))

text \<open>\<open>fold_result\<close> threads a state through a fallible loop body.\<close>

fun fold_result :: "('s \<Rightarrow> 'a \<Rightarrow> 'e + 's) \<Rightarrow> 's \<Rightarrow> 'a list \<Rightarrow> 'e + 's" where
  "fold_result f s [] = Inr s"
| "fold_result f s (x # xs) = (case f s x of Inl e \<Rightarrow> Inl e | Inr s' \<Rightarrow> fold_result f s' xs)"

lemma fold_result_append:
  "fold_result f s (xs @ ys) =
     (case fold_result f s xs of Inl e \<Rightarrow> Inl e | Inr s' \<Rightarrow> fold_result f s' ys)"
  by (induction xs arbitrary: s) (auto split: sum.splits)

lemma fold_result_invariant:
  assumes "fold_result f s xs = Inr s'" "P s" "\<And>s x t. P s \<Longrightarrow> f s x = Inr t \<Longrightarrow> P t"
  shows "P s'"
  using assms(1,2) by (induction xs arbitrary: s) (auto split: sum.splits intro: assms(3))

text \<open>Removing the first element that satisfies a predicate (\<^verbatim>\<open>append(xs[:i], xs[i+1:]...)\<close>).\<close>

fun remove_first :: "('a \<Rightarrow> bool) \<Rightarrow> 'a list \<Rightarrow> 'a list" where
  "remove_first p [] = []"
| "remove_first p (x # xs) = (if p x then xs else x # remove_first p xs)"

lemma set_remove_first: "set (remove_first p xs) \<subseteq> set xs"
  by (induction xs) auto

lemma remove_first_none [simp]: "\<forall>x\<in>set xs. \<not> p x \<Longrightarrow> remove_first p xs = xs"
  by (induction xs) auto

lemma subseq_remove_first: "subseq (remove_first p xs) xs"
  by (induction xs) auto

lemma distinct_map_remove_first:
  "distinct (map f xs) \<Longrightarrow> distinct (map f (remove_first p xs))"
  by (induction xs) (use set_remove_first in fastforce)+

lemma sorted_map_remove_first:
  "sorted (map f xs) \<Longrightarrow> sorted (map f (remove_first p xs))"
  by (induction xs) (use set_remove_first in fastforce)+

lemma remove_first_eq_filter:
  "distinct (map f xs) \<Longrightarrow> remove_first (\<lambda>x. f x = k) xs = filter (\<lambda>x. f x \<noteq> k) xs"
proof (induction xs)
  case (Cons a xs)
  have "filter (\<lambda>x. f x \<noteq> f a) xs = xs"
    using Cons.prems by (auto simp: filter_id_conv) (metis image_eqI)
  then show ?case
    using Cons by auto
qed simp

text \<open>First occurrences, in order: the \<^verbatim>\<open>seen\<close> map idiom of the source.\<close>

fun uniq_acc :: "'a set \<Rightarrow> 'a list \<Rightarrow> 'a list" where
  "uniq_acc seen [] = []"
| "uniq_acc seen (x # xs) =
     (if x \<in> seen then uniq_acc seen xs else x # uniq_acc (insert x seen) xs)"

lemma set_uniq_acc: "set (uniq_acc seen xs) = set xs - seen"
  by (induction xs arbitrary: seen) auto

lemma distinct_uniq_acc: "distinct (uniq_acc seen xs)"
  by (induction xs arbitrary: seen) (auto simp: set_uniq_acc)

lemma uniq_acc_id: "distinct xs \<Longrightarrow> set xs \<inter> seen = {} \<Longrightarrow> uniq_acc seen xs = xs"
  by (induction xs arbitrary: seen) auto

lemma subseq_uniq_acc: "subseq (uniq_acc seen xs) xs"
  by (induction xs arbitrary: seen) auto

subsection \<open>Stable sorting by an integer priority\<close>

text \<open>
  \<^verbatim>\<open>sort.SliceStable(xs, func(i, j) { xs[i].prio < xs[j].prio })\<close> has one result: the
  permutation that is sorted and keeps the order of equal elements. \<^const>\<open>sort_key\<close> of
  the library is that function, and these are the facts the registries use.
\<close>

lemma sort_key_snoc_set [simp]: "set (sort_key f (xs @ [x])) = insert x (set xs)"
  by auto

lemma sort_key_filter_stable: "filter (\<lambda>y. f y = k) (sort_key f xs) = filter (\<lambda>y. f y = k) xs"
  by (rule sort_key_stable)

lemma distinct_map_sort_key [simp]: "distinct (map g (sort_key f xs)) = distinct (map g xs)"
  by (metis mset_eq_imp_distinct_iff mset_map mset_sort)

lemma sort_key_sorted_id: "sorted (map f xs) \<Longrightarrow> sort_key f xs = xs"
  by (rule sort_key_id_if_sorted)

lemma sort_key_filter_flip: "filter (\<lambda>x. f k = f x) (sort_key f zs) = filter (\<lambda>x. f k = f x) zs"
  using sort_key_stable[of f "f k" zs] by (simp add: eq_commute)

lemma sort_key_sort_append: "sort_key f (sort_key f xs @ ys) = sort_key f (xs @ ys)"
  by (rule properties_for_sort_key) (simp_all add: sort_key_filter_flip)

lemma sort_key_append_sort: "sort_key f (xs @ sort_key f ys) = sort_key f (xs @ ys)"
  by (rule properties_for_sort_key) (simp_all add: sort_key_filter_flip)

end
