(* ===== verification/Go_Strings.thy ===== *)
theory Go_Strings
  imports Prelude
begin

text \<open>
  The part of Go's \<^verbatim>\<open>strings\<close> package the library calls, on byte strings.
  \<^verbatim>\<open>TrimSpace\<close> strips Unicode white space, so the model strips the UTF-8 encodings of
  those runes. Case mapping is the ASCII table on ASCII input; on other input Go
  consults the Unicode tables of its \<^verbatim>\<open>unicode\<close> package, which are the fields of
  the record \<open>unicode\<close> here and stay a parameter.
\<close>

subsection \<open>Searching for a byte\<close>

fun IndexByte :: "string \<Rightarrow> char \<Rightarrow> nat option" where
  "IndexByte [] c = None"
| "IndexByte (x # xs) c = (if x = c then Some 0 else map_option Suc (IndexByte xs c))"

fun LastIndexByte :: "string \<Rightarrow> char \<Rightarrow> nat option" where
  "LastIndexByte [] c = None"
| "LastIndexByte (x # xs) c =
     (case LastIndexByte xs c of Some i \<Rightarrow> Some (Suc i)
      | None \<Rightarrow> if x = c then Some 0 else None)"

lemma IndexByte_None [simp]: "IndexByte s c = None \<longleftrightarrow> c \<notin> set s"
  by (induction s) auto

lemma LastIndexByte_None [simp]: "LastIndexByte s c = None \<longleftrightarrow> c \<notin> set s"
  by (induction s) (auto split: option.splits)

lemma IndexByte_notin [simp]: "c \<notin> set s \<Longrightarrow> IndexByte s c = None"
  by simp

lemma LastIndexByte_notin [simp]: "c \<notin> set s \<Longrightarrow> LastIndexByte s c = None"
  by simp

lemma IndexByte_append:
  "IndexByte (a @ b) c =
     (if c \<in> set a then IndexByte a c else map_option (\<lambda>i. length a + i) (IndexByte b c))"
  by (induction a) (auto simp: option.map_comp comp_def option.map_ident cong: option.map_cong)

lemma IndexByte_split [simp]: "c \<notin> set a \<Longrightarrow> IndexByte (a @ c # b) c = Some (length a)"
  by (simp add: IndexByte_append)

lemma IndexByte_SomeD:
  "IndexByte s c = Some i \<Longrightarrow> i < length s \<and> s = take i s @ c # drop (Suc i) s \<and> c \<notin> set (take i s)"
  by (induction s arbitrary: i) (auto split: if_splits)

lemma LastIndexByte_split [simp]: "c \<notin> set b \<Longrightarrow> LastIndexByte (a @ c # b) c = Some (length a)"
proof (induction a)
  case Nil
  then show ?case by simp
qed simp

lemma LastIndexByte_SomeD:
  "LastIndexByte s c = Some i \<Longrightarrow> i < length s \<and> s = take i s @ c # drop (Suc i) s \<and> c \<notin> set (drop (Suc i) s)"
  by (induction s arbitrary: i) (auto split: if_splits option.splits)

definition ContainsAny :: "string \<Rightarrow> string \<Rightarrow> bool" where
  "ContainsAny s cs \<longleftrightarrow> list_ex (\<lambda>c. c \<in> set cs) s"

lemma ContainsAny_iff: "ContainsAny s cs \<longleftrightarrow> set s \<inter> set cs \<noteq> {}"
  by (auto simp: ContainsAny_def list_ex_iff)

definition HasPrefix :: "string \<Rightarrow> string \<Rightarrow> bool" where
  "HasPrefix s p \<longleftrightarrow> prefix p s"

definition TrimSuffix :: "string \<Rightarrow> string \<Rightarrow> string" where
  "TrimSuffix s suf = (if suffix suf s then take (length s - length suf) s else s)"

definition TrimPrefix :: "string \<Rightarrow> string \<Rightarrow> string" where
  "TrimPrefix s p = (if prefix p s then drop (length p) s else s)"

lemma TrimSuffix_id: "\<not> suffix suf s \<Longrightarrow> TrimSuffix s suf = s"
  by (simp add: TrimSuffix_def)

lemma set_TrimSuffix: "set (TrimSuffix s suf) \<subseteq> set s"
  by (auto simp: TrimSuffix_def dest: in_set_takeD)

subsection \<open>White space\<close>

text \<open>The UTF-8 encodings of the runes for which \<^verbatim>\<open>unicode.IsSpace\<close> holds.\<close>

definition ascii_spaces :: "char list" where
  "ascii_spaces = [CHR 0x09, CHR 0x0A, CHR 0x0B, CHR 0x0C, CHR 0x0D, CHR 0x20]"

definition wide_spaces :: "string list" where
  "wide_spaces =
     [[CHR 0xC2, CHR 0x85], [CHR 0xC2, CHR 0xA0], [CHR 0xE1, CHR 0x9A, CHR 0x80]] @
     map (\<lambda>c. [CHR 0xE2, CHR 0x80, c])
       [CHR 0x80, CHR 0x81, CHR 0x82, CHR 0x83, CHR 0x84, CHR 0x85, CHR 0x86, CHR 0x87,
        CHR 0x88, CHR 0x89, CHR 0x8A, CHR 0xA8, CHR 0xA9, CHR 0xAF] @
     [[CHR 0xE2, CHR 0x81, CHR 0x9F], [CHR 0xE3, CHR 0x80, CHR 0x80]]"

definition space_runes :: "string list" where
  "space_runes = map (\<lambda>c. [c]) ascii_spaces @ wide_spaces"

text \<open>
  \<open>space_at f s\<close> is the width of a space rune at the front of \<open>s\<close>, where \<open>f\<close> maps each
  rune to the bytes looked for (the identity, or reversal when scanning from the end).
\<close>

definition space_at :: "(string \<Rightarrow> string) \<Rightarrow> string \<Rightarrow> nat option" where
  "space_at f s = find_map (\<lambda>r. if prefix (f r) s then Some (length r) else None) space_runes"

fun trim_front :: "(string \<Rightarrow> string) \<Rightarrow> string \<Rightarrow> string" where
  "trim_front f [] = []"
| "trim_front f (c # s) =
     (case space_at f (c # s) of None \<Rightarrow> c # s | Some n \<Rightarrow> trim_front f (drop (n - 1) s))"

definition TrimLeftSpace :: "string \<Rightarrow> string" where
  "TrimLeftSpace s = trim_front id s"

definition TrimRightSpace :: "string \<Rightarrow> string" where
  "TrimRightSpace s = rev (trim_front rev (rev s))"

definition TrimSpace :: "string \<Rightarrow> string" where
  "TrimSpace s = TrimRightSpace (TrimLeftSpace s)"

lemma suffix_trim_front: "suffix (trim_front f s) s"
proof (induction f s rule: trim_front.induct)
  case (2 f c s)
  show ?case
  proof (cases "space_at f (c # s)")
    case (Some n)
    with 2 have "suffix (trim_front f (drop (n - 1) s)) (drop (n - 1) s)" by blast
    then have "suffix (trim_front f (drop (n - 1) s)) s"
      using suffix_drop suffix_order.trans by blast
    with Some show ?thesis by (simp add: suffix_ConsI)
  qed simp
qed simp

lemma set_trim_front: "set (trim_front f s) \<subseteq> set s"
  using suffix_trim_front set_mono_suffix by blast

lemma set_TrimSpace: "set (TrimSpace s) \<subseteq> set s"
  using set_trim_front[of rev "rev (trim_front id s)"] set_trim_front[of id s]
  by (auto simp: TrimSpace_def TrimLeftSpace_def TrimRightSpace_def)

text \<open>
  A string is \<open>trimmed\<close> when it neither starts nor ends with a space rune;
  \<^const>\<open>TrimSpace\<close> then leaves it alone.
\<close>

definition trimmed :: "string \<Rightarrow> bool" where
  "trimmed s \<longleftrightarrow> s = [] \<or> (space_at id s = None \<and> space_at rev (rev s) = None)"

lemma trim_front_id: "space_at f s = None \<Longrightarrow> trim_front f s = s"
  by (cases s) auto

lemma trim_front_trimmed: "trim_front f s = [] \<or> space_at f (trim_front f s) = None"
  by (induction f s rule: trim_front.induct) (auto split: option.splits)

lemma TrimSpace_id [simp]: "trimmed s \<Longrightarrow> TrimSpace s = s"
  by (auto simp: trimmed_def TrimSpace_def TrimLeftSpace_def TrimRightSpace_def trim_front_id)

lemma TrimSpace_Nil [simp]: "TrimSpace [] = []"
  by (simp add: TrimSpace_def TrimLeftSpace_def TrimRightSpace_def)

lemma space_at_None_iff:
  "space_at f s = None \<longleftrightarrow> (\<forall>r\<in>set space_runes. \<not> prefix (f r) s)"
  by (auto simp: space_at_def find_map_None)

text \<open>Printable ASCII other than the blank never belongs to a space rune.\<close>

definition plain_char :: "char \<Rightarrow> bool" where
  "plain_char c \<longleftrightarrow> c \<notin> set ascii_spaces \<and> of_char c < (128 :: nat)"

lemma space_runes_no_plain:
  "r \<in> set space_runes \<Longrightarrow> r \<noteq> [] \<and> \<not> plain_char (hd r) \<and> \<not> plain_char (last r)"
  by (auto simp: space_runes_def wide_spaces_def ascii_spaces_def plain_char_def)

lemma prefix_imp_hd: "prefix r s \<Longrightarrow> r \<noteq> [] \<Longrightarrow> hd s = hd r"
  by (auto simp: prefix_def)

lemma trimmed_plain_ends:
  assumes "s \<noteq> []" "plain_char (hd s)" "plain_char (last s)"
  shows "trimmed s"
proof -
  have "\<not> prefix r s" if "r \<in> set space_runes" for r
    using space_runes_no_plain[OF that] assms prefix_imp_hd by metis
  moreover have "\<not> prefix (rev r) (rev s)" if "r \<in> set space_runes" for r
    using space_runes_no_plain[OF that] assms prefix_imp_hd[of "rev r" "rev s"]
    by (auto simp: hd_rev)
  ultimately show ?thesis by (simp add: trimmed_def space_at_None_iff)
qed

lemma trimmed_all_plain: "\<forall>c\<in>set s. plain_char c \<Longrightarrow> trimmed s"
proof (cases "s = []")
  case True then show ?thesis by (simp add: trimmed_def)
next
  case False
  assume "\<forall>c\<in>set s. plain_char c"
  with False show ?thesis by (intro trimmed_plain_ends) auto
qed

subsection \<open>Case mapping\<close>

record unicode =
  uni_lower :: "string \<Rightarrow> string"
  uni_upper :: "string \<Rightarrow> string"
  uni_fold :: "string \<Rightarrow> string \<Rightarrow> bool"

definition ascii :: "string \<Rightarrow> bool" where
  "ascii s \<longleftrightarrow> list_all (\<lambda>c. of_char c < (128 :: nat)) s"

definition lower_char :: "char \<Rightarrow> char" where
  "lower_char c = (if of_char c \<ge> (65 :: nat) \<and> of_char c \<le> (90 :: nat) then char_of (of_char c + (32 :: nat)) else c)"

definition upper_char :: "char \<Rightarrow> char" where
  "upper_char c = (if of_char c \<ge> (97 :: nat) \<and> of_char c \<le> (122 :: nat) then char_of (of_char c - (32 :: nat)) else c)"

definition ToLower :: "unicode \<Rightarrow> string \<Rightarrow> string" where
  "ToLower U s = (if ascii s then map lower_char s else uni_lower U s)"

definition ToUpper :: "unicode \<Rightarrow> string \<Rightarrow> string" where
  "ToUpper U s = (if ascii s then map upper_char s else uni_upper U s)"

definition EqualFold :: "unicode \<Rightarrow> string \<Rightarrow> string \<Rightarrow> bool" where
  "EqualFold U s t \<longleftrightarrow>
     (if ascii s \<and> ascii t then map lower_char s = map lower_char t else uni_fold U s t)"

lemma of_char_char_of_ascii [simp]: "(n :: nat) < 256 \<Longrightarrow> of_char (char_of n :: char) = n"
  by simp

lemma lower_char_cases:
  "lower_char c = c \<or>
   (of_char c \<ge> (65 :: nat) \<and> of_char c \<le> (90 :: nat) \<and> of_char (lower_char c) = (of_char c + 32 :: nat))"
  by (auto simp: lower_char_def)

lemma lower_char_idem [simp]: "lower_char (lower_char c) = lower_char c"
  by (auto simp: lower_char_def)

lemma ascii_lower: "ascii s \<Longrightarrow> ascii (map lower_char s)"
  by (auto simp: ascii_def list_all_iff lower_char_def)

lemma ToLower_idem: "ascii s \<Longrightarrow> ToLower U (ToLower U s) = ToLower U s"
  by (simp add: ToLower_def ascii_lower)

subsection \<open>Replacer, Split, Join\<close>

text \<open>
  \<^verbatim>\<open>strings.NewReplacer\<close>: one pass from the left; at each position the pairs are tried in
  argument order, and a match is copied out and skipped.
\<close>

function Replacer :: "(string \<times> string) list \<Rightarrow> string \<Rightarrow> string" where
  "Replacer ps [] = []"
| "Replacer ps (c # s) =
     (case find (\<lambda>(old, new). old \<noteq> [] \<and> prefix old (c # s)) ps of
        Some (old, new) \<Rightarrow> new @ Replacer ps (drop (length old - 1) s)
      | None \<Rightarrow> c # Replacer ps s)"
  by pat_completeness auto
termination
  by (relation "measure (\<lambda>(ps, s). length s)") auto

fun Split :: "char \<Rightarrow> string \<Rightarrow> string list" where
  "Split c [] = [[]]"
| "Split c (x # xs) =
     (if x = c then [] # Split c xs
      else (case Split c xs of [] \<Rightarrow> [[x]] | p # ps \<Rightarrow> (x # p) # ps))"

lemma Split_not_Nil [simp]: "Split c s \<noteq> []"
  by (cases s) (auto split: list.splits)

lemma Split_part: "p \<in> set (Split c s) \<Longrightarrow> c \<notin> set p"
  by (induction s arbitrary: p) (auto split: if_splits list.splits)

fun Join :: "string \<Rightarrow> string list \<Rightarrow> string" where
  "Join sep [] = []"
| "Join sep [x] = x"
| "Join sep (x # xs) = x @ sep @ Join sep xs"

lemma Join_Cons: "ps \<noteq> [] \<Longrightarrow> Join sep (p # ps) = p @ sep @ Join sep ps"
  by (cases ps) auto

lemma Join_Split: "Join [c] (Split c s) = s"
proof (induction s)
  case (Cons x xs)
  obtain p ps where sp: "Split c xs = p # ps" by (cases "Split c xs") auto
  show ?case
    using Cons sp by (cases ps) (auto simp: Join_Cons)
qed simp

lemma Split_no_sep: "c \<notin> set s \<Longrightarrow> Split c s = [s]"
  by (induction s) auto

lemma Split_append_sep: "c \<notin> set p \<Longrightarrow> Split c (p @ c # s) = p # Split c s"
  by (induction p) auto

lemma Split_Join: "ps \<noteq> [] \<Longrightarrow> \<forall>p\<in>set ps. c \<notin> set p \<Longrightarrow> Split c (Join [c] ps) = ps"
proof (induction ps)
  case (Cons p ps)
  then show ?case
    by (cases "ps = []") (auto simp: Join_Cons Split_no_sep Split_append_sep)
qed simp

end
