(* ===== verification/Xml_Node.thy ===== *)
theory Xml_Node
  imports Go_Strings
begin

text \<open>
  The namespace-aware XML tree of \<^verbatim>\<open>src/xmpp/node.go\<close>: constructors, attribute and
  content mutators, observers and the deep copy. A \<^verbatim>\<open>Part\<close> of the source has a text
  and a child pointer; every operation looks at the text only when the pointer is nil,
  so a part is either a text or a child here. Mutating methods return the new node.

  The interface \<open>attr_store\<close> states what a keyed store with replacement promises;
  it is interpreted on \<open>SetAttrNS\<close>/\<open>AttrValueNS\<close>, and the facts
  proved in it carry the attribute reasoning of every payload codec.
\<close>

subsection \<open>Data\<close>

datatype xname = XName (Space: string) (Local: string)

datatype attr = Attr (AName: xname) (AValue: string)

datatype node = Node (Name: xname) (Attrs: "attr list") (Parts: "part list")
  and part = TextPart string | ChildPart node

abbreviation xml_ns :: string where
  "xml_ns \<equiv> ''http://www.w3.org/XML/1998/namespace''"

subsection \<open>Construction and mutation\<close>

fun AddText :: "string \<Rightarrow> node \<Rightarrow> node" where
  "AddText value (Node nm as ps) =
     (if value = [] then Node nm as ps
      else case rev ps of
        TextPart t # qs \<Rightarrow> Node nm as (rev qs @ [TextPart (t @ value)])
      | _ \<Rightarrow> Node nm as (ps @ [TextPart value]))"

definition NewNode :: "string \<Rightarrow> string \<Rightarrow> node" where
  "NewNode namespace local = Node (XName namespace local) [] []"

definition NewTextNode :: "string \<Rightarrow> string \<Rightarrow> string \<Rightarrow> node" where
  "NewTextNode namespace local value = AddText value (NewNode namespace local)"

fun set_attr_list :: "xname \<Rightarrow> string \<Rightarrow> attr list \<Rightarrow> attr list" where
  "set_attr_list k v [] = [Attr k v]"
| "set_attr_list k v (a # as) =
     (if AName a = k then Attr k v # as else a # set_attr_list k v as)"

definition SetAttrNS :: "string \<Rightarrow> string \<Rightarrow> string \<Rightarrow> node \<Rightarrow> node" where
  "SetAttrNS namespace name value n =
     Node (Name n) (set_attr_list (XName namespace name) value (Attrs n)) (Parts n)"

definition SetAttr :: "string \<Rightarrow> string \<Rightarrow> node \<Rightarrow> node" where
  "SetAttr name value n = SetAttrNS [] name value n"

definition AddChild :: "node \<Rightarrow> node \<Rightarrow> node" where
  "AddChild child n = Node (Name n) (Attrs n) (Parts n @ [ChildPart child])"

subsection \<open>Observation\<close>

fun get_attr_list :: "xname \<Rightarrow> attr list \<Rightarrow> string option" where
  "get_attr_list k [] = None"
| "get_attr_list k (a # as) = (if AName a = k then Some (AValue a) else get_attr_list k as)"

definition AttrValueNS :: "string \<Rightarrow> string \<Rightarrow> node \<Rightarrow> string option" where
  "AttrValueNS namespace name n = get_attr_list (XName namespace name) (Attrs n)"

definition AttrValue :: "string \<Rightarrow> node \<Rightarrow> string option" where
  "AttrValue name n = AttrValueNS [] name n"

text \<open>\<^verbatim>\<open>v, _ := n.AttrValue(name)\<close>: the empty string when the attribute is missing.\<close>

definition or_empty :: "string option \<Rightarrow> string" where
  "or_empty v = (case v of Some s \<Rightarrow> s | None \<Rightarrow> [])"

lemma or_empty_simps [simp]: "or_empty (Some s) = s" "or_empty None = []"
  by (simp_all add: or_empty_def)

fun clone :: "node \<Rightarrow> node" and clone_part :: "part \<Rightarrow> part" where
  "clone (Node nm as ps) = Node nm as (map clone_part ps)"
| "clone_part (TextPart t) = TextPart t"
| "clone_part (ChildPart c) = ChildPart (clone c)"

fun part_text :: "part \<Rightarrow> string" where
  "part_text (TextPart t) = t"
| "part_text (ChildPart c) = []"

definition Text :: "node \<Rightarrow> string" where
  "Text n = concat (map part_text (Parts n))"

fun part_children :: "part \<Rightarrow> node list" where
  "part_children (TextPart t) = []"
| "part_children (ChildPart c) = [clone c]"

definition Children :: "node \<Rightarrow> node list" where
  "Children n = concat (map part_children (Parts n))"

definition Child :: "string \<Rightarrow> string \<Rightarrow> node \<Rightarrow> node option" where
  "Child namespace local n =
     find_map (\<lambda>p. case p of
         TextPart t \<Rightarrow> None
       | ChildPart c \<Rightarrow>
           if Local (Name c) \<noteq> local then None
           else if namespace = [] \<or> Space (Name c) = namespace then Some (clone c)
           else None) (Parts n)"

definition ChildText :: "string \<Rightarrow> string \<Rightarrow> node \<Rightarrow> string" where
  "ChildText namespace local n =
     (case Child namespace local n of None \<Rightarrow> [] | Some c \<Rightarrow> Text c)"

fun find_path :: "string list \<Rightarrow> node \<Rightarrow> node option" where
  "find_path [] current = Some current"
| "find_path (local # path) current =
     (case Child [] local current of
        None \<Rightarrow> None
      | Some nxt \<Rightarrow> find_path path (clone nxt))"

definition FindPath :: "string list \<Rightarrow> node \<Rightarrow> node option" where
  "FindPath path n = find_path path (clone n)"

text \<open>The element test \<^verbatim>\<open>n.Name.Space == ns && n.Name.Local == local\<close> of the payload parsers.\<close>

definition named :: "string \<Rightarrow> string \<Rightarrow> node \<Rightarrow> bool" where
  "named namespace local n \<longleftrightarrow> Space (Name n) = namespace \<and> Local (Name n) = local"

subsection \<open>The deep copy\<close>

lemma clone_id: "clone n = n" and clone_part_id: "clone_part p = p"
  by (induction n and p rule: clone_clone_part.induct) (auto simp: list.map_ident_strong)

lemmas clone_simps [simp] = clone_id clone_part_id

subsection \<open>How the observers see the builders\<close>

lemma Name_builders [simp]:
  "Name (NewNode ns l) = XName ns l" "Name (NewTextNode ns l v) = XName ns l"
  "Name (SetAttrNS ns k v n) = Name n" "Name (SetAttr k v n) = Name n"
  "Name (AddChild c n) = Name n" "Name (AddText v n) = Name n"
  by (simp_all add: NewNode_def NewTextNode_def SetAttrNS_def SetAttr_def AddChild_def)
     (cases n; simp split: list.splits part.splits)+

lemma named_builders [simp]:
  "named ns l (NewNode ns' l') \<longleftrightarrow> ns = ns' \<and> l = l'"
  "named ns l (NewTextNode ns' l' v) \<longleftrightarrow> ns = ns' \<and> l = l'"
  "named ns l (SetAttr k v n) = named ns l n" "named ns l (SetAttrNS s k v n) = named ns l n"
  "named ns l (AddChild c n) = named ns l n" "named ns l (AddText v n) = named ns l n"
  by (auto simp: named_def)

lemma Attrs_builders [simp]:
  "Attrs (NewNode ns l) = []" "Attrs (AddChild c n) = Attrs n" "Attrs (AddText v n) = Attrs n"
  "Attrs (NewTextNode ns l v) = []"
  by (simp_all add: NewNode_def AddChild_def NewTextNode_def)
     (cases n; simp split: list.splits part.splits)+

lemma Parts_builders [simp]:
  "Parts (NewNode ns l) = []" "Parts (SetAttrNS ns k v n) = Parts n" "Parts (SetAttr k v n) = Parts n"
  "Parts (AddChild c n) = Parts n @ [ChildPart c]"
  by (simp_all add: NewNode_def SetAttrNS_def SetAttr_def AddChild_def)

lemma AttrValue_builders [simp]:
  "AttrValueNS s k (NewNode ns l) = None" "AttrValueNS s k (NewTextNode ns l v) = None"
  "AttrValueNS s k (AddChild c n) = AttrValueNS s k n"
  "AttrValueNS s k (AddText v n) = AttrValueNS s k n"
  "AttrValue k (NewNode ns l) = None" "AttrValue k (NewTextNode ns l v) = None"
  "AttrValue k (AddChild c n) = AttrValue k n" "AttrValue k (AddText v n) = AttrValue k n"
  by (simp_all add: AttrValueNS_def AttrValue_def)

lemma Text_AddText [simp]: "Text (AddText v n) = Text n @ v"
proof (cases n)
  case (Node nm as ps)
  show ?thesis
  proof (cases ps rule: rev_cases)
    case Nil
    then show ?thesis using Node by (simp add: Text_def)
  next
    case (snoc qs q)
    then show ?thesis using Node by (cases q) (auto simp: Text_def)
  qed
qed

lemma Children_AddText [simp]: "Children (AddText v n) = Children n"
proof (cases n)
  case (Node nm as ps)
  show ?thesis
  proof (cases ps rule: rev_cases)
    case Nil
    then show ?thesis using Node by (simp add: Children_def)
  next
    case (snoc qs q)
    then show ?thesis using Node by (cases q) (auto simp: Children_def)
  qed
qed

lemma Text_builders [simp]:
  "Text (NewNode ns l) = []" "Text (NewTextNode ns l v) = v"
  "Text (SetAttrNS ns k v n) = Text n" "Text (SetAttr k v n) = Text n" "Text (AddChild c n) = Text n"
  by (simp_all add: NewTextNode_def) (simp_all add: Text_def)

lemma Children_builders [simp]:
  "Children (NewNode ns l) = []" "Children (NewTextNode ns l v) = []"
  "Children (SetAttrNS ns k v n) = Children n" "Children (SetAttr k v n) = Children n"
  "Children (AddChild c n) = Children n @ [c]"
  by (simp_all add: NewTextNode_def) (simp_all add: Children_def)

lemma Child_eq_find:
  "Child ns l n = find (\<lambda>c. Local (Name c) = l \<and> (ns = [] \<or> Space (Name c) = ns)) (Children n)"
proof -
  have "find_map (\<lambda>p. case p of TextPart t \<Rightarrow> None
         | ChildPart c \<Rightarrow> if Local (Name c) \<noteq> l then None
             else if ns = [] \<or> Space (Name c) = ns then Some (clone c) else None) ps
      = find (\<lambda>c. Local (Name c) = l \<and> (ns = [] \<or> Space (Name c) = ns))
          (concat (map part_children ps))" for ps
    by (induction ps) (auto split: part.splits)
  then show ?thesis by (simp add: Child_def Children_def)
qed

lemma Child_SomeD:
  "Child ns l n = Some c \<Longrightarrow> c \<in> set (Children n) \<and> Local (Name c) = l \<and> (ns = [] \<or> Space (Name c) = ns)"
  by (auto simp: Child_eq_find find_Some_iff)

subsection \<open>Attributes as a store\<close>

locale attr_store =
  fixes set_at :: "'k \<Rightarrow> 'v \<Rightarrow> 's \<Rightarrow> 's"
    and get_at :: "'k \<Rightarrow> 's \<Rightarrow> 'v option"
  assumes get_set_same: "get_at k (set_at k v s) = Some v"
    and get_set_other: "k' \<noteq> k \<Longrightarrow> get_at k' (set_at k v s) = get_at k' s"
begin

lemma get_set: "get_at k' (set_at k v s) = (if k' = k then Some v else get_at k' s)"
  by (simp add: get_set_same get_set_other)

text \<open>Writing a list of bindings: the last binding of a key wins, other keys are kept.\<close>

lemma get_fold_set:
  "get_at k (fold (\<lambda>(k, v). set_at k v) kvs s) =
     (case map_of (rev kvs) k of Some v \<Rightarrow> Some v | None \<Rightarrow> get_at k s)"
  by (induction kvs arbitrary: s) (auto simp: get_set map_add_def split: option.splits)

lemma set_set_get: "get_at k' (set_at k v (set_at k w s)) = get_at k' (set_at k v s)"
  by (simp add: get_set)

lemma set_commute_get:
  "k \<noteq> k' \<Longrightarrow> get_at j (set_at k v (set_at k' w s)) = get_at j (set_at k' w (set_at k v s))"
  by (simp add: get_set)

end

lemma get_set_attr_list:
  "get_attr_list k' (set_attr_list k v as) = (if k' = k then Some v else get_attr_list k' as)"
  by (induction as) auto

interpretation xml_attrs: attr_store
  "\<lambda>(s, k) v. SetAttrNS s k v" "\<lambda>(s, k). AttrValueNS s k"
  by unfold_locales (auto simp: SetAttrNS_def AttrValueNS_def get_set_attr_list split: if_splits)

interpretation plain_attrs: attr_store SetAttr AttrValue
  by unfold_locales (auto simp: SetAttr_def AttrValue_def SetAttrNS_def AttrValueNS_def get_set_attr_list)

lemma AttrValueNS_SetAttrNS [simp]:
  "AttrValueNS s' k' (SetAttrNS s k v n) = (if s' = s \<and> k' = k then Some v else AttrValueNS s' k' n)"
  using xml_attrs.get_set[of "(s', k')" "(s, k)" v n] by simp

lemma AttrValue_SetAttr [simp]:
  "AttrValue k' (SetAttr k v n) = (if k' = k then Some v else AttrValue k' n)"
  by (rule plain_attrs.get_set)

lemma AttrValue_SetAttrNS [simp]: "s \<noteq> [] \<Longrightarrow> AttrValue k' (SetAttrNS s k v n) = AttrValue k' n"
  by (simp add: AttrValue_def)

lemma AttrValueNS_SetAttr [simp]: "s \<noteq> [] \<Longrightarrow> AttrValueNS s k' (SetAttr k v n) = AttrValueNS s k' n"
  by (simp add: SetAttr_def)

text \<open>Replacing keeps attribute names unique.\<close>

lemma distinct_set_attr_list:
  "distinct (map AName as) \<Longrightarrow> distinct (map AName (set_attr_list k v as))"
proof (induction as)
  case (Cons a as)
  have "AName ` set (set_attr_list k v as) \<subseteq> insert k (AName ` set as)" for as
    by (induction as) auto
  with Cons show ?case by (cases a) force
qed simp

lemma distinct_SetAttrNS: "distinct (map AName (Attrs n)) \<Longrightarrow> distinct (map AName (Attrs (SetAttrNS s k v n)))"
  by (simp add: SetAttrNS_def distinct_set_attr_list)

subsection \<open>The conditional builders\<close>

text \<open>
  The codecs of the library write \<^verbatim>\<open>if v != "" { n.SetAttr(k, v) }\<close> and
  \<^verbatim>\<open>if cond { n.AddChild(c) }\<close> over and over; these name the two shapes, and a loop of
  \<^verbatim>\<open>AddChild\<close> calls.
\<close>

definition SetAttrIf :: "string \<Rightarrow> string \<Rightarrow> node \<Rightarrow> node" where
  "SetAttrIf k v n = (if v \<noteq> [] then SetAttr k v n else n)"

definition SetAttrOpt :: "string \<Rightarrow> string option \<Rightarrow> node \<Rightarrow> node" where
  "SetAttrOpt k v n = (case v of Some w \<Rightarrow> SetAttr k w n | None \<Rightarrow> n)"

definition AddChildIf :: "bool \<Rightarrow> node \<Rightarrow> node \<Rightarrow> node" where
  "AddChildIf b c n = (if b then AddChild c n else n)"

definition AddChildren :: "node list \<Rightarrow> node \<Rightarrow> node" where
  "AddChildren cs n = fold AddChild cs n"

lemma Name_cond_builders [simp]:
  "Name (SetAttrIf k v n) = Name n" "Name (SetAttrOpt k w n) = Name n"
  "Name (AddChildIf b c n) = Name n" "Name (AddChildren cs n) = Name n"
  by (simp_all add: SetAttrIf_def SetAttrOpt_def AddChildIf_def AddChildren_def split: option.splits)
     (induction cs arbitrary: n; simp)

lemma named_cond_builders [simp]:
  "named ns l (SetAttrIf k v n) = named ns l n" "named ns l (SetAttrOpt k w n) = named ns l n"
  "named ns l (AddChildIf b c n) = named ns l n" "named ns l (AddChildren cs n) = named ns l n"
  by (simp_all add: named_def)

lemma Children_cond_builders [simp]:
  "Children (SetAttrIf k v n) = Children n" "Children (SetAttrOpt k w n) = Children n"
  "Children (AddChildIf b c n) = Children n @ (if b then [c] else [])"
  "Children (AddChildren cs n) = Children n @ cs"
  by (simp_all add: SetAttrIf_def SetAttrOpt_def AddChildIf_def AddChildren_def split: option.splits)
     (induction cs arbitrary: n; simp)

lemma Text_cond_builders [simp]:
  "Text (SetAttrIf k v n) = Text n" "Text (SetAttrOpt k w n) = Text n"
  "Text (AddChildIf b c n) = Text n" "Text (AddChildren cs n) = Text n"
  by (simp_all add: SetAttrIf_def SetAttrOpt_def AddChildIf_def AddChildren_def split: option.splits)
     (induction cs arbitrary: n; simp)

lemma AttrValue_cond_builders [simp]:
  "AttrValue k (AddChildIf b c n) = AttrValue k n" "AttrValue k (AddChildren cs n) = AttrValue k n"
  "AttrValueNS s k (AddChildIf b c n) = AttrValueNS s k n"
  "AttrValueNS s k (AddChildren cs n) = AttrValueNS s k n"
  by (simp_all add: AddChildIf_def AddChildren_def) (induction cs arbitrary: n; simp)+

lemma AttrValue_SetAttrOpt [simp]:
  "AttrValue k' (SetAttrOpt k v n) = (if k' = k \<and> v \<noteq> None then v else AttrValue k' n)"
  by (auto simp: SetAttrOpt_def split: option.splits)

lemma AttrValue_SetAttrIf:
  "AttrValue k' (SetAttrIf k v n) = (if k' = k \<and> v \<noteq> [] then Some v else AttrValue k' n)"
  by (simp add: SetAttrIf_def)

lemma AttrValue_SetAttrIf_other [simp]: "k' \<noteq> k \<Longrightarrow> AttrValue k' (SetAttrIf k v n) = AttrValue k' n"
  by (simp add: SetAttrIf_def)

text \<open>
  Reading back an attribute that was written only when non-empty yields the value either
  way, provided the node did not have it before.
\<close>

lemma or_empty_SetAttrIf [simp]:
  "AttrValue k n = None \<Longrightarrow> or_empty (AttrValue k (SetAttrIf k v n)) = v"
  by (simp add: SetAttrIf_def)

lemma Children_append_if_child:
  "Child ns l (AddChild c n) =
     (case Child ns l n of Some d \<Rightarrow> Some d
      | None \<Rightarrow> if Local (Name c) = l \<and> (ns = [] \<or> Space (Name c) = ns) then Some c else None)"
  by (simp add: Child_eq_find find_append_split split: option.splits)

end
