(* ===== verification/Go_Numbers.thy ===== *)
theory Go_Numbers
  imports Go_Strings "HOL-Library.Word"
begin

text \<open>
  Go's \<^verbatim>\<open>strconv\<close> in the forms the library uses: decimal and base-36 printing, \<^verbatim>\<open>Atoi\<close>,
  \<^verbatim>\<open>ParseInt\<close> and \<^verbatim>\<open>ParseUint\<close> with their two kinds of failure. As in Go a parser
  returns a value beside the error: 0 on a syntax error, the nearest bound on a
  range error. Go's \<^verbatim>\<open>int\<close> is the 64-bit one.
\<close>

datatype num_error = ErrSyntax | ErrRange

subsection \<open>Digits\<close>

definition digit_char :: "nat \<Rightarrow> char" where
  "digit_char d = char_of (if d < 10 then d + 48 else d + 87)"

definition digit_val :: "char \<Rightarrow> nat option" where
  "digit_val c =
     (let n = of_char c in if 48 \<le> n \<and> n \<le> (57 :: nat) then Some (n - 48) else None)"

fun FormatNat :: "nat \<Rightarrow> nat \<Rightarrow> string" where
  "FormatNat base n =
     (if base < 2 \<or> n < base then [digit_char n]
      else FormatNat base (n div base) @ [digit_char (n mod base)])"

declare FormatNat.simps [simp del]

fun parse_digits :: "nat \<Rightarrow> string \<Rightarrow> nat option" where
  "parse_digits acc [] = Some acc"
| "parse_digits acc (c # cs) =
     (case digit_val c of None \<Rightarrow> None | Some d \<Rightarrow> parse_digits (acc * 10 + d) cs)"

lemma digit_val_digit_char [simp]: "d < 10 \<Longrightarrow> digit_val (digit_char d) = Some d"
  by (simp add: digit_val_def digit_char_def)

lemma digit_char_36_inj: "d < 36 \<Longrightarrow> e < 36 \<Longrightarrow> digit_char d = digit_char e \<Longrightarrow> d = e"
  unfolding digit_char_def
  by (drule arg_cong[where f = "of_char :: char \<Rightarrow> nat"]) (auto split: if_splits)

lemma parse_digits_append:
  "parse_digits acc (a @ b) =
     (case parse_digits acc a of None \<Rightarrow> None | Some v \<Rightarrow> parse_digits v b)"
  by (induction a arbitrary: acc) (auto split: option.splits)

lemma FormatNat_not_Nil [simp]: "FormatNat base n \<noteq> []"
  by (subst FormatNat.simps) simp

lemma parse_digits_FormatNat [simp]: "parse_digits 0 (FormatNat 10 n) = Some n"
proof (induction n rule: less_induct)
  case (less n)
  show ?case
  proof (cases "n < 10")
    case True
    then show ?thesis by (simp add: FormatNat.simps[of 10 n])
  next
    case False
    then have "parse_digits 0 (FormatNat 10 (n div 10)) = Some (n div 10)"
      by (intro less) auto
    with False show ?thesis
      by (simp add: FormatNat.simps[of 10 n] parse_digits_append)
  qed
qed

lemma FormatNat_digits: "c \<in> set (FormatNat 10 n) \<Longrightarrow> \<exists>d<10. c = digit_char d"
proof (induction n arbitrary: c rule: less_induct)
  case (less n)
  show ?case
  proof (cases "n < 10")
    case True
    with less.prems show ?thesis by (auto simp: FormatNat.simps[of 10 n])
  next
    case False
    then show ?thesis
      using less.prems less.IH[of "n div 10"] by (force simp: FormatNat.simps[of 10 n])
  qed
qed

lemma FormatNat_inj:
  assumes "2 \<le> b" "b \<le> 36"
  shows "FormatNat b m = FormatNat b n \<Longrightarrow> m = n"
proof (induction m arbitrary: n rule: less_induct)
  case (less m)
  have last: "last (FormatNat b k) = digit_char (k mod b)" for k
    using assms by (cases "k < b") (auto simp: FormatNat.simps[of b k])
  have but: "k \<ge> b \<Longrightarrow> butlast (FormatNat b k) = FormatNat b (k div b)" for k
    using assms by (simp add: FormatNat.simps[of b k])
  have small: "k < b \<Longrightarrow> butlast (FormatNat b k) = []" for k
    using assms by (simp add: FormatNat.simps[of b k])
  have "m mod b = n mod b"
  proof (rule digit_char_36_inj)
    show "m mod b < 36" "n mod b < 36"
      using assms mod_less_divisor[of b m] mod_less_divisor[of b n] by linarith+
    show "digit_char (m mod b) = digit_char (n mod b)"
      using less.prems last by metis
  qed
  moreover have "m div b = n div b"
  proof (cases "m < b")
    case True
    then have "FormatNat b (n div b) = [] \<or> n < b"
      using but[of n] small[OF True] less.prems by (cases "n < b") auto
    with True show ?thesis by simp
  next
    case False
    then have "n \<ge> b"
      using but[of m] small[of n] less.prems FormatNat_not_Nil by (metis not_less)
    with False have "FormatNat b (m div b) = FormatNat b (n div b)"
      using but[of m] but[of n] less.prems by simp
    moreover have "m div b < m" using False assms by (intro div_less_dividend) auto
    ultimately show ?thesis using less.IH by blast
  qed
  ultimately show ?case by (metis div_mult_mod_eq)
qed

lemma digit_char_plain: "d < 10 \<Longrightarrow> plain_char (digit_char d)"
  by (auto simp: digit_char_def plain_char_def ascii_spaces_def dest!: arg_cong[where f = "of_char :: char \<Rightarrow> nat"])

lemma plain_FormatNat: "\<forall>c\<in>set (FormatNat 10 n). plain_char c"
  using FormatNat_digits digit_char_plain by blast

lemma trimmed_FormatNat [simp]: "trimmed (FormatNat 10 n)"
  by (rule trimmed_all_plain[OF plain_FormatNat])

subsection \<open>strconv\<close>

definition Itoa :: "int \<Rightarrow> string" where
  "Itoa i = (if i < 0 then CHR ''-'' # FormatNat 10 (nat (- i)) else FormatNat 10 (nat i))"

text \<open>
  The digit loop of \<^verbatim>\<open>ParseUint\<close> stops at the first character that is no digit or that takes
  the value past the maximum, whichever comes first.
\<close>

fun uint_loop :: "nat \<Rightarrow> nat \<Rightarrow> string \<Rightarrow> nat \<times> num_error option" where
  "uint_loop m acc [] = (acc, None)"
| "uint_loop m acc (c # cs) =
     (case digit_val c of
        None \<Rightarrow> (0, Some ErrSyntax)
      | Some d \<Rightarrow> if acc * 10 + d > m then (m, Some ErrRange) else uint_loop m (acc * 10 + d) cs)"

definition ParseUint :: "nat \<Rightarrow> string \<Rightarrow> nat \<times> num_error option" where
  "ParseUint bits s = (if s = [] then (0, Some ErrSyntax) else uint_loop (2 ^ bits - 1) 0 s)"

definition ParseInt64 :: "string \<Rightarrow> int \<times> num_error option" where
  "ParseInt64 s =
     (let neg = (s \<noteq> [] \<and> hd s = CHR ''-'');
          body = (if s \<noteq> [] \<and> (hd s = CHR ''-'' \<or> hd s = CHR ''+'') then tl s else s);
          (un, err) = ParseUint 64 body
      in if err = Some ErrSyntax then (0, err)
         else if \<not> neg \<and> un \<ge> 2 ^ 63 then (2 ^ 63 - 1, Some ErrRange)
         else if neg \<and> un > 2 ^ 63 then (- (2 ^ 63), Some ErrRange)
         else (if neg then - int un else int un, None))"

definition Atoi :: "string \<Rightarrow> int \<times> num_error option" where
  "Atoi s = ParseInt64 s"

definition int64 :: "int \<Rightarrow> bool" where
  "int64 i \<longleftrightarrow> - (2 ^ 63) \<le> i \<and> i < 2 ^ 63"

lemma parse_digits_ge: "parse_digits acc s = Some v \<Longrightarrow> acc \<le> v"
proof (induction s arbitrary: acc)
  case (Cons c s)
  then show ?case by (force split: option.splits)
qed simp

lemma uint_loop_parse_digits:
  "parse_digits acc s = Some v \<Longrightarrow> v \<le> m \<Longrightarrow> uint_loop m acc s = (v, None)"
proof (induction s arbitrary: acc)
  case (Cons c s)
  then obtain d where d: "digit_val c = Some d" "parse_digits (acc * 10 + d) s = Some v"
    by (auto split: option.splits)
  then show ?case using parse_digits_ge[OF d(2)] Cons by simp
qed simp

lemma uint_loop_bound: "acc \<le> m \<Longrightarrow> fst (uint_loop m acc s) \<le> m"
  by (induction s arbitrary: acc) (auto split: option.splits)

lemma ParseUint_bound: "fst (ParseUint bits s) < 2 ^ bits"
proof -
  have pos: "(0 :: nat) < 2 ^ bits" by simp
  have "fst (uint_loop (2 ^ bits - 1) 0 s) \<le> 2 ^ bits - 1" by (rule uint_loop_bound) simp
  with pos have "fst (uint_loop (2 ^ bits - 1) 0 s) < 2 ^ bits" by linarith
  with pos show ?thesis by (simp add: ParseUint_def)
qed

lemma ParseUint_FormatNat [go_simps]: "n < 2 ^ bits \<Longrightarrow> ParseUint bits (FormatNat 10 n) = (n, None)"
  by (simp add: ParseUint_def uint_loop_parse_digits)

lemma FormatNat_hd: "hd (FormatNat 10 n) \<noteq> CHR ''-''" "hd (FormatNat 10 n) \<noteq> CHR ''+''"
proof -
  have "\<exists>d<10. hd (FormatNat 10 n) = digit_char d"
    using FormatNat_digits[of "hd (FormatNat 10 n)" n] by simp
  then show "hd (FormatNat 10 n) \<noteq> CHR ''-''" "hd (FormatNat 10 n) \<noteq> CHR ''+''"
    by (auto simp: digit_char_def dest!: arg_cong[where f = "of_char :: char \<Rightarrow> nat"])
qed

lemma Atoi_Itoa [go_simps]: "int64 i \<Longrightarrow> Atoi (Itoa i) = (i, None)"
  using FormatNat_hd[of "nat i"]
  by (auto simp: Atoi_def ParseInt64_def Itoa_def int64_def Let_def ParseUint_FormatNat)

lemma Atoi_int64: "int64 (fst (Atoi s))"
proof -
  obtain un err where "ParseUint 64 (if s \<noteq> [] \<and> (hd s = CHR ''-'' \<or> hd s = CHR ''+'') then tl s else s) = (un, err)"
    by (rule prod.exhaust)
  then show ?thesis unfolding Atoi_def ParseInt64_def Let_def int64_def by simp
qed

lemma trimmed_Itoa: "trimmed (Itoa i)"
proof -
  have "plain_char CHR ''-''" by (simp add: plain_char_def ascii_spaces_def)
  then show ?thesis using plain_FormatNat by (intro trimmed_all_plain) (auto simp: Itoa_def)
qed

end
