(* ===== verification/Errors.thy ===== *)
theory Errors
  imports Xml_Node Go_Numbers
begin

text \<open>
  The stanza records of \<^verbatim>\<open>src/xmpp/stanza.go\<close>, the structured error of
  \<^verbatim>\<open>src/xmpp/errors.go\<close>, and Go's error values: sentinels, formatted errors that may
  wrap another (\<^verbatim>\<open>fmt.Errorf\<close> with its format, arguments and \<^verbatim>\<open>%w\<close> operand), typed
  errors and the joined list of \<^verbatim>\<open>src/xmpp/events.go\<close>. A fallible function returns
  \<open>go_error + 'a\<close>; its early returns are \<open>Inl\<close>.
\<close>

subsection \<open>Stanza data\<close>

datatype lang_text = LangText (Lang: string) (LValue: string)

record stanza_error =
  se_Type :: string
  se_By :: string
  se_Condition :: string
  se_Text :: string
  se_Application :: "node list"

record message =
  msg_From :: string
  msg_To :: string
  msg_ID :: string
  msg_Type :: string
  msg_Lang :: string
  msg_Subject :: string
  msg_Body :: string
  msg_Thread :: string
  msg_Parent :: string
  msg_Subjects :: "lang_text list"
  msg_Bodies :: "lang_text list"
  msg_Extensions :: "node list"
  msg_Error :: "stanza_error option"

record presence =
  prs_From :: string
  prs_To :: string
  prs_ID :: string
  prs_Type :: string
  prs_Lang :: string
  prs_Show :: string
  prs_Status :: string
  prs_Statuses :: "lang_text list"
  prs_Priority :: "int option"
  prs_Extensions :: "node list"
  prs_Error :: "stanza_error option"

record iq =
  iq_From :: string
  iq_To :: string
  iq_ID :: string
  iq_Type :: string
  iq_Payloads :: "node list"
  iq_Error :: "stanza_error option"

datatype stanza = SMessage message | SPresence presence | SIQ iq

text \<open>Go's zero values, the starting point of every composite literal.\<close>

definition message0 :: message where
  "message0 = \<lparr>msg_From = [], msg_To = [], msg_ID = [], msg_Type = [], msg_Lang = [],
     msg_Subject = [], msg_Body = [], msg_Thread = [], msg_Parent = [], msg_Subjects = [],
     msg_Bodies = [], msg_Extensions = [], msg_Error = None\<rparr>"

definition presence0 :: presence where
  "presence0 = \<lparr>prs_From = [], prs_To = [], prs_ID = [], prs_Type = [], prs_Lang = [],
     prs_Show = [], prs_Status = [], prs_Statuses = [], prs_Priority = None,
     prs_Extensions = [], prs_Error = None\<rparr>"

definition iq0 :: iq where
  "iq0 = \<lparr>iq_From = [], iq_To = [], iq_ID = [], iq_Type = [], iq_Payloads = [], iq_Error = None\<rparr>"

definition stanza_error0 :: stanza_error where
  "stanza_error0 = \<lparr>se_Type = [], se_By = [], se_Condition = [], se_Text = [], se_Application = []\<rparr>"

abbreviation IQGet :: string where "IQGet \<equiv> ''get''"
abbreviation IQSet :: string where "IQSet \<equiv> ''set''"
abbreviation IQResult :: string where "IQResult \<equiv> ''result''"
abbreviation IQError :: string where "IQError \<equiv> ''error''"

abbreviation MessageNormal :: string where "MessageNormal \<equiv> ''normal''"
abbreviation MessageChat :: string where "MessageChat \<equiv> ''chat''"
abbreviation MessageGroupChat :: string where "MessageGroupChat \<equiv> ''groupchat''"
abbreviation MessageErrorType :: string where "MessageErrorType \<equiv> ''error''"

abbreviation PresenceUnavailable :: string where "PresenceUnavailable \<equiv> ''unavailable''"
abbreviation PresenceErrorType :: string where "PresenceErrorType \<equiv> ''error''"

subsection \<open>Error values\<close>

datatype sentinel =
    ErrInvalidJID | ErrNotConnected | ErrClosed | ErrIQTimeout | ErrAuthentication
  | ErrTLSRequired | ErrEOF | ErrUnexpectedEOF | ErrNetClosed | DeadlineExceeded | Canceled
  | ErrNoDevices | ErrNoTrustedDevices | ErrNoKeyForDevice | ErrInvalidEnvelope
  | ErrMissingSession

datatype go_error =
    Sentinel sentinel
  | Errorf string "string list" "go_error option"
  | NumError num_error string
  | CorruptInput
  | StanzaErr "stanza_error option"
  | IQResponseErr iq
  | MultiError "go_error list"
  | Foreign string

type_synonym 'a result = "go_error + 'a"

text \<open>\<^verbatim>\<open>errors.New\<close>-like \<^verbatim>\<open>fmt.Errorf\<close> without a wrapped operand.\<close>

abbreviation Errf :: "string \<Rightarrow> go_error" where
  "Errf f \<equiv> Errorf f [] None"

abbreviation Wrapf :: "string \<Rightarrow> sentinel \<Rightarrow> go_error" where
  "Wrapf f e \<equiv> Errorf f [] (Some (Sentinel e))"

text \<open>\<^verbatim>\<open>errors.Is\<close>: the sentinel occurs in the chain of wrapped errors.\<close>

fun err_is :: "go_error \<Rightarrow> sentinel \<Rightarrow> bool" where
  "err_is (Sentinel s) t \<longleftrightarrow> s = t"
| "err_is (Errorf f as w) t \<longleftrightarrow> (case w of None \<Rightarrow> False | Some e \<Rightarrow> err_is e t)"
| "err_is (MultiError es) t \<longleftrightarrow> list_ex (\<lambda>e. err_is e t) es"
| "err_is _ t \<longleftrightarrow> False"

text \<open>
  \<^verbatim>\<open>joinErrors\<close>: nil errors are dropped; one error is returned as it is, several as a
  \<^verbatim>\<open>multiError\<close>.
\<close>

definition joinErrors :: "go_error option list \<Rightarrow> go_error option" where
  "joinErrors errs =
     (case List.map_filter id errs of
        [] \<Rightarrow> None
      | [e] \<Rightarrow> Some e
      | es \<Rightarrow> Some (MultiError es))"

lemma joinErrors_None [simp]: "joinErrors errs = None \<longleftrightarrow> (\<forall>e\<in>set errs. e = None)"
proof -
  have "List.map_filter id errs = [] \<longleftrightarrow> (\<forall>e\<in>set errs. e = None)"
    by (induction errs) (auto simp: List.map_filter_def)
  then show ?thesis by (auto simp: joinErrors_def split: list.splits)
qed

text \<open>No cause is lost by joining: \<^verbatim>\<open>errors.Is\<close> finds whatever one of the parts matches.\<close>

lemma err_is_joinErrors:
  "joinErrors errs = Some e \<Longrightarrow> err_is e t \<longleftrightarrow> (\<exists>x. Some x \<in> set errs \<and> err_is x t)"
proof -
  have set: "set (List.map_filter id errs) = {x. Some x \<in> set errs}"
    by (force simp: List.map_filter_def)
  assume "joinErrors errs = Some e"
  then consider "List.map_filter id errs = [e]"
    | es where "List.map_filter id errs = es" "e = MultiError es"
    by (auto simp: joinErrors_def split: list.splits)
  then show ?thesis
    by cases (use set in \<open>auto simp: list_ex_iff\<close>)
qed

text \<open>The text of a stanza error: \<^verbatim>\<open>(*StanzaError).Error\<close>, which tolerates a nil receiver.\<close>

definition StanzaError_Error :: "stanza_error option \<Rightarrow> string" where
  "StanzaError_Error e =
     (case e of
        None \<Rightarrow> []
      | Some se \<Rightarrow>
          ''xmpp stanza error''
          @ (if se_Type se \<noteq> [] then '' '' @ se_Type se else [])
          @ (if se_Condition se \<noteq> [] then '': '' @ se_Condition se else [])
          @ (if se_Text se \<noteq> [] then '': '' @ se_Text se else []))"

definition IQResponseError_Error :: "iq option \<Rightarrow> string" where
  "IQResponseError_Error e =
     (case e of
        None \<Rightarrow> ''xmpp: IQ error''
      | Some q \<Rightarrow>
          (case iq_Error q of
             Some se \<Rightarrow> ''xmpp: IQ '' @ iq_ID q @ '' failed: '' @ StanzaError_Error (Some se)
           | None \<Rightarrow> ''xmpp: IQ '' @ iq_ID q @ '' failed''))"

end
