(* ===== verification/Xml_Codec.thy ===== *)
theory Xml_Codec
  imports Errors
begin

text \<open>
  Serialisation of nodes: \<^verbatim>\<open>MarshalXML\<close>, \<^verbatim>\<open>UnmarshalXML\<close>, \<^verbatim>\<open>XML\<close> and
  \<^verbatim>\<open>ParseNode\<close> of \<^verbatim>\<open>src/xmpp/node.go\<close>, on the token streams that Go's
  \<^verbatim>\<open>encoding/xml\<close> encoder takes and its decoder yields. What happens to a token between the
  two (the printed text and its lexing) is \<open>transmit\<close>: the encoder writes the
  namespace of a start tag as an \<^verbatim>\<open>xmlns\<close> attribute in front of the others and drops
  attributes without a name; the decoder keeps that attribute in the list and gives an
  element the default namespace in force. The character data itself is carried
  unchanged. For an attribute in a namespace other than \<^verbatim>\<open>xml\<close> the encoder also declares a
  prefix; the library never writes one, and the results below exclude them.
\<close>

datatype xtoken =
    StartElement xname "attr list"
  | EndElement xname
  | CharData string
  | OtherToken

subsection \<open>Marshalling\<close>

fun marshal :: "node \<Rightarrow> xtoken list result" and marshal_parts :: "part list \<Rightarrow> xtoken list result" where
  "marshal (Node nm as ps) =
     (if Local nm = [] then Inl (Errf ''xmpp: cannot marshal node without a local name'')
      else case marshal_parts ps of
        Inl e \<Rightarrow> Inl e
      | Inr ts \<Rightarrow> Inr (StartElement nm as # ts @ [EndElement nm]))"
| "marshal_parts [] = Inr []"
| "marshal_parts (ChildPart c # ps) =
     (case marshal c of
        Inl e \<Rightarrow> Inl e
      | Inr ts \<Rightarrow> (case marshal_parts ps of Inl e \<Rightarrow> Inl e | Inr us \<Rightarrow> Inr (ts @ us)))"
| "marshal_parts (TextPart t # ps) =
     (case marshal_parts ps of
        Inl e \<Rightarrow> Inl e
      | Inr us \<Rightarrow> Inr (if t \<noteq> [] then CharData t # us else us))"

subsection \<open>Unmarshalling\<close>

text \<open>
  \<open>unmarshal fin n ts\<close> is the loop of \<^verbatim>\<open>UnmarshalXML\<close> on the receiver \<open>n\<close>, whose name and
  attributes come from the start tag already read; \<open>ts\<close> are the tokens still to come and
  \<open>fin\<close> is the error the decoder reports after them. The result carries the tokens left
  over. A nested element is read by a recursive call, and the loop goes on with what
  that call left.
\<close>

function unmarshal :: "go_error \<Rightarrow> node \<Rightarrow> xtoken list \<Rightarrow> (node \<times> xtoken list) result" where
  "unmarshal fin n [] = Inl (if fin = Sentinel ErrEOF then Sentinel ErrUnexpectedEOF else fin)"
| "unmarshal fin n (StartElement nm as # ts) =
     (case unmarshal fin (Node nm as []) ts of
        Inl e \<Rightarrow> Inl e
      | Inr (child, ts') \<Rightarrow> unmarshal fin (AddChild child n) ts')"
| "unmarshal fin n (CharData t # ts) = unmarshal fin (AddText t n) ts"
| "unmarshal fin n (EndElement nm # ts) =
     (if nm = Name n then Inr (n, ts) else unmarshal fin n ts)"
| "unmarshal fin n (OtherToken # ts) = unmarshal fin n ts"
  by pat_completeness auto

termination
proof -
  have consumes: "length rest < length ts"
    if "unmarshal_dom (fin, n, ts)" "unmarshal fin n ts = Inr (m, rest)" for fin n ts m rest
    using that
  proof (induction fin n ts arbitrary: m rest rule: unmarshal.pinduct)
    case (2 fin n nm as ts)
    from "2.prems" "2.hyps" obtain c ts' where
      inner: "unmarshal fin (Node nm as []) ts = Inr (c, ts')" and
      outer: "unmarshal fin (AddChild c n) ts' = Inr (m, rest)"
      by (auto simp: unmarshal.psimps split: sum.splits)
    have "length ts' < length ts" by (rule "2.IH"(1)[OF inner])
    moreover have "length rest < length ts'" by (rule "2.IH"(2)[OF inner refl outer])
    ultimately show ?case by simp
  next
    case (3 fin n t ts)
    then show ?case by (auto simp: unmarshal.psimps less_SucI)
  next
    case (4 fin n nm ts)
    then show ?case by (auto simp: unmarshal.psimps less_SucI split: if_splits)
  next
    case (5 fin n ts)
    then show ?case by (auto simp: unmarshal.psimps less_SucI)
  qed (auto simp: unmarshal.psimps)
  show ?thesis
    by (relation "measure (\<lambda>(fin, n, ts). length ts)") (auto dest: consumes intro: less_SucI)
qed

lemma unmarshal_consumes: "unmarshal fin n ts = Inr (m, rest) \<Longrightarrow> length rest < length ts"
proof (induction fin n ts arbitrary: m rest rule: unmarshal.induct)
  case (2 fin n nm as ts)
  then obtain c ts' where
    inner: "unmarshal fin (Node nm as []) ts = Inr (c, ts')" and
    outer: "unmarshal fin (AddChild c n) ts' = Inr (m, rest)"
    by (auto split: sum.splits)
  then have "length ts' < length ts" "length rest < length ts'"
    using "2.IH"(1)[OF inner] "2.IH"(2)[OF inner refl outer] by auto
  then show ?case by simp
qed (auto intro: less_SucI split: if_splits)

text \<open>
  \<^verbatim>\<open>ParseNode\<close> skips to the first start tag and decodes the element it opens.
\<close>

fun ParseNode :: "go_error \<Rightarrow> xtoken list \<Rightarrow> node result" where
  "ParseNode fin [] = Inl fin"
| "ParseNode fin (StartElement nm as # ts) =
     (case unmarshal fin (Node nm as []) ts of Inl e \<Rightarrow> Inl e | Inr (n, _) \<Rightarrow> Inr n)"
| "ParseNode fin (_ # ts) = ParseNode fin ts"

subsection \<open>Between encoder and decoder\<close>

definition wire_attrs :: "string \<Rightarrow> attr list \<Rightarrow> attr list" where
  "wire_attrs sp as =
     (if sp \<noteq> [] then [Attr (XName [] ''xmlns'') sp] else [])
     @ filter (\<lambda>a. Local (AName a) \<noteq> []) as"

definition default_ns :: "string \<Rightarrow> attr list \<Rightarrow> string" where
  "default_ns d as =
     (case find (\<lambda>a. AName a = XName [] ''xmlns'') (rev as) of Some a \<Rightarrow> AValue a | None \<Rightarrow> d)"

fun transmit :: "string list \<Rightarrow> xtoken list \<Rightarrow> xtoken list" where
  "transmit ds [] = []"
| "transmit ds (StartElement nm as # ts) =
     (let as' = wire_attrs (Space nm) as; d = default_ns (hd ds) as'
      in StartElement (XName d (Local nm)) as' # transmit (d # ds) ts)"
| "transmit ds (EndElement nm # ts) = EndElement (XName (hd ds) (Local nm)) # transmit (tl ds) ts"
| "transmit ds (t # ts) = t # transmit ds ts"

text \<open>The same on trees: what a node looks like after it has been printed and parsed.\<close>

fun wire :: "string \<Rightarrow> node \<Rightarrow> node" and wire_part :: "string \<Rightarrow> part \<Rightarrow> part" where
  "wire d (Node nm as ps) =
     (let as' = wire_attrs (Space nm) as; d' = default_ns d as'
      in Node (XName d' (Local nm)) as' (map (wire_part d') ps))"
| "wire_part d (TextPart t) = TextPart t"
| "wire_part d (ChildPart c) = ChildPart (wire d c)"

text \<open>\<^verbatim>\<open>n.XML()\<close> followed by \<^verbatim>\<open>ParseNode\<close>, with no default namespace in scope.\<close>

definition reparse :: "node \<Rightarrow> node result" where
  "reparse n =
     (case marshal n of
        Inl e \<Rightarrow> Inl e
      | Inr ts \<Rightarrow> ParseNode (Sentinel ErrEOF) (transmit [[]] ts))"

subsection \<open>Normal mixed content\<close>

text \<open>
  \<^verbatim>\<open>AddText\<close> merges adjacent text and drops empty text, so the content of a node that was
  built by the library's own methods has no empty text part and no two in a row.
\<close>

fun is_text :: "part \<Rightarrow> bool" where
  "is_text (TextPart t) = True"
| "is_text (ChildPart c) = False"

definition normal_parts :: "part list \<Rightarrow> bool" where
  "normal_parts ps \<longleftrightarrow> TextPart [] \<notin> set ps \<and> successively (\<lambda>p q. \<not> (is_text p \<and> is_text q)) ps"

fun normal :: "node \<Rightarrow> bool" and normal_part :: "part \<Rightarrow> bool" where
  "normal (Node nm as ps) \<longleftrightarrow> Local nm \<noteq> [] \<and> normal_parts ps \<and> list_all normal_part ps"
| "normal_part (TextPart t) \<longleftrightarrow> True"
| "normal_part (ChildPart c) \<longleftrightarrow> normal c"

lemma normal_parts_simps [simp]:
  "normal_parts []"
  "normal_parts [TextPart t] \<longleftrightarrow> t \<noteq> []"
  "normal_parts (ChildPart c # ps) = normal_parts ps"
  "normal_parts (TextPart t # ps) \<longleftrightarrow> t \<noteq> [] \<and> normal_parts ps \<and> (ps = [] \<or> \<not> is_text (hd ps))"
  by (auto simp: normal_parts_def successively_Cons)

lemma normal_parts_snoc [simp]:
  "normal_parts (ps @ [ChildPart c]) = normal_parts ps"
  "normal_parts (ps @ [TextPart t]) \<longleftrightarrow> normal_parts ps \<and> t \<noteq> [] \<and> (ps = [] \<or> \<not> is_text (last ps))"
  by (auto simp: normal_parts_def successively_append_iff)

lemma normal_parts_snoc2 [simp]:
  "normal_parts (ps @ [ChildPart c, TextPart t]) \<longleftrightarrow> normal_parts ps \<and> t \<noteq> []"
  by (auto simp: normal_parts_def successively_append_iff)

lemma normal_parts_snoc_texts [simp]: "\<not> normal_parts (ps @ [TextPart s, TextPart t])"
  by (auto simp: normal_parts_def successively_append_iff)

lemma normal_NewNode [inv_intros]: "l \<noteq> [] \<Longrightarrow> normal (NewNode ns l)"
  by (simp add: NewNode_def)

lemma normal_AddChild [inv_intros]: "normal n \<Longrightarrow> normal c \<Longrightarrow> normal (AddChild c n)"
  by (cases n) (auto simp: AddChild_def)

lemma normal_SetAttrNS [inv_intros]: "normal n \<Longrightarrow> normal (SetAttrNS s k v n)"
  by (cases n) (simp add: SetAttrNS_def)

lemma normal_SetAttr [inv_intros]: "normal n \<Longrightarrow> normal (SetAttr k v n)"
  by (simp add: SetAttr_def normal_SetAttrNS)

lemma normal_AddText [inv_intros]:
  assumes "normal n"
  shows "normal (AddText t n)"
proof (cases n)
  case (Node nm as ps)
  show ?thesis
  proof (cases ps rule: rev_cases)
    case Nil
    then show ?thesis using assms Node by simp
  next
    case (snoc qs q)
    then show ?thesis
      using assms Node by (cases q) auto
  qed
qed

lemma normal_NewTextNode [inv_intros]: "l \<noteq> [] \<Longrightarrow> normal (NewTextNode ns l t)"
  by (simp add: NewTextNode_def normal_AddText normal_NewNode)

lemma normal_cond_builders [inv_intros]:
  "normal n \<Longrightarrow> normal (SetAttrIf k v n)" "normal n \<Longrightarrow> normal (SetAttrOpt k w n)"
  "normal n \<Longrightarrow> (b \<Longrightarrow> normal c) \<Longrightarrow> normal (AddChildIf b c n)"
  by (auto simp: SetAttrIf_def SetAttrOpt_def AddChildIf_def intro: inv_intros split: option.splits)

lemma normal_AddChildren [inv_intros]: "normal n \<Longrightarrow> \<forall>c\<in>set cs. normal c \<Longrightarrow> normal (AddChildren cs n)"
  unfolding AddChildren_def by (induction cs arbitrary: n) (auto intro: inv_intros)

text \<open>Whatever the unmarshaller builds is normal, names permitting.\<close>

fun tokens_named :: "xtoken list \<Rightarrow> bool" where
  "tokens_named [] = True"
| "tokens_named (StartElement nm as # ts) = (Local nm \<noteq> [] \<and> tokens_named ts)"
| "tokens_named (_ # ts) = tokens_named ts"

lemma unmarshal_normal:
  "unmarshal fin n ts = Inr (m, rest) \<Longrightarrow> tokens_named ts \<Longrightarrow> normal n \<Longrightarrow> normal m \<and> tokens_named rest"
proof (induction fin n ts arbitrary: m rest rule: unmarshal.induct)
  case (2 fin n nm as ts)
  then obtain c ts' where
    inner: "unmarshal fin (Node nm as []) ts = Inr (c, ts')" and
    outer: "unmarshal fin (AddChild c n) ts' = Inr (m, rest)"
    by (auto split: sum.splits)
  have "normal c \<and> tokens_named ts'" by (rule "2.IH"(1)[OF inner]) (use "2.prems" in auto)
  then show ?case by (intro "2.IH"(2)[OF inner refl outer] normal_AddChild "2.prems") auto
qed (auto intro: normal_AddText split: if_splits)

subsection \<open>Round trip\<close>

fun add_part :: "part \<Rightarrow> node \<Rightarrow> node" where
  "add_part (TextPart t) n = AddText t n"
| "add_part (ChildPart c) n = AddChild c n"

lemma Name_add_part [simp]: "Name (add_part p n) = Name n"
  by (cases p) auto

lemma Name_fold_add_part [simp]: "Name (fold add_part ps n) = Name n"
  by (induction ps arbitrary: n) auto

lemma add_part_snoc:
  "normal_parts (qs @ [p]) \<Longrightarrow> add_part p (Node nm as qs) = Node nm as (qs @ [p])"
proof (cases p)
  case (TextPart t)
  assume "normal_parts (qs @ [p])"
  then show ?thesis
    using TextPart by (cases qs rule: rev_cases) (auto split: part.splits)
qed (simp add: AddChild_def)

lemma normal_parts_appendD: "normal_parts (a @ b) \<Longrightarrow> normal_parts a"
  by (auto simp: normal_parts_def successively_append_iff)

lemma fold_add_part:
  "normal_parts (qs @ ps) \<Longrightarrow> fold add_part ps (Node nm as qs) = Node nm as (qs @ ps)"
proof (induction ps arbitrary: qs)
  case (Cons p ps)
  then have "normal_parts (qs @ [p])" using normal_parts_appendD[of "qs @ [p]" ps] by simp
  then show ?case using Cons.IH[of "qs @ [p]"] Cons.prems by (simp add: add_part_snoc del: add_part.simps)
qed simp

lemma is_text_wire [simp]: "is_text (wire_part d p) = is_text p"
  by (cases p) auto

lemma normal_parts_wire [simp]: "normal_parts (map (wire_part d) ps) = normal_parts ps"
proof -
  have "TextPart [] = wire_part d p \<longleftrightarrow> p = TextPart []" for p by (cases p) auto
  then have "TextPart [] \<in> set (map (wire_part d) ps) \<longleftrightarrow> TextPart [] \<in> set ps"
    by (auto simp: image_iff)
  then show ?thesis by (simp add: normal_parts_def successively_map)
qed

lemma transmit_append:
  "marshal n = Inr ts \<Longrightarrow> transmit ds (ts @ us) = transmit ds ts @ transmit ds us"
  "marshal_parts ps = Inr ts \<Longrightarrow> transmit ds (ts @ us) = transmit ds ts @ transmit ds us"
proof (induction n and ps arbitrary: ts ds us and ts ds us rule: marshal_marshal_parts.induct)
  case (1 nm as ps)
  then obtain vs where vs: "marshal_parts ps = Inr vs" "ts = StartElement nm as # vs @ [EndElement nm]"
    by (auto split: if_splits sum.splits)
  then have app: "transmit es (vs @ ws) = transmit es vs @ transmit es ws" for es ws
    using 1 by (auto split: if_splits)
  show ?case by (simp add: vs(2) app Let_def)
next
  case (3 c ps)
  then obtain cs rs where "marshal c = Inr cs" "marshal_parts ps = Inr rs" "ts = cs @ rs"
    by (auto split: sum.splits)
  then show ?case using 3 by simp
next
  case (4 t ps)
  then obtain rs where "marshal_parts ps = Inr rs" "ts = (if t \<noteq> [] then CharData t # rs else rs)"
    by (auto split: sum.splits)
  then show ?case using 4 by simp
qed auto

lemma unmarshal_marshal:
  "marshal c = Inr ts \<Longrightarrow> normal c \<Longrightarrow>
     unmarshal fin n (transmit (d # ds) ts @ rest) = unmarshal fin (AddChild (wire d c) n) rest"
  "marshal_parts ps = Inr ts \<Longrightarrow> list_all normal_part ps \<Longrightarrow>
     unmarshal fin n (transmit (d # ds) ts @ rest) =
       unmarshal fin (fold add_part (map (wire_part d) ps) n) rest"
proof (induction c and ps arbitrary: ts n d ds rest and ts n d ds rest rule: marshal_marshal_parts.induct)
  case (1 nm as ps)
  then obtain vs where vs: "marshal_parts ps = Inr vs" "ts = StartElement nm as # vs @ [EndElement nm]"
    by (auto split: if_splits sum.splits)
  define as' where "as' = wire_attrs (Space nm) as"
  define d' where "d' = default_ns d as'"
  let ?m = "Node (XName d' (Local nm)) as' []"
  have "unmarshal fin ?m (transmit (d' # d # ds) vs @ EndElement (XName d' (Local nm)) # rest)
      = unmarshal fin (fold add_part (map (wire_part d') ps) ?m) (EndElement (XName d' (Local nm)) # rest)"
    by (rule "1.IH") (use "1.prems" vs in \<open>auto split: if_splits\<close>)
  also have "fold add_part (map (wire_part d') ps) ?m = wire d (Node nm as ps)"
    using "1.prems" fold_add_part[of "[]" "map (wire_part d') ps"]
    by (simp add: as'_def d'_def Let_def)
  finally have inner: "unmarshal fin ?m (transmit (d' # d # ds) vs @ EndElement (XName d' (Local nm)) # rest)
      = Inr (wire d (Node nm as ps), rest)"
    by (simp add: as'_def d'_def Let_def)
  have "transmit (d # ds) ts = StartElement (XName d' (Local nm)) as' #
      transmit (d' # d # ds) vs @ [EndElement (XName d' (Local nm))]"
    by (simp add: vs(2) transmit_append(2)[OF vs(1)] as'_def d'_def Let_def)
  then show ?case using inner by simp
next
  case (3 c ps)
  then obtain cs rs where cs: "marshal c = Inr cs" "marshal_parts ps = Inr rs" "ts = cs @ rs"
    by (auto split: sum.splits)
  then show ?case using 3 by (simp add: transmit_append(1)[OF cs(1)])
next
  case (4 t ps)
  then obtain rs where "marshal_parts ps = Inr rs" "ts = (if t \<noteq> [] then CharData t # rs else rs)"
    by (auto split: sum.splits)
  moreover have "AddText [] n = n" by (cases n) simp
  ultimately show ?case using 4 by auto
qed auto

lemma marshal_normal: "normal n \<Longrightarrow> \<exists>ts. marshal n = Inr ts"
  and marshal_parts_normal: "list_all normal_part ps \<Longrightarrow> \<exists>ts. marshal_parts ps = Inr ts"
  by (induction n and ps rule: marshal_marshal_parts.induct) auto

lemma ParseNode_marshal:
  assumes "normal n" "marshal n = Inr ts"
  shows "ParseNode fin (transmit [d] ts) = Inr (wire d n)"
proof -
  obtain nm as ps where n: "n = Node nm as ps" by (cases n)
  obtain vs where vs: "marshal_parts ps = Inr vs"
    using assms marshal_parts_normal[of ps] by (auto simp: n)
  define as' where "as' = wire_attrs (Space nm) as"
  define d' where "d' = default_ns d as'"
  let ?m = "Node (XName d' (Local nm)) as' []"
  have "unmarshal fin ?m (transmit [d', d] vs @ [EndElement (XName d' (Local nm))])
      = unmarshal fin (fold add_part (map (wire_part d') ps) ?m) [EndElement (XName d' (Local nm))]"
    by (rule unmarshal_marshal(2)[OF vs]) (use assms in \<open>simp add: n\<close>)
  also have "fold add_part (map (wire_part d') ps) ?m = wire d n"
    using assms fold_add_part[of "[]" "map (wire_part d') ps"]
    by (simp add: as'_def d'_def Let_def n)
  finally have "unmarshal fin ?m (transmit [d', d] vs @ [EndElement (XName d' (Local nm))])
      = Inr (wire d n, [])"
    by (simp add: as'_def d'_def Let_def n)
  moreover have "ts = StartElement nm as # vs @ [EndElement nm]"
    using assms vs by (auto simp: n split: if_splits)
  ultimately show ?thesis
    by (simp add: n transmit_append(2)[OF vs] as'_def d'_def Let_def)
qed

lemma reparse_normal: "normal n \<Longrightarrow> reparse n = Inr (wire [] n)"
  using marshal_normal[of n] by (auto simp: reparse_def ParseNode_marshal)

subsection \<open>What survives the wire\<close>

lemma Children_wire:
  "Children (wire d n) = map (wire (default_ns d (wire_attrs (Space (Name n)) (Attrs n)))) (Children n)"
proof (cases n)
  case (Node nm as ps)
  have "part_children (wire_part d' p) = map (wire d') (part_children p)" for d' p
    by (cases p) auto
  then show ?thesis using Node by (simp add: Children_def Let_def map_concat comp_def)
qed

lemma Text_wire [simp]: "Text (wire d n) = Text n"
proof (cases n)
  case (Node nm as ps)
  have "part_text (wire_part d' p) = part_text p" for d' p by (cases p) auto
  then show ?thesis using Node by (simp add: Text_def Let_def comp_def)
qed

lemma Local_wire [simp]: "Local (Name (wire d n)) = Local (Name n)"
  by (cases n) (simp add: Let_def)

lemma get_attr_filter: "Local k \<noteq> [] \<Longrightarrow> get_attr_list k (filter (\<lambda>a. Local (AName a) \<noteq> []) as) = get_attr_list k as"
  by (induction as) auto

lemma AttrValueNS_wire:
  "k \<noteq> [] \<Longrightarrow> (s, k) \<noteq> ([], ''xmlns'') \<Longrightarrow> AttrValueNS s k (wire d n) = AttrValueNS s k n"
  by (cases n) (auto simp: AttrValueNS_def Let_def wire_attrs_def get_attr_filter)

lemma AttrValue_wire [simp]: "k \<noteq> [] \<Longrightarrow> k \<noteq> ''xmlns'' \<Longrightarrow> AttrValue k (wire d n) = AttrValue k n"
  by (simp add: AttrValue_def AttrValueNS_wire)

text \<open>
  A tree is \<open>scoped\<close> when no element relies on an inherited namespace and every attribute
  is \<open>plain\<close>: named, not itself called \<^verbatim>\<open>xmlns\<close>, and either without a namespace or in the
  \<^verbatim>\<open>xml\<close> namespace (the encoder declares a prefix for any other). Parsing then restores
  every name.
\<close>

definition plain_attr :: "attr \<Rightarrow> bool" where
  "plain_attr a \<longleftrightarrow> Local (AName a) \<noteq> [] \<and> AName a \<noteq> XName [] ''xmlns''
     \<and> (Space (AName a) = [] \<or> Space (AName a) = xml_ns)"

fun scoped :: "string \<Rightarrow> node \<Rightarrow> bool" and scoped_part :: "string \<Rightarrow> part \<Rightarrow> bool" where
  "scoped d (Node nm as ps) \<longleftrightarrow> (Space nm \<noteq> [] \<or> d = [])
     \<and> list_all plain_attr as
     \<and> list_all (scoped_part (if Space nm \<noteq> [] then Space nm else d)) ps"
| "scoped_part d (TextPart t) \<longleftrightarrow> True"
| "scoped_part d (ChildPart c) \<longleftrightarrow> scoped d c"

fun strip_xmlns :: "node \<Rightarrow> node" and strip_part :: "part \<Rightarrow> part" where
  "strip_xmlns (Node nm as ps) =
     Node nm (filter (\<lambda>a. AName a \<noteq> XName [] ''xmlns'') as) (map strip_part ps)"
| "strip_part (TextPart t) = TextPart t"
| "strip_part (ChildPart c) = ChildPart (strip_xmlns c)"

lemma default_ns_scoped:
  assumes "list_all plain_attr as"
  shows "default_ns d (wire_attrs sp as) = (if sp \<noteq> [] then sp else d)"
proof -
  have "find (\<lambda>a. AName a = XName [] ''xmlns'') (rev (filter (\<lambda>a. Local (AName a) \<noteq> []) as)) = None"
    using assms by (auto simp: find_None_iff list_all_iff plain_attr_def)
  then show ?thesis by (simp add: default_ns_def wire_attrs_def find_append_split)
qed

lemma strip_wire:
  "scoped d n \<Longrightarrow> strip_xmlns (wire d n) = n"
  "scoped_part d p \<Longrightarrow> strip_part (wire_part d p) = p"
proof (induction d n and d p rule: wire_wire_part.induct)
  case (1 d nm as ps)
  let ?as = "wire_attrs (Space nm) as"
  have d: "default_ns d ?as = (if Space nm \<noteq> [] then Space nm else d)"
    using 1 by (intro default_ns_scoped) simp
  have as: "filter (\<lambda>a. AName a \<noteq> XName [] ''xmlns'') ?as = as"
    using 1 by (auto simp: wire_attrs_def list_all_iff filter_id_conv plain_attr_def)
  have "map (strip_part \<circ> wire_part (default_ns d ?as)) ps = ps"
    using 1 by (intro map_idI) (auto simp: d list_all_iff)
  moreover have "XName (default_ns d ?as) (Local nm) = nm"
    using "1.prems" d by (cases nm) auto
  ultimately show ?case by (simp add: Let_def as)
qed auto

subsection \<open>Properties\<close>


definition example_node :: node where
  "example_node =
     AddText '' tail'' (AddChild (NewTextNode ''urn:b'' ''c'' ''inner'')
       (AddText ''lead '' (SetAttr ''k'' ''v'' (NewNode ''urn:a'' ''e''))))"


text \<open>Printing a parsed element again writes its namespace twice: once from the name and once
  from the \<^verbatim>\<open>xmlns\<close> attribute the decoder kept. A start tag with two attributes of one name
  is not well-formed XML. The library does this whenever it echoes a received payload.\<close>

theorem remarshal_duplicates_xmlns:
  assumes "normal n" "scoped [] n" "Space (Name n) \<noteq> []" "reparse n = Inr m"
  shows "\<not> distinct (map AName (wire_attrs (Space (Name m)) (Attrs m)))"
proof -
  have m: "m = wire [] n" using assms reparse_normal by simp
  obtain nm as ps where n: "n = Node nm as ps" by (cases n)
  have d: "default_ns [] (wire_attrs (Space nm) as) = Space nm"
    using assms by (subst default_ns_scoped) (auto simp: n)
  show ?thesis using assms by (simp add: m n Let_def d) (simp add: wire_attrs_def)
qed

theorem remarshal_duplicates_xmlns_witness:
  "\<not> distinct (map AName (wire_attrs ''urn:a'' (Attrs (wire [] (NewNode ''urn:a'' ''e'')))))"
  using remarshal_duplicates_xmlns[of "NewNode ''urn:a'' ''e''" "wire [] (NewNode ''urn:a'' ''e'')"]
  by (simp add: reparse_normal NewNode_def Let_def wire_attrs_def default_ns_def)

end
