(* ===== verification/Jid.thy ===== *)
theory Jid
  imports Errors
begin

text \<open>
  Jabber identifiers, \<^verbatim>\<open>src/xmpp/jid.go\<close> and \<^verbatim>\<open>BareJIDString\<close> of \<^verbatim>\<open>src/xmpp/stanza.go\<close>:
  parsing with structural validation, printing, the bare form, and XEP-0106 escaping.
  Proved: whatever the parser accepts is well formed, parsing inverts printing on
  canonical identifiers, cutting the resource off the printed form gives the bare form,
  and unescaping inverts escaping.
\<close>

record jid =
  jid_Local :: string
  jid_Domain :: string
  jid_Resource :: string

text \<open>
  The parser works from the outside in: trim, cut the resource at the first slash, cut the
  localpart at the last at-sign, normalise and check the domain, check the parts.
\<close>

definition parse_domain :: "unicode \<Rightarrow> string \<Rightarrow> string \<Rightarrow> string \<Rightarrow> jid result" where
  "parse_domain U local domain0 resource =
     (let domain = TrimSuffix (ToLower U (TrimSpace domain0)) ''.''
      in if domain = [] \<or> ContainsAny domain [CHR 0x40, CHR ''/'', CHR '' '', CHR 0x09, CHR 0x0D, CHR 0x0A]
         then Inl (Wrapf ''%w: invalid domainpart'' ErrInvalidJID)
         else if ContainsAny local [CHR 0x40, CHR ''/'', CHR 0x00, CHR 0x0D, CHR 0x0A]
               \<or> ContainsAny resource [CHR 0x00, CHR 0x0D, CHR 0x0A]
         then Inl (Sentinel ErrInvalidJID)
         else Inr \<lparr>jid_Local = local, jid_Domain = domain, jid_Resource = resource\<rparr>)"

definition parse_local :: "unicode \<Rightarrow> string \<Rightarrow> string \<Rightarrow> jid result" where
  "parse_local U value resource =
     (case LastIndexByte value CHR 0x40 of
        Some i \<Rightarrow>
          if take i value = [] then Inl (Wrapf ''%w: empty localpart'' ErrInvalidJID)
          else parse_domain U (take i value) (drop (Suc i) value) resource
      | None \<Rightarrow> parse_domain U [] value resource)"

definition ParseJID :: "unicode \<Rightarrow> string \<Rightarrow> jid result" where
  "ParseJID U v =
     (let value = TrimSpace v in
      if value = [] then Inl (Sentinel ErrInvalidJID)
      else case IndexByte value CHR ''/'' of
        Some i \<Rightarrow>
          if drop (Suc i) value = [] then Inl (Wrapf ''%w: empty resource'' ErrInvalidJID)
          else parse_local U (take i value) (drop (Suc i) value)
      | None \<Rightarrow> parse_local U value [])"

definition JID_Bare :: "jid \<Rightarrow> string" where
  "JID_Bare j = (if jid_Local j \<noteq> [] then jid_Local j @ [CHR 0x40] @ jid_Domain j else jid_Domain j)"

definition JID_String :: "jid \<Rightarrow> string" where
  "JID_String j =
     (let base = jid_Domain j;
          base = (if jid_Local j \<noteq> [] then jid_Local j @ [CHR 0x40] @ base else base)
      in if jid_Resource j \<noteq> [] then base @ ''/'' @ jid_Resource j else base)"

definition JID_IsBare :: "jid \<Rightarrow> bool" where
  "JID_IsBare j \<longleftrightarrow> jid_Resource j = []"

definition JID_IsDomain :: "jid \<Rightarrow> bool" where
  "JID_IsDomain j \<longleftrightarrow> jid_Local j = [] \<and> jid_Resource j = []"

definition JID_WithResource :: "jid \<Rightarrow> string \<Rightarrow> jid" where
  "JID_WithResource j r = j\<lparr>jid_Resource := r\<rparr>"

definition JID_EqualBare :: "unicode \<Rightarrow> jid \<Rightarrow> jid \<Rightarrow> bool" where
  "JID_EqualBare U j other \<longleftrightarrow>
     jid_Local j = jid_Local other \<and> EqualFold U (jid_Domain j) (jid_Domain other)"

definition BareJIDString :: "string \<Rightarrow> string" where
  "BareJIDString value = (case IndexByte value CHR ''/'' of Some i \<Rightarrow> take i value | None \<Rightarrow> value)"

subsection \<open>XEP-0106 escaping\<close>

definition escape_pairs :: "(char \<times> string) list" where
  "escape_pairs =
     [(CHR 0x5C, [CHR 0x5C] @ ''5c''), (CHR '' '', [CHR 0x5C] @ ''20''),
      (CHR 0x22, [CHR 0x5C] @ ''22''), (CHR ''&'', [CHR 0x5C] @ ''26''),
      (CHR 0x27, [CHR 0x5C] @ ''27''), (CHR ''/'', [CHR 0x5C] @ ''2f''),
      (CHR '':'', [CHR 0x5C] @ ''3a''), (CHR ''<'', [CHR 0x5C] @ ''3c''),
      (CHR ''>'', [CHR 0x5C] @ ''3e''), (CHR 0x40, [CHR 0x5C] @ ''40'')]"

definition escapeLocalReplacer :: "(string \<times> string) list" where
  "escapeLocalReplacer = map (\<lambda>(c, e). ([c], e)) escape_pairs"

definition unescapeLocalReplacer :: "(string \<times> string) list" where
  "unescapeLocalReplacer = map (\<lambda>(c, e). (e, [c])) (tl escape_pairs @ [hd escape_pairs])"

definition EscapeLocal :: "string \<Rightarrow> string" where
  "EscapeLocal local = Replacer escapeLocalReplacer local"

definition UnescapeLocal :: "string \<Rightarrow> string" where
  "UnescapeLocal local = Replacer unescapeLocalReplacer local"

subsection \<open>Well-formed and canonical identifiers\<close>

definition wf_jid :: "jid \<Rightarrow> bool" where
  "wf_jid j \<longleftrightarrow> jid_Domain j \<noteq> []
     \<and> set (jid_Domain j) \<inter> {CHR 0x40, CHR ''/'', CHR '' '', CHR 0x09, CHR 0x0D, CHR 0x0A} = {}
     \<and> set (jid_Local j) \<inter> {CHR 0x40, CHR ''/'', CHR 0x00, CHR 0x0D, CHR 0x0A} = {}
     \<and> set (jid_Resource j) \<inter> {CHR 0x00, CHR 0x0D, CHR 0x0A} = {}"

text \<open>
  Canonical: in addition the domain is what the parser's normalisation makes of it, and
  the printed form has no white space at either end.
\<close>

definition canonical_jid :: "unicode \<Rightarrow> jid \<Rightarrow> bool" where
  "canonical_jid U j \<longleftrightarrow> wf_jid j \<and> trimmed (jid_Domain j) \<and> ToLower U (jid_Domain j) = jid_Domain j
     \<and> \<not> suffix ''.'' (jid_Domain j) \<and> trimmed (JID_String j)"

lemma parse_domain_wf: "parse_domain U l d r = Inr j \<Longrightarrow> wf_jid j"
  by (auto simp: parse_domain_def wf_jid_def ContainsAny_iff Let_def split: if_splits)

lemma ParseJID_wf_lemma: "ParseJID U s = Inr j \<Longrightarrow> wf_jid j"
  unfolding ParseJID_def parse_local_def Let_def
  by (auto dest: parse_domain_wf split: if_splits option.splits)

lemma JID_String_not_Nil: "wf_jid j \<Longrightarrow> JID_String j \<noteq> []"
  by (auto simp: JID_String_def wf_jid_def Let_def)

lemma JID_String_eq:
  "JID_String j = (if jid_Resource j \<noteq> [] then JID_Bare j @ ''/'' @ jid_Resource j else JID_Bare j)"
  by (simp add: JID_String_def JID_Bare_def Let_def)

lemma slash_notin_Bare: "wf_jid j \<Longrightarrow> CHR ''/'' \<notin> set (JID_Bare j)"
  by (auto simp: JID_Bare_def wf_jid_def)

lemma BareJIDString_no_slash [simp]: "CHR ''/'' \<notin> set s \<Longrightarrow> BareJIDString s = s"
  by (simp add: BareJIDString_def)

lemma BareJIDString_split [simp]: "CHR ''/'' \<notin> set a \<Longrightarrow> BareJIDString (a @ CHR ''/'' # b) = a"
  by (simp add: BareJIDString_def)

lemma slash_notin_BareJIDString [simp]: "CHR ''/'' \<notin> set (BareJIDString s)"
  by (auto simp: BareJIDString_def split: option.splits dest: IndexByte_SomeD)

lemma BareJIDString_idem [simp]: "BareJIDString (BareJIDString s) = BareJIDString s"
  by simp

lemma prefix_BareJIDString: "prefix (BareJIDString s) s"
  by (auto simp: BareJIDString_def take_is_prefix split: option.splits)

lemma parse_domain_canonical:
  assumes "canonical_jid U j"
  shows "parse_domain U (jid_Local j) (jid_Domain j) (jid_Resource j) = Inr j"
  using assms
  by (simp add: parse_domain_def canonical_jid_def wf_jid_def ContainsAny_iff TrimSuffix_id Let_def)

lemma parse_local_canonical:
  assumes "canonical_jid U j"
  shows "parse_local U (JID_Bare j) (jid_Resource j) = Inr j"
proof (cases "jid_Local j = []")
  case True
  then have "LastIndexByte (JID_Bare j) CHR 0x40 = None"
    using assms by (auto simp: JID_Bare_def canonical_jid_def wf_jid_def)
  then show ?thesis
    using True parse_domain_canonical[OF assms] by (simp add: parse_local_def JID_Bare_def)
next
  case False
  then have "LastIndexByte (JID_Bare j) CHR 0x40 = Some (length (jid_Local j))"
    using assms by (auto simp: JID_Bare_def canonical_jid_def wf_jid_def)
  then show ?thesis
    using False parse_domain_canonical[OF assms] by (simp add: parse_local_def JID_Bare_def)
qed

lemma ParseJID_String:
  assumes "canonical_jid U j"
  shows "ParseJID U (JID_String j) = Inr j"
proof -
  have wf: "wf_jid j" and t: "TrimSpace (JID_String j) = JID_String j"
    using assms by (simp_all add: canonical_jid_def)
  have slash: "CHR ''/'' \<notin> set (JID_Bare j)"
    by (rule slash_notin_Bare[OF wf])
  show ?thesis
  proof (cases "jid_Resource j = []")
    case True
    then show ?thesis
      using parse_local_canonical[OF assms] t slash JID_String_not_Nil[OF wf]
      by (simp add: ParseJID_def JID_String_eq)
  next
    case False
    then show ?thesis
      using parse_local_canonical[OF assms] t slash
      by (simp add: ParseJID_def JID_String_eq)
  qed
qed

lemma unescape_escape_step:
  assumes "(c, e) \<in> set escape_pairs"
  shows "find (\<lambda>(old, new). old \<noteq> [] \<and> prefix old (e @ s)) unescapeLocalReplacer = Some (e, [c])"
  using assms unfolding escape_pairs_def unescapeLocalReplacer_def
  by (simp only: set_simps insert_iff empty_iff prod.inject, elim disjE conjE) simp_all

lemma escape_find:
  "find (\<lambda>(old, new). old \<noteq> [] \<and> prefix old (c # s)) escapeLocalReplacer =
     map_option (\<lambda>e. ([c], e)) (map_of escape_pairs c)"
proof -
  have "find (\<lambda>(old, new). old \<noteq> [] \<and> prefix old (c # s)) (map (\<lambda>(c, e). ([c], e)) ps) =
     map_option (\<lambda>e. ([c], e)) (map_of ps c)" for ps :: "(char \<times> string) list"
    by (induction ps) auto
  then show ?thesis by (simp add: escapeLocalReplacer_def)
qed

lemma unescape_plain:
  assumes "c \<noteq> CHR 0x5C"
  shows "find (\<lambda>(old, new). old \<noteq> [] \<and> prefix old (c # s)) unescapeLocalReplacer = None"
  using assms by (simp add: escape_pairs_def unescapeLocalReplacer_def)

lemma escape_len: "(c, e) \<in> set escape_pairs \<Longrightarrow> length e = 3"
  by (auto simp: escape_pairs_def)

lemma Unescape_Escape: "UnescapeLocal (EscapeLocal s) = s"
proof (induction s)
  case Nil
  show ?case by (simp add: EscapeLocal_def UnescapeLocal_def)
next
  case (Cons c s)
  show ?case
  proof (cases "map_of escape_pairs c")
    case None
    then have "c \<noteq> CHR 0x5C" by (auto simp: escape_pairs_def)
    with None show ?thesis
      using Cons unescape_plain by (simp add: EscapeLocal_def UnescapeLocal_def escape_find)
  next
    case (Some e)
    then have mem: "(c, e) \<in> set escape_pairs" by (rule map_of_SomeD)
    obtain x y z where e: "e = [x, y, z]"
      using escape_len[OF mem] by (auto simp: numeral_3_eq_3 length_Suc_conv)
    have "EscapeLocal (c # s) = e @ EscapeLocal s"
      using Some by (simp add: EscapeLocal_def escape_find)
    then show ?thesis
      using Cons unescape_escape_step[OF mem, of "EscapeLocal s"] by (simp add: UnescapeLocal_def e)
  qed
qed

subsection \<open>Properties\<close>

text \<open>Every identifier the parser accepts is well formed (a non-empty domain without
  at-signs, slashes or blanks, a localpart without at-signs, slashes or control characters, a
  resource without control characters), and cutting its printed form at the first slash, as
  the rest of the library does with strings off the wire, gives exactly its bare form.\<close>

theorem ParseJID_well_formed:
  assumes "ParseJID U s = Inr j"
  shows "wf_jid j \<and> BareJIDString (JID_String j) = JID_Bare j"
proof -
  have wf: "wf_jid j" using assms by (rule ParseJID_wf_lemma)
  then show ?thesis using slash_notin_Bare[OF wf] by (simp add: JID_String_eq)
qed

text \<open>C1: parsing the printed form of a canonical identifier gives it back, with or without
  localpart and resource.\<close>

theorem ParseJID_String_roundtrip:
  assumes "canonical_jid U j"
  shows "ParseJID U (JID_String j) = Inr j"
  using assms by (rule ParseJID_String)

definition example_unicode :: unicode where
  "example_unicode = \<lparr>uni_lower = id, uni_upper = id, uni_fold = (=)\<rparr>"

definition example_jid :: jid where
  "example_jid = \<lparr>jid_Local = ''romeo'', jid_Domain = ''example.org'', jid_Resource = ''orchard''\<rparr>"

lemma example_jid_canonical: "canonical_jid example_unicode example_jid"
proof -
  have "trimmed ''example.org''" "trimmed (JID_String example_jid)"
    by (rule trimmed_plain_ends; simp add: plain_char_def ascii_spaces_def example_jid_def JID_String_def)+
  then show ?thesis
    by (simp add: canonical_jid_def wf_jid_def example_jid_def ToLower_def ascii_def lower_char_def
        suffix_def)
qed

theorem ParseJID_String_roundtrip_witness:
  "canonical_jid example_unicode example_jid
   \<and> ParseJID example_unicode (JID_String example_jid) = Inr example_jid"
  using example_jid_canonical ParseJID_String_roundtrip[OF example_jid_canonical] by blast

theorem ParseJID_well_formed_witness:
  "wf_jid example_jid \<and> BareJIDString (JID_String example_jid) = JID_Bare example_jid"
  by (rule ParseJID_well_formed[OF ParseJID_String[OF example_jid_canonical]])

text \<open>XEP-0106 unescaping inverts escaping on every localpart.\<close>

theorem UnescapeLocal_EscapeLocal: "UnescapeLocal (EscapeLocal s) = s"
  by (rule Unescape_Escape)

text \<open>The parser removes one trailing dot of the domain only, so its result is not always
  canonical: \<open>a..\<close> is accepted with domain \<open>a.\<close>, whose own parse has domain \<open>a\<close>.\<close>

theorem ParseJID_not_idempotent:
  "ParseJID U ''a..'' = Inr \<lparr>jid_Local = [], jid_Domain = ''a.'', jid_Resource = []\<rparr>
   \<and> ParseJID U ''a.'' = Inr \<lparr>jid_Local = [], jid_Domain = ''a'', jid_Resource = []\<rparr>"
proof -
  have "trimmed ''a..''" "trimmed ''a.''"
    by (rule trimmed_plain_ends; simp add: plain_char_def ascii_spaces_def)+
  then show ?thesis
    by (simp add: ParseJID_def parse_local_def parse_domain_def ToLower_def ascii_def lower_char_def
        TrimSuffix_def ContainsAny_def suffix_def)
qed

end
