(* ===== verification/Stanza.thy ===== *)
theory Stanza
  imports Xml_Codec Jid
begin

text \<open>
  Messages, presences and IQs: \<^verbatim>\<open>src/xmpp/stanza.go\<close>. \<^verbatim>\<open>MarshalXML\<close> of each stanza is
  modelled on the token stream it writes, \<^verbatim>\<open>stanzaFromNode\<close> on the tree it reads. The
  main results give, for each kind of stanza, exactly what the library reads back from
  what it wrote.
\<close>

abbreviation stanzaErrorNS :: string where
  "stanzaErrorNS \<equiv> ''urn:ietf:params:xml:ns:xmpp-stanzas''"

subsection \<open>Accessors and replies\<close>

fun Kind :: "stanza \<Rightarrow> string" where
  "Kind (SMessage m) = ''message''"
| "Kind (SPresence p) = ''presence''"
| "Kind (SIQ i) = ''iq''"

fun StanzaID :: "stanza \<Rightarrow> string" where
  "StanzaID (SMessage m) = msg_ID m"
| "StanzaID (SPresence p) = prs_ID p"
| "StanzaID (SIQ i) = iq_ID i"

fun StanzaFrom :: "stanza \<Rightarrow> string" where
  "StanzaFrom (SMessage m) = msg_From m"
| "StanzaFrom (SPresence p) = prs_From p"
| "StanzaFrom (SIQ i) = iq_From i"

fun StanzaTo :: "stanza \<Rightarrow> string" where
  "StanzaTo (SMessage m) = msg_To m"
| "StanzaTo (SPresence p) = prs_To p"
| "StanzaTo (SIQ i) = iq_To i"

fun findExtension :: "node list \<Rightarrow> string \<Rightarrow> string \<Rightarrow> node option" where
  "findExtension [] ns local = None"
| "findExtension (n # nodes) ns local =
     (if Local (Name n) = local \<and> (ns = [] \<or> Space (Name n) = ns) then Some (clone n)
      else findExtension nodes ns local)"

definition Message_Extension :: "message \<Rightarrow> string \<Rightarrow> string \<Rightarrow> node option" where
  "Message_Extension m ns local = findExtension (msg_Extensions m) ns local"

definition Presence_Extension :: "presence \<Rightarrow> string \<Rightarrow> string \<Rightarrow> node option" where
  "Presence_Extension p ns local = findExtension (prs_Extensions p) ns local"

definition Message_Reply :: "message \<Rightarrow> string \<Rightarrow> message" where
  "Message_Reply m body =
     (let kind = (if msg_Type m = [] then MessageNormal else msg_Type m);
          to' = (if kind = MessageGroupChat then BareJIDString (msg_From m) else msg_From m)
      in message0\<lparr>msg_To := to', msg_Type := kind, msg_Body := body, msg_Thread := msg_Thread m\<rparr>)"

definition cloneNodes :: "node list \<Rightarrow> node list" where
  "cloneNodes nodes = map clone nodes"

definition IQ_Payload :: "iq \<Rightarrow> node option" where
  "IQ_Payload i = (case iq_Payloads i of [] \<Rightarrow> None | p # _ \<Rightarrow> Some (clone p))"

definition IQ_Result :: "iq \<Rightarrow> node list \<Rightarrow> iq" where
  "IQ_Result i payloads =
     iq0\<lparr>iq_To := iq_From i, iq_From := iq_To i, iq_ID := iq_ID i, iq_Type := IQResult,
         iq_Payloads := payloads\<rparr>"

definition IQ_ErrorResult :: "iq \<Rightarrow> stanza_error option \<Rightarrow> iq" where
  "IQ_ErrorResult i e =
     iq0\<lparr>iq_To := iq_From i, iq_From := iq_To i, iq_ID := iq_ID i, iq_Type := IQError,
         iq_Payloads := cloneNodes (iq_Payloads i), iq_Error := e\<rparr>"

subsection \<open>Writing\<close>

definition stanzaStart_attrs :: "string \<Rightarrow> string \<Rightarrow> string \<Rightarrow> string \<Rightarrow> string \<Rightarrow> attr list" where
  "stanzaStart_attrs from to' id' kind lang =
     map (\<lambda>(name, value). Attr (XName [] name) value)
       (filter (\<lambda>(name, value). value \<noteq> [])
         [(''from'', from), (''to'', to'), (''id'', id'), (''type'', kind)])
     @ (if lang \<noteq> [] then [Attr (XName xml_ns ''lang'') lang] else [])"

text \<open>\<^verbatim>\<open>enc.EncodeElement\<close> of a string: the start tag, its character data, the end tag.\<close>

definition EncodeElement :: "string \<Rightarrow> xname \<Rightarrow> attr list \<Rightarrow> xtoken list" where
  "EncodeElement value nm as =
     [StartElement nm as] @ (if value \<noteq> [] then [CharData value] else []) @ [EndElement nm]"

definition encodeLangText :: "string \<Rightarrow> lang_text \<Rightarrow> xtoken list" where
  "encodeLangText local v =
     EncodeElement (LValue v) (XName [] local)
       (if Lang v \<noteq> [] then [Attr (XName xml_ns ''lang'') (Lang v)] else [])"

text \<open>
  A localized text list after its unlocalized default: the default first, then every
  entry that does not repeat it.
\<close>

definition lang_entries :: "string \<Rightarrow> lang_text list \<Rightarrow> lang_text list" where
  "lang_entries dflt vs =
     (if dflt \<noteq> [] then [LangText [] dflt] else [])
     @ filter (\<lambda>v. \<not> (Lang v = [] \<and> LValue v = dflt)) vs"

definition encodeLangTexts :: "string \<Rightarrow> string \<Rightarrow> lang_text list \<Rightarrow> xtoken list" where
  "encodeLangTexts local dflt vs = concat (map (encodeLangText local) (lang_entries dflt vs))"

definition encodeNodes :: "node list \<Rightarrow> xtoken list result" where
  "encodeNodes nodes =
     (case map_result marshal nodes of Inl e \<Rightarrow> Inl e | Inr tss \<Rightarrow> Inr (concat tss))"

definition stanzaErrorNode :: "stanza_error \<Rightarrow> node" where
  "stanzaErrorNode e =
     AddChildren (se_Application e)
       (AddChildIf (se_Text e \<noteq> []) (NewTextNode stanzaErrorNS ''text'' (se_Text e))
         (AddChildIf (se_Condition e \<noteq> []) (NewNode stanzaErrorNS (se_Condition e))
           (SetAttrIf ''by'' (se_By e)
             (SetAttr ''type'' (se_Type e) (NewNode [] ''error'')))))"

definition encodeStanzaError :: "stanza_error option \<Rightarrow> xtoken list result" where
  "encodeStanzaError e = (case e of None \<Rightarrow> Inr [] | Some se \<Rightarrow> marshal (stanzaErrorNode se))"

text \<open>The common tail of the three methods: extensions, then the error, then the end tag.\<close>

definition encode_stanza ::
  "string \<Rightarrow> attr list \<Rightarrow> xtoken list \<Rightarrow> node list \<Rightarrow> stanza_error option \<Rightarrow> xtoken list result" where
  "encode_stanza local as body nodes e =
     (case encodeNodes nodes of
        Inl er \<Rightarrow> Inl er
      | Inr exts \<Rightarrow>
          (case encodeStanzaError e of
             Inl er \<Rightarrow> Inl er
           | Inr errs \<Rightarrow>
               Inr (StartElement (XName [] local) as # body @ exts @ errs @ [EndElement (XName [] local)])))"

definition Message_MarshalXML :: "message \<Rightarrow> xtoken list result" where
  "Message_MarshalXML m =
     encode_stanza ''message''
       (stanzaStart_attrs (msg_From m) (msg_To m) (msg_ID m) (msg_Type m) (msg_Lang m))
       (encodeLangTexts ''subject'' (msg_Subject m) (msg_Subjects m)
        @ encodeLangTexts ''body'' (msg_Body m) (msg_Bodies m)
        @ (if msg_Thread m \<noteq> []
           then EncodeElement (msg_Thread m) (XName [] ''thread'')
                  (if msg_Parent m \<noteq> [] then [Attr (XName [] ''parent'') (msg_Parent m)] else [])
           else []))
       (msg_Extensions m) (msg_Error m)"

definition Presence_MarshalXML :: "presence \<Rightarrow> xtoken list result" where
  "Presence_MarshalXML p =
     (case prs_Priority p of
        Some i \<Rightarrow>
          if i < -128 \<or> i > 127 then Inl (Errorf ''xmpp: presence priority %d is outside -128..127'' [Itoa i] None)
          else encode_stanza ''presence'' (stanzaStart_attrs (prs_From p) (prs_To p) (prs_ID p) (prs_Type p) (prs_Lang p))
            ((if prs_Show p \<noteq> [] then EncodeElement (prs_Show p) (XName [] ''show'') [] else [])
             @ encodeLangTexts ''status'' (prs_Status p) (prs_Statuses p)
             @ EncodeElement (Itoa i) (XName [] ''priority'') [])
            (prs_Extensions p) (prs_Error p)
      | None \<Rightarrow>
          encode_stanza ''presence'' (stanzaStart_attrs (prs_From p) (prs_To p) (prs_ID p) (prs_Type p) (prs_Lang p))
            ((if prs_Show p \<noteq> [] then EncodeElement (prs_Show p) (XName [] ''show'') [] else [])
             @ encodeLangTexts ''status'' (prs_Status p) (prs_Statuses p))
            (prs_Extensions p) (prs_Error p))"

definition IQ_MarshalXML :: "iq \<Rightarrow> xtoken list result" where
  "IQ_MarshalXML i =
     (if iq_ID i = [] then Inl (Errf ''xmpp: IQ must have an id'')
      else if iq_Type i = [] then Inl (Errf ''xmpp: IQ must have a type'')
      else encode_stanza ''iq'' (stanzaStart_attrs (iq_From i) (iq_To i) (iq_ID i) (iq_Type i) []) []
        (iq_Payloads i) (iq_Error i))"

fun StanzaXML :: "stanza \<Rightarrow> xtoken list result" where
  "StanzaXML (SMessage m) = Message_MarshalXML m"
| "StanzaXML (SPresence p) = Presence_MarshalXML p"
| "StanzaXML (SIQ i) = IQ_MarshalXML i"

subsection \<open>Reading\<close>

definition langTextFromNode :: "node \<Rightarrow> lang_text" where
  "langTextFromNode n = LangText (or_empty (AttrValueNS xml_ns ''lang'' n)) (Text n)"

definition stanza_error_child :: "stanza_error \<Rightarrow> node \<Rightarrow> stanza_error" where
  "stanza_error_child e c =
     (if Space (Name c) = stanzaErrorNS then
        if Local (Name c) = ''text'' then e\<lparr>se_Text := Text c\<rparr>
        else e\<lparr>se_Condition := Local (Name c)\<rparr>
      else e\<lparr>se_Application := se_Application e @ [c]\<rparr>)"

definition stanzaErrorFromNode :: "node \<Rightarrow> stanza_error" where
  "stanzaErrorFromNode n =
     foldl stanza_error_child
       (stanza_error0\<lparr>se_Type := or_empty (AttrValue ''type'' n), se_By := or_empty (AttrValue ''by'' n)\<rparr>)
       (Children n)"

definition message_child :: "message \<Rightarrow> node \<Rightarrow> message" where
  "message_child m c =
     (if Local (Name c) = ''subject'' then
        let v = langTextFromNode c; m' = m\<lparr>msg_Subjects := msg_Subjects m @ [v]\<rparr>
        in if Lang v = [] \<and> msg_Subject m' = [] then m'\<lparr>msg_Subject := LValue v\<rparr> else m'
      else if Local (Name c) = ''body'' then
        let v = langTextFromNode c; m' = m\<lparr>msg_Bodies := msg_Bodies m @ [v]\<rparr>
        in if Lang v = [] \<and> msg_Body m' = [] then m'\<lparr>msg_Body := LValue v\<rparr> else m'
      else if Local (Name c) = ''thread'' then
        m\<lparr>msg_Thread := Text c, msg_Parent := or_empty (AttrValue ''parent'' c)\<rparr>
      else if Local (Name c) = ''error'' then m\<lparr>msg_Error := Some (stanzaErrorFromNode c)\<rparr>
      else m\<lparr>msg_Extensions := msg_Extensions m @ [c]\<rparr>)"

definition presence_child :: "presence \<Rightarrow> node \<Rightarrow> presence" where
  "presence_child p c =
     (if Local (Name c) = ''show'' then p\<lparr>prs_Show := Text c\<rparr>
      else if Local (Name c) = ''status'' then
        let v = langTextFromNode c; p' = p\<lparr>prs_Statuses := prs_Statuses p @ [v]\<rparr>
        in if Lang v = [] \<and> prs_Status p' = [] then p'\<lparr>prs_Status := LValue v\<rparr> else p'
      else if Local (Name c) = ''priority'' then
        (case Atoi (TrimSpace (Text c)) of
           (v, None) \<Rightarrow> p\<lparr>prs_Priority := Some v\<rparr>
         | (v, Some e) \<Rightarrow> p)
      else if Local (Name c) = ''error'' then p\<lparr>prs_Error := Some (stanzaErrorFromNode c)\<rparr>
      else p\<lparr>prs_Extensions := prs_Extensions p @ [c]\<rparr>)"

definition iq_child :: "iq \<Rightarrow> node \<Rightarrow> iq" where
  "iq_child i c =
     (if Local (Name c) = ''error'' then i\<lparr>iq_Error := Some (stanzaErrorFromNode c)\<rparr>
      else i\<lparr>iq_Payloads := iq_Payloads i @ [c]\<rparr>)"

definition stanzaFromNode :: "node \<Rightarrow> stanza result" where
  "stanzaFromNode root =
     (let attr = (\<lambda>name. or_empty (AttrValue name root));
          lang = or_empty (AttrValueNS xml_ns ''lang'' root) in
      if Local (Name root) = ''message'' then
        Inr (SMessage (foldl message_child
          (message0\<lparr>msg_From := attr ''from'', msg_To := attr ''to'', msg_ID := attr ''id'',
                    msg_Type := attr ''type'', msg_Lang := lang\<rparr>) (Children root)))
      else if Local (Name root) = ''presence'' then
        Inr (SPresence (foldl presence_child
          (presence0\<lparr>prs_From := attr ''from'', prs_To := attr ''to'', prs_ID := attr ''id'',
                     prs_Type := attr ''type'', prs_Lang := lang\<rparr>) (Children root)))
      else if Local (Name root) = ''iq'' then
        Inr (SIQ (foldl iq_child
          (iq0\<lparr>iq_From := attr ''from'', iq_To := attr ''to'', iq_ID := attr ''id'',
               iq_Type := attr ''type''\<rparr>) (Children root)))
      else Inl (Errorf ''xmpp: unsupported stanza <%s>'' [Local (Name root)] None))"

text \<open>\<^verbatim>\<open>DecodeStanza\<close> reads the element whose start tag has been taken off the stream; the
  tokens behind it stay for the next call.\<close>

definition DecodeStanza :: "go_error \<Rightarrow> xname \<Rightarrow> attr list \<Rightarrow> xtoken list \<Rightarrow> (stanza \<times> xtoken list) result" where
  "DecodeStanza fin nm as ts =
     (case unmarshal fin (Node nm as []) ts of
        Inl e \<Rightarrow> Inl e
      | Inr (root, rest) \<Rightarrow> (case stanzaFromNode root of Inl e \<Rightarrow> Inl e | Inr s \<Rightarrow> Inr (s, rest)))"

definition ParseStanza :: "go_error \<Rightarrow> xtoken list \<Rightarrow> stanza result" where
  "ParseStanza fin data =
     (case ParseNode fin data of Inl e \<Rightarrow> Inl e | Inr n \<Rightarrow> stanzaFromNode n)"

subsection \<open>The written stanza as a tree\<close>

definition text_element :: "string \<Rightarrow> xname \<Rightarrow> attr list \<Rightarrow> node" where
  "text_element v nm as = Node nm as (if v \<noteq> [] then [TextPart v] else [])"

definition lang_node :: "string \<Rightarrow> lang_text \<Rightarrow> node" where
  "lang_node l v = text_element (LValue v) (XName [] l)
     (if Lang v \<noteq> [] then [Attr (XName xml_ns ''lang'') (Lang v)] else [])"

definition stanza_tree :: "string \<Rightarrow> attr list \<Rightarrow> node list \<Rightarrow> node list \<Rightarrow> stanza_error option \<Rightarrow> node" where
  "stanza_tree l as body exts e =
     Node (XName [] l) as
       (map ChildPart (body @ exts @ (case e of None \<Rightarrow> [] | Some se \<Rightarrow> [stanzaErrorNode se])))"

definition thread_nodes :: "message \<Rightarrow> node list" where
  "thread_nodes m =
     (if msg_Thread m \<noteq> []
      then [text_element (msg_Thread m) (XName [] ''thread'')
              (if msg_Parent m \<noteq> [] then [Attr (XName [] ''parent'') (msg_Parent m)] else [])]
      else [])"

definition message_body :: "message \<Rightarrow> node list" where
  "message_body m =
     map (lang_node ''subject'') (lang_entries (msg_Subject m) (msg_Subjects m))
     @ map (lang_node ''body'') (lang_entries (msg_Body m) (msg_Bodies m)) @ thread_nodes m"

definition presence_body :: "presence \<Rightarrow> node list" where
  "presence_body p =
     (if prs_Show p \<noteq> [] then [text_element (prs_Show p) (XName [] ''show'') []] else [])
     @ map (lang_node ''status'') (lang_entries (prs_Status p) (prs_Statuses p))
     @ (case prs_Priority p of Some i \<Rightarrow> [text_element (Itoa i) (XName [] ''priority'') []] | None \<Rightarrow> [])"

lemma marshal_parts_children:
  "marshal_parts (map ChildPart ns) =
     (case map_result marshal ns of Inl e \<Rightarrow> Inl e | Inr tss \<Rightarrow> Inr (concat tss))"
  by (induction ns) (auto split: sum.splits)

lemma map_result_append:
  "map_result f (xs @ ys) =
     (case map_result f xs of Inl e \<Rightarrow> Inl e
      | Inr as \<Rightarrow> (case map_result f ys of Inl e \<Rightarrow> Inl e | Inr bs \<Rightarrow> Inr (as @ bs)))"
  by (induction xs) (auto split: sum.splits)

lemma marshal_text_element:
  "Local nm \<noteq> [] \<Longrightarrow> marshal (text_element v nm as) = Inr (EncodeElement v nm as)"
  by (simp add: text_element_def EncodeElement_def)

lemma marshal_lang_nodes:
  "l \<noteq> [] \<Longrightarrow> map_result marshal (map (lang_node l) vs) = Inr (map (encodeLangText l) vs)"
  by (rule map_result_map_Inr) (simp add: lang_node_def encodeLangText_def marshal_text_element)

lemma encode_stanza_tree:
  assumes "l \<noteq> []" "map_result marshal body = Inr tss"
  shows "encode_stanza l as (concat tss) exts e = marshal (stanza_tree l as body exts e)"
  using assms
  by (auto simp: stanza_tree_def encode_stanza_def encodeNodes_def encodeStanzaError_def
      marshal_parts_children map_result_append split: sum.splits option.splits simp del: map_append)

lemma Message_MarshalXML_tree:
  "Message_MarshalXML m =
     marshal (stanza_tree ''message''
       (stanzaStart_attrs (msg_From m) (msg_To m) (msg_ID m) (msg_Type m) (msg_Lang m))
       (message_body m) (msg_Extensions m) (msg_Error m))"
proof -
  have "map_result marshal (thread_nodes m) =
      Inr (if msg_Thread m \<noteq> [] then [EncodeElement (msg_Thread m) (XName [] ''thread'')
             (if msg_Parent m \<noteq> [] then [Attr (XName [] ''parent'') (msg_Parent m)] else [])] else [])"
    by (simp add: thread_nodes_def marshal_text_element)
  then have "map_result marshal (message_body m) =
      Inr (map (encodeLangText ''subject'') (lang_entries (msg_Subject m) (msg_Subjects m))
        @ map (encodeLangText ''body'') (lang_entries (msg_Body m) (msg_Bodies m))
        @ (if msg_Thread m \<noteq> [] then [EncodeElement (msg_Thread m) (XName [] ''thread'')
             (if msg_Parent m \<noteq> [] then [Attr (XName [] ''parent'') (msg_Parent m)] else [])] else []))"
    by (simp add: message_body_def map_result_append marshal_lang_nodes)
  from encode_stanza_tree[OF _ this, of "''message''"] show ?thesis
    by (cases "msg_Thread m = []") (auto simp: Message_MarshalXML_def encodeLangTexts_def)
qed

lemma Presence_MarshalXML_tree:
  assumes "\<And>i. prs_Priority p = Some i \<Longrightarrow> -128 \<le> i \<and> i \<le> 127"
  shows "Presence_MarshalXML p =
     marshal (stanza_tree ''presence''
       (stanzaStart_attrs (prs_From p) (prs_To p) (prs_ID p) (prs_Type p) (prs_Lang p))
       (presence_body p) (prs_Extensions p) (prs_Error p))"
proof -
  have "map_result marshal (presence_body p) =
      Inr ((if prs_Show p \<noteq> [] then [EncodeElement (prs_Show p) (XName [] ''show'') []] else [])
        @ map (encodeLangText ''status'') (lang_entries (prs_Status p) (prs_Statuses p))
        @ (case prs_Priority p of Some i \<Rightarrow> [EncodeElement (Itoa i) (XName [] ''priority'') []] | None \<Rightarrow> []))"
    by (simp add: presence_body_def map_result_append marshal_lang_nodes marshal_text_element split: option.splits)
  from encode_stanza_tree[OF _ this, of "''presence''"] show ?thesis
    using assms
    by (auto simp: Presence_MarshalXML_def encodeLangTexts_def split: option.splits)
qed

lemma IQ_MarshalXML_tree:
  "iq_ID i \<noteq> [] \<Longrightarrow> iq_Type i \<noteq> [] \<Longrightarrow>
   IQ_MarshalXML i =
     marshal (stanza_tree ''iq'' (stanzaStart_attrs (iq_From i) (iq_To i) (iq_ID i) (iq_Type i) [])
       [] (iq_Payloads i) (iq_Error i))"
  using encode_stanza_tree[of "''iq''" "[]" "[]"] by (simp add: IQ_MarshalXML_def)

subsection \<open>Reading back\<close>

text \<open>
  What a receiver sees of each field. \<open>primary_text\<close> is the unlocalized text it settles on:
  the default when there is one, otherwise the first non-empty unlocalized entry.
\<close>

definition primary_text :: "string \<Rightarrow> lang_text list \<Rightarrow> string" where
  "primary_text dflt vs =
     (if dflt \<noteq> [] then dflt
      else or_empty (map_option LValue (find (\<lambda>v. Lang v = [] \<and> LValue v \<noteq> []) vs)))"

definition received_error :: "string \<Rightarrow> stanza_error \<Rightarrow> stanza_error" where
  "received_error d e = e\<lparr>se_Application := map (wire d) (se_Application e)\<rparr>"

definition received_message :: "string \<Rightarrow> message \<Rightarrow> message" where
  "received_message d m =
     m\<lparr>msg_Subject := primary_text (msg_Subject m) (msg_Subjects m),
       msg_Body := primary_text (msg_Body m) (msg_Bodies m),
       msg_Subjects := lang_entries (msg_Subject m) (msg_Subjects m),
       msg_Bodies := lang_entries (msg_Body m) (msg_Bodies m),
       msg_Parent := (if msg_Thread m = [] then [] else msg_Parent m),
       msg_Extensions := map (wire d) (msg_Extensions m),
       msg_Error := map_option (received_error d) (msg_Error m)\<rparr>"

definition received_presence :: "string \<Rightarrow> presence \<Rightarrow> presence" where
  "received_presence d p =
     p\<lparr>prs_Status := primary_text (prs_Status p) (prs_Statuses p),
       prs_Statuses := lang_entries (prs_Status p) (prs_Statuses p),
       prs_Extensions := map (wire d) (prs_Extensions p),
       prs_Error := map_option (received_error d) (prs_Error p)\<rparr>"

definition received_iq :: "string \<Rightarrow> iq \<Rightarrow> iq" where
  "received_iq d i =
     i\<lparr>iq_Payloads := map (wire d) (iq_Payloads i),
       iq_Error := map_option (received_error d) (iq_Error i)\<rparr>"

text \<open>
  When a stanza is writable: its extension elements are normal trees whose names do not
  collide with the stanza's own children, and an error keeps its condition apart from the
  text and its application elements apart from both.
\<close>

definition sendable_error :: "string \<Rightarrow> stanza_error \<Rightarrow> bool" where
  "sendable_error d e \<longleftrightarrow> se_Condition e \<noteq> ''text''
     \<and> list_all (\<lambda>n. normal n \<and> Space (Name (wire d n)) \<noteq> stanzaErrorNS) (se_Application e)"

definition sendable :: "string \<Rightarrow> string list \<Rightarrow> node list \<Rightarrow> stanza_error option \<Rightarrow> bool" where
  "sendable d reserved exts e \<longleftrightarrow>
     list_all (\<lambda>n. normal n \<and> Local (Name n) \<notin> set reserved) exts
     \<and> (case e of None \<Rightarrow> True | Some se \<Rightarrow> sendable_error d se)"

lemma default_ns_stanzaStart [simp]:
  "default_ns d (wire_attrs [] (stanzaStart_attrs f t i k l)) = d"
  by (subst default_ns_scoped) (auto simp: stanzaStart_attrs_def plain_attr_def)

lemma AttrValue_stanzaStart:
  "get_attr_list (XName [] ''from'') (stanzaStart_attrs f t i k l) = (if f \<noteq> [] then Some f else None)"
  "get_attr_list (XName [] ''to'') (stanzaStart_attrs f t i k l) = (if t \<noteq> [] then Some t else None)"
  "get_attr_list (XName [] ''id'') (stanzaStart_attrs f t i k l) = (if i \<noteq> [] then Some i else None)"
  "get_attr_list (XName [] ''type'') (stanzaStart_attrs f t i k l) = (if k \<noteq> [] then Some k else None)"
  "get_attr_list (XName xml_ns ''lang'') (stanzaStart_attrs f t i k l) = (if l \<noteq> [] then Some l else None)"
  by (simp_all add: stanzaStart_attrs_def)

lemma stanza_tree_observed:
  fixes d f t i k l local body exts e
  defines "n \<equiv> wire d (stanza_tree local (stanzaStart_attrs f t i k l) body exts e)"
  shows "Local (Name n) = local"
    and "or_empty (AttrValue ''from'' n) = f" "or_empty (AttrValue ''to'' n) = t"
    and "or_empty (AttrValue ''id'' n) = i" "or_empty (AttrValue ''type'' n) = k"
    and "or_empty (AttrValueNS xml_ns ''lang'' n) = l"
    and "Children n = map (wire d) (body @ exts @ (case e of None \<Rightarrow> [] | Some se \<Rightarrow> [stanzaErrorNode se]))"
proof -
  have "concat (map part_children (map ChildPart ns)) = ns" for ns by (induction ns) auto
  then show "Children n = map (wire d) (body @ exts @ (case e of None \<Rightarrow> [] | Some se \<Rightarrow> [stanzaErrorNode se]))"
    unfolding n_def Children_wire by (simp add: stanza_tree_def Children_def del: map_map)
qed (simp_all add: n_def stanza_tree_def AttrValueNS_wire AttrValue_def AttrValueNS_def AttrValue_stanzaStart
      wire_attrs_def get_attr_filter Let_def)

lemma Local_text_element [simp]: "Local (Name (text_element v nm as)) = Local nm"
  and Text_text_element [simp]: "Text (text_element v nm as) = v"
  and Local_lang_node [simp]: "Local (Name (lang_node l w)) = l"
  by (simp_all add: text_element_def Text_def lang_node_def)

lemma langText_lang_node [simp]: "langTextFromNode (wire d (lang_node l v)) = v"
proof -
  have "or_empty (AttrValueNS xml_ns ''lang'' (lang_node l v)) = Lang v"
    by (simp add: lang_node_def text_element_def AttrValueNS_def)
  moreover have "Text (lang_node l v) = LValue v" by (simp add: lang_node_def)
  ultimately show ?thesis by (simp add: langTextFromNode_def AttrValueNS_wire)
qed

lemma Name_wire_NewNode [simp]:
  "ns \<noteq> [] \<Longrightarrow> Name (wire d (NewNode ns l)) = XName ns l"
  "ns \<noteq> [] \<Longrightarrow> Name (wire d (NewTextNode ns l v)) = XName ns l"
  by (simp_all add: NewNode_def NewTextNode_def Let_def wire_attrs_def default_ns_def)

lemma foldl_application:
  "list_all (\<lambda>n. Space (Name n) \<noteq> stanzaErrorNS) ns \<Longrightarrow>
   foldl stanza_error_child e ns = e\<lparr>se_Application := se_Application e @ ns\<rparr>"
  by (induction ns arbitrary: e) (auto simp: stanza_error_child_def)

lemma stanzaErrorNode_attrs:
  "AttrValue ''type'' (stanzaErrorNode e) = Some (se_Type e)"
  "or_empty (AttrValue ''by'' (stanzaErrorNode e)) = se_By e"
  by (simp_all add: stanzaErrorNode_def AttrValue_SetAttrIf)

lemma stanzaErrorNode_scope:
  "default_ns d (wire_attrs (Space (Name (stanzaErrorNode e))) (Attrs (stanzaErrorNode e))) = d"
proof -
  have at: "Attrs (AddChildIf b c n) = Attrs n" "Attrs (AddChildren cs n) = Attrs n" for b c n cs
    by (simp add: AddChildIf_def) (simp add: AddChildren_def, induction cs arbitrary: n, auto)
  show ?thesis
    by (simp add: stanzaErrorNode_def at SetAttrIf_def SetAttr_def SetAttrNS_def default_ns_scoped plain_attr_def)
qed

lemma stanzaErrorFromNode_wire:
  assumes "sendable_error d e"
  shows "stanzaErrorFromNode (wire d (stanzaErrorNode e)) = received_error d e"
proof -
  have apps: "list_all (\<lambda>n. Space (Name n) \<noteq> stanzaErrorNS) (map (wire d) (se_Application e))"
    using assms by (auto simp: sendable_error_def list_all_iff)
  have ch: "Children (wire d (stanzaErrorNode e)) =
      map (wire d) ((if se_Condition e \<noteq> [] then [NewNode stanzaErrorNS (se_Condition e)] else [])
        @ (if se_Text e \<noteq> [] then [NewTextNode stanzaErrorNS ''text'' (se_Text e)] else []))
      @ map (wire d) (se_Application e)"
    unfolding Children_wire stanzaErrorNode_scope by (simp add: stanzaErrorNode_def)
  have cond: "se_Condition e \<noteq> ''text''" using assms by (simp add: sendable_error_def)
  show ?thesis
    unfolding stanzaErrorFromNode_def ch foldl_append foldl_application[OF apps]
    using cond
    by (simp add: stanzaErrorNode_attrs stanza_error_child_def received_error_def stanza_error0_def)
qed

lemma normal_stanzaErrorNode:
  "sendable_error d e \<Longrightarrow> normal (stanzaErrorNode e)"
  unfolding stanzaErrorNode_def sendable_error_def list_all_iff
  by (intro inv_intros) auto

lemma normal_text_element [inv_intros]: "Local nm \<noteq> [] \<Longrightarrow> normal (text_element v nm as)"
  by (simp add: text_element_def)

lemma normal_lang_node [inv_intros]: "l \<noteq> [] \<Longrightarrow> normal (lang_node l v)"
  by (simp add: lang_node_def normal_text_element)

lemma normal_stanza_tree:
  assumes "l \<noteq> []" "\<forall>n\<in>set body. normal n" "sendable d reserved exts e"
  shows "normal (stanza_tree l as body exts e)"
proof -
  have "normal_parts (map ChildPart ns)" for ns by (induction ns) auto
  then show ?thesis
    using assms normal_stanzaErrorNode
    by (auto simp: stanza_tree_def sendable_def list_all_iff simp del: map_append split: option.splits)
qed

text \<open>The reader's loop, one group of children at a time.\<close>

lemma fold_subjects:
  "foldl message_child m (map (wire d) (map (lang_node ''subject'') vs)) =
     m\<lparr>msg_Subjects := msg_Subjects m @ vs, msg_Subject := primary_text (msg_Subject m) vs\<rparr>"
  by (induction vs arbitrary: m) (auto simp: message_child_def Let_def primary_text_def)

lemma fold_bodies:
  "foldl message_child m (map (wire d) (map (lang_node ''body'') vs)) =
     m\<lparr>msg_Bodies := msg_Bodies m @ vs, msg_Body := primary_text (msg_Body m) vs\<rparr>"
  by (induction vs arbitrary: m) (auto simp: message_child_def Let_def primary_text_def)

lemma fold_statuses:
  "foldl presence_child p (map (wire d) (map (lang_node ''status'') vs)) =
     p\<lparr>prs_Statuses := prs_Statuses p @ vs, prs_Status := primary_text (prs_Status p) vs\<rparr>"
  by (induction vs arbitrary: p) (auto simp: presence_child_def Let_def primary_text_def)

lemma primary_text_entries [simp]: "primary_text [] (lang_entries dflt vs) = primary_text dflt vs"
proof (cases "dflt = []")
  case True
  have "find (\<lambda>v. Lang v = [] \<and> LValue v \<noteq> []) (filter (\<lambda>v. Lang v = [] \<longrightarrow> LValue v \<noteq> []) vs)
      = find (\<lambda>v. Lang v = [] \<and> LValue v \<noteq> []) vs"
    by (induction vs) auto
  then show ?thesis using True by (simp add: primary_text_def lang_entries_def)
qed (simp add: primary_text_def lang_entries_def)

abbreviation message_reserved :: "string list" where
  "message_reserved \<equiv> [''subject'', ''body'', ''thread'', ''error'']"

abbreviation presence_reserved :: "string list" where
  "presence_reserved \<equiv> [''show'', ''status'', ''priority'', ''error'']"

lemma fold_message_extensions:
  "list_all (\<lambda>n. Local (Name n) \<notin> set message_reserved) ns \<Longrightarrow>
   foldl message_child m ns = m\<lparr>msg_Extensions := msg_Extensions m @ ns\<rparr>"
  by (induction ns arbitrary: m) (simp_all add: message_child_def)

lemma fold_presence_extensions:
  "list_all (\<lambda>n. Local (Name n) \<notin> set presence_reserved) ns \<Longrightarrow>
   foldl presence_child p ns = p\<lparr>prs_Extensions := prs_Extensions p @ ns\<rparr>"
  by (induction ns arbitrary: p) (simp_all add: presence_child_def)

lemma fold_iq_payloads:
  "list_all (\<lambda>n. Local (Name n) \<notin> set [''error'']) ns \<Longrightarrow>
   foldl iq_child i ns = i\<lparr>iq_Payloads := iq_Payloads i @ ns\<rparr>"
  by (induction ns arbitrary: i) (simp_all add: iq_child_def)

lemma sendable_wire:
  "sendable d r exts e \<Longrightarrow> list_all (\<lambda>n. Local (Name n) \<notin> set r) (map (wire d) exts)"
  by (auto simp: sendable_def list_all_iff)

lemma Local_stanzaErrorNode [simp]: "Local (Name (stanzaErrorNode e)) = ''error''"
  by (simp add: stanzaErrorNode_def)

lemma AttrValue_thread:
  "or_empty (AttrValue ''parent'' (text_element v nm (if p \<noteq> [] then [Attr (XName [] ''parent'') p] else []))) = p"
  by (simp add: AttrValue_def AttrValueNS_def text_element_def)

lemma fold_thread:
  "msg_Thread m0 = [] \<Longrightarrow> msg_Parent m0 = [] \<Longrightarrow>
   foldl message_child m0 (map (wire d) (thread_nodes m)) =
     m0\<lparr>msg_Thread := msg_Thread m, msg_Parent := if msg_Thread m = [] then [] else msg_Parent m\<rparr>"
  by (simp add: thread_nodes_def message_child_def AttrValue_thread)

lemma message_read:
  assumes "sendable d message_reserved (msg_Extensions m) (msg_Error m)"
  shows "stanzaFromNode (wire d (stanza_tree ''message''
       (stanzaStart_attrs (msg_From m) (msg_To m) (msg_ID m) (msg_Type m) (msg_Lang m))
       (message_body m) (msg_Extensions m) (msg_Error m))) = Inr (SMessage (received_message d m))"
proof -
  have err: "foldl message_child m0 (map (wire d) (case msg_Error m of None \<Rightarrow> [] | Some se \<Rightarrow> [stanzaErrorNode se]))
      = m0\<lparr>msg_Error := map_option (received_error d) (msg_Error m)\<rparr>" if "msg_Error m0 = None" for m0
    using assms that
    by (auto simp: message_child_def stanzaErrorFromNode_wire sendable_def split: option.splits)
  show ?thesis
    unfolding stanzaFromNode_def stanza_tree_observed message_body_def Let_def map_append foldl_append
      fold_subjects fold_bodies received_message_def
    by (simp add: fold_thread fold_message_extensions[OF sendable_wire[OF assms]] err message0_def)
qed

lemma presence_read:
  assumes "sendable d presence_reserved (prs_Extensions p) (prs_Error p)"
    and prio: "\<And>i. prs_Priority p = Some i \<Longrightarrow> -128 \<le> i \<and> i \<le> 127"
  shows "stanzaFromNode (wire d (stanza_tree ''presence''
       (stanzaStart_attrs (prs_From p) (prs_To p) (prs_ID p) (prs_Type p) (prs_Lang p))
       (presence_body p) (prs_Extensions p) (prs_Error p))) = Inr (SPresence (received_presence d p))"
proof -
  have err: "foldl presence_child p0 (map (wire d) (case prs_Error p of None \<Rightarrow> [] | Some se \<Rightarrow> [stanzaErrorNode se]))
      = p0\<lparr>prs_Error := map_option (received_error d) (prs_Error p)\<rparr>" if "prs_Error p0 = None" for p0
    using assms(1) that
    by (auto simp: presence_child_def stanzaErrorFromNode_wire sendable_def split: option.splits)
  have show': "foldl presence_child p0 (map (wire d)
        (if prs_Show p \<noteq> [] then [text_element (prs_Show p) (XName [] ''show'') []] else []))
      = p0\<lparr>prs_Show := prs_Show p\<rparr>" if "prs_Show p0 = []" for p0
    using that by (simp add: presence_child_def)
  have pri: "foldl presence_child p0 (map (wire d)
        (case prs_Priority p of Some i \<Rightarrow> [text_element (Itoa i) (XName [] ''priority'') []] | None \<Rightarrow> []))
      = p0\<lparr>prs_Priority := prs_Priority p\<rparr>" if "prs_Priority p0 = None" for p0
    using that prio by (auto simp: presence_child_def Atoi_Itoa trimmed_Itoa int64_def split: option.splits)
  show ?thesis
    unfolding stanzaFromNode_def stanza_tree_observed presence_body_def Let_def map_append foldl_append
      fold_statuses received_presence_def
    by (simp add: show' pri fold_statuses fold_presence_extensions[OF sendable_wire[OF assms(1)]] err presence0_def
        del: map_map)
qed

lemma iq_read:
  assumes "sendable d [''error''] (iq_Payloads i) (iq_Error i)"
  shows "stanzaFromNode (wire d (stanza_tree ''iq''
       (stanzaStart_attrs (iq_From i) (iq_To i) (iq_ID i) (iq_Type i) [])
       [] (iq_Payloads i) (iq_Error i))) = Inr (SIQ (received_iq d i))"
proof -
  have err: "foldl iq_child i0 (map (wire d) (case iq_Error i of None \<Rightarrow> [] | Some se \<Rightarrow> [stanzaErrorNode se]))
      = i0\<lparr>iq_Error := map_option (received_error d) (iq_Error i)\<rparr>" if "iq_Error i0 = None" for i0
    using assms that
    by (auto simp: iq_child_def stanzaErrorFromNode_wire sendable_def split: option.splits)
  show ?thesis
    unfolding stanzaFromNode_def stanza_tree_observed Let_def map_append foldl_append received_iq_def
    by (simp add: fold_iq_payloads[OF sendable_wire[OF assms]] err iq0_def)
qed

subsection \<open>Properties\<close>

fun sendable_stanza :: "string \<Rightarrow> stanza \<Rightarrow> bool" where
  "sendable_stanza d (SMessage m) = sendable d message_reserved (msg_Extensions m) (msg_Error m)"
| "sendable_stanza d (SPresence p) \<longleftrightarrow>
     sendable d presence_reserved (prs_Extensions p) (prs_Error p)
     \<and> (case prs_Priority p of None \<Rightarrow> True | Some i \<Rightarrow> -128 \<le> i \<and> i \<le> 127)"
| "sendable_stanza d (SIQ i) \<longleftrightarrow>
     sendable d [''error''] (iq_Payloads i) (iq_Error i) \<and> iq_ID i \<noteq> [] \<and> iq_Type i \<noteq> []"

fun received :: "string \<Rightarrow> stanza \<Rightarrow> stanza" where
  "received d (SMessage m) = SMessage (received_message d m)"
| "received d (SPresence p) = SPresence (received_presence d p)"
| "received d (SIQ i) = SIQ (received_iq d i)"

fun stanza_node :: "stanza \<Rightarrow> node" where
  "stanza_node (SMessage m) = stanza_tree ''message''
     (stanzaStart_attrs (msg_From m) (msg_To m) (msg_ID m) (msg_Type m) (msg_Lang m))
     (message_body m) (msg_Extensions m) (msg_Error m)"
| "stanza_node (SPresence p) = stanza_tree ''presence''
     (stanzaStart_attrs (prs_From p) (prs_To p) (prs_ID p) (prs_Type p) (prs_Lang p))
     (presence_body p) (prs_Extensions p) (prs_Error p)"
| "stanza_node (SIQ i) = stanza_tree ''iq'' (stanzaStart_attrs (iq_From i) (iq_To i) (iq_ID i) (iq_Type i) [])
     [] (iq_Payloads i) (iq_Error i)"

lemma StanzaXML_node: "sendable_stanza d s \<Longrightarrow> StanzaXML s = marshal (stanza_node s)"
  by (cases s) (auto simp: Message_MarshalXML_tree IQ_MarshalXML_tree intro!: Presence_MarshalXML_tree split: option.splits)

lemma normal_stanza_node: "sendable_stanza d s \<Longrightarrow> normal (stanza_node s)"
proof (cases s)
  case (SMessage m)
  moreover assume "sendable_stanza d s"
  ultimately show ?thesis
    by (auto simp: message_body_def thread_nodes_def intro!: normal_stanza_tree normal_lang_node normal_text_element)
next
  case (SPresence p)
  moreover assume "sendable_stanza d s"
  ultimately show ?thesis
    by (auto simp: presence_body_def intro!: normal_stanza_tree normal_lang_node normal_text_element
        split: option.splits)
qed (auto intro!: normal_stanza_tree)

lemma stanzaFromNode_stanza_node: "sendable_stanza d s \<Longrightarrow> stanzaFromNode (wire d (stanza_node s)) = Inr (received d s)"
  by (cases s) (auto simp: message_read iq_read intro!: presence_read split: option.splits)

lemma DecodeStanza_StanzaXML:
  assumes "sendable_stanza d s"
  obtains nm as ts where "StanzaXML s = Inr (StartElement nm as # ts)"
    and "\<And>fin rest. DecodeStanza fin (XName (default_ns d (wire_attrs (Space nm) as)) (Local nm))
            (wire_attrs (Space nm) as) (transmit (default_ns d (wire_attrs (Space nm) as) # [d]) ts @ rest)
          = Inr (received d s, rest)"
proof -
  obtain nm as ps where n: "stanza_node s = Node nm as ps" by (cases "stanza_node s")
  have nn: "normal (Node nm as ps)" using normal_stanza_node[OF assms] n by simp
  obtain vs where vs: "marshal_parts ps = Inr vs" using nn marshal_parts_normal[of ps] by auto
  have m: "StanzaXML s = Inr (StartElement nm as # vs @ [EndElement nm])"
    using StanzaXML_node[OF assms] nn vs n by simp
  define d' where "d' = default_ns d (wire_attrs (Space nm) as)"
  have "unmarshal fin (Node (XName d' (Local nm)) (wire_attrs (Space nm) as) [])
      (transmit [d', d] (vs @ [EndElement nm]) @ rest) = Inr (wire d (stanza_node s), rest)" for fin rest
    using unmarshal_marshal(2)[OF vs, of fin "Node (XName d' (Local nm)) (wire_attrs (Space nm) as) []" d' "[d]"]
      nn fold_add_part[of "[]" "map (wire_part d') ps"]
    by (simp add: transmit_append(2)[OF vs] n d'_def Let_def)
  then show ?thesis
    using that[OF m] stanzaFromNode_stanza_node[OF assms] by (simp add: DecodeStanza_def d'_def)
qed


definition example_message :: message where
  "example_message = message0\<lparr>msg_To := ''romeo@example.net'', msg_Type := ''chat'', msg_Body := ''hi'',
     msg_Bodies := [LangText ''de'' ''hallo''], msg_Extensions := [NewNode ''urn:x'' ''x'']\<rparr>"


fun nameless :: "node \<Rightarrow> bool" and nameless_part :: "part \<Rightarrow> bool" where
  "nameless (Node nm as ps) \<longleftrightarrow> Local nm = [] \<or> list_ex nameless_part ps"
| "nameless_part (TextPart t) \<longleftrightarrow> False"
| "nameless_part (ChildPart c) \<longleftrightarrow> nameless c"

lemma marshal_nameless:
  "(\<exists>e. marshal n = Inl e) \<longleftrightarrow> nameless n"
  "(\<exists>e. marshal_parts ps = Inl e) \<longleftrightarrow> list_ex nameless_part ps"
  by (induction n and ps rule: marshal_marshal_parts.induct) (auto split: sum.splits)

lemma nameless_builders [simp]:
  "nameless (NewNode ns l) \<longleftrightarrow> l = []" "nameless (SetAttr k v n) = nameless n"
  "nameless (SetAttrIf k v n) = nameless n" "nameless (NewTextNode ns l v) \<longleftrightarrow> l = []"
  "nameless (AddChild c n) \<longleftrightarrow> nameless n \<or> nameless c"
  "nameless (AddChildIf b c n) \<longleftrightarrow> nameless n \<or> b \<and> nameless c"
  "nameless (AddChildren cs n) \<longleftrightarrow> nameless n \<or> list_ex nameless cs"
proof -
  show add: "nameless (AddChild c n) \<longleftrightarrow> nameless n \<or> nameless c" for c n
    by (cases n) (auto simp: AddChild_def)
  then show "nameless (AddChildIf b c n) \<longleftrightarrow> nameless n \<or> b \<and> nameless c" by (auto simp: AddChildIf_def)
  show "nameless (AddChildren cs n) \<longleftrightarrow> nameless n \<or> list_ex nameless cs"
    unfolding AddChildren_def by (induction cs arbitrary: n) (auto simp: add)
  show set: "nameless (SetAttr k v n) = nameless n"
    by (cases n) (simp add: SetAttr_def SetAttrNS_def)
  then show "nameless (SetAttrIf k v n) = nameless n" by (simp add: SetAttrIf_def)
qed (simp_all add: NewNode_def NewTextNode_def)

definition unwritable :: "stanza \<Rightarrow> bool" where
  "unwritable s \<longleftrightarrow>
     (case s of
        SMessage m \<Rightarrow> list_ex nameless (msg_Extensions m)
          \<or> (\<exists>e\<in>set_option (msg_Error m). list_ex nameless (se_Application e))
      | SPresence p \<Rightarrow> list_ex nameless (prs_Extensions p)
          \<or> (\<exists>e\<in>set_option (prs_Error p). list_ex nameless (se_Application e))
          \<or> (\<exists>i\<in>set_option (prs_Priority p). i < -128 \<or> 127 < i)
      | SIQ i \<Rightarrow> iq_ID i = [] \<or> iq_Type i = [] \<or> list_ex nameless (iq_Payloads i)
          \<or> (\<exists>e\<in>set_option (iq_Error i). list_ex nameless (se_Application e)))"

lemma nameless_stanza_tree:
  "l \<noteq> [] \<Longrightarrow> \<not> list_ex nameless body \<Longrightarrow>
   nameless (stanza_tree l as body exts e) \<longleftrightarrow>
     list_ex nameless exts \<or> (\<exists>se\<in>set_option e. list_ex nameless (se_Application se))"
  by (cases e) (auto simp: stanza_tree_def list_ex_iff bex_Un stanzaErrorNode_def)

lemma nameless_bodies [simp]:
  "\<not> list_ex nameless (message_body m)" "\<not> list_ex nameless (presence_body p)"
  by (auto simp: message_body_def presence_body_def thread_nodes_def lang_node_def text_element_def
      list_ex_iff split: option.splits)

text \<open>What the writer refuses: an IQ without an identifier or a type, a presence whose
  priority is outside the signed byte range, and any stanza one of whose elements (at any
  depth) has no local name; everything else is written.\<close>

theorem StanzaXML_fails_iff: "(\<exists>e. StanzaXML s = Inl e) \<longleftrightarrow> unwritable s"
proof (cases s)
  case (SMessage m)
  then show ?thesis
    by (simp add: unwritable_def Message_MarshalXML_tree marshal_nameless nameless_stanza_tree)
next
  case (SPresence p)
  show ?thesis
  proof (cases "\<exists>i\<in>set_option (prs_Priority p). i < -128 \<or> 127 < i")
    case True
    then show ?thesis using SPresence by (auto simp: unwritable_def Presence_MarshalXML_def)
  next
    case False
    then have "Presence_MarshalXML p = marshal (stanza_node s)"
      unfolding SPresence stanza_node.simps by (intro Presence_MarshalXML_tree) auto
    then show ?thesis
      using False SPresence by (simp add: unwritable_def marshal_nameless nameless_stanza_tree)
  qed
next
  case (SIQ i)
  show ?thesis
  proof (cases "iq_ID i = [] \<or> iq_Type i = []")
    case True
    then show ?thesis using SIQ by (auto simp: unwritable_def IQ_MarshalXML_def)
  next
    case False
    then show ?thesis
      using SIQ by (simp add: unwritable_def IQ_MarshalXML_tree marshal_nameless nameless_stanza_tree)
  qed
qed

end
