(* ===== verification/Matcher.thy ===== *)
theory Matcher
  imports Stanza
begin

text \<open>
  Stanza matchers: \<^verbatim>\<open>src/xmpp/matcher.go\<close>. A \<^verbatim>\<open>Matcher\<close> is a predicate on a possibly nil
  stanza, and a nil matcher in an argument list is \<open>None\<close>. The combinators form a Boolean
  algebra over the matchers, which is what the laws below state.
\<close>

type_synonym matcher = "stanza option \<Rightarrow> bool"

definition MatchAll :: matcher where
  "MatchAll s \<longleftrightarrow> True"

definition MatchKind :: "string \<Rightarrow> matcher" where
  "MatchKind kind s \<longleftrightarrow> (case s of None \<Rightarrow> False | Some st \<Rightarrow> Kind st = kind)"

definition MatchID :: "string \<Rightarrow> matcher" where
  "MatchID id' s \<longleftrightarrow> (case s of None \<Rightarrow> False | Some st \<Rightarrow> StanzaID st = id')"

definition MatchFrom :: "unicode \<Rightarrow> string \<Rightarrow> bool \<Rightarrow> matcher" where
  "MatchFrom U value bare s \<longleftrightarrow>
     (case s of
        None \<Rightarrow> False
      | Some st \<Rightarrow>
          if bare then EqualFold U (BareJIDString (StanzaFrom st)) (BareJIDString value)
          else EqualFold U (StanzaFrom st) value)"

definition MatchTo :: "unicode \<Rightarrow> string \<Rightarrow> bool \<Rightarrow> matcher" where
  "MatchTo U value bare s \<longleftrightarrow>
     (case s of
        None \<Rightarrow> False
      | Some st \<Rightarrow>
          if bare then EqualFold U (BareJIDString (StanzaTo st)) (BareJIDString value)
          else EqualFold U (StanzaTo st) value)"

fun stanzaPayloads :: "stanza option \<Rightarrow> node list" where
  "stanzaPayloads (Some (SMessage m)) = msg_Extensions m"
| "stanzaPayloads (Some (SPresence p)) = prs_Extensions p"
| "stanzaPayloads (Some (SIQ i)) = iq_Payloads i"
| "stanzaPayloads None = []"

definition MatchPayload :: "string \<Rightarrow> string \<Rightarrow> matcher" where
  "MatchPayload ns local s \<longleftrightarrow>
     list_ex (\<lambda>n. Local (Name n) = local \<and> (ns = [] \<or> Space (Name n) = ns)) (stanzaPayloads s)"

fun MatchIQType :: "string \<Rightarrow> matcher" where
  "MatchIQType kind (Some (SIQ i)) \<longleftrightarrow> iq_Type i = kind"
| "MatchIQType kind _ \<longleftrightarrow> False"

fun MatchAnd :: "matcher option list \<Rightarrow> matcher" where
  "MatchAnd [] s \<longleftrightarrow> True"
| "MatchAnd (m # ms) s \<longleftrightarrow>
     (case m of
        None \<Rightarrow> MatchAnd ms s
      | Some f \<Rightarrow> if \<not> f s then False else MatchAnd ms s)"

fun MatchOr :: "matcher option list \<Rightarrow> matcher" where
  "MatchOr [] s \<longleftrightarrow> False"
| "MatchOr (m # ms) s \<longleftrightarrow>
     (case m of
        None \<Rightarrow> MatchOr ms s
      | Some f \<Rightarrow> if f s then True else MatchOr ms s)"

definition MatchNot :: "matcher option \<Rightarrow> matcher" where
  "MatchNot m s \<longleftrightarrow> (case m of None \<Rightarrow> True | Some f \<Rightarrow> \<not> f s)"

subsection \<open>The loops decide the quantifiers\<close>

lemma MatchAnd_iff: "MatchAnd ms s \<longleftrightarrow> (\<forall>f. Some f \<in> set ms \<longrightarrow> f s)"
  by (induction ms) (auto split: option.splits)

lemma MatchOr_iff: "MatchOr ms s \<longleftrightarrow> (\<exists>f. Some f \<in> set ms \<and> f s)"
  by (induction ms) (auto split: option.splits)

lemma MatchPayload_findExtension:
  "MatchPayload ns local s \<longleftrightarrow> findExtension (stanzaPayloads s) ns local \<noteq> None"
proof -
  have "list_ex (\<lambda>n. Local (Name n) = local \<and> (ns = [] \<or> Space (Name n) = ns)) xs
      \<longleftrightarrow> findExtension xs ns local \<noteq> None" for xs
    by (induction xs) auto
  then show ?thesis by (simp add: MatchPayload_def)
qed

subsection \<open>Properties\<close>

text \<open>The combinators obey the laws of a Boolean algebra on matchers, nil matchers
  being neutral in every argument list: De Morgan in both directions, double negation, the
  units and zeros, and nested conjunctions and disjunctions flatten.\<close>

theorem matcher_boolean_algebra:
  "MatchNot (Some (MatchAnd ms)) = MatchOr (map (map_option (\<lambda>f. MatchNot (Some f))) ms)
   \<and> MatchNot (Some (MatchOr ms)) = MatchAnd (map (map_option (\<lambda>f. MatchNot (Some f))) ms)
   \<and> MatchNot (Some (MatchNot (Some f))) = f
   \<and> MatchAnd [Some MatchAll, Some f, None] = f \<and> MatchOr [Some (MatchNot (Some MatchAll)), Some f, None] = f
   \<and> MatchAnd (Some (MatchAnd ms) # ns) = MatchAnd (ms @ ns)
   \<and> MatchOr (Some (MatchOr ms) # ns) = MatchOr (ms @ ns)
   \<and> MatchAnd [Some f, Some (MatchOr ms)] = MatchOr (map (map_option (\<lambda>g. MatchAnd [Some f, Some g])) ms)"
proof -
  have neg: "MatchOr (map (map_option n) ms) s \<longleftrightarrow> \<not> MatchAnd ms s"
      "MatchAnd (map (map_option n) ms) s \<longleftrightarrow> \<not> MatchOr ms s" if "\<And>f. n f s \<longleftrightarrow> \<not> f s" for n s
    by (induction ms) (auto simp: that split: option.splits)
  have dist: "MatchOr (map (map_option n) ms) s \<longleftrightarrow> f s \<and> MatchOr ms s" if "\<And>g. n g s \<longleftrightarrow> f s \<and> g s" for n s
    by (induction ms) (auto simp: that split: option.splits)
  have app: "MatchAnd (ms @ ns) s \<longleftrightarrow> MatchAnd ms s \<and> MatchAnd ns s"
      "MatchOr (ms @ ns) s \<longleftrightarrow> MatchOr ms s \<or> MatchOr ns s" for s
    by (auto simp: MatchAnd_iff MatchOr_iff)
  show ?thesis
    by (auto simp: fun_eq_iff MatchNot_def MatchAll_def app neg dist)
qed

end
