(* ===== verification/Plugins.thy ===== *)
theory Plugins
  imports Errors "HOL-Library.List_Lexorder" "HOL-Library.Char_ord"
begin

text \<open>
  The plugin manager of \<^verbatim>\<open>src/xmpp/plugin.go\<close>. A plugin is its metadata and a number that
  stands for its \<^verbatim>\<open>Init\<close> and \<^verbatim>\<open>Shutdown\<close> code, which are arguments of the operations, as
  are the factories (\<open>make\<close>) and the listeners of the \<^verbatim>\<open>plugin_loaded\<close> event. \<^verbatim>\<open>Use\<close> and
  \<^verbatim>\<open>Load\<close> call each other; the model counts the nesting, and a nesting of one more than the
  number of factories is proved to be enough. A Go map is iterated in an unspecified
  order, so \<open>Names\<close> and \<open>Features\<close> take the order as an argument.
\<close>

record plugin =
  p_Name :: string
  p_Description :: string
  p_Dependencies :: "string list"
  p_Features :: "string list"
  p_code :: nat

record plugin_manager =
  pm_factories :: "string \<Rightarrow> nat option"
  pm_loaded :: "string \<Rightarrow> plugin option"
  pm_loading :: "string set"
  pm_order :: "string list"

definition newPluginManager :: plugin_manager where
  "newPluginManager = \<lparr>pm_factories = Map.empty, pm_loaded = Map.empty, pm_loading = {}, pm_order = []\<rparr>"

definition RegisterFactory :: "string \<Rightarrow> nat option \<Rightarrow> 'w plugin_manager_scheme
    \<Rightarrow> go_error option \<times> 'w plugin_manager_scheme" where
  "RegisterFactory name f m =
     (if name = [] \<or> f = None then (Some (Errf ''xmpp: plugin name and factory are required''), m)
      else if pm_factories m name \<noteq> None
        then (Some (Errorf ''xmpp: plugin factory %q already registered'' [name] None), m)
      else (None, m\<lparr>pm_factories := (pm_factories m)(name := f)\<rparr>))"

text \<open>What the manager calls out to: the factories, \<^verbatim>\<open>Init\<close>, and the event it emits.\<close>

record 'w plugin_env =
  pe_make :: "nat \<Rightarrow> plugin option"
  pe_init :: "plugin \<Rightarrow> 'w plugin_manager_scheme \<Rightarrow> go_error option \<times> 'w plugin_manager_scheme"
  pe_loaded_event :: "plugin \<Rightarrow> 'w plugin_manager_scheme \<Rightarrow> 'w plugin_manager_scheme"

type_synonym ('w, 'a) pm_call = "'w plugin_manager_scheme \<Rightarrow> ('a \<times> 'w plugin_manager_scheme) option"

definition load_with :: "'w plugin_env \<Rightarrow> (plugin option \<Rightarrow> ('w, go_error option) pm_call)
    \<Rightarrow> string \<Rightarrow> ('w, plugin option result) pm_call" where
  "load_with env use name m =
     (case pm_loaded m name of
        Some p \<Rightarrow> Some (Inr (Some p), m)
      | None \<Rightarrow>
          (case pm_factories m name of
             None \<Rightarrow> Some (Inl (Errorf ''xmpp: unknown plugin %q'' [name] None), m)
           | Some f \<Rightarrow>
               (case use (pe_make env f) m of
                  None \<Rightarrow> None
                | Some (Some e, m') \<Rightarrow> Some (Inl e, m')
                | Some (None, m') \<Rightarrow> Some (Inr (pe_make env f), m'))))"

fun load_deps :: "(string \<Rightarrow> ('w, plugin option result) pm_call) \<Rightarrow> string \<Rightarrow> string list
    \<Rightarrow> ('w, go_error option) pm_call" where
  "load_deps load who [] m = Some (None, m)"
| "load_deps load who (dep # deps) m =
     (case load dep m of
        None \<Rightarrow> None
      | Some (Inl e, m') \<Rightarrow>
          Some (Some (Errorf ''xmpp: initialize %s dependency %s: %w'' [who, dep] (Some e)), m')
      | Some (Inr _, m') \<Rightarrow> load_deps load who deps m')"

text \<open>The part of \<^verbatim>\<open>Use\<close> between marking the name as loading and the deferred unmarking.\<close>

definition use_body :: "'w plugin_env \<Rightarrow> (string \<Rightarrow> ('w, plugin option result) pm_call)
    \<Rightarrow> plugin \<Rightarrow> ('w, go_error option) pm_call" where
  "use_body env load p m =
     (case load_deps load (p_Name p) (p_Dependencies p) m of
        None \<Rightarrow> None
      | Some (Some e, m1) \<Rightarrow> Some (Some e, m1)
      | Some (None, m1) \<Rightarrow>
          (case pe_init env p m1 of
             (Some e, m2) \<Rightarrow>
               Some (Some (Errorf ''xmpp: initialize plugin %s: %w'' [p_Name p] (Some e)), m2)
           | (None, m2) \<Rightarrow>
               Some (None, pe_loaded_event env p
                 (m2\<lparr>pm_loaded := (pm_loaded m2)(p_Name p \<mapsto> p), pm_order := pm_order m2 @ [p_Name p]\<rparr>))))"

fun Use :: "nat \<Rightarrow> 'w plugin_env \<Rightarrow> plugin option \<Rightarrow> ('w, go_error option) pm_call" where
  "Use 0 env p m = None"
| "Use (Suc depth) env None m = Some (Some (Errf ''xmpp: invalid plugin''), m)"
| "Use (Suc depth) env (Some p) m =
     (if p_Name p = [] then Some (Some (Errf ''xmpp: invalid plugin''), m)
      else if pm_loaded m (p_Name p) \<noteq> None then Some (None, m)
      else if p_Name p \<in> pm_loading m
        then Some (Some (Errorf ''xmpp: cyclic plugin dependency involving %q'' [p_Name p] None), m)
      else
        (case use_body env (load_with env (Use depth env)) p
                (m\<lparr>pm_loading := insert (p_Name p) (pm_loading m)\<rparr>) of
           None \<Rightarrow> None
         | Some (r, m') \<Rightarrow> Some (r, m'\<lparr>pm_loading := pm_loading m' - {p_Name p}\<rparr>)))"

definition Load :: "nat \<Rightarrow> 'w plugin_env \<Rightarrow> string \<Rightarrow> ('w, plugin option result) pm_call" where
  "Load depth env = load_with env (Use depth env)"

definition Get :: "string \<Rightarrow> 'w plugin_manager_scheme \<Rightarrow> plugin option" where
  "Get name m = pm_loaded m name"

text \<open>\<^verbatim>\<open>MustGet\<close> panics, which is \<open>Inl\<close>, when the plugin is not loaded.\<close>

definition MustGet :: "string \<Rightarrow> 'w plugin_manager_scheme \<Rightarrow> string + plugin" where
  "MustGet name m =
     (case Get name m of None \<Rightarrow> Inl (''xmpp: plugin not loaded: '' @ name) | Some p \<Rightarrow> Inr p)"

definition Names :: "string list \<Rightarrow> string list" where
  "Names keys = sort keys"

text \<open>
  \<^verbatim>\<open>Features\<close> collects the non-empty features of the loaded plugins in a set and sorts it;
  the order in which the set is enumerated does not matter to the sorted result.
\<close>

definition Features :: "plugin list \<Rightarrow> string list" where
  "Features plugins =
     sort (remdups (concat (map (\<lambda>p. filter (\<lambda>f. f \<noteq> []) (p_Features p)) plugins)))"

text \<open>\<^verbatim>\<open>shutdown\<close> calls through a nil interface, and so panics, on a name that is not loaded:
  that is \<open>None\<close>.\<close>

fun shutdown_loop :: "(plugin \<Rightarrow> go_error option) \<Rightarrow> (string \<Rightarrow> plugin option) \<Rightarrow> string list
    \<Rightarrow> (plugin list \<times> go_error option list) option" where
  "shutdown_loop stop loaded [] = Some ([], [])"
| "shutdown_loop stop loaded (n # ns) =
     (case loaded n of
        None \<Rightarrow> None
      | Some p \<Rightarrow>
          (case shutdown_loop stop loaded ns of
             None \<Rightarrow> None
           | Some (ps, errs) \<Rightarrow> Some (p # ps, stop p # errs)))"

definition shutdown :: "(plugin \<Rightarrow> go_error option) \<Rightarrow> 'w plugin_manager_scheme
    \<Rightarrow> (go_error option \<times> plugin list) option" where
  "shutdown stop m =
     (case shutdown_loop stop (pm_loaded m) (rev (pm_order m)) of
        None \<Rightarrow> None
      | Some (stopped, errs) \<Rightarrow> Some (joinErrors errs, stopped))"

subsection \<open>The manager's invariant\<close>

definition deps_before :: "(string \<Rightarrow> plugin option) \<Rightarrow> string list \<Rightarrow> bool" where
  "deps_before loaded order \<longleftrightarrow>
     (\<forall>ys n zs p. order = ys @ n # zs \<longrightarrow> loaded n = Some p \<longrightarrow> set (p_Dependencies p) \<subseteq> set ys)"

definition pm_inv :: "'w plugin_manager_scheme \<Rightarrow> bool" where
  "pm_inv m \<longleftrightarrow> distinct (pm_order m) \<and> set (pm_order m) = dom (pm_loaded m)
     \<and> (\<forall>n p. pm_loaded m n = Some p \<longrightarrow> p_Name p = n)
     \<and> pm_loading m \<inter> dom (pm_loaded m) = {} \<and> deps_before (pm_loaded m) (pm_order m)"

text \<open>\<open>pm_grows m m'\<close>: an operation only adds loaded plugins, at the end of the order.\<close>

definition pm_grows :: "'w plugin_manager_scheme \<Rightarrow> 'w plugin_manager_scheme \<Rightarrow> bool" where
  "pm_grows m m' \<longleftrightarrow> pm_inv m' \<and> pm_loading m' = pm_loading m \<and> pm_factories m' = pm_factories m
     \<and> prefix (pm_order m) (pm_order m') \<and> pm_loaded m \<subseteq>\<^sub>m pm_loaded m'"

lemma pm_inv_cong:
  "pm_loaded a = pm_loaded b \<Longrightarrow> pm_loading a = pm_loading b \<Longrightarrow> pm_order a = pm_order b \<Longrightarrow> pm_inv a \<Longrightarrow> pm_inv b"
  by (simp add: pm_inv_def)

lemma pm_grows_refl: "pm_inv m \<Longrightarrow> pm_grows m m"
  by (simp add: pm_grows_def)

lemma pm_grows_trans: "pm_grows a b \<Longrightarrow> pm_grows b c \<Longrightarrow> pm_grows a c"
  by (auto simp: pm_grows_def intro: map_le_trans prefix_order.trans)

lemma pm_growsD:
  assumes "pm_grows m m'"
  shows "pm_inv m'" "pm_loading m' = pm_loading m" "pm_factories m' = pm_factories m"
    "dom (pm_loaded m) \<subseteq> dom (pm_loaded m')"
  using assms by (auto simp: pm_grows_def map_le_implies_dom_le)

lemma deps_before_snoc:
  assumes "deps_before loaded order" "x \<notin> set order" "set (p_Dependencies p) \<subseteq> set order"
  shows "deps_before (loaded(x \<mapsto> p)) (order @ [x])"
  unfolding deps_before_def
proof (intro allI impI)
  fix ys n zs q
  assume split: "order @ [x] = ys @ n # zs" and q: "(loaded(x \<mapsto> p)) n = Some q"
  show "set (p_Dependencies q) \<subseteq> set ys"
  proof (cases zs rule: rev_cases)
    case Nil
    then show ?thesis using split q assms(3) by auto
  next
    case (snoc zs' z)
    then have "order = ys @ n # zs'" using split by simp
    then show ?thesis using q assms(1,2) by (auto simp: deps_before_def split: if_splits)
  qed
qed

lemma pm_inv_append:
  assumes "pm_inv m" "p_Name p \<notin> dom (pm_loaded m)" "set (p_Dependencies p) \<subseteq> dom (pm_loaded m)"
  shows "pm_inv (m\<lparr>pm_loaded := (pm_loaded m)(p_Name p \<mapsto> p), pm_order := pm_order m @ [p_Name p],
                   pm_loading := pm_loading m - {p_Name p}\<rparr>)"
  using assms deps_before_snoc[of "pm_loaded m" "pm_order m" "p_Name p" p]
  by (auto simp: pm_inv_def)

text \<open>What the code called by the manager promises: it leaves the manager's own fields alone.\<close>

definition keeps_manager :: "'w plugin_env \<Rightarrow> bool" where
  "keeps_manager env \<longleftrightarrow>
     (\<forall>p m. plugin_manager.truncate (snd (pe_init env p m)) = plugin_manager.truncate m
          \<and> plugin_manager.truncate (pe_loaded_event env p m) = plugin_manager.truncate m)"

definition factories_named :: "'w plugin_env \<Rightarrow> 'w plugin_manager_scheme \<Rightarrow> bool" where
  "factories_named env m \<longleftrightarrow>
     (\<forall>n f. pm_factories m n = Some f \<longrightarrow> (\<exists>p. pe_make env f = Some p \<and> p_Name p = n))"

lemma factories_named_ran:
  assumes "factories_named env m" "f \<in> ran (pm_factories m)"
  obtains p where "pe_make env f = Some p" "p_Name p \<in> dom (pm_factories m)"
proof -
  obtain n where n: "pm_factories m n = Some f" using assms(2) by (auto simp: ran_def)
  then obtain p where "pe_make env f = Some p" "p_Name p = n"
    using assms(1) unfolding factories_named_def by blast
  then show thesis using that n by blast
qed

lemma truncate_fields:
  "plugin_manager.truncate a = plugin_manager.truncate b \<Longrightarrow>
     pm_factories a = pm_factories b \<and> pm_loaded a = pm_loaded b
     \<and> pm_loading a = pm_loading b \<and> pm_order a = pm_order b"
  by (simp add: plugin_manager.defs)

locale plugin_calls =
  fixes env :: "'w plugin_env"
  assumes keeps: "keeps_manager env"
begin

lemma init_fields:
  assumes "pe_init env p m = (r, m')"
  shows "pm_factories m' = pm_factories m \<and> pm_loaded m' = pm_loaded m
     \<and> pm_loading m' = pm_loading m \<and> pm_order m' = pm_order m"
proof -
  have "plugin_manager.truncate (snd (pe_init env p m)) = plugin_manager.truncate m"
    using keeps unfolding keeps_manager_def by blast
  then show ?thesis using assms by (intro truncate_fields) simp
qed

lemma event_fields:
  "pm_factories (pe_loaded_event env p m) = pm_factories m" "pm_loaded (pe_loaded_event env p m) = pm_loaded m"
  "pm_loading (pe_loaded_event env p m) = pm_loading m" "pm_order (pe_loaded_event env p m) = pm_order m"
  using keeps truncate_fields[of "pe_loaded_event env p m" m] by (auto simp: keeps_manager_def)

definition load_ok :: "(string \<Rightarrow> ('w, plugin option result) pm_call) \<Rightarrow> bool" where
  "load_ok load \<longleftrightarrow> (\<forall>n m r m'. pm_inv m \<longrightarrow> factories_named env m \<longrightarrow> load n m = Some (r, m') \<longrightarrow>
     pm_grows m m' \<and> (\<forall>q. r = Inr q \<longrightarrow> n \<in> dom (pm_loaded m')))"

definition use_ok :: "(plugin option \<Rightarrow> ('w, go_error option) pm_call) \<Rightarrow> bool" where
  "use_ok use \<longleftrightarrow> (\<forall>p m r m'. pm_inv m \<longrightarrow> factories_named env m \<longrightarrow> use p m = Some (r, m') \<longrightarrow>
     pm_grows m m' \<and> (r = None \<longrightarrow> (\<exists>q. p = Some q \<and> p_Name q \<in> dom (pm_loaded m'))))"

lemma load_with_ok:
  assumes "use_ok use"
  shows "load_ok (load_with env use)"
  unfolding load_ok_def
proof (intro allI impI)
  fix n m r m'
  assume inv: "pm_inv m" and named: "factories_named env m" and r: "load_with env use n m = Some (r, m')"
  show "pm_grows m m' \<and> (\<forall>q. r = Inr q \<longrightarrow> n \<in> dom (pm_loaded m'))"
  proof (cases "pm_loaded m n")
    case (Some p)
    then show ?thesis using r inv by (auto simp: load_with_def pm_grows_refl)
  next
    case none: None
    show ?thesis
    proof (cases "pm_factories m n")
      case None
      then show ?thesis using none r inv by (auto simp: load_with_def pm_grows_refl)
    next
      case (Some f)
      then obtain p where p: "pe_make env f = Some p" "p_Name p = n"
        using named by (auto simp: factories_named_def)
      obtain e where u: "use (Some p) m = Some (e, m')" and r': "\<forall>q. r = Inr q \<longrightarrow> e = None"
        using r none Some p by (auto simp: load_with_def split: option.splits)
      show ?thesis
        using assms inv named u r' p unfolding use_ok_def by blast
    qed
  qed
qed

lemma load_deps_ok:
  assumes ok: "load_ok load"
  shows "pm_inv m \<Longrightarrow> factories_named env m \<Longrightarrow> load_deps load who deps m = Some (r, m') \<Longrightarrow>
    pm_grows m m' \<and> (r = None \<longrightarrow> set deps \<subseteq> dom (pm_loaded m'))"
proof (induction deps arbitrary: m)
  case (Cons d deps)
  from Cons.prems(3) obtain r1 m1 where l: "load d m = Some (r1, m1)"
    by (auto split: option.splits)
  have g: "pm_grows m m1" and d: "\<forall>q. r1 = Inr q \<longrightarrow> d \<in> dom (pm_loaded m1)"
    using ok Cons.prems l unfolding load_ok_def by blast+
  show ?case
  proof (cases r1)
    case (Inl e)
    then show ?thesis using Cons.prems l g by auto
  next
    case (Inr q)
    then have rest: "load_deps load who deps m1 = Some (r, m')" using Cons.prems l by simp
    have "factories_named env m1"
      using Cons.prems(2) pm_growsD(3)[OF g] by (simp add: factories_named_def)
    then have "pm_grows m1 m' \<and> (r = None \<longrightarrow> set deps \<subseteq> dom (pm_loaded m'))"
      using Cons.IH[OF pm_growsD(1)[OF g] _ rest] by simp
    then show ?thesis
      using g d Inr pm_grows_trans pm_growsD(4) by fastforce
  qed
qed (simp add: pm_grows_refl)

lemma use_body_ok:
  assumes ok: "load_ok load" and inv: "pm_inv m" and named: "factories_named env m"
    and fresh: "p_Name p \<notin> dom (pm_loaded m)" "p_Name p \<notin> pm_loading m"
    and b: "use_body env load p (m\<lparr>pm_loading := insert (p_Name p) (pm_loading m)\<rparr>) = Some (r, m')"
  shows "pm_grows m (m'\<lparr>pm_loading := pm_loading m' - {p_Name p}\<rparr>)
    \<and> (r = None \<longrightarrow> p_Name p \<in> dom (pm_loaded m'))"
proof -
  let ?n = "p_Name p" and ?m0 = "m\<lparr>pm_loading := insert (p_Name p) (pm_loading m)\<rparr>"
  have inv0: "pm_inv ?m0" "factories_named env ?m0"
    using inv named fresh by (auto simp: pm_inv_def factories_named_def)
  from b obtain e m1 where d: "load_deps load ?n (p_Dependencies p) ?m0 = Some (e, m1)"
    by (auto simp: use_body_def split: option.splits)
  have g: "pm_grows ?m0 m1" and deps: "e = None \<longrightarrow> set (p_Dependencies p) \<subseteq> dom (pm_loaded m1)"
    using load_deps_ok[OF ok inv0 d] by auto
  have restored: "pm_grows m (x\<lparr>pm_loading := pm_loading x - {?n}\<rparr>)"
    if "pm_factories x = pm_factories m1" "pm_loaded x = pm_loaded m1"
       "pm_loading x = pm_loading m1" "pm_order x = pm_order m1" for x
    using g fresh that by (auto simp: pm_grows_def pm_inv_def)
  show ?thesis
  proof (cases e)
    case (Some err)
    then show ?thesis using b d restored[of m1] by (auto simp: use_body_def)
  next
    case None
    obtain ie m2 where i: "pe_init env p m1 = (ie, m2)" by (cases "pe_init env p m1")
    note fields = init_fields[OF i]
    show ?thesis
    proof (cases ie)
      case (Some err)
      then show ?thesis using b d None i fields restored[of m2] by (auto simp: use_body_def)
    next
      case ok: None
      let ?x = "m2\<lparr>pm_loaded := (pm_loaded m2)(?n \<mapsto> p), pm_order := pm_order m2 @ [?n]\<rparr>"
      have m': "m' = pe_loaded_event env p ?x" "r = None"
        using b d None i ok by (auto simp: use_body_def)
      have n1: "?n \<in> pm_loading m1" using g by (auto simp: pm_grows_def)
      have i1: "pm_inv m1" by (rule pm_growsD(1)[OF g])
      have inv2: "pm_inv m2" "?n \<notin> dom (pm_loaded m2)" "set (p_Dependencies p) \<subseteq> dom (pm_loaded m2)"
        using i1 fields deps None n1 by (simp_all add: pm_inv_def) blast
      have i2: "pm_inv (m'\<lparr>pm_loading := pm_loading m' - {?n}\<rparr>)"
        by (rule pm_inv_cong[OF _ _ _ pm_inv_append[OF inv2]]) (simp_all add: m'(1) event_fields)
      have le: "pm_loaded m \<subseteq>\<^sub>m (pm_loaded m1)(?n \<mapsto> p)"
        using g fresh by (auto simp: pm_grows_def map_le_def)
      have "prefix (pm_order m) (pm_order m1 @ [?n])" "pm_loading m1 - {?n} = pm_loading m"
          "pm_factories m1 = pm_factories m"
        using g fresh by (auto simp: pm_grows_def)
      then show ?thesis
        using i2 le fields by (simp add: pm_grows_def m' event_fields)
    qed
  qed
qed

lemma Use_ok: "use_ok (Use depth env)"
proof (induction depth)
  case 0
  show ?case by (simp add: use_ok_def)
next
  case (Suc depth)
  note load = load_with_ok[OF Suc]
  show ?case
    unfolding use_ok_def
  proof (intro allI impI)
    fix p m r m'
    assume inv: "pm_inv m" and named: "factories_named env m" and u: "Use (Suc depth) env p m = Some (r, m')"
    show "pm_grows m m' \<and> (r = None \<longrightarrow> (\<exists>q. p = Some q \<and> p_Name q \<in> dom (pm_loaded m')))"
    proof (cases p)
      case None
      then show ?thesis using u inv by (auto simp: pm_grows_refl)
    next
      case (Some q)
      show ?thesis
      proof (cases "p_Name q = [] \<or> pm_loaded m (p_Name q) \<noteq> None \<or> p_Name q \<in> pm_loading m")
        case True
        then show ?thesis using u inv Some by (auto simp: pm_grows_refl split: if_splits)
      next
        case False
        then obtain x where b: "use_body env (load_with env (Use depth env)) q
              (m\<lparr>pm_loading := insert (p_Name q) (pm_loading m)\<rparr>) = Some (r, x)"
          and m': "m' = x\<lparr>pm_loading := pm_loading x - {p_Name q}\<rparr>"
          using u Some by (auto split: option.splits)
        show ?thesis
          using use_body_ok[OF load inv named _ _ b] False Some m' by auto
      qed
    qed
  qed
qed

text \<open>
  Termination. Every nested call marks one more factory name as loading, so the number of
  factories that are not being loaded bounds the nesting.
\<close>

definition free_factories :: "'w plugin_manager_scheme \<Rightarrow> nat" where
  "free_factories m = card (dom (pm_factories m) - pm_loading m)"

lemma load_deps_total:
  assumes ok: "load_ok load"
    and total: "\<And>n x. pm_inv x \<Longrightarrow> factories_named env x \<Longrightarrow> pm_factories x = F \<Longrightarrow> pm_loading x = L \<Longrightarrow> load n x \<noteq> None"
  shows "pm_inv m \<Longrightarrow> factories_named env m \<Longrightarrow> pm_factories m = F \<Longrightarrow> pm_loading m = L \<Longrightarrow>
    load_deps load who deps m \<noteq> None"
proof (induction deps arbitrary: m)
  case (Cons d deps)
  obtain r m1 where l: "load d m = Some (r, m1)" using total[OF Cons.prems, of d] by auto
  have g: "pm_grows m m1" using ok Cons.prems l unfolding load_ok_def by blast
  have "factories_named env m1" using Cons.prems pm_growsD(3)[OF g] by (simp add: factories_named_def)
  then have "load_deps load who deps m1 \<noteq> None"
    using Cons.IH[OF pm_growsD(1)[OF g]] pm_growsD(2,3)[OF g] Cons.prems by simp
  then show ?case using l by (auto split: sum.splits)
qed simp

lemma Use_step_total:
  assumes inv: "pm_inv m" and named: "factories_named env m"
    and total: "\<And>f x. f \<in> ran (pm_factories m) \<Longrightarrow> pm_inv x \<Longrightarrow> factories_named env x \<Longrightarrow>
        pm_factories x = pm_factories m \<Longrightarrow> pm_loading x = insert (p_Name p) (pm_loading m) \<Longrightarrow>
        p_Name p \<notin> pm_loading m \<Longrightarrow> Use depth env (pe_make env f) x \<noteq> None"
  shows "Use (Suc depth) env (Some p) m \<noteq> None"
proof (cases "p_Name p = [] \<or> pm_loaded m (p_Name p) \<noteq> None \<or> p_Name p \<in> pm_loading m")
  case False
  let ?m0 = "m\<lparr>pm_loading := insert (p_Name p) (pm_loading m)\<rparr>"
  have inv0: "pm_inv ?m0" "factories_named env ?m0"
    using inv named False by (auto simp: pm_inv_def factories_named_def)
  have "load_with env (Use depth env) n x \<noteq> None"
    if "pm_inv x" "factories_named env x" "pm_factories x = pm_factories m"
       "pm_loading x = insert (p_Name p) (pm_loading m)" for n x
  proof (cases "pm_loaded x n")
    case None
    show ?thesis
    proof (cases "pm_factories x n")
      case (Some f)
      then have "Use depth env (pe_make env f) x \<noteq> None"
        using total[OF ranI that] that(3) False by simp
      then show ?thesis using Some \<open>pm_loaded x n = None\<close> by (auto simp: load_with_def split: option.splits)
    qed (simp add: load_with_def None)
  qed (simp add: load_with_def)
  then have "load_deps (load_with env (Use depth env)) (p_Name p) (p_Dependencies p) ?m0 \<noteq> None"
    using load_deps_total[OF load_with_ok[OF Use_ok], of "pm_factories m" "insert (p_Name p) (pm_loading m)"] inv0
    by simp
  then show ?thesis using False by (auto simp: use_body_def split: option.splits prod.splits)
qed auto

lemma Use_total_factory:
  "pm_inv m \<Longrightarrow> factories_named env m \<Longrightarrow> finite (dom (pm_factories m)) \<Longrightarrow> free_factories m \<le> k \<Longrightarrow>
   p_Name p \<in> dom (pm_factories m) \<Longrightarrow> Use (Suc k) env (Some p) m \<noteq> None"
proof (induction k arbitrary: m p)
  case 0
  then have "p_Name p \<in> pm_loading m" by (auto simp: free_factories_def)
  then show ?case by simp
next
  case (Suc k)
  show ?case
  proof (rule Use_step_total[OF Suc.prems(1,2)])
    fix f x
    assume f: "f \<in> ran (pm_factories m)" and x: "pm_inv x" "factories_named env x"
        "pm_factories x = pm_factories m" "pm_loading x = insert (p_Name p) (pm_loading m)"
        and new: "p_Name p \<notin> pm_loading m"
    obtain q where q: "pe_make env f = Some q" "p_Name q \<in> dom (pm_factories x)"
      using factories_named_ran[OF x(2)] f x(3) by auto
    have "dom (pm_factories x) - pm_loading x = (dom (pm_factories m) - pm_loading m) - {p_Name p}"
      using x by auto
    then have "free_factories x \<le> k"
      using Suc.prems new by (auto simp: free_factories_def card_Diff_singleton_if)
    then show "Use (Suc k) env (pe_make env f) x \<noteq> None"
      using Suc.IH[OF x(1,2)] x(3) Suc.prems(3) q by simp
  qed
qed

lemma Use_total:
  assumes "pm_inv m" "factories_named env m" "finite (dom (pm_factories m))"
  shows "\<exists>r m'. Use (card (dom (pm_factories m)) + 2) env p m = Some (r, m')"
proof (cases p)
  case (Some q)
  have "Use (Suc (Suc (card (dom (pm_factories m))))) env (Some q) m \<noteq> None"
  proof (rule Use_step_total[OF assms(1,2)])
    fix f x
    assume f: "f \<in> ran (pm_factories m)" and x: "pm_inv x" "factories_named env x"
        "pm_factories x = pm_factories m"
    obtain p' where p': "pe_make env f = Some p'" "p_Name p' \<in> dom (pm_factories x)"
      using factories_named_ran[OF x(2)] f x(3) by auto
    have "free_factories x \<le> card (dom (pm_factories m))"
      using assms(3) x(3) by (auto simp: free_factories_def intro: card_mono)
    then show "Use (Suc (card (dom (pm_factories m)))) env (pe_make env f) x \<noteq> None"
      using Use_total_factory[OF x(1,2)] x(3) assms(3) p' by simp
  qed
  then show ?thesis using Some by auto
qed simp

end

subsection \<open>Basic plugins\<close>

text \<open>
  \<^verbatim>\<open>BasicPlugin\<close>: metadata and optional hooks. With hooks that do not call the manager it
  meets the contract above.
\<close>

definition BasicPlugin_Init :: "(nat \<Rightarrow> go_error option option) \<Rightarrow> plugin \<Rightarrow> go_error option" where
  "BasicPlugin_Init OnInit p = (case OnInit (p_code p) of None \<Rightarrow> None | Some r \<Rightarrow> r)"

definition BasicPlugin_Shutdown :: "(nat \<Rightarrow> go_error option option) \<Rightarrow> plugin \<Rightarrow> go_error option" where
  "BasicPlugin_Shutdown OnShutdown p = (case OnShutdown (p_code p) of None \<Rightarrow> None | Some r \<Rightarrow> r)"

definition basic_env :: "(nat \<Rightarrow> plugin option) \<Rightarrow> (nat \<Rightarrow> go_error option option) \<Rightarrow> 'w plugin_env" where
  "basic_env mk OnInit =
     \<lparr>pe_make = mk, pe_init = \<lambda>p m. (BasicPlugin_Init OnInit p, m), pe_loaded_event = \<lambda>p m. m\<rparr>"

lemma keeps_basic_env: "keeps_manager (basic_env mk OnInit)"
  by (simp add: keeps_manager_def basic_env_def)

interpretation basic: plugin_calls "basic_env mk OnInit" for mk OnInit
  by unfold_locales (rule keeps_basic_env)

lemma shutdown_loop_all:
  "set ns \<subseteq> dom loaded \<Longrightarrow>
   shutdown_loop stop loaded ns = Some (map (the \<circ> loaded) ns, map (stop \<circ> the \<circ> loaded) ns)"
  by (induction ns) auto

lemma pm_inv_new: "pm_inv newPluginManager"
  by (simp add: pm_inv_def newPluginManager_def deps_before_def)

subsection \<open>Properties\<close>

text \<open>C5: using a plugin, successfully or not, keeps the manager consistent: every loaded plugin
  is filed under its own name exactly once, nothing loaded is marked as loading, each
  plugin comes after all its dependencies in the load order (so the dependency graph of what is
  loaded has no cycle), nothing that was loaded is lost or reordered, and on success the
  plugin is loaded.\<close>

theorem Use_keeps_invariant:
  assumes "keeps_manager env" "factories_named env m" "pm_inv m" "Use depth env p m = Some (r, m')"
  shows "pm_inv m' \<and> pm_loading m' = pm_loading m \<and> prefix (pm_order m) (pm_order m')
     \<and> pm_loaded m \<subseteq>\<^sub>m pm_loaded m'
     \<and> (r = None \<longrightarrow> (\<exists>q. p = Some q \<and> p_Name q \<in> dom (pm_loaded m')))"
proof -
  have "plugin_calls env" by unfold_locales (rule assms(1))
  from plugin_calls.Use_ok[OF this, of depth] show ?thesis
    using assms(2-4) plugin_calls.use_ok_def[OF \<open>plugin_calls env\<close>] unfolding pm_grows_def by blast
qed

definition example_plugin :: "string \<Rightarrow> string list \<Rightarrow> plugin" where
  "example_plugin n deps =
     \<lparr>p_Name = n, p_Description = [], p_Dependencies = deps, p_Features = [], p_code = 0\<rparr>"

definition example_env :: "unit plugin_env" where
  "example_env = basic_env (\<lambda>f. if f = 1 then Some (example_plugin ''disco'' []) else None) (\<lambda>_. None)"

definition example_manager :: plugin_manager where
  "example_manager = newPluginManager\<lparr>pm_factories := [''disco'' \<mapsto> 1]\<rparr>"

lemma example_manager_ok:
  "keeps_manager example_env" "factories_named example_env example_manager" "pm_inv example_manager"
  "finite (dom (pm_factories example_manager))"
proof -
  show "keeps_manager example_env" unfolding example_env_def by (rule keeps_basic_env)
qed (use pm_inv_new in \<open>simp_all add: example_env_def example_manager_def factories_named_def basic_env_def
      example_plugin_def newPluginManager_def pm_inv_def\<close>)

lemma example_use:
  "\<exists>m'. Use 2 example_env (Some (example_plugin ''caps'' [''disco''])) example_manager = Some (None, m')
      \<and> pm_order m' = [''disco'', ''caps'']"
  by (simp add: numeral_2_eq_2 use_body_def load_with_def example_env_def basic_env_def example_plugin_def
      example_manager_def newPluginManager_def BasicPlugin_Init_def)

theorem Use_keeps_invariant_witness:
  "\<exists>m'. Use 2 example_env (Some (example_plugin ''caps'' [''disco''])) example_manager = Some (None, m')
      \<and> pm_inv m' \<and> pm_order m' = [''disco'', ''caps'']"
proof -
  obtain m' where u: "Use 2 example_env (Some (example_plugin ''caps'' [''disco''])) example_manager = Some (None, m')"
      and ord: "pm_order m' = [''disco'', ''caps'']"
    using example_use by blast
  then show ?thesis using Use_keeps_invariant[OF example_manager_ok(1-3) u] by blast
qed

text \<open>C6: loading always ends. A nesting of two more than the number of factories is enough for
  any plugin and any dependency graph, cyclic ones included.\<close>

theorem Use_terminates:
  assumes "keeps_manager env" "factories_named env m" "pm_inv m" "finite (dom (pm_factories m))"
  shows "\<exists>r m'. Use (card (dom (pm_factories m)) + 2) env p m = Some (r, m')"
proof -
  have "plugin_calls env" by unfold_locales (rule assms(1))
  from plugin_calls.Use_total[OF this] show ?thesis using assms by blast
qed

theorem Use_terminates_witness:
  "\<exists>r m'. Use (card (dom (pm_factories example_manager)) + 2) example_env
     (Some (example_plugin ''a'' [''a''])) example_manager = Some (r, m')"
  by (rule Use_terminates[OF example_manager_ok])

text \<open>C7: shutdown stops every loaded plugin exactly once, each before all the plugins it depends
  on, continues past failures, and reports no error only if none failed.\<close>

theorem shutdown_order:
  assumes "pm_inv m"
  shows "\<exists>ps. shutdown stop m = Some (joinErrors (map stop ps), ps)
      \<and> map p_Name ps = rev (pm_order m) \<and> distinct ps \<and> set ps = ran (pm_loaded m)
      \<and> (\<forall>ys p zs. ps = ys @ p # zs \<longrightarrow> set (p_Dependencies p) \<subseteq> p_Name ` set zs)"
proof -
  let ?ps = "map (the \<circ> pm_loaded m) (rev (pm_order m))"
  have dom: "set (rev (pm_order m)) = dom (pm_loaded m)" using assms by (simp add: pm_inv_def)
  have name: "pm_loaded m n = Some p \<Longrightarrow> p_Name p = n" for n p using assms by (simp add: pm_inv_def)
  have "shutdown stop m = Some (joinErrors (map stop ?ps), ?ps)"
    using shutdown_loop_all[of "rev (pm_order m)" "pm_loaded m" stop] dom
    by (simp add: shutdown_def comp_assoc)
  moreover have names: "map p_Name ?ps = rev (pm_order m)"
  proof -
    have "(p_Name \<circ> (the \<circ> pm_loaded m)) n = n" if "n \<in> set (rev (pm_order m))" for n
      using dom that by (auto simp: name)
    then show ?thesis unfolding map_map by (rule map_idI)
  qed
  moreover from names have "distinct ?ps"
    using assms by (metis distinct_map distinct_rev pm_inv_def)
  moreover have "set ?ps = ran (pm_loaded m)"
    using dom by (force simp: ran_def image_iff)
  moreover have "set (p_Dependencies p) \<subseteq> p_Name ` set zs" if s: "?ps = ys @ p # zs" for ys p zs
  proof -
    have "rev (pm_order m) = map p_Name ys @ p_Name p # map p_Name zs" using names s by simp
    then have ord: "pm_order m = rev (map p_Name zs) @ p_Name p # rev (map p_Name ys)"
      by (metis append.assoc append_Cons append_Nil rev.simps(2) rev_append rev_rev_ident)
    have "p \<in> set ?ps" unfolding s by simp
    then obtain n where n: "n \<in> dom (pm_loaded m)" "p = the (pm_loaded m n)" using dom by auto
    then have "pm_loaded m n = Some p" by auto
    then have p: "pm_loaded m (p_Name p) = Some p" using name[of n p] by simp
    have "deps_before (pm_loaded m) (pm_order m)" using assms by (simp add: pm_inv_def)
    then have "set (p_Dependencies p) \<subseteq> set (rev (map p_Name zs))"
      using ord p unfolding deps_before_def by blast
    then show ?thesis by simp
  qed
  ultimately show ?thesis by blast
qed

theorem shutdown_order_witness:
  "\<exists>m' ps. Use 2 example_env (Some (example_plugin ''caps'' [''disco''])) example_manager = Some (None, m')
      \<and> shutdown (\<lambda>_. None) m' = Some (joinErrors (map (\<lambda>_. None) ps), ps)
      \<and> map p_Name ps = [''caps'', ''disco'']"
proof -
  obtain m' where u: "Use 2 example_env (Some (example_plugin ''caps'' [''disco''])) example_manager = Some (None, m')"
      and ord: "pm_order m' = [''disco'', ''caps'']"
    using example_use by blast
  have "pm_inv m'"
    using basic.Use_ok[of "\<lambda>f. if f = 1 then Some (example_plugin ''disco'' []) else None" "\<lambda>_. None" 2]
      example_manager_ok u
    unfolding basic.use_ok_def example_env_def pm_grows_def by blast
  from shutdown_order[OF this, of "\<lambda>_. None"] u ord show ?thesis by auto
qed

end
