(* ===== verification/Config.thy ===== *)
theory Config
  imports Jid
begin

text \<open>
  Client configuration: \<^verbatim>\<open>src/xmpp/config.go\<close>, with the address resolution of
  \<^verbatim>\<open>src/xmpp/client.go\<close>. Durations are nanoseconds. A TLS configuration is reduced to what
  the library reads or writes of it; a resolver or dialer is only known to be present.
\<close>

record tls_config =
  tls_ServerName :: string
  tls_MinVersion :: nat
  tls_certificates :: nat

record config =
  cfg_JID :: string
  cfg_Password :: string
  cfg_Resource :: string
  cfg_ComponentSecret :: string
  cfg_Address :: string
  cfg_DirectTLS :: bool
  cfg_RequireTLS :: bool
  cfg_InsecureAllowPlainAuth :: bool
  cfg_TLSConfig :: "tls_config option"
  cfg_SASLMechanisms :: "string list"
  cfg_AuthorizationID :: string
  cfg_Resolver :: bool
  cfg_Dialer :: bool
  cfg_ConnectTimeout :: int
  cfg_IQTimeout :: int
  cfg_KeepAlive :: int
  cfg_AutoPresence :: bool
  cfg_DisableAutoPresence :: bool
  cfg_InitialPresence :: presence
  cfg_Language :: string
  cfg_UserAgent :: string

abbreviation Second :: int where
  "Second \<equiv> 1000000000"

definition config0 :: config where
  "config0 = \<lparr>cfg_JID = [], cfg_Password = [], cfg_Resource = [], cfg_ComponentSecret = [],
     cfg_Address = [], cfg_DirectTLS = False, cfg_RequireTLS = False, cfg_InsecureAllowPlainAuth = False,
     cfg_TLSConfig = None, cfg_SASLMechanisms = [], cfg_AuthorizationID = [], cfg_Resolver = False,
     cfg_Dialer = False, cfg_ConnectTimeout = 0, cfg_IQTimeout = 0, cfg_KeepAlive = 0,
     cfg_AutoPresence = False, cfg_DisableAutoPresence = False, cfg_InitialPresence = presence0,
     cfg_Language = [], cfg_UserAgent = []\<rparr>"

definition DefaultConfig :: "string \<Rightarrow> string \<Rightarrow> config" where
  "DefaultConfig j password =
     config0\<lparr>cfg_JID := j, cfg_Password := password, cfg_RequireTLS := True, cfg_AutoPresence := True,
       cfg_ConnectTimeout := 20 * Second, cfg_IQTimeout := 30 * Second, cfg_Language := ''en'',
       cfg_UserAgent := ''slixmpp-go''\<rparr>"

definition default_mechanisms :: "string list" where
  "default_mechanisms = [''SCRAM-SHA-256'', ''SCRAM-SHA-1'', ''EXTERNAL'', ''PLAIN'', ''ANONYMOUS'']"

definition normalized :: "config \<Rightarrow> config" where
  "normalized c =
     c\<lparr>cfg_ConnectTimeout := (if cfg_ConnectTimeout c \<le> 0 then 20 * Second else cfg_ConnectTimeout c),
       cfg_IQTimeout := (if cfg_IQTimeout c \<le> 0 then 30 * Second else cfg_IQTimeout c),
       cfg_Language := (if cfg_Language c = [] then ''en'' else cfg_Language c),
       cfg_UserAgent := (if cfg_UserAgent c = [] then ''slixmpp-go'' else cfg_UserAgent c),
       cfg_Resolver := True, cfg_Dialer := True,
       cfg_SASLMechanisms :=
         (if cfg_SASLMechanisms c = [] then default_mechanisms else cfg_SASLMechanisms c),
       cfg_AutoPresence := \<not> (cfg_ComponentSecret c \<noteq> [] \<or> cfg_DisableAutoPresence c),
       cfg_RequireTLS :=
         (if \<not> cfg_RequireTLS c \<and> \<not> cfg_InsecureAllowPlainAuth c \<and> \<not> cfg_DirectTLS c
             \<and> cfg_ComponentSecret c = [] then True else cfg_RequireTLS c)\<rparr>"

text \<open>\<^verbatim>\<open>net.SplitHostPort\<close>: host and port of an address, or the reason there are none.\<close>

definition split_tail :: "string \<Rightarrow> nat \<Rightarrow> nat \<Rightarrow> nat \<Rightarrow> string \<Rightarrow> (string \<times> string) result" where
  "split_tail s j k i host =
     (if CHR ''['' \<in> set (drop j s) then Inl (Errorf ''unexpected '[' in address'' [s] None)
      else if CHR '']'' \<in> set (drop k s) then Inl (Errorf ''unexpected ']' in address'' [s] None)
      else Inr (host, drop (i + 1) s))"

definition SplitHostPort :: "string \<Rightarrow> (string \<times> string) result" where
  "SplitHostPort s =
     (case LastIndexByte s CHR '':'' of
        None \<Rightarrow> Inl (Errorf ''missing port in address'' [s] None)
      | Some i \<Rightarrow>
          if hd s = CHR ''['' then
            (case IndexByte s CHR '']'' of
               None \<Rightarrow> Inl (Errorf ''missing ']' in address'' [s] None)
             | Some e \<Rightarrow>
                 if e + 1 = length s then Inl (Errorf ''missing port in address'' [s] None)
                 else if e + 1 = i then split_tail s 1 (e + 1) i (take (e - 1) (drop 1 s))
                 else if s ! (e + 1) = CHR '':'' then Inl (Errorf ''too many colons in address'' [s] None)
                 else Inl (Errorf ''missing port in address'' [s] None))
          else if CHR '':'' \<in> set (take i s) then Inl (Errorf ''too many colons in address'' [s] None)
          else split_tail s 0 0 i (take i s))"

definition JoinHostPort :: "string \<Rightarrow> string \<Rightarrow> string" where
  "JoinHostPort host port =
     (if CHR '':'' \<in> set host then ''['' @ host @ '']:'' @ port else host @ '':'' @ port)"

definition validate :: "unicode \<Rightarrow> config \<Rightarrow> jid result" where
  "validate U c =
     (case ParseJID U (cfg_JID c) of
        Inl e \<Rightarrow> Inl e
      | Inr j0 \<Rightarrow>
          let j = (if cfg_Resource c \<noteq> [] then j0\<lparr>jid_Resource := cfg_Resource c\<rparr> else j0) in
          if cfg_ComponentSecret c \<noteq> [] \<and> \<not> JID_IsDomain j
            then Inl (Errf ''xmpp: component JID must be a domain JID'')
          else if cfg_ComponentSecret c \<noteq> [] \<and> cfg_Address c = []
            then Inl (Errf ''xmpp: component Address is required'')
          else if cfg_Address c \<noteq> [] then
            (case SplitHostPort (cfg_Address c) of
               Inl e \<Rightarrow> Inl (Errorf ''xmpp: invalid address %q: %w'' [cfg_Address c] (Some e))
             | Inr _ \<Rightarrow> Inr j)
          else Inr j)"

text \<open>
  \<^verbatim>\<open>resolveAddress\<close>; the SRV lookup is an argument that gives the records (target and port) or
  an error, and an error is ignored.
\<close>

fun first_record :: "(string \<times> nat) list \<Rightarrow> string option" where
  "first_record [] = None"
| "first_record ((target, port) # rs) =
     (let t = TrimSuffix target ''.'' in
      if t \<noteq> [] \<and> t \<noteq> ''.'' then Some (JoinHostPort t (Itoa (int port))) else first_record rs)"

definition resolveAddress ::
  "(string \<Rightarrow> string \<Rightarrow> (string \<times> nat) list result) \<Rightarrow> config \<Rightarrow> jid \<Rightarrow> string" where
  "resolveAddress lookup c j =
     (if cfg_Address c \<noteq> [] then cfg_Address c
      else
        let (service, port) = (if cfg_DirectTLS c then (''xmpps-client'', ''5223'') else (''xmpp-client'', ''5222''))
        in case lookup service (jid_Domain j) of
             Inl e \<Rightarrow> JoinHostPort (jid_Domain j) port
           | Inr records \<Rightarrow>
               (case first_record records of Some a \<Rightarrow> a | None \<Rightarrow> JoinHostPort (jid_Domain j) port))"

text \<open>The TLS configuration of a connection: a server name and a minimum version are filled in.\<close>

abbreviation VersionTLS12 :: nat where
  "VersionTLS12 \<equiv> 771"

definition tlsConfig :: "config \<Rightarrow> jid \<Rightarrow> tls_config" where
  "tlsConfig c j =
     (let t0 = (case cfg_TLSConfig c of
                  Some t \<Rightarrow> t
                | None \<Rightarrow> \<lparr>tls_ServerName = [], tls_MinVersion = VersionTLS12, tls_certificates = 0\<rparr>);
          t1 = (if tls_ServerName t0 = [] then t0\<lparr>tls_ServerName := jid_Domain j\<rparr> else t0)
      in if tls_MinVersion t1 = 0 then t1\<lparr>tls_MinVersion := VersionTLS12\<rparr> else t1)"

subsection \<open>Lemmas\<close>

lemma normalized_fields [simp]:
  "cfg_ComponentSecret (normalized c) = cfg_ComponentSecret c" "cfg_DirectTLS (normalized c) = cfg_DirectTLS c"
  "cfg_InsecureAllowPlainAuth (normalized c) = cfg_InsecureAllowPlainAuth c"
  "cfg_JID (normalized c) = cfg_JID c" "cfg_Address (normalized c) = cfg_Address c"
  by (simp_all add: normalized_def)

lemma normalized_RequireTLS:
  "cfg_RequireTLS (normalized c) \<longleftrightarrow> cfg_RequireTLS c
     \<or> \<not> cfg_InsecureAllowPlainAuth c \<and> \<not> cfg_DirectTLS c \<and> cfg_ComponentSecret c = []"
  by (auto simp: normalized_def)

lemma normalized_idem: "normalized (normalized c) = normalized c"
  by (rule config.equality) (simp_all add: normalized_def default_mechanisms_def)

text \<open>The host and port of an address written by \<^verbatim>\<open>JoinHostPort\<close> are recovered.\<close>

lemma SplitHostPort_JoinHostPort:
  assumes "set host \<inter> {CHR ''['', CHR '']''} = {}" "set port \<inter> {CHR '':'', CHR ''['', CHR '']''} = {}"
  shows "SplitHostPort (JoinHostPort host port) = Inr (host, port)"
proof (cases "CHR '':'' \<in> set host")
  case False
  have "LastIndexByte (host @ CHR '':'' # port) CHR '':'' = Some (length host)"
    using assms by (intro LastIndexByte_split) auto
  moreover have "hd (host @ CHR '':'' # port) \<noteq> CHR ''[''"
    using assms by (cases host) auto
  ultimately show ?thesis
    using assms False by (auto simp: JoinHostPort_def SplitHostPort_def split_tail_def)
next
  case True
  let ?s = "CHR ''['' # host @ CHR '']'' # CHR '':'' # port"
  have l: "LastIndexByte ?s CHR '':'' = Some (length host + 2)"
    using assms LastIndexByte_split[of "CHR '':''" port "CHR ''['' # host @ [CHR '']'']"] by auto
  have r: "IndexByte ?s CHR '']'' = Some (length host + 1)"
    using assms IndexByte_split[of "CHR '']''" "CHR ''['' # host"] by auto
  show ?thesis
    using assms True l r by (auto simp: JoinHostPort_def SplitHostPort_def split_tail_def)
qed

end
