(* ===== verification/Stream.thy ===== *)
theory Stream
  imports Stanza Config
begin

text \<open>
  The XML stream under the connection code of \<^verbatim>\<open>src/xmpp/client.go\<close>: writing elements and
  stanzas, reading the next top-level element, and opening a stream. The peer is
  arbitrary: the state holds the tokens the current decoder will deliver and the error it
  reports after them, the same for every decoder created later (\<^verbatim>\<open>resetDecoder\<close> drops what
  the old one had left), and the outcomes of the coming writes. What is written is
  recorded with a flag telling whether TLS was active, and the names of emitted events are
  recorded too (what their handlers do is the business of the event bus).

  Code that talks to the peer is a function \<open>conn \<Rightarrow> 'a result \<times> conn\<close>; \<open>bindc\<close> sequences
  two of them and stops at an error, and \<open>triple\<close> is the Hoare-style judgement the
  connection proofs use.
\<close>

abbreviation clientNS :: string where "clientNS \<equiv> ''jabber:client''"
abbreviation streamNS :: string where "streamNS \<equiv> ''http://etherx.jabber.org/streams''"
abbreviation startTLSNS :: string where "startTLSNS \<equiv> ''urn:ietf:params:xml:ns:xmpp-tls''"
abbreviation bindNS :: string where "bindNS \<equiv> ''urn:ietf:params:xml:ns:xmpp-bind''"
abbreviation legacySessionNS :: string where "legacySessionNS \<equiv> ''urn:ietf:params:xml:ns:xmpp-session''"
abbreviation componentNS :: string where "componentNS \<equiv> ''jabber:component:accept''"
abbreviation saslNS :: string where "saslNS \<equiv> ''urn:ietf:params:xml:ns:xmpp-sasl''"

datatype out_item =
    OutOpen string string string
  | OutClose
  | OutNode node
  | OutStanza stanza
  | OutRaw string

record conn =
  cn_open :: bool
  cn_tls :: bool
  cn_in :: "xtoken list"
  cn_fin :: go_error
  cn_later :: "(xtoken list \<times> go_error) list"
  cn_writes :: "go_error option list"
  cn_out :: "(bool \<times> out_item) list"
  cn_jid :: jid
  cn_nextID :: nat
  cn_features :: node
  cn_connected :: bool
  cn_events :: "string list"

type_synonym 'a conn_op = "conn \<Rightarrow> 'a result \<times> conn"

definition returnc :: "'a \<Rightarrow> 'a conn_op" where
  "returnc x s = (Inr x, s)"

definition failc :: "go_error \<Rightarrow> 'a conn_op" where
  "failc e s = (Inl e, s)"

definition bindc :: "'a conn_op \<Rightarrow> ('a \<Rightarrow> 'b conn_op) \<Rightarrow> 'b conn_op" where
  "bindc m f s = (case m s of (Inl e, s') \<Rightarrow> (Inl e, s') | (Inr x, s') \<Rightarrow> f x s')"

text \<open>\<open>wrapc g m\<close> is \<^verbatim>\<open>if err != nil { return g(err) }\<close> around a call.\<close>

definition wrapc :: "(go_error \<Rightarrow> go_error) \<Rightarrow> 'a conn_op \<Rightarrow> 'a conn_op" where
  "wrapc g m s = (case m s of (Inl e, s') \<Rightarrow> (Inl (g e), s') | (Inr x, s') \<Rightarrow> (Inr x, s'))"

subsection \<open>Writing\<close>

definition write_item :: "out_item \<Rightarrow> unit conn_op" where
  "write_item it s =
     (if \<not> cn_open s then (Inl (Sentinel ErrNotConnected), s)
      else
        (case cn_writes s of
           Some e # ws \<Rightarrow> (Inl e, s\<lparr>cn_writes := ws\<rparr>)
         | None # ws \<Rightarrow> (Inr (), s\<lparr>cn_writes := ws, cn_out := cn_out s @ [(cn_tls s, it)]\<rparr>)
         | [] \<Rightarrow> (Inr (), s\<lparr>cn_out := cn_out s @ [(cn_tls s, it)]\<rparr>)))"

definition writeNode :: "node \<Rightarrow> unit conn_op" where
  "writeNode n s = (case marshal n of Inl e \<Rightarrow> (Inl e, s) | Inr _ \<Rightarrow> write_item (OutNode n) s)"

definition writeStanza :: "stanza \<Rightarrow> unit conn_op" where
  "writeStanza st s = (case StanzaXML st of Inl e \<Rightarrow> (Inl e, s) | Inr _ \<Rightarrow> write_item (OutStanza st) s)"

subsection \<open>Reading\<close>

fun read_top :: "go_error \<Rightarrow> xtoken list \<Rightarrow> node result \<times> xtoken list" where
  "read_top fin [] = (Inl fin, [])"
| "read_top fin (StartElement nm as # ts) =
     (case unmarshal fin (Node nm as []) ts of Inl e \<Rightarrow> (Inl e, []) | Inr (n, rest) \<Rightarrow> (Inr n, rest))"
| "read_top fin (EndElement nm # ts) =
     (if nm = XName streamNS ''stream'' then (Inl (Sentinel ErrClosed), ts) else read_top fin ts)"
| "read_top fin (CharData t # ts) = read_top fin ts"
| "read_top fin (OtherToken # ts) = read_top fin ts"

definition readTopLevelNode :: "node conn_op" where
  "readTopLevelNode s =
     (if \<not> cn_open s then (Inl (Sentinel ErrNotConnected), s)
      else let (r, rest) = read_top (cn_fin s) (cn_in s) in (r, s\<lparr>cn_in := rest\<rparr>))"

lemma read_top_consumes: "read_top fin ts = (Inr n, rest) \<Longrightarrow> length rest < length ts"
  by (induction fin ts rule: read_top.induct)
     (auto dest: unmarshal_consumes split: sum.splits if_splits)

text \<open>Skipping to the first start tag, as the stream-opening loops do.\<close>

fun next_start :: "xtoken list \<Rightarrow> (xname \<times> attr list \<times> xtoken list) option" where
  "next_start [] = None"
| "next_start (StartElement nm as # ts) = Some (nm, as, ts)"
| "next_start (t # ts) = next_start ts"

definition read_start :: "(xname \<times> attr list) conn_op" where
  "read_start s =
     (case next_start (cn_in s) of
        None \<Rightarrow> (Inl (cn_fin s), s\<lparr>cn_in := []\<rparr>)
      | Some (nm, as, rest) \<Rightarrow> (Inr (nm, as), s\<lparr>cn_in := rest\<rparr>))"

definition setConn :: "bool \<Rightarrow> unit conn_op" where
  "setConn tls s = (Inr (), s\<lparr>cn_open := True, cn_tls := tls\<rparr>)"

definition resetDecoder :: "unit conn_op" where
  "resetDecoder s =
     (Inr (),
      if cn_open s then
        (case cn_later s of
           [] \<Rightarrow> s\<lparr>cn_in := [], cn_fin := Sentinel ErrEOF\<rparr>
         | (ts, fin) # rest \<Rightarrow> s\<lparr>cn_in := ts, cn_fin := fin, cn_later := rest\<rparr>)
      else s)"

definition clearConn :: "conn \<Rightarrow> conn" where
  "clearConn s = s\<lparr>cn_open := False, cn_tls := False, cn_connected := False\<rparr>"

definition NextID :: "string conn_op" where
  "NextID s =
     (let n = (cn_nextID s + 1) mod 2 ^ 64
      in (Inr (''go-'' @ FormatNat 36 n), s\<lparr>cn_nextID := n\<rparr>))"

definition JIDc :: "jid conn_op" where
  "JIDc s = (Inr (cn_jid s), s)"

definition setFeatures :: "node \<Rightarrow> node conn_op" where
  "setFeatures n s = (Inr n, s\<lparr>cn_features := clone n\<rparr>)"

definition openAndReadFeatures :: "config \<Rightarrow> node conn_op" where
  "openAndReadFeatures cfg =
     bindc resetDecoder (\<lambda>_.
     bindc JIDc (\<lambda>j.
     bindc (write_item (OutOpen clientNS (jid_Domain j) (cfg_Language cfg))) (\<lambda>_.
     bindc read_start (\<lambda>start.
       if \<not> (Local (fst start) = ''stream'' \<and> Space (fst start) = streamNS)
       then failc (Errorf ''xmpp: expected stream opening, received <%s>'' [Local (fst start)] None)
       else bindc readTopLevelNode (\<lambda>features.
         if Local (Name features) \<noteq> ''features'' \<or> Space (Name features) \<noteq> streamNS
         then failc (Errorf ''xmpp: expected stream features, received <%s>'' [Local (Name features)] None)
         else setFeatures features)))))"

subsection \<open>Reasoning about connection code\<close>

definition triple :: "(conn \<Rightarrow> bool) \<Rightarrow> 'a conn_op \<Rightarrow> ('a result \<Rightarrow> conn \<Rightarrow> bool) \<Rightarrow> bool" where
  "triple P m Q \<longleftrightarrow> (\<forall>s r s'. P s \<longrightarrow> m s = (r, s') \<longrightarrow> Q r s')"

text \<open>\<open>keeping P Q\<close>: \<open>P\<close> on every outcome and in addition \<open>Q\<close> on success.\<close>

definition keeping :: "(conn \<Rightarrow> bool) \<Rightarrow> ('a \<Rightarrow> conn \<Rightarrow> bool) \<Rightarrow> 'a result \<Rightarrow> conn \<Rightarrow> bool" where
  "keeping P Q r s \<longleftrightarrow> P s \<and> (\<forall>x. r = Inr x \<longrightarrow> Q x s)"

lemma tripleI: "(\<And>s r s'. P s \<Longrightarrow> m s = (r, s') \<Longrightarrow> Q r s') \<Longrightarrow> triple P m Q"
  by (auto simp: triple_def)

lemma tripleD: "triple P m Q \<Longrightarrow> P s \<Longrightarrow> m s = (r, s') \<Longrightarrow> Q r s'"
  by (auto simp: triple_def)

lemma triple_weaken: "triple P m Q \<Longrightarrow> (\<And>s. P' s \<Longrightarrow> P s) \<Longrightarrow> (\<And>r s. Q r s \<Longrightarrow> Q' r s) \<Longrightarrow> triple P' m Q'"
  unfolding triple_def by blast

lemma triple_bind:
  assumes "triple P m (keeping I R)" "\<And>x. triple (\<lambda>s. I s \<and> R x s) (f x) (keeping I Q)"
  shows "triple P (bindc m f) (keeping I Q)"
proof (rule tripleI)
  fix s r s'
  assume P: "P s" and b: "bindc m f s = (r, s')"
  obtain r1 s1 where m: "m s = (r1, s1)" by (cases "m s")
  have k: "keeping I R r1 s1" by (rule tripleD[OF assms(1) P m])
  show "keeping I Q r s'"
  proof (cases r1)
    case (Inl e)
    then show ?thesis using b m k by (auto simp: bindc_def keeping_def)
  next
    case (Inr x)
    then have "f x s1 = (r, s')" using b m by (simp add: bindc_def)
    then show ?thesis using tripleD[OF assms(2)[of x]] k Inr by (auto simp: keeping_def)
  qed
qed

lemma triple_return: "triple (\<lambda>s. I s \<and> Q x s) (returnc x) (keeping I Q)"
  by (simp add: triple_def returnc_def keeping_def)

lemma triple_fail: "triple I (failc e) (keeping I Q)"
  by (simp add: triple_def failc_def keeping_def)

lemma triple_wrap: "triple P m (keeping I Q) \<Longrightarrow> triple P (wrapc g m) (keeping I Q)"
  unfolding triple_def keeping_def wrapc_def by (auto split: sum.splits prod.splits)

lemma triple_pre: "(\<And>s0. P s0 \<Longrightarrow> triple (\<lambda>s. s = s0 \<and> P s) m Q) \<Longrightarrow> triple P m Q"
  unfolding triple_def by blast

end
