(* ===== verification/Go_Base64.thy ===== *)
theory Go_Base64
  imports Go_Numbers
begin

text \<open>
  Go's \<^verbatim>\<open>encoding/base64\<close>: the standard alphabet with padding, which carries every key,
  nonce and payload on the wire, and the unpadded form used for the SCRAM nonce. The
  decoder skips carriage returns and newlines and does not insist on zero trailing
  bits, as the non-strict Go decoder.
\<close>

definition std_alphabet :: string where
  "std_alphabet = ''ABCDEFGHIJKLMNOPQRSTUVWXYZabcdefghijklmnopqrstuvwxyz0123456789+/''"

definition sextet :: "nat \<Rightarrow> char" where
  "sextet n = std_alphabet ! n"

definition sextet_val :: "char \<Rightarrow> nat option" where
  "sextet_val c = IndexByte std_alphabet c"

abbreviation byte_val :: "char \<Rightarrow> nat" where
  "byte_val c \<equiv> of_char c"

fun b64_encode :: "string \<Rightarrow> bytes \<Rightarrow> string" where
  "b64_encode pad [] = []"
| "b64_encode pad [a] =
     [sextet (byte_val a div 4), sextet (byte_val a mod 4 * 16)] @ pad @ pad"
| "b64_encode pad [a, b] =
     [sextet (byte_val a div 4), sextet (byte_val a mod 4 * 16 + byte_val b div 16),
      sextet (byte_val b mod 16 * 4)] @ pad"
| "b64_encode pad (a # b # c # s) =
     sextet (byte_val a div 4) # sextet (byte_val a mod 4 * 16 + byte_val b div 16) #
     sextet (byte_val b mod 16 * 4 + byte_val c div 64) # sextet (byte_val c mod 64) #
     b64_encode pad s"

definition EncodeToString :: "bytes \<Rightarrow> string" where
  "EncodeToString s = b64_encode ''='' s"

definition RawEncodeToString :: "bytes \<Rightarrow> string" where
  "RawEncodeToString s = b64_encode [] s"

definition quad_bytes :: "nat \<Rightarrow> nat \<Rightarrow> nat \<Rightarrow> nat \<Rightarrow> bytes" where
  "quad_bytes w x y z =
     [char_of (w * 4 + x div 16), char_of (x mod 16 * 16 + y div 4), char_of (y mod 4 * 64 + z)]"

fun b64_quads :: "string \<Rightarrow> bytes option" where
  "b64_quads [] = Some []"
| "b64_quads (w # x # y # z # s) =
     (if s = [] \<and> z = CHR ''='' then
        (case (sextet_val w, sextet_val x) of
           (Some a, Some b) \<Rightarrow>
             (if y = CHR ''='' then Some (take 1 (quad_bytes a b 0 0))
              else map_option (\<lambda>c. take 2 (quad_bytes a b c 0)) (sextet_val y))
         | _ \<Rightarrow> None)
      else
        (case (sextet_val w, sextet_val x, sextet_val y, sextet_val z) of
           (Some a, Some b, Some c, Some d) \<Rightarrow> map_option ((@) (quad_bytes a b c d)) (b64_quads s)
         | _ \<Rightarrow> None))"
| "b64_quads _ = None"

definition DecodeString :: "string \<Rightarrow> bytes option" where
  "DecodeString s = b64_quads (filter (\<lambda>c. c \<noteq> CHR 0x0D \<and> c \<noteq> CHR 0x0A) s)"

subsection \<open>Round trip\<close>

lemma length_std_alphabet: "length std_alphabet = 64"
  by (simp add: std_alphabet_def)

lemma distinct_std_alphabet: "distinct std_alphabet"
  by (simp add: std_alphabet_def)

lemma IndexByte_nth: "distinct xs \<Longrightarrow> i < length xs \<Longrightarrow> IndexByte xs (xs ! i) = Some i"
proof (induction xs arbitrary: i)
  case (Cons x xs)
  then show ?case by (cases i) (auto simp: nth_mem)
qed simp

lemma sextet_val_sextet [simp]: "n < 64 \<Longrightarrow> sextet_val (sextet n) = Some n"
  by (simp add: sextet_val_def sextet_def IndexByte_nth distinct_std_alphabet length_std_alphabet)

lemma sextet_in_alphabet: "n < 64 \<Longrightarrow> sextet n \<in> set std_alphabet"
  by (simp add: sextet_def length_std_alphabet)

lemma alphabet_plain: "c \<in> set std_alphabet \<Longrightarrow> plain_char c \<and> c \<noteq> CHR ''=''"
  by (auto simp: std_alphabet_def plain_char_def ascii_spaces_def)

lemma sextet_plain: "n < 64 \<Longrightarrow> plain_char (sextet n) \<and> sextet n \<noteq> CHR ''=''"
  using alphabet_plain sextet_in_alphabet by blast

lemma byte_val_less [simp]: "byte_val c < 256"
  using nat_of_char_less_256[of c] by simp

lemma sextet_bounds [simp]:
  "byte_val a div 4 < 64" "byte_val a mod 4 * 16 + byte_val b div 16 < 64"
  "byte_val a mod 4 * 16 < 64" "byte_val b mod 16 * 4 < 64"
  "byte_val b mod 16 * 4 + byte_val c div 64 < 64" "byte_val c mod 64 < 64"
  using byte_val_less[of a] byte_val_less[of b] byte_val_less[of c] by linarith+

lemma quad_bytes_join:
  "quad_bytes (byte_val a div 4) (byte_val a mod 4 * 16 + byte_val b div 16)
     (byte_val b mod 16 * 4 + byte_val c div 64) (byte_val c mod 64) = [a, b, c]"
proof -
  have digit: "(q * m + r) div m = q" "(q * m + r) mod m = r" if "r < m" for q m r :: nat
    using that by auto
  have b: "byte_val b div 16 < 16" and c: "byte_val c div 64 < 4"
    using byte_val_less[of b] byte_val_less[of c] by linarith+
  have "byte_val a div 4 * 4 + byte_val a mod 4 = byte_val a"
    and "byte_val b div 16 * 16 + byte_val b mod 16 = byte_val b"
    and "byte_val c div 64 * 64 + byte_val c mod 64 = byte_val c"
    by simp_all
  then show ?thesis unfolding quad_bytes_def digit[OF b] digit[OF c] by simp
qed

lemma quad_bytes_join2:
  "take 2 (quad_bytes (byte_val a div 4) (byte_val a mod 4 * 16 + byte_val b div 16)
     (byte_val b mod 16 * 4) 0) = [a, b]"
  using quad_bytes_join[of a b "char_of (0 :: nat)"] by simp

lemma quad_bytes_join1:
  "take 1 (quad_bytes (byte_val a div 4) (byte_val a mod 4 * 16) 0 0) = [a]"
  using quad_bytes_join2[of a "char_of (0 :: nat)"] by (simp add: quad_bytes_def)

lemma b64_quads_encode: "b64_quads (b64_encode ''='' s) = Some s"
proof (induction "''=''" s rule: b64_encode.induct)
  case (2 a)
  then show ?case using quad_bytes_join1[of a] by simp
next
  case (3 a b)
  then show ?case
    using quad_bytes_join2[of a b] sextet_plain[OF sextet_bounds(4)[of b]] by simp
next
  case (4 a b c s)
  then show ?case
    using quad_bytes_join[of a b c] sextet_plain[OF sextet_bounds(6)[of c]] by simp
qed simp

lemma b64_encode_plain: "\<forall>c\<in>set (b64_encode ''='' s). plain_char c"
proof -
  have "plain_char CHR ''=''" by (simp add: plain_char_def ascii_spaces_def)
  then show ?thesis
    by (induction "''=''" s rule: b64_encode.induct) (auto simp: sextet_plain)
qed

lemma DecodeString_EncodeToString [go_simps]: "DecodeString (EncodeToString s) = Some s"
proof -
  have "filter (\<lambda>c. c \<noteq> CHR 0x0D \<and> c \<noteq> CHR 0x0A) (b64_encode ''='' s) = b64_encode ''='' s"
    using b64_encode_plain[of s] by (auto simp: filter_id_conv plain_char_def ascii_spaces_def)
  then show ?thesis by (simp add: DecodeString_def EncodeToString_def b64_quads_encode)
qed

lemma trimmed_EncodeToString [simp]: "trimmed (EncodeToString s)"
  unfolding EncodeToString_def by (rule trimmed_all_plain[OF b64_encode_plain])

lemma EncodeToString_eq_Nil [simp]: "EncodeToString s = [] \<longleftrightarrow> s = []"
  by (cases "(''='', s)" rule: b64_encode.cases) (auto simp: EncodeToString_def)

end
