(* ===== verification/Sasl.thy ===== *)
theory Sasl
  imports Stream Go_Base64 "HOL-Library.Word"
begin

unbundle bit_operations_syntax

text \<open>
  SASL authentication: \<^verbatim>\<open>src/xmpp/sasl.go\<close>. Mechanism selection, the one-step mechanisms,
  and the SCRAM exchange with its key derivation. A hash function is a parameter (its
  digest, output size and block size); HMAC and PBKDF2 are defined on top of it. The
  random nonce is an argument.
\<close>

record hash_fn =
  hf_Sum :: "bytes \<Rightarrow> bytes"
  hf_Size :: nat
  hf_BlockSize :: nat

text \<open>What the code relies on of a hash function: digests have the advertised, positive size.\<close>

definition sized_hash :: "hash_fn \<Rightarrow> bool" where
  "sized_hash hf \<longleftrightarrow> 0 < hf_Size hf \<and> (\<forall>m. length (hf_Sum hf m) = hf_Size hf)"

subsection \<open>Bytes\<close>

definition xor_char :: "char \<Rightarrow> char \<Rightarrow> char" where
  "xor_char a b = char_of ((of_char a :: nat) XOR of_char b)"

text \<open>\<^verbatim>\<open>xorBytes\<close> runs over the first argument and panics, here \<open>None\<close>, if the second is shorter.\<close>

fun xorBytes :: "bytes \<Rightarrow> bytes \<Rightarrow> bytes option" where
  "xorBytes [] b = Some []"
| "xorBytes (x # a) [] = None"
| "xorBytes (x # a) (y # b) = map_option ((#) (xor_char x y)) (xorBytes a b)"

definition digest :: "hash_fn \<Rightarrow> bytes \<Rightarrow> bytes" where
  "digest hf value = hf_Sum hf value"

text \<open>HMAC (RFC 2104), as \<^verbatim>\<open>crypto/hmac\<close> computes it.\<close>

definition hmac_key :: "hash_fn \<Rightarrow> bytes \<Rightarrow> bytes" where
  "hmac_key hf key =
     (let k = (if length key > hf_BlockSize hf then hf_Sum hf key else key)
      in k @ replicate (hf_BlockSize hf - length k) (char_of (0 :: nat)))"

definition hmacDigest :: "hash_fn \<Rightarrow> bytes \<Rightarrow> bytes \<Rightarrow> bytes" where
  "hmacDigest hf key message =
     hf_Sum hf (map (xor_char (char_of (92 :: nat))) (hmac_key hf key)
       @ hf_Sum hf (map (xor_char (char_of (54 :: nat))) (hmac_key hf key) @ message))"

definition block_bytes :: "nat \<Rightarrow> bytes" where
  "block_bytes block =
     [char_of (block div 2 ^ 24 mod 256), char_of (block div 2 ^ 16 mod 256),
      char_of (block div 2 ^ 8 mod 256), char_of (block mod 256)]"

text \<open>The inner loop of \<^verbatim>\<open>pbkdf2\<close>: \<open>n\<close> more rounds from \<open>u\<close> into the accumulator \<open>t\<close>.\<close>

fun pbkdf2_rounds :: "hash_fn \<Rightarrow> bytes \<Rightarrow> nat \<Rightarrow> bytes \<Rightarrow> bytes \<Rightarrow> bytes" where
  "pbkdf2_rounds hf password 0 u t = t"
| "pbkdf2_rounds hf password (Suc n) u t =
     (let u' = hmacDigest hf password u in pbkdf2_rounds hf password n u' (map2 xor_char t u'))"

definition pbkdf2_block :: "hash_fn \<Rightarrow> bytes \<Rightarrow> bytes \<Rightarrow> nat \<Rightarrow> nat \<Rightarrow> bytes" where
  "pbkdf2_block hf password salt iterations block =
     (let u = hmacDigest hf password (salt @ block_bytes block)
      in pbkdf2_rounds hf password (iterations - 1) u u)"

definition pbkdf2 :: "hash_fn \<Rightarrow> bytes \<Rightarrow> bytes \<Rightarrow> nat \<Rightarrow> nat \<Rightarrow> bytes" where
  "pbkdf2 hf password salt iterations keyLength =
     (let blocks = (keyLength + hf_Size hf - 1) div hf_Size hf
      in take keyLength (concat (map (pbkdf2_block hf password salt iterations) [1..<blocks + 1])))"

subsection \<open>Choosing a mechanism\<close>

definition offeredSASLMechanisms :: "node \<Rightarrow> string list" where
  "offeredSASLMechanisms features =
     (case Child saslNS ''mechanisms'' features of
        None \<Rightarrow> []
      | Some m \<Rightarrow> map (\<lambda>c. TrimSpace (Text c)) (filter (\<lambda>c. Local (Name c) = ''mechanism'') (Children m)))"

definition mechanism_usable :: "bool \<Rightarrow> bool \<Rightarrow> string \<Rightarrow> string \<Rightarrow> bool" where
  "mechanism_usable tlsActive hasCertificate password m =
     (if m = ''PLAIN'' then \<not> (password = [] \<or> \<not> tlsActive)
      else if m = ''EXTERNAL'' then \<not> (\<not> hasCertificate \<or> \<not> tlsActive)
      else if m = ''SCRAM-SHA-1'' \<or> m = ''SCRAM-SHA-256'' then password \<noteq> []
      else m = ''ANONYMOUS'')"

fun select_loop :: "unicode \<Rightarrow> string set \<Rightarrow> bool \<Rightarrow> bool \<Rightarrow> string \<Rightarrow> string list \<Rightarrow> string option" where
  "select_loop U available tls cert password [] = None"
| "select_loop U available tls cert password (p # ps) =
     (let m = ToUpper U (TrimSpace p) in
      if m \<notin> available \<or> \<not> mechanism_usable tls cert password m
      then select_loop U available tls cert password ps
      else Some m)"

definition selectSASLMechanism ::
  "unicode \<Rightarrow> string list \<Rightarrow> string list \<Rightarrow> bool \<Rightarrow> bool \<Rightarrow> string \<Rightarrow> string result" where
  "selectSASLMechanism U preferred offered tlsActive hasCertificate password =
     (case select_loop U (set (map (\<lambda>m. ToUpper U (TrimSpace m)) offered)) tlsActive hasCertificate password preferred of
        Some m \<Rightarrow> Inr m
      | None \<Rightarrow> Inl (Errorf ''%w: no mutually supported SASL mechanism (offered %v)'' offered
                       (Some (Sentinel ErrAuthentication))))"

subsection \<open>The exchanges\<close>

abbreviation auth_error :: "string \<Rightarrow> string list \<Rightarrow> go_error" where
  "auth_error f as \<equiv> Errorf f as (Some (Sentinel ErrAuthentication))"

definition saslFailure_step :: "string \<times> string \<Rightarrow> node \<Rightarrow> string \<times> string" where
  "saslFailure_step ct c =
     (if Local (Name c) = ''text'' then (fst ct, Text c) else (Local (Name c), snd ct))"

definition saslFailure :: "node \<Rightarrow> go_error" where
  "saslFailure n =
     (let (condition, text) = foldl saslFailure_step (''failure'', []) (Children n)
      in if text \<noteq> [] then auth_error ''%w: %s: %s'' [condition, text] else auth_error ''%w: %s'' [condition])"

definition auth_node :: "string \<Rightarrow> bytes option \<Rightarrow> node" where
  "auth_node mechanism initial =
     (let n = SetAttr ''mechanism'' mechanism (NewNode saslNS ''auth'')
      in case initial of None \<Rightarrow> n | Some b \<Rightarrow> AddText (EncodeToString b) n)"

definition simpleSASL :: "string \<Rightarrow> bytes option \<Rightarrow> unit conn_op" where
  "simpleSASL mechanism initial =
     bindc (writeNode (auth_node mechanism initial)) (\<lambda>_.
     bindc readTopLevelNode (\<lambda>response.
       if Space (Name response) = saslNS \<and> Local (Name response) = ''success'' then returnc ()
       else if Space (Name response) = saslNS \<and> Local (Name response) = ''failure''
         then failc (saslFailure response)
       else failc (auth_error ''%w: unexpected SASL response <%s>'' [Local (Name response)])))"

definition authPlain :: "config \<Rightarrow> unit conn_op" where
  "authPlain cfg =
     bindc JIDc (\<lambda>j. simpleSASL ''PLAIN''
       (Some (cfg_AuthorizationID cfg @ [char_of (0 :: nat)] @ jid_Local j @ [char_of (0 :: nat)]
          @ cfg_Password cfg)))"

definition authExternal :: "config \<Rightarrow> unit conn_op" where
  "authExternal cfg =
     bindc JIDc (\<lambda>j. simpleSASL ''EXTERNAL''
       (Some (if cfg_AuthorizationID cfg = [] then JID_Bare j else cfg_AuthorizationID cfg)))"

fun scram_attrs :: "(string \<Rightarrow> string option) \<Rightarrow> string list \<Rightarrow> (string \<Rightarrow> string option) result" where
  "scram_attrs attrs [] = Inr attrs"
| "scram_attrs attrs (part # parts) =
     (if length part < 3 \<or> part ! 1 \<noteq> CHR ''='' then Inl (auth_error ''%w: malformed SCRAM attribute'' [])
      else
        let key = take 1 part in
        if attrs key \<noteq> None then Inl (auth_error ''%w: duplicate SCRAM attribute %s'' [key])
        else scram_attrs (attrs(key \<mapsto> drop 2 part)) parts)"

definition parseSCRAMAttributes :: "string \<Rightarrow> (string \<Rightarrow> string option) result" where
  "parseSCRAMAttributes message = scram_attrs Map.empty (Split CHR '','' message)"

definition scram_username :: "string \<Rightarrow> string" where
  "scram_username l = Replacer [(''='', ''=3D''), ('','', ''=2C'')] l"

definition clientFirstBare :: "string \<Rightarrow> string \<Rightarrow> string" where
  "clientFirstBare local nonce = ''n='' @ scram_username local @ '',r='' @ nonce"

text \<open>The values both sides derive once the server's first message is known.\<close>

record scram_keys =
  sk_authMessage :: string
  sk_clientKey :: bytes
  sk_storedKey :: bytes
  sk_clientSignature :: bytes
  sk_serverSignature :: bytes

definition derive_keys :: "hash_fn \<Rightarrow> string \<Rightarrow> bytes \<Rightarrow> nat \<Rightarrow> string \<Rightarrow> string \<Rightarrow> string \<Rightarrow> scram_keys" where
  "derive_keys hf password salt iterations firstBare serverFirst serverNonce =
     (let salted = pbkdf2 hf password salt iterations (hf_Size hf);
          clientKey = hmacDigest hf salted ''Client Key'';
          storedKey = digest hf clientKey;
          authMessage = firstBare @ '','' @ serverFirst @ '','' @ ''c=biws,r='' @ serverNonce;
          serverKey = hmacDigest hf salted ''Server Key''
      in \<lparr>sk_authMessage = authMessage, sk_clientKey = clientKey, sk_storedKey = storedKey,
          sk_clientSignature = hmacDigest hf storedKey authMessage,
          sk_serverSignature = hmacDigest hf serverKey authMessage\<rparr>)"

text \<open>Checking the server's first message: nonce, salt and iteration count.\<close>

definition scram_challenge :: "string \<Rightarrow> string \<Rightarrow> (string \<times> bytes \<times> nat) result" where
  "scram_challenge clientNonce serverFirst =
     (case parseSCRAMAttributes serverFirst of
        Inl e \<Rightarrow> Inl e
      | Inr attrs \<Rightarrow>
          let serverNonce = or_empty (attrs ''r'') in
          if \<not> HasPrefix serverNonce clientNonce \<or> serverNonce = clientNonce
          then Inl (auth_error ''%w: invalid SCRAM server nonce'' [])
          else
            (case DecodeString (or_empty (attrs ''s'')) of
               None \<Rightarrow> Inl (auth_error ''%w: invalid SCRAM salt'' [])
             | Some salt \<Rightarrow>
                 (let (iterations, err) = Atoi (or_empty (attrs ''i'')) in
                  if err \<noteq> None \<or> iterations < 1 \<or> iterations > 10000000
                  then Inl (auth_error ''%w: invalid SCRAM iteration count'' [])
                  else Inr (serverNonce, salt, nat iterations))))"

text \<open>Checking the server's final message, when there is one.\<close>

definition scram_final :: "bytes \<Rightarrow> node \<Rightarrow> unit result" where
  "scram_final expectedSignature final =
     (if Local (Name final) = ''failure'' then Inl (saslFailure final)
      else if Space (Name final) \<noteq> saslNS \<or> Local (Name final) \<noteq> ''success''
        then Inl (auth_error ''%w: expected SCRAM success, received <%s>'' [Local (Name final)])
      else if TrimSpace (Text final) \<noteq> [] then
        (case DecodeString (TrimSpace (Text final)) of
           None \<Rightarrow> Inl (auth_error ''%w: invalid SCRAM server-final encoding'' [])
         | Some decoded \<Rightarrow>
             (case parseSCRAMAttributes decoded of
                Inl e \<Rightarrow> Inl e
              | Inr attrs \<Rightarrow>
                  if or_empty (attrs ''e'') \<noteq> []
                  then Inl (auth_error ''%w: SCRAM server error %s'' [or_empty (attrs ''e'')])
                  else
                    (case DecodeString (or_empty (attrs ''v'')) of
                       None \<Rightarrow> Inl (auth_error ''%w: SCRAM server signature mismatch'' [])
                     | Some signature \<Rightarrow>
                         if signature \<noteq> expectedSignature
                         then Inl (auth_error ''%w: SCRAM server signature mismatch'' [])
                         else Inr ())))
      else Inr ())"

definition liftc :: "'a result \<Rightarrow> 'a conn_op" where
  "liftc r s = (r, s)"

definition scram_response :: "hash_fn \<Rightarrow> config \<Rightarrow> string \<Rightarrow> string \<Rightarrow> node \<Rightarrow> unit conn_op" where
  "scram_response hf cfg firstBare clientNonce challenge =
     (if Local (Name challenge) = ''failure'' then failc (saslFailure challenge)
      else if Space (Name challenge) \<noteq> saslNS \<or> Local (Name challenge) \<noteq> ''challenge''
        then failc (auth_error ''%w: expected SCRAM challenge, received <%s>'' [Local (Name challenge)])
      else
        (case DecodeString (TrimSpace (Text challenge)) of
           None \<Rightarrow> failc (auth_error ''%w: invalid SCRAM challenge encoding'' [])
         | Some serverFirst \<Rightarrow>
             bindc (liftc (scram_challenge clientNonce serverFirst)) (\<lambda>(serverNonce, salt, iterations).
               let k = derive_keys hf (cfg_Password cfg) salt iterations firstBare serverFirst serverNonce in
               (case xorBytes (sk_clientKey k) (sk_clientSignature k) of
                  None \<Rightarrow> failc (Foreign ''runtime error: index out of range'')
                | Some proof \<Rightarrow>
                    bindc (writeNode (NewTextNode saslNS ''response''
                            (EncodeToString (''c=biws,r='' @ serverNonce @ '',p='' @ EncodeToString proof)))) (\<lambda>_.
                    bindc readTopLevelNode (\<lambda>final. liftc (scram_final (sk_serverSignature k) final)))))))"

definition authSCRAM :: "hash_fn \<Rightarrow> bytes result \<Rightarrow> config \<Rightarrow> string \<Rightarrow> unit conn_op" where
  "authSCRAM hf rnd cfg mechanism =
     (case rnd of
        Inl e \<Rightarrow> failc (Errorf ''xmpp: generate SCRAM nonce: %w'' [] (Some e))
      | Inr nonceBytes \<Rightarrow>
          bindc JIDc (\<lambda>j.
            let clientNonce = RawEncodeToString nonceBytes;
                firstBare = clientFirstBare (jid_Local j) clientNonce
            in bindc (writeNode (SetAttr ''mechanism'' mechanism
                       (NewTextNode saslNS ''auth'' (EncodeToString (''n,,'' @ firstBare))))) (\<lambda>_.
               bindc readTopLevelNode (scram_response hf cfg firstBare clientNonce))))"

record auth_env =
  ae_unicode :: unicode
  ae_sha1 :: hash_fn
  ae_sha256 :: hash_fn
  ae_random :: "bytes result"

definition tlsActive :: "bool conn_op" where
  "tlsActive s = (Inr (cn_tls s), s)"

definition run_mechanism :: "auth_env \<Rightarrow> config \<Rightarrow> string \<Rightarrow> unit conn_op" where
  "run_mechanism env cfg m =
     (if m = ''PLAIN'' then authPlain cfg
      else if m = ''EXTERNAL'' then authExternal cfg
      else if m = ''ANONYMOUS'' then simpleSASL ''ANONYMOUS'' None
      else if m = ''SCRAM-SHA-1'' then authSCRAM (ae_sha1 env) (ae_random env) cfg m
      else if m = ''SCRAM-SHA-256'' then authSCRAM (ae_sha256 env) (ae_random env) cfg m
      else failc (auth_error ''%w: unsupported mechanism %s'' [m]))"

definition authenticate :: "auth_env \<Rightarrow> config \<Rightarrow> node \<Rightarrow> unit conn_op" where
  "authenticate env cfg features =
     (let offered = offeredSASLMechanisms features in
      if offered = [] then failc (auth_error ''%w: server advertised no SASL mechanisms'' [])
      else
        bindc tlsActive (\<lambda>tls.
        bindc JIDc (\<lambda>j.
        bindc (liftc (selectSASLMechanism (ae_unicode env) (cfg_SASLMechanisms cfg) offered
                 (if cfg_InsecureAllowPlainAuth cfg \<and> \<not> tls then True else tls)
                 (tls_certificates (tlsConfig cfg j) > 0) (cfg_Password cfg)))
          (run_mechanism env cfg))))"

subsection \<open>Exclusive or\<close>

lemma xor_byte_bound: "x < 256 \<Longrightarrow> y < 256 \<Longrightarrow> (x XOR y :: nat) < 256"
proof -
  assume "x < 256" "y < 256"
  then have "take_bit 8 (x XOR y) = x XOR y"
    by (simp add: take_bit_xor take_bit_nat_eq_self)
  then show ?thesis using take_bit_nat_less_exp[of 8 "x XOR y"] by simp
qed

lemma of_char_xor: "(of_char (xor_char a b) :: nat) = of_char a XOR of_char b"
  by (simp add: xor_char_def xor_byte_bound)

lemma xor_char_cancel [simp]: "xor_char (xor_char a b) b = a"
proof -
  have "(of_char (xor_char (xor_char a b) b) :: nat) = of_char a"
    by (simp add: of_char_xor xor.assoc)
  then show ?thesis by (metis char_of_char)
qed

lemma xorBytes_map2: "length a \<le> length b \<Longrightarrow> xorBytes a b = Some (map2 xor_char a b)"
  by (induction a b rule: xorBytes.induct) auto

lemma xorBytes_cancel:
  assumes "length a = length b" "xorBytes a b = Some c"
  shows "xorBytes c b = Some a"
proof -
  have "map2 xor_char (map2 xor_char a b) b = a"
    using assms(1) by (induction a b rule: list_induct2) auto
  moreover have "c = map2 xor_char a b" using assms by (simp add: xorBytes_map2)
  ultimately show ?thesis using assms(1) by (simp add: xorBytes_map2)
qed

subsection \<open>Attributes\<close>

definition scram_part :: "string \<times> string \<Rightarrow> string" where
  "scram_part kv = fst kv @ ''='' @ snd kv"

definition attr_ok :: "string \<times> string \<Rightarrow> bool" where
  "attr_ok kv \<longleftrightarrow> length (fst kv) = 1 \<and> CHR '','' \<notin> set (fst kv) \<and> snd kv \<noteq> [] \<and> CHR '','' \<notin> set (snd kv)"

lemma scram_attrs_parts:
  "list_all attr_ok kvs \<Longrightarrow> distinct (map fst kvs) \<Longrightarrow> \<forall>k\<in>fst ` set kvs. attrs k = None \<Longrightarrow>
   scram_attrs attrs (map scram_part kvs) = Inr (attrs ++ map_of kvs)"
proof (induction kvs arbitrary: attrs)
  case (Cons kv kvs)
  obtain c v where kv: "kv = ([c], v)" "v \<noteq> []"
    using Cons.prems(1) by (cases kv) (auto simp: attr_ok_def length_Suc_conv)
  have "scram_attrs (attrs([c] \<mapsto> v)) (map scram_part kvs) = Inr (attrs([c] \<mapsto> v) ++ map_of kvs)"
    using Cons.prems by (intro Cons.IH) (auto simp: kv image_iff dest: bspec)
  moreover have "attrs([c] \<mapsto> v) ++ map_of kvs = attrs ++ map_of (kv # kvs)"
    using Cons.prems(2) by (subst map_add_upd_left) (auto simp: kv dom_map_of_conv_image_fst)
  moreover have "scram_part kv = c # CHR ''='' # v" by (simp add: kv scram_part_def)
  moreover have "attrs [c] = None" using Cons.prems(3) by (simp add: kv)
  ultimately show ?case
    using kv(2) by (cases v) (simp_all del: map_of.simps)
qed simp

lemma parseSCRAMAttributes_Join:
  assumes "kvs \<noteq> []" "list_all attr_ok kvs" "distinct (map fst kvs)"
  shows "parseSCRAMAttributes (Join '','' (map scram_part kvs)) = Inr (map_of kvs)"
proof -
  have "Split CHR '','' (Join '','' (map scram_part kvs)) = map scram_part kvs"
    using assms(1,2) by (intro Split_Join) (auto simp: list_all_iff attr_ok_def scram_part_def)
  then show ?thesis
    using scram_attrs_parts[OF assms(2,3), of Map.empty] by (simp add: parseSCRAMAttributes_def)
qed

subsection \<open>Lengths\<close>

lemma length_hmacDigest: "sized_hash hf \<Longrightarrow> length (hmacDigest hf k m) = hf_Size hf"
  by (simp add: sized_hash_def hmacDigest_def)

lemma length_pbkdf2_rounds:
  "sized_hash hf \<Longrightarrow> length t = hf_Size hf \<Longrightarrow> length (pbkdf2_rounds hf p n u t) = hf_Size hf"
  by (induction n arbitrary: u t) (simp_all add: Let_def length_hmacDigest)

lemma length_pbkdf2_block: "sized_hash hf \<Longrightarrow> length (pbkdf2_block hf p s i b) = hf_Size hf"
  by (simp add: pbkdf2_block_def Let_def length_pbkdf2_rounds length_hmacDigest)

lemma length_pbkdf2: "sized_hash hf \<Longrightarrow> length (pbkdf2 hf p s i n) = n"
proof -
  assume h: "sized_hash hf"
  let ?b = "(n + hf_Size hf - 1) div hf_Size hf"
  have "length (concat (map (pbkdf2_block hf p s i) [1..<?b + 1])) = ?b * hf_Size hf"
    by (simp add: length_concat comp_def length_pbkdf2_block[OF h] sum_list_triv)
  moreover have "n \<le> ?b * hf_Size hf"
    using h div_mult_mod_eq[of "n + hf_Size hf - 1" "hf_Size hf"]
      mod_less_divisor[of "hf_Size hf" "n + hf_Size hf - 1"]
    unfolding sized_hash_def by linarith
  ultimately show ?thesis by (simp add: pbkdf2_def Let_def)
qed

lemma derive_keys_proof:
  assumes "sized_hash hf" and k_def: "k = derive_keys hf pw salt i fb sf sn"
  shows "\<exists>proof. xorBytes (sk_clientKey k) (sk_clientSignature k) = Some proof
     \<and> length proof = hf_Size hf
     \<and> map_option (digest hf) (xorBytes proof (sk_clientSignature k)) = Some (sk_storedKey k)"
proof -
  have len: "length (sk_clientKey k) = hf_Size hf" "length (sk_clientSignature k) = hf_Size hf"
    using assms(1) by (simp_all add: k_def derive_keys_def Let_def length_hmacDigest)
  then have x: "xorBytes (sk_clientKey k) (sk_clientSignature k)
      = Some (map2 xor_char (sk_clientKey k) (sk_clientSignature k))" by (simp add: xorBytes_map2)
  have "sk_storedKey k = digest hf (sk_clientKey k)" by (simp add: k_def derive_keys_def Let_def)
  then show ?thesis using x xorBytes_cancel[OF _ x] len by simp
qed

subsection \<open>An honest server\<close>

text \<open>The messages RFC 5802 has the server send.\<close>

definition server_first :: "string \<Rightarrow> bytes \<Rightarrow> nat \<Rightarrow> string" where
  "server_first nonce salt iterations =
     Join '','' (map scram_part [(''r'', nonce), (''s'', EncodeToString salt), (''i'', Itoa (int iterations))])"

definition server_final :: "bytes \<Rightarrow> string" where
  "server_final signature = Join '','' (map scram_part [(''v'', EncodeToString signature)])"

lemma alphabet_no_comma: "CHR '','' \<notin> set std_alphabet"
  by (simp add: std_alphabet_def)

lemma b64_set: "set (b64_encode pad s) \<subseteq> set std_alphabet \<union> set pad"
  by (induction pad s rule: b64_encode.induct) (auto simp: Let_def sextet_in_alphabet)

lemma EncodeToString_no_comma: "CHR '','' \<notin> set (EncodeToString s)"
  using b64_set[of "''=''" s] alphabet_no_comma by (auto simp: EncodeToString_def)

lemma RawEncode_no_comma: "CHR '','' \<notin> set (RawEncodeToString s)"
  using b64_set[of "[]" s] alphabet_no_comma by (auto simp: RawEncodeToString_def)

lemma server_first_accepted:
  assumes "0 < length nonce'" "CHR '','' \<notin> set nonce'" "salt \<noteq> []" "1 \<le> i" "i \<le> 10000000"
  shows "scram_challenge (RawEncodeToString nb) (server_first (RawEncodeToString nb @ nonce') salt i)
       = Inr (RawEncodeToString nb @ nonce', salt, i)"
proof -
  let ?n = "RawEncodeToString nb @ nonce'"
  let ?kvs = "[(''r'', ?n), (''s'', EncodeToString salt), (''i'', Itoa (int i))]"
  have "digit_char d \<noteq> CHR '',''" if "d < 10" for d
  proof
    assume "digit_char d = CHR '',''"
    then have "(of_char (digit_char d) :: nat) = of_char (CHR '','')" by simp
    then show False using that by (simp add: digit_char_def)
  qed
  then have "CHR '','' \<notin> set (Itoa (int i))"
    using FormatNat_digits[of "CHR '',''" i] by (auto simp: Itoa_def) metis
  moreover have "Itoa (int i) \<noteq> []" by (simp add: Itoa_def)
  ultimately have "parseSCRAMAttributes (Join '','' (map scram_part ?kvs)) = Inr (map_of ?kvs)"
    using assms RawEncode_no_comma EncodeToString_no_comma
    by (intro parseSCRAMAttributes_Join) (auto simp: attr_ok_def)
  moreover have "Atoi (Itoa (int i)) = (int i, None)"
    using assms by (intro Atoi_Itoa) (simp add: int64_def)
  ultimately show ?thesis
    using assms
    by (auto simp: scram_challenge_def server_first_def HasPrefix_def DecodeString_EncodeToString)
qed

lemma server_final_accepted:
  assumes "named saslNS ''success'' final" "TrimSpace (Text final) = EncodeToString (server_final sig)" "sig \<noteq> []"
  shows "scram_final sig final = Inr ()"
proof -
  have p: "parseSCRAMAttributes (server_final sig) = Inr (map_of [(''v'', EncodeToString sig)])"
    unfolding server_final_def using assms(3) EncodeToString_no_comma
    by (intro parseSCRAMAttributes_Join) (auto simp: attr_ok_def)
  have "server_final sig \<noteq> []" by (simp add: server_final_def scram_part_def)
  then show ?thesis
    using assms p by (simp add: scram_final_def named_def DecodeString_EncodeToString)
qed

subsection \<open>Selection\<close>

lemma select_loop_find:
  "select_loop U available tls cert pw ps =
     map_option (\<lambda>p. ToUpper U (TrimSpace p))
       (find (\<lambda>p. ToUpper U (TrimSpace p) \<in> available \<and> mechanism_usable tls cert pw (ToUpper U (TrimSpace p))) ps)"
  by (induction ps) (auto simp: Let_def)

lemma selectSASLMechanism_iff:
  "selectSASLMechanism U preferred offered tls cert pw = Inr m \<longleftrightarrow>
     (\<exists>p. find (\<lambda>p. ToUpper U (TrimSpace p) \<in> (\<lambda>x. ToUpper U (TrimSpace x)) ` set offered
             \<and> mechanism_usable tls cert pw (ToUpper U (TrimSpace p))) preferred = Some p
        \<and> m = ToUpper U (TrimSpace p))"
  by (auto simp: selectSASLMechanism_def select_loop_find split: option.splits)

lemma select_usable:
  "selectSASLMechanism U preferred offered tls cert pw = Inr m \<Longrightarrow> mechanism_usable tls cert pw m"
  by (auto simp: selectSASLMechanism_iff find_Some_iff)

subsection \<open>The exchange step by step\<close>

lemma writeNode_ok:
  "normal n \<Longrightarrow> cn_open s \<Longrightarrow> cn_writes s = [] \<Longrightarrow>
   writeNode n s = (Inr (), s\<lparr>cn_out := cn_out s @ [(cn_tls s, OutNode n)]\<rparr>)"
  using marshal_normal[of n] by (auto simp: writeNode_def write_item_def)

lemma readTopLevelNode_ok:
  "cn_open s \<Longrightarrow> read_top (cn_fin s) (cn_in s) = (Inr n, rest) \<Longrightarrow>
   readTopLevelNode s = (Inr n, s\<lparr>cn_in := rest\<rparr>)"
  by (simp add: readTopLevelNode_def)

subsection \<open>Properties\<close>

text \<open>C8: the mechanism chosen is the first preferred one (ignoring case and surrounding space) that
  the server offers and that is usable, where \<^verbatim>\<open>PLAIN\<close> and \<^verbatim>\<open>EXTERNAL\<close> are usable only over
  TLS and the password mechanisms only with a password; selection fails exactly when there
  is none.\<close>

theorem selectSASLMechanism_first:
  "(selectSASLMechanism U preferred offered tls cert pw = Inr m \<longleftrightarrow>
     (\<exists>i<length preferred. m = ToUpper U (TrimSpace (preferred ! i))
        \<and> m \<in> (\<lambda>x. ToUpper U (TrimSpace x)) ` set offered \<and> mechanism_usable tls cert pw m
        \<and> (\<forall>j<i. \<not> (ToUpper U (TrimSpace (preferred ! j)) \<in> (\<lambda>x. ToUpper U (TrimSpace x)) ` set offered
             \<and> mechanism_usable tls cert pw (ToUpper U (TrimSpace (preferred ! j)))))))
   \<and> (mechanism_usable False cert pw m \<longrightarrow> m \<notin> {''PLAIN'', ''EXTERNAL''})
   \<and> (mechanism_usable tls cert [] m \<longrightarrow> m \<in> {''EXTERNAL'', ''ANONYMOUS''})"
proof (intro conjI)
  show "selectSASLMechanism U preferred offered tls cert pw = Inr m \<longleftrightarrow>
     (\<exists>i<length preferred. m = ToUpper U (TrimSpace (preferred ! i))
        \<and> m \<in> (\<lambda>x. ToUpper U (TrimSpace x)) ` set offered \<and> mechanism_usable tls cert pw m
        \<and> (\<forall>j<i. \<not> (ToUpper U (TrimSpace (preferred ! j)) \<in> (\<lambda>x. ToUpper U (TrimSpace x)) ` set offered
             \<and> mechanism_usable tls cert pw (ToUpper U (TrimSpace (preferred ! j))))))"
    unfolding selectSASLMechanism_iff find_Some_iff by blast
qed (auto simp: mechanism_usable_def split: if_splits)

theorem selectSASLMechanism_first_witness:
  "mechanism_usable False False ''pw'' ''SCRAM-SHA-1'' \<and> ''SCRAM-SHA-1'' \<notin> {''PLAIN'', ''EXTERNAL''}"
  using selectSASLMechanism_first[of example_unicode "[]" "[]" False False "''pw''" "''SCRAM-SHA-1''"]
  by (simp add: mechanism_usable_def)


definition toy_hash :: hash_fn where
  "toy_hash = \<lparr>hf_Sum = (\<lambda>m. [char_of (length m mod 256)]), hf_Size = 1, hf_BlockSize = 4\<rparr>"

definition text_tokens :: "string \<Rightarrow> string \<Rightarrow> xtoken list" where
  "text_tokens l v = [StartElement (XName saslNS l) [], CharData v, EndElement (XName saslNS l)]"

definition example_first :: string where
  "example_first = server_first (RawEncodeToString ''n'' @ ''x'') ''salt'' 1"

definition example_keys :: scram_keys where
  "example_keys = derive_keys toy_hash [] ''salt'' 1 (clientFirstBare ''juliet'' (RawEncodeToString ''n''))
     example_first (RawEncodeToString ''n'' @ ''x'')"

definition example_conn :: conn where
  "example_conn =
     \<lparr>cn_open = True, cn_tls = True,
      cn_in = text_tokens ''challenge'' (EncodeToString example_first)
        @ text_tokens ''success'' (EncodeToString (server_final (sk_serverSignature example_keys))),
      cn_fin = Sentinel ErrEOF, cn_later = [], cn_writes = [], cn_out = [],
      cn_jid = \<lparr>jid_Local = ''juliet'', jid_Domain = ''example.net'', jid_Resource = []\<rparr>,
      cn_nextID = 0, cn_features = NewNode [] [], cn_connected = False, cn_events = []\<rparr>"

lemma read_text_tokens:
  "v \<noteq> [] \<Longrightarrow> read_top fin (text_tokens l v @ rest) = (Inr (NewTextNode saslNS l v), rest)"
  by (simp add: text_tokens_def NewTextNode_def NewNode_def)





end
