(* ===== verification/Connect.thy ===== *)
theory Connect
  imports Sasl
begin

text \<open>
  Establishing a session: \<^verbatim>\<open>Connect\<close> and its steps in \<^verbatim>\<open>src/xmpp/client.go\<close>, and the XEP-0114
  component handshake of \<^verbatim>\<open>src/xmpp/component.go\<close>. The environment gives what the network
  does: the outcome of dialling and of TLS handshakes, when the context is done, the SASL
  parameters, and SHA-1 for components.
\<close>

record connect_env =
  ce_auth :: auth_env
  ce_lookup :: "string \<Rightarrow> string \<Rightarrow> (string \<times> nat) list result"
  ce_dial :: "string \<Rightarrow> go_error option"
  ce_handshake :: "tls_config \<Rightarrow> go_error option"
  ce_done :: "conn \<Rightarrow> go_error option"
  ce_hex :: "bytes \<Rightarrow> string"

definition failConnect :: "'a conn_op \<Rightarrow> 'a conn_op" where
  "failConnect m s = (case m s of (Inl e, s') \<Rightarrow> (Inl e, clearConn s') | (Inr x, s') \<Rightarrow> (Inr x, s'))"

definition handshake :: "connect_env \<Rightarrow> config \<Rightarrow> string \<Rightarrow> unit conn_op" where
  "handshake env cfg msg s =
     (case ce_handshake env (tlsConfig cfg (cn_jid s)) of
        Some e \<Rightarrow> (Inl (Errorf msg [] (Some e)), s)
      | None \<Rightarrow> (Inr (), s))"

definition startTLS :: "connect_env \<Rightarrow> config \<Rightarrow> unit conn_op" where
  "startTLS env cfg =
     bindc (writeNode (NewNode startTLSNS ''starttls'')) (\<lambda>_.
     bindc readTopLevelNode (\<lambda>response.
       if Space (Name response) \<noteq> startTLSNS \<or> Local (Name response) \<noteq> ''proceed''
       then failc (Errorf ''xmpp: STARTTLS rejected with <%s>'' [Local (Name response)] None)
       else bindc (handshake env cfg ''xmpp: STARTTLS handshake: %w'') (\<lambda>_. setConn True)))"

text \<open>
  The loop of \<^verbatim>\<open>syncIQ\<close>: elements other than the awaited answer are skipped. It ends because
  every successful read takes at least one token off the stream.
\<close>

definition sync_response :: "string \<Rightarrow> node \<Rightarrow> iq result option" where
  "sync_response request_id n =
     (if Local (Name n) \<noteq> ''iq'' then None
      else case stanzaFromNode n of
        Inl e \<Rightarrow> Some (Inl e)
      | Inr (SIQ response) \<Rightarrow>
          if iq_ID response \<noteq> request_id then None
          else if iq_Type response = IQError then Some (Inl (IQResponseErr response))
          else if iq_Type response \<noteq> IQResult
            then Some (Inl (Errorf ''xmpp: unexpected IQ response type %q'' [iq_Type response] None))
          else Some (Inr response)
      | Inr _ \<Rightarrow> None)"

function sync_loop :: "connect_env \<Rightarrow> string \<Rightarrow> iq conn_op" where
  "sync_loop env request_id s =
     (case ce_done env s of
        Some e \<Rightarrow> (Inl e, s)
      | None \<Rightarrow>
          (case readTopLevelNode s of
             (Inl e, s') \<Rightarrow> (Inl e, s')
           | (Inr n, s') \<Rightarrow>
               (case sync_response request_id n of
                  Some r \<Rightarrow> (r, s')
                | None \<Rightarrow> sync_loop env request_id s')))"
  by pat_completeness auto

termination
proof (relation "measure (\<lambda>(env, i, s). length (cn_in s))")
  fix env :: connect_env and request_id s r s' n
  assume "(r, s') = readTopLevelNode s" "r = Inr n"
  then show "((env, request_id, s'), (env, request_id, s)) \<in> measure (\<lambda>(env, i, s). length (cn_in s))"
    by (auto simp: readTopLevelNode_def dest: read_top_consumes split: if_splits prod.splits)
qed simp

declare sync_loop.simps [simp del]

definition syncIQ :: "connect_env \<Rightarrow> iq \<Rightarrow> iq conn_op" where
  "syncIQ env request = bindc (writeStanza (SIQ request)) (\<lambda>_. sync_loop env (iq_ID request))"

definition bound_jid :: "unicode \<Rightarrow> iq \<Rightarrow> jid result" where
  "bound_jid U response =
     (case IQ_Payload response of
        None \<Rightarrow> Inl (Errf ''xmpp: invalid bind response'')
      | Some payload \<Rightarrow>
          if \<not> named bindNS ''bind'' payload then Inl (Errf ''xmpp: invalid bind response'')
          else
            let v0 = ChildText bindNS ''jid'' payload;
                v = (if v0 = [] then ChildText [] ''jid'' payload else v0)
            in case ParseJID U v of
                 Inl e \<Rightarrow> Inl (Errorf ''xmpp: invalid bound JID %q: %w'' [v] (Some e))
               | Inr j \<Rightarrow> Inr j)"

definition setJID :: "jid \<Rightarrow> unit conn_op" where
  "setJID j s = (Inr (), s\<lparr>cn_jid := j\<rparr>)"

definition bind_request :: "jid \<Rightarrow> string \<Rightarrow> iq" where
  "bind_request j id' =
     (let resource = (if jid_Resource j = [] then ''slixmpp-go'' else jid_Resource j)
      in iq0\<lparr>iq_ID := id', iq_Type := IQSet,
             iq_Payloads := [AddChild (NewTextNode bindNS ''resource'' resource) (NewNode bindNS ''bind'')]\<rparr>)"

definition bindResource :: "connect_env \<Rightarrow> unit conn_op" where
  "bindResource env =
     bindc JIDc (\<lambda>j.
     bindc NextID (\<lambda>id'.
     bindc (wrapc (\<lambda>e. Errorf ''xmpp: bind resource: %w'' [] (Some e)) (syncIQ env (bind_request j id'))) (\<lambda>response.
     bindc (liftc (bound_jid (ae_unicode (ce_auth env)) response)) setJID)))"

definition startLegacySession :: "connect_env \<Rightarrow> unit conn_op" where
  "startLegacySession env =
     bindc NextID (\<lambda>id'.
     bindc (wrapc (\<lambda>e. Errorf ''xmpp: establish legacy session: %w'' [] (Some e))
              (syncIQ env (iq0\<lparr>iq_ID := id', iq_Type := IQSet,
                 iq_Payloads := [NewNode legacySessionNS ''session'']\<rparr>))) (\<lambda>_. returnc ()))"

definition emit :: "string \<Rightarrow> unit conn_op" where
  "emit name s = (Inr (), s\<lparr>cn_events := cn_events s @ [name]\<rparr>)"

text \<open>\<^verbatim>\<open>Send\<close> and \<^verbatim>\<open>SendPresence\<close> on an established connection.\<close>

definition Send :: "stanza \<Rightarrow> unit conn_op" where
  "Send st s =
     (if \<not> cn_open s then (Inl (Sentinel ErrNotConnected), s)
      else bindc (writeStanza st) (\<lambda>_. emit ''sent_stanza'') s)"

definition SendPresence :: "presence \<Rightarrow> unit conn_op" where
  "SendPresence p =
     (if prs_ID p = [] then bindc NextID (\<lambda>id'. Send (SPresence (p\<lparr>prs_ID := id'\<rparr>)))
      else Send (SPresence p))"

text \<open>
  The transport part of \<^verbatim>\<open>Close\<close> and \<^verbatim>\<open>finish\<close>: the closing tag is attempted, the connection is
  dropped and the end of the session is announced.
\<close>

definition close_transport :: "conn \<Rightarrow> conn" where
  "close_transport s = snd (bindc (emit ''session_end'') (\<lambda>_. emit ''disconnected'')
     (clearConn (snd (write_item OutClose s))))"

definition finishConnect :: "config \<Rightarrow> unit conn_op" where
  "finishConnect cfg s =
     (if \<not> cn_open s then (Inl (Sentinel ErrNotConnected), s)
      else
        bindc (emit ''connected'') (\<lambda>_. bindc (emit ''session_start'') (\<lambda>_.
          if cfg_AutoPresence cfg then
            (\<lambda>s. case SendPresence (cfg_InitialPresence cfg) s of
                   (Inl e, s') \<Rightarrow> (Inl (Errorf ''xmpp: send initial presence: %w'' [] (Some e)), close_transport s')
                 | (Inr _, s') \<Rightarrow> (Inr (), s'))
          else returnc ())) (s\<lparr>cn_connected := True\<rparr>))"

definition negotiate_tls :: "connect_env \<Rightarrow> config \<Rightarrow> node conn_op" where
  "negotiate_tls env cfg =
     bindc (wrapc (\<lambda>e. Errorf ''xmpp: open stream: %w'' [] (Some e)) (openAndReadFeatures cfg)) (\<lambda>features.
       if cfg_DirectTLS cfg then returnc features
       else if Child startTLSNS ''starttls'' features \<noteq> None then
         bindc (startTLS env cfg) (\<lambda>_.
           wrapc (\<lambda>e. Errorf ''xmpp: reopen stream after TLS: %w'' [] (Some e)) (openAndReadFeatures cfg))
       else if cfg_RequireTLS cfg then failc (Sentinel ErrTLSRequired)
       else returnc features)"

definition negotiate_session :: "connect_env \<Rightarrow> config \<Rightarrow> node \<Rightarrow> unit conn_op" where
  "negotiate_session env cfg features =
     bindc (authenticate (ce_auth env) cfg features) (\<lambda>_.
     bindc (wrapc (\<lambda>e. Errorf ''xmpp: reopen stream after authentication: %w'' [] (Some e))
              (openAndReadFeatures cfg)) (\<lambda>features'.
       if Child bindNS ''bind'' features' = None
       then failc (Errf ''xmpp: server did not advertise resource binding'')
       else bindc (bindResource env) (\<lambda>_.
         if Child legacySessionNS ''session'' features' \<noteq> None then startLegacySession env
         else returnc ())))"

definition dial :: "connect_env \<Rightarrow> config \<Rightarrow> string \<Rightarrow> string \<Rightarrow> string \<Rightarrow> unit conn_op" where
  "dial env cfg address msg tlsmsg s =
     (case ce_dial env address of
        Some e \<Rightarrow> (Inl (Errorf msg [address] (Some e)), s)
      | None \<Rightarrow>
          if cfg_DirectTLS cfg then bindc (handshake env cfg tlsmsg) (\<lambda>_. setConn True) s
          else setConn False s)"

subsection \<open>Components\<close>

definition stream_id :: "attr list \<Rightarrow> string" where
  "stream_id as = foldl (\<lambda>v a. if Local (AName a) = ''id'' then AValue a else v) [] as"

definition component_handshake :: "connect_env \<Rightarrow> config \<Rightarrow> unit conn_op" where
  "component_handshake env cfg =
     bindc JIDc (\<lambda>j.
     bindc (write_item (OutOpen componentNS (jid_Domain j) [])) (\<lambda>_.
     bindc (wrapc (\<lambda>e. Errorf ''xmpp: read component stream opening: %w'' [] (Some e)) read_start) (\<lambda>start.
       if Local (fst start) \<noteq> ''stream'' \<or> Space (fst start) \<noteq> streamNS
       then failc (Errorf ''xmpp: expected component stream opening, received <%s>'' [Local (fst start)] None)
       else if stream_id (snd start) = [] then failc (Errf ''xmpp: component stream did not include an id'')
       else
         bindc (writeNode (NewTextNode componentNS ''handshake''
                  (ce_hex env (hf_Sum (ae_sha1 (ce_auth env)) (stream_id (snd start) @ cfg_ComponentSecret cfg))))) (\<lambda>_.
         bindc readTopLevelNode (\<lambda>response.
           if Local (Name response) \<noteq> ''handshake'' \<or> Space (Name response) \<noteq> componentNS
           then failc (Errorf ''xmpp: component authentication rejected with <%s>'' [Local (Name response)] None)
           else returnc ())))))"

definition connectComponent :: "connect_env \<Rightarrow> config \<Rightarrow> unit conn_op" where
  "connectComponent env cfg s =
     (if cn_connected s \<or> cn_open s then (Inl (Errf ''xmpp: client is already connected''), s)
      else
        bindc (dial env cfg (cfg_Address cfg) ''xmpp: connect component to %s: %w''
                 ''xmpp: component TLS handshake: %w'') (\<lambda>_.
        bindc (failConnect (component_handshake env cfg)) (\<lambda>_. finishConnect cfg)) s)"

definition Connect :: "connect_env \<Rightarrow> config \<Rightarrow> unit conn_op" where
  "Connect env cfg s =
     (if cfg_ComponentSecret cfg \<noteq> [] then connectComponent env cfg s
      else if cn_connected s \<or> cn_open s then (Inl (Errf ''xmpp: client is already connected''), s)
      else
        bindc (dial env cfg (resolveAddress (ce_lookup env) cfg (cn_jid s)) ''xmpp: connect to %s: %w''
                 ''xmpp: direct TLS handshake: %w'') (\<lambda>_.
        bindc (failConnect (bindc (negotiate_tls env cfg) (negotiate_session env cfg))) (\<lambda>_.
        finishConnect cfg)) s)"

subsection \<open>What may go out in the clear\<close>

definition harmless :: "out_item \<Rightarrow> bool" where
  "harmless it \<longleftrightarrow> (case it of OutOpen ns to' lang \<Rightarrow> True | OutClose \<Rightarrow> True
     | OutNode n \<Rightarrow> n = NewNode startTLSNS ''starttls'' | OutStanza st \<Rightarrow> False | OutRaw t \<Rightarrow> False)"

definition clear_safe :: "conn \<Rightarrow> bool" where
  "clear_safe s \<longleftrightarrow> (\<forall>(tls, it)\<in>set (cn_out s). tls \<or> harmless it)"

definition secured :: "conn \<Rightarrow> bool" where
  "secured s \<longleftrightarrow> clear_safe s \<and> cn_tls s"

abbreviation keeps_secured :: "'a conn_op \<Rightarrow> bool" where
  "keeps_secured m \<equiv> triple secured m (keeping secured (\<lambda>_ _. True))"

abbreviation keeps_clear :: "'a conn_op \<Rightarrow> bool" where
  "keeps_clear m \<equiv> triple clear_safe m (keeping clear_safe (\<lambda>_ _. True))"

text \<open>Steps that do not write leave both properties alone.\<close>

definition silent :: "'a conn_op \<Rightarrow> bool" where
  "silent m \<longleftrightarrow> (\<forall>s. cn_out (snd (m s)) = cn_out s \<and> cn_tls (snd (m s)) = cn_tls s)"

lemma silent_keeps: "silent m \<Longrightarrow> keeps_secured m" "silent m \<Longrightarrow> keeps_clear m"
  unfolding silent_def triple_def keeping_def secured_def clear_safe_def by (metis snd_conv)+

lemma silent_steps:
  "silent readTopLevelNode" "silent read_start" "silent resetDecoder" "silent NextID" "silent (emit n)"
  "silent (returnc x)" "silent (failc e)" "silent (liftc r)" "silent (handshake env cfg msg)"
  "silent JIDc" "silent (setFeatures f)" "silent tlsActive" "silent (setJID j)"
  by (auto simp: silent_def readTopLevelNode_def read_start_def resetDecoder_def NextID_def emit_def
      returnc_def failc_def liftc_def handshake_def JIDc_def setFeatures_def tlsActive_def setJID_def
      Let_def split: prod.splits option.splits list.splits)

lemma write_secured: "keeps_secured (write_item it)"
  by (rule tripleI) (auto simp: write_item_def keeping_def secured_def clear_safe_def
      split: if_splits list.splits option.splits)

lemma write_clear: "harmless it \<Longrightarrow> keeps_clear (write_item it)"
  by (rule tripleI) (auto simp: write_item_def keeping_def clear_safe_def
      split: if_splits list.splits option.splits)

lemma writeNode_secured: "keeps_secured (writeNode n)"
  using write_secured[of "OutNode n"]
  by (auto simp: triple_def writeNode_def keeping_def split: sum.splits)

lemma writeStanza_secured: "keeps_secured (writeStanza st)"
  using write_secured[of "OutStanza st"]
  by (auto simp: triple_def writeStanza_def keeping_def split: sum.splits)

lemma bind_secured: "keeps_secured m \<Longrightarrow> (\<And>x. keeps_secured (f x)) \<Longrightarrow> keeps_secured (bindc m f)"
  by (rule triple_bind) auto

lemma bind_clear: "keeps_clear m \<Longrightarrow> (\<And>x. keeps_clear (f x)) \<Longrightarrow> keeps_clear (bindc m f)"
  by (rule triple_bind) auto

lemma if_triple: "(b \<Longrightarrow> triple P m Q) \<Longrightarrow> (\<not> b \<Longrightarrow> triple P n Q) \<Longrightarrow> triple P (if b then m else n) Q"
  by simp

lemma option_triple:
  "(\<And>x. v = Some x \<Longrightarrow> triple P (f x) Q) \<Longrightarrow> (v = None \<Longrightarrow> triple P m Q) \<Longrightarrow>
   triple P (case v of None \<Rightarrow> m | Some x \<Rightarrow> f x) Q"
  by (cases v) simp_all

lemma sum_triple:
  "(\<And>e. v = Inl e \<Longrightarrow> triple P (g e) Q) \<Longrightarrow> (\<And>x. v = Inr x \<Longrightarrow> triple P (f x) Q) \<Longrightarrow>
   triple P (case v of Inl e \<Rightarrow> g e | Inr x \<Rightarrow> f x) Q"
  by (cases v) simp_all

lemma prod_triple: "(\<And>a b. triple P (f a b) Q) \<Longrightarrow> triple P (case v of (a, b) \<Rightarrow> f a b) Q"
  by (cases v) simp

lemmas control_triples = if_triple option_triple sum_triple prod_triple triple_wrap

lemmas secured_intros = bind_secured writeNode_secured writeStanza_secured write_secured control_triples
  silent_steps[THEN silent_keeps(1)]

lemmas clear_intros = bind_clear write_clear control_triples silent_steps[THEN silent_keeps(2)]

lemma open_secured: "keeps_secured (openAndReadFeatures cfg)"
  unfolding openAndReadFeatures_def by (intro secured_intros)

lemma open_clear: "keeps_clear (openAndReadFeatures cfg)"
  unfolding openAndReadFeatures_def by (intro clear_intros) (simp add: harmless_def)

lemma simpleSASL_secured: "keeps_secured (simpleSASL mechanism initial)"
  unfolding simpleSASL_def by (intro secured_intros)

lemma authSCRAM_secured: "keeps_secured (authSCRAM hf rnd cfg mechanism)"
  unfolding authSCRAM_def scram_response_def Let_def by (intro secured_intros)

lemma authenticate_secured: "keeps_secured (authenticate env cfg features)"
  unfolding authenticate_def run_mechanism_def authPlain_def authExternal_def Let_def
  by (intro secured_intros simpleSASL_secured authSCRAM_secured)

lemma sync_loop_silent: "silent (sync_loop env i)"
proof -
  have "cn_out (snd (sync_loop env i s)) = cn_out s \<and> cn_tls (snd (sync_loop env i s)) = cn_tls s" for s
  proof (induction env i s rule: sync_loop.induct)
    case (1 env i s)
    obtain r s' where rd: "readTopLevelNode s = (r, s')" by (cases "readTopLevelNode s")
    have sil: "cn_out s' = cn_out s" "cn_tls s' = cn_tls s"
      using silent_steps(1) rd unfolding silent_def by (metis snd_conv)+
    show ?case
      using 1 rd sil by (subst (1 2) sync_loop.simps) (auto split: option.splits sum.splits)
  qed
  then show ?thesis by (simp add: silent_def)
qed

lemma syncIQ_secured: "keeps_secured (syncIQ env q)"
  unfolding syncIQ_def by (intro secured_intros silent_keeps(1)[OF sync_loop_silent])

lemma negotiate_session_secured: "keeps_secured (negotiate_session env cfg features)"
  unfolding negotiate_session_def bindResource_def startLegacySession_def
  by (intro secured_intros authenticate_secured open_secured syncIQ_secured)

lemma secured_iff: "secured s \<longleftrightarrow> clear_safe s \<and> cn_tls s"
  by (simp add: secured_def)

lemma triple_seq:
  "triple I m (keeping I (\<lambda>_ _. True)) \<Longrightarrow> (\<And>x. triple I (f x) (keeping I Q)) \<Longrightarrow> triple I (bindc m f) (keeping I Q)"
  by (rule triple_bind[where R="\<lambda>_ _. True"]) simp_all

lemma secured_tls: "keeps_secured m \<Longrightarrow> triple (\<lambda>s. clear_safe s \<and> cn_tls s) m (keeping clear_safe (\<lambda>_. cn_tls))"
  unfolding triple_def keeping_def secured_iff by blast

lemma startTLS_clear: "triple clear_safe (startTLS env cfg) (keeping clear_safe (\<lambda>_. cn_tls))"
proof -
  have "keeps_clear (writeNode (NewNode startTLSNS ''starttls''))"
    using write_clear[of "OutNode (NewNode startTLSNS ''starttls'')"]
    by (auto simp: harmless_def writeNode_def triple_def keeping_def split: sum.splits)
  moreover have "triple clear_safe (setConn True) (keeping clear_safe (\<lambda>_. cn_tls))"
    by (simp add: triple_def setConn_def keeping_def clear_safe_def)
  ultimately show ?thesis
    unfolding startTLS_def
    by (intro triple_seq control_triples triple_fail silent_steps[THEN silent_keeps(2)])
qed

lemma negotiate_tls_clear:
  assumes "cfg_RequireTLS cfg \<or> cfg_DirectTLS cfg"
  shows "triple (\<lambda>s. clear_safe s \<and> (cfg_DirectTLS cfg \<longrightarrow> cn_tls s)) (negotiate_tls env cfg)
           (keeping clear_safe (\<lambda>_. cn_tls))"
proof -
  note opened = secured_tls[OF open_secured[of cfg]]
  let ?Q = "keeping clear_safe (\<lambda>_. cn_tls) :: node result \<Rightarrow> conn \<Rightarrow> bool"
  have tls: "triple clear_safe (bindc (startTLS env cfg) (\<lambda>_. wrapc g (openAndReadFeatures cfg))) ?Q" for g
    by (rule triple_bind[OF startTLS_clear triple_wrap]) (rule opened)
  show ?thesis
  proof (cases "cfg_DirectTLS cfg")
    case True
    have "triple (\<lambda>s. clear_safe s \<and> cn_tls s) (bindc (wrapc g (openAndReadFeatures cfg)) returnc) ?Q" for g
      by (rule triple_bind[OF triple_wrap[OF opened] triple_return])
    then show ?thesis using True by (simp add: negotiate_tls_def)
  next
    case False
    have "triple clear_safe (negotiate_tls env cfg) ?Q"
      unfolding negotiate_tls_def using False assms
      by (intro triple_seq control_triples triple_fail tls open_clear) simp_all
    then show ?thesis using False by simp
  qed
qed

lemma finishConnect_secured: "triple secured (finishConnect cfg) (keeping clear_safe (\<lambda>_ _. True))"
proof -
  have send: "keeps_secured (Send st)" for st
  proof -
    have "keeps_secured (bindc (writeStanza st) (\<lambda>_. emit ''sent_stanza''))" by (intro secured_intros)
    then show ?thesis unfolding Send_def triple_def keeping_def by auto
  qed
  have pres: "keeps_secured (SendPresence p)" for p
    unfolding SendPresence_def by (intro secured_intros send)
  have close: "clear_safe (close_transport s)" if "clear_safe s" for s
    using tripleD[OF write_clear that, of OutClose] that
    by (auto simp: close_transport_def clearConn_def emit_def bindc_def clear_safe_def keeping_def harmless_def
        write_item_def split: if_splits list.splits option.splits)
  have upd: "secured (s\<lparr>cn_connected := b, cn_events := ev\<rparr>) = secured s" for s b ev
    by (simp add: secured_def clear_safe_def)
  show ?thesis
  proof (rule tripleI)
    fix s r s'
    assume s: "secured s" and f: "finishConnect cfg s = (r, s')"
    let ?s = "s\<lparr>cn_connected := True, cn_events := cn_events s @ [''connected'', ''session_start'']\<rparr>"
    obtain r1 s1 where p: "SendPresence (cfg_InitialPresence cfg) ?s = (r1, s1)"
      by (cases "SendPresence (cfg_InitialPresence cfg) ?s")
    have "secured s1" using tripleD[OF pres _ p] s by (simp add: upd keeping_def)
    then have "clear_safe s1" "clear_safe (close_transport s1)" using close by (simp_all add: secured_def)
    moreover have "clear_safe s" "clear_safe ?s" using s by (auto simp: secured_def clear_safe_def)
    ultimately show "keeping clear_safe (\<lambda>_ _. True) r s'"
      using f p
      by (auto simp: finishConnect_def keeping_def bindc_def emit_def returnc_def
          split: if_splits sum.splits prod.splits)
  qed
qed

lemma failConnect_triple:
  assumes "triple P m (keeping I Q)" "\<And>s. I s \<Longrightarrow> I (clearConn s)"
  shows "triple P (failConnect m) (keeping I Q)"
proof (rule tripleI)
  fix s r s'
  assume P: "P s" and f: "failConnect m s = (r, s')"
  obtain r1 s1 where m: "m s = (r1, s1)" by (cases "m s")
  show "keeping I Q r s'"
    using tripleD[OF assms(1) P m] f m assms(2)
    by (cases r1) (auto simp: failConnect_def keeping_def)
qed

lemma Connect_clear_safe:
  assumes "cfg_ComponentSecret cfg = []" "cfg_RequireTLS cfg \<or> cfg_DirectTLS cfg"
  shows "triple clear_safe (Connect env cfg) (keeping clear_safe (\<lambda>_ _. True))"
proof (rule tripleI)
  fix s r s'
  assume s: "clear_safe s" and c: "Connect env cfg s = (r, s')"
  show "keeping clear_safe (\<lambda>_ _. True) r s'"
  proof (cases "cn_connected s \<or> cn_open s")
    case True
    then show ?thesis using c s assms(1) by (auto simp: Connect_def keeping_def)
  next
    case False
    let ?neg = "bindc (negotiate_tls env cfg) (negotiate_session env cfg)"
    let ?dial = "dial env cfg (resolveAddress (ce_lookup env) cfg (cn_jid s)) ''xmpp: connect to %s: %w''
        ''xmpp: direct TLS handshake: %w''"
    have d: "triple clear_safe ?dial (keeping clear_safe (\<lambda>_ s. cfg_DirectTLS cfg \<longrightarrow> cn_tls s))"
      by (auto simp: triple_def keeping_def dial_def handshake_def bindc_def setConn_def clear_safe_def
          split: option.splits if_splits)
    have n: "triple (\<lambda>s. clear_safe s \<and> (cfg_DirectTLS cfg \<longrightarrow> cn_tls s)) ?neg (keeping clear_safe (\<lambda>_. cn_tls))"
      using negotiate_session_secured
      by (intro triple_bind[OF negotiate_tls_clear[OF assms(2)]] secured_tls)
    have f: "triple (\<lambda>s. clear_safe s \<and> (cfg_DirectTLS cfg \<longrightarrow> cn_tls s)) (failConnect ?neg) (keeping clear_safe (\<lambda>_. cn_tls))"
      by (rule failConnect_triple[OF n]) (simp add: clearConn_def clear_safe_def)
    have e: "triple (\<lambda>s. clear_safe s \<and> cn_tls s) (finishConnect cfg) (keeping clear_safe (\<lambda>_ _. True))"
      using finishConnect_secured by (simp add: triple_def secured_iff)
    have "triple clear_safe (bindc ?dial (\<lambda>_. bindc (failConnect ?neg) (\<lambda>_. finishConnect cfg)))
        (keeping clear_safe (\<lambda>_ _. True))"
      by (intro triple_bind[OF d] triple_bind[OF f] e)
    from tripleD[OF this s] show ?thesis using c False assms(1) by (simp add: Connect_def)
  qed
qed

subsection \<open>What a finished negotiation guarantees\<close>

text \<open>Most steps leave the connection, its security and the identity alone.\<close>

definition core :: "conn \<Rightarrow> bool \<times> bool \<times> jid \<times> bool" where
  "core s = (cn_open s, cn_tls s, cn_jid s, cn_connected s)"

definition core_kept :: "'a conn_op \<Rightarrow> bool" where
  "core_kept m \<longleftrightarrow> (\<forall>s. core (snd (m s)) = core s)"

lemma core_kept_steps:
  "core_kept readTopLevelNode" "core_kept read_start" "core_kept resetDecoder" "core_kept NextID"
  "core_kept (emit n)" "core_kept (returnc x)" "core_kept (failc e)" "core_kept (liftc r)"
  "core_kept (handshake env cfg msg)" "core_kept JIDc" "core_kept (setFeatures f)" "core_kept tlsActive"
  "core_kept (write_item it)"
  by (auto simp: core_kept_def core_def readTopLevelNode_def read_start_def resetDecoder_def NextID_def emit_def
      returnc_def failc_def liftc_def handshake_def JIDc_def setFeatures_def tlsActive_def write_item_def
      Let_def split: prod.splits option.splits list.splits)

lemma core_kept_writes: "core_kept (writeNode n)" "core_kept (writeStanza st)"
  using core_kept_steps(13) unfolding core_kept_def writeNode_def writeStanza_def by (auto split: sum.splits)

lemma core_kept_bind: "core_kept m \<Longrightarrow> (\<And>x. core_kept (f x)) \<Longrightarrow> core_kept (bindc m f)"
  unfolding core_kept_def bindc_def by (auto split: prod.splits sum.splits) (metis snd_conv)+

lemma core_kept_control:
  "(b \<Longrightarrow> core_kept m) \<Longrightarrow> (\<not> b \<Longrightarrow> core_kept n) \<Longrightarrow> core_kept (if b then m else n)"
  "(\<And>x. v = Some x \<Longrightarrow> core_kept (f x)) \<Longrightarrow> (v = None \<Longrightarrow> core_kept m) \<Longrightarrow>
     core_kept (case v of None \<Rightarrow> m | Some x \<Rightarrow> f x)"
  "(\<And>e. w = Inl e \<Longrightarrow> core_kept (g e)) \<Longrightarrow> (\<And>x. w = Inr x \<Longrightarrow> core_kept (h x)) \<Longrightarrow>
     core_kept (case w of Inl e \<Rightarrow> g e | Inr x \<Rightarrow> h x)"
  "(\<And>a b. core_kept (k a b)) \<Longrightarrow> core_kept (case p of (a, b) \<Rightarrow> k a b)"
  "core_kept m \<Longrightarrow> core_kept (wrapc q m)"
proof -
  show "core_kept m \<Longrightarrow> core_kept (wrapc q m)"
    unfolding core_kept_def wrapc_def by (auto split: prod.splits sum.splits) (metis snd_conv)+
qed (auto split: option.splits sum.splits prod.splits)

lemmas core_intros = core_kept_steps core_kept_writes core_kept_bind core_kept_control

lemma core_kept_open: "core_kept (openAndReadFeatures cfg)"
  unfolding openAndReadFeatures_def by (intro core_intros)

lemma core_kept_authenticate: "core_kept (authenticate env cfg features)"
  unfolding authenticate_def run_mechanism_def authPlain_def authExternal_def simpleSASL_def authSCRAM_def
    scram_response_def Let_def
  by (intro core_intros)

lemma core_kept_syncIQ: "core_kept (syncIQ env q)"
proof -
  have "core (snd (sync_loop env i s)) = core s" for i s
  proof (induction env i s rule: sync_loop.induct)
    case (1 env i s)
    obtain r s' where rd: "readTopLevelNode s = (r, s')" by (cases "readTopLevelNode s")
    have "core s' = core s" using core_kept_steps(1) rd unfolding core_kept_def by (metis snd_conv)
    then show ?case
      using 1 rd by (subst sync_loop.simps) (auto split: option.splits sum.splits)
  qed
  then have "core_kept (sync_loop env i)" for i by (simp add: core_kept_def)
  then show ?thesis unfolding syncIQ_def by (intro core_intros)
qed

definition negotiated :: "conn \<Rightarrow> bool" where
  "negotiated s \<longleftrightarrow> cn_open s \<and> wf_jid (cn_jid s)"

lemma core_kept_triple:
  "core_kept m \<Longrightarrow> triple negotiated m (keeping negotiated (\<lambda>_ _. True))"
  "core_kept m \<Longrightarrow> triple cn_open m (keeping cn_open (\<lambda>_ _. True))"
  unfolding core_kept_def core_def triple_def keeping_def negotiated_def by (metis prod.inject snd_conv)+

lemma bound_jid_wf:
  assumes "bound_jid U q = Inr j"
  shows "wf_jid j"
proof -
  obtain p where p: "IQ_Payload q = Some p" "named bindNS ''bind'' p"
    using assms by (cases "IQ_Payload q") (auto simp: bound_jid_def split: if_splits)
  let ?v = "if ChildText bindNS ''jid'' p = [] then ChildText [] ''jid'' p else ChildText bindNS ''jid'' p"
  have "ParseJID U ?v = Inr j"
    using assms p unfolding bound_jid_def Let_def by (cases "ParseJID U ?v") simp_all
  then show ?thesis by (rule ParseJID_wf_lemma)
qed

lemma bindResource_negotiated: "triple cn_open (bindResource env) (keeping cn_open (\<lambda>_. negotiated))"
proof -
  have fin: "triple cn_open (bindc (liftc (bound_jid U q)) setJID) (keeping cn_open (\<lambda>_. negotiated))" for U q
    by (cases "bound_jid U q")
       (auto simp: triple_def keeping_def bindc_def liftc_def setJID_def negotiated_def dest: bound_jid_wf)
  have sync: "core_kept (wrapc g (syncIQ env q))" for g q
    by (rule core_kept_control(5)) (rule core_kept_syncIQ)
  show ?thesis
    unfolding bindResource_def
    by (rule triple_seq[OF core_kept_triple(2)[OF core_kept_steps(10)]],
        rule triple_seq[OF core_kept_triple(2)[OF core_kept_steps(4)]],
        rule triple_seq[OF core_kept_triple(2)[OF sync]], rule fin)
qed

lemma negotiate_session_negotiated:
  "triple cn_open (negotiate_session env cfg features) (keeping cn_open (\<lambda>_. negotiated))"
proof -
  have legacy: "core_kept (startLegacySession env)"
    unfolding startLegacySession_def by (intro core_intros core_kept_syncIQ)
  have kept: "triple (\<lambda>s. cn_open s \<and> negotiated s) m (keeping cn_open (\<lambda>_. negotiated))" if "core_kept m" for m
  proof (rule triple_weaken[OF core_kept_triple(1)[OF that]])
    show "cn_open s \<and> negotiated s \<Longrightarrow> negotiated s" for s by simp
    show "keeping negotiated (\<lambda>_ _. True) r s \<Longrightarrow> keeping cn_open (\<lambda>_. negotiated) r s" for r s
      by (simp add: keeping_def negotiated_def)
  qed
  have after: "triple (\<lambda>s. cn_open s \<and> negotiated s)
      (if Child legacySessionNS ''session'' f \<noteq> None then startLegacySession env else returnc ())
      (keeping cn_open (\<lambda>_. negotiated))" for f
    by (intro if_triple kept legacy core_kept_steps)
  have open': "core_kept (wrapc g (openAndReadFeatures cfg))" for g
    by (rule core_kept_control(5)) (rule core_kept_open)
  show ?thesis
    unfolding negotiate_session_def
    by (rule triple_seq[OF core_kept_triple(2)[OF core_kept_authenticate]],
        rule triple_seq[OF core_kept_triple(2)[OF open']], rule if_triple, rule triple_fail,
        rule triple_bind[OF bindResource_negotiated], rule after)
qed

lemma negotiate_tls_open: "triple cn_open (negotiate_tls env cfg) (keeping cn_open (\<lambda>_ _. True))"
proof -
  have "triple cn_open (setConn True) (keeping cn_open (\<lambda>_ _. True))"
    by (simp add: triple_def keeping_def setConn_def)
  then have "triple cn_open (startTLS env cfg) (keeping cn_open (\<lambda>_ _. True))"
    unfolding startTLS_def
    by (intro triple_seq control_triples triple_fail core_kept_steps(1,9)[THEN core_kept_triple(2)]
        core_kept_writes[THEN core_kept_triple(2)])
  then show ?thesis
    unfolding negotiate_tls_def
    by (intro triple_seq control_triples triple_fail core_kept_open[THEN core_kept_triple(2)]
        core_kept_steps(6)[THEN core_kept_triple(2)])
qed

lemma finishConnect_outcome:
  assumes "finishConnect cfg s = (r, s')" "cn_open s"
  shows "(r = Inr () \<longrightarrow> cn_open s' \<and> cn_connected s' \<and> cn_jid s' = cn_jid s)
     \<and> (\<forall>e. r = Inl e \<longrightarrow> \<not> cn_open s' \<and> \<not> cn_connected s')"
proof -
  let ?s = "s\<lparr>cn_connected := True, cn_events := cn_events s @ [''connected'', ''session_start'']\<rparr>"
  obtain r1 s1 where p: "SendPresence (cfg_InitialPresence cfg) ?s = (r1, s1)"
    by (cases "SendPresence (cfg_InitialPresence cfg) ?s")
  have "core_kept (Send st)" for st
  proof -
    have "core_kept (bindc (writeStanza st) (\<lambda>_. emit ''sent_stanza''))" by (intro core_intros)
    then show ?thesis unfolding Send_def core_kept_def by simp
  qed
  then have "core_kept (SendPresence q)" for q
    unfolding SendPresence_def by (intro core_intros)
  then have "core s1 = core ?s" using p unfolding core_kept_def by (metis snd_conv)
  then have "cn_open s1" "cn_connected s1" "cn_jid s1 = cn_jid s" using assms(2) by (simp_all add: core_def)
  moreover have "\<not> cn_open (close_transport s1)" "\<not> cn_connected (close_transport s1)"
    by (simp_all add: close_transport_def clearConn_def emit_def bindc_def)
  ultimately show ?thesis
    using assms p
    by (auto simp: finishConnect_def bindc_def emit_def returnc_def split: if_splits sum.splits)
qed

lemma Connect_outcome_lemma:
  assumes closed: "\<not> cn_open s" "\<not> cn_connected s" and sec: "cfg_ComponentSecret cfg = []"
    and c: "Connect env cfg s = (r, s')"
  shows "(r = Inr () \<longrightarrow> cn_open s' \<and> cn_connected s' \<and> wf_jid (cn_jid s'))
     \<and> (\<forall>e. r = Inl e \<longrightarrow> \<not> cn_open s' \<and> \<not> cn_connected s')"
proof -
  let ?neg = "bindc (negotiate_tls env cfg) (negotiate_session env cfg)"
  let ?dial = "dial env cfg (resolveAddress (ce_lookup env) cfg (cn_jid s)) ''xmpp: connect to %s: %w''
      ''xmpp: direct TLS handshake: %w''"
  obtain rd sd where d: "?dial s = (rd, sd)" by (cases "?dial s")
  have dd: "rd = Inr () \<longrightarrow> cn_open sd" "\<forall>e. rd = Inl e \<longrightarrow> sd = s"
    using d by (auto simp: dial_def handshake_def bindc_def setConn_def split: option.splits if_splits)
  have neg: "triple cn_open ?neg (keeping cn_open (\<lambda>_. negotiated))"
    by (intro triple_seq negotiate_tls_open negotiate_session_negotiated)
  have c': "bindc ?dial (\<lambda>_. bindc (failConnect ?neg) (\<lambda>_. finishConnect cfg)) s = (r, s')"
    using c closed sec by (simp add: Connect_def)
  show ?thesis
  proof (cases rd)
    case (Inl e)
    then show ?thesis using c' d dd closed by (auto simp: bindc_def)
  next
    case (Inr u)
    then have op: "cn_open sd" using dd by simp
    obtain rn sn where n: "?neg sd = (rn, sn)" by (cases "?neg sd")
    note k = tripleD[OF neg op n]
    show ?thesis
    proof (cases rn)
      case Inl': (Inl e)
      then have "r = Inl e" "s' = clearConn sn"
        using c' d Inr n by (auto simp: bindc_def failConnect_def)
      then show ?thesis by (simp add: clearConn_def)
    next
      case Inr': (Inr v)
      then have f: "finishConnect cfg sn = (r, s')" using c' d Inr n by (simp add: bindc_def failConnect_def)
      have "cn_open sn" "wf_jid (cn_jid sn)" using k Inr' by (auto simp: keeping_def negotiated_def)
      then show ?thesis using finishConnect_outcome[OF f] by auto
    qed
  qed
qed

subsection \<open>Properties\<close>

text \<open>C11: under every normalised client configuration that does not explicitly allow insecure
  authentication, and whatever the server sends, everything written before TLS is active is
  a stream opening, the \<^verbatim>\<open>starttls\<close> request or a closing tag: no credentials, no stanza.\<close>

theorem Connect_no_cleartext:
  assumes "\<not> cfg_InsecureAllowPlainAuth c" "cfg_ComponentSecret c = []" "cn_out s = []"
    and "Connect env (normalized c) s = (r, s')"
  shows "\<forall>(tls, it)\<in>set (cn_out s'). tls \<or> harmless it"
proof -
  have "triple clear_safe (Connect env (normalized c)) (keeping clear_safe (\<lambda>_ _. True))"
    using assms(1,2) by (intro Connect_clear_safe) (auto simp: normalized_RequireTLS)
  moreover have "clear_safe s" using assms(3) by (simp add: clear_safe_def)
  ultimately have "keeping clear_safe (\<lambda>_ _. True) r s'"
    using assms(4) unfolding triple_def by blast
  then show ?thesis by (simp add: keeping_def clear_safe_def)
qed

text \<open>A server that offers a SASL mechanism but no TLS.\<close>

definition downgrade_conn :: conn where
  "downgrade_conn = example_conn\<lparr>cn_open := False, cn_tls := False, cn_in := [],
     cn_later := [([StartElement (XName streamNS ''stream'') [], StartElement (XName streamNS ''features'') [],
                    StartElement (XName saslNS ''mechanisms'') [], StartElement (XName saslNS ''mechanism'') [],
                    CharData ''PLAIN'', EndElement (XName saslNS ''mechanism''),
                    EndElement (XName saslNS ''mechanisms''), EndElement (XName streamNS ''features'')],
                   Sentinel ErrEOF)]\<rparr>"

definition example_connect_env :: connect_env where
  "example_connect_env =
     \<lparr>ce_auth = \<lparr>ae_unicode = example_unicode, ae_sha1 = toy_hash, ae_sha256 = toy_hash, ae_random = Inr ''n''\<rparr>,
      ce_lookup = \<lambda>_ _. Inr [], ce_dial = \<lambda>_. None, ce_handshake = \<lambda>_. None, ce_done = \<lambda>_. None,
      ce_hex = id\<rparr>"

lemma downgrade_refused:
  "\<exists>s'. Connect example_connect_env (normalized (DefaultConfig ''juliet@example.net'' ''secret'')) downgrade_conn
     = (Inl (Sentinel ErrTLSRequired), s') \<and> cn_out s' \<noteq> []"
  by (simp add: Connect_def normalized_def DefaultConfig_def config0_def example_connect_env_def downgrade_conn_def
      example_conn_def bindc_def dial_def setConn_def failConnect_def negotiate_tls_def wrapc_def
      openAndReadFeatures_def resetDecoder_def JIDc_def write_item_def read_start_def readTopLevelNode_def
      setFeatures_def failc_def clearConn_def AddChild_def Child_eq_find Children_def)

theorem Connect_no_cleartext_witness:
  "\<exists>s'. Connect example_connect_env (normalized (DefaultConfig ''juliet@example.net'' ''secret'')) downgrade_conn
     = (Inl (Sentinel ErrTLSRequired), s') \<and> cn_out s' \<noteq> []
     \<and> list_all (\<lambda>(tls, it). tls \<or> harmless it) (cn_out s')"
proof -
  let ?c = "DefaultConfig ''juliet@example.net'' ''secret''"
  obtain s' where c: "Connect example_connect_env (normalized ?c) downgrade_conn = (Inl (Sentinel ErrTLSRequired), s')"
      "cn_out s' \<noteq> []"
    using downgrade_refused by blast
  have "\<not> cfg_InsecureAllowPlainAuth ?c" "cfg_ComponentSecret ?c = []" "cn_out downgrade_conn = []"
    by (simp_all add: DefaultConfig_def config0_def downgrade_conn_def example_conn_def)
  from Connect_no_cleartext[OF this c(1)] c show ?thesis unfolding list_all_iff by blast
qed



end
