(* ===== verification/Registry.thy ===== *)
theory Registry
  imports Prelude
begin

text \<open>
  The contract shared by the two callback registries of the library, the event bus
  (\<^verbatim>\<open>src/xmpp/events.go\<close>) and the stanza handlers (\<^verbatim>\<open>src/xmpp/handler.go\<close>): an entry gets the
  next number of a 64-bit counter, the entries are kept stably sorted by priority, and
  removal deletes the entry with the given number. What follows from the contract alone
  is proved here once.
\<close>

abbreviation counter_limit :: nat where
  "counter_limit \<equiv> 2 ^ 64"

locale priority_registry =
  fixes items :: "'r \<Rightarrow> 'a list"
    and last_id :: "'r \<Rightarrow> nat"
    and ident :: "'a \<Rightarrow> nat"
    and prio :: "'a \<Rightarrow> int"
    and add :: "'x \<Rightarrow> 'r \<Rightarrow> 'a \<times> 'r"
    and remove :: "'a \<Rightarrow> 'r \<Rightarrow> 'r"
  assumes items_add: "items (snd (add x r)) = sort_key prio (items r @ [fst (add x r)])"
    and ident_add: "ident (fst (add x r)) = (last_id r + 1) mod counter_limit"
    and last_id_add: "last_id (snd (add x r)) = (last_id r + 1) mod counter_limit"
    and items_remove: "items (remove a r) = remove_first (\<lambda>i. ident i = ident a) (items r)"
    and last_id_remove: "last_id (remove a r) = last_id r"
begin

definition registry_inv :: "'r \<Rightarrow> bool" where
  "registry_inv r \<longleftrightarrow> sorted (map prio (items r)) \<and> distinct (map ident (items r))
     \<and> (\<forall>i\<in>set (items r). ident i \<le> last_id r)"

lemma add_fresh:
  assumes "registry_inv r" "last_id r + 1 < counter_limit"
  shows "\<forall>i\<in>set (items r). ident i < ident (fst (add x r))"
  using assms by (auto simp: registry_inv_def ident_add less_Suc_eq_le)

lemma add_inv:
  assumes inv: "registry_inv r" and room: "last_id r + 1 < counter_limit"
  shows "registry_inv (snd (add x r))"
proof -
  have "distinct (map ident (items r @ [fst (add x r)]))"
    using inv add_fresh[OF assms, of x] by (fastforce simp: registry_inv_def)
  moreover have "\<forall>i\<in>set (items r @ [fst (add x r)]). ident i \<le> last_id (snd (add x r))"
    using inv room by (auto simp: registry_inv_def last_id_add ident_add)
  ultimately show ?thesis
    by (simp add: registry_inv_def items_add del: map_append set_append)
qed

lemma remove_inv:
  assumes "registry_inv r"
  shows "registry_inv (remove a r)"
proof -
  have "sorted (map prio (items (remove a r)))"
    using assms by (simp add: registry_inv_def items_remove sorted_map_remove_first)
  moreover have "distinct (map ident (items (remove a r)))"
    using assms by (simp add: registry_inv_def items_remove distinct_map_remove_first)
  moreover have "\<forall>i\<in>set (items (remove a r)). ident i \<le> last_id (remove a r)"
    using assms set_remove_first[of "\<lambda>i. ident i = ident a" "items r"]
    by (auto simp: registry_inv_def items_remove last_id_remove)
  ultimately show ?thesis by (simp add: registry_inv_def)
qed

lemma remove_filter:
  "registry_inv r \<Longrightarrow> items (remove a r) = filter (\<lambda>i. ident i \<noteq> ident a) (items r)"
  by (simp add: items_remove registry_inv_def remove_first_eq_filter)

text \<open>Entries of equal priority stay in registration order, and a new one goes last.\<close>

lemma add_stable:
  "filter (\<lambda>i. prio i = k) (items (snd (add x r))) =
     filter (\<lambda>i. prio i = k) (items r) @ (if prio (fst (add x r)) = k then [fst (add x r)] else [])"
  by (simp add: items_add sort_key_filter_stable)

text \<open>Removing what was just added restores the registry's contents.\<close>

lemma remove_add:
  assumes "registry_inv r" "last_id r + 1 < counter_limit"
  shows "items (remove (fst (add x r)) (snd (add x r))) = items r"
proof -
  let ?a = "fst (add x r)"
  have "\<forall>i\<in>set (items r). ident i \<noteq> ident ?a" using add_fresh[OF assms, of x] by auto
  then have "filter (\<lambda>i. ident i \<noteq> ident ?a) (items r) = items r" by (simp add: filter_id_conv)
  moreover have "filter P (sort_key prio xs) = sort_key prio (filter P xs)" for P xs
    by (rule filter_sort)
  ultimately show ?thesis
    using assms
    by (simp add: remove_filter[OF add_inv[OF assms]] items_add registry_inv_def sort_key_sorted_id)
qed

end

end
