(* ===== verification/Events.thy ===== *)
theory Events
  imports Registry Errors
begin

text \<open>
  The event bus of \<^verbatim>\<open>src/xmpp/events.go\<close>. A handler is a Go closure: the model refers to it by
  a number and takes what running it does as the argument \<open>run\<close>, which may use the bus again
  (the lock is not held while handlers run). The bus is an extensible record, so \<open>run\<close> can
  act on any state that contains one. \<^verbatim>\<open>On\<close> with a nil handler panics, which is \<open>None\<close>;
  asynchronous handlers are started as goroutines, which \<open>Emit\<close> returns as a list.
\<close>

datatype 'd event = Event (ev_Name: string) (ev_Data: 'd) (ev_At: int)

record event_options =
  eo_Priority :: int
  eo_Once :: bool
  eo_Async :: bool

record subscription =
  sub_id :: nat
  sub_name :: string
  sub_priority :: int
  sub_once :: bool
  sub_async :: bool
  sub_handler :: nat

record bus =
  bus_nextID :: nat
  bus_handlers :: "string \<Rightarrow> subscription list option"

definition event_options0 :: event_options where
  "event_options0 = \<lparr>eo_Priority = 0, eo_Once = False, eo_Async = False\<rparr>"

definition NewEventBus :: bus where
  "NewEventBus = \<lparr>bus_nextID = 0, bus_handlers = Map.empty\<rparr>"

text \<open>Reading a missing key of a Go map gives the nil slice.\<close>

definition subs_of :: "string \<Rightarrow> 'w bus_scheme \<Rightarrow> subscription list" where
  "subs_of name b = (case bus_handlers b name of None \<Rightarrow> [] | Some xs \<Rightarrow> xs)"

definition bus_add :: "string \<Rightarrow> nat \<times> event_options \<Rightarrow> 'w bus_scheme \<Rightarrow> subscription \<times> 'w bus_scheme" where
  "bus_add name ho b =
     (let nxt = (bus_nextID b + 1) mod counter_limit;
          s = \<lparr>sub_id = nxt, sub_name = name, sub_priority = eo_Priority (snd ho),
               sub_once = eo_Once (snd ho), sub_async = eo_Async (snd ho), sub_handler = fst ho\<rparr>
      in (s, b\<lparr>bus_nextID := nxt,
               bus_handlers := (bus_handlers b)(name \<mapsto> sort_key sub_priority (subs_of name b @ [s]))\<rparr>))"

definition On :: "string \<Rightarrow> nat option \<Rightarrow> event_options list \<Rightarrow> 'w bus_scheme \<Rightarrow> (subscription \<times> 'w bus_scheme) option" where
  "On name handler options b =
     (case handler of
        None \<Rightarrow> None
      | Some h \<Rightarrow> Some (bus_add name (h, case options of [] \<Rightarrow> event_options0 | o1 # _ \<Rightarrow> o1) b))"

definition Once :: "string \<Rightarrow> nat option \<Rightarrow> 'w bus_scheme \<Rightarrow> (subscription \<times> 'w bus_scheme) option" where
  "Once name handler b = On name handler [event_options0\<lparr>eo_Once := True\<rparr>] b"

definition Off :: "subscription option \<Rightarrow> 'w bus_scheme \<Rightarrow> 'w bus_scheme" where
  "Off s b =
     (case s of
        None \<Rightarrow> b
      | Some s' \<Rightarrow>
          let items = remove_first (\<lambda>i. sub_id i = sub_id s') (subs_of (sub_name s') b)
          in if items = [] then b\<lparr>bus_handlers := (bus_handlers b)(sub_name s' := None)\<rparr>
             else b\<lparr>bus_handlers := (bus_handlers b)(sub_name s' \<mapsto> items)\<rparr>)"

type_synonym ('d, 'w) runner = "subscription \<Rightarrow> 'd event \<Rightarrow> 'w bus_scheme \<Rightarrow> go_error option \<times> 'w bus_scheme"

fun emit_loop :: "('d, 'w) runner \<Rightarrow> 'd event \<Rightarrow> subscription list \<Rightarrow> 'w bus_scheme
    \<Rightarrow> go_error option list \<times> subscription list \<times> 'w bus_scheme" where
  "emit_loop run ev [] b = ([], [], b)"
| "emit_loop run ev (item # items) b =
     (let b1 = (if sub_once item then Off (Some item) b else b) in
      if sub_async item then
        (let (errs, spawned, b') = emit_loop run ev items b1 in (errs, item # spawned, b'))
      else
        (let (err, b2) = run item ev b1;
             (errs, spawned, b') = emit_loop run ev items b2
         in (map_option (\<lambda>e. Errorf ''event %q: %w'' [ev_Name ev] (Some e)) err # errs, spawned, b')))"

definition emit_order :: "string \<Rightarrow> 'w bus_scheme \<Rightarrow> subscription list" where
  "emit_order name b = sort_key sub_priority (subs_of name b @ subs_of ''*'' b)"

definition Emit :: "('d, 'w) runner \<Rightarrow> int \<Rightarrow> string \<Rightarrow> 'd \<Rightarrow> 'w bus_scheme
    \<Rightarrow> go_error option \<times> subscription list \<times> 'w bus_scheme" where
  "Emit run now name data b =
     (let (errs, spawned, b') = emit_loop run (Event name data now) (emit_order name b) b
      in (joinErrors errs, spawned, b'))"

subsection \<open>The bus is a priority registry, one per event name\<close>

lemma subs_of_add: "subs_of n (snd (bus_add name ho b)) =
    (if n = name then sort_key sub_priority (subs_of name b @ [fst (bus_add name ho b)]) else subs_of n b)"
  by (simp add: bus_add_def subs_of_def Let_def)

lemma subs_of_Off:
  "subs_of n (Off (Some s) b) =
     (if n = sub_name s then remove_first (\<lambda>i. sub_id i = sub_id s) (subs_of n b) else subs_of n b)"
  by (simp add: Off_def subs_of_def Let_def)

lemma Off_None [simp]: "Off None b = b"
  by (simp add: Off_def)

lemma bus_nextID_simps [simp]:
  "bus_nextID (Off s b) = bus_nextID b"
  "bus_nextID (snd (bus_add name ho b)) = (bus_nextID b + 1) mod counter_limit"
  by (simp_all add: Off_def bus_add_def Let_def split: option.splits)

lemma bus_add_sub [simp]:
  "sub_id (fst (bus_add name ho b)) = (bus_nextID b + 1) mod counter_limit"
  "sub_name (fst (bus_add name ho b)) = name"
  by (simp_all add: bus_add_def Let_def)

interpretation events: priority_registry "subs_of name" bus_nextID sub_id sub_priority "bus_add name"
    "\<lambda>s. Off (Some (s\<lparr>sub_name := name\<rparr>))" for name
  by unfold_locales (simp_all add: subs_of_add subs_of_Off)

subsection \<open>Well-formed buses and how they may change\<close>

definition all_subs :: "'w bus_scheme \<Rightarrow> subscription set" where
  "all_subs b = {s. \<exists>n. s \<in> set (subs_of n b)}"

definition bus_wf :: "'w bus_scheme \<Rightarrow> bool" where
  "bus_wf b \<longleftrightarrow> (\<forall>n. events.registry_inv n b \<and> (\<forall>s\<in>set (subs_of n b). sub_name s = n))
     \<and> inj_on sub_id (all_subs b)"

text \<open>
  \<open>bus_evolves b b'\<close>: \<open>b'\<close> is well formed, the counter has not gone back, and whatever is
  registered in \<open>b'\<close> was registered in \<open>b\<close> or has a number that \<open>b\<close> had not given out.
  Nothing that was removed can come back.
\<close>

definition bus_evolves :: "'w bus_scheme \<Rightarrow> 'w bus_scheme \<Rightarrow> bool" where
  "bus_evolves b b' \<longleftrightarrow> bus_wf b' \<and> bus_nextID b \<le> bus_nextID b'
     \<and> (\<forall>s\<in>all_subs b'. s \<in> all_subs b \<or> bus_nextID b < sub_id s)"

lemma bus_evolves_refl: "bus_wf b \<Longrightarrow> bus_evolves b b"
  by (simp add: bus_evolves_def)

lemma bus_evolves_trans: "bus_evolves a b \<Longrightarrow> bus_evolves b c \<Longrightarrow> bus_evolves a c"
  unfolding bus_evolves_def by fastforce

lemma bus_evolves_wf: "bus_evolves a b \<Longrightarrow> bus_wf b"
  by (simp add: bus_evolves_def)

lemma fold_evolves:
  assumes step: "\<And>x b. bus_wf b \<Longrightarrow> bus_evolves b (f x b)"
  shows "bus_wf b \<Longrightarrow> bus_evolves b (fold f xs b)"
proof (induction xs arbitrary: b)
  case (Cons x xs)
  have "bus_evolves b (f x b)" by (rule step) (rule Cons.prems)
  moreover from this have "bus_evolves (f x b) (fold f xs (f x b))"
    by (intro Cons.IH bus_evolves_wf)
  ultimately show ?case using bus_evolves_trans by fastforce
qed (simp add: bus_evolves_refl)

lemma bus_wf_sub_id: "bus_wf b \<Longrightarrow> s \<in> all_subs b \<Longrightarrow> sub_id s \<le> bus_nextID b"
  unfolding bus_wf_def all_subs_def by (auto simp: events.registry_inv_def)

lemma all_subs_Off:
  assumes "bus_wf b"
  shows "all_subs (Off (Some s) b) = all_subs b - {x. sub_name x = sub_name s \<and> sub_id x = sub_id s}"
proof -
  have rm: "subs_of n (Off (Some s) b) =
      (if n = sub_name s then filter (\<lambda>i. sub_id i \<noteq> sub_id s) (subs_of n b) else subs_of n b)" for n
    using assms by (auto simp: subs_of_Off bus_wf_def events.registry_inv_def remove_first_eq_filter)
  have name: "x \<in> set (subs_of n b) \<Longrightarrow> sub_name x = n" for x n
    using assms by (simp add: bus_wf_def)
  show ?thesis
  proof (rule set_eqI)
    fix x
    have "x \<in> set (subs_of n (Off (Some s) b)) \<longleftrightarrow>
        x \<in> set (subs_of n b) \<and> (n = sub_name s \<longrightarrow> sub_id x \<noteq> sub_id s)" for n
      by (simp add: rm)
    then show "x \<in> all_subs (Off (Some s) b) \<longleftrightarrow>
        x \<in> all_subs b - {x. sub_name x = sub_name s \<and> sub_id x = sub_id s}"
      using name by (auto simp: all_subs_def)
  qed
qed

lemma Off_evolves [inv_intros]:
  assumes "bus_wf b"
  shows "bus_evolves b (Off s b)"
proof (cases s)
  case (Some s')
  have inv: "events.registry_inv n (Off (Some s') b)" for n
    using assms events.remove_inv[of "sub_name s'" b s']
    by (cases "n = sub_name s'") (auto simp: bus_wf_def events.registry_inv_def subs_of_Off)
  have "set (subs_of n (Off (Some s') b)) \<subseteq> set (subs_of n b)" for n
    by (simp add: subs_of_Off set_remove_first)
  then have "\<forall>s\<in>set (subs_of n (Off (Some s') b)). sub_name s = n" for n
    using assms unfolding bus_wf_def by blast
  moreover have "inj_on sub_id (all_subs (Off (Some s') b))"
    using assms by (auto simp: all_subs_Off bus_wf_def intro: inj_on_subset)
  ultimately have "bus_wf (Off (Some s') b)" using inv by (simp add: bus_wf_def)
  then show ?thesis
    using assms Some by (auto simp: bus_evolves_def all_subs_Off)
qed (use assms bus_evolves_refl in simp)

lemma all_subs_add: "all_subs (snd (bus_add name ho b)) = insert (fst (bus_add name ho b)) (all_subs b)"
  by (auto simp: all_subs_def subs_of_add split: if_splits)

lemma bus_add_evolves [inv_intros]:
  assumes wf: "bus_wf b" and room: "bus_nextID b + 1 < counter_limit"
  shows "bus_evolves b (snd (bus_add name ho b))"
proof -
  let ?s = "fst (bus_add name ho b)" and ?b = "snd (bus_add name ho b)"
  have "events.registry_inv n ?b" for n
    using wf room events.add_inv[of name b ho]
    by (cases "n = name") (auto simp: bus_wf_def events.registry_inv_def subs_of_add le_SucI)
  moreover have "\<forall>s\<in>set (subs_of n ?b). sub_name s = n" for n
    using wf by (auto simp: bus_wf_def subs_of_add split: if_splits)
  moreover have "inj_on sub_id (all_subs ?b)"
    using wf room bus_wf_sub_id[OF wf]
    by (fastforce simp: all_subs_add inj_on_insert bus_wf_def)
  ultimately have "bus_wf ?b" by (simp add: bus_wf_def)
  then show ?thesis using room by (auto simp: bus_evolves_def all_subs_add)
qed

lemma bus_wf_New: "bus_wf NewEventBus"
  by (simp add: bus_wf_def NewEventBus_def subs_of_def events.registry_inv_def all_subs_def)

subsection \<open>Emitting\<close>

text \<open>What one turn of the loop does to the bus.\<close>

definition emit_turn :: "('d, 'w) runner \<Rightarrow> 'd event \<Rightarrow> subscription \<Rightarrow> 'w bus_scheme \<Rightarrow> 'w bus_scheme" where
  "emit_turn run ev i b =
     (let b1 = (if sub_once i then Off (Some i) b else b) in if sub_async i then b1 else snd (run i ev b1))"

lemma emit_loop_bus: "snd (snd (emit_loop run ev items b)) = fold (emit_turn run ev) items b"
proof (induction items arbitrary: b)
  case (Cons i items)
  have "snd (snd (emit_loop run ev (i # items) b)) = snd (snd (emit_loop run ev items (emit_turn run ev i b)))"
    by (simp add: emit_turn_def Let_def case_prod_beta)
  then show ?case using Cons.IH by simp
qed simp

lemma Emit_bus: "snd (snd (Emit run now name data b)) = fold (emit_turn run (Event name data now)) (emit_order name b) b"
  by (simp add: Emit_def flip: emit_loop_bus split: prod.splits)

text \<open>What the handlers promise: whatever they do to the bus, it evolves.\<close>

locale event_handlers =
  fixes run :: "('d, 'w) runner"
  assumes run_evolves: "bus_wf b \<Longrightarrow> bus_evolves b (snd (run s e b))"
begin

lemma turn_evolves:
  assumes "bus_wf b"
  shows "bus_evolves b (emit_turn run ev i b)"
proof -
  let ?b1 = "if sub_once i then Off (Some i) b else b"
  have "bus_evolves b ?b1" using assms by (simp add: Off_evolves bus_evolves_refl)
  moreover from this have "bus_evolves ?b1 (snd (run i ev ?b1))"
    by (intro run_evolves bus_evolves_wf)
  ultimately show ?thesis
    by (auto simp: emit_turn_def Let_def intro: bus_evolves_trans)
qed

lemma turns_evolve: "bus_wf b \<Longrightarrow> bus_evolves b (fold (emit_turn run ev) items b)"
  by (rule fold_evolves) (rule turn_evolves)

lemma Emit_evolves: "bus_wf b \<Longrightarrow> bus_evolves b (snd (snd (Emit run now name data b)))"
  by (simp add: Emit_bus turns_evolve)

lemma not_back:
  "bus_evolves b b' \<Longrightarrow> s \<notin> all_subs b \<Longrightarrow> sub_id s \<le> bus_nextID b \<Longrightarrow> s \<notin> all_subs b'"
  by (auto simp: bus_evolves_def)

lemma turn_once:
  assumes "bus_wf b" "sub_once i" "sub_id i \<le> bus_nextID b"
  shows "i \<notin> all_subs (emit_turn run ev i b)"
proof -
  have "bus_evolves b (Off (Some i) b)" by (rule Off_evolves) (rule assms)
  then have "bus_evolves (Off (Some i) b) (snd (run i ev (Off (Some i) b)))"
    by (intro run_evolves bus_evolves_wf)
  then show ?thesis
    using not_back[of "Off (Some i) b" _ i] assms by (simp add: emit_turn_def all_subs_Off Let_def)
qed

lemma turns_once:
  "bus_wf b \<Longrightarrow> \<forall>s\<in>set items. sub_id s \<le> bus_nextID b \<Longrightarrow>
   s \<in> set items \<Longrightarrow> sub_once s \<Longrightarrow> s \<notin> all_subs (fold (emit_turn run ev) items b)"
proof (induction items arbitrary: b)
  case (Cons i items)
  let ?b = "emit_turn run ev i b"
  have e: "bus_evolves b ?b" by (rule turn_evolves) (rule Cons.prems)
  have ids: "\<forall>s\<in>set (i # items). sub_id s \<le> bus_nextID ?b"
    using Cons.prems(2) e by (auto simp: bus_evolves_def dest: order_trans)
  show ?case
  proof (cases "s = i")
    case True
    then show ?thesis
      using turn_once[of b i ev] not_back[OF turns_evolve[of ?b ev items], of s] ids e Cons.prems
      by (auto simp: bus_evolves_def)
  next
    case False
    then show ?thesis
      using Cons.IH[of ?b] Cons.prems ids bus_evolves_wf[OF e] by simp
  qed
qed simp

lemma Emit_once:
  assumes "bus_wf b" "s \<in> set (subs_of name b) \<union> set (subs_of ''*'' b)" "sub_once s"
  shows "s \<notin> all_subs (snd (snd (Emit run now name data b)))"
  unfolding Emit_bus
proof (rule turns_once[OF assms(1) _ _ assms(3)])
  show "\<forall>s\<in>set (emit_order name b). sub_id s \<le> bus_nextID b"
    using bus_wf_sub_id[OF assms(1)] by (auto simp: emit_order_def all_subs_def)
qed (use assms(2) in \<open>simp add: emit_order_def\<close>)

end

subsection \<open>Handlers that use the bus\<close>

text \<open>
  The handlers of a program, as scripts of calls on the bus: registering, removing and
  emitting again. \<open>handler_run\<close> bounds how deeply emissions may nest; a call at depth zero
  stands for a handler that does not emit.
\<close>

datatype 'd bus_op = BOn string nat event_options | BOff subscription | BEmit string 'd

fun bus_do :: "('d, 'w) runner \<Rightarrow> 'd bus_op \<Rightarrow> 'w bus_scheme \<Rightarrow> 'w bus_scheme" where
  "bus_do run (BOn name h o1) b =
     (if bus_nextID b + 1 < counter_limit then snd (bus_add name (h, o1) b) else b)"
| "bus_do run (BOff s) b = Off (Some s) b"
| "bus_do run (BEmit name data) b = snd (snd (Emit run 0 name data b))"

primrec handler_run :: "nat \<Rightarrow> (nat \<Rightarrow> 'd bus_op list \<times> go_error option) \<Rightarrow> ('d, 'w) runner" where
  "handler_run 0 table = (\<lambda>s ev b. (snd (table (sub_handler s)), b))"
| "handler_run (Suc d) table =
     (\<lambda>s ev b. (snd (table (sub_handler s)), fold (bus_do (handler_run d table)) (fst (table (sub_handler s))) b))"

lemma bus_do_evolves:
  assumes "event_handlers run" "bus_wf b"
  shows "bus_evolves b (bus_do run op b)"
  using assms(2) event_handlers.Emit_evolves[OF assms(1)]
  by (cases op) (auto intro: bus_evolves_refl bus_add_evolves Off_evolves)

lemma handler_run_evolves: "event_handlers (handler_run d table)"
proof (induction d)
  case 0
  show ?case by unfold_locales (simp add: bus_evolves_refl)
next
  case (Suc d)
  show ?case
    by unfold_locales (simp, rule fold_evolves, rule bus_do_evolves[OF Suc])
qed

interpretation scripts: event_handlers "handler_run d table" for d table
  by (rule handler_run_evolves)

subsection \<open>The registration log\<close>

text \<open>
  The abstract bus is the list of live registrations in the order they were made. The
  concrete one keeps, per name, the part of it with that name, stably sorted.
\<close>

definition log_op :: "'d bus_op \<Rightarrow> bus \<Rightarrow> subscription list \<Rightarrow> subscription list" where
  "log_op op b log =
     (case op of
        BOn name h o1 \<Rightarrow> log @ [fst (bus_add name (h, o1) b)]
      | BOff s \<Rightarrow> filter (\<lambda>x. \<not> (sub_name x = sub_name s \<and> sub_id x = sub_id s)) log
      | BEmit name d \<Rightarrow> log)"

fun bus_log :: "'d bus_op list \<Rightarrow> bus \<Rightarrow> subscription list \<Rightarrow> bus \<times> subscription list" where
  "bus_log [] b log = (b, log)"
| "bus_log (op # ops) b log = bus_log ops (bus_do (handler_run 0 (\<lambda>_. ([], None))) op b) (log_op op b log)"

definition log_rel :: "bus \<Rightarrow> subscription list \<Rightarrow> bool" where
  "log_rel b log \<longleftrightarrow> (\<forall>n. subs_of n b = sort_key sub_priority (filter (\<lambda>s. sub_name s = n) log))
     \<and> distinct (map sub_id log) \<and> (\<forall>s\<in>set log. sub_id s \<le> bus_nextID b)"

fun no_emit :: "'d bus_op \<Rightarrow> bool" where
  "no_emit (BEmit n d) = False" | "no_emit _ = True"

lemma log_rel_add:
  assumes rel: "log_rel b log" and room: "bus_nextID b + 1 < counter_limit"
  shows "log_rel (snd (bus_add name ho b)) (log @ [fst (bus_add name ho b)])"
proof -
  let ?s = "fst (bus_add name ho b)"
  have "distinct (map sub_id (log @ [?s]))"
    using rel room by (fastforce simp: log_rel_def)
  moreover have "\<forall>s\<in>set (log @ [?s]). sub_id s \<le> bus_nextID (snd (bus_add name ho b))"
    using rel room by (auto simp: log_rel_def)
  ultimately show ?thesis
    using rel unfolding log_rel_def by (simp add: subs_of_add sort_key_sort_append)
qed

lemma log_rel_Off:
  assumes rel: "log_rel b log"
  shows "log_rel (Off (Some s) b) (filter (\<lambda>x. \<not> (sub_name x = sub_name s \<and> sub_id x = sub_id s)) log)"
proof -
  have d: "distinct (map sub_id (filter P log))" for P
    using rel by (simp add: log_rel_def distinct_map_filter)
  have "subs_of n (Off (Some s) b) = sort_key sub_priority
      (filter (\<lambda>x. sub_name x = n) (filter (\<lambda>x. \<not> (sub_name x = sub_name s \<and> sub_id x = sub_id s)) log))" for n
  proof (cases "n = sub_name s")
    case True
    have "remove_first (\<lambda>i. sub_id i = sub_id s) (sort_key sub_priority (filter (\<lambda>x. sub_name x = n) log))
        = filter (\<lambda>i. sub_id i \<noteq> sub_id s) (sort_key sub_priority (filter (\<lambda>x. sub_name x = n) log))"
      by (rule remove_first_eq_filter) (use d in simp)
    also have "\<dots> = sort_key sub_priority (filter (\<lambda>x. sub_name x = n \<and> sub_id x \<noteq> sub_id s) log)"
      by (simp add: filter_sort conj_commute)
    finally show ?thesis
      using rel True by (simp add: log_rel_def subs_of_Off) (metis (mono_tags, lifting))
  next
    case False
    have "filter (\<lambda>x. sub_name x = n) (filter (\<lambda>x. \<not> (sub_name x = sub_name s \<and> sub_id x = sub_id s)) log)
        = filter (\<lambda>x. sub_name x = n) log"
      using False by (auto intro: filter_cong)
    then show ?thesis using rel False by (simp add: log_rel_def subs_of_Off)
  qed
  then show ?thesis using rel d by (simp add: log_rel_def)
qed

lemma bus_log_rel:
  "log_rel b log \<Longrightarrow> list_all no_emit ops \<Longrightarrow> bus_nextID b + length ops < counter_limit \<Longrightarrow>
   log_rel (fst (bus_log ops b log)) (snd (bus_log ops b log))"
proof (induction ops arbitrary: b log)
  case (Cons op ops)
  show ?case
  proof (cases op)
    case (BOn name h o1)
    then show ?thesis
      using Cons log_rel_add[of b log name "(h, o1)"] by (simp add: log_op_def)
  next
    case (BOff s)
    then show ?thesis using Cons log_rel_Off[of b log s] by (simp add: log_op_def)
  qed (use Cons in simp)
qed simp

subsection \<open>Properties\<close>

text \<open>C4: after any sequence of registrations and removals, an emission visits exactly the live
  registrations for the event's name and for the wildcard, in the order of their priorities;
  among equal priorities those for the name come first, and each group is in the order it
  was registered. The bus refines the plain log of live registrations.\<close>

theorem emit_order_refines_log:
  assumes "list_all no_emit ops" "length ops < counter_limit"
    and "bus_log ops NewEventBus [] = (b, log)"
  shows "emit_order name b = sort_key sub_priority
           (filter (\<lambda>s. sub_name s = name) log @ filter (\<lambda>s. sub_name s = ''*'') log)"
proof -
  have "log_rel NewEventBus []"
    by (simp add: log_rel_def NewEventBus_def subs_of_def)
  then have "log_rel b log"
    using bus_log_rel[of NewEventBus "[]" ops] assms by (simp add: NewEventBus_def)
  then have subs: "subs_of n b = sort_key sub_priority (filter (\<lambda>s. sub_name s = n) log)" for n
    by (simp add: log_rel_def)
  show ?thesis by (simp add: emit_order_def subs sort_key_sort_append sort_key_append_sort)
qed

definition example_ops :: "unit bus_op list" where
  "example_ops =
     [BOn ''message'' 1 (event_options0\<lparr>eo_Priority := 5\<rparr>), BOn ''*'' 2 event_options0,
      BOn ''message'' 3 event_options0]"

theorem emit_order_refines_log_witness:
  "emit_order ''message'' (fst (bus_log example_ops NewEventBus [])) =
     sort_key sub_priority
       (filter (\<lambda>s. sub_name s = ''message'') (snd (bus_log example_ops NewEventBus []))
        @ filter (\<lambda>s. sub_name s = ''*'') (snd (bus_log example_ops NewEventBus [])))"
  by (rule emit_order_refines_log[of example_ops]) (simp_all add: example_ops_def)

text \<open>An emission, whatever its handlers register, remove or emit in turn, leaves the bus well
  formed (every list sorted, numbers unique), never revives a removed registration, and
  leaves no one-shot registration of the event or the wildcard that was there when it
  started.\<close>

theorem Emit_invariant:
  assumes "bus_wf b" "Emit (handler_run d table) now name data b = (err, spawned, b')"
  shows "bus_wf b' \<and> (\<forall>s\<in>all_subs b'. s \<in> all_subs b \<or> bus_nextID b < sub_id s)
     \<and> (\<forall>s\<in>set (subs_of name b) \<union> set (subs_of ''*'' b). sub_once s \<longrightarrow> s \<notin> all_subs b')"
  using scripts.Emit_evolves[OF assms(1), of d table now name data]
    scripts.Emit_once[OF assms(1), of _ name d table now data]
  unfolding assms(2) bus_evolves_def by auto

definition example_bus :: bus where
  "example_bus = snd (bus_add ''tick'' (1, event_options0\<lparr>eo_Once := True\<rparr>) NewEventBus)"

theorem Emit_invariant_witness:
  "bus_wf example_bus
   \<and> fst (bus_add ''tick'' (1, event_options0\<lparr>eo_Once := True\<rparr>) NewEventBus)
      \<notin> all_subs (snd (snd (Emit (handler_run 1 (\<lambda>_. ([BEmit ''tick'' ()], None))) 0 ''tick'' () example_bus)))"
proof -
  have wf: "bus_wf example_bus"
    unfolding example_bus_def
    by (rule bus_evolves_wf[OF bus_add_evolves[OF bus_wf_New]]) (simp add: NewEventBus_def)
  let ?run = "handler_run 1 (\<lambda>_. ([BEmit ''tick'' ()], None)) :: (unit, unit) runner"
  obtain err spawned b' where e: "Emit ?run 0 ''tick'' () example_bus = (err, spawned, b')"
    by (rule prod_cases3)
  let ?s = "fst (bus_add ''tick'' (1, event_options0\<lparr>eo_Once := True\<rparr>) NewEventBus)"
  have "?s \<in> set (subs_of ''tick'' example_bus)" "sub_once ?s"
    unfolding example_bus_def subs_of_add by (simp_all add: bus_add_def Let_def)
  then show ?thesis unfolding e snd_conv using wf Emit_invariant[OF wf e] by blast
qed

subsection \<open>One-shot handlers and nested emissions\<close>

text \<open>
  A one-shot handler is removed when its turn comes, not when the emission takes its
  snapshot. If an earlier handler emits the same event, the inner emission runs it and the
  outer one runs it again.
\<close>

text \<open>
  Handler 1 counts its calls, every other handler emits the event again (once, at the
  given depth).
\<close>

record counting_bus = bus +
  fired :: nat

primrec counting_run :: "nat \<Rightarrow> (unit, unit counting_bus_ext) runner" where
  "counting_run 0 = (\<lambda>s ev b. (None, if sub_handler s = 1 then b\<lparr>fired := fired b + 1\<rparr> else b))"
| "counting_run (Suc d) = (\<lambda>s ev b.
     (None, if sub_handler s = 1 then b\<lparr>fired := fired b + 1\<rparr>
            else snd (snd (Emit (counting_run d) 0 (ev_Name ev) () b))))"

definition nested_bus :: counting_bus where
  "nested_bus =
     snd (bus_add ''tick'' (1, event_options0\<lparr>eo_Priority := 1, eo_Once := True\<rparr>)
       (snd (bus_add ''tick'' (0, event_options0)
         \<lparr>bus_nextID = 0, bus_handlers = Map.empty, fired = 0\<rparr>)))"

text \<open>A one-shot handler can run twice: with an earlier handler that emits the event again,
  one emission calls it two times.\<close>

theorem once_handler_fires_twice: "fired (snd (snd (Emit (counting_run 1) 0 ''tick'' () nested_bus))) = 2"
  by (simp add: nested_bus_def bus_add_def subs_of_def Let_def event_options0_def Emit_def emit_order_def
      Off_def)

end
