(* ===== verification/Handlers.thy ===== *)
theory Handlers
  imports Matcher Events
begin

text \<open>
  Stanza handlers and dispatch: \<^verbatim>\<open>src/xmpp/handler.go\<close> and \<^verbatim>\<open>dispatchStanza\<close>, \<^verbatim>\<open>reportError\<close>,
  \<^verbatim>\<open>AddHandler\<close> and \<^verbatim>\<open>RemoveHandler\<close> of \<^verbatim>\<open>src/xmpp/client.go\<close>. The state extends the event
  bus by the handler registry and the list of goroutines started. Callbacks are numbers;
  what they do is part of the dispatch environment and may change the state.
\<close>

record handler_options =
  ho_Priority :: int
  ho_Once :: bool
  ho_Async :: bool

record handler =
  h_id :: nat
  h_Name :: string
  h_Matcher :: "matcher option"
  h_Callback :: nat
  h_Priority :: int
  h_Once :: bool
  h_Async :: bool

text \<open>What events carry; \<open>DValue\<close> stands for a value of a plugin's own type.\<close>

datatype client_data =
    DStanza stanza
  | DNode node
  | DError go_error
  | DJid jid
  | DReason "go_error option"
  | DValue string

datatype task = SubTask subscription | HandlerTask handler stanza

record dispatch_state = bus +
  hr_nextID :: nat
  hr_handlers :: "handler list"
  ds_spawned :: "task list"

subsection \<open>The registry\<close>

definition handler_add :: "string \<times> matcher option \<times> nat \<times> handler_options \<Rightarrow> 'w dispatch_state_scheme
    \<Rightarrow> handler \<times> 'w dispatch_state_scheme" where
  "handler_add x w =
     (let (name, m, cb, o1) = x;
          nxt = (hr_nextID w + 1) mod counter_limit;
          h = \<lparr>h_id = nxt, h_Name = name,
               h_Matcher = (case m of None \<Rightarrow> Some MatchAll | Some f \<Rightarrow> Some f), h_Callback = cb,
               h_Priority = ho_Priority o1, h_Once = ho_Once o1, h_Async = ho_Async o1\<rparr>
      in (h, w\<lparr>hr_nextID := nxt, hr_handlers := sort_key h_Priority (hr_handlers w @ [h])\<rparr>))"

definition AddHandler :: "string \<Rightarrow> matcher option \<Rightarrow> nat option \<Rightarrow> handler_options list \<Rightarrow> 'w dispatch_state_scheme
    \<Rightarrow> (handler \<times> 'w dispatch_state_scheme) option" where
  "AddHandler name m cb options w =
     (case cb of
        None \<Rightarrow> None
      | Some c \<Rightarrow>
          Some (handler_add (name, m, c,
            case options of [] \<Rightarrow> \<lparr>ho_Priority = 0, ho_Once = False, ho_Async = False\<rparr> | o1 # _ \<Rightarrow> o1) w))"

definition handler_remove :: "handler \<Rightarrow> 'w dispatch_state_scheme \<Rightarrow> 'w dispatch_state_scheme" where
  "handler_remove h w = w\<lparr>hr_handlers := remove_first (\<lambda>i. h_id i = h_id h) (hr_handlers w)\<rparr>"

definition RemoveHandler :: "handler option \<Rightarrow> 'w dispatch_state_scheme \<Rightarrow> 'w dispatch_state_scheme" where
  "RemoveHandler h w = (case h of None \<Rightarrow> w | Some h' \<Rightarrow> handler_remove h' w)"

interpretation handlers: priority_registry hr_handlers hr_nextID h_id h_Priority handler_add handler_remove
  by unfold_locales (auto simp: handler_add_def handler_remove_def Let_def split: prod.splits)

subsection \<open>Dispatch\<close>

record 'w dispatch_env =
  de_now :: int
  de_events :: "(client_data, 'w dispatch_state_ext) runner"
  de_callback :: "handler \<Rightarrow> stanza \<Rightarrow> 'w dispatch_state_scheme \<Rightarrow> go_error option \<times> 'w dispatch_state_scheme"
  de_OnMessage :: "(message \<Rightarrow> 'w dispatch_state_scheme \<Rightarrow> 'w dispatch_state_scheme) option"
  de_OnPresence :: "(presence \<Rightarrow> 'w dispatch_state_scheme \<Rightarrow> 'w dispatch_state_scheme) option"
  de_OnIQ :: "(iq \<Rightarrow> 'w dispatch_state_scheme \<Rightarrow> 'w dispatch_state_scheme) option"
  de_OnError :: "(go_error \<Rightarrow> 'w dispatch_state_scheme \<Rightarrow> 'w dispatch_state_scheme) option"

text \<open>\<^verbatim>\<open>_ = c.Events.Emit(...)\<close>: the error is dropped, the goroutines run on.\<close>

definition emit_event :: "'w dispatch_env \<Rightarrow> string \<Rightarrow> client_data \<Rightarrow> 'w dispatch_state_scheme \<Rightarrow> 'w dispatch_state_scheme" where
  "emit_event env name data w =
     (let (err, spawned, w') = Emit (de_events env) (de_now env) name data w
      in w'\<lparr>ds_spawned := ds_spawned w' @ map SubTask spawned\<rparr>)"

definition call_hook :: "('a \<Rightarrow> 'w \<Rightarrow> 'w) option \<Rightarrow> 'a \<Rightarrow> 'w \<Rightarrow> 'w" where
  "call_hook f x w = (case f of None \<Rightarrow> w | Some g \<Rightarrow> g x w)"

definition reportError :: "'w dispatch_env \<Rightarrow> go_error option \<Rightarrow> 'w dispatch_state_scheme \<Rightarrow> 'w dispatch_state_scheme" where
  "reportError env err w =
     (case err of None \<Rightarrow> w | Some e \<Rightarrow> emit_event env ''error'' (DError e) (call_hook (de_OnError env) e w))"

definition accepts :: "stanza \<Rightarrow> handler \<Rightarrow> bool" where
  "accepts st h \<longleftrightarrow> (case h_Matcher h of None \<Rightarrow> False | Some m \<Rightarrow> m (Some st))"

definition handler_turn :: "'w dispatch_env \<Rightarrow> stanza \<Rightarrow> handler \<Rightarrow> 'w dispatch_state_scheme \<Rightarrow> 'w dispatch_state_scheme" where
  "handler_turn env st h w =
     (let w1 = (if h_Once h then RemoveHandler (Some h) w else w) in
      if h_Async h then w1\<lparr>ds_spawned := ds_spawned w1 @ [HandlerTask h st]\<rparr>
      else
        let (err, w2) = de_callback env h st w1
        in reportError env (map_option (\<lambda>e. Errorf ''xmpp handler %s: %w'' [h_Name h] (Some e)) err) w2)"

fun dispatch_loop :: "'w dispatch_env \<Rightarrow> stanza \<Rightarrow> handler list \<Rightarrow> 'w dispatch_state_scheme \<Rightarrow> 'w dispatch_state_scheme" where
  "dispatch_loop env st [] w = w"
| "dispatch_loop env st (h # hs) w =
     (if \<not> accepts st h then dispatch_loop env st hs w
      else dispatch_loop env st hs (handler_turn env st h w))"

fun dispatch_kind :: "'w dispatch_env \<Rightarrow> stanza \<Rightarrow> 'w dispatch_state_scheme \<Rightarrow> 'w dispatch_state_scheme" where
  "dispatch_kind env (SMessage m) w =
     (let w1 = emit_event env ''message'' (DStanza (SMessage m)) (call_hook (de_OnMessage env) m w)
      in if msg_Type m \<noteq> [] then emit_event env (''message_'' @ msg_Type m) (DStanza (SMessage m)) w1 else w1)"
| "dispatch_kind env (SPresence p) w =
     (let w1 = emit_event env ''presence'' (DStanza (SPresence p)) (call_hook (de_OnPresence env) p w)
      in if prs_Type p \<noteq> [] then emit_event env (''presence_'' @ prs_Type p) (DStanza (SPresence p)) w1 else w1)"
| "dispatch_kind env (SIQ i) w = emit_event env ''iq'' (DStanza (SIQ i)) (call_hook (de_OnIQ env) i w)"

definition dispatchStanza :: "'w dispatch_env \<Rightarrow> stanza \<Rightarrow> 'w dispatch_state_scheme \<Rightarrow> 'w dispatch_state_scheme" where
  "dispatchStanza env st w =
     (let w1 = emit_event env ''received_stanza'' (DStanza st) w;
          w2 = dispatch_loop env st (hr_handlers w1) w1;
          w3 = emit_event env ''stanza'' (DStanza st) w2
      in dispatch_kind env st w3)"

subsection \<open>The loop visits the accepting handlers\<close>

lemma dispatch_loop_fold: "dispatch_loop env st hs w = fold (handler_turn env st) (filter (accepts st) hs) w"
  by (induction hs arbitrary: w) auto

text \<open>
  What the callbacks and event handlers promise: they register nothing under an old number
  and keep the registry sorted. As for the event bus, removed entries do not come back.
\<close>

definition reg_evolves :: "'w dispatch_state_scheme \<Rightarrow> 'w dispatch_state_scheme \<Rightarrow> bool" where
  "reg_evolves w w' \<longleftrightarrow> handlers.registry_inv w' \<and> hr_nextID w \<le> hr_nextID w'
     \<and> (\<forall>h\<in>set (hr_handlers w'). h \<in> set (hr_handlers w) \<or> hr_nextID w < h_id h)"

lemma reg_evolves_refl: "handlers.registry_inv w \<Longrightarrow> reg_evolves w w"
  by (simp add: reg_evolves_def)

lemma reg_evolves_trans: "reg_evolves a b \<Longrightarrow> reg_evolves b c \<Longrightarrow> reg_evolves a c"
  unfolding reg_evolves_def by fastforce

lemma reg_evolves_remove:
  assumes "handlers.registry_inv w"
  shows "reg_evolves w (RemoveHandler h w)"
proof (cases h)
  case (Some h')
  have "set (hr_handlers (handler_remove h' w)) \<subseteq> set (hr_handlers w)"
    using set_remove_first by (simp add: handler_remove_def)
  then show ?thesis
    using Some handlers.remove_inv[OF assms, of h']
    by (auto simp: reg_evolves_def RemoveHandler_def handlers.last_id_remove)
qed (simp add: RemoveHandler_def reg_evolves_refl assms)

locale dispatching =
  fixes env :: "'w dispatch_env"
  assumes events_evolve: "handlers.registry_inv w \<Longrightarrow> reg_evolves w (emit_event env name data w)"
    and callbacks_evolve: "handlers.registry_inv w \<Longrightarrow> reg_evolves w (snd (de_callback env h st w))"
    and errors_evolve: "handlers.registry_inv w \<Longrightarrow> reg_evolves w (call_hook (de_OnError env) e w)"
begin

lemma report_evolves:
  assumes "handlers.registry_inv w"
  shows "reg_evolves w (reportError env err w)"
proof (cases err)
  case (Some e)
  have h: "reg_evolves w (call_hook (de_OnError env) e w)" by (rule errors_evolve) (rule assms)
  then have "reg_evolves (call_hook (de_OnError env) e w)
      (emit_event env ''error'' (DError e) (call_hook (de_OnError env) e w))"
    by (intro events_evolve) (simp add: reg_evolves_def)
  then show ?thesis using h Some reg_evolves_trans by (auto simp: reportError_def)
qed (simp add: reportError_def reg_evolves_refl assms)

lemma turn_evolves:
  assumes "handlers.registry_inv w"
  shows "reg_evolves w (handler_turn env st h w)"
proof -
  let ?w1 = "if h_Once h then RemoveHandler (Some h) w else w"
  have e1: "reg_evolves w ?w1" using assms by (simp add: reg_evolves_remove reg_evolves_refl)
  then have i1: "handlers.registry_inv ?w1" by (simp add: reg_evolves_def)
  obtain err w2 where c: "de_callback env h st ?w1 = (err, w2)" by (cases "de_callback env h st ?w1")
  have e2: "reg_evolves ?w1 w2" using callbacks_evolve[OF i1, of h st] c by simp
  then have i2: "handlers.registry_inv w2" by (simp add: reg_evolves_def)
  have "reg_evolves ?w1 (?w1\<lparr>ds_spawned := sp\<rparr>)" for sp
    using i1 by (simp add: reg_evolves_def handlers.registry_inv_def)
  then show ?thesis
    using e1 e2 report_evolves[OF i2] c reg_evolves_trans
    unfolding handler_turn_def Let_def by (auto split: prod.splits) blast+
qed

lemma turns_evolve: "handlers.registry_inv w \<Longrightarrow> reg_evolves w (fold (handler_turn env st) hs w)"
proof (induction hs arbitrary: w)
  case (Cons h hs)
  have "reg_evolves w (handler_turn env st h w)" by (rule turn_evolves) (rule Cons.prems)
  moreover from this have "reg_evolves (handler_turn env st h w) (fold (handler_turn env st) hs (handler_turn env st h w))"
    by (intro Cons.IH) (simp add: reg_evolves_def)
  ultimately show ?case using reg_evolves_trans by fastforce
qed (simp add: reg_evolves_refl)

lemma not_back: "reg_evolves w w' \<Longrightarrow> h \<notin> set (hr_handlers w) \<Longrightarrow> h_id h \<le> hr_nextID w \<Longrightarrow> h \<notin> set (hr_handlers w')"
  by (auto simp: reg_evolves_def)

lemma turn_once:
  assumes inv: "handlers.registry_inv w" and once: "h_Once h" "h_id h \<le> hr_nextID w"
  shows "h \<notin> set (hr_handlers (handler_turn env st h w))"
proof -
  let ?w1 = "RemoveHandler (Some h) w"
  have e1: "reg_evolves w ?w1" by (rule reg_evolves_remove) (rule inv)
  then have i1: "handlers.registry_inv ?w1" by (simp add: reg_evolves_def)
  have gone: "h \<notin> set (hr_handlers ?w1)"
    using handlers.remove_filter[OF inv, of h] by (simp add: RemoveHandler_def)
  obtain err w2 where c: "de_callback env h st ?w1 = (err, w2)" by (cases "de_callback env h st ?w1")
  have e2: "reg_evolves ?w1 w2" using callbacks_evolve[OF i1, of h st] c by simp
  moreover have "reg_evolves w2 (reportError env e w2)" for e
    using e2 by (intro report_evolves) (simp add: reg_evolves_def)
  ultimately have "reg_evolves ?w1 (reportError env e w2)" for e using reg_evolves_trans by blast
  moreover have "h_id h \<le> hr_nextID ?w1" using once e1 by (simp add: reg_evolves_def)
  ultimately show ?thesis
    using c once gone not_back by (auto simp: handler_turn_def Let_def split: prod.splits)
qed

lemma turns_once:
  "handlers.registry_inv w \<Longrightarrow> \<forall>h\<in>set hs. h_id h \<le> hr_nextID w \<Longrightarrow> h \<in> set hs \<Longrightarrow> h_Once h \<Longrightarrow>
   h \<notin> set (hr_handlers (fold (handler_turn env st) hs w))"
proof (induction hs arbitrary: w)
  case (Cons a hs)
  let ?w = "handler_turn env st a w"
  have e: "reg_evolves w ?w" by (rule turn_evolves) (rule Cons.prems)
  then have inv: "handlers.registry_inv ?w" by (simp add: reg_evolves_def)
  have ids: "\<forall>h\<in>set (a # hs). h_id h \<le> hr_nextID ?w"
    using Cons.prems(2) e by (auto simp: reg_evolves_def dest: order_trans)
  show ?case
  proof (cases "h = a")
    case True
    then have "h \<notin> set (hr_handlers ?w)" using turn_once Cons.prems by simp
    then show ?thesis using not_back[OF turns_evolve[OF inv, of st hs], of h] ids Cons.prems by auto
  next
    case False
    then show ?thesis using Cons.IH[OF inv] Cons.prems ids by simp
  qed
qed simp

end

subsection \<open>Callbacks that use the registry\<close>

datatype handler_op = HAdd "string \<times> matcher option \<times> nat \<times> handler_options" | HRemove handler

fun handler_do :: "handler_op \<Rightarrow> 'w dispatch_state_scheme \<Rightarrow> 'w dispatch_state_scheme" where
  "handler_do (HAdd x) w = (if hr_nextID w + 1 < counter_limit then snd (handler_add x w) else w)"
| "handler_do (HRemove h) w = RemoveHandler (Some h) w"

definition script_env :: "(nat \<Rightarrow> handler_op list \<times> go_error option) \<Rightarrow> (nat \<Rightarrow> handler_op list \<times> go_error option)
    \<Rightarrow> 'w dispatch_env" where
  "script_env callbacks listeners =
     \<lparr>de_now = 0,
      de_events = \<lambda>s ev w. (snd (listeners (sub_handler s)), fold handler_do (fst (listeners (sub_handler s))) w),
      de_callback = \<lambda>h st w. (snd (callbacks (h_Callback h)), fold handler_do (fst (callbacks (h_Callback h))) w),
      de_OnMessage = None, de_OnPresence = None, de_OnIQ = None, de_OnError = None\<rparr>"

lemma handler_do_evolves:
  assumes "handlers.registry_inv w"
  shows "reg_evolves w (handler_do op w)"
proof (cases op)
  case (HAdd x)
  show ?thesis
  proof (cases "hr_nextID w + 1 < counter_limit")
    case True
    have "handlers.registry_inv (snd (handler_add x w))" by (rule handlers.add_inv[OF assms True])
    moreover have "hr_nextID w < h_id (fst (handler_add x w))"
      using True handlers.ident_add[of x w] by simp
    ultimately show ?thesis
      using HAdd True handlers.items_add[of x w] handlers.last_id_add[of x w] by (auto simp: reg_evolves_def)
  qed (simp add: HAdd reg_evolves_refl assms)
qed (simp add: reg_evolves_remove assms)

lemma fold_reg_evolves:
  assumes "\<And>x w. handlers.registry_inv w \<Longrightarrow> reg_evolves w (f x w)"
  shows "handlers.registry_inv w \<Longrightarrow> reg_evolves w (fold f xs w)"
proof (induction xs arbitrary: w)
  case (Cons x xs)
  have "reg_evolves w (f x w)" by (rule assms) (rule Cons.prems)
  moreover from this have "reg_evolves (f x w) (fold f xs (f x w))" by (intro Cons.IH) (simp add: reg_evolves_def)
  ultimately show ?case using reg_evolves_trans by fastforce
qed (simp add: reg_evolves_refl)

lemma Off_registry [simp]: "hr_handlers (Off s w) = hr_handlers w" "hr_nextID (Off s w) = hr_nextID w"
  by (simp_all add: Off_def Let_def split: option.splits)

lemma de_now_script [simp]: "de_now (script_env callbacks listeners) = 0"
  by (simp add: script_env_def)

lemma script_events_evolve:
  assumes "handlers.registry_inv w"
  shows "reg_evolves w (emit_event (script_env callbacks listeners) name data w)"
proof -
  let ?run = "de_events (script_env callbacks listeners)"
  have turn: "reg_evolves w (emit_turn ?run ev i w)" if "handlers.registry_inv w" for ev i w
  proof -
    let ?w1 = "if sub_once i then Off (Some i) w else w"
    have e: "reg_evolves w ?w1" using that by (simp add: reg_evolves_def handlers.registry_inv_def)
    then have "reg_evolves ?w1 (fold handler_do ops ?w1)" for ops
      by (intro fold_reg_evolves handler_do_evolves) (auto simp: reg_evolves_def)
    then have "reg_evolves w (fold handler_do ops ?w1)" for ops using e reg_evolves_trans by blast
    then show ?thesis
      using e unfolding emit_turn_def script_env_def Let_def by simp
  qed
  obtain err sp w' where e: "Emit ?run 0 name data w = (err, sp, w')"
    by (rule prod_cases3)
  have "reg_evolves w (snd (snd (Emit ?run 0 name data w)))"
    unfolding Emit_bus by (rule fold_reg_evolves[OF turn assms])
  then have "reg_evolves w w'" by (simp add: e)
  then show ?thesis
    by (simp add: emit_event_def e reg_evolves_def handlers.registry_inv_def)
qed

interpretation scripted: dispatching "script_env callbacks listeners" for callbacks listeners
proof unfold_locales
  show "reg_evolves w (snd (de_callback (script_env callbacks listeners) h st w))" if "handlers.registry_inv w" for w h st
    using that by (simp add: script_env_def fold_reg_evolves handler_do_evolves)
  show "reg_evolves w (call_hook (de_OnError (script_env callbacks listeners)) e w)" if "handlers.registry_inv w" for w e
    using that by (simp add: script_env_def call_hook_def reg_evolves_refl)
qed (rule script_events_evolve)

subsection \<open>Properties\<close>

text \<open>C13: dispatching a stanza, whatever the callbacks and event listeners add to or remove from the
  registry meanwhile, gives each handler that accepts the stanza exactly one turn, in
  priority order with registration order among equals; the registry stays sorted with unique
  numbers, and no one-shot handler that had its turn is left.\<close>

theorem dispatch_turns:
  assumes "handlers.registry_inv w"
  shows "\<exists>hs. dispatch_loop (script_env callbacks listeners) st (hr_handlers w) w
            = fold (handler_turn (script_env callbacks listeners) st) hs w
      \<and> set hs = {h \<in> set (hr_handlers w). accepts st h} \<and> distinct (map h_id hs) \<and> sorted (map h_Priority hs)
      \<and> handlers.registry_inv (fold (handler_turn (script_env callbacks listeners) st) hs w)
      \<and> (\<forall>h\<in>set hs. h_Once h \<longrightarrow>
            h \<notin> set (hr_handlers (fold (handler_turn (script_env callbacks listeners) st) hs w)))"
proof -
  let ?hs = "filter (accepts st) (hr_handlers w)"
  have "distinct (map h_id ?hs)" "sorted (map h_Priority ?hs)" "\<forall>h\<in>set ?hs. h_id h \<le> hr_nextID w"
    using assms by (auto simp: handlers.registry_inv_def distinct_map_filter sorted_filter)
  then show ?thesis
    using dispatch_loop_fold scripted.turns_evolve[OF assms] scripted.turns_once[OF assms]
    by (intro exI[of _ ?hs]) (auto simp: reg_evolves_def)
qed

definition example_dispatch :: dispatch_state where
  "example_dispatch =
     snd (handler_add (''roster'', Some (MatchKind ''iq''), 1, \<lparr>ho_Priority = 0, ho_Once = True, ho_Async = False\<rparr>)
       \<lparr>bus_nextID = 0, bus_handlers = Map.empty, hr_nextID = 0, hr_handlers = [], ds_spawned = []\<rparr>)"

theorem dispatch_turns_witness:
  "handlers.registry_inv example_dispatch
   \<and> handlers.registry_inv (dispatch_loop (script_env (\<lambda>_. ([], None)) (\<lambda>_. ([], None))) (SIQ iq0)
       (hr_handlers example_dispatch) example_dispatch)"
proof -
  have inv: "handlers.registry_inv example_dispatch"
    unfolding example_dispatch_def
    by (rule handlers.add_inv) (simp_all add: handlers.registry_inv_def)
  show ?thesis using inv dispatch_turns[OF inv] by metis
qed

end
