(* ===== verification/Client.thy ===== *)
theory Client
  imports Connect Handlers Plugins
begin

text \<open>
  The running client, \<^verbatim>\<open>src/xmpp/client.go\<close>: correlating IQ requests with their answers
  (\<^verbatim>\<open>RequestIQ\<close> and the routing in \<^verbatim>\<open>readLoop\<close>), the read loop itself, and closing. Requests
  run in their own goroutines, so their beginnings and ends interleave with the read loop
  in any order: that is the step relation \<open>iq_step\<close>. Each request owns a channel with room
  for one answer.
\<close>

subsection \<open>Requests\<close>

record request =
  rq_ID :: string
  rq_chan :: nat
  rq_since :: nat

record iq_state =
  iqs_nextID :: nat
  iqs_pending :: "string \<Rightarrow> nat option"
  iqs_chan :: "nat \<Rightarrow> iq option"
  iqs_nextchan :: nat
  iqs_waiting :: "request list"
  iqs_returned :: "(request \<times> iq result) list"
  iqs_received :: "iq list"
  iqs_done :: bool

definition iq_state0 :: iq_state where
  "iq_state0 = \<lparr>iqs_nextID = 0, iqs_pending = Map.empty, iqs_chan = Map.empty, iqs_nextchan = 0,
     iqs_waiting = [], iqs_returned = [], iqs_received = [], iqs_done = False\<rparr>"

definition request_id :: "iq \<Rightarrow> iq_state \<Rightarrow> string \<times> iq_state" where
  "request_id request s =
     (let n = (iqs_nextID s + 1) mod 2 ^ 64 in
      if iq_ID request = [] then (''go-'' @ FormatNat 36 n, s\<lparr>iqs_nextID := n\<rparr>) else (iq_ID request, s))"

text \<open>
  \<^verbatim>\<open>RequestIQ\<close> up to the \<^verbatim>\<open>select\<close>: \<open>sent\<close> is the outcome of \<^verbatim>\<open>Send\<close>. A refused or unsent request
  returns at once and leaves nothing pending.
\<close>

definition RequestIQ_begin :: "iq \<Rightarrow> go_error option \<Rightarrow> iq_state \<Rightarrow> request result \<times> iq_state" where
  "RequestIQ_begin request sent s =
     (if iq_Type request \<noteq> IQGet \<and> iq_Type request \<noteq> IQSet
      then (Inl (Errf ''xmpp: IQ request must use type get or set''), s)
      else
        let (id', s1) = request_id request s
        in if iqs_pending s1 id' \<noteq> None
           then (Inl (Errorf ''xmpp: duplicate IQ id %q'' [id'] None), s1)
           else
             (case sent of
                Some e \<Rightarrow> (Inl e, s1\<lparr>iqs_nextchan := iqs_nextchan s1 + 1\<rparr>)
              | None \<Rightarrow>
                  let r = \<lparr>rq_ID = id', rq_chan = iqs_nextchan s1, rq_since = length (iqs_received s1)\<rparr>
                  in (Inr r, s1\<lparr>iqs_pending := (iqs_pending s1)(id' \<mapsto> iqs_nextchan s1),
                                iqs_nextchan := iqs_nextchan s1 + 1,
                                iqs_waiting := iqs_waiting s1 @ [r]\<rparr>)))"

text \<open>The routing part of the read loop: an answer goes to the pending channel unless it is full.\<close>

definition route_iq :: "iq \<Rightarrow> iq_state \<Rightarrow> iq_state" where
  "route_iq i s =
     (let s1 = s\<lparr>iqs_received := iqs_received s @ [i]\<rparr> in
      if iq_Type i = IQResult \<or> iq_Type i = IQError then
        (case iqs_pending s1 (iq_ID i) of
           None \<Rightarrow> s1
         | Some ch \<Rightarrow> if iqs_chan s1 ch = None then s1\<lparr>iqs_chan := (iqs_chan s1)(ch \<mapsto> i)\<rparr> else s1)
      else s1)"

text \<open>The end of \<^verbatim>\<open>RequestIQ\<close>: the deferred removal, and the value returned.\<close>

definition leave :: "request \<Rightarrow> iq result \<Rightarrow> iq_state \<Rightarrow> iq_state" where
  "leave r v s =
     s\<lparr>iqs_pending := (iqs_pending s)(rq_ID r := None),
       iqs_waiting := filter (\<lambda>x. x \<noteq> r) (iqs_waiting s),
       iqs_returned := iqs_returned s @ [(r, v)]\<rparr>"

definition response_value :: "iq \<Rightarrow> iq result" where
  "response_value response =
     (if iq_Type response = IQError then Inl (IQResponseErr response) else Inr response)"

definition timeout_value :: "request \<Rightarrow> sentinel \<Rightarrow> iq result" where
  "timeout_value r e =
     (if e = DeadlineExceeded then Inl (Errorf ''%w: %s'' [rq_ID r] (Some (Sentinel ErrIQTimeout)))
      else Inl (Sentinel e))"

inductive iq_step :: "iq_state \<Rightarrow> iq_state \<Rightarrow> bool" where
  start: "RequestIQ_begin request sent s = (v, s') \<Longrightarrow> iq_step s s'"
| receive: "iq_step s (route_iq i s)"
| answered: "r \<in> set (iqs_waiting s) \<Longrightarrow> iqs_chan s (rq_chan r) = Some response \<Longrightarrow>
    iq_step s (leave r (response_value response) s)"
| gave_up: "r \<in> set (iqs_waiting s) \<Longrightarrow> e \<in> {DeadlineExceeded, Canceled} \<Longrightarrow>
    iq_step s (leave r (timeout_value r e) s)"
| closed: "iq_step s (s\<lparr>iqs_done := True\<rparr>)"
| after_close: "r \<in> set (iqs_waiting s) \<Longrightarrow> iqs_done s \<Longrightarrow> iq_step s (leave r (Inl (Sentinel ErrClosed)) s)"

inductive iq_reachable :: "iq_state \<Rightarrow> bool" where
  initial: "iq_reachable iq_state0"
| step: "iq_reachable s \<Longrightarrow> iq_step s s' \<Longrightarrow> iq_reachable s'"

inductive_cases iq_stepE: "iq_step s s'"

text \<open>An answer to a request: same identifier, a final type, received after the request was made.\<close>

definition answers :: "iq_state \<Rightarrow> request \<Rightarrow> iq \<Rightarrow> bool" where
  "answers s r i \<longleftrightarrow> iq_ID i = rq_ID r \<and> (iq_Type i = IQResult \<or> iq_Type i = IQError)
     \<and> i \<in> set (drop (rq_since r) (iqs_received s))"

definition returned_ok :: "iq_state \<Rightarrow> request \<times> iq result \<Rightarrow> bool" where
  "returned_ok s rv \<longleftrightarrow>
     (case snd rv of
        Inr i \<Rightarrow> answers s (fst rv) i \<and> iq_Type i = IQResult
      | Inl (IQResponseErr i) \<Rightarrow> answers s (fst rv) i \<and> iq_Type i = IQError
      | Inl _ \<Rightarrow> True)"

definition iq_inv :: "iq_state \<Rightarrow> bool" where
  "iq_inv s \<longleftrightarrow>
     distinct (map rq_ID (iqs_waiting s)) \<and> distinct (map rq_chan (iqs_waiting s))
     \<and> iqs_pending s = map_of (map (\<lambda>r. (rq_ID r, rq_chan r)) (iqs_waiting s))
     \<and> (\<forall>r\<in>set (iqs_waiting s). rq_chan r < iqs_nextchan s \<and> rq_since r \<le> length (iqs_received s)
          \<and> (\<forall>i. iqs_chan s (rq_chan r) = Some i \<longrightarrow> answers s r i))
     \<and> (\<forall>ch\<ge>iqs_nextchan s. iqs_chan s ch = None)
     \<and> (\<forall>rv\<in>set (iqs_returned s). returned_ok s rv)"

lemma answers_mono: "answers s r i \<Longrightarrow> iqs_received s' = iqs_received s @ later \<Longrightarrow> answers s' r i"
  by (simp add: answers_def)

lemma returned_ok_mono: "returned_ok s rv \<Longrightarrow> iqs_received s' = iqs_received s @ later \<Longrightarrow> returned_ok s' rv"
  by (auto simp: returned_ok_def dest: answers_mono split: sum.splits go_error.splits)

lemma map_of_pending:
  assumes "iq_inv s" "r \<in> set (iqs_waiting s)"
  shows "iqs_pending s (rq_ID r) = Some (rq_chan r)"
proof -
  have "distinct (map fst (map (\<lambda>r. (rq_ID r, rq_chan r)) (iqs_waiting s)))"
    using assms(1) by (simp add: iq_inv_def comp_def)
  then show ?thesis using assms by (auto simp: iq_inv_def intro!: map_of_is_SomeI)
qed

lemma pending_waiting:
  assumes "iq_inv s" "iqs_pending s id' = Some ch"
  obtains r where "r \<in> set (iqs_waiting s)" "rq_ID r = id'" "rq_chan r = ch"
proof -
  have "(id', ch) \<in> set (map (\<lambda>r. (rq_ID r, rq_chan r)) (iqs_waiting s))"
    using assms by (intro map_of_SomeD) (simp add: iq_inv_def)
  then show thesis using that by auto
qed

lemma begin_inv:
  assumes inv: "iq_inv s" and b: "RequestIQ_begin request sent s = (v, s')"
  shows "iq_inv s'"
proof -
  obtain id' s1 where rid: "request_id request s = (id', s1)" by (cases "request_id request s")
  have "s1 = s \<or> (\<exists>n. s1 = s\<lparr>iqs_nextID := n\<rparr>)"
    using rid by (auto simp: request_id_def Let_def split: if_splits)
  then have inv1: "iq_inv s1"
    using inv returned_ok_mono[of s _ s1 "[]"] answers_mono[of s _ _ s1 "[]"] by (auto simp: iq_inv_def)
  consider "s' = s" | "s' = s1" | "s' = s1\<lparr>iqs_nextchan := iqs_nextchan s1 + 1\<rparr>"
    | r where "iqs_pending s1 id' = None"
      "r = \<lparr>rq_ID = id', rq_chan = iqs_nextchan s1, rq_since = length (iqs_received s1)\<rparr>"
      "s' = s1\<lparr>iqs_pending := (iqs_pending s1)(id' \<mapsto> iqs_nextchan s1), iqs_nextchan := iqs_nextchan s1 + 1,
               iqs_waiting := iqs_waiting s1 @ [r]\<rparr>"
    using b rid unfolding RequestIQ_begin_def Let_def by (auto split: if_splits option.splits)
  then show ?thesis
  proof cases
    case 3
    then show ?thesis
      using inv1 by (auto simp: iq_inv_def answers_def returned_ok_def less_SucI split: sum.splits go_error.splits)
  next
    case (4 r)
    have fresh: "id' \<notin> rq_ID ` set (iqs_waiting s1)"
      using map_of_pending[OF inv1] 4(1) by force
    have chans: "\<forall>x\<in>set (iqs_waiting s1). rq_chan x < iqs_nextchan s1" using inv1 by (simp add: iq_inv_def)
    have ch: "iqs_chan s1 (iqs_nextchan s1) = None" using inv1 by (simp add: iq_inv_def)
    have "map_of (map (\<lambda>r. (rq_ID r, rq_chan r)) (iqs_waiting s1 @ [r])) = (iqs_pending s1)(id' \<mapsto> iqs_nextchan s1)"
      using inv1 fresh 4(2) by (simp add: iq_inv_def map_add_upd_left dom_map_of_conv_image_fst image_image)
    moreover have "distinct (map rq_ID (iqs_waiting s1 @ [r]))" "distinct (map rq_chan (iqs_waiting s1 @ [r]))"
      using inv1 fresh chans 4(2) by (auto simp: iq_inv_def)
    moreover have "\<forall>x\<in>set (iqs_waiting s1 @ [r]). rq_chan x < iqs_nextchan s' \<and> rq_since x \<le> length (iqs_received s')
          \<and> (\<forall>i. iqs_chan s' (rq_chan x) = Some i \<longrightarrow> answers s' x i)"
      using inv1 ch 4(2,3) by (auto simp: iq_inv_def answers_def less_SucI)
    moreover have "\<forall>rv\<in>set (iqs_returned s'). returned_ok s' rv"
      using inv1 4(3) by (auto simp: iq_inv_def intro: returned_ok_mono[of s1 _ _ "[]"])
    ultimately show ?thesis using inv1 4(3) by (simp add: iq_inv_def)
  qed (use inv inv1 in auto)
qed

lemma route_inv:
  assumes inv: "iq_inv s"
  shows "iq_inv (route_iq i s)"
proof -
  let ?s1 = "s\<lparr>iqs_received := iqs_received s @ [i]\<rparr>"
  have inv1: "iq_inv ?s1"
    using inv answers_mono[of s _ _ ?s1 "[i]"] returned_ok_mono[of s _ ?s1 "[i]"]
    by (auto simp: iq_inv_def)
  show ?thesis
  proof (cases "(iq_Type i = IQResult \<or> iq_Type i = IQError) \<and>
      (\<exists>ch. iqs_pending s (iq_ID i) = Some ch \<and> iqs_chan s ch = None)")
    case True
    then obtain ch where ch: "iqs_pending s (iq_ID i) = Some ch" "iqs_chan s ch = None" by blast
    obtain r where r: "r \<in> set (iqs_waiting s)" "rq_ID r = iq_ID i" "rq_chan r = ch"
      using pending_waiting[OF inv ch(1)] by blast
    let ?s2 = "?s1\<lparr>iqs_chan := (iqs_chan s)(ch \<mapsto> i)\<rparr>"
    have route: "route_iq i s = ?s2" using True ch by (auto simp: route_iq_def)
    have "answers ?s2 r i" using r True inv by (auto simp: answers_def iq_inv_def)
    moreover have "x = r" if "x \<in> set (iqs_waiting s)" "rq_chan x = ch" for x
      using inv r that by (auto simp: iq_inv_def distinct_map dest: inj_onD)
    ultimately have "\<forall>x\<in>set (iqs_waiting s). \<forall>j. iqs_chan ?s2 (rq_chan x) = Some j \<longrightarrow> answers ?s2 x j"
      using inv1 by (auto simp: iq_inv_def answers_def)
    moreover have "ch < iqs_nextchan s" using inv r by (auto simp: iq_inv_def)
    moreover have "\<forall>rv\<in>set (iqs_returned s). returned_ok ?s2 rv"
      using inv1 by (auto simp: iq_inv_def intro: returned_ok_mono[of ?s1 _ _ "[]"])
    ultimately show ?thesis using inv1 by (simp add: route iq_inv_def)
  next
    case False
    then have "route_iq i s = ?s1" by (auto simp: route_iq_def Let_def split: option.splits)
    then show ?thesis using inv1 by simp
  qed
qed

lemma leave_inv:
  assumes inv: "iq_inv s" and r: "r \<in> set (iqs_waiting s)" and v: "returned_ok s (r, v)"
  shows "iq_inv (leave r v s)"
proof -
  let ?ws = "filter (\<lambda>x. x \<noteq> r) (iqs_waiting s)"
  have inj: "x = r" if "x \<in> set (iqs_waiting s)" "rq_ID x = rq_ID r" for x
    using inv r that by (auto simp: iq_inv_def distinct_map dest: inj_onD)
  have "map_of (map (\<lambda>r. (rq_ID r, rq_chan r)) ?ws) = (iqs_pending s)(rq_ID r := None)"
  proof
    fix k
    have "map_of (map (\<lambda>r. (rq_ID r, rq_chan r)) (filter P xs)) k
        = (if k = rq_ID r then None else map_of (map (\<lambda>r. (rq_ID r, rq_chan r)) xs) k)"
      if "\<And>x. x \<in> set xs \<Longrightarrow> P x \<longleftrightarrow> rq_ID x \<noteq> rq_ID r" for P xs
      using that by (induction xs) auto
    from this[of "iqs_waiting s" "\<lambda>x. x \<noteq> r"] inj
    show "map_of (map (\<lambda>r. (rq_ID r, rq_chan r)) ?ws) k = ((iqs_pending s)(rq_ID r := None)) k"
      using inv unfolding iq_inv_def by fastforce
  qed
  moreover have "\<forall>rv\<in>set (iqs_returned s @ [(r, v)]). returned_ok (leave r v s) rv"
    using inv v by (auto simp: iq_inv_def leave_def intro: returned_ok_mono[of s _ _ "[]"])
  ultimately show ?thesis
    using inv by (auto simp: iq_inv_def leave_def answers_def distinct_map_filter)
qed

lemma iq_step_inv:
  assumes inv: "iq_inv s" and "iq_step s s'"
  shows "iq_inv s'"
  using assms(2)
proof cases
  case (start request sent v)
  then show ?thesis using begin_inv[OF inv] by blast
next
  case (receive i)
  then show ?thesis using route_inv[OF inv] by simp
next
  case (answered r response)
  then have "answers s r response" using inv by (auto simp: iq_inv_def)
  then have "returned_ok s (r, response_value response)"
    by (auto simp: returned_ok_def response_value_def answers_def)
  then show ?thesis using leave_inv[OF inv] answered by simp
next
  case (gave_up r e)
  have "returned_ok s (r, timeout_value r e)" by (simp add: returned_ok_def timeout_value_def)
  then show ?thesis using leave_inv[OF inv] gave_up by simp
next
  case closed
  then show ?thesis
    using inv answers_mono[of s _ _ s' "[]"] returned_ok_mono[of s _ s' "[]"] by (auto simp: iq_inv_def)
next
  case (after_close r)
  have "returned_ok s (r, Inl (Sentinel ErrClosed))" by (simp add: returned_ok_def)
  then show ?thesis using leave_inv[OF inv] after_close by simp
qed

lemma iq_reachable_inv: "iq_reachable s \<Longrightarrow> iq_inv s"
proof (induction rule: iq_reachable.induct)
  case initial
  show ?case by (simp add: iq_inv_def iq_state0_def)
next
  case (step s s')
  then show ?case using iq_step_inv by blast
qed

subsection \<open>The read loop\<close>

datatype read_action =
    Report go_error
  | Deliver stanza
  | Element node

text \<open>
  The body of \<^verbatim>\<open>readLoop\<close> for one element: what it does, and whether it goes on. The text of
  a stream error is the printed element, which is left out of the message here.
\<close>

definition read_body :: "node \<Rightarrow> read_action \<times> bool" where
  "read_body n =
     (if Local (Name n) = ''error'' \<and> Space (Name n) = streamNS
      then (Report (Errf ''xmpp: stream error: %s''), False)
      else if Local (Name n) \<noteq> ''message'' \<and> Local (Name n) \<noteq> ''presence'' \<and> Local (Name n) \<noteq> ''iq''
      then (Element n, True)
      else case stanzaFromNode n of Inl e \<Rightarrow> (Report e, True) | Inr st \<Rightarrow> (Deliver st, True))"

definition read_end :: "go_error \<Rightarrow> read_action list" where
  "read_end e =
     (if \<not> err_is e ErrEOF \<and> \<not> err_is e ErrNetClosed \<and> \<not> err_is e ErrClosed then [Report e] else [])"

function readLoop :: "go_error \<Rightarrow> xtoken list \<Rightarrow> read_action list" where
  "readLoop fin ts =
     (case read_top fin ts of
        (Inl e, _) \<Rightarrow> read_end e
      | (Inr n, rest) \<Rightarrow>
          (let (act, go_on) = read_body n in act # (if go_on then readLoop fin rest else [])))"
  by pat_completeness auto

termination
proof (relation "measure (\<lambda>(fin, ts). length ts)")
  fix fin ts r rest n act x y and act' go_on
  assume "(r, rest) = read_top fin ts" "r = Inr n"
  then show "((fin, rest), (fin, ts)) \<in> measure (\<lambda>(fin, ts). length ts)"
    using read_top_consumes[of fin ts n rest] by simp
qed simp

declare readLoop.simps [simp del]

lemma read_top_marshal:
  assumes "normal n" "marshal n = Inr ts"
  shows "read_top fin (transmit (d # ds) ts @ rest) = (Inr (wire d n), rest)"
proof -
  obtain nm as ps where n: "n = Node nm as ps" by (cases n)
  obtain vs where vs: "marshal_parts ps = Inr vs"
    using assms marshal_parts_normal[of ps] by (auto simp: n)
  define d' where "d' = default_ns d (wire_attrs (Space nm) as)"
  let ?m = "Node (XName d' (Local nm)) (wire_attrs (Space nm) as) []"
  have "unmarshal fin ?m (transmit (d' # d # ds) vs @ EndElement (XName d' (Local nm)) # rest) = Inr (wire d n, rest)"
    using unmarshal_marshal(2)[OF vs, of fin ?m d' "d # ds"] assms(1)
      fold_add_part[of "[]" "map (wire_part d') ps"]
    by (simp add: n d'_def Let_def)
  moreover have "ts = StartElement nm as # vs @ [EndElement nm]"
    using assms vs by (auto simp: n split: if_splits)
  ultimately show ?thesis
    by (simp add: transmit_append(2)[OF vs] d'_def Let_def)
qed

text \<open>A stanza the library printed is the next element, and its body delivers it.\<close>

lemma read_stanza:
  assumes "sendable_stanza d s"
  obtains ts n where "StanzaXML s = Inr ts" and "read_body n = (Deliver (received d s), True)"
    and "\<And>fin rest. read_top fin (transmit [d] ts @ rest) = (Inr n, rest)"
    and "\<And>us. transmit [d] (ts @ us) = transmit [d] ts @ transmit [d] us"
proof -
  obtain ts where ts: "marshal (stanza_node s) = Inr ts"
    using marshal_normal[OF normal_stanza_node[OF assms]] by blast
  have "read_body (wire d (stanza_node s)) = (Deliver (received d s), True)"
    using stanzaFromNode_stanza_node[OF assms] by (cases s) (simp_all add: read_body_def stanza_tree_def)
  then show thesis
    using that[of ts] read_top_marshal[OF normal_stanza_node[OF assms] ts, of _ d "[]"] ts StanzaXML_node[OF assms]
      transmit_append(1)[OF ts] by simp
qed

lemma readLoop_stanza:
  assumes "sendable_stanza d s"
  obtains ts where "StanzaXML s = Inr ts"
    and "\<And>fin rest. readLoop fin (transmit [d] ts @ rest) = Deliver (received d s) # readLoop fin rest"
    and "\<And>us. transmit [d] (ts @ us) = transmit [d] ts @ transmit [d] us"
proof -
  obtain ts n where r: "StanzaXML s = Inr ts" "read_body n = (Deliver (received d s), True)"
      "\<And>fin rest. read_top fin (transmit [d] ts @ rest) = (Inr n, rest)"
      "\<And>us. transmit [d] (ts @ us) = transmit [d] ts @ transmit [d] us"
    using read_stanza[OF assms] by metis
  then have "readLoop fin (transmit [d] ts @ rest) = Deliver (received d s) # readLoop fin rest" for fin rest
    by (subst readLoop.simps) simp
  then show thesis using that r(1,4) by blast
qed

subsection \<open>Closing\<close>

text \<open>
  \<^verbatim>\<open>Close\<close> and \<^verbatim>\<open>finish\<close>: the lifecycle flags, and the events announced. A second \<^verbatim>\<open>Close\<close> only
  waits for the first; \<^verbatim>\<open>finish\<close> runs its body once, whoever calls it.
\<close>

record lifecycle =
  lc_closing :: bool
  lc_connected :: bool
  lc_conn :: bool
  lc_keepalive_stopped :: bool
  lc_cancelled :: bool
  lc_finished :: bool
  lc_events :: "(string \<times> go_error option) list"

definition finish :: "go_error option \<Rightarrow> lifecycle \<Rightarrow> lifecycle" where
  "finish reason l =
     (if lc_finished l then l
      else l\<lparr>lc_connected := False, lc_conn := False, lc_cancelled := True, lc_finished := True,
             lc_events := lc_events l @ [(''session_end'', reason), (''disconnected'', reason)]\<rparr>)"

definition Close :: "go_error option \<Rightarrow> go_error option \<Rightarrow> lifecycle \<Rightarrow> go_error option \<times> lifecycle" where
  "Close pluginErr connErr l =
     (if lc_closing l then (None, l)
      else
        let closeErr = (if lc_conn l then connErr else None);
            l1 = l\<lparr>lc_closing := True, lc_keepalive_stopped := True, lc_cancelled := True\<rparr>
        in (joinErrors [pluginErr, closeErr], finish closeErr l1))"

subsection \<open>Properties\<close>


definition example_iq_state :: iq_state where
  "example_iq_state = snd (RequestIQ_begin (iq0\<lparr>iq_ID := ''a'', iq_Type := IQGet\<rparr>) None iq_state0)"


text \<open>Stanzas written one after the other on a stream are delivered by the peer's read loop one
  for one and in order, each as the reader sees it, and then the loop ends with the
  transport's error, which is reported unless it is an orderly end.\<close>

theorem readLoop_delivers:
  assumes "\<forall>s\<in>set ss. sendable_stanza d s"
  shows "\<exists>tss. map_result StanzaXML ss = Inr tss
     \<and> readLoop fin (transmit [d] (concat tss)) = map (\<lambda>s. Deliver (received d s)) ss @ read_end fin"
  using assms
proof (induction ss)
  case Nil
  then show ?case by (simp add: readLoop.simps)
next
  case (Cons s ss)
  obtain tss where tss: "map_result StanzaXML ss = Inr tss"
      "readLoop fin (transmit [d] (concat tss)) = map (\<lambda>s. Deliver (received d s)) ss @ read_end fin"
    using Cons by auto
  obtain ts where "StanzaXML s = Inr ts"
      "\<And>fin rest. readLoop fin (transmit [d] ts @ rest) = Deliver (received d s) # readLoop fin rest"
      "\<And>us. transmit [d] (ts @ us) = transmit [d] ts @ transmit [d] us"
    using readLoop_stanza[of d s] Cons.prems by auto
  then show ?case using tss by simp
qed

theorem readLoop_delivers_witness:
  "\<exists>tss. map_result StanzaXML [SMessage example_message, SMessage example_message] = Inr tss
     \<and> readLoop (Sentinel ErrEOF) (transmit [clientNS] (concat tss))
       = [Deliver (received clientNS (SMessage example_message)), Deliver (received clientNS (SMessage example_message))]"
proof -
  have "\<forall>s\<in>set [SMessage example_message, SMessage example_message]. sendable_stanza clientNS s"
    by (simp add: example_message_def message0_def sendable_def NewNode_def)
  from readLoop_delivers[OF this, of "Sentinel ErrEOF"] show ?thesis by (simp add: read_end_def)
qed

end
