(* ===== verification/Api_Registry.thy ===== *)
theory Api_Registry
  imports Errors
begin

text \<open>
  The internal API registry of \<^verbatim>\<open>src/xmpp/api_registry.go\<close>: handlers keyed by category,
  operation, JID and node, and resolution from the most to the least specific key. The
  registry is an instance of the keyed store of the XML attributes.
\<close>

datatype api_key = ApiKey (ak_category: string) (ak_operation: string) (ak_jid: string) (ak_node: string)

record 'a api_call =
  call_Category :: string
  call_Operation :: string
  call_JID :: string
  call_Node :: string
  call_From :: string
  call_Args :: 'a

record api_registry =
  api_handlers :: "api_key \<Rightarrow> nat option"

definition NewAPIRegistry :: api_registry where
  "NewAPIRegistry = \<lparr>api_handlers = Map.empty\<rparr>"

definition api_put :: "api_key \<Rightarrow> nat \<Rightarrow> api_registry \<Rightarrow> api_registry" where
  "api_put k h r = r\<lparr>api_handlers := (api_handlers r)(k \<mapsto> h)\<rparr>"

definition Register :: "string \<Rightarrow> string \<Rightarrow> string \<Rightarrow> string \<Rightarrow> nat option \<Rightarrow> api_registry
    \<Rightarrow> go_error option \<times> api_registry" where
  "Register category operation j n h r =
     (if category = [] \<or> operation = [] \<or> h = None
      then (Some (Errf ''xmpp: category, operation, and handler are required''), r)
      else (None, api_put (ApiKey category operation j n) (the h) r))"

definition Unregister :: "string \<Rightarrow> string \<Rightarrow> string \<Rightarrow> string \<Rightarrow> api_registry \<Rightarrow> api_registry" where
  "Unregister category operation j n r =
     r\<lparr>api_handlers := (api_handlers r)(ApiKey category operation j n := None)\<rparr>"

definition Purge :: "string \<Rightarrow> api_registry \<Rightarrow> api_registry" where
  "Purge category r =
     r\<lparr>api_handlers := (\<lambda>k. if ak_category k = category then None else api_handlers r k)\<rparr>"

definition api_keys :: "'a api_call \<Rightarrow> api_key list" where
  "api_keys c =
     [ApiKey (call_Category c) (call_Operation c) (call_JID c) (call_Node c),
      ApiKey (call_Category c) (call_Operation c) (call_JID c) [],
      ApiKey (call_Category c) (call_Operation c) [] (call_Node c),
      ApiKey (call_Category c) (call_Operation c) [] []]"

definition resolve :: "'a api_call \<Rightarrow> api_registry \<Rightarrow> nat option" where
  "resolve c r = find_map (api_handlers r) (api_keys c)"

definition Run :: "(nat \<Rightarrow> 'a api_call \<Rightarrow> 'b result) \<Rightarrow> 'a api_call \<Rightarrow> api_registry \<Rightarrow> 'b result" where
  "Run run c r =
     (case resolve c r of
        None \<Rightarrow> Inl (Errorf ''xmpp: no API handler for %s.%s'' [call_Category c, call_Operation c] None)
      | Some h \<Rightarrow> run h c)"

text \<open>A proxy fixes the category.\<close>

definition Proxy_Register :: "string \<Rightarrow> string \<Rightarrow> string \<Rightarrow> string \<Rightarrow> nat option \<Rightarrow> api_registry
    \<Rightarrow> go_error option \<times> api_registry" where
  "Proxy_Register category operation j n h r = Register category operation j n h r"

definition Proxy_Run :: "string \<Rightarrow> (nat \<Rightarrow> 'a api_call \<Rightarrow> 'b result) \<Rightarrow> string \<Rightarrow> string \<Rightarrow> string \<Rightarrow> string \<Rightarrow> 'a
    \<Rightarrow> api_registry \<Rightarrow> 'b result" where
  "Proxy_Run category run operation j n from args r =
     Run run \<lparr>call_Category = category, call_Operation = operation, call_JID = j, call_Node = n,
              call_From = from, call_Args = args\<rparr> r"

interpretation api_store: attr_store api_put "\<lambda>k r. api_handlers r k"
  by unfold_locales (simp_all add: api_put_def)

definition covers :: "api_key \<Rightarrow> 'a api_call \<Rightarrow> bool" where
  "covers k c \<longleftrightarrow> ak_category k = call_Category c \<and> ak_operation k = call_Operation c
     \<and> ak_jid k \<in> {[], call_JID c} \<and> ak_node k \<in> {[], call_Node c}"

text \<open>How specific a key is: a JID counts more than a node.\<close>

definition specificity :: "api_key \<Rightarrow> nat" where
  "specificity k = (if ak_jid k \<noteq> [] then 2 else 0) + (if ak_node k \<noteq> [] then 1 else 0)"

lemma set_api_keys: "k \<in> set (api_keys c) \<longleftrightarrow> covers k c"
  by (cases k) (auto simp: api_keys_def covers_def)

text \<open>A call runs the most specific handler registered for it: among all registered keys of its
  category and operation whose JID and node are each either the call's or empty, the one with
  the JID before the one without, then the one with the node before the one without; it is
  refused exactly when there is none.\<close>

theorem Run_most_specific:
  "(resolve c r = None \<longleftrightarrow> (\<forall>k. covers k c \<longrightarrow> api_handlers r k = None))
   \<and> (\<forall>h. resolve c r = Some h \<longrightarrow>
        (\<exists>k. covers k c \<and> api_handlers r k = Some h
           \<and> (\<forall>k'. covers k' c \<longrightarrow> api_handlers r k' \<noteq> None \<longrightarrow> specificity k' \<le> specificity k)))"
proof (intro conjI allI impI)
  show "resolve c r = None \<longleftrightarrow> (\<forall>k. covers k c \<longrightarrow> api_handlers r k = None)"
    by (simp add: resolve_def find_map_None Ball_def set_api_keys)
next
  fix h
  define k1 k2 k3 k4 where
    "k1 = ApiKey (call_Category c) (call_Operation c) (call_JID c) (call_Node c)"
    and "k2 = ApiKey (call_Category c) (call_Operation c) (call_JID c) []"
    and "k3 = ApiKey (call_Category c) (call_Operation c) [] (call_Node c)"
    and "k4 = ApiKey (call_Category c) (call_Operation c) [] []"
  have keys: "api_keys c = [k1, k2, k3, k4]" by (simp add: api_keys_def k1_def k2_def k3_def k4_def)
  have cov: "covers k c \<longleftrightarrow> k \<in> {k1, k2, k3, k4}" for k using set_api_keys[of k c] by (simp add: keys)
  have le1: "specificity k \<le> specificity k1" if "k \<in> {k1, k2, k3, k4}" for k
    using that by (auto simp: specificity_def k1_def k2_def k3_def k4_def)
  have le2: "specificity k \<le> specificity k2 \<or> k = k1" if "k \<in> {k1, k2, k3, k4}" for k
    using that by (auto simp: specificity_def k1_def k2_def k3_def k4_def)
  have le4: "specificity k4 \<le> specificity k" for k by (simp add: specificity_def k4_def)
  assume "resolve c r = Some h"
  then consider "api_handlers r k1 = Some h" | "api_handlers r k1 = None" "api_handlers r k2 = Some h"
    | "api_handlers r k1 = None" "api_handlers r k2 = None" "api_handlers r k3 = Some h"
    | "api_handlers r k1 = None" "api_handlers r k2 = None" "api_handlers r k3 = None" "api_handlers r k4 = Some h"
    by (simp add: resolve_def keys split: option.splits)
  then obtain k where "k \<in> {k1, k2, k3, k4}" "api_handlers r k = Some h"
    and "\<forall>k'\<in>{k1, k2, k3, k4}. api_handlers r k' \<noteq> None \<longrightarrow> specificity k' \<le> specificity k"
  proof cases
    case 1
    then show ?thesis using that[of k1] le1 by blast
  next
    case 2
    then show ?thesis using that[of k2] le2 by (metis insertI1 insertI2)
  next
    case 3
    then show ?thesis using that[of k3] le4 by auto
  next
    case 4
    then show ?thesis using that[of k4] by auto
  qed
  then show "\<exists>k. covers k c \<and> api_handlers r k = Some h
      \<and> (\<forall>k'. covers k' c \<longrightarrow> api_handlers r k' \<noteq> None \<longrightarrow> specificity k' \<le> specificity k)"
    using cov by blast
qed

definition example_call :: "unit api_call" where
  "example_call = \<lparr>call_Category = ''c'', call_Operation = ''o'', call_JID = ''j'', call_Node = ''n'',
     call_From = [], call_Args = ()\<rparr>"

theorem Run_most_specific_witness:
  "resolve example_call (api_put (ApiKey ''c'' ''o'' [] ''n'') 1 NewAPIRegistry) \<noteq> None"
proof -
  let ?r = "api_put (ApiKey ''c'' ''o'' [] ''n'') 1 NewAPIRegistry"
  have "covers (ApiKey ''c'' ''o'' [] ''n'') example_call" "api_handlers ?r (ApiKey ''c'' ''o'' [] ''n'') \<noteq> None"
    by (simp_all add: covers_def example_call_def api_put_def)
  then show ?thesis using conjunct1[OF Run_most_specific[of example_call ?r]] by metis
qed

end
