(* ===== verification/Roster.thy ===== *)
theory Roster
  imports Stanza "HOL-Library.List_Lexorder" "HOL-Library.Char_ord"
begin

text \<open>
  The roster manager of \<^verbatim>\<open>src/xmpp/roster.go\<close>: its cache, the codec of roster queries, fetching,
  and roster pushes. The client's \<^verbatim>\<open>RequestIQ\<close> and \<^verbatim>\<open>Send\<close> are arguments (the answer of the
  server, the outcome of a write); \<open>err_text\<close> renders an error. The order in which the cache
  is enumerated is an argument of \<open>Items\<close>.
\<close>

abbreviation rosterNS :: string where "rosterNS \<equiv> ''jabber:iq:roster''"

record roster_item =
  ri_JID :: string
  ri_Name :: string
  ri_Subscription :: string
  ri_Ask :: string
  ri_Approved :: bool
  ri_Groups :: "string list"

record roster =
  ro_items :: "string \<Rightarrow> roster_item option"
  ro_version :: string

definition roster_item0 :: roster_item where
  "roster_item0 = \<lparr>ri_JID = [], ri_Name = [], ri_Subscription = [], ri_Ask = [], ri_Approved = False, ri_Groups = []\<rparr>"

definition roster0 :: roster where
  "roster0 = \<lparr>ro_items = Map.empty, ro_version = []\<rparr>"

subsection \<open>The codec\<close>

definition rosterItemNode :: "roster_item \<Rightarrow> node" where
  "rosterItemNode item =
     AddChildren (map (NewTextNode rosterNS ''group'') (ri_Groups item))
       (SetAttrIf ''subscription'' (ri_Subscription item)
         (SetAttrIf ''name'' (ri_Name item)
           (SetAttr ''jid'' (BareJIDString (ri_JID item)) (NewNode rosterNS ''item''))))"

definition parse_roster_item :: "node \<Rightarrow> roster_item result" where
  "parse_roster_item n =
     (let item = \<lparr>ri_JID = or_empty (AttrValue ''jid'' n), ri_Name = or_empty (AttrValue ''name'' n),
                  ri_Subscription = or_empty (AttrValue ''subscription'' n), ri_Ask = or_empty (AttrValue ''ask'' n),
                  ri_Approved = (case AttrValue ''approved'' n of None \<Rightarrow> False | Some v \<Rightarrow> v = ''true'' \<or> v = ''1''),
                  ri_Groups = map Text (filter (\<lambda>g. Local (Name g) = ''group'') (Children n))\<rparr>
      in if ri_JID item = [] then Inl (Errf ''xmpp: roster item missing jid'') else Inr item)"

definition parseRosterQuery :: "node \<Rightarrow> (roster_item list \<times> string) result" where
  "parseRosterQuery q =
     (if Space (Name q) \<noteq> rosterNS \<or> Local (Name q) \<noteq> ''query'' then Inl (Errf ''xmpp: invalid roster query'')
      else case map_result parse_roster_item (filter (\<lambda>n. Local (Name n) = ''item'') (Children q)) of
        Inl e \<Rightarrow> Inl e
      | Inr items \<Rightarrow> Inr (items, or_empty (AttrValue ''ver'' q)))"

subsection \<open>The cache\<close>

definition apply_item :: "roster_item \<Rightarrow> (string \<Rightarrow> roster_item option) \<Rightarrow> string \<Rightarrow> roster_item option" where
  "apply_item item items =
     (if ri_Subscription item = ''remove'' then items(BareJIDString (ri_JID item) := None)
      else items(BareJIDString (ri_JID item) \<mapsto> item))"

definition set_version :: "string \<Rightarrow> roster \<Rightarrow> roster" where
  "set_version ver r = (if ver \<noteq> [] then r\<lparr>ro_version := ver\<rparr> else r)"

definition Items :: "string list \<Rightarrow> roster \<Rightarrow> roster_item list" where
  "Items order r = sort_key ri_JID (List.map_filter (ro_items r) order)"

definition roster_query :: "string \<Rightarrow> node" where
  "roster_query version = SetAttrIf ''ver'' version (NewNode rosterNS ''query'')"

text \<open>\<^verbatim>\<open>Get\<close>: merges the answer into the cache; the returned list is \<open>Items\<close> of the new cache.\<close>

definition Get :: "(iq \<Rightarrow> iq result) \<Rightarrow> string \<Rightarrow> roster \<Rightarrow> unit result \<times> roster" where
  "Get request version r =
     (case request (iq0\<lparr>iq_Type := IQGet, iq_Payloads := [roster_query version]\<rparr>) of
        Inl e \<Rightarrow> (Inl e, r)
      | Inr response \<Rightarrow>
          (case IQ_Payload response of
             None \<Rightarrow> (Inl (Errf ''xmpp: missing roster query''), r)
           | Some payload \<Rightarrow>
               (case parseRosterQuery payload of
                  Inl e \<Rightarrow> (Inl e, r)
                | Inr (items, ver) \<Rightarrow>
                    (Inr (), set_version ver
                       (if items \<noteq> [] \<or> version = [] then r\<lparr>ro_items := fold apply_item items (ro_items r)\<rparr> else r)))))"

definition Set :: "(iq \<Rightarrow> iq result) \<Rightarrow> roster_item \<Rightarrow> go_error option" where
  "Set request item =
     (if ri_JID item = [] then Some (Errf ''xmpp: roster JID is required'')
      else case request (iq0\<lparr>iq_Type := IQSet,
             iq_Payloads := [AddChild (rosterItemNode item) (NewNode rosterNS ''query'')]\<rparr>) of
        Inl e \<Rightarrow> Some e
      | Inr _ \<Rightarrow> None)"

definition Remove :: "(iq \<Rightarrow> iq result) \<Rightarrow> string \<Rightarrow> go_error option" where
  "Remove request j = Set request (roster_item0\<lparr>ri_JID := BareJIDString j, ri_Subscription := ''remove''\<rparr>)"

definition Subscribe :: "string \<Rightarrow> string \<Rightarrow> presence" where
  "Subscribe j status = presence0\<lparr>prs_To := BareJIDString j, prs_Type := ''subscribe'', prs_Status := status\<rparr>"

definition Approve :: "string \<Rightarrow> presence" where
  "Approve j = presence0\<lparr>prs_To := BareJIDString j, prs_Type := ''subscribed''\<rparr>"

definition Unsubscribe :: "string \<Rightarrow> presence" where
  "Unsubscribe j = presence0\<lparr>prs_To := BareJIDString j, prs_Type := ''unsubscribe''\<rparr>"

definition Revoke :: "string \<Rightarrow> presence" where
  "Revoke j = presence0\<lparr>prs_To := BareJIDString j, prs_Type := ''unsubscribed''\<rparr>"

text \<open>
  A roster push: the reply sent, the new cache, and the error returned. The handler is only
  called on IQs with a roster payload somewhere, so a missing first payload (a nil
  dereference in the code) is the panic \<open>None\<close>.
\<close>

definition push_allowed :: "jid \<Rightarrow> string \<Rightarrow> bool" where
  "push_allowed own from \<longleftrightarrow> from = [] \<or> BareJIDString from = JID_Bare own \<or> from = jid_Domain own"

definition handlePush :: "(go_error \<Rightarrow> string) \<Rightarrow> (stanza \<Rightarrow> go_error option) \<Rightarrow> jid \<Rightarrow> iq \<Rightarrow> roster
    \<Rightarrow> (iq \<times> go_error option \<times> roster_item list \<times> roster) option" where
  "handlePush err_text send own q r =
     (case IQ_Payload q of
        None \<Rightarrow> None
      | Some payload \<Rightarrow>
          (case parseRosterQuery payload of
             Inl e \<Rightarrow>
               let reply = IQ_ErrorResult q (Some (stanza_error0\<lparr>se_Type := ''modify'', se_Condition := ''bad-request'',
                             se_Text := err_text e\<rparr>))
               in Some (reply, send (SIQ reply), [], r)
           | Inr (items, ver) \<Rightarrow>
               if \<not> push_allowed own (iq_From q) then
                 let reply = IQ_ErrorResult q (Some (stanza_error0\<lparr>se_Type := ''cancel'',
                               se_Condition := ''service-unavailable''\<rparr>))
                 in Some (reply, send (SIQ reply), [], r)
               else
                 let r' = set_version ver (r\<lparr>ro_items := fold apply_item items (ro_items r)\<rparr>);
                     reply = IQ_Result q []
                 in (case send (SIQ reply) of
                       Some e \<Rightarrow> Some (reply, Some e, [], r')
                     | None \<Rightarrow> Some (reply, None, items, r'))))"

subsection \<open>Lemmas\<close>

definition roster_inv :: "roster \<Rightarrow> bool" where
  "roster_inv r \<longleftrightarrow> (\<forall>k item. ro_items r k = Some item \<longrightarrow>
     k = BareJIDString (ri_JID item) \<and> ri_JID item \<noteq> [] \<and> ri_Subscription item \<noteq> ''remove'')"

lemma fold_apply_item_inv:
  "list_all (\<lambda>i. ri_JID i \<noteq> []) items \<Longrightarrow> roster_inv r \<Longrightarrow> roster_inv (r\<lparr>ro_items := fold apply_item items (ro_items r)\<rparr>)"
proof (induction items arbitrary: r)
  case (Cons i items)
  have "roster_inv (r\<lparr>ro_items := apply_item i (ro_items r)\<rparr>)"
    using Cons.prems by (auto simp: roster_inv_def apply_item_def split: if_splits)
  then show ?case using Cons.IH[of "r\<lparr>ro_items := apply_item i (ro_items r)\<rparr>"] Cons.prems by simp
qed (simp add: roster_inv_def)

lemma parseRosterQuery_jids:
  assumes "parseRosterQuery q = Inr (items, ver)"
  shows "list_all (\<lambda>i. ri_JID i \<noteq> []) items"
proof -
  have "\<forall>i\<in>set items. ri_JID i \<noteq> []"
    using assms by (intro map_result_all[of parse_roster_item "filter (\<lambda>n. Local (Name n) = ''item'') (Children q)"])
      (auto simp: parseRosterQuery_def parse_roster_item_def Let_def split: if_splits sum.splits)
  then show ?thesis by (simp add: list_all_iff)
qed

lemma set_version_inv: "roster_inv r \<Longrightarrow> roster_inv (set_version v r)"
  by (simp add: set_version_def roster_inv_def)

lemma fold_apply_untouched:
  "\<forall>i\<in>set items. BareJIDString (ri_JID i) \<noteq> k \<Longrightarrow> fold apply_item items m k = m k"
  by (induction items arbitrary: m) (auto simp: apply_item_def)

lemma parse_rosterItemNode:
  "ri_JID item \<noteq> [] \<Longrightarrow> BareJIDString (ri_JID item) \<noteq> [] \<Longrightarrow>
   parse_roster_item (rosterItemNode item) =
     Inr (item\<lparr>ri_JID := BareJIDString (ri_JID item), ri_Ask := [], ri_Approved := False\<rparr>)"
  by (simp add: parse_roster_item_def rosterItemNode_def Let_def AttrValue_SetAttrIf comp_def filter_map)

subsection \<open>Properties\<close>

text \<open>Fetching the roster and roster pushes keep the cache consistent: every entry is filed under
  the bare form of its own non-empty JID, and no entry marked for removal is kept.\<close>

theorem roster_cache_invariant:
  assumes "roster_inv r"
  shows "roster_inv (snd (Get request version r))
     \<and> (handlePush err_text send own q r = Some (reply, err, items, r') \<longrightarrow> roster_inv r')"
proof (intro conjI impI)
  show "roster_inv (snd (Get request version r))"
    using assms
    by (auto simp: Get_def split: sum.splits option.splits
        intro!: set_version_inv fold_apply_item_inv dest: parseRosterQuery_jids)
next
  assume "handlePush err_text send own q r = Some (reply, err, items, r')"
  then show "roster_inv r'"
    using assms
    by (auto simp: handlePush_def Let_def split: sum.splits option.splits if_splits
        intro!: set_version_inv fold_apply_item_inv dest: parseRosterQuery_jids)
qed

theorem roster_cache_invariant_witness:
  "roster_inv roster0 \<and> roster_inv (snd (Get (\<lambda>_. Inr (iq0\<lparr>iq_Payloads := [NewNode rosterNS ''query'']\<rparr>)) [] roster0))"
proof -
  have r: "roster_inv roster0" by (simp add: roster_inv_def roster0_def)
  show ?thesis
    using r conjunct1[OF roster_cache_invariant[OF r, of "\<lambda>_. Inr (iq0\<lparr>iq_Payloads := [NewNode rosterNS ''query'']\<rparr>)" "[]"]]
    by simp
qed

text \<open>C15: a roster push changes the cache only if it comes from the user's own account (any of its
  resources), from its server, or without a sender; any other sender is answered with an
  error, and so is a malformed push, and neither changes anything.\<close>

theorem push_only_from_own_account:
  assumes "handlePush err_text send own q r = Some (reply, err, items, r')"
    and "iq_From q \<noteq> [] \<and> BareJIDString (iq_From q) \<noteq> JID_Bare own \<and> iq_From q \<noteq> jid_Domain own
      \<or> (\<exists>p e. IQ_Payload q = Some p \<and> parseRosterQuery p = Inl e)"
  shows "r' = r \<and> items = [] \<and> iq_Type reply = IQError \<and> iq_ID reply = iq_ID q \<and> iq_To reply = iq_From q"
  using assms
  by (auto simp: handlePush_def push_allowed_def Let_def IQ_ErrorResult_def iq0_def split: sum.splits option.splits if_splits)

definition example_push :: iq where
  "example_push = iq0\<lparr>iq_ID := ''p1'', iq_Type := IQSet, iq_From := ''mallory@evil.example'',
     iq_Payloads := [AddChild (rosterItemNode (roster_item0\<lparr>ri_JID := ''mallory@evil.example''\<rparr>)) (NewNode rosterNS ''query'')]\<rparr>"

theorem push_only_from_own_account_witness:
  "\<exists>reply err. handlePush (\<lambda>_. []) (\<lambda>_. None) example_jid example_push roster0 = Some (reply, err, [], roster0)
     \<and> iq_Type reply = IQError"
proof -
  have na: "iq_From example_push \<noteq> [] \<and> BareJIDString (iq_From example_push) \<noteq> JID_Bare example_jid
      \<and> iq_From example_push \<noteq> jid_Domain example_jid"
    by (simp add: example_push_def example_jid_def JID_Bare_def)
  have p: "IQ_Payload example_push \<noteq> None" by (simp add: example_push_def IQ_Payload_def)
  then obtain reply err items r' where
    h: "handlePush (\<lambda>_. []) (\<lambda>_. None) example_jid example_push roster0 = Some (reply, err, items, r')"
    by (cases "handlePush (\<lambda>_. []) (\<lambda>_. None) example_jid example_push roster0")
       (auto simp: handlePush_def push_allowed_def Let_def na split: option.splits sum.splits if_splits)
  from push_only_from_own_account[OF h disjI1[OF na]] h show ?thesis by auto
qed

text \<open>A full fetch (without a version) only adds to the cache: an entry the server no longer lists
  stays, so the cache can disagree with the roster the server just sent.\<close>

theorem full_fetch_keeps_stale_items:
  assumes "request (iq0\<lparr>iq_Type := IQGet, iq_Payloads := [roster_query []]\<rparr>) = Inr response"
    and "IQ_Payload response = Some payload" "parseRosterQuery payload = Inr (items, ver)"
    and "\<forall>i\<in>set items. BareJIDString (ri_JID i) \<noteq> k"
  shows "ro_items (snd (Get request [] r)) k = ro_items r k"
  using assms by (simp add: Get_def set_version_def fold_apply_untouched)

theorem full_fetch_keeps_stale_items_witness:
  "ro_items (snd (Get (\<lambda>_. Inr (iq0\<lparr>iq_Payloads := [NewNode rosterNS ''query'']\<rparr>)) []
     (roster0\<lparr>ro_items := [''a@b'' \<mapsto> roster_item0\<lparr>ri_JID := ''a@b''\<rparr>]\<rparr>))) ''a@b''
   = Some (roster_item0\<lparr>ri_JID := ''a@b''\<rparr>)"
proof -
  let ?q = "NewNode rosterNS ''query''" and ?resp = "iq0\<lparr>iq_Payloads := [NewNode rosterNS ''query'']\<rparr>"
  have "IQ_Payload ?resp = Some ?q" "parseRosterQuery ?q = Inr ([], [])"
    by (simp_all add: IQ_Payload_def parseRosterQuery_def)
  from full_fetch_keeps_stale_items[OF refl this, of "''a@b''" "roster0\<lparr>ro_items := [''a@b'' \<mapsto> roster_item0\<lparr>ri_JID := ''a@b''\<rparr>]\<rparr>"]
  show ?thesis by simp
qed

end
