(* ===== verification/Codec.thy ===== *)
theory Codec
  imports Stanza
begin

text \<open>
  The interface of the payload codecs of \<^verbatim>\<open>src/xep\<close> and \<^verbatim>\<open>src/omemo\<close>: a value is
  written as a node by \<^verbatim>\<open>ToNode\<close> and read by \<^verbatim>\<open>Parse\<dots>\<close>. A provider shows that
  reading inverts writing on the tree, that the writer only builds well-formed
  namespaced trees, and that the reader does not look at the \<^verbatim>\<open>xmlns\<close> attributes Go's XML
  decoder leaves in a parsed tree. The interface then gives the round trip through the
  serialised form, inside any enclosing element or stanza.
\<close>

subsection \<open>Well-built trees\<close>

fun closed_node :: "node \<Rightarrow> bool" and closed_part :: "part \<Rightarrow> bool" where
  "closed_node (Node nm as ps) \<longleftrightarrow> Space nm \<noteq> [] \<and> list_all plain_attr as \<and> list_all closed_part ps"
| "closed_part (TextPart t) \<longleftrightarrow> True"
| "closed_part (ChildPart c) \<longleftrightarrow> closed_node c"

lemma closed_scoped: "closed_node n \<Longrightarrow> scoped d n" "closed_part p \<Longrightarrow> scoped_part d p"
  by (induction n and p arbitrary: d and d rule: closed_node_closed_part.induct) (auto simp: list_all_iff)

definition well_built :: "node \<Rightarrow> bool" where
  "well_built n \<longleftrightarrow> normal n \<and> closed_node n"

lemma plain_set_attr_list:
  "list_all plain_attr as \<Longrightarrow> k \<noteq> [] \<Longrightarrow> k \<noteq> ''xmlns'' \<Longrightarrow> list_all plain_attr (set_attr_list (XName [] k) v as)"
  by (induction as) (auto simp: plain_attr_def)

lemma closed_AddText: "closed_node n \<Longrightarrow> closed_node (AddText t n)"
proof (cases n)
  case (Node nm as ps)
  assume "closed_node n"
  then show ?thesis using Node by (cases ps rule: rev_cases) (auto split: part.splits)
qed

lemma well_built_NewNode [inv_intros]: "ns \<noteq> [] \<Longrightarrow> l \<noteq> [] \<Longrightarrow> well_built (NewNode ns l)"
  by (simp add: well_built_def NewNode_def)

lemma well_built_AddText [inv_intros]: "well_built n \<Longrightarrow> well_built (AddText t n)"
  by (simp add: well_built_def normal_AddText closed_AddText)

lemma well_built_NewTextNode [inv_intros]: "ns \<noteq> [] \<Longrightarrow> l \<noteq> [] \<Longrightarrow> well_built (NewTextNode ns l t)"
  by (simp add: NewTextNode_def well_built_AddText well_built_NewNode)

lemma well_built_AddChild [inv_intros]: "well_built n \<Longrightarrow> well_built c \<Longrightarrow> well_built (AddChild c n)"
  by (cases n) (auto simp: well_built_def AddChild_def)

lemma well_built_SetAttr [inv_intros]:
  "well_built n \<Longrightarrow> k \<noteq> [] \<Longrightarrow> k \<noteq> ''xmlns'' \<Longrightarrow> well_built (SetAttr k v n)"
  by (cases n) (auto simp: well_built_def SetAttr_def SetAttrNS_def intro: plain_set_attr_list)

lemma well_built_cond [inv_intros]:
  "well_built n \<Longrightarrow> k \<noteq> [] \<Longrightarrow> k \<noteq> ''xmlns'' \<Longrightarrow> well_built (SetAttrIf k v n)"
  "well_built n \<Longrightarrow> k \<noteq> [] \<Longrightarrow> k \<noteq> ''xmlns'' \<Longrightarrow> well_built (SetAttrOpt k w n)"
  "well_built n \<Longrightarrow> (b \<Longrightarrow> well_built c) \<Longrightarrow> well_built (AddChildIf b c n)"
  by (auto simp: SetAttrIf_def SetAttrOpt_def AddChildIf_def intro: inv_intros split: option.splits)

lemma well_built_AddChildren [inv_intros]:
  "well_built n \<Longrightarrow> (\<And>c. c \<in> set cs \<Longrightarrow> well_built c) \<Longrightarrow> well_built (AddChildren cs n)"
  unfolding AddChildren_def by (induction cs arbitrary: n) (auto intro: inv_intros)

subsection \<open>What a reader sees of a parsed tree\<close>

text \<open>\<open>strip_xmlns\<close> removes the namespace declarations; nothing a reader looks at changes.\<close>

lemma Name_strip [simp]: "Name (strip_xmlns n) = Name n"
  by (cases n) simp

lemma named_strip [simp]: "named ns l (strip_xmlns n) = named ns l n"
  by (simp add: named_def)

lemma Text_strip [simp]: "Text (strip_xmlns n) = Text n"
proof -
  have "part_text (strip_part p) = part_text p" for p by (cases p) auto
  then show ?thesis by (cases n) (simp add: Text_def comp_def)
qed

lemma Children_strip [simp]: "Children (strip_xmlns n) = map strip_xmlns (Children n)"
proof -
  have "part_children (strip_part p) = map strip_xmlns (part_children p)" for p by (cases p) auto
  then show ?thesis by (cases n) (simp add: Children_def comp_def map_concat)
qed

lemma get_attr_list_filter:
  "k \<noteq> XName [] ''xmlns'' \<Longrightarrow>
   get_attr_list k (filter (\<lambda>a. AName a \<noteq> XName [] ''xmlns'') as) = get_attr_list k as"
  by (induction as) auto

lemma AttrValue_strip [simp]: "k \<noteq> ''xmlns'' \<Longrightarrow> AttrValue k (strip_xmlns n) = AttrValue k n"
  by (cases n) (simp add: AttrValue_def AttrValueNS_def get_attr_list_filter)

lemma Child_strip [simp]: "Child ns l (strip_xmlns n) = map_option strip_xmlns (Child ns l n)"
proof -
  have "find P (map strip_xmlns cs) = map_option strip_xmlns (find (P \<circ> strip_xmlns) cs)" for P cs
    by (induction cs) auto
  then show ?thesis by (simp add: Child_eq_find comp_def)
qed

lemma ChildText_strip [simp]: "ChildText ns l (strip_xmlns n) = ChildText ns l n"
  by (simp add: ChildText_def split: option.splits)

lemma foldl_strip: "(\<And>x c. f x (strip_xmlns c) = f x c) \<Longrightarrow> foldl f x (map strip_xmlns cs) = foldl f x cs"
  by (induction cs arbitrary: x) auto

lemma fold_result_strip:
  "(\<And>x c. f x (strip_xmlns c) = f x c) \<Longrightarrow> fold_result f x (map strip_xmlns cs) = fold_result f x cs"
  by (induction cs arbitrary: x) (auto split: sum.splits)

lemma map_result_strip: "(\<And>c. f (strip_xmlns c) = f c) \<Longrightarrow> map_result f (map strip_xmlns cs) = map_result f cs"
  by (induction cs) (auto split: sum.splits)

lemma filter_strip: "(\<And>c. p (strip_xmlns c) = p c) \<Longrightarrow> filter p (map strip_xmlns cs) = map strip_xmlns (filter p cs)"
  by (induction cs) auto

lemma map_strip: "(\<And>c. f (strip_xmlns c) = f c) \<Longrightarrow> map f (map strip_xmlns cs) = map f cs"
  by simp

lemmas strip_loops = foldl_strip fold_result_strip map_result_strip filter_strip

subsection \<open>The interface\<close>

text \<open>\<open>through_xml\<close> is what arrives from a tree written inside an element whose default namespace
  is \<open>d\<close> (the whole document when \<open>d\<close> is empty).\<close>

definition through_xml :: "string \<Rightarrow> node \<Rightarrow> node result" where
  "through_xml d n = (case marshal n of Inl e \<Rightarrow> Inl e | Inr ts \<Rightarrow> ParseNode (Sentinel ErrEOF) (transmit [d] ts))"

lemma through_xml_normal: "normal n \<Longrightarrow> through_xml d n = Inr (wire d n)"
  using marshal_normal[of n] by (auto simp: through_xml_def ParseNode_marshal)

definition via_xml :: "string \<Rightarrow> (node \<Rightarrow> 'a result) \<Rightarrow> node \<Rightarrow> 'a result" where
  "via_xml d decode n = (case through_xml d n of Inl e \<Rightarrow> Inl e | Inr m \<Rightarrow> decode m)"

locale payload_codec =
  fixes encode :: "'a \<Rightarrow> node"
    and decode :: "node \<Rightarrow> 'a result"
    and valid :: "'a \<Rightarrow> bool"
  assumes decode_encode: "valid v \<Longrightarrow> decode (encode v) = Inr v"
    and encode_built: "well_built (encode v)"
    and decode_blind: "decode (strip_xmlns n) = decode n"
begin

lemma encode_inj: "valid v \<Longrightarrow> valid w \<Longrightarrow> encode v = encode w \<Longrightarrow> v = w"
  by (metis decode_encode Inr_inject)

lemma decode_wire:
  assumes "valid v"
  shows "decode (wire d (encode v)) = Inr v"
proof -
  have "scoped d (encode v)" using encode_built well_built_def closed_scoped(1) by blast
  then have "strip_xmlns (wire d (encode v)) = encode v" by (rule strip_wire(1))
  then show ?thesis using decode_blind[of "wire d (encode v)"] decode_encode[OF assms] by simp
qed

lemma xml_roundtrip: "valid v \<Longrightarrow> via_xml d decode (encode v) = Inr v"
  using encode_built[of v] by (simp add: via_xml_def through_xml_normal decode_wire well_built_def)

lemma decode_wire_list:
  "list_all valid vs \<Longrightarrow> map_result decode (map (\<lambda>v. wire d (encode v)) vs) = Inr vs"
  by (induction vs) (simp_all add: decode_wire)

lemma decode_list: "list_all valid vs \<Longrightarrow> map_result decode (map encode vs) = Inr vs"
  by (induction vs) (simp_all add: decode_encode)

end

end
