(* ===== verification/Rsm.thy ===== *)
theory Rsm
  imports Codec
begin

text \<open>
  Result set management: \<^verbatim>\<open>src/xep/rsm.go\<close>. The optional integers (\<^verbatim>\<open>*int\<close>) are
  options of 64-bit integers. The codec is an instance of the payload interface.
\<close>

abbreviation RSMNS :: string where "RSMNS \<equiv> ''http://jabber.org/protocol/rsm''"

record rsm =
  rsm_After :: string
  rsm_Before :: string
  rsm_First :: string
  rsm_Last :: string
  rsm_BeforeSet :: bool
  rsm_FirstIndex :: "int option"
  rsm_Max :: "int option"
  rsm_Count :: "int option"
  rsm_Index :: "int option"

definition rsm0 :: rsm where
  "rsm0 = \<lparr>rsm_After = [], rsm_Before = [], rsm_First = [], rsm_Last = [], rsm_BeforeSet = False,
     rsm_FirstIndex = None, rsm_Max = None, rsm_Count = None, rsm_Index = None\<rparr>"

definition int_children :: "string \<Rightarrow> string \<Rightarrow> int option \<Rightarrow> node list" where
  "int_children ns local v = (case v of None \<Rightarrow> [] | Some i \<Rightarrow> [NewTextNode ns local (Itoa i)])"

definition RSM_ToNode :: "rsm \<Rightarrow> node" where
  "RSM_ToNode n =
     AddChildren (int_children RSMNS ''count'' (rsm_Count n))
       (AddChildIf (rsm_Last n \<noteq> []) (NewTextNode RSMNS ''last'' (rsm_Last n))
       (AddChildIf (rsm_First n \<noteq> [] \<or> rsm_FirstIndex n \<noteq> None)
          (SetAttrOpt ''index'' (map_option Itoa (rsm_FirstIndex n)) (NewTextNode RSMNS ''first'' (rsm_First n)))
       (AddChildren (int_children RSMNS ''index'' (rsm_Index n))
       (AddChildIf (rsm_BeforeSet n) (NewTextNode RSMNS ''before'' (rsm_Before n))
       (AddChildIf (rsm_After n \<noteq> []) (NewTextNode RSMNS ''after'' (rsm_After n))
       (AddChildren (int_children RSMNS ''max'' (rsm_Max n)) (NewNode RSMNS ''set'')))))))"

text \<open>The closure \<^verbatim>\<open>parseInt\<close> and the direct calls of \<^verbatim>\<open>strconv.Atoi\<close>.\<close>

definition parse_int :: "string \<Rightarrow> int result" where
  "parse_int s = (case Atoi s of (v, None) \<Rightarrow> Inr v | (_, Some e) \<Rightarrow> Inl (NumError e s))"

definition rsm_child :: "rsm \<Rightarrow> node \<Rightarrow> rsm result" where
  "rsm_child r c =
     (if Local (Name c) = ''after'' then Inr (r\<lparr>rsm_After := Text c\<rparr>)
      else if Local (Name c) = ''before'' then Inr (r\<lparr>rsm_BeforeSet := True, rsm_Before := Text c\<rparr>)
      else if Local (Name c) = ''first'' then
        (case AttrValue ''index'' c of
           None \<Rightarrow> Inr (r\<lparr>rsm_First := Text c\<rparr>)
         | Some x \<Rightarrow> (case parse_int x of Inl e \<Rightarrow> Inl e
                     | Inr v \<Rightarrow> Inr (r\<lparr>rsm_First := Text c, rsm_FirstIndex := Some v\<rparr>)))
      else if Local (Name c) = ''last'' then Inr (r\<lparr>rsm_Last := Text c\<rparr>)
      else if Local (Name c) = ''max'' then
        (case parse_int (Text c) of Inl e \<Rightarrow> Inl e | Inr v \<Rightarrow> Inr (r\<lparr>rsm_Max := Some v\<rparr>))
      else if Local (Name c) = ''count'' then
        (case parse_int (Text c) of Inl e \<Rightarrow> Inl e | Inr v \<Rightarrow> Inr (r\<lparr>rsm_Count := Some v\<rparr>))
      else if Local (Name c) = ''index'' then
        (case parse_int (Text c) of Inl e \<Rightarrow> Inl e | Inr v \<Rightarrow> Inr (r\<lparr>rsm_Index := Some v\<rparr>))
      else Inr r)"

definition ParseRSM :: "node \<Rightarrow> rsm result" where
  "ParseRSM n =
     (if Local (Name n) \<noteq> ''set'' \<or> Space (Name n) \<noteq> RSMNS then Inl (Errorf ''xep: expected {%s}set'' [RSMNS] None)
      else fold_result rsm_child rsm0 (Children n))"

subsection \<open>The codec\<close>

definition int64_opt :: "int option \<Rightarrow> bool" where
  "int64_opt v = pred_option int64 v"

text \<open>The writer drops a \<^verbatim>\<open>Before\<close> that is not flagged by \<^verbatim>\<open>BeforeSet\<close>; every other value is kept.\<close>

definition rsm_valid :: "rsm \<Rightarrow> bool" where
  "rsm_valid r \<longleftrightarrow> (rsm_BeforeSet r \<or> rsm_Before r = [])
     \<and> int64_opt (rsm_FirstIndex r) \<and> int64_opt (rsm_Max r) \<and> int64_opt (rsm_Count r) \<and> int64_opt (rsm_Index r)"

lemma parse_int_Itoa [simp]: "int64 i \<Longrightarrow> parse_int (Itoa i) = Inr i"
  by (simp add: parse_int_def Atoi_Itoa)

lemma parse_int_int64: "parse_int s = Inr v \<Longrightarrow> int64 v"
  using Atoi_int64[of s] by (auto simp: parse_int_def split: prod.splits option.splits)

lemma well_built_int_children: "ns \<noteq> [] \<Longrightarrow> l \<noteq> [] \<Longrightarrow> c \<in> set (int_children ns l v) \<Longrightarrow> well_built c"
  by (auto simp: int_children_def intro: inv_intros split: option.splits)

lemma rsm_child_int:
  "int64_opt v \<Longrightarrow> rsm_Max r = None \<Longrightarrow> fold_result rsm_child r (int_children RSMNS ''max'' v) = Inr (r\<lparr>rsm_Max := v\<rparr>)"
  "int64_opt v \<Longrightarrow> rsm_Count r = None \<Longrightarrow> fold_result rsm_child r (int_children RSMNS ''count'' v) = Inr (r\<lparr>rsm_Count := v\<rparr>)"
  "int64_opt v \<Longrightarrow> rsm_Index r = None \<Longrightarrow> fold_result rsm_child r (int_children RSMNS ''index'' v) = Inr (r\<lparr>rsm_Index := v\<rparr>)"
  by (cases v; simp add: int_children_def rsm_child_def int64_opt_def)+

lemma rsm_child_first:
  "int64_opt i \<Longrightarrow> rsm_First r = [] \<Longrightarrow> rsm_FirstIndex r = None \<Longrightarrow>
   fold_result rsm_child r (if f \<noteq> [] \<or> i \<noteq> None then [SetAttrOpt ''index'' (map_option Itoa i) (NewTextNode RSMNS ''first'' f)] else [])
   = Inr (r\<lparr>rsm_First := f, rsm_FirstIndex := i\<rparr>)"
  by (cases i) (simp_all add: rsm_child_def int64_opt_def)

lemma rsm_child_text:
  "rsm_After r = [] \<Longrightarrow> fold_result rsm_child r (if v \<noteq> [] then [NewTextNode RSMNS ''after'' v] else []) = Inr (r\<lparr>rsm_After := v\<rparr>)"
  "rsm_Last r = [] \<Longrightarrow> fold_result rsm_child r (if v \<noteq> [] then [NewTextNode RSMNS ''last'' v] else []) = Inr (r\<lparr>rsm_Last := v\<rparr>)"
  "rsm_Before r = [] \<Longrightarrow> \<not> rsm_BeforeSet r \<Longrightarrow> b \<or> v = [] \<Longrightarrow>
   fold_result rsm_child r (if b then [NewTextNode RSMNS ''before'' v] else []) = Inr (r\<lparr>rsm_Before := v, rsm_BeforeSet := b\<rparr>)"
  by (cases r; auto simp: rsm_child_def)+

lemma ParseRSM_ToNode: "rsm_valid r \<Longrightarrow> ParseRSM (RSM_ToNode r) = Inr r"
  unfolding ParseRSM_def RSM_ToNode_def Children_cond_builders Children_builders fold_result_append rsm_valid_def
  by (simp add: fold_result_append rsm_child_int rsm_child_first rsm_child_text rsm0_def del: fold_result.simps(2) not_None_eq disj_not1 split del: if_split)

lemma rsm_child_blind: "rsm_child r (strip_xmlns c) = rsm_child r c"
  by (simp add: rsm_child_def split: option.splits sum.splits)

lemma ParseRSM_blind: "ParseRSM (strip_xmlns n) = ParseRSM n"
  by (simp add: ParseRSM_def strip_loops rsm_child_blind)

lemma RSM_ToNode_built: "well_built (RSM_ToNode r)"
  unfolding RSM_ToNode_def by (intro inv_intros) (auto intro: well_built_int_children)

interpretation rsm_codec: payload_codec RSM_ToNode ParseRSM rsm_valid
  by unfold_locales (simp_all add: ParseRSM_ToNode RSM_ToNode_built ParseRSM_blind)

text \<open>Whatever is read is a value the writer keeps.\<close>

lemma rsm_child_valid: "rsm_valid r \<Longrightarrow> rsm_child r c = Inr r' \<Longrightarrow> rsm_valid r'"
  unfolding rsm_child_def rsm_valid_def int64_opt_def
  by (auto simp: parse_int_int64 split: if_splits sum.splits option.splits)

lemma ParseRSM_valid:
  assumes "ParseRSM n = Inr r"
  shows "rsm_valid r"
proof -
  have "fold_result rsm_child rsm0 (Children n) = Inr r" using assms by (simp add: ParseRSM_def split: if_splits)
  then show ?thesis
    by (rule fold_result_invariant) (simp add: rsm0_def rsm_valid_def int64_opt_def, rule rsm_child_valid)
qed

end
