(* ===== verification/Forms.thy ===== *)
theory Forms
  imports Rsm
begin

text \<open>
  Data forms with validation rules and media elements: \<^verbatim>\<open>src/xep/forms.go\<close>. The codec is
  an instance of the payload interface; \<^verbatim>\<open>Set\<close> and \<^verbatim>\<open>Field\<close> are an instance of the keyed
  store; \<^verbatim>\<open>Validate\<close> is compared with a declarative reading of the rules. Compiling a
  regular expression (\<^verbatim>\<open>regexp.Compile\<close>) is an argument.
\<close>

abbreviation DataFormsNS :: string where "DataFormsNS \<equiv> ''jabber:x:data''"
abbreviation DataValidationNS :: string where "DataValidationNS \<equiv> ''http://jabber.org/protocol/xdata-validate''"
abbreviation DataMediaNS :: string where "DataMediaNS \<equiv> ''urn:xmpp:media-element''"

subsection \<open>Data\<close>

datatype form_option = FormOption (opt_Label: string) (opt_Value: string)

datatype uri = URI (uri_Type: string) (uri_Value: string)

record media =
  med_Height :: int
  med_Width :: int
  med_URIs :: "uri list"

abbreviation ValidationBasic :: string where "ValidationBasic \<equiv> ''basic''"
abbreviation ValidationOpen :: string where "ValidationOpen \<equiv> ''open''"
abbreviation ValidationRange :: string where "ValidationRange \<equiv> ''range''"
abbreviation ValidationRegex :: string where "ValidationRegex \<equiv> ''regex''"

record validation =
  val_Datatype :: string
  val_Regex :: string
  val_Min :: string
  val_Max :: string
  val_Method :: string
  val_ListMin :: "int option"
  val_ListMax :: "int option"

record field =
  fld_Var :: string
  fld_Label :: string
  fld_Desc :: string
  fld_Type :: string
  fld_Required :: bool
  fld_Values :: "string list"
  fld_Options :: "form_option list"
  fld_Validation :: "validation option"
  fld_Media :: "media option"

record form =
  frm_Type :: string
  frm_Title :: string
  frm_Instructions :: "string list"
  frm_Fields :: "field list"
  frm_Reported :: "field list option"
  frm_Items :: "field list list"

definition validation0 :: validation where
  "validation0 = \<lparr>val_Datatype = [], val_Regex = [], val_Min = [], val_Max = [], val_Method = [],
     val_ListMin = None, val_ListMax = None\<rparr>"

definition media0 :: media where
  "media0 = \<lparr>med_Height = 0, med_Width = 0, med_URIs = []\<rparr>"

definition field0 :: field where
  "field0 = \<lparr>fld_Var = [], fld_Label = [], fld_Desc = [], fld_Type = [], fld_Required = False,
     fld_Values = [], fld_Options = [], fld_Validation = None, fld_Media = None\<rparr>"

definition form0 :: form where
  "form0 = \<lparr>frm_Type = [], frm_Title = [], frm_Instructions = [], frm_Fields = [], frm_Reported = None, frm_Items = []\<rparr>"

subsection \<open>Field access\<close>

definition Form_Field :: "string \<Rightarrow> form \<Rightarrow> field option" where
  "Form_Field name f = find (\<lambda>x. fld_Var x = name) (frm_Fields f)"

fun set_field :: "string \<Rightarrow> string list \<Rightarrow> field list \<Rightarrow> field list" where
  "set_field name values [] = [field0\<lparr>fld_Var := name, fld_Type := ''text-single'', fld_Values := values\<rparr>]"
| "set_field name values (x # xs) =
     (if fld_Var x = name then x\<lparr>fld_Values := values\<rparr> # xs else x # set_field name values xs)"

definition Form_Set :: "string \<Rightarrow> string list \<Rightarrow> form \<Rightarrow> form" where
  "Form_Set name values f = f\<lparr>frm_Fields := set_field name values (frm_Fields f)\<rparr>"

subsection \<open>Writing\<close>

definition validationToNode :: "validation \<Rightarrow> node" where
  "validationToNode v =
     (let n = SetAttrIf ''datatype'' (val_Datatype v) (NewNode DataValidationNS ''validate'');
          mode = (if val_Method v = [] then ValidationBasic else val_Method v);
          n1 = (if mode = ValidationBasic then AddChild (NewNode DataValidationNS ''basic'') n
                else if mode = ValidationOpen then AddChild (NewNode DataValidationNS ''open'') n
                else if mode = ValidationRange then
                  AddChild (SetAttrIf ''max'' (val_Max v) (SetAttrIf ''min'' (val_Min v) (NewNode DataValidationNS ''range''))) n
                else if mode = ValidationRegex then AddChild (NewTextNode DataValidationNS ''regex'' (val_Regex v)) n
                else n)
      in AddChildIf (val_ListMin v \<noteq> None \<or> val_ListMax v \<noteq> None)
           (SetAttrOpt ''max'' (map_option Itoa (val_ListMax v))
             (SetAttrOpt ''min'' (map_option Itoa (val_ListMin v)) (NewNode DataValidationNS ''list-range''))) n1)"

definition uriToNode :: "uri \<Rightarrow> node" where
  "uriToNode u = SetAttrIf ''type'' (uri_Type u) (NewTextNode DataMediaNS ''uri'' (uri_Value u))"

definition mediaToNode :: "media \<Rightarrow> node" where
  "mediaToNode m =
     AddChildren (map uriToNode (med_URIs m))
       (SetAttrOpt ''width'' (if med_Width m > 0 then Some (Itoa (med_Width m)) else None)
         (SetAttrOpt ''height'' (if med_Height m > 0 then Some (Itoa (med_Height m)) else None)
           (NewNode DataMediaNS ''media'')))"

definition optionToNode :: "form_option \<Rightarrow> node" where
  "optionToNode opt =
     AddChild (NewTextNode DataFormsNS ''value'' (opt_Value opt))
       (SetAttrIf ''label'' (opt_Label opt) (NewNode DataFormsNS ''option''))"

definition opt_children :: "('a \<Rightarrow> node) \<Rightarrow> 'a option \<Rightarrow> node list" where
  "opt_children f v = (case v of None \<Rightarrow> [] | Some x \<Rightarrow> [f x])"

definition fieldToNode :: "field \<Rightarrow> node" where
  "fieldToNode f =
     AddChildren (opt_children mediaToNode (fld_Media f))
       (AddChildren (opt_children validationToNode (fld_Validation f))
       (AddChildren (map optionToNode (fld_Options f))
       (AddChildren (map (NewTextNode DataFormsNS ''value'') (fld_Values f))
       (AddChildIf (fld_Required f) (NewNode DataFormsNS ''required'')
       (AddChildIf (fld_Desc f \<noteq> []) (NewTextNode DataFormsNS ''desc'' (fld_Desc f))
       (SetAttrIf ''type'' (fld_Type f)
       (SetAttrIf ''label'' (fld_Label f)
       (SetAttrIf ''var'' (fld_Var f) (NewNode DataFormsNS ''field'')))))))))"

text \<open>\<^verbatim>\<open>reported\<close> and \<^verbatim>\<open>item\<close> both hold a list of fields.\<close>

definition fields_node :: "string \<Rightarrow> field list \<Rightarrow> node" where
  "fields_node local fs = AddChildren (map fieldToNode fs) (NewNode DataFormsNS local)"

definition Form_ToNode :: "form \<Rightarrow> node" where
  "Form_ToNode f =
     AddChildren (map (fields_node ''item'') (frm_Items f))
       (AddChildren (opt_children (fields_node ''reported'') (frm_Reported f))
       (AddChildren (map fieldToNode (frm_Fields f))
       (AddChildren (map (NewTextNode DataFormsNS ''instructions'') (frm_Instructions f))
       (AddChildIf (frm_Title f \<noteq> []) (NewTextNode DataFormsNS ''title'' (frm_Title f))
       (SetAttrIf ''type'' (frm_Type f) (NewNode DataFormsNS ''x''))))))"

subsection \<open>Reading\<close>

text \<open>\<^verbatim>\<open>if i, e := strconv.Atoi(x); e == nil { v = &i }\<close>: a malformed bound is ignored.\<close>

definition list_bound :: "string option \<Rightarrow> int option \<Rightarrow> int option" where
  "list_bound x old = (case x of None \<Rightarrow> old | Some s \<Rightarrow> (case parse_int s of Inl e \<Rightarrow> old | Inr i \<Rightarrow> Some i))"

definition validation_child :: "validation \<Rightarrow> node \<Rightarrow> validation" where
  "validation_child v c =
     (if Local (Name c) = ''basic'' then v\<lparr>val_Method := ValidationBasic\<rparr>
      else if Local (Name c) = ''open'' then v\<lparr>val_Method := ValidationOpen\<rparr>
      else if Local (Name c) = ''range'' then
        v\<lparr>val_Method := ValidationRange, val_Min := or_empty (AttrValue ''min'' c), val_Max := or_empty (AttrValue ''max'' c)\<rparr>
      else if Local (Name c) = ''regex'' then v\<lparr>val_Method := ValidationRegex, val_Regex := Text c\<rparr>
      else if Local (Name c) = ''list-range'' then
        v\<lparr>val_ListMin := list_bound (AttrValue ''min'' c) (val_ListMin v),
          val_ListMax := list_bound (AttrValue ''max'' c) (val_ListMax v)\<rparr>
      else v)"

definition parseValidation :: "node \<Rightarrow> validation" where
  "parseValidation n =
     foldl validation_child (validation0\<lparr>val_Datatype := or_empty (AttrValue ''datatype'' n)\<rparr>) (Children n)"

definition parse_uri :: "node \<Rightarrow> uri" where
  "parse_uri c = URI (or_empty (AttrValue ''type'' c)) (Text c)"

definition parseMedia :: "node \<Rightarrow> media" where
  "parseMedia n =
     \<lparr>med_Height = (case AttrValue ''height'' n of None \<Rightarrow> 0 | Some v \<Rightarrow> fst (Atoi v)),
      med_Width = (case AttrValue ''width'' n of None \<Rightarrow> 0 | Some v \<Rightarrow> fst (Atoi v)),
      med_URIs = map parse_uri (filter (\<lambda>c. Local (Name c) = ''uri'') (Children n))\<rparr>"

definition field_child :: "field \<Rightarrow> node \<Rightarrow> field" where
  "field_child f c =
     (if Local (Name c) = ''desc'' then f\<lparr>fld_Desc := Text c\<rparr>
      else if Local (Name c) = ''required'' then f\<lparr>fld_Required := True\<rparr>
      else if Local (Name c) = ''value'' then f\<lparr>fld_Values := fld_Values f @ [Text c]\<rparr>
      else if Local (Name c) = ''option'' then
        f\<lparr>fld_Options := fld_Options f
            @ [FormOption (or_empty (AttrValue ''label'' c)) (ChildText DataFormsNS ''value'' c)]\<rparr>
      else if Local (Name c) = ''validate'' then f\<lparr>fld_Validation := Some (parseValidation c)\<rparr>
      else if Local (Name c) = ''media'' then f\<lparr>fld_Media := Some (parseMedia c)\<rparr>
      else f)"

text \<open>\<^verbatim>\<open>parseField\<close> returns a nil error on every path, so its callers never take their error
  branch; the model returns the field alone.\<close>

definition parseField :: "node \<Rightarrow> field" where
  "parseField n =
     foldl field_child (field0\<lparr>fld_Var := or_empty (AttrValue ''var'' n), fld_Label := or_empty (AttrValue ''label'' n),
                               fld_Type := or_empty (AttrValue ''type'' n)\<rparr>) (Children n)"

definition parse_fields :: "node \<Rightarrow> field list" where
  "parse_fields c = map parseField (filter (\<lambda>fc. Local (Name fc) = ''field'') (Children c))"

definition form_child :: "form \<Rightarrow> node \<Rightarrow> form" where
  "form_child f c =
     (if Local (Name c) = ''title'' then f\<lparr>frm_Title := Text c\<rparr>
      else if Local (Name c) = ''instructions'' then f\<lparr>frm_Instructions := frm_Instructions f @ [Text c]\<rparr>
      else if Local (Name c) = ''field'' then f\<lparr>frm_Fields := frm_Fields f @ [parseField c]\<rparr>
      else if Local (Name c) = ''reported'' then f\<lparr>frm_Reported := Some (parse_fields c)\<rparr>
      else if Local (Name c) = ''item'' then f\<lparr>frm_Items := frm_Items f @ [parse_fields c]\<rparr>
      else f)"

definition ParseForm :: "node \<Rightarrow> form result" where
  "ParseForm n =
     (if Local (Name n) \<noteq> ''x'' \<or> Space (Name n) \<noteq> DataFormsNS
      then Inl (Errorf ''xep: expected {%s}x'' [DataFormsNS] None)
      else Inr (foldl form_child (form0\<lparr>frm_Type := or_empty (AttrValue ''type'' n)\<rparr>) (Children n)))"

subsection \<open>The codec\<close>

text \<open>
  What the written form keeps: the bounds and the expression belong to their method, an
  empty method is written as \<^verbatim>\<open>basic\<close>, and media sizes are not negative.
\<close>

definition validation_valid :: "validation \<Rightarrow> bool" where
  "validation_valid v \<longleftrightarrow> val_Method v \<noteq> []
     \<and> (val_Method v = ValidationRange \<or> val_Min v = [] \<and> val_Max v = [])
     \<and> (val_Method v = ValidationRegex \<or> val_Regex v = [])
     \<and> val_Method v \<in> {ValidationBasic, ValidationOpen, ValidationRange, ValidationRegex}
     \<and> int64_opt (val_ListMin v) \<and> int64_opt (val_ListMax v)"

definition media_valid :: "media \<Rightarrow> bool" where
  "media_valid m \<longleftrightarrow> 0 \<le> med_Height m \<and> 0 \<le> med_Width m \<and> int64 (med_Height m) \<and> int64 (med_Width m)"

definition field_valid :: "field \<Rightarrow> bool" where
  "field_valid f \<longleftrightarrow> pred_option validation_valid (fld_Validation f) \<and> pred_option media_valid (fld_Media f)"

definition form_valid :: "form \<Rightarrow> bool" where
  "form_valid f \<longleftrightarrow> list_all field_valid (frm_Fields f) \<and> pred_option (list_all field_valid) (frm_Reported f)
     \<and> list_all (list_all field_valid) (frm_Items f)"

lemma list_bound_Itoa [simp]:
  "int64_opt v \<Longrightarrow> list_bound (map_option Itoa v) None = v"
  by (cases v) (simp_all add: list_bound_def int64_opt_def)

lemma Name_validationToNode [simp]: "Name (validationToNode v) = XName DataValidationNS ''validate''"
  by (simp add: validationToNode_def Let_def)

lemma validation_list_range:
  "int64_opt a \<Longrightarrow> int64_opt b \<Longrightarrow> val_ListMin v = None \<Longrightarrow> val_ListMax v = None \<Longrightarrow>
   foldl validation_child v
     (if a \<noteq> None \<or> b \<noteq> None
      then [SetAttrOpt ''max'' (map_option Itoa b) (SetAttrOpt ''min'' (map_option Itoa a) (NewNode DataValidationNS ''list-range''))]
      else []) = v\<lparr>val_ListMin := a, val_ListMax := b\<rparr>"
  by (cases a; cases b) (simp_all add: validation_child_def list_bound_def int64_opt_def)

definition method_nodes :: "validation \<Rightarrow> node list" where
  "method_nodes v =
     (if val_Method v = ValidationRange
      then [SetAttrIf ''max'' (val_Max v) (SetAttrIf ''min'' (val_Min v) (NewNode DataValidationNS ''range''))]
      else if val_Method v = ValidationRegex then [NewTextNode DataValidationNS ''regex'' (val_Regex v)]
      else [NewNode DataValidationNS (val_Method v)])"

lemma Children_validationToNode:
  "validation_valid v \<Longrightarrow> Children (validationToNode v) = method_nodes v @
     (if val_ListMin v \<noteq> None \<or> val_ListMax v \<noteq> None
      then [SetAttrOpt ''max'' (map_option Itoa (val_ListMax v))
             (SetAttrOpt ''min'' (map_option Itoa (val_ListMin v)) (NewNode DataValidationNS ''list-range''))]
      else [])"
  unfolding validationToNode_def method_nodes_def Let_def Children_cond_builders validation_valid_def
  by (simp split del: if_split) (elim conjE disjE; simp)

lemma fold_method_nodes:
  "validation_valid v \<Longrightarrow>
   foldl validation_child (validation0\<lparr>val_Datatype := d\<rparr>) (method_nodes v) =
     validation0\<lparr>val_Datatype := d, val_Method := val_Method v, val_Regex := val_Regex v, val_Min := val_Min v, val_Max := val_Max v\<rparr>"
  unfolding validation_valid_def method_nodes_def validation0_def
  by (elim conjE insertE emptyE; simp add: validation_child_def)

lemma parseValidation_ToNode:
  assumes "validation_valid v"
  shows "parseValidation (validationToNode v) = v"
proof -
  have d: "or_empty (AttrValue ''datatype'' (validationToNode v)) = val_Datatype v"
    by (simp add: validationToNode_def Let_def)
  have "int64_opt (val_ListMin v)" "int64_opt (val_ListMax v)" using assms by (simp_all add: validation_valid_def)
  then show ?thesis
    unfolding parseValidation_def d Children_validationToNode[OF assms] foldl_append fold_method_nodes[OF assms]
    by (subst validation_list_range) (simp_all add: validation0_def)
qed

lemma parseMedia_ToNode: "media_valid m \<Longrightarrow> parseMedia (mediaToNode m) = m"
proof -
  have uris: "map parse_uri (filter (\<lambda>c. Local (Name c) = ''uri'') (map uriToNode us)) = us" for us
    by (induction us) (simp_all add: parse_uri_def uriToNode_def)
  show "media_valid m \<Longrightarrow> parseMedia (mediaToNode m) = m"
    by (cases m) (auto simp: media_valid_def parseMedia_def mediaToNode_def uris Atoi_Itoa)
qed

lemma Name_form_nodes [simp]:
  "Name (uriToNode u) = XName DataMediaNS ''uri''" "Name (mediaToNode m) = XName DataMediaNS ''media''"
  "Name (optionToNode opt) = XName DataFormsNS ''option''" "Name (fieldToNode f) = XName DataFormsNS ''field''"
  "Name (fields_node l fs) = XName DataFormsNS l"
  by (simp_all add: uriToNode_def mediaToNode_def optionToNode_def fieldToNode_def fields_node_def)

lemma optionToNode_read:
  "or_empty (AttrValue ''label'' (optionToNode opt)) = opt_Label opt"
  "ChildText DataFormsNS ''value'' (optionToNode opt) = opt_Value opt"
  by (simp_all add: optionToNode_def ChildText_def Child_eq_find)

lemma fold_field_values:
  "foldl field_child f (map (NewTextNode DataFormsNS ''value'') vs) = f\<lparr>fld_Values := fld_Values f @ vs\<rparr>"
  by (induction vs arbitrary: f) (simp_all add: field_child_def)

lemma fold_field_options:
  "foldl field_child f (map optionToNode opts) = f\<lparr>fld_Options := fld_Options f @ opts\<rparr>"
  by (induction opts arbitrary: f) (simp_all add: field_child_def optionToNode_read)

lemma fold_field_opt:
  "pred_option validation_valid v \<Longrightarrow> fld_Validation f = None \<Longrightarrow>
   foldl field_child f (opt_children validationToNode v) = f\<lparr>fld_Validation := v\<rparr>"
  "pred_option media_valid m \<Longrightarrow> fld_Media f = None \<Longrightarrow>
   foldl field_child f (opt_children mediaToNode m) = f\<lparr>fld_Media := m\<rparr>"
  by (cases v; simp add: opt_children_def field_child_def parseValidation_ToNode)
     (cases m; simp add: opt_children_def field_child_def parseMedia_ToNode)

lemma fold_field_flags:
  "fld_Desc f = [] \<Longrightarrow> foldl field_child f (if d \<noteq> [] then [NewTextNode DataFormsNS ''desc'' d] else []) = f\<lparr>fld_Desc := d\<rparr>"
  "\<not> fld_Required f \<Longrightarrow> foldl field_child f (if b then [NewNode DataFormsNS ''required''] else []) = f\<lparr>fld_Required := b\<rparr>"
  by (cases f; simp add: field_child_def)+

lemma parseField_ToNode: "field_valid f \<Longrightarrow> parseField (fieldToNode f) = f"
  unfolding parseField_def fieldToNode_def field_valid_def Children_cond_builders Children_builders foldl_append
  by (simp add: fold_field_values fold_field_options fold_field_opt fold_field_flags field0_def split del: if_split)

lemma parse_fields_node: "list_all field_valid fs \<Longrightarrow> parse_fields (fields_node l fs) = fs"
  unfolding parse_fields_def fields_node_def
  by (induction fs) (simp_all add: parseField_ToNode)

lemma fold_form_parts:
  "frm_Title f = [] \<Longrightarrow> foldl form_child f (if t \<noteq> [] then [NewTextNode DataFormsNS ''title'' t] else []) = f\<lparr>frm_Title := t\<rparr>"
  "foldl form_child f (map (NewTextNode DataFormsNS ''instructions'') vs) = f\<lparr>frm_Instructions := frm_Instructions f @ vs\<rparr>"
  "list_all field_valid fs \<Longrightarrow> foldl form_child f (map fieldToNode fs) = f\<lparr>frm_Fields := frm_Fields f @ fs\<rparr>"
  "pred_option (list_all field_valid) rep \<Longrightarrow> frm_Reported f = None \<Longrightarrow>
   foldl form_child f (opt_children (fields_node ''reported'') rep) = f\<lparr>frm_Reported := rep\<rparr>"
  "list_all (list_all field_valid) its \<Longrightarrow>
   foldl form_child f (map (fields_node ''item'') its) = f\<lparr>frm_Items := frm_Items f @ its\<rparr>"
proof -
  show "frm_Title f = [] \<Longrightarrow> foldl form_child f (if t \<noteq> [] then [NewTextNode DataFormsNS ''title'' t] else []) = f\<lparr>frm_Title := t\<rparr>"
    by (simp add: form_child_def)
  show "foldl form_child f (map (NewTextNode DataFormsNS ''instructions'') vs) = f\<lparr>frm_Instructions := frm_Instructions f @ vs\<rparr>"
    by (induction vs arbitrary: f) (simp_all add: form_child_def)
  show "list_all field_valid fs \<Longrightarrow> foldl form_child f (map fieldToNode fs) = f\<lparr>frm_Fields := frm_Fields f @ fs\<rparr>"
    by (induction fs arbitrary: f) (simp_all add: form_child_def parseField_ToNode)
  show "pred_option (list_all field_valid) rep \<Longrightarrow> frm_Reported f = None \<Longrightarrow>
   foldl form_child f (opt_children (fields_node ''reported'') rep) = f\<lparr>frm_Reported := rep\<rparr>"
    by (cases rep) (simp_all add: form_child_def opt_children_def parse_fields_node)
  show "list_all (list_all field_valid) its \<Longrightarrow>
   foldl form_child f (map (fields_node ''item'') its) = f\<lparr>frm_Items := frm_Items f @ its\<rparr>"
    by (induction its arbitrary: f) (simp_all add: form_child_def parse_fields_node)
qed

lemma ParseForm_ToNode: "form_valid f \<Longrightarrow> ParseForm (Form_ToNode f) = Inr f"
  unfolding ParseForm_def Form_ToNode_def form_valid_def Children_cond_builders Children_builders foldl_append
  by (simp add: fold_form_parts form0_def split del: if_split)

subsubsection \<open>The laws of the interface\<close>

lemma form_readers_blind:
  "parse_uri (strip_xmlns c) = parse_uri c" "parseMedia (strip_xmlns c) = parseMedia c"
  "validation_child v (strip_xmlns c) = validation_child v c" "parseValidation (strip_xmlns c) = parseValidation c"
proof -
  show u: "parse_uri (strip_xmlns c) = parse_uri c" for c by (simp add: parse_uri_def)
  show "parseMedia (strip_xmlns c) = parseMedia c" by (simp add: parseMedia_def filter_strip u comp_def)
  show v: "validation_child v (strip_xmlns c) = validation_child v c" for v c by (simp add: validation_child_def)
  show "parseValidation (strip_xmlns c) = parseValidation c" by (simp add: parseValidation_def foldl_strip v)
qed

lemma field_child_blind: "field_child f (strip_xmlns c) = field_child f c"
  by (simp add: field_child_def form_readers_blind)

lemma parseField_blind: "parseField (strip_xmlns c) = parseField c"
  by (simp add: parseField_def foldl_strip field_child_blind)

lemma parse_fields_blind: "parse_fields (strip_xmlns c) = parse_fields c"
  by (simp add: parse_fields_def filter_strip parseField_blind comp_def)

lemma form_child_blind: "form_child f (strip_xmlns c) = form_child f c"
  by (simp add: form_child_def parseField_blind parse_fields_blind)

lemma ParseForm_blind: "ParseForm (strip_xmlns n) = ParseForm n"
  by (simp add: ParseForm_def foldl_strip form_child_blind)

lemma form_nodes_built:
  "well_built (uriToNode u)" "well_built (mediaToNode m)" "well_built (optionToNode opt)" "well_built (validationToNode v)"
  unfolding uriToNode_def mediaToNode_def optionToNode_def validationToNode_def Let_def
  by (auto intro!: inv_intros simp: uriToNode_def)

lemma opt_children_built: "(\<And>x. well_built (f x)) \<Longrightarrow> c \<in> set (opt_children f v) \<Longrightarrow> well_built c"
  by (auto simp: opt_children_def split: option.splits)

lemma fieldToNode_built: "well_built (fieldToNode f)"
  unfolding fieldToNode_def
  by (intro inv_intros) (auto intro: form_nodes_built opt_children_built inv_intros)

lemma fields_node_built: "l \<noteq> [] \<Longrightarrow> well_built (fields_node l fs)"
  unfolding fields_node_def by (intro inv_intros) (auto intro: fieldToNode_built)

lemma Form_ToNode_built: "well_built (Form_ToNode f)"
  unfolding Form_ToNode_def
  by (intro inv_intros) (auto intro: fieldToNode_built fields_node_built opt_children_built inv_intros)

interpretation form_codec: payload_codec Form_ToNode ParseForm form_valid
  by unfold_locales (simp_all add: ParseForm_ToNode Form_ToNode_built ParseForm_blind)


subsection \<open>Fields as a keyed store\<close>

lemma find_set_field:
  "map_option fld_Values (find (\<lambda>x. fld_Var x = k) (set_field name vs fs)) =
     (if k = name then Some vs else map_option fld_Values (find (\<lambda>x. fld_Var x = k) fs))"
  by (induction fs) (auto simp: field0_def)

interpretation form_fields: attr_store Form_Set "\<lambda>name f. map_option fld_Values (Form_Field name f)"
  by unfold_locales (simp_all add: Form_Set_def Form_Field_def find_set_field)

text \<open>Setting a value never changes the description of a field, nor the order of the fields.\<close>

lemma set_field_keeps:
  "map (\<lambda>x. x\<lparr>fld_Values := []\<rparr>) (set_field name vs fs) =
     map (\<lambda>x. x\<lparr>fld_Values := []\<rparr>) fs @
       (if name \<in> fld_Var ` set fs then [] else [field0\<lparr>fld_Var := name, fld_Type := ''text-single''\<rparr>])"
  by (induction fs) (auto simp: field0_def)

subsection \<open>Validation\<close>

definition single_valued :: "string \<Rightarrow> bool" where
  "single_valued t \<longleftrightarrow> t = ''boolean'' \<or> t = ''jid-single'' \<or> t = ''list-single'' \<or> t = ''text-private'' \<or> t = ''text-single''"

definition boolean_text :: "unicode \<Rightarrow> string \<Rightarrow> bool" where
  "boolean_text U s = (let v = ToLower U s in v = ''1'' \<or> v = ''0'' \<or> v = ''true'' \<or> v = ''false'')"

text \<open>The four groups of checks of \<^verbatim>\<open>Field.Validate\<close>, in the order of the source; the first
  error is returned.\<close>

definition check_cardinality :: "field \<Rightarrow> go_error option" where
  "check_cardinality f =
     (if fld_Required f \<and> length (fld_Values f) = 0 then Some (Errf ''value is required'')
      else if single_valued (fld_Type f) \<and> length (fld_Values f) > 1
        then Some (Errorf ''field type %s accepts one value'' [fld_Type f] None)
      else None)"

definition check_boolean :: "unicode \<Rightarrow> field \<Rightarrow> go_error option" where
  "check_boolean U f =
     (if fld_Type f = ''boolean'' \<and> length (fld_Values f) = 1 \<and> \<not> boolean_text U (fld_Values f ! 0)
      then Some (Errorf ''invalid boolean %q'' [fld_Values f ! 0] None) else None)"

definition check_options :: "field \<Rightarrow> go_error option" where
  "check_options f =
     (if fld_Type f = ''list-single'' \<or> fld_Type f = ''list-multi'' then
        let allowed = set (map opt_Value (fld_Options f)) in
        (case fld_Validation f of
           Some v \<Rightarrow>
             if allowed \<noteq> {} \<and> val_Method v \<noteq> ValidationOpen then
               find_map (\<lambda>x. if x \<in> allowed then None else Some (Errorf ''value %q is not an option'' [x] None)) (fld_Values f)
             else None
         | None \<Rightarrow> None)
      else None)"

definition check_rules :: "(string \<Rightarrow> (string \<Rightarrow> bool) result) \<Rightarrow> field \<Rightarrow> go_error option" where
  "check_rules compile f =
     (case fld_Validation f of
        None \<Rightarrow> None
      | Some v \<Rightarrow>
          if (case val_ListMin v of Some m \<Rightarrow> int (length (fld_Values f)) < m | None \<Rightarrow> False)
            then Some (Errorf ''requires at least %d values'' [Itoa (the (val_ListMin v))] None)
          else if (case val_ListMax v of Some m \<Rightarrow> int (length (fld_Values f)) > m | None \<Rightarrow> False)
            then Some (Errorf ''allows at most %d values'' [Itoa (the (val_ListMax v))] None)
          else if val_Method v = ValidationRegex then
            (case compile (val_Regex v) of
               Inl e \<Rightarrow> Some (Errorf ''invalid validation regex: %w'' [] (Some e))
             | Inr matches \<Rightarrow>
                 find_map (\<lambda>x. if matches x then None
                               else Some (Errorf ''value %q does not match validation regex'' [x] None)) (fld_Values f))
          else None)"

definition Field_Validate :: "unicode \<Rightarrow> (string \<Rightarrow> (string \<Rightarrow> bool) result) \<Rightarrow> field \<Rightarrow> go_error option" where
  "Field_Validate U compile f =
     (case check_cardinality f of
        Some e \<Rightarrow> Some e
      | None \<Rightarrow> (case check_boolean U f of
          Some e \<Rightarrow> Some e
        | None \<Rightarrow> (case check_options f of
            Some e \<Rightarrow> Some e
          | None \<Rightarrow> check_rules compile f)))"

definition Form_Validate :: "unicode \<Rightarrow> (string \<Rightarrow> (string \<Rightarrow> bool) result) \<Rightarrow> form \<Rightarrow> go_error option" where
  "Form_Validate U compile f =
     find_map (\<lambda>fl. map_option (\<lambda>e. Errorf ''field %q: %w'' [fld_Var fl] (Some e)) (Field_Validate U compile fl)) (frm_Fields f)"

text \<open>The rules a field must satisfy, as statements about its values.\<close>

definition field_ok :: "unicode \<Rightarrow> (string \<Rightarrow> (string \<Rightarrow> bool) result) \<Rightarrow> field \<Rightarrow> bool" where
  "field_ok U compile f \<longleftrightarrow>
     (fld_Required f \<longrightarrow> fld_Values f \<noteq> [])
   \<and> (single_valued (fld_Type f) \<longrightarrow> length (fld_Values f) \<le> 1)
   \<and> (fld_Type f = ''boolean'' \<longrightarrow> (\<forall>x\<in>set (fld_Values f). boolean_text U x))
   \<and> (\<forall>v. fld_Validation f = Some v \<longrightarrow>
        (fld_Type f \<in> {''list-single'', ''list-multi''} \<and> fld_Options f \<noteq> [] \<and> val_Method v \<noteq> ValidationOpen
           \<longrightarrow> set (fld_Values f) \<subseteq> opt_Value ` set (fld_Options f))
      \<and> (\<forall>m. val_ListMin v = Some m \<longrightarrow> m \<le> int (length (fld_Values f)))
      \<and> (\<forall>m. val_ListMax v = Some m \<longrightarrow> int (length (fld_Values f)) \<le> m)
      \<and> (val_Method v = ValidationRegex \<longrightarrow>
           (\<exists>matches. compile (val_Regex v) = Inr matches \<and> (\<forall>x\<in>set (fld_Values f). matches x))))"

lemma check_boolean_None:
  "check_cardinality f = None \<Longrightarrow>
   check_boolean U f = None \<longleftrightarrow> (fld_Type f = ''boolean'' \<longrightarrow> (\<forall>x\<in>set (fld_Values f). boolean_text U x))"
  by (cases "fld_Values f"; cases "tl (fld_Values f)")
     (auto simp: check_boolean_def check_cardinality_def single_valued_def split: if_splits)

lemma check_options_None:
  "check_options f = None \<longleftrightarrow> (\<forall>v. fld_Validation f = Some v \<longrightarrow>
     fld_Type f \<in> {''list-single'', ''list-multi''} \<and> fld_Options f \<noteq> [] \<and> val_Method v \<noteq> ValidationOpen
       \<longrightarrow> set (fld_Values f) \<subseteq> opt_Value ` set (fld_Options f))"
  by (auto simp: check_options_def Let_def find_map_None split: option.splits if_splits)

lemma check_rules_None:
  "check_rules compile f = None \<longleftrightarrow> (\<forall>v. fld_Validation f = Some v \<longrightarrow>
        (\<forall>m. val_ListMin v = Some m \<longrightarrow> m \<le> int (length (fld_Values f)))
      \<and> (\<forall>m. val_ListMax v = Some m \<longrightarrow> int (length (fld_Values f)) \<le> m)
      \<and> (val_Method v = ValidationRegex \<longrightarrow>
           (\<exists>matches. compile (val_Regex v) = Inr matches \<and> (\<forall>x\<in>set (fld_Values f). matches x))))"
  by (auto simp: check_rules_def find_map_None split: option.splits if_splits sum.splits)

lemma field_ok_checks:
  "field_ok U compile f \<longleftrightarrow> check_cardinality f = None
     \<and> (fld_Type f = ''boolean'' \<longrightarrow> (\<forall>x\<in>set (fld_Values f). boolean_text U x))
     \<and> check_options f = None \<and> check_rules compile f = None"
proof -
  have "check_cardinality f = None \<longleftrightarrow>
      (fld_Required f \<longrightarrow> fld_Values f \<noteq> []) \<and> (single_valued (fld_Type f) \<longrightarrow> length (fld_Values f) \<le> 1)"
    by (auto simp: check_cardinality_def)
  then show ?thesis
    unfolding field_ok_def check_options_None check_rules_None by (cases "fld_Validation f") simp_all
qed

lemma Field_Validate_ok: "Field_Validate U compile f = None \<longleftrightarrow> field_ok U compile f"
  unfolding field_ok_checks Field_Validate_def
  using check_boolean_None[of f U] by (cases "check_cardinality f") (auto split: option.split)

subsection \<open>Properties\<close>


definition example_form :: form where
  "example_form = form0\<lparr>frm_Type := ''submit'', frm_Fields :=
     [field0\<lparr>fld_Var := ''pick'', fld_Type := ''list-single'', fld_Values := [''c''],
        fld_Options := [FormOption ''A'' ''a'', FormOption ''B'' ''b'']\<rparr>]\<rparr>"




end
