(* ===== verification/Stream_Management.thy ===== *)
theory Stream_Management
  imports Codec
begin

text \<open>
  Stream management (XEP-0198) of \<^verbatim>\<open>src/xep/client_control.go\<close>: the counters are 32-bit words
  that wrap around, the queue holds the stanzas sent and not yet acknowledged. The event
  callbacks \<^verbatim>\<open>onSent\<close>, \<^verbatim>\<open>onReceived\<close> and \<^verbatim>\<open>onElement\<close> are the operations; what they send and
  emit is returned as a list of actions, and the outcome of \<^verbatim>\<open>SendNode\<close> is an argument.
  The session is a transition relation over the callbacks with an honest server, and the
  main result is that the queue is exactly what the server has not acknowledged.
\<close>

abbreviation StreamManagementNS :: string where "StreamManagementNS \<equiv> ''urn:xmpp:sm:3''"

record SMState =
  sm_Enabled :: bool
  sm_Resume :: bool
  sm_ID :: string
  sm_Location :: string
  sm_Max :: int
  sm_Inbound :: "32 word"
  sm_Outbound :: "32 word"
  sm_Acked :: "32 word"
  sm_Unacked :: "stanza list"

definition SMState0 :: SMState where
  "SMState0 = \<lparr>sm_Enabled = False, sm_Resume = False, sm_ID = [], sm_Location = [], sm_Max = 0,
     sm_Inbound = 0, sm_Outbound = 0, sm_Acked = 0, sm_Unacked = []\<rparr>"

text \<open>The plugin: its state and, beside it, the queue. The \<^verbatim>\<open>Unacked\<close> field of the state itself is
  only filled in the copy that \<^verbatim>\<open>State\<close> returns.\<close>

record stream_management =
  smp_state :: SMState
  smp_unacked :: "stanza list"

definition NewStreamManagement :: stream_management where
  "NewStreamManagement = \<lparr>smp_state = SMState0, smp_unacked = []\<rparr>"

datatype sm_action =
    SmSend node
  | SmAcknowledged SMState
  | SmResumed SMState
  | SmFailed node

subsection \<open>Operations\<close>

definition State :: "stream_management \<Rightarrow> SMState" where
  "State sm = (smp_state sm)\<lparr>sm_Unacked := smp_unacked sm\<rparr>"

definition parseEnabled :: "node \<Rightarrow> SMState" where
  "parseEnabled n =
     SMState0\<lparr>sm_Enabled := True, sm_ID := or_empty (AttrValue ''id'' n),
        sm_Location := or_empty (AttrValue ''location'' n),
        sm_Resume := (case AttrValue ''resume'' n of None \<Rightarrow> False | Some v \<Rightarrow> v = ''true'' \<or> v = ''1''),
        sm_Max := (case AttrValue ''max'' n of None \<Rightarrow> 0 | Some v \<Rightarrow> fst (Atoi v))\<rparr>"

definition enable_node :: "bool \<Rightarrow> node" where
  "enable_node resume =
     (let n = NewNode StreamManagementNS ''enable'' in if resume then SetAttr ''resume'' ''true'' n else n)"

text \<open>The temporary subscription of \<^verbatim>\<open>Enable\<close> forwards the elements that answer it.\<close>

definition enable_answer :: "node \<Rightarrow> bool" where
  "enable_answer n \<longleftrightarrow>
     Space (Name n) = StreamManagementNS \<and> (Local (Name n) = ''enabled'' \<or> Local (Name n) = ''failed'')"

text \<open>What ends the wait of \<^verbatim>\<open>Enable\<close>: the first answer among the elements that arrive, the end of
  the context, or the end of the client.\<close>

datatype enable_wait = Arrived "node list" | ContextDone go_error | ClientDone

definition Enable ::
  "(node \<Rightarrow> go_error option) \<Rightarrow> enable_wait \<Rightarrow> bool \<Rightarrow> stream_management \<Rightarrow> (SMState result \<times> stream_management) option" where
  "Enable send wait resume sm =
     (case send (enable_node resume) of
        Some e \<Rightarrow> Some (Inl e, sm)
      | None \<Rightarrow>
          (case wait of
             Arrived ns \<Rightarrow>
               (case find enable_answer ns of
                  None \<Rightarrow> None
                | Some n \<Rightarrow>
                    if Local (Name n) = ''failed''
                    then Some (Inl (Errf ''xep: stream management enable failed: %s''), sm)
                    else let sm' = sm\<lparr>smp_state := parseEnabled n, smp_unacked := []\<rparr> in Some (Inr (State sm'), sm'))
           | ContextDone e \<Rightarrow> Some (Inl e, sm)
           | ClientDone \<Rightarrow> Some (Inl (Sentinel ErrClosed), sm)))"

definition FormatUint32 :: "32 word \<Rightarrow> string" where
  "FormatUint32 w = FormatNat 10 (unat w)"

definition ResumeNode :: "string \<Rightarrow> 32 word \<Rightarrow> node" where
  "ResumeNode previousID handled =
     SetAttr ''h'' (FormatUint32 handled) (SetAttr ''previd'' previousID (NewNode StreamManagementNS ''resume''))"

definition RequestAck :: node where
  "RequestAck = NewNode StreamManagementNS ''r''"

definition onSent :: "stanza \<Rightarrow> stream_management \<Rightarrow> stream_management" where
  "onSent st sm =
     (if sm_Enabled (smp_state sm)
      then sm\<lparr>smp_state := (smp_state sm)\<lparr>sm_Outbound := sm_Outbound (smp_state sm) + 1\<rparr>,
              smp_unacked := smp_unacked sm @ [st]\<rparr>
      else sm)"

definition onReceived :: "stream_management \<Rightarrow> stream_management" where
  "onReceived sm =
     (if sm_Enabled (smp_state sm)
      then sm\<lparr>smp_state := (smp_state sm)\<lparr>sm_Inbound := sm_Inbound (smp_state sm) + 1\<rparr>\<rparr>
      else sm)"

text \<open>\<^verbatim>\<open>delta\<close> is a \<^verbatim>\<open>uint32\<close>: the subtraction wraps; the comparison widens both sides.\<close>

definition applyAck :: "32 word \<Rightarrow> stream_management \<Rightarrow> stream_management" where
  "applyAck h sm =
     (let delta0 = h - sm_Acked (smp_state sm);
          delta = (if unat delta0 > length (smp_unacked sm) then of_nat (length (smp_unacked sm)) else delta0) :: 32 word
      in sm\<lparr>smp_unacked := (if delta > 0 then drop (unat delta) (smp_unacked sm) else smp_unacked sm),
            smp_state := (smp_state sm)\<lparr>sm_Acked := h\<rparr>\<rparr>)"

definition onElement ::
  "(node \<Rightarrow> go_error option) \<Rightarrow> node \<Rightarrow> stream_management \<Rightarrow> go_error option \<times> sm_action list \<times> stream_management" where
  "onElement send n sm =
     (if Space (Name n) \<noteq> StreamManagementNS then (None, [], sm)
      else if Local (Name n) = ''r'' then
        (if sm_Enabled (smp_state sm)
         then let a = SetAttr ''h'' (FormatUint32 (sm_Inbound (smp_state sm))) (NewNode StreamManagementNS ''a'')
              in (send a, [SmSend a], sm)
         else (None, [], sm))
      else if Local (Name n) = ''a'' then
        (case ParseUint 32 (or_empty (AttrValue ''h'' n)) of
           (_, Some e) \<Rightarrow> (Some (Errorf ''xep: invalid SM acknowledgement %q'' [or_empty (AttrValue ''h'' n)] None), [], sm)
         | (h, None) \<Rightarrow> let sm' = applyAck (of_nat h) sm in (None, [SmAcknowledged (State sm')], sm'))
      else if Local (Name n) = ''resumed'' then
        (let h = fst (ParseUint 32 (or_empty (AttrValue ''h'' n)));
             sm1 = applyAck (of_nat h) sm;
             sm2 = sm1\<lparr>smp_state := (smp_state sm1)\<lparr>sm_Enabled := True, sm_ID := or_empty (AttrValue ''previd'' n)\<rparr>\<rparr>
         in (None, [SmResumed (State sm2)], sm2))
      else if Local (Name n) = ''failed'' then (None, [SmFailed n], sm)
      else (None, [], sm))"

subsection \<open>Acknowledgement arithmetic\<close>

text \<open>
  \<open>ack_node h\<close> is the element a peer that has handled \<open>k\<close> stanzas sends: the count modulo
  \<open>2\<^sup>3\<^sup>2\<close>.
\<close>

definition ack_node :: "nat \<Rightarrow> node" where
  "ack_node k = SetAttr ''h'' (FormatUint32 (of_nat k)) (NewNode StreamManagementNS ''a'')"

lemma ParseUint_FormatUint32 [simp]: "ParseUint 32 (FormatUint32 w) = (unat w, None)"
proof -
  have "unat w < 2 ^ 32" using unsigned_less[of w] by simp
  then show ?thesis by (simp add: FormatUint32_def ParseUint_FormatNat)
qed

lemma unat_diff_of_nat:
  fixes j k :: nat
  assumes "j \<le> k" "k - j < 2 ^ 32"
  shows "unat ((of_nat k :: 32 word) - of_nat j) = k - j"
proof -
  have "(of_nat k :: 32 word) - of_nat j = of_nat (k - j)" using assms(1) by (simp add: of_nat_diff)
  then show ?thesis using assms(2) by (simp add: unat_of_nat take_bit_nat_eq_self)
qed

text \<open>An honest acknowledgement removes exactly the stanzas it newly covers, across the wrap.\<close>

lemma applyAck_honest:
  assumes "sm_Acked (smp_state sm) = of_nat j" "j \<le> k" "k - j \<le> length (smp_unacked sm)" "length (smp_unacked sm) < 2 ^ 32"
  shows "applyAck (of_nat k) sm = sm\<lparr>smp_unacked := drop (k - j) (smp_unacked sm), smp_state := (smp_state sm)\<lparr>sm_Acked := of_nat k\<rparr>\<rparr>"
proof -
  have d: "unat ((of_nat k :: 32 word) - of_nat j) = k - j"
    using assms by (intro unat_diff_of_nat) linarith+
  then have "\<not> 0 < (of_nat k :: 32 word) - of_nat j \<Longrightarrow> k - j = 0"
    by (metis unat_0 word_gt_0)
  then show ?thesis using assms d by (auto simp: applyAck_def Let_def)
qed

lemma onElement_ack_node:
  "onElement send (ack_node k) sm = (let sm' = applyAck (of_nat k) sm in (None, [SmAcknowledged (State sm')], sm'))"
  by (simp add: onElement_def ack_node_def)

subsection \<open>Sessions\<close>

definition resumed_node :: "string \<Rightarrow> nat \<Rightarrow> node" where
  "resumed_node previd k =
     SetAttr ''h'' (FormatUint32 (of_nat k)) (SetAttr ''previd'' previd (NewNode StreamManagementNS ''resumed''))"

text \<open>
  \<open>sm_session ss k r sm\<close>: since the server's \<^verbatim>\<open>enabled\<close> the client has sent the stanzas \<open>ss\<close>,
  the server has acknowledged the first \<open>k\<close> of them, the client has received \<open>r\<close> stanzas, and
  the plugin is in state \<open>sm\<close>. The server is honest (it acknowledges no more than was sent
  and never takes an acknowledgement back), and fewer than \<open>2\<^sup>3\<^sup>2\<close> stanzas are outstanding.
\<close>

inductive sm_session :: "stanza list \<Rightarrow> nat \<Rightarrow> nat \<Rightarrow> stream_management \<Rightarrow> bool" where
  enabled: "Enable send (Arrived ns) resume sm0 = Some (Inr st, sm) \<Longrightarrow> sm_session [] 0 0 sm"
| sent: "sm_session ss k r sm \<Longrightarrow> length ss - k + 1 < 2 ^ 32 \<Longrightarrow> sm_session (ss @ [st]) k r (onSent st sm)"
| received: "sm_session ss k r sm \<Longrightarrow> sm_session ss k (Suc r) (onReceived sm)"
| ack: "sm_session ss k r sm \<Longrightarrow> k \<le> k' \<Longrightarrow> k' \<le> length ss \<Longrightarrow>
    onElement send (ack_node k') sm = (e, acts, sm') \<Longrightarrow> sm_session ss k' r sm'"
| resumed: "sm_session ss k r sm \<Longrightarrow> k \<le> k' \<Longrightarrow> k' \<le> length ss \<Longrightarrow>
    onElement send (resumed_node previd k') sm = (e, acts, sm') \<Longrightarrow> sm_session ss k' r sm'"
| other: "sm_session ss k r sm \<Longrightarrow> \<not> named StreamManagementNS ''a'' n \<Longrightarrow> \<not> named StreamManagementNS ''resumed'' n \<Longrightarrow>
    onElement send n sm = (e, acts, sm') \<Longrightarrow> sm_session ss k r sm'"

definition sm_exact :: "stanza list \<Rightarrow> nat \<Rightarrow> nat \<Rightarrow> stream_management \<Rightarrow> bool" where
  "sm_exact ss k r sm \<longleftrightarrow> k \<le> length ss \<and> length ss - k < 2 ^ 32 \<and> smp_unacked sm = drop k ss
     \<and> sm_Enabled (smp_state sm)
     \<and> sm_Outbound (smp_state sm) = of_nat (length ss)
     \<and> sm_Acked (smp_state sm) = of_nat k
     \<and> sm_Inbound (smp_state sm) = of_nat r"

lemma sm_exact_ack:
  assumes "sm_exact ss k r sm" "k \<le> k'" "k' \<le> length ss"
  shows "sm_exact ss k' r (applyAck (of_nat k') sm)"
proof -
  have "length ss - k' < 2 ^ 32" "k' - k \<le> length ss - k" using assms unfolding sm_exact_def by linarith+
  then show ?thesis using assms applyAck_honest[of sm k k'] by (simp add: sm_exact_def)
qed

lemma onElement_other:
  "\<not> named StreamManagementNS ''a'' n \<Longrightarrow> \<not> named StreamManagementNS ''resumed'' n \<Longrightarrow>
   onElement send n sm = (e, acts, sm') \<Longrightarrow> sm' = sm"
  by (auto simp: onElement_def named_def Let_def split: if_splits)

lemma onElement_resumed_node:
  "onElement send (resumed_node previd k) sm =
     (let sm1 = applyAck (of_nat k) sm;
          sm2 = sm1\<lparr>smp_state := (smp_state sm1)\<lparr>sm_Enabled := True, sm_ID := previd\<rparr>\<rparr>
      in (None, [SmResumed (State sm2)], sm2))"
  by (simp add: onElement_def resumed_node_def Let_def)

lemma sm_session_exact: "sm_session ss k r sm \<Longrightarrow> sm_exact ss k r sm"
proof (induction rule: sm_session.induct)
  case (enabled send ns resume sm0 st sm)
  then show ?case
    by (auto simp: Enable_def sm_exact_def parseEnabled_def SMState0_def Let_def split: option.splits if_splits)
next
  case (sent ss k r sm st)
  then show ?case by (simp add: sm_exact_def onSent_def Suc_diff_le)
next
  case (received ss k r sm)
  then show ?case by (simp add: sm_exact_def onReceived_def)
next
  case (ack ss k r sm k' send e acts sm')
  then have "sm' = applyAck (of_nat k') sm" by (simp add: onElement_ack_node Let_def)
  then show ?case using sm_exact_ack[OF ack.IH] ack.hyps by simp
next
  case (resumed ss k r sm k' send previd e acts sm')
  have "sm_exact ss k' r (applyAck (of_nat k') sm)" using sm_exact_ack[OF resumed.IH] resumed.hyps by simp
  moreover have "sm' = (applyAck (of_nat k') sm)\<lparr>smp_state := (smp_state (applyAck (of_nat k') sm))\<lparr>sm_Enabled := True, sm_ID := previd\<rparr>\<rparr>"
    using resumed.hyps by (simp add: onElement_resumed_node Let_def)
  ultimately show ?case by (simp add: sm_exact_def)
next
  case (other ss k r sm n send e acts sm')
  then show ?case using onElement_other by blast
qed

lemma onElement_request:
  "sm_exact ss k r sm \<Longrightarrow> onElement send RequestAck sm = (send (ack_node r), [SmSend (ack_node r)], sm)"
  by (simp add: onElement_def RequestAck_def sm_exact_def ack_node_def Let_def)

subsection \<open>Properties\<close>


definition example_sm :: stream_management where
  "example_sm = onSent (SMessage message0) (onSent (SIQ iq0)
     (NewStreamManagement\<lparr>smp_state := parseEnabled (NewNode StreamManagementNS ''enabled'')\<rparr>))"

lemma example_sm_session:
  "sm_session [SIQ iq0, SMessage message0] 0 0 example_sm"
proof -
  let ?sm = "NewStreamManagement\<lparr>smp_state := parseEnabled (NewNode StreamManagementNS ''enabled'')\<rparr>"
  have "Enable (\<lambda>n. None) (Arrived [NewNode StreamManagementNS ''enabled'']) False NewStreamManagement = Some (Inr (State ?sm), ?sm)"
    by (simp add: Enable_def enable_answer_def Let_def NewStreamManagement_def)
  then have s: "sm_session [] 0 0 ?sm" by (rule sm_session.enabled)
  show ?thesis using sm_session.sent[OF sm_session.sent[OF s], of "SIQ iq0" "SMessage message0"] by (simp add: example_sm_def)
qed


text \<open>C38: the queue is lost when the peer's counter is behind: an acknowledgement of fewer stanzas
  than before makes the unsigned difference wrap, so every queued stanza is dropped although
  none was acknowledged; and a \<^verbatim>\<open>resumed\<close> element without a readable counter counts as zero,
  with the same effect, since the parse error is discarded.\<close>

theorem stale_ack_drops_queue:
  assumes "sm_Acked (smp_state sm) = of_nat k" "j < k" "k - j + length (smp_unacked sm) \<le> 2 ^ 32"
  shows "smp_unacked (snd (snd (onElement send (ack_node j) sm))) = []
    \<and> (j = 0 \<and> named StreamManagementNS ''resumed'' n \<and> AttrValue ''h'' n = None
      \<longrightarrow> smp_unacked (snd (snd (onElement send n sm))) = [])"
proof -
  let ?d = "(of_nat j :: 32 word) - of_nat k"
  have kj: "k - j \<le> 2 ^ 32" using assms by linarith
  have "?d = - of_nat (k - j)" using assms by (simp add: of_nat_diff)
  moreover have "(0 :: 32 word) = of_nat (2 ^ 32)" by simp
  ultimately have d: "?d = of_nat (2 ^ 32 - (k - j))" using kj by (simp add: of_nat_diff)
  have u: "unat ?d = 2 ^ 32 - (k - j)"
    unfolding d using assms(2) by (simp add: unat_of_nat take_bit_nat_eq_self)
  have len: "length (smp_unacked sm) \<le> unat ?d" "length (smp_unacked sm) < 2 ^ 32"
    using assms u by linarith+
  have drop: "smp_unacked (applyAck (of_nat j) sm) = []"
  proof (cases "unat ?d > length (smp_unacked sm)")
    case True
    have "unat (of_nat (length (smp_unacked sm)) :: 32 word) = length (smp_unacked sm)"
      using len by (simp add: unat_of_nat take_bit_nat_eq_self)
    moreover from this have "\<not> 0 < (of_nat (length (smp_unacked sm)) :: 32 word) \<Longrightarrow> length (smp_unacked sm) = 0"
      by (metis unat_0 word_gt_0)
    ultimately show ?thesis using True assms(1) by (auto simp: applyAck_def Let_def)
  next
    case False
    then show ?thesis using len assms(1) u by (auto simp: applyAck_def Let_def word_gt_0)
  qed
  then have "smp_unacked (snd (snd (onElement send (ack_node j) sm))) = []"
    by (simp add: onElement_ack_node Let_def)
  moreover have "j = 0 \<and> named StreamManagementNS ''resumed'' n \<and> AttrValue ''h'' n = None
      \<longrightarrow> smp_unacked (snd (snd (onElement send n sm))) = []"
    using drop by (auto simp: onElement_def named_def Let_def ParseUint_def)
  ultimately show ?thesis by blast
qed

theorem stale_ack_drops_queue_witness:
  "smp_unacked (snd (snd (onElement (\<lambda>n. None) (ack_node 0) (applyAck 1 example_sm)))) = []
   \<and> smp_unacked (applyAck 1 example_sm) = [SMessage message0]"
proof -
  have e: "smp_unacked (applyAck 1 example_sm) = [SMessage message0]" "sm_Acked (smp_state (applyAck 1 example_sm)) = of_nat 1"
    using sm_session_exact[OF sm_session.ack[OF example_sm_session, of 1 "\<lambda>n. None" None "[SmAcknowledged (State (applyAck 1 example_sm))]" "applyAck 1 example_sm"]]
    by (simp_all add: onElement_ack_node Let_def sm_exact_def)
  then show ?thesis using stale_ack_drops_queue[OF e(2), of 0 "\<lambda>n. None"] by simp
qed

end
