(* ===== verification/Go_Utf8.thy ===== *)
theory Go_Utf8
  imports Prelude
begin

text \<open>
  Go's conversions between strings and runes: \<^verbatim>\<open>[]rune(s)\<close> decodes UTF-8 and puts U+FFFD for
  every byte that starts no valid encoding, \<^verbatim>\<open>string(runes)\<close> encodes and puts U+FFFD for
  every number that is no scalar value. The two are inverse on well-formed text, which is
  what the fallback ranges of \<^verbatim>\<open>src/xep/message_extensions.go\<close> rely on.
\<close>

definition scalar :: "nat \<Rightarrow> bool" where
  "scalar r \<longleftrightarrow> r < 0xD800 \<or> 0xE000 \<le> r \<and> r \<le> 0x10FFFF"

definition RuneError :: nat where "RuneError = 0xFFFD"

definition encode_rune :: "nat \<Rightarrow> nat list" where
  "encode_rune r0 =
     (let r = (if scalar r0 then r0 else RuneError)
      in if r < 0x80 then [r]
         else if r < 0x800 then [0xC0 + r div 64, 0x80 + r mod 64]
         else if r < 0x10000 then [0xE0 + r div 4096, 0x80 + r div 64 mod 64, 0x80 + r mod 64]
         else [0xF0 + r div 262144, 0x80 + r div 4096 mod 64, 0x80 + r div 64 mod 64, 0x80 + r mod 64])"

definition cont :: "nat \<Rightarrow> bool" where
  "cont b \<longleftrightarrow> 0x80 \<le> b \<and> b \<le> 0xBF"

text \<open>The ranges of the second byte that exclude overlong forms, surrogates and numbers past
  U+10FFFF.\<close>

definition second3 :: "nat \<Rightarrow> nat \<Rightarrow> bool" where
  "second3 b0 b1 \<longleftrightarrow> cont b1 \<and> (b0 = 0xE0 \<longrightarrow> 0xA0 \<le> b1) \<and> (b0 = 0xED \<longrightarrow> b1 \<le> 0x9F)"

definition second4 :: "nat \<Rightarrow> nat \<Rightarrow> bool" where
  "second4 b0 b1 \<longleftrightarrow> cont b1 \<and> (b0 = 0xF0 \<longrightarrow> 0x90 \<le> b1) \<and> (b0 = 0xF4 \<longrightarrow> b1 \<le> 0x8F)"

text \<open>One step of the decoder: a rune and the number of bytes it takes.\<close>

fun decode_rune :: "nat list \<Rightarrow> nat \<times> nat" where
  "decode_rune [] = (RuneError, 0)"
| "decode_rune (b0 # bs) =
     (if b0 < 0x80 then (b0, 1)
      else if 0xC2 \<le> b0 \<and> b0 \<le> 0xDF then
        (case bs of b1 # _ \<Rightarrow> if cont b1 then ((b0 - 0xC0) * 64 + (b1 - 0x80), 2) else (RuneError, 1)
         | [] \<Rightarrow> (RuneError, 1))
      else if 0xE0 \<le> b0 \<and> b0 \<le> 0xEF then
        (case bs of b1 # b2 # _ \<Rightarrow>
            if second3 b0 b1 \<and> cont b2 then ((b0 - 0xE0) * 4096 + (b1 - 0x80) * 64 + (b2 - 0x80), 3) else (RuneError, 1)
         | _ \<Rightarrow> (RuneError, 1))
      else if 0xF0 \<le> b0 \<and> b0 \<le> 0xF4 then
        (case bs of b1 # b2 # b3 # _ \<Rightarrow>
            if second4 b0 b1 \<and> cont b2 \<and> cont b3
            then ((b0 - 0xF0) * 262144 + (b1 - 0x80) * 4096 + (b2 - 0x80) * 64 + (b3 - 0x80), 4)
            else (RuneError, 1)
         | _ \<Rightarrow> (RuneError, 1))
      else (RuneError, 1))"

lemma decode_rune_width: "bs \<noteq> [] \<Longrightarrow> 0 < snd (decode_rune bs)"
  by (cases bs) (auto split: list.splits)

function decode_runes :: "nat list \<Rightarrow> nat list" where
  "decode_runes bs = (if bs = [] then [] else fst (decode_rune bs) # decode_runes (drop (snd (decode_rune bs)) bs))"
  by auto
termination
proof (relation "measure length")
  fix bs :: "nat list" assume "bs \<noteq> []"
  then show "(drop (snd (decode_rune bs)) bs, bs) \<in> measure length"
    using decode_rune_width[of bs] by (cases bs) (auto simp del: decode_rune.simps)
qed simp

declare decode_runes.simps [simp del]

definition runes :: "string \<Rightarrow> nat list" where
  "runes s = decode_runes (map of_char s)"

definition from_runes :: "nat list \<Rightarrow> string" where
  "from_runes rs = map char_of (concat (map encode_rune rs))"

definition utf8 :: "string \<Rightarrow> bool" where
  "utf8 s \<longleftrightarrow> from_runes (runes s) = s"

subsection \<open>The two directions are inverse\<close>

text \<open>A number in base 64: three and four digits.\<close>

lemma base64_3: "(r :: nat) = r div 4096 * 4096 + r div 64 mod 64 * 64 + r mod 64"
proof -
  have "r = r div 64 * 64 + r mod 64" by simp
  moreover have "r div 64 = r div 4096 * 64 + r div 64 mod 64"
    using div_mult_mod_eq[of "r div 64" 64] by (simp add: div_mult2_eq[symmetric])
  ultimately show ?thesis by linarith
qed

lemma base64_4: "(r :: nat) = r div 262144 * 262144 + r div 4096 mod 64 * 4096 + r div 64 mod 64 * 64 + r mod 64"
proof -
  have "r div 4096 = r div 262144 * 64 + r div 4096 mod 64"
    using div_mult_mod_eq[of "r div 4096" 64] by (simp add: div_mult2_eq[symmetric])
  then show ?thesis using base64_3[of r] by linarith
qed

lemma mod64: "(r :: nat) mod 64 < 64" by simp

lemma second3_encode:
  assumes "scalar r" "0x800 \<le> r" "r < 0x10000"
  shows "second3 (0xE0 + r div 4096) (0x80 + r div 64 mod 64)"
proof -
  define a b c where "a = r div 4096" and "b = r div 64 mod 64" and "c = r mod 64"
  have r: "r = a * 4096 + b * 64 + c" "b < 64" "c < 64"
    unfolding a_def b_def c_def by (rule base64_3) simp_all
  have "a = 0 \<Longrightarrow> 32 \<le> b" using r assms(2) by linarith
  moreover have "a = 13 \<Longrightarrow> b \<le> 31" using r assms(1) unfolding scalar_def by linarith
  ultimately show ?thesis using r(2) unfolding second3_def cont_def a_def[symmetric] b_def[symmetric] by auto
qed

lemma second4_encode:
  assumes "r \<le> 0x10FFFF" "0x10000 \<le> r"
  shows "second4 (0xF0 + r div 262144) (0x80 + r div 4096 mod 64)"
proof -
  define a b c d where "a = r div 262144" and "b = r div 4096 mod 64" and "c = r div 64 mod 64" and "d = r mod 64"
  have r: "r = a * 262144 + b * 4096 + c * 64 + d" "b < 64" "c < 64" "d < 64"
    unfolding a_def b_def c_def d_def by (rule base64_4) simp_all
  have "a = 0 \<Longrightarrow> 16 \<le> b" using r assms(2) by linarith
  moreover have "a = 4 \<Longrightarrow> b \<le> 15" using r assms(1) by linarith
  ultimately show ?thesis using r(2) unfolding second4_def cont_def a_def[symmetric] b_def[symmetric] by auto
qed

lemma cont_low [simp]: "cont (0x80 + r mod 64)"
proof -
  have "r mod 64 < 64" by simp
  then show ?thesis unfolding cont_def by linarith
qed

lemma decode_encode_rune:
  assumes "scalar r"
  shows "decode_rune (encode_rune r @ rest) = (r, length (encode_rune r))"
proof -
  consider "r < 0x80" | "0x80 \<le> r" "r < 0x800" | "0x800 \<le> r" "r < 0x10000" | "0x10000 \<le> r" "r \<le> 0x10FFFF"
    using assms by (force simp: scalar_def)
  then show ?thesis
  proof cases
    case 2
    then have "r div 64 < 32" by (intro less_mult_imp_div_less) simp
    moreover have "2 \<le> r div 64" using 2 div_le_mono[of 128 r 64] by simp
    ultimately show ?thesis using 2 assms by (simp add: encode_rune_def)
  next
    case 3
    then have "r div 4096 < 16" by (intro less_mult_imp_div_less) simp
    then show ?thesis
      using 3 assms second3_encode[OF assms 3] base64_3[of r] by (simp add: encode_rune_def)
  next
    case 4
    then have "r div 262144 < 5" by (intro less_mult_imp_div_less) simp
    then show ?thesis
      using 4 assms second4_encode[OF 4(2,1)] base64_4[of r] by (simp add: encode_rune_def)
  qed (use assms in \<open>simp add: encode_rune_def\<close>)
qed

lemma encode_rune_not_Nil [simp]: "encode_rune r \<noteq> []"
  by (simp add: encode_rune_def Let_def)

lemma decode_runes_encode: "scalar r \<Longrightarrow> decode_runes (encode_rune r @ rest) = r # decode_runes rest"
  by (subst decode_runes.simps) (simp add: decode_encode_rune)

lemma decode_runes_append:
  "list_all scalar rs \<Longrightarrow> decode_runes (concat (map encode_rune rs) @ rest) = rs @ decode_runes rest"
  by (induction rs) (simp_all add: decode_runes_encode)

lemma encode_rune_bytes: "b \<in> set (encode_rune r) \<Longrightarrow> b < 256"
proof -
  define q where "q = (if scalar r then r else RuneError)"
  have q: "q \<le> 0x10FFFF" by (auto simp: q_def scalar_def RuneError_def)
  have "q < 0x800 \<Longrightarrow> q div 64 < 32" "q < 0x10000 \<Longrightarrow> q div 4096 < 16" "q div 262144 < 5"
    using q by (intro less_mult_imp_div_less; simp)+
  moreover have "q mod 64 < 64" "q div 64 mod 64 < 64" "q div 4096 mod 64 < 64" by simp_all
  ultimately show "b \<in> set (encode_rune r) \<Longrightarrow> b < 256"
    unfolding encode_rune_def q_def[symmetric] Let_def
    by (simp split: if_split_asm) (elim disjE; linarith)+
qed

lemma of_char_from_runes: "map of_char (from_runes rs) = concat (map encode_rune rs)"
proof -
  have "b < 256" if "b \<in> set (concat (map encode_rune rs))" for b
    using that encode_rune_bytes by auto
  then show ?thesis by (auto simp: from_runes_def comp_def intro!: map_idI)
qed

lemma runes_from_runes_append: "list_all scalar rs \<Longrightarrow> runes (from_runes rs @ s) = rs @ runes s"
  by (simp add: runes_def of_char_from_runes decode_runes_append)

lemma runes_from_runes [simp]: "list_all scalar rs \<Longrightarrow> runes (from_runes rs) = rs"
  using runes_from_runes_append[of rs "[]"] by (simp add: runes_def decode_runes.simps[of "[]"])

lemma scalar_3:
  assumes "0xE0 \<le> b0" "b0 \<le> 0xEF" "second3 b0 b1" "cont b2"
  shows "scalar ((b0 - 0xE0) * 4096 + (b1 - 0x80) * 64 + (b2 - 0x80))"
proof -
  obtain a b c where abc: "b0 = 0xE0 + a" "b1 = 0x80 + b" "b2 = 0x80 + c"
    using assms unfolding second3_def cont_def by (metis le_Suc_ex)
  have b: "a \<le> 15" "b \<le> 63" "c \<le> 63" "a = 13 \<Longrightarrow> b \<le> 31"
    using assms unfolding second3_def cont_def abc by auto
  consider "a \<le> 12" | "a = 13" | "14 \<le> a" by linarith
  then have "a * 4096 + b * 64 + c < 0xD800 \<or> 0xE000 \<le> a * 4096 + b * 64 + c"
    by cases (use b in linarith)+
  moreover have "a * 4096 + b * 64 + c \<le> 0x10FFFF" using b by linarith
  ultimately show ?thesis unfolding abc scalar_def by simp
qed

lemma scalar_4:
  assumes "0xF0 \<le> b0" "b0 \<le> 0xF4" "second4 b0 b1" "cont b2" "cont b3"
  shows "scalar ((b0 - 0xF0) * 262144 + (b1 - 0x80) * 4096 + (b2 - 0x80) * 64 + (b3 - 0x80))"
proof -
  obtain a b c d where abc: "b0 = 0xF0 + a" "b1 = 0x80 + b" "b2 = 0x80 + c" "b3 = 0x80 + d"
    using assms unfolding second4_def cont_def by (metis le_Suc_ex)
  have b: "a \<le> 4" "b \<le> 63" "c \<le> 63" "d \<le> 63" "a = 4 \<Longrightarrow> b \<le> 15" "a = 0 \<Longrightarrow> 16 \<le> b"
    using assms unfolding second4_def cont_def abc by auto
  have "0xE000 \<le> a * 262144 + b * 4096 + c * 64 + d" using b by (cases "a = 0") linarith+
  moreover have "a * 262144 + b * 4096 + c * 64 + d \<le> 0x10FFFF" using b by (cases "a = 4") linarith+
  ultimately show ?thesis unfolding abc scalar_def by simp
qed

lemma scalar_2:
  assumes "b0 \<le> 0xDF" "cont b1"
  shows "scalar ((b0 - 0xC0) * 64 + (b1 - 0x80))"
proof -
  have "b0 - 0xC0 \<le> 31" "b1 - 0x80 \<le> 63" using assms by (auto simp: cont_def)
  then have "(b0 - 0xC0) * 64 + (b1 - 0x80) \<le> 2047" by linarith
  then show ?thesis by (simp add: scalar_def)
qed

lemma scalar_small: "b < 0x80 \<Longrightarrow> scalar b" "scalar RuneError"
  by (simp_all add: scalar_def RuneError_def)

lemma decode_rune_scalar: "bs \<noteq> [] \<Longrightarrow> scalar (fst (decode_rune bs))"
  by (cases bs) (simp_all add: scalar_small scalar_2 scalar_3 scalar_4 split: list.splits)

lemma runes_scalar: "list_all scalar (runes s)"
proof -
  have "list_all scalar (decode_runes bs)" for bs
    by (induction bs rule: decode_runes.induct) (subst decode_runes.simps, auto simp: decode_rune_scalar)
  then show ?thesis by (simp add: runes_def)
qed

lemma runes_append: "utf8 a \<Longrightarrow> runes (a @ b) = runes a @ runes b"
  using runes_from_runes_append[OF runes_scalar, of a b] by (simp add: utf8_def)

lemma from_runes_append [simp]: "from_runes (a @ b) = from_runes a @ from_runes b"
  by (simp add: from_runes_def)

lemma utf8_append: "utf8 a \<Longrightarrow> utf8 b \<Longrightarrow> utf8 (a @ b)"
  using runes_append[of a b] by (simp add: utf8_def)

text \<open>Plain text is one rune per byte.\<close>

lemma runes_ascii: "list_all (\<lambda>c. of_char c < (128 :: nat)) s \<Longrightarrow> runes s = map of_char s"
  unfolding runes_def by (induction s) (simp_all add: decode_runes.simps)

lemma utf8_ascii: "list_all (\<lambda>c. of_char c < (128 :: nat)) s \<Longrightarrow> utf8 s"
proof -
  assume a: "list_all (\<lambda>c. of_char c < (128 :: nat)) s"
  then have "concat (map encode_rune (map of_char s)) = map of_char s"
    by (induction s) (simp_all add: encode_rune_def scalar_def)
  then show ?thesis by (simp add: utf8_def runes_ascii[OF a] from_runes_def comp_def)
qed

end
