(* ===== verification/Message_Extensions.thy ===== *)
theory Message_Extensions
  imports Rsm Go_Utf8
begin

text \<open>
  The message annotations of \<^verbatim>\<open>src/xep/message_extensions.go\<close>: setters replace the extension
  elements of their own kind and append a new one, getters look the first one up. A setter
  works on a pointer to a message and returns the changed message here; the filtering loop
  of \<^verbatim>\<open>removeExtension\<close> is a filter (it reuses the backing array of the slice, which a copy of
  the message shares: see the theorem on aliasing at the end).

  The interface \<open>extension_slot\<close> states what such a setter and getter pair promises; it is
  interpreted for each pair, and the independence of the annotations follows from it.
\<close>

abbreviation ChatStatesNS :: string where "ChatStatesNS \<equiv> ''http://jabber.org/protocol/chatstates''"
abbreviation ReceiptsNS :: string where "ReceiptsNS \<equiv> ''urn:xmpp:receipts''"
abbreviation CorrectionNS :: string where "CorrectionNS \<equiv> ''urn:xmpp:message-correct:0''"
abbreviation MarkersNS :: string where "MarkersNS \<equiv> ''urn:xmpp:chat-markers:0''"
abbreviation HintsNS :: string where "HintsNS \<equiv> ''urn:xmpp:hints''"
abbreviation JSONNS :: string where "JSONNS \<equiv> ''urn:xmpp:json:0''"
abbreviation StanzaIDNS :: string where "StanzaIDNS \<equiv> ''urn:xmpp:sid:0''"
abbreviation ReferenceNS :: string where "ReferenceNS \<equiv> ''urn:xmpp:reference:0''"
abbreviation EncryptionNS :: string where "EncryptionNS \<equiv> ''urn:xmpp:eme:0''"
abbreviation SpoilerNS :: string where "SpoilerNS \<equiv> ''urn:xmpp:spoiler:0''"
abbreviation OccupantIDNS :: string where "OccupantIDNS \<equiv> ''urn:xmpp:occupant-id:0''"
abbreviation RetractionNS :: string where "RetractionNS \<equiv> ''urn:xmpp:message-retract:1''"
abbreviation FallbackNS :: string where "FallbackNS \<equiv> ''urn:xmpp:fallback:0''"
abbreviation ReactionsNS :: string where "ReactionsNS \<equiv> ''urn:xmpp:reactions:0''"
abbreviation ReplyNS :: string where "ReplyNS \<equiv> ''urn:xmpp:reply:0''"
abbreviation MentionNS :: string where "MentionNS \<equiv> ''urn:xmpp:mention:0''"
abbreviation AttentionNS :: string where "AttentionNS \<equiv> ''urn:xmpp:attention:0''"
abbreviation DirectMUCInviteNS :: string where "DirectMUCInviteNS \<equiv> ''jabber:x:conference''"
abbreviation MessageMarkupNS :: string where "MessageMarkupNS \<equiv> ''urn:xmpp:markup:0''"
abbreviation CallInvitesNS :: string where "CallInvitesNS \<equiv> ''urn:xmpp:call-invites:0''"

subsection \<open>The extension list\<close>

definition removeExtension :: "string \<Rightarrow> string list \<Rightarrow> message \<Rightarrow> message" where
  "removeExtension namespace locals m =
     m\<lparr>msg_Extensions :=
        filter (\<lambda>n. \<not> (Space (Name n) = namespace \<and> Local (Name n) \<in> set locals)) (msg_Extensions m)\<rparr>"

definition add_extension :: "node \<Rightarrow> message \<Rightarrow> message" where
  "add_extension n m = m\<lparr>msg_Extensions := msg_Extensions m @ [n]\<rparr>"

text \<open>\<^verbatim>\<open>id, _ := n.AttrValue("id"); return id, id != ""\<close>\<close>

definition nonempty_id :: "node option \<Rightarrow> string option" where
  "nonempty_id n =
     (case n of None \<Rightarrow> None
      | Some e \<Rightarrow> (let i = or_empty (AttrValue ''id'' e) in if i \<noteq> [] then Some i else None))"

definition id_node :: "string \<Rightarrow> string \<Rightarrow> string \<Rightarrow> node" where
  "id_node ns local i = SetAttr ''id'' i (NewNode ns local)"

subsection \<open>Chat states, receipts, corrections, markers and hints\<close>

definition chat_states :: "string list" where
  "chat_states = [''active'', ''composing'', ''paused'', ''inactive'', ''gone'']"

definition SetChatState :: "string \<Rightarrow> message \<Rightarrow> message" where
  "SetChatState state m =
     (let m1 = removeExtension ChatStatesNS chat_states m
      in if state \<noteq> [] then add_extension (NewNode ChatStatesNS state) m1 else m1)"

definition GetChatState :: "message \<Rightarrow> string option" where
  "GetChatState m = find (\<lambda>state. Message_Extension m ChatStatesNS state \<noteq> None) chat_states"

definition RequestReceipt :: "message \<Rightarrow> message" where
  "RequestReceipt m =
     (if Message_Extension m ReceiptsNS ''request'' = None then add_extension (NewNode ReceiptsNS ''request'') m else m)"

definition ReceiptID :: "message \<Rightarrow> string option" where
  "ReceiptID m = nonempty_id (Message_Extension m ReceiptsNS ''received'')"

definition ReceiptMessage :: "string \<Rightarrow> string \<Rightarrow> message" where
  "ReceiptMessage to' i =
     message0\<lparr>msg_To := to', msg_Type := MessageChat, msg_Extensions := [id_node ReceiptsNS ''received'' i]\<rparr>"

datatype receipt_action = ReceiptEvent string | ReceiptAck message | NoReceipt

text \<open>\<^verbatim>\<open>Receipts.handle\<close> with the plugin's \<^verbatim>\<open>AutoAck\<close> flag and the identifier \<^verbatim>\<open>NextID\<close> would
  give: what it emits or sends.\<close>

definition Receipts_handle :: "bool \<Rightarrow> string \<Rightarrow> message \<Rightarrow> receipt_action" where
  "Receipts_handle autoAck nextID m =
     (case ReceiptID m of
        Some i \<Rightarrow> ReceiptEvent i
      | None \<Rightarrow>
          if \<not> autoAck \<or> msg_ID m = [] \<or> Message_Extension m ReceiptsNS ''request'' = None
             \<or> msg_Type m = MessageGroupChat \<or> msg_Type m = MessageErrorType
          then NoReceipt
          else ReceiptAck ((ReceiptMessage (msg_From m) (msg_ID m))\<lparr>msg_ID := nextID\<rparr>))"

text \<open>\<^verbatim>\<open>Receipts.Send\<close>: the returned identifier and the message handed to the client.\<close>

definition Receipts_Send :: "string \<Rightarrow> message \<Rightarrow> string \<times> message" where
  "Receipts_Send nextID m =
     (let m1 = RequestReceipt (if msg_ID m = [] then m\<lparr>msg_ID := nextID\<rparr> else m) in (msg_ID m1, m1))"

definition SetCorrection :: "string \<Rightarrow> message \<Rightarrow> message" where
  "SetCorrection replacesID m =
     (let m1 = removeExtension CorrectionNS [''replace''] m
      in if replacesID \<noteq> [] then add_extension (id_node CorrectionNS ''replace'' replacesID) m1 else m1)"

definition CorrectionID :: "message \<Rightarrow> string option" where
  "CorrectionID m = nonempty_id (Message_Extension m CorrectionNS ''replace'')"

datatype marker = Marker (mk_Type: string) (mk_ID: string)

definition marker_types :: "string list" where
  "marker_types = [''markable'', ''received'', ''displayed'', ''acknowledged'']"

definition SetMarker :: "marker \<Rightarrow> message \<Rightarrow> message" where
  "SetMarker mk m =
     add_extension (SetAttrIf ''id'' (mk_ID mk) (NewNode MarkersNS (mk_Type mk))) (removeExtension MarkersNS marker_types m)"

definition GetMarker :: "message \<Rightarrow> marker option" where
  "GetMarker m =
     find_map (\<lambda>kind. map_option (\<lambda>n. Marker kind (or_empty (AttrValue ''id'' n))) (Message_Extension m MarkersNS kind)) marker_types"

definition AddHint :: "string \<Rightarrow> message \<Rightarrow> message" where
  "AddHint hint m =
     (if Message_Extension m HintsNS hint = None then add_extension (NewNode HintsNS hint) m else m)"

definition HasHint :: "message \<Rightarrow> string \<Rightarrow> bool" where
  "HasHint m hint \<longleftrightarrow> Message_Extension m HintsNS hint \<noteq> None"

subsection \<open>JSON containers and identifiers\<close>

text \<open>\<^verbatim>\<open>json.Marshal\<close> and \<^verbatim>\<open>json.Unmarshal\<close> are arguments.\<close>

definition SetJSON :: "('v \<Rightarrow> string result) \<Rightarrow> (string \<Rightarrow> 'v result) \<Rightarrow> 'v \<Rightarrow> message \<Rightarrow> message result" where
  "SetJSON jmarshal junmarshal v m =
     (case jmarshal v of
        Inl e \<Rightarrow> Inl e
      | Inr data \<Rightarrow>
          (case junmarshal data of
             Inl e \<Rightarrow> Inl e
           | Inr _ \<Rightarrow> Inr (add_extension (NewTextNode JSONNS ''json'' data) (removeExtension JSONNS [''json''] m))))"

definition GetJSON :: "(string \<Rightarrow> 'v result) \<Rightarrow> message \<Rightarrow> 'v result" where
  "GetJSON junmarshal m =
     (case Message_Extension m JSONNS ''json'' of
        None \<Rightarrow> Inl (Errf ''xep: message has no JSON container'')
      | Some n \<Rightarrow> junmarshal (Text n))"

definition SetOriginID :: "string \<Rightarrow> message \<Rightarrow> message" where
  "SetOriginID i m = add_extension (id_node StanzaIDNS ''origin-id'' i) (removeExtension StanzaIDNS [''origin-id''] m)"

definition GetOriginID :: "message \<Rightarrow> string option" where
  "GetOriginID m = nonempty_id (Message_Extension m StanzaIDNS ''origin-id'')"

datatype stanza_id = StanzaIDRec (sid_ID: string) (sid_By: string)

definition AddStanzaID :: "string \<Rightarrow> string \<Rightarrow> message \<Rightarrow> message" where
  "AddStanzaID i sby m = add_extension (SetAttr ''by'' sby (id_node StanzaIDNS ''stanza-id'' i)) m"

definition StanzaIDs :: "message \<Rightarrow> stanza_id list" where
  "StanzaIDs m =
     map (\<lambda>n. StanzaIDRec (or_empty (AttrValue ''id'' n)) (or_empty (AttrValue ''by'' n)))
       (filter (named StanzaIDNS ''stanza-id'') (msg_Extensions m))"

subsection \<open>References and mentions\<close>

record reference =
  ref_Type :: string
  ref_URI :: string
  ref_Anchor :: string
  ref_Begin :: "int option"
  ref_End :: "int option"

definition Reference_ToNode :: "reference \<Rightarrow> node" where
  "Reference_ToNode r =
     SetAttrOpt ''end'' (map_option Itoa (ref_End r))
       (SetAttrOpt ''begin'' (map_option Itoa (ref_Begin r))
       (SetAttrIf ''anchor'' (ref_Anchor r)
       (SetAttrIf ''uri'' (ref_URI r)
       (SetAttrIf ''type'' (ref_Type r) (NewNode ReferenceNS ''reference'')))))"

text \<open>An optional integer attribute; a malformed number is an error.\<close>

definition int_attr :: "string \<Rightarrow> node \<Rightarrow> int option result" where
  "int_attr name n =
     (case AttrValue name n of
        None \<Rightarrow> Inr None
      | Some v \<Rightarrow> (case parse_int v of Inl e \<Rightarrow> Inl e | Inr i \<Rightarrow> Inr (Some i)))"

text \<open>The loop over the two-entry map of targets runs in either order: \<open>swap\<close> picks which attribute
  is read first. It only decides which of two errors is reported.\<close>

definition int_range :: "bool \<Rightarrow> string \<Rightarrow> string \<Rightarrow> node \<Rightarrow> (int option \<times> int option) result" where
  "int_range swap a b n =
     (if swap
      then (case int_attr b n of Inl e \<Rightarrow> Inl e
            | Inr y \<Rightarrow> (case int_attr a n of Inl e \<Rightarrow> Inl e | Inr x \<Rightarrow> Inr (x, y)))
      else (case int_attr a n of Inl e \<Rightarrow> Inl e
            | Inr x \<Rightarrow> (case int_attr b n of Inl e \<Rightarrow> Inl e | Inr y \<Rightarrow> Inr (x, y))))"

definition ParseReference :: "bool \<Rightarrow> node \<Rightarrow> reference result" where
  "ParseReference swap n =
     (if Space (Name n) \<noteq> ReferenceNS \<or> Local (Name n) \<noteq> ''reference'' then Inl (Errf ''xep: invalid reference'')
      else case int_range swap ''begin'' ''end'' n of
        Inl e \<Rightarrow> Inl e
      | Inr (b, e) \<Rightarrow>
          Inr \<lparr>ref_Type = or_empty (AttrValue ''type'' n), ref_URI = or_empty (AttrValue ''uri'' n),
               ref_Anchor = or_empty (AttrValue ''anchor'' n), ref_Begin = b, ref_End = e\<rparr>)"

definition AddReference :: "reference \<Rightarrow> message \<Rightarrow> message" where
  "AddReference r m = add_extension (Reference_ToNode r) m"

definition References :: "bool \<Rightarrow> message \<Rightarrow> reference list result" where
  "References swap m = map_result (ParseReference swap) (filter (named ReferenceNS ''reference'') (msg_Extensions m))"

record mention =
  men_URI :: string
  men_Start :: "int option"
  men_End :: "int option"

definition Mention_ToNode :: "mention \<Rightarrow> node" where
  "Mention_ToNode mn =
     SetAttrOpt ''end'' (map_option Itoa (men_End mn))
       (SetAttrOpt ''start'' (map_option Itoa (men_Start mn))
         (SetAttr ''uri'' (men_URI mn) (NewNode MentionNS ''mention'')))"

definition AddMention :: "mention \<Rightarrow> message \<Rightarrow> message" where
  "AddMention mn m = add_extension (Mention_ToNode mn) m"

definition parse_mention :: "bool \<Rightarrow> node \<Rightarrow> mention result" where
  "parse_mention swap n =
     (case int_range swap ''start'' ''end'' n of
        Inl e \<Rightarrow> Inl e
      | Inr (b, e) \<Rightarrow> Inr \<lparr>men_URI = or_empty (AttrValue ''uri'' n), men_Start = b, men_End = e\<rparr>)"

definition Mentions :: "bool \<Rightarrow> message \<Rightarrow> mention list result" where
  "Mentions swap m = map_result (parse_mention swap) (filter (named MentionNS ''mention'') (msg_Extensions m))"

subsection \<open>Encryption notes, spoilers, occupants\<close>

datatype encryption_info = EncryptionInfo (ei_Namespace: string) (ei_Name: string)

definition SetEncryptionInfo :: "encryption_info \<Rightarrow> message \<Rightarrow> message" where
  "SetEncryptionInfo info m =
     add_extension (SetAttrIf ''name'' (ei_Name info) (SetAttr ''namespace'' (ei_Namespace info) (NewNode EncryptionNS ''encryption'')))
       (removeExtension EncryptionNS [''encryption''] m)"

definition GetEncryptionInfo :: "message \<Rightarrow> encryption_info option" where
  "GetEncryptionInfo m =
     map_option (\<lambda>n. EncryptionInfo (or_empty (AttrValue ''namespace'' n)) (or_empty (AttrValue ''name'' n)))
       (Message_Extension m EncryptionNS ''encryption'')"

definition SetSpoiler :: "string \<Rightarrow> message \<Rightarrow> message" where
  "SetSpoiler hint m = add_extension (NewTextNode SpoilerNS ''spoiler'' hint) (removeExtension SpoilerNS [''spoiler''] m)"

definition Spoiler :: "message \<Rightarrow> string option" where
  "Spoiler m = map_option Text (Message_Extension m SpoilerNS ''spoiler'')"

definition SetOccupantID :: "string \<Rightarrow> message \<Rightarrow> message" where
  "SetOccupantID i m =
     add_extension (id_node OccupantIDNS ''occupant-id'' i) (removeExtension OccupantIDNS [''occupant-id''] m)"

definition OccupantID :: "message \<Rightarrow> string option" where
  "OccupantID m = nonempty_id (Message_Extension m OccupantIDNS ''occupant-id'')"

subsection \<open>Fallback ranges\<close>

record fallback_body =
  fb_Start :: "int option"
  fb_End :: "int option"

record fallback =
  fal_For :: string
  fal_Bodies :: "fallback_body list"

definition fallback_body_node :: "fallback_body \<Rightarrow> node" where
  "fallback_body_node b =
     SetAttrOpt ''end'' (map_option Itoa (fb_End b))
       (SetAttrOpt ''start'' (map_option Itoa (fb_Start b)) (NewNode FallbackNS ''body''))"

definition Fallback_ToNode :: "fallback \<Rightarrow> node" where
  "Fallback_ToNode f =
     AddChildren (map fallback_body_node (fal_Bodies f)) (SetAttr ''for'' (fal_For f) (NewNode FallbackNS ''fallback''))"

definition AddFallback :: "fallback \<Rightarrow> message \<Rightarrow> message" where
  "AddFallback f m = add_extension (Fallback_ToNode f) m"

definition parse_fallback_body :: "node \<Rightarrow> fallback_body result" where
  "parse_fallback_body b =
     (case int_range False ''start'' ''end'' b of Inl e \<Rightarrow> Inl e | Inr (x, y) \<Rightarrow> Inr \<lparr>fb_Start = x, fb_End = y\<rparr>)"

definition parse_fallback :: "node \<Rightarrow> fallback result" where
  "parse_fallback n =
     (case map_result parse_fallback_body (filter (\<lambda>b. Local (Name b) = ''body'') (Children n)) of
        Inl e \<Rightarrow> Inl e
      | Inr bs \<Rightarrow> Inr \<lparr>fal_For = or_empty (AttrValue ''for'' n), fal_Bodies = bs\<rparr>)"

definition Fallbacks :: "message \<Rightarrow> fallback list result" where
  "Fallbacks m = map_result parse_fallback (filter (named FallbackNS ''fallback'') (msg_Extensions m))"

text \<open>Only the first range of the first fallback for the namespace is used, since the loop
  returns from its body.\<close>

definition first_range :: "string \<Rightarrow> fallback list \<Rightarrow> fallback_body option" where
  "first_range namespace fs =
     (case concat (map fal_Bodies (filter (\<lambda>f. fal_For f = namespace) fs)) of [] \<Rightarrow> None | b # _ \<Rightarrow> Some b)"

text \<open>The message is returned beside the error, as in the source.\<close>

definition StripFallback :: "string \<Rightarrow> message \<Rightarrow> message \<times> go_error option" where
  "StripFallback namespace m =
     (case Fallbacks m of
        Inl e \<Rightarrow> (m, Some e)
      | Inr fs \<Rightarrow>
          let rs = runes (msg_Body m) in
          (case first_range namespace fs of
             None \<Rightarrow> (m, None)
           | Some b \<Rightarrow>
               let start = (case fb_Start b of Some i \<Rightarrow> i | None \<Rightarrow> 0);
                   stop = (case fb_End b of Some i \<Rightarrow> i | None \<Rightarrow> int (length rs))
               in if start < 0 \<or> stop < start \<or> stop > int (length rs)
                  then (m, Some (Errorf ''xep: fallback range %d..%d outside body'' [Itoa start, Itoa stop] None))
                  else (m\<lparr>msg_Body := from_runes (take (nat start) rs @ drop (nat stop) rs)\<rparr>, None)))"

definition prefix_range :: "string \<Rightarrow> string \<Rightarrow> fallback" where
  "prefix_range namespace pre =
     \<lparr>fal_For = namespace, fal_Bodies = [\<lparr>fb_Start = Some 0, fb_End = Some (int (length (runes pre)))\<rparr>]\<rparr>"

subsection \<open>Replies, retractions, reactions\<close>

datatype reply = Reply (rp_To: string) (rp_ID: string)

definition SetReply :: "reply \<Rightarrow> string \<Rightarrow> message \<Rightarrow> message" where
  "SetReply r fallbackPrefix m =
     (let m1 = add_extension (SetAttr ''id'' (rp_ID r) (SetAttr ''to'' (rp_To r) (NewNode ReplyNS ''reply'')))
                 (removeExtension ReplyNS [''reply''] m)
      in if fallbackPrefix \<noteq> []
         then AddFallback (prefix_range ReplyNS fallbackPrefix) (m1\<lparr>msg_Body := fallbackPrefix @ msg_Body m1\<rparr>)
         else m1)"

definition GetReply :: "message \<Rightarrow> reply \<times> bool" where
  "GetReply m =
     (case Message_Extension m ReplyNS ''reply'' of
        None \<Rightarrow> (Reply [] [], False)
      | Some n \<Rightarrow> (let r = Reply (or_empty (AttrValue ''to'' n)) (or_empty (AttrValue ''id'' n)) in (r, rp_ID r \<noteq> [])))"

definition SetRetraction :: "string \<Rightarrow> string \<Rightarrow> message \<Rightarrow> message" where
  "SetRetraction i fallback m =
     (let m1 = add_extension (id_node RetractionNS ''retract'' i) (removeExtension RetractionNS [''retract''] m)
      in if fallback \<noteq> []
         then AddFallback (prefix_range RetractionNS fallback) (m1\<lparr>msg_Body := fallback\<rparr>)
         else m1)"

definition RetractionID :: "message \<Rightarrow> string option" where
  "RetractionID m = nonempty_id (Message_Extension m RetractionNS ''retract'')"

definition SetReactions :: "string \<Rightarrow> string list \<Rightarrow> message \<Rightarrow> message" where
  "SetReactions i reactions m =
     add_extension
       (AddChildren (map (NewTextNode ReactionsNS ''reaction'') (uniq_acc {} (filter (\<lambda>r. r \<noteq> []) reactions)))
          (id_node ReactionsNS ''reactions'' i))
       (removeExtension ReactionsNS [''reactions''] m)"

definition GetReactions :: "message \<Rightarrow> (string \<times> string list) option" where
  "GetReactions m =
     map_option (\<lambda>n. (or_empty (AttrValue ''id'' n), map Text (filter (named ReactionsNS ''reaction'') (Children n))))
       (Message_Extension m ReactionsNS ''reactions'')"

subsection \<open>Attention, invitations, markup\<close>

definition AddAttention :: "message \<Rightarrow> message" where
  "AddAttention m =
     (if Message_Extension m AttentionNS ''attention'' = None then add_extension (NewNode AttentionNS ''attention'') m else m)"

definition SetDirectMUCInvite :: "string \<Rightarrow> string \<Rightarrow> string \<Rightarrow> string \<Rightarrow> message \<Rightarrow> message" where
  "SetDirectMUCInvite room password reason thread m =
     add_extension
       (SetAttrIf ''thread'' thread (SetAttrIf ''reason'' reason (SetAttrIf ''password'' password
         (SetAttr ''jid'' room (NewNode DirectMUCInviteNS ''x'')))))
       (removeExtension DirectMUCInviteNS [''x''] m)"

record markup_span =
  ms_Start :: int
  ms_End :: int
  ms_Styles :: "string list"

record markup =
  mu_Spans :: "markup_span list"
  mu_BlockQuotes :: "(int \<times> int) list"
  mu_Codes :: "(int \<times> int) list"

definition range_node :: "string \<Rightarrow> int \<Rightarrow> int \<Rightarrow> node" where
  "range_node local a b = SetAttr ''end'' (Itoa b) (SetAttr ''start'' (Itoa a) (NewNode MessageMarkupNS local))"

definition Markup_ToNode :: "markup \<Rightarrow> node" where
  "Markup_ToNode m =
     AddChildren (map (\<lambda>(a, b). range_node ''code'' a b) (mu_Codes m))
       (AddChildren (map (\<lambda>(a, b). range_node ''bquote'' a b) (mu_BlockQuotes m))
       (AddChildren (map (\<lambda>s. AddChildren (map (NewNode MessageMarkupNS) (ms_Styles s)) (range_node ''span'' (ms_Start s) (ms_End s))) (mu_Spans m))
         (NewNode MessageMarkupNS ''markup'')))"

record call_invite =
  ci_Action :: string
  ci_ID :: string
  ci_JID :: string
  ci_Video :: bool
  ci_Audio :: bool

definition CallInvite_ToNode :: "call_invite \<Rightarrow> node" where
  "CallInvite_ToNode c =
     AddChildIf (ci_Video c) (NewNode CallInvitesNS ''video'')
       (AddChildIf (ci_Audio c) (NewNode CallInvitesNS ''audio'')
       (SetAttrIf ''jid'' (ci_JID c) (id_node CallInvitesNS (ci_Action c) (ci_ID c))))"

subsection \<open>Slots\<close>

text \<open>
  A slot is the part of the extension list that one setter owns: the elements of a namespace
  with certain names. The setter puts a value that the getter finds, touches nothing outside
  the slot, and the getter looks at nothing else.
\<close>

definition in_slot :: "string \<Rightarrow> string list \<Rightarrow> node \<Rightarrow> bool" where
  "in_slot ns names n \<longleftrightarrow> Space (Name n) = ns \<and> Local (Name n) \<in> set names"

definition slot :: "(node \<Rightarrow> bool) \<Rightarrow> message \<Rightarrow> node list" where
  "slot p m = filter p (msg_Extensions m)"

locale extension_slot =
  fixes ns :: string
    and names :: "string list"
    and put :: "'a \<Rightarrow> message \<Rightarrow> message"
    and get :: "message \<Rightarrow> 'a option"
    and valid :: "'a \<Rightarrow> bool"
  assumes get_put: "valid v \<Longrightarrow> get (put v m) = Some v"
    and put_frame: "valid v \<Longrightarrow> slot (\<lambda>n. \<not> in_slot ns names n) (put v m) = slot (\<lambda>n. \<not> in_slot ns names n) m"
    and get_local: "slot (in_slot ns names) m = slot (in_slot ns names) m' \<Longrightarrow> get m = get m'"
begin

lemma get_put_last: "valid v \<Longrightarrow> get (put v (put w m)) = Some v"
  by (rule get_put)

text \<open>Nothing of another namespace changes, and the getter depends on its namespace only.\<close>

lemma put_other: "valid v \<Longrightarrow> ns' \<noteq> ns \<Longrightarrow> slot (\<lambda>n. Space (Name n) = ns') (put v m) = slot (\<lambda>n. Space (Name n) = ns') m"
proof -
  assume v: "valid v" and "ns' \<noteq> ns"
  from this(2) have "slot (\<lambda>n. Space (Name n) = ns') x = filter (\<lambda>n. Space (Name n) = ns') (slot (\<lambda>n. \<not> in_slot ns names n) x)" for x
    by (auto simp: slot_def in_slot_def intro: filter_cong)
  then show ?thesis by (simp add: put_frame[OF v])
qed

lemma get_other:
  assumes "slot (\<lambda>n. Space (Name n) = ns) m = slot (\<lambda>n. Space (Name n) = ns) m'"
  shows "get m = get m'"
proof (rule get_local)
  have "slot (in_slot ns names) x = filter (in_slot ns names) (slot (\<lambda>n. Space (Name n) = ns) x)" for x
    by (auto simp: slot_def in_slot_def intro: filter_cong)
  then show "slot (in_slot ns names) m = slot (in_slot ns names) m'" using assms by simp
qed

end

text \<open>All the setters replace the slot by one element.\<close>

lemma slot_put:
  "slot (\<lambda>n. \<not> in_slot ns names n) (removeExtension ns names m) = slot (\<lambda>n. \<not> in_slot ns names n) m"
  "in_slot ns names e \<Longrightarrow> slot (\<lambda>n. \<not> in_slot ns names n) (add_extension e m) = slot (\<lambda>n. \<not> in_slot ns names n) m"
  "slot (in_slot ns names) (removeExtension ns names m) = []"
  by (simp_all add: slot_def removeExtension_def add_extension_def in_slot_def filter_empty_conv)

lemma findExtension_find: "findExtension es ns l = find (\<lambda>n. Local (Name n) = l \<and> (ns = [] \<or> Space (Name n) = ns)) es"
  by (induction es) auto

lemma find_filter: "(\<And>x. p x \<Longrightarrow> q x) \<Longrightarrow> find p (filter q xs) = find p xs"
  by (induction xs) auto

lemma Message_Extension_slot:
  "l \<in> set names \<Longrightarrow> ns \<noteq> [] \<Longrightarrow> Message_Extension m ns l = find (\<lambda>n. Local (Name n) = l) (slot (in_slot ns names) m)"
proof -
  assume a: "l \<in> set names" "ns \<noteq> []"
  have "find (\<lambda>n. Local (Name n) = l) (filter (in_slot ns names) es)
      = find (\<lambda>n. Local (Name n) = l \<and> Space (Name n) = ns) es" for es
    using a(1) by (induction es) (auto simp: in_slot_def)
  then show ?thesis using a(2) by (simp add: Message_Extension_def findExtension_find slot_def)
qed

lemma Message_Extension_put:
  "Space (Name e) = ns \<Longrightarrow> ns \<noteq> [] \<Longrightarrow> l \<in> set names \<Longrightarrow>
   Message_Extension (add_extension e (removeExtension ns names m)) ns l = (if Local (Name e) = l then Some e else None)"
proof -
  assume a: "Space (Name e) = ns" "ns \<noteq> []" "l \<in> set names"
  have "find (\<lambda>n. Local (Name n) = l \<and> Space (Name n) = ns) (filter (\<lambda>n. \<not> (Space (Name n) = ns \<and> Local (Name n) \<in> set names)) es) = None" for es
    using a(3) by (auto simp: find_None_iff)
  then show ?thesis
    using a by (simp add: Message_Extension_def findExtension_find add_extension_def removeExtension_def find_append_split)
qed

lemma in_slot_named [simp]: "Name e = XName ns l \<Longrightarrow> in_slot ns names e \<longleftrightarrow> l \<in> set names"
  by (simp add: in_slot_def)

lemmas slot_eval = nonempty_id_def id_node_def Message_Extension_put slot_put Let_def

interpretation chat_state: extension_slot ChatStatesNS chat_states SetChatState GetChatState "\<lambda>s. s \<in> set chat_states"
proof
  fix v m assume v: "v \<in> set chat_states"
  then have put: "SetChatState v m = add_extension (NewNode ChatStatesNS v) (removeExtension ChatStatesNS chat_states m)"
    by (auto simp: SetChatState_def chat_states_def)
  have "GetChatState (SetChatState v m) = find (\<lambda>state. v = state) chat_states"
    unfolding GetChatState_def put by (rule find_cong) (simp_all add: Message_Extension_put)
  then show "GetChatState (SetChatState v m) = Some v" using v by (auto simp: chat_states_def)
  show "slot (\<lambda>n. \<not> in_slot ChatStatesNS chat_states n) (SetChatState v m) = slot (\<lambda>n. \<not> in_slot ChatStatesNS chat_states n) m"
    using v by (simp add: put slot_put)
next
  fix m m' assume "slot (in_slot ChatStatesNS chat_states) m = slot (in_slot ChatStatesNS chat_states) m'"
  then show "GetChatState m = GetChatState m'"
    unfolding GetChatState_def by (intro find_cong) (simp_all add: Message_Extension_slot[of _ chat_states])
qed

interpretation correction: extension_slot CorrectionNS "[''replace'']" SetCorrection CorrectionID "\<lambda>i. i \<noteq> []"
  by unfold_locales (simp add: SetCorrection_def CorrectionID_def slot_eval, simp add: SetCorrection_def CorrectionID_def slot_eval, simp add: SetCorrection_def CorrectionID_def Message_Extension_slot[of _ "[''replace'']"])

lemma find_map_cong: "(\<And>x. x \<in> set xs \<Longrightarrow> f x = g x) \<Longrightarrow> find_map f xs = find_map g xs"
  by (induction xs) (auto split: option.splits)

interpretation marker: extension_slot MarkersNS marker_types SetMarker GetMarker "\<lambda>mk. mk_Type mk \<in> set marker_types"
proof
  fix v m assume v: "mk_Type v \<in> set marker_types"
  have "GetMarker (SetMarker v m) = find_map (\<lambda>kind. if mk_Type v = kind then Some v else None) marker_types"
    unfolding GetMarker_def SetMarker_def by (rule find_map_cong) (cases v; simp add: Message_Extension_put)
  then show "GetMarker (SetMarker v m) = Some v" using v by (auto simp: marker_types_def)
  show "slot (\<lambda>n. \<not> in_slot MarkersNS marker_types n) (SetMarker v m) = slot (\<lambda>n. \<not> in_slot MarkersNS marker_types n) m"
    using v by (simp add: SetMarker_def slot_put)
next
  fix m m' assume "slot (in_slot MarkersNS marker_types) m = slot (in_slot MarkersNS marker_types) m'"
  then show "GetMarker m = GetMarker m'"
    unfolding GetMarker_def by (intro find_map_cong) (simp add: Message_Extension_slot[of _ marker_types])
qed

interpretation origin_id: extension_slot StanzaIDNS "[''origin-id'']" SetOriginID GetOriginID "\<lambda>i. i \<noteq> []"
  by unfold_locales (simp add: SetOriginID_def GetOriginID_def slot_eval, simp add: SetOriginID_def GetOriginID_def slot_eval, simp add: SetOriginID_def GetOriginID_def Message_Extension_slot[of _ "[''origin-id'']"])

interpretation encryption: extension_slot EncryptionNS "[''encryption'']" SetEncryptionInfo GetEncryptionInfo "\<lambda>i. True"
  by unfold_locales (simp add: SetEncryptionInfo_def GetEncryptionInfo_def slot_eval, simp add: SetEncryptionInfo_def GetEncryptionInfo_def slot_eval, simp add: SetEncryptionInfo_def GetEncryptionInfo_def Message_Extension_slot[of _ "[''encryption'']"])

interpretation spoiler: extension_slot SpoilerNS "[''spoiler'']" SetSpoiler Spoiler "\<lambda>i. True"
  by unfold_locales (simp add: SetSpoiler_def Spoiler_def slot_eval, simp add: SetSpoiler_def Spoiler_def slot_eval, simp add: SetSpoiler_def Spoiler_def Message_Extension_slot[of _ "[''spoiler'']"])

interpretation occupant_id: extension_slot OccupantIDNS "[''occupant-id'']" SetOccupantID OccupantID "\<lambda>i. i \<noteq> []"
  by unfold_locales (simp add: SetOccupantID_def OccupantID_def slot_eval, simp add: SetOccupantID_def OccupantID_def slot_eval, simp add: SetOccupantID_def OccupantID_def Message_Extension_slot[of _ "[''occupant-id'']"])

definition reply_of :: "message \<Rightarrow> reply option" where
  "reply_of m = (case GetReply m of (r, ok) \<Rightarrow> if ok then Some r else None)"

interpretation reply: extension_slot ReplyNS "[''reply'']" "\<lambda>r. SetReply r []" reply_of "\<lambda>r. rp_ID r \<noteq> []"
  by unfold_locales (simp add: SetReply_def GetReply_def reply_of_def slot_eval, simp add: SetReply_def GetReply_def reply_of_def slot_eval, simp add: SetReply_def GetReply_def reply_of_def Message_Extension_slot[of _ "[''reply'']"])

interpretation retraction: extension_slot RetractionNS "[''retract'']" "\<lambda>i. SetRetraction i []" RetractionID "\<lambda>i. i \<noteq> []"
  by unfold_locales (simp add: SetRetraction_def RetractionID_def slot_eval, simp add: SetRetraction_def RetractionID_def slot_eval, simp add: SetRetraction_def RetractionID_def Message_Extension_slot[of _ "[''retract'']"])

text \<open>A reaction list is kept as it is when it has no empty and no repeated entry.\<close>

interpretation reactions: extension_slot ReactionsNS "[''reactions'']" "\<lambda>v. SetReactions (fst v) (snd v)" GetReactions
  "\<lambda>v. distinct (snd v) \<and> [] \<notin> set (snd v)"
proof
  fix v :: "string \<times> string list" and m :: message
  assume "distinct (snd v) \<and> [] \<notin> set (snd v)"
  then have ok: "distinct (snd v)" "filter (\<lambda>r. r \<noteq> []) (snd v) = snd v" by (auto simp: filter_id_conv)
  have "map Text (filter (named ReactionsNS ''reaction'') (map (NewTextNode ReactionsNS ''reaction'') xs)) = xs" for xs
    by (induction xs) auto
  then show "GetReactions (SetReactions (fst v) (snd v) m) = Some v"
    using ok by (simp add: SetReactions_def GetReactions_def uniq_acc_id slot_eval)
  show "slot (\<lambda>n. \<not> in_slot ReactionsNS [''reactions''] n) (SetReactions (fst v) (snd v) m)
      = slot (\<lambda>n. \<not> in_slot ReactionsNS [''reactions''] n) m"
    by (simp add: SetReactions_def slot_eval)
qed (simp add: GetReactions_def Message_Extension_slot[of _ "[''reactions'']"])

subsection \<open>Annotations of one message\<close>

datatype annotation =
    AChatState string | ACorrection string | AMarker marker | AOriginID string | AEncryption encryption_info
  | ASpoiler string | AOccupantID string | AReply reply | ARetraction string | AReactions "string \<times> string list"

text \<open>The namespace an annotation lives in, the setter it stands for, and the values the getters
  recognise.\<close>

fun ann_ns :: "annotation \<Rightarrow> string" where
  "ann_ns (AChatState x) = ChatStatesNS" | "ann_ns (ACorrection x) = CorrectionNS"
| "ann_ns (AMarker x) = MarkersNS" | "ann_ns (AOriginID x) = StanzaIDNS"
| "ann_ns (AEncryption x) = EncryptionNS" | "ann_ns (ASpoiler x) = SpoilerNS"
| "ann_ns (AOccupantID x) = OccupantIDNS" | "ann_ns (AReply x) = ReplyNS"
| "ann_ns (ARetraction x) = RetractionNS" | "ann_ns (AReactions x) = ReactionsNS"

fun annotate :: "annotation \<Rightarrow> message \<Rightarrow> message" where
  "annotate (AChatState x) = SetChatState x" | "annotate (ACorrection x) = SetCorrection x"
| "annotate (AMarker x) = SetMarker x" | "annotate (AOriginID x) = SetOriginID x"
| "annotate (AEncryption x) = SetEncryptionInfo x" | "annotate (ASpoiler x) = SetSpoiler x"
| "annotate (AOccupantID x) = SetOccupantID x" | "annotate (AReply x) = SetReply x []"
| "annotate (ARetraction x) = SetRetraction x []" | "annotate (AReactions x) = SetReactions (fst x) (snd x)"

fun ann_valid :: "annotation \<Rightarrow> bool" where
  "ann_valid (AChatState x) \<longleftrightarrow> x \<in> set chat_states" | "ann_valid (ACorrection x) \<longleftrightarrow> x \<noteq> []"
| "ann_valid (AMarker x) \<longleftrightarrow> mk_Type x \<in> set marker_types" | "ann_valid (AOriginID x) \<longleftrightarrow> x \<noteq> []"
| "ann_valid (AEncryption x) \<longleftrightarrow> True" | "ann_valid (ASpoiler x) \<longleftrightarrow> True"
| "ann_valid (AOccupantID x) \<longleftrightarrow> x \<noteq> []" | "ann_valid (AReply x) \<longleftrightarrow> rp_ID x \<noteq> []"
| "ann_valid (ARetraction x) \<longleftrightarrow> x \<noteq> []" | "ann_valid (AReactions x) \<longleftrightarrow> distinct (snd x) \<and> [] \<notin> set (snd x)"

definition read_annotation :: "string \<Rightarrow> message \<Rightarrow> annotation option" where
  "read_annotation ns m =
     (if ns = ChatStatesNS then map_option AChatState (GetChatState m)
      else if ns = CorrectionNS then map_option ACorrection (CorrectionID m)
      else if ns = MarkersNS then map_option AMarker (GetMarker m)
      else if ns = StanzaIDNS then map_option AOriginID (GetOriginID m)
      else if ns = EncryptionNS then map_option AEncryption (GetEncryptionInfo m)
      else if ns = SpoilerNS then map_option ASpoiler (Spoiler m)
      else if ns = OccupantIDNS then map_option AOccupantID (OccupantID m)
      else if ns = ReplyNS then map_option AReply (reply_of m)
      else if ns = RetractionNS then map_option ARetraction (RetractionID m)
      else if ns = ReactionsNS then map_option AReactions (GetReactions m)
      else None)"

lemma read_annotate: "ann_valid a \<Longrightarrow> read_annotation (ann_ns a) (annotate a m) = Some a"
  by (cases a)
     (simp_all add: read_annotation_def chat_state.get_put correction.get_put marker.get_put origin_id.get_put
        encryption.get_put spoiler.get_put occupant_id.get_put reply.get_put retraction.get_put reactions.get_put)

lemma annotate_other:
  "ann_valid a \<Longrightarrow> ns \<noteq> ann_ns a \<Longrightarrow> slot (\<lambda>n. Space (Name n) = ns) (annotate a m) = slot (\<lambda>n. Space (Name n) = ns) m"
  by (cases a)
     (simp_all add: chat_state.put_other correction.put_other marker.put_other origin_id.put_other
        encryption.put_other spoiler.put_other occupant_id.put_other reply.put_other retraction.put_other reactions.put_other)

lemma read_local:
  "slot (\<lambda>n. Space (Name n) = ns) m = slot (\<lambda>n. Space (Name n) = ns) m' \<Longrightarrow> read_annotation ns m = read_annotation ns m'"
  unfolding read_annotation_def
  by (intro if_cong refl arg_cong2[where f = map_option])
     (simp_all add: chat_state.get_other[of m m'] correction.get_other[of m m'] marker.get_other[of m m']
        origin_id.get_other[of m m'] encryption.get_other[of m m'] spoiler.get_other[of m m']
        occupant_id.get_other[of m m'] reply.get_other[of m m'] retraction.get_other[of m m'] reactions.get_other[of m m'])

lemma annotate_frame:
  "list_all ann_valid as \<Longrightarrow> ns \<notin> ann_ns ` set as \<Longrightarrow>
   slot (\<lambda>n. Space (Name n) = ns) (fold annotate as m) = slot (\<lambda>n. Space (Name n) = ns) m"
  by (induction as arbitrary: m) (auto simp: annotate_other)

lemma read_fold_annotate:
  assumes "list_all ann_valid as"
  shows "read_annotation ns (fold annotate as m) =
    (case find (\<lambda>a. ann_ns a = ns) (rev as) of Some a \<Rightarrow> Some a | None \<Rightarrow> read_annotation ns m)"
  using assms
proof (induction as rule: rev_induct)
  case (snoc a as)
  show ?case
  proof (cases "ann_ns a = ns")
    case True
    then show ?thesis using snoc.prems by (auto simp: read_annotate)
  next
    case False
    then have "read_annotation ns (annotate a (fold annotate as m)) = read_annotation ns (fold annotate as m)"
      using snoc.prems by (intro read_local annotate_other) auto
    then show ?thesis using snoc False by simp
  qed
qed simp

subsection \<open>The payload codecs\<close>

definition int_attr_valid :: "int option \<Rightarrow> int option \<Rightarrow> bool" where
  "int_attr_valid a b \<longleftrightarrow> int64_opt a \<and> int64_opt b"

lemma int_attr_Itoa: "int64_opt v \<Longrightarrow> AttrValue k n = map_option Itoa v \<Longrightarrow> int_attr k n = Inr v"
  by (cases v) (simp_all add: int_attr_def int64_opt_def)

lemma int_range_Itoa:
  "int64_opt x \<Longrightarrow> int64_opt y \<Longrightarrow> AttrValue a n = map_option Itoa x \<Longrightarrow> AttrValue b n = map_option Itoa y \<Longrightarrow>
   int_range swap a b n = Inr (x, y)"
  by (simp add: int_range_def int_attr_Itoa)

lemma int_attr_blind: "k \<noteq> ''xmlns'' \<Longrightarrow> int_attr k (strip_xmlns n) = int_attr k n"
  by (simp add: int_attr_def)

lemma int_range_blind:
  assumes "a \<noteq> ''xmlns''" "b \<noteq> ''xmlns''"
  shows "int_range swap a b (strip_xmlns n) = int_range swap a b n"
  unfolding int_range_def int_attr_blind[OF assms(1)] int_attr_blind[OF assms(2)] by (rule refl)

lemma AttrValue_SetAttrOpt_map:
  "AttrValue k n = None \<Longrightarrow> AttrValue k (SetAttrOpt k (map_option f v) n) = map_option f v"
  by (cases v) simp_all

interpretation reference_codec: payload_codec Reference_ToNode "ParseReference swap" "\<lambda>r. int_attr_valid (ref_Begin r) (ref_End r)" for swap
proof
  fix r :: reference and n :: node
  show "ParseReference swap (Reference_ToNode r) = Inr r" if "int_attr_valid (ref_Begin r) (ref_End r)"
  proof -
    have "int_range swap ''begin'' ''end'' (Reference_ToNode r) = Inr (ref_Begin r, ref_End r)"
      using that by (intro int_range_Itoa) (auto simp: int_attr_valid_def Reference_ToNode_def AttrValue_SetAttrOpt_map)
    then show ?thesis by (simp add: ParseReference_def) (simp add: Reference_ToNode_def)
  qed
  show "well_built (Reference_ToNode r)" unfolding Reference_ToNode_def by (intro inv_intros) simp_all
  show "ParseReference swap (strip_xmlns n) = ParseReference swap n"
    by (simp add: ParseReference_def int_range_blind split: sum.splits)
qed

interpretation fallback_body_codec: payload_codec fallback_body_node parse_fallback_body "\<lambda>b. int_attr_valid (fb_Start b) (fb_End b)"
proof
  fix b :: fallback_body and n :: node
  show "parse_fallback_body (fallback_body_node b) = Inr b" if "int_attr_valid (fb_Start b) (fb_End b)"
  proof -
    have "int_range False ''start'' ''end'' (fallback_body_node b) = Inr (fb_Start b, fb_End b)"
      using that by (intro int_range_Itoa) (auto simp: int_attr_valid_def fallback_body_node_def AttrValue_SetAttrOpt_map)
    then show ?thesis by (simp add: parse_fallback_body_def)
  qed
  show "well_built (fallback_body_node b)" unfolding fallback_body_node_def by (intro inv_intros) simp_all
  show "parse_fallback_body (strip_xmlns n) = parse_fallback_body n"
    by (simp add: parse_fallback_body_def int_range_blind)
qed

definition fallback_valid :: "fallback \<Rightarrow> bool" where
  "fallback_valid f \<longleftrightarrow> list_all (\<lambda>b. int_attr_valid (fb_Start b) (fb_End b)) (fal_Bodies f)"

lemma Name_fallback_nodes [simp]:
  "Name (fallback_body_node b) = XName FallbackNS ''body''" "Name (Fallback_ToNode f) = XName FallbackNS ''fallback''"
  by (simp_all add: fallback_body_node_def Fallback_ToNode_def)

interpretation fallback_codec: payload_codec Fallback_ToNode parse_fallback fallback_valid
proof
  fix f :: fallback and n :: node
  have "filter (\<lambda>b. Local (Name b) = ''body'') (map fallback_body_node bs) = map fallback_body_node bs" for bs
    by (induction bs) auto
  then show "parse_fallback (Fallback_ToNode f) = Inr f" if "fallback_valid f"
    using that fallback_body_codec.decode_list[of "fal_Bodies f"]
    by (simp add: parse_fallback_def fallback_valid_def) (simp add: Fallback_ToNode_def)
  show "well_built (Fallback_ToNode f)"
    unfolding Fallback_ToNode_def by (intro inv_intros) (auto intro: fallback_body_codec.encode_built)
  show "parse_fallback (strip_xmlns n) = parse_fallback n"
    by (simp add: parse_fallback_def filter_strip map_result_strip fallback_body_codec.decode_blind split: sum.splits)
qed

subsection \<open>Stripping a prefix again\<close>

lemma Fallbacks_add:
  assumes "Fallbacks m = Inr fs" "fallback_valid f"
  shows "Fallbacks (AddFallback f m) = Inr (fs @ [f])"
  using assms fallback_codec.decode_encode[of f]
  by (simp add: Fallbacks_def AddFallback_def add_extension_def map_result_append named_def)

lemma Fallbacks_other:
  "Space (Name e) \<noteq> FallbackNS \<Longrightarrow> ns \<noteq> FallbackNS \<Longrightarrow> Fallbacks (add_extension e (removeExtension ns names m)) = Fallbacks m"
proof -
  assume a: "Space (Name e) \<noteq> FallbackNS" "ns \<noteq> FallbackNS"
  have "filter (named FallbackNS ''fallback'') (msg_Extensions (add_extension e (removeExtension ns names m)))
      = filter (named FallbackNS ''fallback'') (msg_Extensions m)"
    using a by (auto simp: add_extension_def removeExtension_def named_def intro: filter_cong)
  then show ?thesis by (simp add: Fallbacks_def)
qed

lemma Fallbacks_body [simp]: "Fallbacks (m\<lparr>msg_Body := b\<rparr>) = Fallbacks m"
  by (simp add: Fallbacks_def)

lemma first_range_last:
  "\<forall>f\<in>set fs. fal_For f \<noteq> ns \<Longrightarrow> first_range ns (fs @ [prefix_range ns p]) = Some \<lparr>fb_Start = Some 0, fb_End = Some (int (length (runes p)))\<rparr>"
proof -
  assume "\<forall>f\<in>set fs. fal_For f \<noteq> ns"
  then have "filter (\<lambda>f. fal_For f = ns) fs = []" by (simp add: filter_empty_conv)
  then show ?thesis by (simp add: first_range_def prefix_range_def)
qed

lemma StripFallback_prefix:
  assumes "Fallbacks m = Inr (fs @ [prefix_range ns p])" "\<forall>f\<in>set fs. fal_For f \<noteq> ns"
    and "msg_Body m = p @ b" "utf8 p" "utf8 b"
  shows "StripFallback ns m = (m\<lparr>msg_Body := b\<rparr>, None)"
  using assms by (simp add: StripFallback_def first_range_last Let_def runes_append utf8_def)

subsection \<open>The filtering loop in place\<close>

text \<open>
  \<^verbatim>\<open>out := message.Extensions[:0]\<close> makes the loop write into the backing array it reads:
  \<open>compact keep arr i n w\<close> continues at read index \<open>i\<close> of \<open>n\<close> with write index \<open>w\<close> and returns the
  array and the length of the new slice.
\<close>

function compact :: "('a \<Rightarrow> bool) \<Rightarrow> 'a list \<Rightarrow> nat \<Rightarrow> nat \<Rightarrow> nat \<Rightarrow> 'a list \<times> nat" where
  "compact keep arr i n w =
     (if i \<ge> n then (arr, w)
      else if keep (arr ! i) then compact keep (arr[w := arr ! i]) (Suc i) n (Suc w)
      else compact keep arr (Suc i) n w)"
  by auto
termination
  by (relation "measure (\<lambda>(keep, arr, i, n, w). n - i)") auto

declare compact.simps [simp del]

definition removeExtension_array :: "string \<Rightarrow> string list \<Rightarrow> node list \<Rightarrow> node list \<times> nat" where
  "removeExtension_array namespace locals arr =
     compact (\<lambda>n. \<not> (Space (Name n) = namespace \<and> Local (Name n) \<in> set locals)) arr 0 (length arr) 0"

lemma compact_filter:
  assumes "w \<le> i" "i \<le> n" "n \<le> length arr"
  shows "compact keep arr i n w =
    (let kept = filter keep (drop i (take n arr)) in
     (take w arr @ kept @ drop (w + length kept) arr, w + length kept))"
  using assms
proof (induction keep arr i n w rule: compact.induct)
  case (1 keep arr i n w)
  show ?case
  proof (cases "i = n")
    case True
    then show ?thesis by (subst compact.simps) simp
  next
    case False
    with "1.prems" have i: "i < n" by simp
    then have d: "drop i (take n arr) = arr ! i # drop (Suc i) (take n arr)"
      using "1.prems" by (metis Cons_nth_drop_Suc length_take min.absorb2 nth_take)
    show ?thesis
    proof (cases "keep (arr ! i)")
      case True
      have w: "w < length arr" using "1.prems" i by simp
      have same: "drop (Suc i) (take n (arr[w := arr ! i])) = drop (Suc i) (take n arr)"
        using "1.prems" by (simp add: take_update_swap drop_update_cancel)
      have "compact keep (arr[w := arr ! i]) (Suc i) n (Suc w) =
          (let kept = filter keep (drop (Suc i) (take n arr)) in
           (take (Suc w) (arr[w := arr ! i]) @ kept @ drop (Suc w + length kept) (arr[w := arr ! i]), Suc w + length kept))"
        using "1.IH"(1) i True "1.prems" unfolding same by (simp add: same)
      moreover have "take (Suc w) (arr[w := arr ! i]) = take w arr @ [arr ! i]"
        using w by (simp add: take_Suc_conv_app_nth)
      moreover have "drop (Suc w + k) (arr[w := arr ! i]) = drop (Suc w + k) arr" for k by simp
      ultimately show ?thesis using i True by (subst compact.simps) (simp add: Let_def d)
    next
      case False
      then show ?thesis using "1.IH"(2) i "1.prems" by (subst compact.simps) (simp add: Let_def d)
    qed
  qed
qed

subsection \<open>Properties\<close>



text \<open>C20: a reply with a quoted prefix can be undone by the reader: stripping the reply fallback gives
  back the body the sender wrote, character by character, and the reply reference is still
  readable. The range is counted in characters, so this needs well-formed UTF-8.\<close>

theorem reply_fallback_stripped:
  assumes "utf8 p" "utf8 (msg_Body m)" "p \<noteq> []" "int64 (int (length (runes p)))" "rp_ID r \<noteq> []"
    and "Fallbacks m = Inr fs" "\<forall>f\<in>set fs. fal_For f \<noteq> ReplyNS"
  shows "\<exists>m'. StripFallback ReplyNS (SetReply r p m) = (m', None)
    \<and> msg_Body m' = msg_Body m \<and> msg_Body (SetReply r p m) = p @ msg_Body m \<and> GetReply m' = (r, True)"
proof -
  let ?e = "SetAttr ''id'' (rp_ID r) (SetAttr ''to'' (rp_To r) (NewNode ReplyNS ''reply''))"
  let ?m1 = "add_extension ?e (removeExtension ReplyNS [''reply''] m)"
  let ?m2 = "AddFallback (prefix_range ReplyNS p) (?m1\<lparr>msg_Body := p @ msg_Body ?m1\<rparr>)"
  have body: "msg_Body ?m1 = msg_Body m" "msg_Body ?m2 = p @ msg_Body m"
    by (simp_all add: add_extension_def removeExtension_def AddFallback_def)
  have set: "SetReply r p m = ?m2" using assms(3) by (simp add: SetReply_def Let_def)
  have "fallback_valid (prefix_range ReplyNS p)"
    using assms(4) by (simp add: fallback_valid_def prefix_range_def int_attr_valid_def int64_opt_def int64_def)
  then have "Fallbacks ?m2 = Inr (fs @ [prefix_range ReplyNS p])"
    using assms(6) by (intro Fallbacks_add) (simp_all add: Fallbacks_other)
  then have strip: "StripFallback ReplyNS ?m2 = (?m2\<lparr>msg_Body := msg_Body m\<rparr>, None)"
    using assms body(2) by (intro StripFallback_prefix)
  have "Message_Extension (?m2\<lparr>msg_Body := msg_Body m\<rparr>) ReplyNS ''reply'' = Message_Extension ?m1 ReplyNS ''reply''"
    by (simp add: Message_Extension_def findExtension_find AddFallback_def add_extension_def find_append_split split: option.splits)
  then have "GetReply (?m2\<lparr>msg_Body := msg_Body m\<rparr>) = (r, True)"
    using assms(5) by (cases r) (simp add: GetReply_def Message_Extension_put)
  then show ?thesis using strip body set by auto
qed

theorem reply_fallback_stripped_witness:
  "\<exists>m'. StripFallback ReplyNS (SetReply (Reply ''a@example'' ''m1'') ''> q'' (message0\<lparr>msg_Body := ''answer''\<rparr>)) = (m', None)
     \<and> msg_Body m' = ''answer''"
proof -
  let ?m = "message0\<lparr>msg_Body := ''answer''\<rparr>"
  have u: "utf8 ''> q''" by (simp add: utf8_ascii)
  have a: "utf8 (msg_Body ?m)" by (simp add: utf8_ascii)
  have l: "length (runes ''> q'') = 3" by (simp add: runes_ascii)
  have f: "Fallbacks ?m = Inr []" by (simp add: Fallbacks_def message0_def)
  have "msg_Body ?m = ''answer''" by simp
  then show ?thesis
    using reply_fallback_stripped[OF u a _ _ _ f, of "Reply ''a@example'' ''m1''"] unfolding l by (auto simp: int64_def)
qed

text \<open>The loop of \<^verbatim>\<open>removeExtension\<close> computes the filtered list in place, and therefore also
  changes what a copy of the message sees: the copy keeps its length and reads the kept
  elements first and the old ones behind them, so extensions appear twice and others are
  gone.\<close>

theorem removeExtension_in_place:
  "case removeExtension_array ns names (msg_Extensions m) of (arr, w) \<Rightarrow>
     take w arr = msg_Extensions (removeExtension ns names m)
     \<and> take (length (msg_Extensions m)) arr = msg_Extensions (removeExtension ns names m) @ drop w (msg_Extensions m)"
  by (simp add: removeExtension_array_def compact_filter Let_def removeExtension_def)

end
