(* ===== verification/Go_Time.thy ===== *)
theory Go_Time
  imports Errors
begin

text \<open>
  The part of Go's \<^verbatim>\<open>time\<close> package that \<^verbatim>\<open>src/xep/datetime.go\<close> uses: instants with a zone offset,
  the proleptic Gregorian calendar, \<^verbatim>\<open>Time.Format\<close> for the one layout the library writes, and
  \<^verbatim>\<open>time.Parse\<close> as an interpreter of the layout chunks it recognises, with the liberties Go's
  parser takes (a one-digit hour, a comma or a point before the fraction, a fraction where
  the layout has none, offsets up to 24:60).
\<close>

text \<open>Unix seconds, nanoseconds within the second, and the offset of the zone in seconds.\<close>

record gotime =
  tm_sec :: int
  tm_nsec :: int
  tm_offset :: int

definition tm_valid :: "gotime \<Rightarrow> bool" where
  "tm_valid t \<longleftrightarrow> 0 \<le> tm_nsec t \<and> tm_nsec t < 1000000000"

text \<open>The zero time is the first instant of year 1.\<close>

definition IsZero :: "gotime \<Rightarrow> bool" where
  "IsZero t \<longleftrightarrow> tm_sec t = - 62135596800 \<and> tm_nsec t = 0"

definition zero_time :: gotime where
  "zero_time = \<lparr>tm_sec = - 62135596800, tm_nsec = 0, tm_offset = 0\<rparr>"

definition UTC :: "gotime \<Rightarrow> gotime" where
  "UTC t = t\<lparr>tm_offset := 0\<rparr>"

subsection \<open>The calendar\<close>

definition leap :: "int \<Rightarrow> bool" where
  "leap y \<longleftrightarrow> y mod 4 = 0 \<and> (y mod 100 \<noteq> 0 \<or> y mod 400 = 0)"

definition month_lengths :: "int \<Rightarrow> int list" where
  "month_lengths y = [31, if leap y then 29 else 28, 31, 30, 31, 30, 31, 31, 30, 31, 30, 31]"

text \<open>Days from the first day of year 0 to the first day of year \<open>y\<close>.\<close>

definition days_before :: "int \<Rightarrow> int" where
  "days_before y = 365 * y + (y + 3) div 4 - (y + 99) div 100 + (y + 399) div 400"

definition epoch_day :: int where "epoch_day = 719528"

definition year_of :: "int \<Rightarrow> int" where
  "year_of d =
     (let y = d * 400 div 146097
      in if d < days_before y then y - 1 else if days_before (y + 1) \<le> d then y + 1 else y)"

fun month_day :: "int \<Rightarrow> int list \<Rightarrow> int \<Rightarrow> int \<times> int" where
  "month_day m [] doy = (m, doy + 1)"
| "month_day m (l # ls) doy = (if doy < l then (m, doy + 1) else month_day (m + 1) ls (doy - l))"

definition civil :: "int \<Rightarrow> int \<times> int \<times> int" where
  "civil d = (let y = year_of d; (m, dd) = month_day 1 (month_lengths y) (d - days_before y) in (y, m, dd))"

definition days_civil :: "int \<Rightarrow> int \<Rightarrow> int \<Rightarrow> int" where
  "days_civil y m d = days_before y + sum_list (take (nat (m - 1)) (month_lengths y)) + d - 1"

definition daysIn :: "int \<Rightarrow> int \<Rightarrow> int" where
  "daysIn m y = month_lengths y ! nat (m - 1)"

lemma int_div_bounds: "0 < k \<Longrightarrow> k * (a div k) \<le> a \<and> a < k * (a div k) + (k :: int)"
  using pos_mod_bound[of k a] pos_mod_sign[of k a] mult_div_mod_eq[of k a] by linarith

lemma div_Suc_mod: "0 < k \<Longrightarrow> (a + 1) div k = a div k + (if (a + 1) mod k = 0 then 1 else (0 :: int))"
proof -
  assume k: "0 < k"
  let ?q = "a div k" and ?r = "a mod k"
  have r: "0 \<le> ?r" "?r < k" "a = k * ?q + ?r" using k by simp_all
  show ?thesis
  proof (cases "?r + 1 = k")
    case True
    then have "a + 1 = k * (?q + 1)" using r(3) unfolding distrib_left mult_1_right by linarith
    then show ?thesis using k by (metis mod_mult_self1_is_0 nonzero_mult_div_cancel_left less_irrefl)
  next
    case False
    then have lt: "?r + 1 < k" using r(2) by linarith
    have eq: "a + 1 = k * ?q + (?r + 1)" using r(3) by linarith
    have d: "(a + 1) div k = ?q" and m: "(a + 1) mod k = ?r + 1"
      using int_div_pos_eq[OF eq _ lt] int_mod_pos_eq[OF eq _ lt] r(1) by simp_all
    show ?thesis using r(1) d m by simp
  qed
qed

lemma days_before_Suc: "days_before (y + 1) = days_before y + (if leap y then 366 else 365)"
proof -
  have c: "((y + c) + 1) mod k = 0 \<longleftrightarrow> y mod k = 0" if "c = k - 1" for c k :: int
    using that by (metis add.assoc add_diff_cancel_right' diff_add_cancel mod_add_self2)
  have 4: "(y + 4) div 4 = (y + 3) div 4 + (if y mod 4 = 0 then 1 else 0)"
    using div_Suc_mod[of 4 "y + 3"] c[of 3 4] by simp
  have 100: "(y + 100) div 100 = (y + 99) div 100 + (if y mod 100 = 0 then 1 else 0)"
    using div_Suc_mod[of 100 "y + 99"] c[of 99 100] by simp
  have 400: "(y + 400) div 400 = (y + 399) div 400 + (if y mod 400 = 0 then 1 else 0)"
    using div_Suc_mod[of 400 "y + 399"] c[of 399 400] by simp
  have dvd: "y mod 400 = 0 \<Longrightarrow> y mod 100 = 0" "y mod 100 = 0 \<Longrightarrow> y mod 4 = 0"
    using mod_mod_cancel[of 100 400 y] mod_mod_cancel[of 4 100 y] by simp_all
  have "y + 1 + 3 = y + 4" "y + 1 + 99 = y + 100" "y + 1 + 399 = y + 400" "365 * (y + 1) = 365 * y + 365" by simp_all
  then have "days_before (y + 1) = 365 * y + 365 + (y + 4) div 4 - (y + 100) div 100 + (y + 400) div 400"
    unfolding days_before_def by (simp only:)
  then have "days_before (y + 1) = days_before y + 365
      + (if y mod 4 = 0 then 1 else 0) - (if y mod 100 = 0 then 1 else 0) + (if y mod 400 = 0 then 1 else 0)"
    unfolding 4 100 400 days_before_def[of y] by linarith
  then show ?thesis
    using dvd unfolding leap_def
    by (cases "y mod 4 = 0"; cases "y mod 100 = 0"; cases "y mod 400 = 0") (simp_all only: if_True if_False simp_thms)
qed

lemma days_before_bounds:
  "146097 * y - 696 \<le> 400 * days_before y" "400 * days_before y \<le> 146097 * y + 703"
  using int_div_bounds[of 4 "y + 3"] int_div_bounds[of 100 "y + 99"] int_div_bounds[of 400 "y + 399"]
  unfolding days_before_def by simp_all

lemma year_of_bounds: "days_before (year_of d) \<le> d \<and> d < days_before (year_of d + 1)"
proof -
  define y where "y = d * 400 div 146097"
  have y: "146097 * y \<le> d * 400" "d * 400 < 146097 * y + 146097"
    using int_div_bounds[of 146097 "d * 400"] unfolding y_def by simp_all
  consider "d < days_before y" | "days_before (y + 1) \<le> d" "days_before y \<le> d" | "days_before y \<le> d" "d < days_before (y + 1)"
    by linarith
  then show ?thesis
  proof cases
    case 1
    then have "year_of d = y - 1" by (simp add: year_of_def Let_def y_def)
    moreover have "days_before (y - 1) \<le> d" using y(1) days_before_bounds(2)[of "y - 1"] by simp
    ultimately show ?thesis using 1 by simp
  next
    case 2
    then have "year_of d = y + 1" by (simp add: year_of_def Let_def y_def)
    moreover have "d < days_before (y + 2)" using y(2) days_before_bounds(1)[of "y + 2"] by simp
    ultimately show ?thesis using 2 by (simp add: add.assoc)
  next
    case 3
    then show ?thesis by (simp add: year_of_def Let_def y_def)
  qed
qed

lemma month_day_correct:
  assumes "0 \<le> doy" "doy < sum_list ls" "month_day m0 ls doy = (m, dd)"
  shows "m0 \<le> m \<and> m < m0 + int (length ls) \<and> 1 \<le> dd \<and> dd \<le> ls ! nat (m - m0)
    \<and> sum_list (take (nat (m - m0)) ls) + dd - 1 = doy"
  using assms
proof (induction m0 ls doy rule: month_day.induct)
  case (2 m0 l ls doy)
  show ?case
  proof (cases "doy < l")
    case True
    then show ?thesis using 2 by auto
  next
    case False
    then have ih: "m0 + 1 \<le> m \<and> m < m0 + 1 + int (length ls) \<and> 1 \<le> dd \<and> dd \<le> ls ! nat (m - (m0 + 1))
      \<and> sum_list (take (nat (m - (m0 + 1))) ls) + dd - 1 = doy - l"
      using 2 by auto
    then have "nat (m - m0) = Suc (nat (m - (m0 + 1)))" by (simp add: nat_eq_iff)
    then show ?thesis using ih by simp
  qed
qed simp

lemma sum_month_lengths: "sum_list (month_lengths y) = (if leap y then 366 else 365)"
  by (simp add: month_lengths_def)

lemma civil_correct:
  assumes "civil d = (y, m, dd)"
  shows "1 \<le> m" "m \<le> 12" "1 \<le> dd" "dd \<le> daysIn m y" "days_civil y m dd = d"
proof -
  let ?y = "year_of d"
  have md: "month_day 1 (month_lengths ?y) (d - days_before ?y) = (m, dd)" and y: "y = ?y"
    using assms by (auto simp: civil_def Let_def split: prod.splits)
  have "0 \<le> d - days_before ?y" "d - days_before ?y < sum_list (month_lengths ?y)"
    using year_of_bounds[of d] days_before_Suc[of ?y] by (auto simp: sum_month_lengths)
  from month_day_correct[OF this md] show "1 \<le> m" "m \<le> 12" "1 \<le> dd" "dd \<le> daysIn m y" "days_civil y m dd = d"
    by (auto simp: y daysIn_def days_civil_def month_lengths_def)
qed

lemma daysIn_le_31: "1 \<le> m \<Longrightarrow> m \<le> 12 \<Longrightarrow> daysIn m y \<le> 31"
proof -
  assume "1 \<le> m" "m \<le> 12"
  then have "month_lengths y ! nat (m - 1) \<in> set (month_lengths y)" by (intro nth_mem) (simp add: month_lengths_def)
  then show ?thesis by (auto simp: daysIn_def month_lengths_def split: if_splits)
qed

subsection \<open>Formatting\<close>

text \<open>\<^verbatim>\<open>appendInt(b, x, 2)\<close> for the fields below 100, and the padding of years and milliseconds.\<close>

definition two :: "int \<Rightarrow> string" where
  "two n = [digit_char (nat n div 10), digit_char (nat n mod 10)]"

definition three :: "int \<Rightarrow> string" where
  "three n = digit_char (nat n div 100) # two (n mod 100)"

definition pad4 :: "int \<Rightarrow> string" where
  "pad4 n = (if n < 10000 then two (n div 100) @ two (n mod 100) else FormatNat 10 (nat n))"

definition year_text :: "int \<Rightarrow> string" where
  "year_text y = (if y < 0 then CHR ''-'' # pad4 (- y) else pad4 y)"

text \<open>\<^verbatim>\<open>t.Format("2006-01-02T15:04:05.000Z")\<close> of a time in UTC: the fraction is truncated.\<close>

definition FormatMillis :: "gotime \<Rightarrow> string" where
  "FormatMillis t =
     (let (y, m, d) = civil (tm_sec t div 86400 + epoch_day); s = tm_sec t mod 86400
      in year_text y @ ''-'' @ two m @ ''-'' @ two d @ ''T'' @ two (s div 3600) @ '':'' @ two (s div 60 mod 60) @ '':''
         @ two (s mod 60) @ ''.'' @ three (tm_nsec t div 1000000) @ ''Z'')"

subsection \<open>Parsing\<close>

datatype chunk = StdYear | StdMonth | StdDay | StdHour | StdMinute | StdSecond | StdFrac9 | StdZone | Lit char

definition isDigit :: "char \<Rightarrow> bool" where
  "isDigit c \<longleftrightarrow> digit_val c \<noteq> None"

definition digit :: "char \<Rightarrow> int" where
  "digit c = int (the (digit_val c))"

text \<open>\<^verbatim>\<open>getnum\<close>: one or two digits, two when \<open>fixed\<close>.\<close>

definition getnum :: "bool \<Rightarrow> string \<Rightarrow> (int \<times> string) option" where
  "getnum fixed s =
     (case s of
        a # b # rest \<Rightarrow>
          if \<not> isDigit a then None
          else if isDigit b then Some (digit a * 10 + digit b, rest)
          else if fixed then None else Some (digit a, b # rest)
      | [a] \<Rightarrow> if isDigit a \<and> \<not> fixed then Some (digit a, []) else None
      | [] \<Rightarrow> None)"

definition get4 :: "string \<Rightarrow> (int \<times> string) option" where
  "get4 s =
     (case s of
        a # b # c # d # rest \<Rightarrow>
          if isDigit a \<and> isDigit b \<and> isDigit c \<and> isDigit d
          then Some (digit a * 1000 + digit b * 100 + digit c * 10 + digit d, rest) else None
      | _ \<Rightarrow> None)"

text \<open>\<^verbatim>\<open>parseNanoseconds\<close>: at most nine digits count.\<close>

definition nanos :: "string \<Rightarrow> int" where
  "nanos ds =
     (let k = take 9 ds in foldl (\<lambda>acc c. acc * 10 + digit c) 0 k * 10 ^ (9 - length k))"

text \<open>A fraction: a comma or a point and at least one digit.\<close>

definition fraction :: "string \<Rightarrow> (int \<times> string) option" where
  "fraction s =
     (case s of
        p # c # rest \<Rightarrow>
          if (p = CHR ''.'' \<or> p = CHR '','') \<and> isDigit c
          then Some (nanos (takeWhile isDigit (c # rest)), dropWhile isDigit (c # rest)) else None
      | _ \<Rightarrow> None)"

text \<open>The zone \<^verbatim>\<open>Z07:00\<close>: the letter Z, or a signed hour and minute.\<close>

definition zone :: "string \<Rightarrow> (int \<times> string) option" where
  "zone s =
     (case s of
        [] \<Rightarrow> None
      | c # rest \<Rightarrow>
          if c = CHR ''Z'' then Some (0, rest)
          else
            (case rest of
               h1 # h2 # colon # m1 # m2 # rest' \<Rightarrow>
                 if colon \<noteq> CHR '':'' then None
                 else (case (getnum True [h1, h2], getnum True [m1, m2]) of
                   (Some (hr, _), Some (mm, _)) \<Rightarrow>
                     if hr > 24 \<or> mm > 60 then None
                     else if c = CHR ''+'' then Some ((hr * 60 + mm) * 60, rest')
                     else if c = CHR ''-'' then Some (- ((hr * 60 + mm) * 60), rest')
                     else None
                 | _ \<Rightarrow> None)
             | _ \<Rightarrow> None))"

record parsed =
  p_year :: int
  p_month :: int
  p_day :: int
  p_hour :: int
  p_min :: int
  p_sec :: int
  p_nsec :: int
  p_zone :: int

definition parsed0 :: parsed where
  "parsed0 = \<lparr>p_year = 0, p_month = 1, p_day = 1, p_hour = 0, p_min = 0, p_sec = 0, p_nsec = 0, p_zone = 0\<rparr>"

fun next_std :: "chunk list \<Rightarrow> chunk option" where
  "next_std [] = None"
| "next_std (Lit c # cs) = next_std cs"
| "next_std (c # cs) = Some c"

fun parse_chunks :: "chunk list \<Rightarrow> string \<Rightarrow> parsed \<Rightarrow> parsed option" where
  "parse_chunks [] s p = (if s = [] then Some p else None)"
| "parse_chunks (Lit c # cs) s p = (case s of [] \<Rightarrow> None | a # rest \<Rightarrow> if a = c then parse_chunks cs rest p else None)"
| "parse_chunks (StdYear # cs) s p =
     (case get4 s of None \<Rightarrow> None | Some (v, rest) \<Rightarrow> parse_chunks cs rest (p\<lparr>p_year := v\<rparr>))"
| "parse_chunks (StdMonth # cs) s p =
     (case getnum True s of None \<Rightarrow> None
      | Some (v, rest) \<Rightarrow> if v \<le> 0 \<or> v > 12 then None else parse_chunks cs rest (p\<lparr>p_month := v\<rparr>))"
| "parse_chunks (StdDay # cs) s p =
     (case getnum True s of None \<Rightarrow> None | Some (v, rest) \<Rightarrow> parse_chunks cs rest (p\<lparr>p_day := v\<rparr>))"
| "parse_chunks (StdHour # cs) s p =
     (case getnum False s of None \<Rightarrow> None
      | Some (v, rest) \<Rightarrow> if v \<ge> 24 then None else parse_chunks cs rest (p\<lparr>p_hour := v\<rparr>))"
| "parse_chunks (StdMinute # cs) s p =
     (case getnum True s of None \<Rightarrow> None
      | Some (v, rest) \<Rightarrow> if v \<ge> 60 then None else parse_chunks cs rest (p\<lparr>p_min := v\<rparr>))"
| "parse_chunks (StdSecond # cs) s p =
     (case getnum True s of None \<Rightarrow> None
      | Some (v, rest) \<Rightarrow>
          if v \<ge> 60 then None
          else if next_std cs = Some StdFrac9 then parse_chunks cs rest (p\<lparr>p_sec := v\<rparr>)
          else (case fraction rest of
                  None \<Rightarrow> parse_chunks cs rest (p\<lparr>p_sec := v\<rparr>)
                | Some (ns, rest') \<Rightarrow> parse_chunks cs rest' (p\<lparr>p_sec := v, p_nsec := ns\<rparr>)))"
| "parse_chunks (StdFrac9 # cs) s p =
     (case fraction s of None \<Rightarrow> parse_chunks cs s p | Some (ns, rest) \<Rightarrow> parse_chunks cs rest (p\<lparr>p_nsec := ns\<rparr>))"
| "parse_chunks (StdZone # cs) s p =
     (case zone s of None \<Rightarrow> None | Some (off, rest) \<Rightarrow> parse_chunks cs rest (p\<lparr>p_zone := off\<rparr>))"

text \<open>\<^verbatim>\<open>time.Date\<close> of the fields, shifted by the zone.\<close>

definition time_of :: "parsed \<Rightarrow> gotime" where
  "time_of p =
     \<lparr>tm_sec = (days_civil (p_year p) (p_month p) (p_day p) - epoch_day) * 86400 + p_hour p * 3600 + p_min p * 60 + p_sec p - p_zone p,
      tm_nsec = p_nsec p, tm_offset = p_zone p\<rparr>"

abbreviation ParseError :: go_error where "ParseError \<equiv> Foreign ''time: ParseError''"

definition Parse :: "chunk list \<Rightarrow> string \<Rightarrow> gotime result" where
  "Parse layout s =
     (case parse_chunks layout s parsed0 of
        None \<Rightarrow> Inl ParseError
      | Some p \<Rightarrow> if p_day p < 1 \<or> p_day p > daysIn (p_month p) (p_year p) then Inl ParseError else Inr (time_of p))"

definition date_chunks :: "chunk list" where
  "date_chunks = [StdYear, Lit CHR ''-'', StdMonth, Lit CHR ''-'', StdDay]"

definition datetime_chunks :: "chunk list" where
  "datetime_chunks = date_chunks @ [Lit CHR ''T'', StdHour, Lit CHR '':'', StdMinute, Lit CHR '':'', StdSecond]"

definition RFC3339 :: "chunk list" where
  "RFC3339 = datetime_chunks @ [StdZone]"

definition RFC3339Nano :: "chunk list" where
  "RFC3339Nano = datetime_chunks @ [StdFrac9, StdZone]"

definition UTC_layout :: "chunk list" where
  "UTC_layout = datetime_chunks @ [Lit CHR ''Z'']"

subsection \<open>Parsing what was formatted\<close>

lemma isDigit_digit_char [simp]: "d < 10 \<Longrightarrow> isDigit (digit_char d)"
  by (simp add: isDigit_def)

lemma digit_digit_char [simp]: "d < 10 \<Longrightarrow> digit (digit_char d) = int d"
  by (simp add: digit_def)

text \<open>Every printed field as digits, so that the arithmetic is done once.\<close>

lemma two_digits:
  assumes "0 \<le> n" "n < 100"
  obtains a b where "two n = [digit_char a, digit_char b]" "a < 10" "b < 10" "int a * 10 + int b = n"
proof (rule that[of "nat n div 10" "nat n mod 10"])
  have "int (nat n div 10 * 10 + nat n mod 10) = n" using assms by simp
  then show "int (nat n div 10) * 10 + int (nat n mod 10) = n" by (simp only: of_nat_add of_nat_mult of_nat_numeral)
qed (use assms in \<open>simp_all add: two_def less_mult_imp_div_less\<close>)

lemma getnum_two [simp]:
  assumes "0 \<le> n" "n < 100"
  shows "getnum fixed (two n @ rest) = Some (n, rest)"
  by (rule two_digits[OF assms]) (simp add: getnum_def)

lemma get4_year [simp]:
  assumes "0 \<le> y" "y < 10000"
  shows "get4 (year_text y @ rest) = Some (y, rest)"
proof -
  have h: "0 \<le> y div 100" "y div 100 < 100" "0 \<le> y mod 100" "y mod 100 < 100" "y div 100 * 100 + y mod 100 = y"
    using assms by (simp_all add: div_less_iff_less_mult)
  obtain a b where ab: "two (y div 100) = [digit_char a, digit_char b]" "a < 10" "b < 10" "int a * 10 + int b = y div 100"
    by (rule two_digits[OF h(1,2)])
  obtain c d where cd: "two (y mod 100) = [digit_char c, digit_char d]" "c < 10" "d < 10" "int c * 10 + int d = y mod 100"
    by (rule two_digits[OF h(3,4)])
  have "year_text y = [digit_char a, digit_char b, digit_char c, digit_char d]"
    using assms ab(1) cd(1) by (simp add: year_text_def pad4_def)
  moreover have "int a * 1000 + int b * 100 + int c * 10 + int d = y" using ab(4) cd(4) h(5) by linarith
  ultimately show ?thesis using ab cd by (simp add: get4_def)
qed

lemma fraction_three:
  assumes "0 \<le> ms" "ms < 1000"
  shows "fraction (CHR ''.'' # three ms @ CHR ''Z'' # rest) = Some (ms * 1000000, CHR ''Z'' # rest)"
proof -
  have z: "\<not> isDigit CHR ''Z''" by (simp add: isDigit_def digit_val_def)
  define a where "a = nat ms div 100"
  have m: "0 \<le> ms mod 100" "ms mod 100 < 100" by simp_all
  have a: "a < 10" "int a * 100 + ms mod 100 = ms"
    using assms by (simp_all add: a_def less_mult_imp_div_less zdiv_int)
  obtain b c where bc: "two (ms mod 100) = [digit_char b, digit_char c]" "b < 10" "c < 10" "int b * 10 + int c = ms mod 100"
    by (rule two_digits[OF m])
  have three: "three ms = [digit_char a, digit_char b, digit_char c]" using bc(1) by (simp add: three_def a_def)
  have "((int a * 10 + int b) * 10 + int c) * 1000000 = ms * 1000000" using a(2) bc(4) by simp
  then show ?thesis using a(1) bc(2,3) z by (simp add: three fraction_def nanos_def)
qed

text \<open>Truncation to milliseconds in UTC.\<close>

definition millis :: "gotime \<Rightarrow> gotime" where
  "millis t = \<lparr>tm_sec = tm_sec t, tm_nsec = tm_nsec t div 1000000 * 1000000, tm_offset = 0\<rparr>"

definition year_in_range :: "gotime \<Rightarrow> bool" where
  "year_in_range t \<longleftrightarrow> 0 \<le> year_of (tm_sec t div 86400 + epoch_day) \<and> year_of (tm_sec t div 86400 + epoch_day) < 10000"

lemma parse_printed_fields:
  assumes "0 \<le> y" "y < 10000" "1 \<le> m" "m \<le> 12" "0 \<le> d" "d < 100" "0 \<le> h" "h < 24" "0 \<le> mi" "mi < 60"
    "0 \<le> se" "se < 60" "0 \<le> ms" "ms < 1000"
  shows "parse_chunks RFC3339Nano (year_text y @ CHR ''-'' # two m @ CHR ''-'' # two d @ CHR ''T'' # two h @ CHR '':''
      # two mi @ CHR '':'' # two se @ CHR ''.'' # three ms @ CHR ''Z'' # []) parsed0 =
    Some \<lparr>p_year = y, p_month = m, p_day = d, p_hour = h, p_min = mi, p_sec = se, p_nsec = ms * 1000000, p_zone = 0\<rparr>"
  unfolding RFC3339Nano_def datetime_chunks_def date_chunks_def
  using assms by (simp add: fraction_three zone_def parsed0_def)

lemma Parse_FormatMillis:
  assumes "tm_valid t" "year_in_range t"
  shows "Parse RFC3339Nano (FormatMillis t) = Inr (millis t)"
proof -
  obtain y m d where c: "civil (tm_sec t div 86400 + epoch_day) = (y, m, d)" by (rule prod_cases3)
  note cc = civil_correct[OF c]
  have yr: "0 \<le> y" "y < 10000" using assms(2) c by (auto simp: year_in_range_def civil_def Let_def split: prod.splits)
  have d31: "d < 100" using cc daysIn_le_31[of m y] by linarith
  define s where "s = tm_sec t mod 86400"
  have s: "0 \<le> s" "s < 86400" by (simp_all add: s_def)
  have hms: "0 \<le> s div 3600" "s div 3600 < 24" "0 \<le> s div 60 mod 60" "s div 60 mod 60 < 60" "0 \<le> s mod 60" "s mod 60 < 60"
    using s by (simp_all add: div_less_iff_less_mult)
  have "s = s div 60 * 60 + s mod 60" "s div 60 = s div 60 div 60 * 60 + s div 60 mod 60" by simp_all
  moreover have "s div 60 div 60 = s div 3600" by (simp add: zdiv_zmult2_eq[symmetric])
  ultimately have sum: "s div 3600 * 3600 + s div 60 mod 60 * 60 + s mod 60 = s" by linarith
  have ns: "0 \<le> tm_nsec t" "tm_nsec t < 1000000000" using assms(1) by (simp_all add: tm_valid_def)
  then have ms: "0 \<le> tm_nsec t div 1000000" "tm_nsec t div 1000000 < 1000"
    by (simp_all add: pos_imp_zdiv_nonneg_iff div_less_iff_less_mult)
  have fmt: "FormatMillis t = year_text y @ CHR ''-'' # two m @ CHR ''-'' # two d @ CHR ''T'' # two (s div 3600) @ CHR '':''
      # two (s div 60 mod 60) @ CHR '':'' # two (s mod 60) @ CHR ''.'' # three (tm_nsec t div 1000000) @ CHR ''Z'' # []"
    by (simp add: FormatMillis_def c s_def Let_def del: mod_mod_trivial)
  have pc: "parse_chunks RFC3339Nano (FormatMillis t) parsed0 =
      Some \<lparr>p_year = y, p_month = m, p_day = d, p_hour = s div 3600, p_min = s div 60 mod 60, p_sec = s mod 60,
            p_nsec = tm_nsec t div 1000000 * 1000000, p_zone = 0\<rparr>"
    unfolding fmt by (rule parse_printed_fields) (use yr cc(1-3) d31 hms ms in \<open>assumption | linarith\<close>)+
  have "(tm_sec t div 86400) * 86400 + s = tm_sec t" by (simp add: s_def)
  then have sec: "(days_civil y m d - epoch_day) * 86400 + s div 3600 * 3600 + s div 60 mod 60 * 60 + s mod 60 - 0 = tm_sec t"
    unfolding cc(5) by (simp only: add_diff_cancel_right' diff_0_right add.assoc sum[unfolded add.assoc])
  have ok: "(d < 1 \<or> d > daysIn m y) = False" using cc(3,4) by auto
  show ?thesis
    by (simp only: Parse_def pc option.case parsed.select_convs ok if_False time_of_def sec millis_def)
qed

end
