(* ===== verification/Exchange.thy ===== *)
theory Exchange
  imports Client Codec
begin

text \<open>
  A request of one client answered by the handler of another: the payloads cross the wire in
  both directions, and the requester gets what \<^verbatim>\<open>RequestIQ\<close> of \<^verbatim>\<open>src/xmpp/client.go\<close> returns for
  the answer (an error stanza becomes an error). The plugins of \<^verbatim>\<open>src/xep\<close> that have both
  sides of a protocol are composed with it.
\<close>

definition over_wire :: "string \<Rightarrow> iq \<Rightarrow> iq" where
  "over_wire d q = q\<lparr>iq_Payloads := map (wire d) (iq_Payloads q)\<rparr>"

definition answered_by :: "string \<Rightarrow> (iq \<Rightarrow> iq) \<Rightarrow> iq \<Rightarrow> iq result" where
  "answered_by d handler q = response_value (over_wire d (handler (over_wire d q)))"

lemma over_wire_sel [simp]:
  "iq_Type (over_wire d q) = iq_Type q" "iq_ID (over_wire d q) = iq_ID q" "iq_From (over_wire d q) = iq_From q"
  "iq_To (over_wire d q) = iq_To q" "iq_Error (over_wire d q) = iq_Error q"
  by (simp_all add: over_wire_def)

lemma IQ_Payload_over_wire [simp]: "IQ_Payload (over_wire d q) = map_option (wire d) (IQ_Payload q)"
  by (simp add: IQ_Payload_def over_wire_def split: list.splits)

lemma IQ_Payload_Result [simp]: "IQ_Payload (IQ_Result q ps) = (case ps of [] \<Rightarrow> None | p # _ \<Rightarrow> Some p)"
  by (simp add: IQ_Payload_def IQ_Result_def split: list.splits)

lemma answered_result:
  "handler (over_wire d q) = IQ_Result q' ps \<Longrightarrow> answered_by d handler q = Inr (over_wire d (IQ_Result q' ps))"
  by (simp add: answered_by_def response_value_def IQ_Result_def)

lemma answered_error:
  "handler (over_wire d q) = IQ_ErrorResult q' e \<Longrightarrow>
   answered_by d handler q = Inl (IQResponseErr (over_wire d (IQ_ErrorResult q' e)))"
  by (simp add: answered_by_def response_value_def IQ_ErrorResult_def)

lemma well_built_scoped: "well_built n \<Longrightarrow> scoped d n"
  by (simp add: well_built_def closed_scoped(1))

lemma strip_wire_built: "well_built n \<Longrightarrow> strip_xmlns (wire d n) = n"
  by (simp add: strip_wire(1) well_built_scoped)

lemma wire_read [simp]:
  "Name (wire d n) = Name n \<Longrightarrow> named ns l (wire d n) = named ns l n"
  by (simp add: named_def)

lemma ChildText_wire: "well_built n \<Longrightarrow> ChildText ns l (wire d n) = ChildText ns l n"
  using ChildText_strip[of ns l "wire d n"] by (simp add: strip_wire_built)

lemma decode_wire_built: "(\<And>m. f (strip_xmlns m) = f m) \<Longrightarrow> well_built n \<Longrightarrow> f (wire d n) = f n"
  by (metis strip_wire_built)

end
