(* ===== verification/Datetime.thy ===== *)
theory Datetime
  imports Go_Time Exchange
begin

text \<open>
  Date-times and delay markers of \<^verbatim>\<open>src/xep/datetime.go\<close>, and the software version, ping and
  entity time plugins of \<^verbatim>\<open>src/xep/utility_plugins.go\<close>: the answer each handler gives and the
  query each client method sends and reads. The exchange \<^verbatim>\<open>RequestIQ\<close> is an argument.
\<close>

abbreviation DelayNS :: string where "DelayNS \<equiv> ''urn:xmpp:delay''"

definition FormatDateTime :: "gotime \<Rightarrow> string" where
  "FormatDateTime value = FormatMillis (UTC value)"

definition datetime_layouts :: "chunk list list" where
  "datetime_layouts = [RFC3339Nano, RFC3339, UTC_layout, date_chunks]"

fun parse_first :: "chunk list list \<Rightarrow> go_error option \<Rightarrow> string \<Rightarrow> gotime result" where
  "parse_first [] prev value = Inl (Errorf ''xep: invalid XMPP date/time %q: %w'' [value] prev)"
| "parse_first (layout # layouts) prev value =
     (case Parse layout value of Inr v \<Rightarrow> Inr v | Inl err \<Rightarrow> parse_first layouts (Some err) value)"

definition ParseDateTime :: "string \<Rightarrow> gotime result" where
  "ParseDateTime value = parse_first datetime_layouts None value"

record delay =
  del_From :: string
  del_Reason :: string
  del_Stamp :: gotime

definition Delay_ToNode :: "delay \<Rightarrow> node" where
  "Delay_ToNode d =
     AddText (del_Reason d)
       (SetAttrOpt ''stamp'' (if \<not> IsZero (del_Stamp d) then Some (FormatDateTime (del_Stamp d)) else None)
         (SetAttrIf ''from'' (del_From d) (NewNode DelayNS ''delay'')))"

definition ParseDelay :: "node \<Rightarrow> delay result" where
  "ParseDelay n =
     (if Space (Name n) \<noteq> DelayNS \<or> Local (Name n) \<noteq> ''delay'' then Inl (Errorf ''xep: expected {%s}delay'' [DelayNS] None)
      else
        let d = \<lparr>del_From = or_empty (AttrValue ''from'' n), del_Reason = Text n, del_Stamp = zero_time\<rparr>
        in case AttrValue ''stamp'' n of
             None \<Rightarrow> Inr d
           | Some stamp \<Rightarrow> (case ParseDateTime stamp of Inl e \<Rightarrow> Inl e | Inr v \<Rightarrow> Inr (d\<lparr>del_Stamp := v\<rparr>)))"

text \<open>The delay, whether there is one, and the parse error.\<close>

definition MessageDelay :: "message \<Rightarrow> delay option result" where
  "MessageDelay m =
     (case Message_Extension m DelayNS ''delay'' of
        None \<Rightarrow> Inr None
      | Some n \<Rightarrow> (case ParseDelay n of Inl e \<Rightarrow> Inl e | Inr d \<Rightarrow> Inr (Some d)))"

subsection \<open>Round trips\<close>

lemma ParseDateTime_Format:
  assumes "tm_valid t" "year_in_range t"
  shows "ParseDateTime (FormatDateTime t) = Inr (millis t)"
proof -
  have "tm_valid (UTC t)" "year_in_range (UTC t)" "millis (UTC t) = millis t"
    using assms by (simp_all add: UTC_def tm_valid_def year_in_range_def millis_def)
  then show ?thesis by (simp add: ParseDateTime_def datetime_layouts_def FormatDateTime_def Parse_FormatMillis)
qed

text \<open>A stamp survives when it is in UTC, whole milliseconds, in the years 0 to 9999; the zero time
  stands for no stamp.\<close>

definition stamp_valid :: "gotime \<Rightarrow> bool" where
  "stamp_valid t \<longleftrightarrow> tm_valid t \<and> year_in_range t \<and> millis t = t"

lemma ParseDateTime_stamp: "stamp_valid t \<Longrightarrow> ParseDateTime (FormatDateTime t) = Inr t"
  by (simp add: stamp_valid_def ParseDateTime_Format)

lemma stamp_zero: "stamp_valid t \<Longrightarrow> IsZero t \<longleftrightarrow> t = zero_time"
  by (cases t) (auto simp: stamp_valid_def IsZero_def zero_time_def millis_def)

lemma Delay_ToNode_read:
  "AttrValue ''stamp'' (Delay_ToNode d) = (if IsZero (del_Stamp d) then None else Some (FormatDateTime (del_Stamp d)))"
  "or_empty (AttrValue ''from'' (Delay_ToNode d)) = del_From d" "Text (Delay_ToNode d) = del_Reason d"
  "Name (Delay_ToNode d) = XName DelayNS ''delay''"
  by (simp_all add: Delay_ToNode_def)

interpretation delay_codec: payload_codec Delay_ToNode ParseDelay "\<lambda>d. stamp_valid (del_Stamp d)"
proof
  fix d :: delay and n :: node
  show "ParseDelay (Delay_ToNode d) = Inr d" if "stamp_valid (del_Stamp d)"
    using stamp_zero[OF that] ParseDateTime_stamp[OF that]
    by (cases d) (simp add: ParseDelay_def Delay_ToNode_read)
  show "well_built (Delay_ToNode d)" unfolding Delay_ToNode_def by (intro inv_intros) simp_all
  show "ParseDelay (strip_xmlns n) = ParseDelay n" by (simp add: ParseDelay_def Let_def)
qed

subsection \<open>Software version\<close>

abbreviation VersionNS :: string where "VersionNS \<equiv> ''jabber:iq:version''"
abbreviation PingNS :: string where "PingNS \<equiv> ''urn:xmpp:ping''"
abbreviation EntityTimeNS :: string where "EntityTimeNS \<equiv> ''urn:xmpp:time''"

record version_info =
  vi_Name :: string
  vi_Version :: string
  vi_OS :: string

text \<open>\<^verbatim>\<open>Init\<close> fills in the default name.\<close>

definition Version_Init :: "version_info \<Rightarrow> version_info" where
  "Version_Init v = (if vi_Name v = [] then v\<lparr>vi_Name := ''slixmpp-go''\<rparr> else v)"

definition versionNode :: "version_info \<Rightarrow> node" where
  "versionNode info =
     AddChildIf (vi_OS info \<noteq> []) (NewTextNode VersionNS ''os'' (vi_OS info))
       (AddChildIf (vi_Version info \<noteq> []) (NewTextNode VersionNS ''version'' (vi_Version info))
       (AddChildIf (vi_Name info \<noteq> []) (NewTextNode VersionNS ''name'' (vi_Name info)) (NewNode VersionNS ''query'')))"

definition Version_handler :: "version_info \<Rightarrow> iq \<Rightarrow> iq" where
  "Version_handler info q = IQ_Result q [versionNode info]"

definition Version_Query :: "(iq \<Rightarrow> iq result) \<Rightarrow> string \<Rightarrow> version_info result" where
  "Version_Query request jid =
     (case request (iq0\<lparr>iq_To := jid, iq_Type := IQGet, iq_Payloads := [NewNode VersionNS ''query'']\<rparr>) of
        Inl e \<Rightarrow> Inl e
      | Inr response \<Rightarrow>
          (case IQ_Payload response of
             None \<Rightarrow> Inl (Errf ''xep: missing version response'')
           | Some p \<Rightarrow> Inr \<lparr>vi_Name = ChildText VersionNS ''name'' p, vi_Version = ChildText VersionNS ''version'' p,
                            vi_OS = ChildText VersionNS ''os'' p\<rparr>))"

subsection \<open>Ping and entity time\<close>

definition Ping_handler :: "iq \<Rightarrow> iq" where
  "Ping_handler q = IQ_Result q []"

text \<open>The round-trip time is the difference of two clock readings; the answer only decides the error.\<close>

definition Ping :: "(iq \<Rightarrow> iq result) \<Rightarrow> string \<Rightarrow> int \<Rightarrow> int \<Rightarrow> int \<times> go_error option" where
  "Ping request jid started returned =
     (returned - started,
      case request (iq0\<lparr>iq_To := jid, iq_Type := IQGet, iq_Payloads := [NewNode PingNS ''ping'']\<rparr>) of
        Inl e \<Rightarrow> Some e | Inr _ \<Rightarrow> None)"

text \<open>\<^verbatim>\<open>%02d\<close> of a number that is not negative.\<close>

definition pad2 :: "int \<Rightarrow> string" where
  "pad2 n = (if n < 10 then CHR ''0'' # Itoa n else Itoa n)"

definition tzo :: "int \<Rightarrow> string" where
  "tzo offset =
     (let sign = (if offset < 0 then ''-'' else ''+''); a = \<bar>offset\<bar>
      in sign @ pad2 (a div 3600) @ '':'' @ pad2 (a mod 3600 div 60))"

definition timeNode :: "gotime \<Rightarrow> node" where
  "timeNode now =
     AddChild (NewTextNode EntityTimeNS ''utc'' (FormatDateTime now))
       (AddChild (NewTextNode EntityTimeNS ''tzo'' (tzo (tm_offset now))) (NewNode EntityTimeNS ''time''))"

definition EntityTime_handler :: "gotime \<Rightarrow> iq \<Rightarrow> iq" where
  "EntityTime_handler now q = IQ_Result q [timeNode now]"

record time_info =
  ti_UTC :: gotime
  ti_TZD :: string

definition EntityTime_Query :: "(iq \<Rightarrow> iq result) \<Rightarrow> string \<Rightarrow> time_info result" where
  "EntityTime_Query request jid =
     (case request (iq0\<lparr>iq_To := jid, iq_Type := IQGet, iq_Payloads := [NewNode EntityTimeNS ''time'']\<rparr>) of
        Inl e \<Rightarrow> Inl e
      | Inr response \<Rightarrow>
          (case IQ_Payload response of
             None \<Rightarrow> Inl (Errf ''xep: missing entity time'')
           | Some p \<Rightarrow>
               (case ParseDateTime (ChildText EntityTimeNS ''utc'' p) of
                  Inl e \<Rightarrow> Inl e
                | Inr utc \<Rightarrow> Inr \<lparr>ti_UTC = utc, ti_TZD = ChildText EntityTimeNS ''tzo'' p\<rparr>)))"

lemma ChildText_versionNode:
  "ChildText VersionNS ''name'' (versionNode v) = vi_Name v" "ChildText VersionNS ''version'' (versionNode v) = vi_Version v"
  "ChildText VersionNS ''os'' (versionNode v) = vi_OS v"
  by (simp_all add: versionNode_def ChildText_def Child_eq_find)

lemma ChildText_timeNode:
  "ChildText EntityTimeNS ''utc'' (timeNode t) = FormatDateTime t" "ChildText EntityTimeNS ''tzo'' (timeNode t) = tzo (tm_offset t)"
  by (simp_all add: timeNode_def ChildText_def Child_eq_find)

lemma utility_nodes_built: "well_built (versionNode v)" "well_built (timeNode t)"
  unfolding versionNode_def timeNode_def by (intro inv_intros; simp)+

lemma Version_Query_answer: "Version_Query (answered_by d (Version_handler v)) jid = Inr v"
  by (simp add: Version_Query_def answered_result[OF Version_handler_def] ChildText_versionNode
      ChildText_wire[OF utility_nodes_built(1)])

subsection \<open>Properties\<close>

text \<open>Asking a peer that runs this library for its time gives the peer's clock, truncated to
  milliseconds, and its zone offset as a sign with hours and minutes: formatting the
  instant, sending it and parsing it loses nothing else, for every instant of the years 0
  to 9999 (leap days and dates before 1970 included).\<close>

theorem entity_time_exact:
  assumes "tm_valid now" "year_in_range now"
  shows "EntityTime_Query (answered_by d (EntityTime_handler now)) jid
    = Inr \<lparr>ti_UTC = millis now, ti_TZD = tzo (tm_offset now)\<rparr>"
  using ParseDateTime_Format[OF assms]
  by (simp add: EntityTime_Query_def answered_result[OF EntityTime_handler_def] ChildText_timeNode
      ChildText_wire[OF utility_nodes_built(2)])

definition leap_year_evening :: gotime where
  "leap_year_evening = \<lparr>tm_sec = 951825599, tm_nsec = 123456789, tm_offset = - 12600\<rparr>"

theorem entity_time_exact_witness:
  "EntityTime_Query (answered_by ''jabber:client'' (EntityTime_handler leap_year_evening)) ''peer@example.org''
     = Inr \<lparr>ti_UTC = \<lparr>tm_sec = 951825599, tm_nsec = 123000000, tm_offset = 0\<rparr>, ti_TZD = ''-03:30''\<rparr>"
proof -
  have "tm_valid leap_year_evening" "year_in_range leap_year_evening"
    by (simp_all add: tm_valid_def year_in_range_def leap_year_evening_def year_of_def days_before_def epoch_day_def Let_def)
  note e = entity_time_exact[OF this, of "''jabber:client''" "''peer@example.org''"]
  have "tzo (- 12600) = ''-03:30''" by code_simp
  then show ?thesis using e by (simp add: leap_year_evening_def millis_def)
qed

end
