(* ===== verification/Payloads.thy ===== *)
theory Payloads
  imports Datetime Forms Message_Extensions Go_Base64 "HOL-Library.List_Lexorder" "HOL-Library.Char_ord"
begin

text \<open>
  The payloads of \<^verbatim>\<open>src/xep/payloads.go\<close>: hash values, bits of binary, forwarded stanzas, ad-hoc
  commands, file metadata and file sharing, link metadata and media fragments. Digest
  functions are arguments; a Go map is a partial function with its iteration order as an
  argument. Each pair of writer and reader is an instance of the payload interface.
\<close>

abbreviation HashesNS :: string where "HashesNS \<equiv> ''urn:xmpp:hashes:2''"
abbreviation BoBNS :: string where "BoBNS \<equiv> ''urn:xmpp:bob''"
abbreviation ForwardNS :: string where "ForwardNS \<equiv> ''urn:xmpp:forward:0''"
abbreviation CommandsNS :: string where "CommandsNS \<equiv> ''http://jabber.org/protocol/commands''"
abbreviation FileMetadataNS :: string where "FileMetadataNS \<equiv> ''urn:xmpp:file:metadata:0''"
abbreviation SFSNS :: string where "SFSNS \<equiv> ''urn:xmpp:sfs:0''"
abbreviation SIMSNS :: string where "SIMSNS \<equiv> ''urn:xmpp:sims:1''"
abbreviation URLDataNS :: string where "URLDataNS \<equiv> ''http://jabber.org/protocol/url-data''"
abbreviation LinkMetadataNS :: string where "LinkMetadataNS \<equiv> ''urn:xmpp:link-metadata:0''"

subsection \<open>Hash values\<close>

datatype hash_value = HashValue (hv_Algorithm: string) (hv_Sum: bytes)

definition Hash_ToNode :: "hash_value \<Rightarrow> node" where
  "Hash_ToNode h = SetAttr ''algo'' (hv_Algorithm h) (NewTextNode HashesNS ''hash'' (EncodeToString (hv_Sum h)))"

text \<open>\<^verbatim>\<open>base64.StdEncoding.DecodeString(strings.TrimSpace(n.Text()))\<close>\<close>

definition decode_text :: "string \<Rightarrow> bytes result" where
  "decode_text s = (case DecodeString (TrimSpace s) of None \<Rightarrow> Inl CorruptInput | Some b \<Rightarrow> Inr b)"

definition ParseHash :: "node \<Rightarrow> hash_value result" where
  "ParseHash n =
     (if Space (Name n) \<noteq> HashesNS \<or> Local (Name n) \<noteq> ''hash'' then Inl (Errf ''xep: invalid hash element'')
      else case decode_text (Text n) of
        Inl e \<Rightarrow> Inl e
      | Inr b \<Rightarrow> Inr (HashValue (or_empty (AttrValue ''algo'' n)) b))"

text \<open>The digests of the standard library the factory can return.\<close>

record digests =
  dg_md5 :: "bytes \<Rightarrow> bytes"
  dg_sha1 :: "bytes \<Rightarrow> bytes"
  dg_sha256 :: "bytes \<Rightarrow> bytes"
  dg_sha512 :: "bytes \<Rightarrow> bytes"

definition hashFactory :: "unicode \<Rightarrow> digests \<Rightarrow> string \<Rightarrow> (bytes \<Rightarrow> bytes) result" where
  "hashFactory U dg algorithm =
     (let a = ToLower U algorithm in
      if a = ''md5'' then Inr (dg_md5 dg)
      else if a = ''sha-1'' then Inr (dg_sha1 dg)
      else if a = ''sha-256'' then Inr (dg_sha256 dg)
      else if a = ''sha-512'' then Inr (dg_sha512 dg)
      else if a \<in> {''sha3-256'', ''sha3-512'', ''blake2b-256'', ''blake2b-512''}
        then Inl (Errorf ''xep: algorithm %q requires an external implementation'' [algorithm] None)
      else Inl (Errorf ''xep: unsupported hash algorithm %q'' [algorithm] None))"

definition ComputeHash :: "unicode \<Rightarrow> digests \<Rightarrow> string \<Rightarrow> bytes \<Rightarrow> hash_value result" where
  "ComputeHash U dg algorithm data =
     (case hashFactory U dg algorithm of Inl e \<Rightarrow> Inl e | Inr h \<Rightarrow> Inr (HashValue algorithm (h data)))"

definition Hash_Verify :: "unicode \<Rightarrow> digests \<Rightarrow> hash_value \<Rightarrow> bytes \<Rightarrow> bool" where
  "Hash_Verify U dg h data =
     (case ComputeHash U dg (hv_Algorithm h) data of Inl e \<Rightarrow> False | Inr got \<Rightarrow> hv_Sum got = hv_Sum h)"

lemma Verify_ComputeHash: "ComputeHash U dg a data = Inr h \<Longrightarrow> Hash_Verify U dg h data"
  by (auto simp: ComputeHash_def Hash_Verify_def split: sum.splits)

lemma decode_text_encode [simp]: "decode_text (EncodeToString b) = Inr b"
  by (simp add: decode_text_def TrimSpace_id DecodeString_EncodeToString)

lemma Name_Hash [simp]: "Name (Hash_ToNode h) = XName HashesNS ''hash''"
  by (simp add: Hash_ToNode_def)

interpretation hash_codec: payload_codec Hash_ToNode ParseHash "\<lambda>h. True"
proof
  show "ParseHash (Hash_ToNode h) = Inr h" for h by (simp add: ParseHash_def) (simp add: Hash_ToNode_def)
  show "well_built (Hash_ToNode h)" for h unfolding Hash_ToNode_def by (intro inv_intros) simp_all
  show "ParseHash (strip_xmlns n) = ParseHash n" for n by (simp add: ParseHash_def split: sum.splits)
qed

subsection \<open>Bits of binary\<close>

record bob =
  bob_CID :: string
  bob_MediaType :: string
  bob_MaxAge :: "int option"
  bob_Data :: bytes

definition hexEncode :: "bytes \<Rightarrow> string" where
  "hexEncode b = concat (map (\<lambda>c. [digit_char (of_char c div 16), digit_char (of_char c mod 16)]) b)"

definition NewBoB :: "digests \<Rightarrow> string \<Rightarrow> bytes \<Rightarrow> bob" where
  "NewBoB dg mediaType data =
     \<lparr>bob_CID = ''sha1+'' @ hexEncode (dg_sha1 dg data) @ CHR 0x40 # ''bob.xmpp.org'', bob_MediaType = mediaType,
      bob_MaxAge = None, bob_Data = data\<rparr>"

definition BoB_ToNode :: "bob \<Rightarrow> node" where
  "BoB_ToNode b =
     SetAttrOpt ''max-age'' (map_option Itoa (bob_MaxAge b))
       (SetAttrIf ''type'' (bob_MediaType b)
         (SetAttr ''cid'' (bob_CID b) (NewTextNode BoBNS ''data'' (EncodeToString (bob_Data b)))))"

definition ParseBoB :: "node \<Rightarrow> bob result" where
  "ParseBoB n =
     (if Space (Name n) \<noteq> BoBNS \<or> Local (Name n) \<noteq> ''data'' then Inl (Errf ''xep: invalid Bits of Binary payload'')
      else case int_attr ''max-age'' n of
        Inl e \<Rightarrow> Inl e
      | Inr age \<Rightarrow>
          (case decode_text (Text n) of
             Inl e \<Rightarrow> Inl e
           | Inr data \<Rightarrow> Inr \<lparr>bob_CID = or_empty (AttrValue ''cid'' n), bob_MediaType = or_empty (AttrValue ''type'' n),
                              bob_MaxAge = age, bob_Data = data\<rparr>))"

interpretation bob_codec: payload_codec BoB_ToNode ParseBoB "\<lambda>b. int64_opt (bob_MaxAge b)"
proof
  fix b :: bob and n :: node
  show "ParseBoB (BoB_ToNode b) = Inr b" if "int64_opt (bob_MaxAge b)"
  proof -
    have "int_attr ''max-age'' (BoB_ToNode b) = Inr (bob_MaxAge b)"
      using that by (intro int_attr_Itoa) (simp_all add: BoB_ToNode_def AttrValue_SetAttrOpt_map)
    then show ?thesis by (simp add: ParseBoB_def) (simp add: BoB_ToNode_def)
  qed
  show "well_built (BoB_ToNode b)" unfolding BoB_ToNode_def by (intro inv_intros) simp_all
  show "ParseBoB (strip_xmlns n) = ParseBoB n" by (simp add: ParseBoB_def int_attr_blind split: sum.splits)
qed

subsection \<open>Forwarded stanzas\<close>

record forwarded =
  fwd_Delay :: "delay option"
  fwd_Stanza :: "stanza option"

definition Forwarded_ToNode :: "forwarded \<Rightarrow> node result" where
  "Forwarded_ToNode f =
     (let n = AddChildren (opt_children Delay_ToNode (fwd_Delay f)) (NewNode ForwardNS ''forwarded'') in
      case fwd_Stanza f of
        None \<Rightarrow> Inr n
      | Some st \<Rightarrow>
          (case StanzaXML st of
             Inl e \<Rightarrow> Inl e
           | Inr data \<Rightarrow>
               (case ParseNode (Sentinel ErrEOF) (transmit [[]] data) of
                  Inl e \<Rightarrow> Inl e
                | Inr child \<Rightarrow> Inr (AddChild child n))))"

text \<open>A stanza child is printed and parsed again on its own.\<close>

definition reparse_stanza :: "node \<Rightarrow> stanza result" where
  "reparse_stanza child =
     (case marshal child of Inl e \<Rightarrow> Inl e | Inr raw \<Rightarrow> ParseStanza (Sentinel ErrEOF) (transmit [[]] raw))"

definition forwarded_child :: "forwarded \<Rightarrow> node \<Rightarrow> forwarded result" where
  "forwarded_child f child =
     (if named DelayNS ''delay'' child then
        (case ParseDelay child of Inl e \<Rightarrow> Inl e | Inr d \<Rightarrow> Inr (f\<lparr>fwd_Delay := Some d\<rparr>))
      else if Local (Name child) = ''message'' \<or> Local (Name child) = ''presence'' \<or> Local (Name child) = ''iq'' then
        (case reparse_stanza child of Inl e \<Rightarrow> Inl e | Inr st \<Rightarrow> Inr (f\<lparr>fwd_Stanza := Some st\<rparr>))
      else Inr f)"

definition ParseForwarded :: "node \<Rightarrow> forwarded result" where
  "ParseForwarded n =
     (if Space (Name n) \<noteq> ForwardNS \<or> Local (Name n) \<noteq> ''forwarded'' then Inl (Errf ''xep: invalid forwarded payload'')
      else fold_result forwarded_child \<lparr>fwd_Delay = None, fwd_Stanza = None\<rparr> (Children n))"

subsection \<open>Ad-hoc commands\<close>

datatype command_note = CommandNote (cn_Type: string) (cn_Text: string)

record command =
  cmd_Node :: string
  cmd_SessionID :: string
  cmd_Action :: string
  cmd_Status :: string
  cmd_Allowed :: "string list"
  cmd_Form :: "form option"
  cmd_Notes :: "command_note list"
  cmd_Payloads :: "node list"

definition note_node :: "command_note \<Rightarrow> node" where
  "note_node note = SetAttrIf ''type'' (cn_Type note) (NewTextNode CommandsNS ''note'' (cn_Text note))"

definition Command_ToNode :: "command \<Rightarrow> node" where
  "Command_ToNode c =
     AddChildren (cmd_Payloads c)
       (AddChildren (map note_node (cmd_Notes c))
       (AddChildren (opt_children Form_ToNode (cmd_Form c))
       (AddChildIf (cmd_Allowed c \<noteq> [])
          (AddChildren (map (NewNode CommandsNS) (cmd_Allowed c)) (NewNode CommandsNS ''actions''))
       (SetAttrIf ''status'' (cmd_Status c)
       (SetAttrIf ''action'' (cmd_Action c)
       (SetAttrIf ''sessionid'' (cmd_SessionID c)
       (SetAttr ''node'' (cmd_Node c) (NewNode CommandsNS ''command''))))))))"

definition command_child :: "command \<Rightarrow> node \<Rightarrow> command result" where
  "command_child c child =
     (if named CommandsNS ''actions'' child then
        Inr (c\<lparr>cmd_Allowed := cmd_Allowed c @ map (\<lambda>a. Local (Name a)) (Children child)\<rparr>)
      else if named DataFormsNS ''x'' child then
        (case ParseForm child of Inl e \<Rightarrow> Inl e | Inr f \<Rightarrow> Inr (c\<lparr>cmd_Form := Some f\<rparr>))
      else if named CommandsNS ''note'' child then
        Inr (c\<lparr>cmd_Notes := cmd_Notes c @ [CommandNote (or_empty (AttrValue ''type'' child)) (Text child)]\<rparr>)
      else Inr (c\<lparr>cmd_Payloads := cmd_Payloads c @ [child]\<rparr>))"

definition ParseCommand :: "node \<Rightarrow> command result" where
  "ParseCommand n =
     (if Space (Name n) \<noteq> CommandsNS \<or> Local (Name n) \<noteq> ''command'' then Inl (Errf ''xep: invalid command payload'')
      else fold_result command_child
        \<lparr>cmd_Node = or_empty (AttrValue ''node'' n), cmd_SessionID = or_empty (AttrValue ''sessionid'' n),
         cmd_Action = or_empty (AttrValue ''action'' n), cmd_Status = or_empty (AttrValue ''status'' n),
         cmd_Allowed = [], cmd_Form = None, cmd_Notes = [], cmd_Payloads = []\<rparr> (Children n))"

definition command_valid :: "command \<Rightarrow> bool" where
  "command_valid c \<longleftrightarrow> pred_option form_valid (cmd_Form c)
     \<and> list_all (\<lambda>n. \<not> named CommandsNS ''actions'' n \<and> \<not> named DataFormsNS ''x'' n \<and> \<not> named CommandsNS ''note'' n) (cmd_Payloads c)"

lemma fold_command_parts:
  "fold_result command_child c (map note_node xs) = Inr (c\<lparr>cmd_Notes := cmd_Notes c @ xs\<rparr>)"
  "list_all (\<lambda>n. \<not> named CommandsNS ''actions'' n \<and> \<not> named DataFormsNS ''x'' n \<and> \<not> named CommandsNS ''note'' n) ps \<Longrightarrow>
   fold_result command_child c ps = Inr (c\<lparr>cmd_Payloads := cmd_Payloads c @ ps\<rparr>)"
  "pred_option form_valid f \<Longrightarrow> cmd_Form c = None \<Longrightarrow>
   fold_result command_child c (opt_children Form_ToNode f) = Inr (c\<lparr>cmd_Form := f\<rparr>)"
  "cmd_Allowed c = [] \<Longrightarrow> fold_result command_child c
     (if as \<noteq> [] then [AddChildren (map (NewNode CommandsNS) as) (NewNode CommandsNS ''actions'')] else [])
   = Inr (c\<lparr>cmd_Allowed := as\<rparr>)"
proof -
  show "fold_result command_child c (map note_node xs) = Inr (c\<lparr>cmd_Notes := cmd_Notes c @ xs\<rparr>)"
    by (induction xs arbitrary: c) (simp_all add: command_child_def note_node_def)
  show "list_all (\<lambda>n. \<not> named CommandsNS ''actions'' n \<and> \<not> named DataFormsNS ''x'' n \<and> \<not> named CommandsNS ''note'' n) ps \<Longrightarrow>
   fold_result command_child c ps = Inr (c\<lparr>cmd_Payloads := cmd_Payloads c @ ps\<rparr>)"
    by (induction ps arbitrary: c) (simp_all add: command_child_def)
  have nm: "named ns l (Form_ToNode g) \<longleftrightarrow> ns = DataFormsNS \<and> l = ''x''" for ns l g by (simp add: Form_ToNode_def)
  show "pred_option form_valid f \<Longrightarrow> cmd_Form c = None \<Longrightarrow>
   fold_result command_child c (opt_children Form_ToNode f) = Inr (c\<lparr>cmd_Form := f\<rparr>)"
    by (cases f) (simp_all add: opt_children_def command_child_def nm ParseForm_ToNode)
  have "map (\<lambda>a. Local (Name a)) (map (NewNode CommandsNS) as) = as" by (simp add: comp_def)
  then show "cmd_Allowed c = [] \<Longrightarrow> fold_result command_child c
     (if as \<noteq> [] then [AddChildren (map (NewNode CommandsNS) as) (NewNode CommandsNS ''actions'')] else [])
   = Inr (c\<lparr>cmd_Allowed := as\<rparr>)"
    by (simp add: command_child_def)
qed

lemma ParseCommand_ToNode: "command_valid c \<Longrightarrow> ParseCommand (Command_ToNode c) = Inr c"
  unfolding ParseCommand_def Command_ToNode_def command_valid_def Children_cond_builders Children_builders fold_result_append
  by (simp add: fold_result_append fold_command_parts del: fold_result.simps(2) split del: if_split)

subsection \<open>File metadata\<close>

text \<open>A \<^verbatim>\<open>time.Duration\<close> counts nanoseconds in 64 bits: reading milliseconds multiplies and may wrap,
  writing divides and truncates towards zero.\<close>

definition wrap64 :: "int \<Rightarrow> int" where
  "wrap64 i = (i + 2 ^ 63) mod 2 ^ 64 - 2 ^ 63"

lemma wrap64_id: "int64 i \<Longrightarrow> wrap64 i = i"
  by (simp add: wrap64_def int64_def)

lemma wrap64_int64: "int64 (wrap64 i)"
proof -
  have "0 \<le> (i + 2 ^ 63) mod 2 ^ 64" "(i + 2 ^ 63) mod 2 ^ 64 < (2 :: int) ^ 64" by simp_all
  then show ?thesis unfolding wrap64_def int64_def by auto
qed

definition Milliseconds :: "int \<Rightarrow> int" where
  "Milliseconds d = (if d < 0 then - (- d div 1000000) else d div 1000000)"

record file_metadata =
  fm_Name :: string
  fm_Description :: string
  fm_MediaType :: string
  fm_Size :: "nat option"
  fm_Date :: "gotime option"
  fm_Duration :: "int option"
  fm_Height :: "int option"
  fm_Width :: "int option"
  fm_Hashes :: "hash_value list"
  fm_Thumbnails :: "string list"

definition file_metadata0 :: file_metadata where
  "file_metadata0 = \<lparr>fm_Name = [], fm_Description = [], fm_MediaType = [], fm_Size = None, fm_Date = None, fm_Duration = None,
     fm_Height = None, fm_Width = None, fm_Hashes = [], fm_Thumbnails = []\<rparr>"

text \<open>\<^verbatim>\<open>if v != "" { n.AddChild(NewTextNode(ns, local, v)) }\<close> and its form for optional values.\<close>

definition text_child :: "string \<Rightarrow> string \<Rightarrow> string \<Rightarrow> node list" where
  "text_child ns local v = (if v \<noteq> [] then [NewTextNode ns local v] else [])"

definition opt_text_child :: "string \<Rightarrow> string \<Rightarrow> string option \<Rightarrow> node list" where
  "opt_text_child ns local v = (case v of None \<Rightarrow> [] | Some t \<Rightarrow> [NewTextNode ns local t])"

definition thumbnail_node :: "string \<Rightarrow> node" where
  "thumbnail_node u = SetAttr ''uri'' u (NewNode FileMetadataNS ''thumbnail'')"

definition FileMetadata_ToNode :: "file_metadata \<Rightarrow> node" where
  "FileMetadata_ToNode f =
     AddChildren
       (opt_text_child FileMetadataNS ''date'' (map_option FormatDateTime (fm_Date f))
        @ text_child FileMetadataNS ''desc'' (fm_Description f)
        @ text_child FileMetadataNS ''media-type'' (fm_MediaType f)
        @ text_child FileMetadataNS ''name'' (fm_Name f)
        @ opt_text_child FileMetadataNS ''size'' (map_option (FormatNat 10) (fm_Size f))
        @ opt_text_child FileMetadataNS ''duration'' (map_option (Itoa \<circ> Milliseconds) (fm_Duration f))
        @ opt_text_child FileMetadataNS ''height'' (map_option Itoa (fm_Height f))
        @ opt_text_child FileMetadataNS ''width'' (map_option Itoa (fm_Width f))
        @ map Hash_ToNode (fm_Hashes f)
        @ map thumbnail_node (fm_Thumbnails f))
       (NewNode FileMetadataNS ''file'')"

definition parse_uint64 :: "string \<Rightarrow> nat result" where
  "parse_uint64 s = (case ParseUint 64 s of (v, None) \<Rightarrow> Inr v | (_, Some e) \<Rightarrow> Inl (NumError e s))"

definition map_value :: "('a \<Rightarrow> 'b) \<Rightarrow> 'a result \<Rightarrow> 'b result" where
  "map_value f r = (case r of Inl e \<Rightarrow> Inl e | Inr v \<Rightarrow> Inr (f v))"

lemma map_value_simps [simp]: "map_value f (Inr v) = Inr (f v)" "map_value f (Inl e) = Inl e"
  by (simp_all add: map_value_def)

definition file_child :: "file_metadata \<Rightarrow> node \<Rightarrow> file_metadata result" where
  "file_child f c =
     (if Local (Name c) = ''date'' then map_value (\<lambda>v. f\<lparr>fm_Date := Some v\<rparr>) (ParseDateTime (Text c))
      else if Local (Name c) = ''desc'' then Inr (f\<lparr>fm_Description := Text c\<rparr>)
      else if Local (Name c) = ''media-type'' then Inr (f\<lparr>fm_MediaType := Text c\<rparr>)
      else if Local (Name c) = ''name'' then Inr (f\<lparr>fm_Name := Text c\<rparr>)
      else if Local (Name c) = ''size'' then map_value (\<lambda>v. f\<lparr>fm_Size := Some v\<rparr>) (parse_uint64 (Text c))
      else if Local (Name c) = ''duration'' then
        map_value (\<lambda>v. f\<lparr>fm_Duration := Some (wrap64 (v * 1000000))\<rparr>) (parse_int (Text c))
      else if Local (Name c) = ''height'' then map_value (\<lambda>v. f\<lparr>fm_Height := Some v\<rparr>) (parse_int (Text c))
      else if Local (Name c) = ''width'' then map_value (\<lambda>v. f\<lparr>fm_Width := Some v\<rparr>) (parse_int (Text c))
      else if Local (Name c) = ''hash'' then
        (if Space (Name c) = HashesNS then map_value (\<lambda>h. f\<lparr>fm_Hashes := fm_Hashes f @ [h]\<rparr>) (ParseHash c) else Inr f)
      else if Local (Name c) = ''thumbnail'' then
        Inr (f\<lparr>fm_Thumbnails := fm_Thumbnails f @ [or_empty (AttrValue ''uri'' c)]\<rparr>)
      else Inr f)"

definition ParseFileMetadata :: "node \<Rightarrow> file_metadata result" where
  "ParseFileMetadata n =
     (if Space (Name n) \<noteq> FileMetadataNS \<or> Local (Name n) \<noteq> ''file'' then Inl (Errf ''xep: invalid file metadata'')
      else fold_result file_child file_metadata0 (Children n))"

definition file_valid :: "file_metadata \<Rightarrow> bool" where
  "file_valid f \<longleftrightarrow> pred_option stamp_valid (fm_Date f) \<and> pred_option (\<lambda>v. v < 2 ^ 64) (fm_Size f)
     \<and> pred_option (\<lambda>d. int64 d \<and> d mod 1000000 = 0) (fm_Duration f) \<and> int64_opt (fm_Height f) \<and> int64_opt (fm_Width f)"

lemma Milliseconds_exact: "d mod 1000000 = 0 \<Longrightarrow> Milliseconds d * 1000000 = d"
proof -
  assume m: "d mod 1000000 = 0"
  have "d div 1000000 * 1000000 = d" using div_mult_mod_eq[of d 1000000] m by simp
  moreover have "(- d) mod 1000000 = 0" using m by (simp add: mod_eq_0_iff_dvd)
  then have "(- d) div 1000000 * 1000000 = - d" using div_mult_mod_eq[of "- d" 1000000] by simp
  ultimately show ?thesis by (simp add: Milliseconds_def)
qed

lemma Milliseconds_int64: "int64 d \<Longrightarrow> int64 (Milliseconds d)"
proof -
  assume i: "int64 d"
  have "0 \<le> x \<Longrightarrow> x div 1000000 \<le> x" for x :: int using int_div_bounds[of 1000000 x] pos_imp_zdiv_nonneg_iff[of 1000000 x] by simp
  from this[of d] this[of "- d"] have "\<bar>Milliseconds d\<bar> \<le> \<bar>d\<bar>"
    by (auto simp: Milliseconds_def pos_imp_zdiv_nonneg_iff)
  moreover have "d < 0 \<Longrightarrow> Milliseconds d \<le> 0" by (simp add: Milliseconds_def pos_imp_zdiv_nonneg_iff)
  moreover have "0 \<le> d \<Longrightarrow> 0 \<le> Milliseconds d" by (simp add: Milliseconds_def pos_imp_zdiv_nonneg_iff)
  ultimately show ?thesis using i unfolding int64_def by linarith
qed

lemma fold_file_text:
  "fm_Description f = [] \<Longrightarrow> fold_result file_child f (text_child FileMetadataNS ''desc'' v) = Inr (f\<lparr>fm_Description := v\<rparr>)"
  "fm_MediaType f = [] \<Longrightarrow> fold_result file_child f (text_child FileMetadataNS ''media-type'' v) = Inr (f\<lparr>fm_MediaType := v\<rparr>)"
  "fm_Name f = [] \<Longrightarrow> fold_result file_child f (text_child FileMetadataNS ''name'' v) = Inr (f\<lparr>fm_Name := v\<rparr>)"
  by (simp_all add: text_child_def file_child_def)

lemma fold_file_date:
  "pred_option stamp_valid d \<Longrightarrow> fm_Date f = None \<Longrightarrow>
   fold_result file_child f (opt_text_child FileMetadataNS ''date'' (map_option FormatDateTime d)) = Inr (f\<lparr>fm_Date := d\<rparr>)"
  by (cases d) (simp_all add: opt_text_child_def file_child_def ParseDateTime_stamp)

lemma fold_file_size:
  "pred_option (\<lambda>v. v < 2 ^ 64) sz \<Longrightarrow> fm_Size f = None \<Longrightarrow>
   fold_result file_child f (opt_text_child FileMetadataNS ''size'' (map_option (FormatNat 10) sz)) = Inr (f\<lparr>fm_Size := sz\<rparr>)"
  by (cases sz) (simp_all add: opt_text_child_def file_child_def parse_uint64_def ParseUint_FormatNat)

lemma fold_file_duration:
  "pred_option (\<lambda>d. int64 d \<and> d mod 1000000 = 0) du \<Longrightarrow> fm_Duration f = None \<Longrightarrow>
   fold_result file_child f (opt_text_child FileMetadataNS ''duration'' (map_option (Itoa \<circ> Milliseconds) du)) = Inr (f\<lparr>fm_Duration := du\<rparr>)"
  by (cases du) (simp_all add: opt_text_child_def file_child_def Milliseconds_int64 Milliseconds_exact wrap64_id)

lemma fold_file_ints:
  "int64_opt h \<Longrightarrow> fm_Height f = None \<Longrightarrow>
   fold_result file_child f (opt_text_child FileMetadataNS ''height'' (map_option Itoa h)) = Inr (f\<lparr>fm_Height := h\<rparr>)"
  "int64_opt h \<Longrightarrow> fm_Width f = None \<Longrightarrow>
   fold_result file_child f (opt_text_child FileMetadataNS ''width'' (map_option Itoa h)) = Inr (f\<lparr>fm_Width := h\<rparr>)"
  by (cases h; simp add: opt_text_child_def file_child_def int64_opt_def)+

lemmas fold_file_opt = fold_file_date fold_file_size fold_file_duration fold_file_ints

lemma fold_file_lists:
  "fold_result file_child f (map Hash_ToNode hs) = Inr (f\<lparr>fm_Hashes := fm_Hashes f @ hs\<rparr>)"
  "fold_result file_child f (map thumbnail_node us) = Inr (f\<lparr>fm_Thumbnails := fm_Thumbnails f @ us\<rparr>)"
proof -
  show "fold_result file_child f (map Hash_ToNode hs) = Inr (f\<lparr>fm_Hashes := fm_Hashes f @ hs\<rparr>)"
    by (induction hs arbitrary: f) (simp_all add: file_child_def hash_codec.decode_encode)
  show "fold_result file_child f (map thumbnail_node us) = Inr (f\<lparr>fm_Thumbnails := fm_Thumbnails f @ us\<rparr>)"
    by (induction us arbitrary: f) (simp_all add: file_child_def thumbnail_node_def)
qed

lemma file_child_blind: "file_child f (strip_xmlns c) = file_child f c"
  by (simp add: file_child_def hash_codec.decode_blind)

lemma text_children_built:
  "ns \<noteq> [] \<Longrightarrow> l \<noteq> [] \<Longrightarrow> c \<in> set (text_child ns l v) \<Longrightarrow> well_built c"
  "ns \<noteq> [] \<Longrightarrow> l \<noteq> [] \<Longrightarrow> c \<in> set (opt_text_child ns l w) \<Longrightarrow> well_built c"
  by (auto simp: text_child_def opt_text_child_def intro: inv_intros split: if_splits option.splits)

lemma Name_FileMetadata [simp]: "Name (FileMetadata_ToNode f) = XName FileMetadataNS ''file''"
  by (simp add: FileMetadata_ToNode_def)

interpretation file_codec: payload_codec FileMetadata_ToNode ParseFileMetadata file_valid
proof
  fix f :: file_metadata and n :: node
  show "ParseFileMetadata (FileMetadata_ToNode f) = Inr f" if "file_valid f"
    using that unfolding ParseFileMetadata_def FileMetadata_ToNode_def file_valid_def Children_cond_builders Children_builders
    by (simp add: fold_result_append fold_file_text fold_file_opt fold_file_lists file_metadata0_def)
  show "well_built (FileMetadata_ToNode f)"
    unfolding FileMetadata_ToNode_def
    by (intro inv_intros) (auto simp: thumbnail_node_def intro: text_children_built hash_codec.encode_built inv_intros)
  show "ParseFileMetadata (strip_xmlns n) = ParseFileMetadata n"
    by (simp add: ParseFileMetadata_def fold_result_strip file_child_blind)
qed

subsection \<open>Sorting header names\<close>

text \<open>\<^verbatim>\<open>sortStrings\<close> is an insertion sort by swaps: \<open>sift\<close> is the inner loop.\<close>

fun sift :: "nat \<Rightarrow> string list \<Rightarrow> string list" where
  "sift 0 xs = xs"
| "sift (Suc j) xs = (if xs ! Suc j < xs ! j then sift j (xs[Suc j := xs ! j, j := xs ! Suc j]) else xs)"

definition sortStrings :: "string list \<Rightarrow> string list" where
  "sortStrings values = fold sift [1..<length values] values"

lemma length_sift [simp]: "length (sift j xs) = length xs"
  by (induction j xs rule: sift.induct) auto

text \<open>Sifting the element behind a sorted prefix inserts it.\<close>

lemma sift_insort:
  "length ys = j \<Longrightarrow> sorted ys \<Longrightarrow> sift j (ys @ x # zs) = insort x ys @ zs"
proof (induction j arbitrary: ys zs)
  case (Suc j)
  then obtain us u where ys: "ys = us @ [u]" "length us = j" by (metis length_Suc_conv_rev)
  then have us: "sorted us" "\<forall>v\<in>set us. v \<le> u" using Suc.prems(2) by (auto simp: sorted_append)
  have at: "(us @ u # x # zs) ! Suc j = x" "(us @ u # x # zs) ! j = u" using ys(2) by (auto simp: nth_append)
  have list: "ys @ x # zs = us @ u # x # zs" using ys by simp
  show ?case
  proof (cases "x < u")
    case True
    have "(us @ u # x # zs)[Suc j := u, j := x] = us @ x # u # zs"
      using ys(2) by (simp add: list_update_append)
    then have "sift (Suc j) (ys @ x # zs) = insort x us @ u # zs"
      using True at Suc.IH[OF ys(2) us(1), of "u # zs"] by (simp add: list)
    moreover have "insort x (us @ [u]) = insort x us @ [u]"
      using True us(2) by (induction us) auto
    ultimately show ?thesis by (simp add: ys)
  next
    case False
    then have "\<forall>v\<in>set ys. v \<le> x" using us(2) ys(1) by auto
    then have "insort x ys = ys @ [x]"
      using Suc.prems(2) by (simp add: sorted_insort_is_snoc)
    then show ?thesis using False at by (simp add: list ys)
  qed
qed simp

lemma sortStrings_sort: "sortStrings xs = sort xs"
proof -
  have "fold sift [1..<Suc k] xs = sort (take (Suc k) xs) @ drop (Suc k) xs" if "Suc k \<le> length xs" for k
    using that
  proof (induction k)
    case 0
    then show ?case by (cases xs) auto
  next
    case (Suc k)
    then have k: "Suc k < length xs" by simp
    have "fold sift [1..<Suc (Suc k)] xs = sift (Suc k) (sort (take (Suc k) xs) @ xs ! Suc k # drop (Suc (Suc k)) xs)"
      using Suc k by (simp add: Cons_nth_drop_Suc)
    also have "\<dots> = insort (xs ! Suc k) (sort (take (Suc k) xs)) @ drop (Suc (Suc k)) xs"
      using k by (intro sift_insort) simp_all
    also have "insort (xs ! Suc k) (sort (take (Suc k) xs)) = sort (take (Suc (Suc k)) xs)"
      using k by (intro properties_for_sort[symmetric]) (simp_all add: take_Suc_conv_app_nth sorted_insort)
    finally show ?case .
  qed
  from this[of "length xs - 1"] show ?thesis by (cases xs) (simp_all add: sortStrings_def)
qed

subsection \<open>File sharing\<close>

text \<open>A Go map is a partial function; \<open>order\<close> gives the order in which a map is iterated.\<close>

type_synonym headers = "string \<Rightarrow> string option"

record url_source =
  us_URL :: string
  us_Headers :: headers

definition header_node :: "headers \<Rightarrow> string \<Rightarrow> node" where
  "header_node h k = SetAttr ''name'' k (NewTextNode URLDataNS ''header'' (or_empty (h k)))"

definition URLSource_ToNode :: "(headers \<Rightarrow> string list) \<Rightarrow> url_source \<Rightarrow> node" where
  "URLSource_ToNode order s =
     AddChildren (map (header_node (us_Headers s)) (sortStrings (order (us_Headers s))))
       (SetAttr ''target'' (us_URL s) (NewNode URLDataNS ''url-data''))"

definition parse_source :: "node \<Rightarrow> url_source" where
  "parse_source u =
     \<lparr>us_URL = or_empty (AttrValue ''target'' u),
      us_Headers = foldl (\<lambda>h c. h(or_empty (AttrValue ''name'' c) \<mapsto> Text c)) Map.empty (Children u)\<rparr>"

record stateless_file =
  sf_Disposition :: string
  sf_File :: file_metadata
  sf_Sources :: "url_source list"

definition sources_node :: "string \<Rightarrow> (headers \<Rightarrow> string list) \<Rightarrow> url_source list \<Rightarrow> node" where
  "sources_node ns order ss = AddChildren (map (URLSource_ToNode order) ss) (NewNode ns ''sources'')"

definition StatelessFile_ToNode :: "(headers \<Rightarrow> string list) \<Rightarrow> stateless_file \<Rightarrow> node" where
  "StatelessFile_ToNode order s =
     AddChild (sources_node SFSNS order (sf_Sources s))
       (AddChild (FileMetadata_ToNode (sf_File s))
         (SetAttrIf ''disposition'' (sf_Disposition s) (NewNode SFSNS ''file-sharing'')))"

definition sfs_child :: "stateless_file \<Rightarrow> node \<Rightarrow> stateless_file result" where
  "sfs_child s c =
     map_value (\<lambda>s1. if Local (Name c) = ''sources''
                   then s1\<lparr>sf_Sources := sf_Sources s1 @ map parse_source (filter (named URLDataNS ''url-data'') (Children c))\<rparr>
                   else s1)
       (if named FileMetadataNS ''file'' c then map_value (\<lambda>v. s\<lparr>sf_File := v\<rparr>) (ParseFileMetadata c) else Inr s)"

definition ParseStatelessFile :: "node \<Rightarrow> stateless_file result" where
  "ParseStatelessFile n =
     (if Space (Name n) \<noteq> SFSNS \<or> Local (Name n) \<noteq> ''file-sharing'' then Inl (Errf ''xep: invalid stateless file sharing payload'')
      else fold_result sfs_child
        \<lparr>sf_Disposition = or_empty (AttrValue ''disposition'' n), sf_File = file_metadata0, sf_Sources = []\<rparr> (Children n))"

definition sfs_valid :: "(headers \<Rightarrow> string list) \<Rightarrow> stateless_file \<Rightarrow> bool" where
  "sfs_valid order s \<longleftrightarrow> file_valid (sf_File s)
     \<and> list_all (\<lambda>u. set (order (us_Headers u)) = dom (us_Headers u)) (sf_Sources s)"

lemma foldl_headers:
  "foldl (\<lambda>g c. g(or_empty (AttrValue ''name'' c) \<mapsto> Text c)) g (map (header_node h) ks) =
     (\<lambda>k. if k \<in> set ks then Some (or_empty (h k)) else g k)"
proof (induction ks arbitrary: g)
  case (Cons k ks)
  have "or_empty (AttrValue ''name'' (header_node h k)) = k" "Text (header_node h k) = or_empty (h k)"
    by (simp_all add: header_node_def)
  then show ?case using Cons by (auto simp: fun_eq_iff)
qed simp

lemma parse_URLSource:
  assumes "set (order (us_Headers s)) = dom (us_Headers s)"
  shows "parse_source (URLSource_ToNode order s) = s"
proof -
  have "(\<lambda>k. if k \<in> set (sortStrings (order (us_Headers s))) then Some (or_empty (us_Headers s k)) else None) = us_Headers s"
    using assms by (auto simp: fun_eq_iff sortStrings_sort domIff)
  then show ?thesis
    by (simp add: parse_source_def URLSource_ToNode_def foldl_headers)
qed

text \<open>The written form does not depend on the iteration order of the map.\<close>

lemma URLSource_order_irrelevant:
  assumes "distinct (o1 h)" "distinct (o2 h)" "set (o1 h) = set (o2 h)" "us_Headers s = h"
  shows "URLSource_ToNode o1 s = URLSource_ToNode o2 s"
  using assms by (simp add: URLSource_ToNode_def sortStrings_sort) (metis sorted_list_of_set_sort_remdups distinct_remdups_id)

lemma named_URLSource [simp]: "named ns l (URLSource_ToNode order u) \<longleftrightarrow> ns = URLDataNS \<and> l = ''url-data''"
  by (simp add: URLSource_ToNode_def)

lemma source_nodes:
  "list_all (\<lambda>u. set (order (us_Headers u)) = dom (us_Headers u)) us \<Longrightarrow>
   map parse_source (filter (named URLDataNS ''url-data'') (map (URLSource_ToNode order) us)) = us"
  by (induction us) (simp_all add: parse_URLSource)

lemma parse_source_blind: "parse_source (strip_xmlns n) = parse_source n"
  by (simp add: parse_source_def foldl_strip)

lemma sfs_child_blind: "sfs_child s (strip_xmlns c) = sfs_child s c"
proof -
  have "map parse_source (filter (named URLDataNS ''url-data'') (Children (strip_xmlns c)))
      = map parse_source (filter (named URLDataNS ''url-data'') (Children c))"
    by (simp add: filter_strip parse_source_blind comp_def)
  then show ?thesis unfolding sfs_child_def by (simp only: file_codec.decode_blind Name_strip named_strip)
qed

lemma sources_node_built: "ns \<noteq> [] \<Longrightarrow> well_built (sources_node ns order ss)"
  unfolding sources_node_def
  by (intro inv_intros) (auto simp: URLSource_ToNode_def header_node_def intro!: inv_intros)

interpretation sfs_codec: payload_codec "StatelessFile_ToNode order" ParseStatelessFile "sfs_valid order" for order
proof
  fix s :: stateless_file and n :: node
  show "ParseStatelessFile (StatelessFile_ToNode order s) = Inr s" if "sfs_valid order s"
    using that
    by (simp add: ParseStatelessFile_def StatelessFile_ToNode_def sfs_child_def sfs_valid_def sources_node_def
        file_codec.decode_encode source_nodes named_def)
  show "well_built (StatelessFile_ToNode order s)"
    unfolding StatelessFile_ToNode_def by (intro inv_intros file_codec.encode_built sources_node_built) simp_all
  show "ParseStatelessFile (strip_xmlns n) = ParseStatelessFile n"
    by (simp add: ParseStatelessFile_def fold_result_strip sfs_child_blind)
qed

record sims_reference =
  sr_URI :: string
  sr_File :: file_metadata
  sr_Sources :: "url_source list"

definition SIMS_ToNode :: "(headers \<Rightarrow> string list) \<Rightarrow> sims_reference \<Rightarrow> node" where
  "SIMS_ToNode order s =
     AddChild
       (AddChild (sources_node SIMSNS order (sr_Sources s))
         (AddChild (FileMetadata_ToNode (sr_File s)) (NewNode SIMSNS ''media-sharing'')))
       (Reference_ToNode \<lparr>ref_Type = ''data'', ref_URI = sr_URI s, ref_Anchor = [], ref_Begin = None, ref_End = None\<rparr>)"

record link_metadata =
  lm_URL :: string
  lm_Title :: string
  lm_Description :: string
  lm_Image :: string
  lm_SiteName :: string
  lm_MediaType :: string

definition link_value :: "link_metadata \<Rightarrow> string \<Rightarrow> string" where
  "link_value l name =
     (if name = ''url'' then lm_URL l else if name = ''title'' then lm_Title l
      else if name = ''description'' then lm_Description l else if name = ''image'' then lm_Image l
      else if name = ''site-name'' then lm_SiteName l else if name = ''media-type'' then lm_MediaType l else [])"

text \<open>The loop over a map literal: \<open>order\<close> is some order of the six names.\<close>

definition LinkMetadata_ToNode :: "string list \<Rightarrow> link_metadata \<Rightarrow> node" where
  "LinkMetadata_ToNode order l =
     AddChildren (concat (map (\<lambda>name. text_child LinkMetadataNS name (link_value l name)) order)) (NewNode LinkMetadataNS ''link-metadata'')"

lemma LinkMetadata_values:
  assumes "distinct order" "name \<in> set order"
  shows "ChildText LinkMetadataNS name (LinkMetadata_ToNode order l) = link_value l name"
proof -
  have "find (\<lambda>c. Local (Name c) = name \<and> Space (Name c) = LinkMetadataNS)
      (concat (map (\<lambda>x. text_child LinkMetadataNS x (link_value l x)) xs))
    = (if name \<in> set xs \<and> link_value l name \<noteq> [] then Some (NewTextNode LinkMetadataNS name (link_value l name)) else None)" for xs
    by (induction xs) (auto simp: find_append_split text_child_def split: option.splits)
  then show ?thesis using assms by (simp add: ChildText_def Child_eq_find LinkMetadata_ToNode_def)
qed

subsection \<open>Media fragments\<close>

text \<open>\<^verbatim>\<open>base64.RawURLEncoding\<close>: no padding, and \<^verbatim>\<open>-\<close> and \<^verbatim>\<open>_\<close> in place of \<^verbatim>\<open>+\<close> and \<^verbatim>\<open>/\<close>.\<close>

definition url_char :: "char \<Rightarrow> char" where
  "url_char c = (if c = CHR ''+'' then CHR ''-'' else if c = CHR ''/'' then CHR 0x5F else c)"

definition url_val :: "char \<Rightarrow> nat option" where
  "url_val c =
     (if c = CHR ''-'' then Some 62 else if c = CHR 0x5F then Some 63
      else if c = CHR ''+'' \<or> c = CHR ''/'' then None else sextet_val c)"

definition RawURLEncode :: "bytes \<Rightarrow> string" where
  "RawURLEncode b = map url_char (b64_encode [] b)"

fun raw_quads :: "string \<Rightarrow> bytes option" where
  "raw_quads [] = Some []"
| "raw_quads [w] = None"
| "raw_quads [w, x] =
     (case (url_val w, url_val x) of (Some a, Some b) \<Rightarrow> Some (take 1 (quad_bytes a b 0 0)) | _ \<Rightarrow> None)"
| "raw_quads [w, x, y] =
     (case (url_val w, url_val x, url_val y) of (Some a, Some b, Some c) \<Rightarrow> Some (take 2 (quad_bytes a b c 0)) | _ \<Rightarrow> None)"
| "raw_quads (w # x # y # z # s) =
     (case (url_val w, url_val x, url_val y, url_val z) of
        (Some a, Some b, Some c, Some d) \<Rightarrow> map_option ((@) (quad_bytes a b c d)) (raw_quads s)
      | _ \<Rightarrow> None)"

definition RawURLDecode :: "string \<Rightarrow> bytes option" where
  "RawURLDecode s = raw_quads (filter (\<lambda>c. c \<noteq> CHR 0x0D \<and> c \<noteq> CHR 0x0A) s)"

record media_fragment =
  mf_Key :: bytes
  mf_IV :: bytes

definition Fragment_String :: "media_fragment \<Rightarrow> string" where
  "Fragment_String f = RawURLEncode (mf_Key f @ mf_IV f)"

definition ParseOMEMOMediaFragment :: "string \<Rightarrow> int \<Rightarrow> media_fragment result" where
  "ParseOMEMOMediaFragment value keySize =
     (case RawURLDecode (TrimPrefix value ''#'') of
        None \<Rightarrow> Inl CorruptInput
      | Some raw \<Rightarrow>
          if keySize \<le> 0 \<or> int (length raw) \<le> keySize then Inl (Errf ''xep: invalid OMEMO media fragment length'')
          else Inr \<lparr>mf_Key = take (nat keySize) raw, mf_IV = drop (nat keySize) raw\<rparr>)"

lemma url_val_url_char: "c \<in> set std_alphabet \<Longrightarrow> url_val (url_char c) = sextet_val c"
  by (auto simp: url_val_def url_char_def std_alphabet_def sextet_val_def)

lemma url_val_sextet [simp]: "n < 64 \<Longrightarrow> url_val (url_char (sextet n)) = Some n"
  by (simp add: url_val_url_char sextet_in_alphabet)

lemma raw_quads_encode: "raw_quads (map url_char (b64_encode [] b)) = Some b"
proof (induction "[] :: string" b rule: b64_encode.induct)
  case (2 a)
  then show ?case using quad_bytes_join1[of a] by simp
next
  case (3 a b)
  then show ?case using quad_bytes_join2[of a b] by simp
next
  case (4 a b c s)
  then show ?case using quad_bytes_join[of a b c] by simp
qed simp

lemma b64_raw_alphabet: "c \<in> set (b64_encode [] b) \<Longrightarrow> c \<in> set std_alphabet"
  by (induction "[] :: string" b rule: b64_encode.induct) (auto simp: sextet_in_alphabet)

lemma url_char_plain: "c \<in> set std_alphabet \<Longrightarrow> url_char c \<notin> {CHR 0x0D, CHR 0x0A, CHR ''#''}"
  by (auto simp: url_char_def std_alphabet_def)

lemma RawURL_chars: "c \<in> set (RawURLEncode b) \<Longrightarrow> c \<notin> {CHR 0x0D, CHR 0x0A, CHR ''#''}"
  using url_char_plain b64_raw_alphabet by (fastforce simp: RawURLEncode_def)

lemma RawURLDecode_Encode: "RawURLDecode (RawURLEncode b) = Some b"
proof -
  have "filter (\<lambda>c. c \<noteq> CHR 0x0D \<and> c \<noteq> CHR 0x0A) (RawURLEncode b) = RawURLEncode b"
    using RawURL_chars by (auto simp: filter_id_conv)
  then show ?thesis by (simp add: RawURLDecode_def) (simp add: RawURLEncode_def raw_quads_encode)
qed

lemma TrimPrefix_hash: "TrimPrefix (RawURLEncode b) ''#'' = RawURLEncode b" "TrimPrefix (CHR ''#'' # RawURLEncode b) ''#'' = RawURLEncode b"
proof -
  have "\<not> prefix ''#'' (RawURLEncode b)"
  proof
    assume "prefix ''#'' (RawURLEncode b)"
    then have "CHR ''#'' \<in> set (RawURLEncode b)" by (auto simp: prefix_def)
    then show False using RawURL_chars by blast
  qed
  then show "TrimPrefix (RawURLEncode b) ''#'' = RawURLEncode b" "TrimPrefix (CHR ''#'' # RawURLEncode b) ''#'' = RawURLEncode b"
    by (simp_all add: TrimPrefix_def HasPrefix_def)
qed

text \<open>A media fragment with key and initialisation vector is recovered from its text, with or
  without the leading number sign, given the size of the key; a text too short for the key
  and a size that is not positive are refused.\<close>

lemma media_fragment_roundtrip:
  assumes "mf_Key f \<noteq> []" "mf_IV f \<noteq> []"
  shows "ParseOMEMOMediaFragment (Fragment_String f) (int (length (mf_Key f))) = Inr f
    \<and> ParseOMEMOMediaFragment (CHR ''#'' # Fragment_String f) (int (length (mf_Key f))) = Inr f
    \<and> (\<forall>k. k \<le> 0 \<or> int (length (mf_Key f) + length (mf_IV f)) \<le> k \<longrightarrow>
         ParseOMEMOMediaFragment (Fragment_String f) k = Inl (Errf ''xep: invalid OMEMO media fragment length''))"
  using assms by (auto simp: ParseOMEMOMediaFragment_def Fragment_String_def TrimPrefix_hash RawURLDecode_Encode)

subsection \<open>Properties\<close>


definition example_file :: stateless_file where
  "example_file = \<lparr>sf_Disposition = ''inline'',
     sf_File = file_metadata0\<lparr>fm_Name := ''a.png'', fm_Size := Some 18446744073709551615, fm_Duration := Some 2000000,
       fm_Hashes := [HashValue ''sha-256'' ''xyz'']\<rparr>,
     sf_Sources = [\<lparr>us_URL = ''https://example.org/a.png'', us_Headers = [''b'' \<mapsto> ''2'', ''a'' \<mapsto> ''1'']\<rparr>]\<rparr>"


end
