(* ===== verification/Client_Control.thy ===== *)
theory Client_Control
  imports Payloads
begin

text \<open>
  Blocking, message carbons and client state indication of \<^verbatim>\<open>src/xep/client_control.go\<close> (its
  stream management has a theory of its own). The block list is a set of addresses; the
  exchanges with the server and \<^verbatim>\<open>Send\<close> are arguments.
\<close>

abbreviation BlockingNS :: string where "BlockingNS \<equiv> ''urn:xmpp:blocking''"
abbreviation CarbonsNS :: string where "CarbonsNS \<equiv> ''urn:xmpp:carbons:2''"
abbreviation CSINS :: string where "CSINS \<equiv> ''urn:xmpp:csi:0''"

subsection \<open>Blocking\<close>

definition parseBlockItems :: "node \<Rightarrow> string list" where
  "parseBlockItems n =
     List.map_filter (\<lambda>item. if Local (Name item) = ''item'' then AttrValue ''jid'' item else None) (Children n)"

definition Blocking_List :: "(iq \<Rightarrow> iq result) \<Rightarrow> string set \<Rightarrow> string list result \<times> string set" where
  "Blocking_List request blocked =
     (case request (iq0\<lparr>iq_Type := IQGet, iq_Payloads := [NewNode BlockingNS ''blocklist'']\<rparr>) of
        Inl e \<Rightarrow> (Inl e, blocked)
      | Inr response \<Rightarrow>
          (case IQ_Payload response of
             None \<Rightarrow> (Inl (Errf ''xep: missing blocklist''), blocked)
           | Some p \<Rightarrow> (Inr (parseBlockItems p), set (parseBlockItems p))))"

definition block_node :: "string \<Rightarrow> string list \<Rightarrow> node" where
  "block_node action jids =
     AddChildren (map (\<lambda>jid. SetAttr ''jid'' jid (NewNode BlockingNS ''item'')) jids) (NewNode BlockingNS action)"

definition Blocking_change :: "(iq \<Rightarrow> iq result) \<Rightarrow> string \<Rightarrow> string list \<Rightarrow> go_error option" where
  "Blocking_change request action jids =
     (case request (iq0\<lparr>iq_Type := IQSet, iq_Payloads := [block_node action jids]\<rparr>) of Inl e \<Rightarrow> Some e | Inr _ \<Rightarrow> None)"

definition Block :: "(iq \<Rightarrow> iq result) \<Rightarrow> string list \<Rightarrow> go_error option" where
  "Block request jids = Blocking_change request ''block'' jids"

definition Unblock :: "(iq \<Rightarrow> iq result) \<Rightarrow> string list \<Rightarrow> go_error option" where
  "Unblock request jids = Blocking_change request ''unblock'' jids"

definition UnblockAll :: "(iq \<Rightarrow> iq result) \<Rightarrow> go_error option" where
  "UnblockAll request = Blocking_change request ''unblock'' []"

definition IsBlocked :: "string set \<Rightarrow> string \<Rightarrow> bool" where
  "IsBlocked blocked jid \<longleftrightarrow> BareJIDString jid \<in> blocked"

text \<open>The effect of a push on the list.\<close>

definition apply_push :: "node \<Rightarrow> string set \<Rightarrow> string set" where
  "apply_push p blocked =
     (let items = parseBlockItems p in
      if Local (Name p) = ''block'' then blocked \<union> set items
      else if items = [] then {}
      else blocked - set items)"

text \<open>The reply sent, the error returned, the items of the emitted event and the new list. A missing
  first payload is a nil dereference, the panic \<open>None\<close>.\<close>

definition Blocking_handlePush ::
  "(stanza \<Rightarrow> go_error option) \<Rightarrow> jid \<Rightarrow> iq \<Rightarrow> string set \<Rightarrow> (iq \<times> go_error option \<times> string list \<times> string set) option" where
  "Blocking_handlePush send own q blocked =
     (if iq_From q \<noteq> [] \<and> BareJIDString (iq_From q) \<noteq> JID_Bare own \<and> iq_From q \<noteq> jid_Domain own then
        let reply = IQ_ErrorResult q (Some (stanza_error0\<lparr>se_Type := ''cancel'', se_Condition := ''not-allowed''\<rparr>))
        in Some (reply, send (SIQ reply), [], blocked)
      else
        case IQ_Payload q of
          None \<Rightarrow> None
        | Some p \<Rightarrow>
            let reply = IQ_Result q []; blocked' = apply_push p blocked in
            (case send (SIQ reply) of
               Some e \<Rightarrow> Some (reply, Some e, [], blocked')
             | None \<Rightarrow> Some (reply, None, parseBlockItems p, blocked')))"

lemma parseBlockItems_node: "parseBlockItems (block_node action jids) = jids"
proof -
  have "List.map_filter (\<lambda>item. if Local (Name item) = ''item'' then AttrValue ''jid'' item else None)
      (map (\<lambda>jid. SetAttr ''jid'' jid (NewNode BlockingNS ''item'')) js) = js" for js
    by (induction js) (simp_all add: List.map_filter_def)
  then show ?thesis by (simp add: parseBlockItems_def block_node_def)
qed

text \<open>The cache follows the requests the server confirms by pushes.\<close>

lemma apply_push_block_node:
  "apply_push (block_node ''block'' js) blocked = blocked \<union> set js"
  "js \<noteq> [] \<Longrightarrow> apply_push (block_node ''unblock'' js) blocked = blocked - set js"
  "apply_push (block_node ''unblock'' []) blocked = {}"
  by (simp_all add: apply_push_def Let_def parseBlockItems_node) (simp_all add: block_node_def)

subsection \<open>Carbons\<close>

record carbon =
  ca_Direction :: string
  ca_Forwarded :: forwarded
  ca_Envelope :: message

definition Carbons_set :: "(iq \<Rightarrow> iq result) \<Rightarrow> bool \<Rightarrow> bool \<Rightarrow> go_error option \<times> bool" where
  "Carbons_set request enable enabled =
     (case request (iq0\<lparr>iq_Type := IQSet, iq_Payloads := [NewNode CarbonsNS (if enable then ''enable'' else ''disable'')]\<rparr>) of
        Inl e \<Rightarrow> (Some e, enabled)
      | Inr _ \<Rightarrow> (None, enable))"

text \<open>\<^verbatim>\<open>handle\<close>: the carbon emitted, if any, or the error. The first direction with an extension
  decides.\<close>

fun carbon_loop :: "message \<Rightarrow> string list \<Rightarrow> carbon option result" where
  "carbon_loop m [] = Inr None"
| "carbon_loop m (direction # ds) =
     (case Message_Extension m CarbonsNS direction of
        None \<Rightarrow> carbon_loop m ds
      | Some node \<Rightarrow>
          (case Child ForwardNS ''forwarded'' node of
             None \<Rightarrow> Inl (Errf ''xep: carbon has no forwarded stanza'')
           | Some forward \<Rightarrow>
               (case ParseForwarded forward of
                  Inl e \<Rightarrow> Inl e
                | Inr f \<Rightarrow> Inr (Some \<lparr>ca_Direction = direction, ca_Forwarded = f, ca_Envelope = m\<rparr>))))"

definition Carbons_handle :: "message \<Rightarrow> carbon option result" where
  "Carbons_handle m = carbon_loop m [''sent'', ''received'']"

subsection \<open>Client state indication\<close>

definition CSI_Active :: "(node \<Rightarrow> go_error option) \<Rightarrow> bool \<Rightarrow> go_error option \<times> bool" where
  "CSI_Active send active = (case send (NewNode CSINS ''active'') of Some e \<Rightarrow> (Some e, active) | None \<Rightarrow> (None, True))"

definition CSI_Inactive :: "(node \<Rightarrow> go_error option) \<Rightarrow> bool \<Rightarrow> go_error option \<times> bool" where
  "CSI_Inactive send active = (case send (NewNode CSINS ''inactive'') of Some e \<Rightarrow> (Some e, active) | None \<Rightarrow> (None, False))"

subsection \<open>Properties\<close>

text \<open>A carbon copy is accepted from any sender: whatever the envelope's sender is, the handler
  emits the same forwarded stanza, so a stranger can make the client report messages that
  the user's contacts or the user never sent.\<close>

theorem carbons_ignore_sender:
  "map_value (map_option (\<lambda>c. (ca_Direction c, ca_Forwarded c))) (Carbons_handle (m\<lparr>msg_From := anyone\<rparr>))
   = map_value (map_option (\<lambda>c. (ca_Direction c, ca_Forwarded c))) (Carbons_handle m)"
proof -
  have "map_value (map_option (\<lambda>c. (ca_Direction c, ca_Forwarded c))) (carbon_loop (m\<lparr>msg_From := anyone\<rparr>) ds)
      = map_value (map_option (\<lambda>c. (ca_Direction c, ca_Forwarded c))) (carbon_loop m ds)" for ds
    by (induction ds) (auto simp: Message_Extension_def split: option.splits sum.splits)
  then show ?thesis unfolding Carbons_handle_def by this
qed

end
