(* ===== verification/Disco.thy ===== *)
theory Disco
  imports Exchange Forms Rsm Plugins
begin

text \<open>
  Service discovery: \<^verbatim>\<open>src/xep/disco.go\<close>. The feature list of an entry is a Go slice with its
  backing array, because \<^verbatim>\<open>LocalInfo\<close> appends to and sorts the slice the registry still holds;
  the other slices are replaced by every writer and copied by every reader, so they are lists.
  How much room \<^verbatim>\<open>append\<close> allocates is an argument (\<open>grow\<close>, from the old capacity and the needed
  length), as the language leaves it open.
\<close>

abbreviation DiscoInfoNS :: string where "DiscoInfoNS \<equiv> ''http://jabber.org/protocol/disco#info''"
abbreviation DiscoItemsNS :: string where "DiscoItemsNS \<equiv> ''http://jabber.org/protocol/disco#items''"

subsection \<open>Slices of strings\<close>

datatype slice = Slice (sl_array: "string list") (sl_len: nat)

definition sl_view :: "slice \<Rightarrow> string list" where
  "sl_view s = take (sl_len s) (sl_array s)"

definition sl_ok :: "slice \<Rightarrow> bool" where
  "sl_ok s \<longleftrightarrow> sl_len s \<le> length (sl_array s)"

definition sl_spare :: "slice \<Rightarrow> nat" where
  "sl_spare s = length (sl_array s) - sl_len s"

text \<open>A fresh array for \<open>xs\<close>, as \<^verbatim>\<open>append\<close> allocates it for a slice of capacity \<open>c\<close>.\<close>

definition sl_alloc :: "(nat \<Rightarrow> nat \<Rightarrow> nat) \<Rightarrow> nat \<Rightarrow> string list \<Rightarrow> slice" where
  "sl_alloc grow c xs = Slice (xs @ replicate (grow c (length xs) - length xs) []) (length xs)"

definition sl_append :: "(nat \<Rightarrow> nat \<Rightarrow> nat) \<Rightarrow> string \<Rightarrow> slice \<Rightarrow> slice" where
  "sl_append grow x s =
     (if sl_len s < length (sl_array s) then Slice ((sl_array s)[sl_len s := x]) (Suc (sl_len s))
      else sl_alloc grow (length (sl_array s)) (sl_view s @ [x]))"

text \<open>\<^verbatim>\<open>append(xs[:i], xs[i+1:]...)\<close> moves the tail in place.\<close>

definition sl_remove :: "string \<Rightarrow> slice \<Rightarrow> slice" where
  "sl_remove x s =
     (if x \<in> set (sl_view s)
      then Slice (remove_first (\<lambda>y. y = x) (sl_view s) @ drop (sl_len s - 1) (sl_array s)) (sl_len s - 1)
      else s)"

definition sl_sort :: "slice \<Rightarrow> slice" where
  "sl_sort s = Slice (sort (sl_view s) @ drop (sl_len s) (sl_array s)) (sl_len s)"

definition sl_clone :: "(nat \<Rightarrow> nat \<Rightarrow> nat) \<Rightarrow> string list \<Rightarrow> slice" where
  "sl_clone grow xs = (if xs = [] then Slice [] 0 else sl_alloc grow 0 xs)"

subsection \<open>Data\<close>

datatype identity = Identity (id_Category: string) (id_Type: string) (id_Name: string) (id_Lang: string)

datatype disco_item = DiscoItem (it_JID: string) (it_Node: string) (it_Name: string)

record disco_info =
  di_Node :: string
  di_Identities :: "identity list"
  di_Features :: "string list"
  di_Forms :: "form list"

record disco_items =
  ds_Node :: string
  ds_Items :: "disco_item list"
  ds_RSM :: "rsm option"

text \<open>An entry of the \<^verbatim>\<open>info\<close> map, and the plugin's state. A missing entry reads as the zero value.\<close>

record info_entry =
  ie_Node :: string
  ie_Identities :: "identity list"
  ie_Features :: slice
  ie_Forms :: "form list"

record disco =
  d_info :: "string \<Rightarrow> info_entry option"
  d_items :: "string \<Rightarrow> disco_items option"

definition info0 :: disco_info where
  "info0 = \<lparr>di_Node = [], di_Identities = [], di_Features = [], di_Forms = []\<rparr>"

definition items0 :: disco_items where
  "items0 = \<lparr>ds_Node = [], ds_Items = [], ds_RSM = None\<rparr>"

definition entry0 :: info_entry where
  "entry0 = \<lparr>ie_Node = [], ie_Identities = [], ie_Features = Slice [] 0, ie_Forms = []\<rparr>"

definition NewDisco :: disco where
  "NewDisco = \<lparr>d_info = Map.empty, d_items = Map.empty\<rparr>"

definition info_at :: "disco \<Rightarrow> string \<Rightarrow> info_entry" where
  "info_at d node = (case d_info d node of None \<Rightarrow> entry0 | Some e \<Rightarrow> e)"

definition items_at :: "disco \<Rightarrow> string \<Rightarrow> disco_items" where
  "items_at d node = (case d_items d node of None \<Rightarrow> items0 | Some e \<Rightarrow> e)"

definition put_info :: "string \<Rightarrow> info_entry \<Rightarrow> disco \<Rightarrow> disco" where
  "put_info node e d = d\<lparr>d_info := (d_info d)(node \<mapsto> e)\<rparr>"

definition put_items :: "string \<Rightarrow> disco_items \<Rightarrow> disco \<Rightarrow> disco" where
  "put_items node e d = d\<lparr>d_items := (d_items d)(node \<mapsto> e)\<rparr>"

subsection \<open>Operations\<close>

text \<open>The state change of \<^verbatim>\<open>Init\<close>: the root gets the default identity unless it has one.\<close>

definition Disco_Init :: "disco \<Rightarrow> disco" where
  "Disco_Init d =
     (let root = info_at d [] in
      put_info [] (if ie_Identities root = []
        then root\<lparr>ie_Identities := [Identity ''client'' ''bot'' ''slixmpp-go'' []]\<rparr> else root) d)"

definition AddIdentity :: "string \<Rightarrow> identity \<Rightarrow> disco \<Rightarrow> disco" where
  "AddIdentity node i d =
     (let info = info_at d node in
      put_info node (info\<lparr>ie_Node := node, ie_Identities := ie_Identities info @ [i]\<rparr>) d)"

definition AddFeature :: "(nat \<Rightarrow> nat \<Rightarrow> nat) \<Rightarrow> string \<Rightarrow> string \<Rightarrow> disco \<Rightarrow> disco" where
  "AddFeature grow node feature d =
     (let info = info_at d node in
      if feature \<in> set (sl_view (ie_Features info)) then d
      else put_info node (info\<lparr>ie_Node := node, ie_Features := sl_append grow feature (ie_Features info)\<rparr>) d)"

definition RemoveFeature :: "string \<Rightarrow> string \<Rightarrow> disco \<Rightarrow> disco" where
  "RemoveFeature node feature d =
     (let info = info_at d node in
      put_info node (info\<lparr>ie_Features := sl_remove feature (ie_Features info)\<rparr>) d)"

definition SetInfo :: "(nat \<Rightarrow> nat \<Rightarrow> nat) \<Rightarrow> string \<Rightarrow> disco_info \<Rightarrow> disco \<Rightarrow> disco" where
  "SetInfo grow node info d =
     put_info node \<lparr>ie_Node = node, ie_Identities = di_Identities info,
       ie_Features = sl_clone grow (di_Features info), ie_Forms = di_Forms info\<rparr> d"

definition SetItems :: "string \<Rightarrow> disco_items \<Rightarrow> disco \<Rightarrow> disco" where
  "SetItems node items d = put_items node (items\<lparr>ds_Node := node\<rparr>) d"

definition AddItem :: "string \<Rightarrow> disco_item \<Rightarrow> disco \<Rightarrow> disco" where
  "AddItem node item d =
     (let items = items_at d node in
      put_items node (items\<lparr>ds_Node := node, ds_Items := ds_Items items @ [item]\<rparr>) d)"

text \<open>
  \<^verbatim>\<open>LocalInfo\<close>: at the root the features of the plugins that are not listed yet are appended to the
  local slice, which shares the array of the stored one while the array has room. The stored
  entry keeps its length and sees what happens to the shared array (\<open>shared_after\<close>).
\<close>

definition merge_features :: "(nat \<Rightarrow> nat \<Rightarrow> nat) \<Rightarrow> string list \<Rightarrow> slice \<Rightarrow> slice" where
  "merge_features grow fs s = foldl (\<lambda>s f. if f \<in> set (sl_view s) then s else sl_append grow f s) s fs"

definition shared_after :: "slice \<Rightarrow> slice \<Rightarrow> slice" where
  "shared_after s merged =
     (if sl_len merged \<le> length (sl_array s) then Slice (sl_array (sl_sort merged)) (sl_len s)
      else Slice (take (length (sl_array s)) (sl_view merged)) (sl_len s))"

definition LocalInfo :: "(nat \<Rightarrow> nat \<Rightarrow> nat) \<Rightarrow> string list \<Rightarrow> string \<Rightarrow> disco \<Rightarrow> disco_info option \<times> disco" where
  "LocalInfo grow plugin_features node d =
     (case d_info d node of
        None \<Rightarrow> (None, d)
      | Some e \<Rightarrow>
          let merged = (if node = [] then merge_features grow plugin_features (ie_Features e) else ie_Features e)
          in (Some \<lparr>di_Node = ie_Node e, di_Identities = ie_Identities e,
                    di_Features = sl_view (sl_sort merged), di_Forms = ie_Forms e\<rparr>,
              put_info node (e\<lparr>ie_Features := shared_after (ie_Features e) merged\<rparr>) d))"

definition LocalItems :: "string \<Rightarrow> disco \<Rightarrow> disco_items \<times> bool" where
  "LocalItems node d = (items_at d node, d_items d node \<noteq> None)"

subsection \<open>Wire format\<close>

definition identityNode :: "identity \<Rightarrow> node" where
  "identityNode i =
     (let n = SetAttrIf ''name'' (id_Name i)
                (SetAttr ''type'' (id_Type i) (SetAttr ''category'' (id_Category i) (NewNode DiscoInfoNS ''identity'')))
      in if id_Lang i \<noteq> [] then SetAttrNS xml_ns ''lang'' (id_Lang i) n else n)"

definition featureNode :: "string \<Rightarrow> node" where
  "featureNode f = SetAttr ''var'' f (NewNode DiscoInfoNS ''feature'')"

definition discoInfoNode :: "disco_info \<Rightarrow> node" where
  "discoInfoNode info =
     AddChildren (map Form_ToNode (di_Forms info))
       (AddChildren (map featureNode (sort (di_Features info)))
       (AddChildren (map identityNode (di_Identities info))
       (SetAttrIf ''node'' (di_Node info) (NewNode DiscoInfoNS ''query''))))"

definition itemNode :: "disco_item \<Rightarrow> node" where
  "itemNode i =
     SetAttrIf ''name'' (it_Name i) (SetAttrIf ''node'' (it_Node i)
       (SetAttr ''jid'' (it_JID i) (NewNode DiscoItemsNS ''item'')))"

definition discoItemsNode :: "disco_items \<Rightarrow> node" where
  "discoItemsNode items =
     AddChildren (opt_children RSM_ToNode (ds_RSM items))
       (AddChildren (map itemNode (ds_Items items))
       (SetAttrIf ''node'' (ds_Node items) (NewNode DiscoItemsNS ''query'')))"

definition parse_identity :: "node \<Rightarrow> identity" where
  "parse_identity n =
     Identity (or_empty (AttrValue ''category'' n)) (or_empty (AttrValue ''type'' n))
       (or_empty (AttrValue ''name'' n)) (or_empty (AttrValueNS xml_ns ''lang'' n))"

definition info_child :: "disco_info \<Rightarrow> node \<Rightarrow> disco_info result" where
  "info_child info n =
     (if Local (Name n) = ''identity'' then
        Inr (info\<lparr>di_Identities := di_Identities info @ [parse_identity n]\<rparr>)
      else if Local (Name n) = ''feature'' then
        Inr (case AttrValue ''var'' n of None \<Rightarrow> info
             | Some v \<Rightarrow> info\<lparr>di_Features := di_Features info @ [v]\<rparr>)
      else if Local (Name n) = ''x'' then
        (if Space (Name n) = DataFormsNS then
           (case ParseForm n of Inl e \<Rightarrow> Inl e
            | Inr form \<Rightarrow> Inr (info\<lparr>di_Forms := di_Forms info @ [form]\<rparr>))
         else Inr info)
      else Inr info)"

definition parseDiscoInfo :: "node \<Rightarrow> disco_info result" where
  "parseDiscoInfo q =
     (if Space (Name q) \<noteq> DiscoInfoNS \<or> Local (Name q) \<noteq> ''query'' then Inl (Errf ''xep: invalid disco#info payload'')
      else fold_result info_child (info0\<lparr>di_Node := or_empty (AttrValue ''node'' q)\<rparr>) (Children q))"

definition parse_item :: "node \<Rightarrow> disco_item" where
  "parse_item n =
     DiscoItem (or_empty (AttrValue ''jid'' n)) (or_empty (AttrValue ''node'' n)) (or_empty (AttrValue ''name'' n))"

definition items_child :: "disco_items \<Rightarrow> node \<Rightarrow> disco_items result" where
  "items_child out n =
     (if Space (Name n) = RSMNS \<and> Local (Name n) = ''set'' then
        (case ParseRSM n of Inl e \<Rightarrow> Inl e | Inr r \<Rightarrow> Inr (out\<lparr>ds_RSM := Some r\<rparr>))
      else if Local (Name n) = ''item'' then Inr (out\<lparr>ds_Items := ds_Items out @ [parse_item n]\<rparr>)
      else Inr out)"

definition parseDiscoItems :: "node \<Rightarrow> disco_items result" where
  "parseDiscoItems q =
     (if Space (Name q) \<noteq> DiscoItemsNS \<or> Local (Name q) \<noteq> ''query'' then Inl (Errf ''xep: invalid disco#items payload'')
      else fold_result items_child (items0\<lparr>ds_Node := or_empty (AttrValue ''node'' q)\<rparr>) (Children q))"

subsection \<open>Queries and handlers\<close>

definition disco_request :: "string \<Rightarrow> string \<Rightarrow> node list \<Rightarrow> string \<Rightarrow> iq" where
  "disco_request ns jid extra node =
     iq0\<lparr>iq_To := jid, iq_Type := IQGet,
         iq_Payloads := [AddChildren extra (SetAttrIf ''node'' node (NewNode ns ''query''))]\<rparr>"

definition GetInfo :: "(iq \<Rightarrow> iq result) \<Rightarrow> string \<Rightarrow> string \<Rightarrow> disco_info result" where
  "GetInfo request jid node =
     (case request (disco_request DiscoInfoNS jid [] node) of
        Inl e \<Rightarrow> Inl e
      | Inr response \<Rightarrow>
          (case IQ_Payload response of
             None \<Rightarrow> Inl (Errf ''xep: missing disco#info payload'')
           | Some payload \<Rightarrow> parseDiscoInfo payload))"

definition GetItems :: "(iq \<Rightarrow> iq result) \<Rightarrow> string \<Rightarrow> string \<Rightarrow> rsm option \<Rightarrow> disco_items result" where
  "GetItems request jid node r =
     (case request (disco_request DiscoItemsNS jid (opt_children RSM_ToNode r) node) of
        Inl e \<Rightarrow> Inl e
      | Inr response \<Rightarrow>
          (case IQ_Payload response of
             None \<Rightarrow> Inl (Errf ''xep: missing disco#items payload'')
           | Some payload \<Rightarrow> parseDiscoItems payload))"

definition item_not_found :: stanza_error where
  "item_not_found = stanza_error0\<lparr>se_Type := ''cancel'', se_Condition := ''item-not-found''\<rparr>"

text \<open>The node a request asks for; the handlers are registered for requests with a payload.\<close>

definition asked_node :: "iq \<Rightarrow> string" where
  "asked_node q = (case IQ_Payload q of None \<Rightarrow> [] | Some p \<Rightarrow> or_empty (AttrValue ''node'' p))"

definition handleInfo :: "(nat \<Rightarrow> nat \<Rightarrow> nat) \<Rightarrow> string list \<Rightarrow> disco \<Rightarrow> iq \<Rightarrow> iq \<times> disco" where
  "handleInfo grow plugin_features d q =
     (case LocalInfo grow plugin_features (asked_node q) d of
        (None, d') \<Rightarrow> (IQ_ErrorResult q (Some item_not_found), d')
      | (Some info, d') \<Rightarrow> (IQ_Result q [discoInfoNode info], d'))"

definition handleItems :: "disco \<Rightarrow> iq \<Rightarrow> iq" where
  "handleItems d q =
     (case LocalItems (asked_node q) d of
        (items, ok) \<Rightarrow>
          if \<not> ok \<and> asked_node q \<noteq> [] then IQ_ErrorResult q (Some item_not_found)
          else IQ_Result q [discoItemsNode items])"

subsection \<open>Slices\<close>

lemma sl_view_append [simp]: "sl_ok s \<Longrightarrow> sl_view (sl_append grow x s) = sl_view s @ [x]"
  by (auto simp: sl_ok_def sl_append_def sl_alloc_def sl_view_def take_Suc_conv_app_nth)

lemma sl_ok_append [simp]: "sl_ok s \<Longrightarrow> sl_ok (sl_append grow x s)"
  by (auto simp: sl_ok_def sl_append_def sl_alloc_def)

lemma sl_view_length [simp]: "sl_ok s \<Longrightarrow> length (sl_view s) = sl_len s"
  by (simp add: sl_ok_def sl_view_def)

lemma sl_view_sort [simp]: "sl_ok s \<Longrightarrow> sl_view (sl_sort s) = sort (sl_view s)"
  by (simp add: sl_ok_def sl_sort_def sl_view_def)

lemma length_remove_first: "x \<in> set xs \<Longrightarrow> p x \<Longrightarrow> length (remove_first p xs) = length xs - 1"
proof (induction xs)
  case (Cons y ys)
  then show ?case by (cases ys) auto
qed simp

lemma remove_first_absent: "x \<notin> set xs \<Longrightarrow> remove_first (\<lambda>y. y = x) xs = xs"
  by (induction xs) auto

lemma sl_view_remove [simp]: "sl_ok s \<Longrightarrow> sl_view (sl_remove x s) = remove_first (\<lambda>y. y = x) (sl_view s)"
  using length_remove_first[of x "sl_view s" "\<lambda>y. y = x"]
  by (auto simp: sl_remove_def sl_view_def[of "Slice _ _"] remove_first_absent)

lemma sl_ok_remove [simp]: "sl_ok s \<Longrightarrow> sl_ok (sl_remove x s)"
  using length_remove_first[of x "sl_view s" "\<lambda>y. y = x"]
  by (auto simp: sl_remove_def sl_ok_def)

lemma sl_clone_ok [simp]: "sl_ok (sl_clone grow xs)" "sl_view (sl_clone grow xs) = xs"
  by (simp_all add: sl_clone_def sl_alloc_def sl_ok_def sl_view_def)

lemma merge_features_Cons:
  "merge_features grow (f # fs) s
     = merge_features grow fs (if f \<in> set (sl_view s) then s else sl_append grow f s)"
  by (simp add: merge_features_def)

lemma merge_features_view:
  "sl_ok s \<Longrightarrow> sl_ok (merge_features grow fs s)
     \<and> sl_view (merge_features grow fs s) = sl_view s @ uniq_acc (set (sl_view s)) fs"
proof (induction fs arbitrary: s)
  case Nil then show ?case by (simp add: merge_features_def)
next
  case (Cons f fs)
  then show ?case using Cons.IH[of "sl_append grow f s"] by (simp add: merge_features_Cons)
qed

lemmas merge_ok = merge_features_view[THEN conjunct1]
lemmas merge_view = merge_features_view[THEN conjunct2]

text \<open>What the stored slice shows afterwards.\<close>

lemma shared_after_ok: "sl_ok s \<Longrightarrow> sl_ok m \<Longrightarrow> sl_len s \<le> sl_len m \<Longrightarrow> sl_ok (shared_after s m)"
  by (auto simp: shared_after_def sl_ok_def sl_sort_def sl_view_def)

lemma shared_after_view:
  assumes "sl_ok s" "sl_ok m" "sl_view m = sl_view s @ xs"
  shows "sl_view (shared_after s m)
    = (if length xs \<le> sl_spare s then take (sl_len s) (sort (sl_view m)) else sl_view s)"
proof -
  have n: "sl_len m = sl_len s + length xs" "length (sl_view s) = sl_len s" "length (sl_view m) = sl_len m"
    using assms sl_view_length[OF assms(2)] by simp_all
  have "sl_len m \<le> length (sl_array s) \<longleftrightarrow> length xs \<le> sl_spare s"
    using assms(1) n(1) by (auto simp: sl_ok_def sl_spare_def)
  then show ?thesis
    using assms(1) n by (auto simp: shared_after_def sl_view_def[of "Slice _ _"] sl_sort_def assms(3) sl_ok_def min_def)
qed

subsection \<open>The invariant\<close>

definition disco_inv :: "disco \<Rightarrow> bool" where
  "disco_inv d \<longleftrightarrow> (\<forall>node e. d_info d node = Some e \<longrightarrow> sl_ok (ie_Features e))"

lemma info_at_ok: "disco_inv d \<Longrightarrow> sl_ok (ie_Features (info_at d node))"
  by (auto simp: disco_inv_def info_at_def entry0_def sl_ok_def split: option.splits)

lemma put_info_inv [inv_intros]: "disco_inv d \<Longrightarrow> sl_ok (ie_Features e) \<Longrightarrow> disco_inv (put_info node e d)"
  by (simp add: disco_inv_def put_info_def)

lemma disco_operations_inv:
  "disco_inv NewDisco" "disco_inv d \<Longrightarrow> disco_inv (Disco_Init d)" "disco_inv d \<Longrightarrow> disco_inv (AddIdentity node i d)"
  "disco_inv d \<Longrightarrow> disco_inv (AddFeature grow node f d)" "disco_inv d \<Longrightarrow> disco_inv (RemoveFeature node f d)"
  "disco_inv d \<Longrightarrow> disco_inv (SetInfo grow node info d)" "disco_inv d \<Longrightarrow> disco_inv (SetItems node items d)"
  "disco_inv d \<Longrightarrow> disco_inv (AddItem node item d)"
  by (simp_all add: NewDisco_def Disco_Init_def AddIdentity_def AddFeature_def RemoveFeature_def SetInfo_def
      SetItems_def AddItem_def Let_def put_info_inv info_at_ok)
    (simp_all add: disco_inv_def put_items_def)

lemma LocalInfo_inv: "disco_inv d \<Longrightarrow> disco_inv (snd (LocalInfo grow pf node d))"
proof (cases "d_info d node")
  case (Some e)
  assume d: "disco_inv d"
  then have ok: "sl_ok (ie_Features e)" using Some by (simp add: disco_inv_def)
  have "sl_len (ie_Features e) \<le> sl_len (merge_features grow pf (ie_Features e))"
    using merge_ok[OF ok] merge_view[OF ok] ok by (metis length_append le_add1 sl_view_length)
  then show ?thesis
    using d ok merge_ok[OF ok] Some by (simp add: LocalInfo_def Let_def put_info_inv shared_after_ok)
qed (simp add: LocalInfo_def)

subsection \<open>The codecs\<close>

lemma well_built_SetAttr_lang [inv_intros]: "well_built n \<Longrightarrow> well_built (SetAttrNS xml_ns ''lang'' v n)"
proof (cases n)
  case (Node nm as ps)
  have "list_all plain_attr as \<Longrightarrow> list_all plain_attr (set_attr_list (XName xml_ns ''lang'') v as)"
    by (induction as) (auto simp: plain_attr_def)
  then show "well_built n \<Longrightarrow> ?thesis" using Node by (auto simp: well_built_def SetAttrNS_def)
qed

lemma AttrValueNS_strip [simp]: "s \<noteq> [] \<Longrightarrow> AttrValueNS s k (strip_xmlns n) = AttrValueNS s k n"
  by (cases n) (simp add: AttrValueNS_def get_attr_list_filter)

lemma disco_nodes [simp]:
  "Name (identityNode i) = XName DiscoInfoNS ''identity''" "Name (featureNode f) = XName DiscoInfoNS ''feature''"
  "Name (itemNode t) = XName DiscoItemsNS ''item''" "AttrValue ''var'' (featureNode f) = Some f"
  "parse_identity (identityNode i) = i" "parse_item (itemNode t) = t"
  by (cases i; cases t; simp add: identityNode_def featureNode_def itemNode_def Let_def parse_identity_def
      parse_item_def SetAttrIf_def)+

lemma disco_nodes_built:
  "well_built (identityNode i)" "well_built (featureNode f)" "well_built (itemNode t)"
  unfolding identityNode_def featureNode_def itemNode_def Let_def by (auto intro!: inv_intros)

lemma fold_identities:
  "fold_result info_child info (map identityNode is) = Inr (info\<lparr>di_Identities := di_Identities info @ is\<rparr>)"
  by (induction "is" arbitrary: info) (simp_all add: info_child_def)

lemma fold_features:
  "fold_result info_child info (map featureNode fs) = Inr (info\<lparr>di_Features := di_Features info @ fs\<rparr>)"
  by (induction fs arbitrary: info) (simp_all add: info_child_def)

lemma Name_Form_ToNode: "Name (Form_ToNode f) = XName DataFormsNS ''x''"
  by (simp add: Form_ToNode_def)

lemma fold_forms:
  "list_all form_valid fs \<Longrightarrow>
   fold_result info_child info (map Form_ToNode fs) = Inr (info\<lparr>di_Forms := di_Forms info @ fs\<rparr>)"
  by (induction fs arbitrary: info) (simp_all add: info_child_def Name_Form_ToNode form_codec.decode_encode)

lemma fold_items:
  "fold_result items_child out (map itemNode is) = Inr (out\<lparr>ds_Items := ds_Items out @ is\<rparr>)"
  by (induction "is" arbitrary: out) (simp_all add: items_child_def)

lemma Name_RSM_ToNode: "Name (RSM_ToNode r) = XName RSMNS ''set''"
  by (simp add: RSM_ToNode_def)

lemma fold_items_rsm:
  "pred_option rsm_valid r \<Longrightarrow> ds_RSM out = None \<Longrightarrow>
   fold_result items_child out (opt_children RSM_ToNode r) = Inr (out\<lparr>ds_RSM := r\<rparr>)"
  by (cases r) (simp_all add: opt_children_def items_child_def rsm_codec.decode_encode Name_RSM_ToNode)

text \<open>The order of the features is the only thing the wire does not keep.\<close>

lemma parseDiscoInfo_Node:
  "list_all form_valid (di_Forms info) \<Longrightarrow>
   parseDiscoInfo (discoInfoNode info) = Inr (info\<lparr>di_Features := sort (di_Features info)\<rparr>)"
  by (simp add: parseDiscoInfo_def discoInfoNode_def fold_result_append fold_identities fold_features fold_forms info0_def)

lemma info_child_blind: "info_child info (strip_xmlns c) = info_child info c"
  by (simp add: info_child_def parse_identity_def form_codec.decode_blind)

interpretation disco_info_codec:
  payload_codec discoInfoNode parseDiscoInfo "\<lambda>i. sorted (di_Features i) \<and> list_all form_valid (di_Forms i)"
proof
  fix i :: disco_info and n :: node
  show "parseDiscoInfo (discoInfoNode i) = Inr i" if "sorted (di_Features i) \<and> list_all form_valid (di_Forms i)"
    using that by (simp add: parseDiscoInfo_Node sorted_sort_id)
  show "well_built (discoInfoNode i)"
    unfolding discoInfoNode_def by (intro inv_intros) (auto simp: disco_nodes_built Form_ToNode_built)
  show "parseDiscoInfo (strip_xmlns n) = parseDiscoInfo n"
    by (simp add: parseDiscoInfo_def fold_result_strip info_child_blind)
qed

interpretation disco_items_codec: payload_codec discoItemsNode parseDiscoItems "\<lambda>i. pred_option rsm_valid (ds_RSM i)"
proof
  fix i :: disco_items and n :: node
  show "parseDiscoItems (discoItemsNode i) = Inr i" if "pred_option rsm_valid (ds_RSM i)"
    using that by (simp add: parseDiscoItems_def discoItemsNode_def fold_result_append fold_items fold_items_rsm items0_def)
  show "well_built (discoItemsNode i)"
    unfolding discoItemsNode_def by (intro inv_intros) (auto simp: disco_nodes_built RSM_ToNode_built opt_children_def split: option.splits)
  have "items_child out (strip_xmlns c) = items_child out c" for out c
    by (simp add: items_child_def parse_item_def rsm_codec.decode_blind)
  then show "parseDiscoItems (strip_xmlns n) = parseDiscoItems n"
    by (simp add: parseDiscoItems_def fold_result_strip)
qed

subsection \<open>Properties\<close>

lemma asked_node_request [simp]: "asked_node (over_wire ns (disco_request dns jid extra node)) = node"
  by (simp add: asked_node_def disco_request_def IQ_Payload_def iq0_def over_wire_def)

definition visible_features :: "string list \<Rightarrow> string \<Rightarrow> info_entry \<Rightarrow> string list" where
  "visible_features pf node e =
     (let own = sl_view (ie_Features e) in sort (own @ (if node = [] then uniq_acc (set own) pf else [])))"

lemma LocalInfo_found:
  assumes "disco_inv d" "d_info d node = Some e"
  shows "fst (LocalInfo grow pf node d) = Some \<lparr>di_Node = ie_Node e, di_Identities = ie_Identities e,
    di_Features = visible_features pf node e, di_Forms = ie_Forms e\<rparr>"
proof -
  have ok: "sl_ok (ie_Features e)" using assms by (simp add: disco_inv_def)
  then show ?thesis using assms(2) merge_ok[OF ok] merge_view[OF ok]
    by (simp add: LocalInfo_def Let_def visible_features_def)
qed

lemma handleInfo_fst:
  "fst (handleInfo grow pf d q) = (case fst (LocalInfo grow pf (asked_node q) d) of
     None \<Rightarrow> IQ_ErrorResult q (Some item_not_found) | Some info \<Rightarrow> IQ_Result q [discoInfoNode info])"
  by (simp add: handleInfo_def split: prod.splits option.splits)


text \<open>The growth of Go's runtime for small slices.\<close>

definition doubling :: "nat \<Rightarrow> nat \<Rightarrow> nat" where
  "doubling c n = (if n > 2 * c then n else 2 * c)"

definition example_disco :: disco where
  "example_disco = AddFeature doubling [] ''urn:z'' (AddFeature doubling [] ''urn:y''
     (AddFeature doubling [] ''urn:x'' (Disco_Init NewDisco)))"

lemma example_disco_root:
  "d_info example_disco [] = Some \<lparr>ie_Node = [], ie_Identities = [Identity ''client'' ''bot'' ''slixmpp-go'' []],
     ie_Features = Slice [''urn:x'', ''urn:y'', ''urn:z'', []] 3, ie_Forms = []\<rparr>"
  by (simp add: example_disco_def AddFeature_def Disco_Init_def NewDisco_def put_info_def info_at_def entry0_def
      Let_def sl_append_def sl_alloc_def sl_view_def doubling_def numeral_3_eq_3)

lemma example_disco_inv: "disco_inv example_disco"
  unfolding example_disco_def by (intro disco_operations_inv)


text \<open>Reading the root entry overwrites it. When the stored slice has room for the plugin features
  it does not list, they are appended into its array and the array is sorted, and the stored
  slice, whose length is not changed, then holds the smallest features of the two lists: the
  application's own greatest features are gone from the registry.\<close>

theorem LocalInfo_overwrites_stored:
  assumes "disco_inv d" "d_info d [] = Some e"
    and "length (uniq_acc (set (sl_view (ie_Features e))) pf) \<le> sl_spare (ie_Features e)"
  shows "sl_view (ie_Features (info_at (snd (LocalInfo grow pf [] d)) []))
    = take (length (sl_view (ie_Features e))) (visible_features pf [] e)"
proof -
  have ok: "sl_ok (ie_Features e)" using assms by (simp add: disco_inv_def)
  then show ?thesis
    using assms(2,3) shared_after_view[OF ok merge_ok[OF ok] merge_view[OF ok], of grow pf]
    by (simp add: LocalInfo_def Let_def info_at_def put_info_def visible_features_def merge_view)
qed

theorem LocalInfo_overwrites_stored_witness:
  "sl_view (ie_Features (info_at example_disco [])) = [''urn:x'', ''urn:y'', ''urn:z'']
   \<and> sl_view (ie_Features (info_at (snd (LocalInfo doubling [''urn:a''] [] example_disco)) [])) = [''urn:a'', ''urn:x'', ''urn:y'']"
proof -
  have "sort ([''urn:x'', ''urn:y'', ''urn:z''] @ [''urn:a'']) = [''urn:a'', ''urn:x'', ''urn:y'', ''urn:z'']" by code_simp
  then show ?thesis
    using LocalInfo_overwrites_stored[OF example_disco_inv example_disco_root, of "[''urn:a'']" doubling]
    by (simp add: visible_features_def sl_view_def sl_spare_def info_at_def example_disco_root)
qed

end
