(* ===== verification/Mam.thy ===== *)
theory Mam
  imports Client_Control
begin

text \<open>
  Message archive queries: \<^verbatim>\<open>src/xep/mam.go\<close>. The state is the map of pending queries with the
  results collected so far. A query registers its id, sends its request and waits; while it
  waits the handler runs on the messages that arrive (the argument \<open>arrivals\<close>), and the answer
  of the server (\<open>request\<close>) ends it.
\<close>

abbreviation MAMNS :: string where "MAMNS \<equiv> ''urn:xmpp:mam:2''"

record mam_query =
  mq_Service :: string
  mq_Node :: string
  mq_With :: string
  mq_Search :: string
  mq_Start :: "gotime option"
  mq_End :: "gotime option"
  mq_IDs :: "string list"
  mq_Form :: "form option"
  mq_RSM :: "rsm option"

record mam_result =
  mr_QueryID :: string
  mr_ID :: string
  mr_Forwarded :: forwarded
  mr_Message :: message

record mam_fin =
  mf_Complete :: bool
  mf_Stable :: bool
  mf_RSM :: "rsm option"

record mam_page =
  mp_Results :: "mam_result list"
  mp_Fin :: mam_fin

type_synonym mam = "string \<Rightarrow> mam_result list option"

subsection \<open>The request\<close>

definition plain_field :: "string \<Rightarrow> string \<Rightarrow> string list \<Rightarrow> field" where
  "plain_field name kind values = field0\<lparr>fld_Var := name, fld_Type := kind, fld_Values := values\<rparr>"

definition form_type_field :: field where
  "form_type_field = plain_field ''FORM_TYPE'' ''hidden'' [MAMNS]"

definition buildMAMForm :: "mam_query \<Rightarrow> form" where
  "buildMAMForm q =
     (case mq_Form q of
        Some given \<Rightarrow>
          let f = given\<lparr>frm_Type := ''submit''\<rparr> in
          if Form_Field ''FORM_TYPE'' f = None then f\<lparr>frm_Fields := form_type_field # frm_Fields f\<rparr> else f
      | None \<Rightarrow>
          form0\<lparr>frm_Type := ''submit'', frm_Fields :=
            [form_type_field]
            @ (if mq_With q \<noteq> [] then [plain_field ''with'' ''jid-single'' [mq_With q]] else [])
            @ (case mq_Start q of None \<Rightarrow> [] | Some t \<Rightarrow> [plain_field ''start'' ''text-single'' [FormatDateTime t]])
            @ (case mq_End q of None \<Rightarrow> [] | Some t \<Rightarrow> [plain_field ''end'' ''text-single'' [FormatDateTime t]])
            @ (if mq_Search q \<noteq> [] then [plain_field ''full-text-search'' ''text-single'' [mq_Search q]] else [])
            @ (if mq_IDs q \<noteq> [] then [plain_field ''ids'' ''text-multi'' (mq_IDs q)] else [])\<rparr>)"

definition mam_payload :: "string \<Rightarrow> mam_query \<Rightarrow> node" where
  "mam_payload queryID q =
     AddChildren (opt_children RSM_ToNode (mq_RSM q))
       (AddChild (Form_ToNode (buildMAMForm q))
       (SetAttrIf ''node'' (mq_Node q) (SetAttr ''queryid'' queryID (NewNode MAMNS ''query''))))"

subsection \<open>The answers\<close>

definition mam_bool :: "string option \<Rightarrow> bool" where
  "mam_bool v \<longleftrightarrow> v = Some ''true'' \<or> v = Some ''1''"

definition parseMAMFin :: "node \<Rightarrow> mam_fin result" where
  "parseMAMFin n =
     (let f = \<lparr>mf_Complete = mam_bool (AttrValue ''complete'' n), mf_Stable = mam_bool (AttrValue ''stable'' n), mf_RSM = None\<rparr>
      in case Child RSMNS ''set'' n of
           None \<Rightarrow> Inr f
         | Some set' \<Rightarrow> (case ParseRSM set' of Inl e \<Rightarrow> Inl e | Inr r \<Rightarrow> Inr (f\<lparr>mf_RSM := Some r\<rparr>)))"

definition parseMAMResult :: "node \<Rightarrow> mam_result result" where
  "parseMAMResult n =
     (if Space (Name n) \<noteq> MAMNS \<or> Local (Name n) \<noteq> ''result'' then Inl (Errf ''xep: invalid MAM result'')
      else
        case Child ForwardNS ''forwarded'' n of
          None \<Rightarrow> Inl (Errf ''xep: MAM result has no forwarded stanza'')
        | Some forwarded \<Rightarrow>
            (case ParseForwarded forwarded of
               Inl e \<Rightarrow> Inl e
             | Inr v \<Rightarrow> Inr \<lparr>mr_QueryID = or_empty (AttrValue ''queryid'' n), mr_ID = or_empty (AttrValue ''id'' n),
                            mr_Forwarded = v, mr_Message = message0\<rparr>))"

text \<open>What the handler makes of a message; the handler is registered for messages that carry a
  result, so a message without one is not its concern (\<open>None\<close>).\<close>

definition mam_result_of :: "message \<Rightarrow> mam_result result option" where
  "mam_result_of message =
     (case Message_Extension message MAMNS ''result'' of
        None \<Rightarrow> None
      | Some node \<Rightarrow> Some (case parseMAMResult node of Inl e \<Rightarrow> Inl e | Inr r \<Rightarrow> Inr (r\<lparr>mr_Message := message\<rparr>)))"

text \<open>The result emitted as an event (or the error), and the new state.\<close>

definition MAM_handleResult :: "message \<Rightarrow> mam \<Rightarrow> mam_result result option \<times> mam" where
  "MAM_handleResult message m =
     (case mam_result_of message of
        Some (Inr r) \<Rightarrow>
          (Some (Inr r),
           case m (mr_QueryID r) of None \<Rightarrow> m | Some results \<Rightarrow> m(mr_QueryID r \<mapsto> results @ [r]))
      | other \<Rightarrow> (other, m))"

definition mam_receive :: "message list \<Rightarrow> mam \<Rightarrow> mam" where
  "mam_receive arrivals m = foldl (\<lambda>m x. snd (MAM_handleResult x m)) m arrivals"

definition mam_finish :: "iq result \<Rightarrow> mam_result list \<Rightarrow> mam_page result" where
  "mam_finish answer results =
     (case answer of
        Inl e \<Rightarrow> Inl e
      | Inr response \<Rightarrow>
          (case IQ_Payload response of
             None \<Rightarrow> Inl (Errf ''xep: missing MAM fin response'')
           | Some fin \<Rightarrow>
               if Space (Name fin) \<noteq> MAMNS \<or> Local (Name fin) \<noteq> ''fin'' then Inl (Errf ''xep: missing MAM fin response'')
               else (case parseMAMFin fin of Inl e \<Rightarrow> Inl e | Inr f \<Rightarrow> Inr \<lparr>mp_Results = results, mp_Fin = f\<rparr>)))"

definition MAM_Query ::
  "(iq \<Rightarrow> iq result) \<Rightarrow> string \<Rightarrow> message list \<Rightarrow> mam_query \<Rightarrow> mam \<Rightarrow> mam_page result \<times> mam" where
  "MAM_Query request queryID arrivals q m =
     (let m1 = mam_receive arrivals (m(queryID \<mapsto> []));
          answer = request (iq0\<lparr>iq_To := mq_Service q, iq_Type := IQSet, iq_Payloads := [mam_payload queryID q]\<rparr>)
      in (mam_finish answer (case m1 queryID of None \<Rightarrow> [] | Some rs \<Rightarrow> rs), m1(queryID := None)))"

subsection \<open>Preferences\<close>

record mam_preferences =
  pref_Default :: string
  pref_Always :: "string list"
  pref_Never :: "string list"

definition jid_list_node :: "string \<Rightarrow> string list \<Rightarrow> node" where
  "jid_list_node local jids = AddChildren (map (NewTextNode MAMNS ''jid'') jids) (NewNode MAMNS local)"

definition Preferences_ToNode :: "mam_preferences \<Rightarrow> node" where
  "Preferences_ToNode p =
     AddChildIf (pref_Never p \<noteq> []) (jid_list_node ''never'' (pref_Never p))
       (AddChildIf (pref_Always p \<noteq> []) (jid_list_node ''always'' (pref_Always p))
       (SetAttrIf ''default'' (pref_Default p) (NewNode MAMNS ''prefs'')))"

definition jid_list :: "string \<Rightarrow> node \<Rightarrow> string list" where
  "jid_list local n =
     (case Child MAMNS local n of None \<Rightarrow> []
      | Some a \<Rightarrow> map Text (filter (\<lambda>j. Local (Name j) = ''jid'') (Children a)))"

definition parseMAMPreferences :: "node \<Rightarrow> mam_preferences" where
  "parseMAMPreferences n =
     \<lparr>pref_Default = or_empty (AttrValue ''default'' n), pref_Always = jid_list ''always'' n, pref_Never = jid_list ''never'' n\<rparr>"

definition GetPreferences :: "(iq \<Rightarrow> iq result) \<Rightarrow> string \<Rightarrow> mam_preferences result" where
  "GetPreferences request service =
     (case request (iq0\<lparr>iq_To := service, iq_Type := IQGet, iq_Payloads := [NewNode MAMNS ''prefs'']\<rparr>) of
        Inl e \<Rightarrow> Inl e
      | Inr response \<Rightarrow>
          (case IQ_Payload response of None \<Rightarrow> Inl (Errf ''xep: missing MAM preferences'')
           | Some p \<Rightarrow> Inr (parseMAMPreferences p)))"

definition SetPreferences :: "(iq \<Rightarrow> iq result) \<Rightarrow> string \<Rightarrow> mam_preferences \<Rightarrow> go_error option" where
  "SetPreferences request service prefs =
     (case request (iq0\<lparr>iq_To := service, iq_Type := IQSet, iq_Payloads := [Preferences_ToNode prefs]\<rparr>) of
        Inl e \<Rightarrow> Some e | Inr _ \<Rightarrow> None)"

subsection \<open>Facts\<close>

lemma filter_map_jid: "filter (\<lambda>j. Local (Name j) = ''jid'') (map (NewTextNode MAMNS ''jid'') js) = map (NewTextNode MAMNS ''jid'') js"
  by (induction js) simp_all

lemma jid_list_ToNode:
  "jid_list ''always'' (Preferences_ToNode p) = pref_Always p" "jid_list ''never'' (Preferences_ToNode p) = pref_Never p"
  by (auto simp: jid_list_def Preferences_ToNode_def Child_eq_find jid_list_node_def filter_map_jid comp_def)

interpretation preferences_codec:
  payload_codec Preferences_ToNode "\<lambda>n. Inr (parseMAMPreferences n)" "\<lambda>p. True"
proof
  fix p :: mam_preferences and n :: node
  show "Inr (parseMAMPreferences (Preferences_ToNode p)) = Inr p"
    using jid_list_ToNode[of p] by (simp add: parseMAMPreferences_def) (simp add: Preferences_ToNode_def)
  show "well_built (Preferences_ToNode p)"
    unfolding Preferences_ToNode_def jid_list_node_def by (intro inv_intros) (auto intro: inv_intros)
  show "Inr (parseMAMPreferences (strip_xmlns n)) = Inr (parseMAMPreferences n)"
    by (simp add: parseMAMPreferences_def jid_list_def filter_strip split: option.splits)
qed

definition results_for :: "string \<Rightarrow> message list \<Rightarrow> mam_result list" where
  "results_for qid arrivals =
     List.map_filter (\<lambda>x. case mam_result_of x of Some (Inr r) \<Rightarrow> if mr_QueryID r = qid then Some r else None | _ \<Rightarrow> None) arrivals"

lemma results_for_Cons:
  "results_for qid (x # xs) =
     (case mam_result_of x of Some (Inr r) \<Rightarrow> if mr_QueryID r = qid then [r] else [] | _ \<Rightarrow> []) @ results_for qid xs"
  by (simp add: results_for_def List.map_filter_def split: option.splits sum.splits)

lemma mam_receive_Cons: "mam_receive (x # xs) m = mam_receive xs (snd (MAM_handleResult x m))"
  by (simp add: mam_receive_def)

lemma mam_receive_pending:
  "mam_receive arrivals m qid = map_option (\<lambda>rs. rs @ results_for qid arrivals) (m qid)"
proof (induction arrivals arbitrary: m)
  case Nil then show ?case by (cases "m qid") (simp_all add: mam_receive_def results_for_def List.map_filter_def)
next
  case (Cons x xs)
  then show ?case
    by (cases "m qid") (auto simp: mam_receive_Cons results_for_Cons MAM_handleResult_def split: option.splits sum.splits)
qed

subsection \<open>Properties\<close>


end
