(* ===== verification/Muc.thy ===== *)
theory Muc
  imports Message_Extensions Forms Datetime Exchange
begin

text \<open>
  Multi-user chat: \<^verbatim>\<open>src/xep/muc.go\<close>. The state holds the rooms and the joins that wait for the
  room's answer, each with a channel that has room for one result. Joins run in their own
  goroutines while the handlers run one after the other on the read loop, and a handler that
  sends to a full channel waits (\<open>mu_sending\<close>): \<open>muc_step\<close> is the interleaving. A join that
  has its result (\<open>Some v\<close> in \<open>mu_joins\<close>) has still to remove its pending entry. The lists of
  returned joins and of received presences are history.
\<close>

abbreviation MUCNS :: string where "MUCNS \<equiv> ''http://jabber.org/protocol/muc''"
abbreviation MUCUserNS :: string where "MUCUserNS \<equiv> ''http://jabber.org/protocol/muc#user''"
abbreviation MUCAdminNS :: string where "MUCAdminNS \<equiv> ''http://jabber.org/protocol/muc#admin''"
abbreviation MUCOwnerNS :: string where "MUCOwnerNS \<equiv> ''http://jabber.org/protocol/muc#owner''"

subsection \<open>Data\<close>

record muc_history =
  mh_MaxChars :: "int option"
  mh_MaxStanzas :: "int option"
  mh_Seconds :: "int option"
  mh_Since :: "gotime option"

record join_options =
  jo_Password :: string
  jo_History :: "muc_history option"

record muc_item =
  mi_Affiliation :: string
  mi_Role :: string
  mi_JID :: string
  mi_Nick :: string
  mi_Reason :: string
  mi_Actor :: string

record muc_status =
  ms_Codes :: "int list"
  ms_Item :: "muc_item option"
  ms_Password :: string
  ms_DestroyJID :: string
  ms_DestroyReason :: string
  ms_InviteFrom :: string
  ms_InviteTo :: string
  ms_InviteReason :: string
  ms_DeclineFrom :: string
  ms_DeclineTo :: string
  ms_DeclineReason :: string

record occupant =
  oc_Room :: string
  oc_Nick :: string
  oc_FullJID :: string
  oc_Affiliation :: string
  oc_Role :: string
  oc_RealJID :: string
  oc_Show :: string
  oc_Status :: string
  oc_OccupantID :: string
  oc_Available :: bool

record room =
  rm_JID :: string
  rm_Nick :: string
  rm_Joined :: bool
  rm_Subject :: string
  rm_Occupants :: "string \<Rightarrow> occupant option"

definition muc_item0 :: muc_item where
  "muc_item0 = \<lparr>mi_Affiliation = [], mi_Role = [], mi_JID = [], mi_Nick = [], mi_Reason = [], mi_Actor = []\<rparr>"

definition muc_status0 :: muc_status where
  "muc_status0 = \<lparr>ms_Codes = [], ms_Item = None, ms_Password = [], ms_DestroyJID = [], ms_DestroyReason = [],
     ms_InviteFrom = [], ms_InviteTo = [], ms_InviteReason = [], ms_DeclineFrom = [], ms_DeclineTo = [], ms_DeclineReason = []\<rparr>"

definition new_room :: "string \<Rightarrow> string \<Rightarrow> room" where
  "new_room jid nick = \<lparr>rm_JID = jid, rm_Nick = nick, rm_Joined = False, rm_Subject = [], rm_Occupants = Map.empty\<rparr>"

subsection \<open>Payloads\<close>

definition parseMUCItem :: "node \<Rightarrow> muc_item" where
  "parseMUCItem n =
     \<lparr>mi_Affiliation = or_empty (AttrValue ''affiliation'' n), mi_Role = or_empty (AttrValue ''role'' n),
      mi_JID = or_empty (AttrValue ''jid'' n), mi_Nick = or_empty (AttrValue ''nick'' n),
      mi_Reason = ChildText (Space (Name n)) ''reason'' n,
      mi_Actor = (case Child (Space (Name n)) ''actor'' n of None \<Rightarrow> [] | Some a \<Rightarrow> or_empty (AttrValue ''jid'' a))\<rparr>"

definition mucItemNode :: "string \<Rightarrow> muc_item \<Rightarrow> node" where
  "mucItemNode ns item =
     AddChildIf (mi_Reason item \<noteq> []) (NewTextNode ns ''reason'' (mi_Reason item))
       (SetAttrIf ''nick'' (mi_Nick item) (SetAttrIf ''jid'' (mi_JID item)
       (SetAttrIf ''role'' (mi_Role item) (SetAttrIf ''affiliation'' (mi_Affiliation item) (NewNode ns ''item'')))))"

definition status_child :: "muc_status \<Rightarrow> node \<Rightarrow> muc_status" where
  "status_child s n =
     (if Local (Name n) = ''status'' then
        (case Atoi (or_empty (AttrValue ''code'' n)) of (i, None) \<Rightarrow> s\<lparr>ms_Codes := ms_Codes s @ [i]\<rparr> | (_, Some _) \<Rightarrow> s)
      else if Local (Name n) = ''item'' then s\<lparr>ms_Item := Some (parseMUCItem n)\<rparr>
      else if Local (Name n) = ''password'' then s\<lparr>ms_Password := Text n\<rparr>
      else if Local (Name n) = ''destroy'' then
        s\<lparr>ms_DestroyJID := or_empty (AttrValue ''jid'' n), ms_DestroyReason := ChildText MUCUserNS ''reason'' n\<rparr>
      else if Local (Name n) = ''invite'' then
        s\<lparr>ms_InviteFrom := or_empty (AttrValue ''from'' n), ms_InviteTo := or_empty (AttrValue ''to'' n),
          ms_InviteReason := ChildText MUCUserNS ''reason'' n\<rparr>
      else if Local (Name n) = ''decline'' then
        s\<lparr>ms_DeclineFrom := or_empty (AttrValue ''from'' n), ms_DeclineTo := or_empty (AttrValue ''to'' n),
          ms_DeclineReason := ChildText MUCUserNS ''reason'' n\<rparr>
      else s)"

definition ParseMUCStatus :: "node \<Rightarrow> muc_status result" where
  "ParseMUCStatus x =
     (if Space (Name x) \<noteq> MUCUserNS \<or> Local (Name x) \<noteq> ''x'' then Inl (Errf ''xep: invalid MUC user payload'')
      else Inr (foldl status_child muc_status0 (Children x)))"

text \<open>The handlers ignore the error of \<^verbatim>\<open>ParseMUCStatus\<close>, whose value is then the zero status.\<close>

definition status_of :: "node option \<Rightarrow> muc_status" where
  "status_of x = (case x of None \<Rightarrow> muc_status0 | Some n \<Rightarrow> (case ParseMUCStatus n of Inl _ \<Rightarrow> muc_status0 | Inr s \<Rightarrow> s))"

definition splitOccupant :: "string \<Rightarrow> string \<times> string" where
  "splitOccupant jid =
     (case IndexByte jid CHR ''/'' of None \<Rightarrow> (jid, []) | Some slash \<Rightarrow> (take slash jid, drop (slash + 1) jid))"

subsection \<open>Joining\<close>

definition history_node :: "muc_history \<Rightarrow> node" where
  "history_node h =
     SetAttrOpt ''since'' (map_option FormatDateTime (mh_Since h))
       (SetAttrOpt ''seconds'' (map_option Itoa (mh_Seconds h))
       (SetAttrOpt ''maxstanzas'' (map_option Itoa (mh_MaxStanzas h))
       (SetAttrOpt ''maxchars'' (map_option Itoa (mh_MaxChars h)) (NewNode MUCNS ''history''))))"

definition join_payload :: "join_options \<Rightarrow> node" where
  "join_payload options =
     AddChildren (opt_children history_node (jo_History options))
       (AddChildIf (jo_Password options \<noteq> []) (NewTextNode MUCNS ''password'' (jo_Password options)) (NewNode MUCNS ''x''))"

definition join_presence :: "string \<Rightarrow> string \<Rightarrow> string \<Rightarrow> join_options \<Rightarrow> presence" where
  "join_presence room nick nextID options =
     presence0\<lparr>prs_To := room @ ''/'' @ nick, prs_ID := nextID, prs_Extensions := [join_payload options]\<rparr>"

record join =
  jn_room :: string
  jn_nick :: string
  jn_chan :: nat
  jn_since :: nat

record muc =
  mu_rooms :: "string \<Rightarrow> room option"
  mu_pending :: "string \<Rightarrow> nat option"
  mu_chan :: "nat \<Rightarrow> room result option"
  mu_nextchan :: nat
  mu_sending :: "(nat \<times> room result) option"
  mu_joins :: "(join \<times> room result option) list"
  mu_returned :: "(join \<times> room result) list"
  mu_received :: "presence list"

definition NewMUC :: muc where
  "NewMUC = \<lparr>mu_rooms = Map.empty, mu_pending = Map.empty, mu_chan = Map.empty, mu_nextchan = 0, mu_sending = None,
     mu_joins = [], mu_returned = [], mu_received = []\<rparr>"

definition join_key :: "string \<Rightarrow> string \<Rightarrow> string" where
  "join_key room nick = room @ ''/'' @ nick"

text \<open>\<^verbatim>\<open>Join\<close> up to the \<^verbatim>\<open>select\<close>; \<open>sent\<close> is the outcome of sending \<open>join_presence\<close>. The room is
  registered anew before the presence is sent, and stays registered when sending fails.\<close>

definition Join_begin :: "string \<Rightarrow> string \<Rightarrow> go_error option \<Rightarrow> muc \<Rightarrow> join result \<times> muc" where
  "Join_begin jid nick sent s =
     (let room = BareJIDString jid in
      if room = [] \<or> nick = [] then (Inl (Errf ''xep: room and nickname are required''), s)
      else if mu_pending s (join_key room nick) \<noteq> None
      then (Inl (Errorf ''xep: join already pending for %s'' [join_key room nick] None), s)
      else
        let s1 = s\<lparr>mu_rooms := (mu_rooms s)(room \<mapsto> new_room room nick), mu_nextchan := mu_nextchan s + 1\<rparr>;
            w = \<lparr>jn_room = room, jn_nick = nick, jn_chan = mu_nextchan s, jn_since = length (mu_received s)\<rparr>
        in (case sent of
              Some e \<Rightarrow> (Inl e, s1)
            | None \<Rightarrow> (Inr w, s1\<lparr>mu_pending := (mu_pending s)(join_key room nick \<mapsto> mu_nextchan s),
                                 mu_joins := mu_joins s @ [(w, None)]\<rparr>)))"

text \<open>The \<^verbatim>\<open>select\<close> of a join ends with a value, and then the deferred function runs.\<close>

definition Join_select :: "join \<Rightarrow> room result \<Rightarrow> muc \<Rightarrow> muc" where
  "Join_select w v s = s\<lparr>mu_joins := map (\<lambda>x. if x = (w, None) then (w, Some v) else x) (mu_joins s)\<rparr>"

definition Join_return :: "join \<Rightarrow> room result \<Rightarrow> muc \<Rightarrow> muc" where
  "Join_return w v s =
     s\<lparr>mu_pending := (mu_pending s)(join_key (jn_room w) (jn_nick w) := None),
       mu_joins := filter (\<lambda>x. x \<noteq> (w, Some v)) (mu_joins s),
       mu_returned := mu_returned s @ [(w, v)]\<rparr>"

subsection \<open>Incoming stanzas\<close>

datatype muc_event =
    JoinFailed presence
  | Left room
  | OccupantOnline occupant
  | OccupantOffline occupant
  | MucPresence presence muc_status
  | SubjectChanged message
  | Invitation message muc_status

definition presence_status :: "presence \<Rightarrow> muc_status" where
  "presence_status p = status_of (Presence_Extension p MUCUserNS ''x'')"

definition self_presence :: "presence \<Rightarrow> bool" where
  "self_presence p \<longleftrightarrow> 110 \<in> set (ms_Codes (presence_status p))"

definition occupant_of :: "presence \<Rightarrow> occupant" where
  "occupant_of p =
     (let (room, nick) = splitOccupant (prs_From p);
          item = (case ms_Item (presence_status p) of None \<Rightarrow> muc_item0 | Some i \<Rightarrow> i)
      in \<lparr>oc_Room = room,
          oc_Nick = (if mi_Nick item \<noteq> [] \<and> prs_Type p = PresenceUnavailable then mi_Nick item else nick),
          oc_FullJID = prs_From p, oc_Affiliation = mi_Affiliation item, oc_Role = mi_Role item, oc_RealJID = mi_JID item,
          oc_Show = prs_Show p, oc_Status = prs_Status p,
          oc_OccupantID = or_empty (OccupantID (message0\<lparr>msg_Extensions := prs_Extensions p\<rparr>)),
          oc_Available = (prs_Type p \<noteq> PresenceUnavailable)\<rparr>)"

text \<open>What a presence does to its room.\<close>

definition update_room :: "presence \<Rightarrow> room \<Rightarrow> room" where
  "update_room p r =
     (let nick = snd (splitOccupant (prs_From p));
          r1 = r\<lparr>rm_Occupants := (rm_Occupants r)(nick := (if prs_Type p = PresenceUnavailable then None else Some (occupant_of p)))\<rparr>
      in if self_presence p then
           (if prs_Type p = PresenceUnavailable then r1\<lparr>rm_Joined := False\<rparr>
            else r1\<lparr>rm_Joined := True, rm_Nick := (if rm_Nick r1 = [] then nick else rm_Nick r1)\<rparr>)
         else r1)"

definition presence_events :: "presence \<Rightarrow> room \<Rightarrow> muc_event list" where
  "presence_events p snapshot =
     (if prs_Type p = PresenceErrorType then [JoinFailed p]
      else (if self_presence p \<and> prs_Type p = PresenceUnavailable then [Left snapshot] else [])
        @ [if prs_Type p = PresenceUnavailable then OccupantOffline (occupant_of p) else OccupantOnline (occupant_of p)]
        @ [MucPresence p (presence_status p)])"

definition join_outcome :: "presence \<Rightarrow> room \<Rightarrow> room result option" where
  "join_outcome p snapshot =
     (if prs_Type p = PresenceErrorType then Some (Inl (StanzaErr (prs_Error p)))
      else if self_presence p \<and> prs_Type p \<noteq> PresenceUnavailable then Some (Inr snapshot)
      else None)"

definition room_at :: "muc \<Rightarrow> string \<Rightarrow> room" where
  "room_at s room = (case mu_rooms s room of None \<Rightarrow> new_room room [] | Some r \<Rightarrow> r)"

definition handlePresence :: "presence \<Rightarrow> muc \<Rightarrow> muc \<times> muc_event list" where
  "handlePresence p s =
     (let room = fst (splitOccupant (prs_From p));
          r = update_room p (room_at s room);
          pending = mu_pending s (join_key room (rm_Nick r));
          send = (case (pending, join_outcome p r) of (Some ch, Some v) \<Rightarrow> Some (ch, v) | _ \<Rightarrow> None)
      in (s\<lparr>mu_rooms := (mu_rooms s)(room \<mapsto> r), mu_sending := send, mu_received := mu_received s @ [p]\<rparr>,
          presence_events p r))"

definition handleMessage :: "message \<Rightarrow> muc \<Rightarrow> muc \<times> muc_event list" where
  "handleMessage m s =
     (let room = BareJIDString (msg_From m);
          subject = (msg_Type m = MessageGroupChat \<and> msg_Subject m \<noteq> []);
          s1 = (if subject
                then s\<lparr>mu_rooms := (mu_rooms s)(room := map_option (\<lambda>r. r\<lparr>rm_Subject := msg_Subject m\<rparr>) (mu_rooms s room))\<rparr>
                else s);
          st = status_of (Message_Extension m MUCUserNS ''x'')
      in (s1, (if subject then [SubjectChanged m] else [])
            @ (if Message_Extension m MUCUserNS ''x'' \<noteq> None \<and> (ms_InviteFrom st \<noteq> [] \<or> ms_DeclineFrom st \<noteq> [])
               then [Invitation m st] else [])))"

subsection \<open>Other operations\<close>

definition MUC_Room :: "string \<Rightarrow> muc \<Rightarrow> room option" where
  "MUC_Room jid s = mu_rooms s (BareJIDString jid)"

text \<open>\<^verbatim>\<open>Rooms\<close> enumerates the map in an order of its own.\<close>

definition MUC_Rooms :: "string list \<Rightarrow> muc \<Rightarrow> room list" where
  "MUC_Rooms order s = List.map_filter (mu_rooms s) order"

definition MUC_Leave :: "string \<Rightarrow> string \<Rightarrow> string \<Rightarrow> muc \<Rightarrow> presence result" where
  "MUC_Leave jid status nextID s =
     (let room = BareJIDString jid in
      case mu_rooms s room of
        None \<Rightarrow> Inl (Errorf ''xep: not joined to %s'' [room] None)
      | Some r \<Rightarrow> Inr (presence0\<lparr>prs_To := room @ ''/'' @ rm_Nick r, prs_Type := PresenceUnavailable,
                                  prs_Status := status, prs_ID := nextID\<rparr>))"

definition MUC_SendMessage :: "string \<Rightarrow> string \<Rightarrow> string \<Rightarrow> message" where
  "MUC_SendMessage room body nextID =
     message0\<lparr>msg_To := BareJIDString room, msg_ID := nextID, msg_Type := MessageGroupChat, msg_Body := body\<rparr>"

definition MUC_SetSubject :: "string \<Rightarrow> string \<Rightarrow> string \<Rightarrow> message" where
  "MUC_SetSubject room subject nextID =
     message0\<lparr>msg_To := BareJIDString room, msg_ID := nextID, msg_Type := MessageGroupChat, msg_Subject := subject\<rparr>"

definition mediated_node :: "string \<Rightarrow> string \<Rightarrow> string \<Rightarrow> node" where
  "mediated_node local to' reason =
     AddChild (AddChildIf (reason \<noteq> []) (NewTextNode MUCUserNS ''reason'' reason)
         (SetAttr ''to'' to' (NewNode MUCUserNS local)))
       (NewNode MUCUserNS ''x'')"

definition MUC_Invite :: "string \<Rightarrow> string \<Rightarrow> string \<Rightarrow> string \<Rightarrow> message" where
  "MUC_Invite room jid reason nextID =
     message0\<lparr>msg_To := BareJIDString room, msg_ID := nextID, msg_Extensions := [mediated_node ''invite'' jid reason]\<rparr>"

definition MUC_Decline :: "string \<Rightarrow> string \<Rightarrow> string \<Rightarrow> string \<Rightarrow> message" where
  "MUC_Decline room to' reason nextID =
     message0\<lparr>msg_To := BareJIDString room, msg_ID := nextID, msg_Extensions := [mediated_node ''decline'' to' reason]\<rparr>"

definition room_request :: "string \<Rightarrow> string \<Rightarrow> node \<Rightarrow> iq" where
  "room_request kind room q = iq0\<lparr>iq_To := BareJIDString room, iq_Type := kind, iq_Payloads := [q]\<rparr>"

definition request_error :: "iq result \<Rightarrow> go_error option" where
  "request_error answer = (case answer of Inl e \<Rightarrow> Some e | Inr _ \<Rightarrow> None)"

definition MUC_GetConfig :: "(iq \<Rightarrow> iq result) \<Rightarrow> string \<Rightarrow> form result" where
  "MUC_GetConfig request room =
     (case request (room_request IQGet room (NewNode MUCOwnerNS ''query'')) of
        Inl e \<Rightarrow> Inl e
      | Inr response \<Rightarrow>
          (case IQ_Payload response of
             None \<Rightarrow> Inl (Errf ''xep: missing MUC owner response'')
           | Some p \<Rightarrow>
               (case Child DataFormsNS ''x'' p of
                  None \<Rightarrow> Inl (Errf ''xep: missing MUC configuration form'')
                | Some formNode \<Rightarrow> ParseForm formNode)))"

definition MUC_SetConfig :: "(iq \<Rightarrow> iq result) \<Rightarrow> string \<Rightarrow> form \<Rightarrow> go_error option" where
  "MUC_SetConfig request room f =
     request_error (request (room_request IQSet room
       (AddChild (Form_ToNode (f\<lparr>frm_Type := ''submit''\<rparr>)) (NewNode MUCOwnerNS ''query''))))"

definition MUC_Destroy :: "(iq \<Rightarrow> iq result) \<Rightarrow> string \<Rightarrow> string \<Rightarrow> string \<Rightarrow> go_error option" where
  "MUC_Destroy request room alternate reason =
     request_error (request (room_request IQSet room
       (AddChild (AddChildIf (reason \<noteq> []) (NewTextNode MUCOwnerNS ''reason'' reason)
           (SetAttrIf ''jid'' alternate (NewNode MUCOwnerNS ''destroy'')))
         (NewNode MUCOwnerNS ''query''))))"

definition MUC_setAdmin :: "(iq \<Rightarrow> iq result) \<Rightarrow> string \<Rightarrow> muc_item \<Rightarrow> go_error option" where
  "MUC_setAdmin request room item =
     request_error (request (room_request IQSet room (AddChild (mucItemNode MUCAdminNS item) (NewNode MUCAdminNS ''query''))))"

definition MUC_SetRole :: "(iq \<Rightarrow> iq result) \<Rightarrow> string \<Rightarrow> string \<Rightarrow> string \<Rightarrow> string \<Rightarrow> go_error option" where
  "MUC_SetRole request room nick role reason =
     MUC_setAdmin request room (muc_item0\<lparr>mi_Nick := nick, mi_Role := role, mi_Reason := reason\<rparr>)"

definition MUC_SetAffiliation :: "(iq \<Rightarrow> iq result) \<Rightarrow> string \<Rightarrow> string \<Rightarrow> string \<Rightarrow> string \<Rightarrow> go_error option" where
  "MUC_SetAffiliation request room jid affiliation reason =
     MUC_setAdmin request room (muc_item0\<lparr>mi_JID := jid, mi_Affiliation := affiliation, mi_Reason := reason\<rparr>)"

definition MUC_GetAffiliations :: "(iq \<Rightarrow> iq result) \<Rightarrow> string \<Rightarrow> string \<Rightarrow> muc_item list result" where
  "MUC_GetAffiliations request room affiliation =
     (case request (room_request IQGet room
             (AddChild (SetAttr ''affiliation'' affiliation (NewNode MUCAdminNS ''item'')) (NewNode MUCAdminNS ''query''))) of
        Inl e \<Rightarrow> Inl e
      | Inr response \<Rightarrow>
          (case IQ_Payload response of
             None \<Rightarrow> Inl (Errf ''xep: missing MUC admin response'')
           | Some p \<Rightarrow> Inr (map parseMUCItem (filter (\<lambda>n. Local (Name n) = ''item'') (Children p)))))"

subsection \<open>Interleavings\<close>

inductive muc_step :: "muc \<Rightarrow> muc \<Rightarrow> bool" where
  join: "Join_begin room nick sent s = (v, s') \<Longrightarrow> muc_step s s'"
| presence: "mu_sending s = None \<Longrightarrow> Presence_Extension p MUCUserNS ''x'' \<noteq> None \<Longrightarrow> muc_step s (fst (handlePresence p s))"
| message: "mu_sending s = None \<Longrightarrow> muc_step s (fst (handleMessage m s))"
| deliver: "mu_sending s = Some (ch, v) \<Longrightarrow> mu_chan s ch = None \<Longrightarrow>
    muc_step s (s\<lparr>mu_chan := (mu_chan s)(ch \<mapsto> v), mu_sending := None\<rparr>)"
| answered: "(w, None) \<in> set (mu_joins s) \<Longrightarrow> mu_chan s (jn_chan w) = Some v \<Longrightarrow>
    muc_step s (Join_select w v (s\<lparr>mu_chan := (mu_chan s)(jn_chan w := None)\<rparr>))"
| gave_up: "(w, None) \<in> set (mu_joins s) \<Longrightarrow> e \<in> {Canceled, DeadlineExceeded, ErrClosed} \<Longrightarrow>
    muc_step s (Join_select w (Inl (Sentinel e)) s)"
| returned: "(w, Some v) \<in> set (mu_joins s) \<Longrightarrow> muc_step s (Join_return w v s)"

inductive muc_reachable :: "muc \<Rightarrow> bool" where
  initial: "muc_reachable NewMUC"
| step: "muc_reachable s \<Longrightarrow> muc_step s s' \<Longrightarrow> muc_reachable s'"

inductive_cases muc_stepE: "muc_step s s'"

subsection \<open>The invariant\<close>

text \<open>A room's welcome (the self-presence) and its refusal.\<close>

definition welcomes :: "string \<Rightarrow> presence \<Rightarrow> bool" where
  "welcomes room p \<longleftrightarrow> fst (splitOccupant (prs_From p)) = room \<and> self_presence p
     \<and> prs_Type p \<noteq> PresenceUnavailable \<and> prs_Type p \<noteq> PresenceErrorType"

definition refuses :: "string \<Rightarrow> stanza_error option \<Rightarrow> presence \<Rightarrow> bool" where
  "refuses room e p \<longleftrightarrow> fst (splitOccupant (prs_From p)) = room \<and> prs_Type p = PresenceErrorType \<and> prs_Error p = e"

definition since_join :: "muc \<Rightarrow> join \<Rightarrow> presence set" where
  "since_join s w = set (drop (jn_since w) (mu_received s))"

definition join_ok :: "muc \<Rightarrow> join \<Rightarrow> room result \<Rightarrow> bool" where
  "join_ok s w v \<longleftrightarrow>
     (case v of
        Inr r \<Rightarrow> rm_JID r = jn_room w \<and> rm_Nick r = jn_nick w \<and> rm_Joined r \<and> (\<exists>p\<in>since_join s w. welcomes (jn_room w) p)
      | Inl (StanzaErr e) \<Rightarrow> (\<exists>p\<in>since_join s w. refuses (jn_room w) e p)
      | Inl (Sentinel e) \<Rightarrow> e \<in> {Canceled, DeadlineExceeded, ErrClosed}
      | Inl _ \<Rightarrow> False)"

abbreviation key_of :: "join \<Rightarrow> string" where
  "key_of w \<equiv> join_key (jn_room w) (jn_nick w)"

definition joins :: "muc \<Rightarrow> join list" where
  "joins s = map fst (mu_joins s)"

definition joins_inv :: "muc \<Rightarrow> bool" where
  "joins_inv s \<longleftrightarrow>
     distinct (map key_of (joins s)) \<and> distinct (map jn_chan (joins s))
     \<and> (\<forall>k ch. mu_pending s k = Some ch \<longleftrightarrow> (\<exists>w\<in>set (joins s). key_of w = k \<and> jn_chan w = ch))
     \<and> (\<forall>w\<in>set (joins s). jn_chan w < mu_nextchan s \<and> jn_since w \<le> length (mu_received s) \<and> CHR ''/'' \<notin> set (jn_room w)
          \<and> jn_nick w \<noteq> [])"

text \<open>A value is meant for a join when it is in its channel, on its way there, or already taken.\<close>

definition meant_for :: "muc \<Rightarrow> join \<Rightarrow> room result option \<Rightarrow> room result \<Rightarrow> bool" where
  "meant_for s w u v \<longleftrightarrow> mu_chan s (jn_chan w) = Some v \<or> mu_sending s = Some (jn_chan w, v) \<or> u = Some v"

definition values_inv :: "muc \<Rightarrow> bool" where
  "values_inv s \<longleftrightarrow>
     (\<forall>k r. mu_rooms s k = Some r \<longrightarrow> rm_JID r = k)
     \<and> (\<forall>ch v. mu_sending s = Some (ch, v) \<longrightarrow> ch < mu_nextchan s)
     \<and> (\<forall>ch\<ge>mu_nextchan s. mu_chan s ch = None)
     \<and> (\<forall>w u v. (w, u) \<in> set (mu_joins s) \<longrightarrow> meant_for s w u v \<longrightarrow> join_ok s w v)
     \<and> (\<forall>(w, v)\<in>set (mu_returned s). join_ok s w v)"

lemma join_ok_mono: "join_ok s w v \<Longrightarrow> mu_received s' = mu_received s @ later \<Longrightarrow> join_ok s' w v"
  by (fastforce simp: join_ok_def since_join_def split: sum.splits go_error.splits)

lemma join_ok_received:
  assumes "mu_received s' = mu_received s"
  shows "join_ok s' w v = join_ok s w v"
proof -
  have "since_join s' w = since_join s w" by (simp add: since_join_def assms)
  then show ?thesis unfolding join_ok_def by (rule arg_cong)
qed

lemma splitOccupant_room: "CHR ''/'' \<notin> set (fst (splitOccupant jid))"
  by (auto simp: splitOccupant_def split: option.splits dest: IndexByte_SomeD)

lemma join_key_inj:
  assumes "join_key a n = join_key b m" "CHR ''/'' \<notin> set a" "CHR ''/'' \<notin> set b"
  shows "a = b \<and> n = m"
proof -
  have "splitOccupant (join_key c k) = (c, k)" if "CHR ''/'' \<notin> set c" for c k
    unfolding splitOccupant_def join_key_def append_Cons append_Nil IndexByte_split[OF that] by simp
  then show ?thesis using assms by (metis prod.inject)
qed

lemma update_room_JID [simp]: "rm_JID (update_room p r) = rm_JID r"
  by (simp add: update_room_def Let_def)

lemma join_outcome_ok:
  assumes "join_outcome p (update_room p r) = Some v" "fst (splitOccupant (prs_From p)) = jn_room w"
    and "rm_JID r = jn_room w" "rm_Nick (update_room p r) = jn_nick w"
    and "mu_received s' = mu_received s @ [p]" "jn_since w \<le> length (mu_received s)"
  shows "join_ok s' w v"
proof -
  have "p \<in> since_join s' w" using assms(5,6) by (simp add: since_join_def)
  then show ?thesis
    using assms(1-4) by (fastforce simp: join_outcome_def join_ok_def welcomes_def refuses_def update_room_def Let_def split: if_splits)
qed

text \<open>The ends of a join.\<close>

lemma Join_select_joins [simp]: "joins (Join_select w v s) = joins s"
  by (simp add: joins_def Join_select_def comp_def)

lemma joins_other [simp]:
  "joins (fst (handlePresence p s)) = joins s" "joins (fst (handleMessage m s)) = joins s"
  "joins (s\<lparr>mu_chan := C\<rparr>) = joins s" "joins (s\<lparr>mu_chan := C, mu_sending := S\<rparr>) = joins s"
  by (simp_all add: joins_def handlePresence_def handleMessage_def Let_def)

lemma distinct_map_eq: "distinct (map f xs) \<Longrightarrow> x \<in> set xs \<Longrightarrow> y \<in> set xs \<Longrightarrow> f x = f y \<Longrightarrow> x = y"
  by (auto simp: distinct_map inj_on_def)

lemma joins_unique:
  assumes "joins_inv s" "w \<in> set (joins s)" "w' \<in> set (joins s)" "key_of w = key_of w' \<or> jn_chan w = jn_chan w'"
  shows "w = w'"
  using assms distinct_map_eq[of key_of "joins s" w w'] distinct_map_eq[of jn_chan "joins s" w w']
  unfolding joins_inv_def by blast

lemma joins_I: "(w, u) \<in> set (mu_joins s) \<Longrightarrow> w \<in> set (joins s)"
  by (force simp: joins_def)

lemma mu_frame:
  "mu_pending (fst (handlePresence p s)) = mu_pending s" "mu_nextchan (fst (handlePresence p s)) = mu_nextchan s"
  "mu_received (fst (handlePresence p s)) = mu_received s @ [p]"
  "mu_pending (fst (handleMessage m s)) = mu_pending s" "mu_nextchan (fst (handleMessage m s)) = mu_nextchan s"
  "mu_received (fst (handleMessage m s)) = mu_received s"
  "mu_pending (Join_select w v s) = mu_pending s" "mu_nextchan (Join_select w v s) = mu_nextchan s"
  "mu_received (Join_select w v s) = mu_received s"
  by (simp_all add: handlePresence_def handleMessage_def Join_select_def Let_def)

lemma joins_inv_frame:
  assumes "joins_inv s" "joins s' = joins s" "mu_pending s' = mu_pending s"
    and "mu_nextchan s' = mu_nextchan s" "mu_received s' = mu_received s @ later"
  shows "joins_inv s'"
  using assms(1) unfolding joins_inv_def assms(2-5) by auto

lemma Join_begin_cases:
  assumes "Join_begin jid nick sent s = (v, s')"
  obtains "s' = s"
  | "s' = s\<lparr>mu_rooms := (mu_rooms s)(BareJIDString jid \<mapsto> new_room (BareJIDString jid) nick), mu_nextchan := mu_nextchan s + 1\<rparr>"
  | w where "jn_room w = BareJIDString jid \<and> jn_nick w \<noteq> []" "jn_chan w = mu_nextchan s" "jn_since w = length (mu_received s)"
      "mu_pending s (key_of w) = None"
      "s' = s\<lparr>mu_rooms := (mu_rooms s)(BareJIDString jid \<mapsto> new_room (BareJIDString jid) nick), mu_nextchan := mu_nextchan s + 1,
        mu_pending := (mu_pending s)(key_of w \<mapsto> mu_nextchan s), mu_joins := mu_joins s @ [(w, None)]\<rparr>"
proof -
  let ?w = "\<lparr>jn_room = BareJIDString jid, jn_nick = nick, jn_chan = mu_nextchan s, jn_since = length (mu_received s)\<rparr>"
  show ?thesis
  proof (cases "BareJIDString jid = [] \<or> nick = [] \<or> mu_pending s (key_of ?w) \<noteq> None")
    case True
    then have "s' = s" using assms by (auto simp: Join_begin_def Let_def split: if_splits)
    then show ?thesis by (rule that(1))
  next
    case free: False
    show ?thesis
    proof (cases sent)
      case None
      then show ?thesis using that(3)[of ?w] free assms by (simp add: Join_begin_def Let_def)
    next
      case (Some e)
      then show ?thesis using that(2) free assms by (simp add: Join_begin_def Let_def)
    qed
  qed
qed

lemma joins_inv_begin:
  assumes "joins_inv s" "Join_begin jid nick sent s = (v, s')"
  shows "joins_inv s'"
  using assms(2)
proof (cases rule: Join_begin_cases)
  case 1
  then show ?thesis using assms(1) by simp
next
  case 2
  then have "joins s' = joins s" by (simp add: joins_def)
  then show ?thesis using assms(1) 2 unfolding joins_inv_def by auto
next
  case (3 w)
  have j: "joins s' = joins s @ [w]" using 3(5) by (simp add: joins_def)
  have key: "key_of w' \<noteq> key_of w" if "w' \<in> set (joins s)" for w'
    using assms(1) 3(4) that unfolding joins_inv_def by (metis option.distinct(1))
  have chan: "jn_chan w' \<noteq> jn_chan w" if "w' \<in> set (joins s)" for w'
    using assms(1) that 3(2) by (auto simp: joins_inv_def)
  have "key_of w \<notin> key_of ` set (joins s)" "jn_chan w \<notin> jn_chan ` set (joins s)"
    by (rule notI, erule imageE, use key chan in metis)+
  moreover have "mu_pending s' k = Some ch \<longleftrightarrow> (\<exists>w'\<in>insert w (set (joins s)). key_of w' = k \<and> jn_chan w' = ch)" for k ch
    using assms(1) 3(2) key unfolding joins_inv_def 3(5) by auto
  moreover have "mu_nextchan s' = Suc (mu_nextchan s)" "mu_received s' = mu_received s" by (simp_all add: 3(5))
  ultimately show ?thesis using assms(1) 3(1-3) unfolding joins_inv_def j by (simp add: less_SucI)
qed

lemma joins_return:
  assumes "joins_inv s" "(w, Some v) \<in> set (mu_joins s)"
  shows "set (joins (Join_return w v s)) = set (joins s) - {w}"
proof -
  have "inj_on (key_of \<circ> fst) (set (mu_joins s))" using assms(1) by (simp add: joins_inv_def joins_def distinct_map)
  then have "inj_on fst (set (mu_joins s))" by (rule inj_on_imageI2)
  then have "x = (w, Some v)" if "x \<in> set (mu_joins s)" "fst x = w" for x using that assms(2) by (metis fst_conv inj_onD)
  then show ?thesis by (auto simp: joins_def Join_return_def image_iff)
qed

lemma joins_inv_return:
  assumes "joins_inv s" "(w, Some v) \<in> set (mu_joins s)"
  shows "joins_inv (Join_return w v s)"
proof -
  have key: "w' = w" if "w' \<in> set (joins s)" "key_of w' = key_of w" for w'
    using joins_unique[OF assms(1) that(1) joins_I[OF assms(2)]] that(2) by blast
  have "((mu_pending s)(key_of w := None)) k = Some ch
      \<longleftrightarrow> (\<exists>w'\<in>set (joins s) - {w}. key_of w' = k \<and> jn_chan w' = ch)" for k ch
    using key assms(1) unfolding joins_inv_def by (cases "k = key_of w") auto
  then have "mu_pending (Join_return w v s) k = Some ch
      \<longleftrightarrow> (\<exists>w'\<in>set (joins s) - {w}. key_of w' = k \<and> jn_chan w' = ch)" for k ch
    by (simp add: Join_return_def)
  moreover have "mu_nextchan (Join_return w v s) = mu_nextchan s" "mu_received (Join_return w v s) = mu_received s"
    by (simp_all add: Join_return_def)
  moreover have "distinct (map key_of (joins (Join_return w v s)))" "distinct (map jn_chan (joins (Join_return w v s)))"
    using assms(1) by (simp_all add: joins_inv_def joins_def Join_return_def distinct_map_filter)
  ultimately show ?thesis using assms(1) unfolding joins_inv_def joins_return[OF assms] by simp
qed

text \<open>The values on their way to a join.\<close>

lemma values_inv_begin:
  assumes "values_inv s" "Join_begin jid nick sent s = (v, s')"
  shows "values_inv s'"
  using assms(2)
proof (cases rule: Join_begin_cases)
  case 1
  then show ?thesis using assms(1) by simp
next
  case 2
  have keep: "mu_received s' = mu_received s" by (simp add: 2)
  show ?thesis
    using assms(1) unfolding values_inv_def join_ok_received[OF keep] by (auto simp: 2 meant_for_def new_room_def less_SucI)
next
  case (3 w)
  have keep: "mu_received s' = mu_received s" by (simp add: 3)
  have "\<not> meant_for s w None u" for u using assms(1) 3(2) by (auto simp: values_inv_def meant_for_def)
  then show ?thesis
    using assms(1) 3(1,2) unfolding values_inv_def join_ok_received[OF keep]
    by (auto simp: 3(5) meant_for_def new_room_def less_SucI)
qed

lemma values_inv_deliver:
  assumes "values_inv s" "mu_sending s = Some (ch, v)"
  shows "values_inv (s\<lparr>mu_chan := (mu_chan s)(ch \<mapsto> v), mu_sending := None\<rparr>)" (is "values_inv ?s")
proof -
  have keep: "mu_received ?s = mu_received s" by simp
  have "meant_for ?s w u x \<Longrightarrow> meant_for s w u x" for w u x
    using assms(2) by (auto simp: meant_for_def split: if_splits)
  then show ?thesis using assms unfolding values_inv_def join_ok_received[OF keep] by auto
qed

lemma values_inv_select:
  assumes "values_inv s" "(w, None) \<in> set (mu_joins s)" "join_ok s w v"
    and "\<forall>ch. C ch = None \<or> C ch = mu_chan s ch"
  shows "values_inv (Join_select w v (s\<lparr>mu_chan := C\<rparr>))" (is "values_inv ?s")
proof -
  have keep: "mu_received ?s = mu_received s" by (simp add: Join_select_def)
  have chan: "C ch = Some x \<Longrightarrow> mu_chan s ch = Some x" for ch x using assms(4) by (metis option.distinct(1))
  have old: "join_ok s w' x" if "(w', u) \<in> set (mu_joins s)" "meant_for ?s w' u x" for w' u x
    using assms(1) that chan unfolding values_inv_def by (fastforce simp: meant_for_def Join_select_def)
  have "join_ok s w' x" if "(w', u) \<in> set (mu_joins ?s)" "meant_for ?s w' u x" for w' u x
  proof (cases "(w', u) = (w, Some v)")
    case True
    then have "x = v \<or> meant_for ?s w None x" using that(2) by (auto simp: meant_for_def)
    then show ?thesis using True assms(3) old[OF assms(2)] by auto
  next
    case False
    then show ?thesis using that old by (auto simp: Join_select_def split: if_splits)
  qed
  then show ?thesis
    using assms(1) chan unfolding values_inv_def join_ok_received[OF keep]
    by (simp add: Join_select_def) (metis option.exhaust)
qed

lemma values_inv_return:
  assumes "values_inv s" "(w, Some v) \<in> set (mu_joins s)"
  shows "values_inv (Join_return w v s)"
proof -
  have keep: "mu_received (Join_return w v s) = mu_received s" by (simp add: Join_return_def)
  have "join_ok s w v" using assms by (simp add: values_inv_def meant_for_def)
  moreover have "meant_for (Join_return w v s) w' u x = meant_for s w' u x" for w' u x
    by (simp add: meant_for_def Join_return_def)
  ultimately show ?thesis
    using assms(1) unfolding values_inv_def join_ok_received[OF keep] by (auto simp: Join_return_def)
qed

lemma values_inv_message:
  assumes "values_inv s"
  shows "values_inv (fst (handleMessage m s))"
proof -
  have keep: "mu_received (fst (handleMessage m s)) = mu_received s" by (simp add: handleMessage_def Let_def)
  have "meant_for (fst (handleMessage m s)) w u x = meant_for s w u x" for w u x
    by (simp add: meant_for_def handleMessage_def Let_def)
  then show ?thesis
    using assms unfolding values_inv_def join_ok_received[OF keep] by (auto simp: handleMessage_def Let_def split: if_splits)
qed

lemma values_inv_presence:
  assumes "values_inv s" "joins_inv s"
  shows "values_inv (fst (handlePresence p s))"
proof -
  define s' where "s' = fst (handlePresence p s)"
  define room where "room = fst (splitOccupant (prs_From p))"
  define r where "r = update_room p (room_at s room)"
  have s': "mu_rooms s' = (mu_rooms s)(room \<mapsto> r)" "mu_received s' = mu_received s @ [p]" "mu_joins s' = mu_joins s"
    "mu_nextchan s' = mu_nextchan s" "mu_chan s' = mu_chan s" "mu_returned s' = mu_returned s"
    "mu_sending s' = (case (mu_pending s (join_key room (rm_Nick r)), join_outcome p r) of (Some ch, Some v) \<Rightarrow> Some (ch, v) | _ \<Rightarrow> None)"
    by (simp_all add: s'_def handlePresence_def Let_def room_def r_def)
  have jid: "rm_JID r = room"
    using assms(1) by (auto simp: r_def room_at_def values_inv_def new_room_def split: option.splits)
  have mono: "join_ok s w v \<Longrightarrow> join_ok s' w v" for w v by (rule join_ok_mono) (auto simp: s'(2))
  have sent: "join_ok s' w v"
    if x: "w \<in> set (joins s)" "mu_sending s' = Some (jn_chan w, v)" for w v
  proof -
    have p: "mu_pending s (join_key room (rm_Nick r)) = Some (jn_chan w)" "join_outcome p r = Some v"
      using x(2) by (simp_all add: s'(7) split: option.splits)
    then obtain w' where w': "w' \<in> set (joins s)" "key_of w' = join_key room (rm_Nick r)" "jn_chan w' = jn_chan w"
      using assms(2) unfolding joins_inv_def by blast
    have "w' = w" using joins_unique[OF assms(2) w'(1) x(1)] w'(3) by blast
    then have "jn_room w = room \<and> jn_nick w = rm_Nick r"
      using join_key_inj[of "jn_room w" "jn_nick w" room "rm_Nick r"] w' x(1) splitOccupant_room assms(2)
      by (simp add: joins_inv_def room_def)
    then show ?thesis
      using p(2) jid x(1) assms(2) join_outcome_ok[of p "room_at s room" v w s' s]
      by (simp add: joins_inv_def room_def[symmetric] r_def s'(2))
  qed
  have sending: "ch < mu_nextchan s" if "mu_sending s' = Some (ch, v)" for ch v
    using that assms(2) unfolding s'(7) joins_inv_def by (auto split: option.splits)
  have "join_ok s' w v" if x: "(w, u) \<in> set (mu_joins s)" "meant_for s' w u v" for w u v
  proof (cases "mu_sending s' = Some (jn_chan w, v)")
    case True
    then show ?thesis using sent[OF joins_I[OF x(1)]] by blast
  next
    case False
    then show ?thesis using x assms(1) mono s'(5) by (auto simp: values_inv_def meant_for_def)
  qed
  then show ?thesis
    using assms(1) sending mono jid unfolding values_inv_def s'_def[symmetric] s'(1,3-6) by (auto split: if_splits)
qed

lemma muc_step_inv: "muc_step s s' \<Longrightarrow> joins_inv s \<and> values_inv s \<Longrightarrow> joins_inv s' \<and> values_inv s'"
proof (induction rule: muc_step.induct)
  case (join room nick sent s v s')
  then show ?case using joins_inv_begin values_inv_begin by blast
next
  case (presence s p)
  then show ?case
    using values_inv_presence joins_inv_frame[of s "fst (handlePresence p s)" "[p]"]
    by (simp add: mu_frame)
next
  case (message s m)
  then show ?case
    using values_inv_message joins_inv_frame[of s "fst (handleMessage m s)" "[]"]
    by (simp add: mu_frame)
next
  case (deliver s ch v)
  then show ?case
    using values_inv_deliver joins_inv_frame[of s "s\<lparr>mu_chan := (mu_chan s)(ch \<mapsto> v), mu_sending := None\<rparr>" "[]"]
    by simp
next
  case (answered w s v)
  then have "join_ok s w v" by (simp add: values_inv_def meant_for_def)
  then show ?case
    using answered values_inv_select[of s w v "(mu_chan s)(jn_chan w := None)"]
      joins_inv_frame[of s "Join_select w v (s\<lparr>mu_chan := (mu_chan s)(jn_chan w := None)\<rparr>)" "[]"]
    by (simp add: mu_frame)
next
  case (gave_up w s e)
  then have "join_ok s w (Inl (Sentinel e))" by (simp add: join_ok_def)
  then show ?case
    using gave_up values_inv_select[of s w "Inl (Sentinel e)" "mu_chan s"]
      joins_inv_frame[of s "Join_select w (Inl (Sentinel e)) s" "[]"]
    by (simp add: mu_frame)
next
  case (returned w v s)
  then show ?case using joins_inv_return values_inv_return by blast
qed

lemma muc_reachable_inv: "muc_reachable s \<Longrightarrow> joins_inv s \<and> values_inv s"
  by (induction rule: muc_reachable.induct)
    (simp add: joins_inv_def joins_def values_inv_def NewMUC_def, use muc_step_inv in blast)

subsection \<open>Occupants\<close>

text \<open>The occupants of a room are told by the last presence from each of them.\<close>

definition from_occupant :: "string \<Rightarrow> string \<Rightarrow> presence \<Rightarrow> bool" where
  "from_occupant room nick p \<longleftrightarrow> splitOccupant (prs_From p) = (room, nick)"

lemma occupants_step:
  "rm_Occupants (room_at (fst (handlePresence p s)) room) nick =
     (if from_occupant room nick p then (if prs_Type p = PresenceUnavailable then None else Some (occupant_of p))
      else rm_Occupants (room_at s room) nick)"
  by (auto simp: handlePresence_def Let_def room_at_def update_room_def from_occupant_def split: option.splits prod.splits)

lemma occupants_last_presence:
  "rm_Occupants (room_at (foldl (\<lambda>s p. fst (handlePresence p s)) s ps) room) nick =
     (case filter (from_occupant room nick) (rev ps) of
        [] \<Rightarrow> rm_Occupants (room_at s room) nick
      | p # _ \<Rightarrow> if prs_Type p = PresenceUnavailable then None else Some (occupant_of p))"
  by (induction ps rule: rev_induct) (simp_all add: occupants_step)

lemma handlePresence_keeps_nick:
  "rm_Nick (room_at s room) \<noteq> [] \<Longrightarrow> rm_Nick (room_at (fst (handlePresence p s)) room) = rm_Nick (room_at s room)"
  by (auto simp: handlePresence_def Let_def room_at_def update_room_def split: option.splits)

subsection \<open>Properties\<close>

definition example_join :: join where
  "example_join = \<lparr>jn_room = ''r@h'', jn_nick = ''me'', jn_chan = 0, jn_since = 0\<rparr>"

definition example_welcome :: presence where
  "example_welcome = presence0\<lparr>prs_From := ''r@h/me'', prs_Extensions :=
     [AddChild (SetAttr ''code'' (Itoa 110) (NewNode MUCUserNS ''status'')) (NewNode MUCUserNS ''x'')]\<rparr>"

lemma example_welcome_facts:
  "Presence_Extension example_welcome MUCUserNS ''x'' \<noteq> None" "self_presence example_welcome"
  "splitOccupant (prs_From example_welcome) = (''r@h'', ''me'')" "prs_Type example_welcome = []"
proof -
  have a: "Atoi (Itoa 110) = (110, None)" by (rule Atoi_Itoa) (simp add: int64_def)
  show "Presence_Extension example_welcome MUCUserNS ''x'' \<noteq> None" "splitOccupant (prs_From example_welcome) = (''r@h'', ''me'')"
    "prs_Type example_welcome = []"
    by (simp_all add: example_welcome_def presence0_def Presence_Extension_def splitOccupant_def named_def)
  show "self_presence example_welcome"
    using a by (simp add: self_presence_def presence_status_def status_of_def example_welcome_def presence0_def Presence_Extension_def
        ParseMUCStatus_def status_child_def muc_status0_def named_def)
qed

text \<open>A run: the join is registered, the room welcomes the client, the result is delivered and taken.\<close>

definition example_joining :: muc where
  "example_joining = snd (Join_begin ''r@h'' ''me'' None NewMUC)"

lemma example_joining_facts:
  "muc_reachable example_joining" "mu_joins example_joining = [(example_join, None)]" "mu_sending example_joining = None"
  "mu_pending example_joining = [''r@h/me'' \<mapsto> 0]" "mu_chan example_joining = Map.empty"
  "mu_rooms example_joining = [''r@h'' \<mapsto> new_room ''r@h'' ''me'']" "mu_received example_joining = []"
  "mu_returned example_joining = []"
proof -
  show "muc_reachable example_joining"
    unfolding example_joining_def by (rule muc_reachable.step[OF muc_reachable.initial muc_step.join[OF prod.collapse[symmetric]]])
qed (simp_all add: example_joining_def Join_begin_def NewMUC_def BareJIDString_def join_key_def example_join_def Let_def)

lemma handle_welcome:
  assumes "mu_pending s ''r@h/me'' = Some 0" "mu_sending s = None" "rm_Nick (room_at s ''r@h'') = ''me''"
  defines "s' \<equiv> fst (handlePresence example_welcome s)"
  shows "muc_step s s'" "mu_sending s' = Some (0, Inr (update_room example_welcome (room_at s ''r@h'')))"
    "rm_Nick (room_at s' ''r@h'') = ''me''" "mu_chan s' = mu_chan s" "mu_pending s' = mu_pending s" "mu_joins s' = mu_joins s"
proof -
  note w = example_welcome_facts
  have n: "rm_Nick (update_room example_welcome (room_at s ''r@h'')) = ''me''"
    using assms(3) w by (simp add: update_room_def Let_def)
  show "muc_step s s'" unfolding s'_def by (rule muc_step.presence[OF assms(2) w(1)])
  show "mu_sending s' = Some (0, Inr (update_room example_welcome (room_at s ''r@h'')))"
    using assms(1) w n by (simp add: s'_def handlePresence_def Let_def join_key_def join_outcome_def)
  show "rm_Nick (room_at s' ''r@h'') = ''me''"
    using handlePresence_keeps_nick[of s "''r@h''"] assms(3) by (simp add: s'_def)
qed (simp_all add: s'_def handlePresence_def Let_def)

text \<open>C24: in every interleaving of joins, presences, messages, timeouts and closing, a join that returns
  a room returns the room it asked for, with its own nickname, joined, and the room's
  self-presence arrived after the join began; a join that returns a stanza error got it from
  an error presence of that room that arrived after it began, and any other error is the end
  of the context or of the client.\<close>

theorem muc_join_sound:
  assumes "muc_reachable s" "(w, v) \<in> set (mu_returned s)"
  shows "case v of
      Inr r \<Rightarrow> rm_JID r = jn_room w \<and> rm_Nick r = jn_nick w \<and> rm_Joined r \<and> (\<exists>p\<in>since_join s w. welcomes (jn_room w) p)
    | Inl (StanzaErr e) \<Rightarrow> (\<exists>p\<in>since_join s w. refuses (jn_room w) e p)
    | Inl (Sentinel e) \<Rightarrow> e \<in> {Canceled, DeadlineExceeded, ErrClosed}
    | Inl _ \<Rightarrow> False"
proof -
  have "values_inv s" using muc_reachable_inv[OF assms(1)] by simp
  then have "join_ok s w v" using assms(2) by (auto simp: values_inv_def)
  then show ?thesis unfolding join_ok_def .
qed

definition example_joined :: muc where
  "example_joined =
     (let s1 = fst (handlePresence example_welcome example_joining);
          v = Inr (update_room example_welcome (new_room ''r@h'' ''me''));
          s2 = s1\<lparr>mu_chan := (mu_chan s1)(0 \<mapsto> v), mu_sending := None\<rparr>
      in Join_return example_join v (Join_select example_join v (s2\<lparr>mu_chan := (mu_chan s2)(jn_chan example_join := None)\<rparr>)))"

theorem muc_join_sound_witness:
  "muc_reachable example_joined \<and> mu_returned example_joined = [(example_join, Inr (update_room example_welcome (new_room ''r@h'' ''me'')))]
   \<and> rm_Joined (update_room example_welcome (new_room ''r@h'' ''me''))"
proof -
  note f = example_joining_facts
  let ?v = "Inr (update_room example_welcome (new_room ''r@h'' ''me''))"
  define s1 where "s1 = fst (handlePresence example_welcome example_joining)"
  define s2 where "s2 = s1\<lparr>mu_chan := (mu_chan s1)(0 \<mapsto> ?v), mu_sending := None\<rparr>"
  define s3 where "s3 = Join_select example_join ?v (s2\<lparr>mu_chan := (mu_chan s2)(jn_chan example_join := None)\<rparr>)"
  have room: "room_at example_joining ''r@h'' = new_room ''r@h'' ''me''" by (simp add: room_at_def f)
  then have pre: "mu_pending example_joining ''r@h/me'' = Some 0" "mu_sending example_joining = None"
    "rm_Nick (room_at example_joining ''r@h'') = ''me''" by (simp_all add: f new_room_def)
  note h = handle_welcome[OF pre, folded s1_def, unfolded room]
  have c0: "jn_chan example_join = 0" by (simp add: example_join_def)
  have r1: "muc_reachable s1" using muc_reachable.step[OF f(1) h(1)] .
  have "muc_step s1 s2" unfolding s2_def using h(2) by (rule muc_step.deliver) (simp add: h(4) f)
  with r1 have r2: "muc_reachable s2" by (rule muc_reachable.step)
  have "muc_step s2 s3" unfolding s3_def
    by (rule muc_step.answered) (simp_all add: s2_def h(6) f c0)
  with r2 have r3: "muc_reachable s3" by (rule muc_reachable.step)
  have j: "mu_joins s3 = [(example_join, Some ?v)]" by (simp add: s3_def s2_def Join_select_def h(6) f)
  have "muc_step s3 (Join_return example_join ?v s3)" by (rule muc_step.returned) (simp add: j)
  with r3 have "muc_reachable (Join_return example_join ?v s3)" by (rule muc_reachable.step)
  then have r: "muc_reachable example_joined"
    unfolding example_joined_def Let_def s3_def s2_def s1_def .
  moreover have m: "mu_returned example_joined = [(example_join, ?v)]"
    by (simp add: example_joined_def Let_def Join_return_def Join_select_def handlePresence_def f)
  moreover have "rm_Joined (update_room example_welcome (new_room ''r@h'' ''me''))"
    using muc_join_sound[OF r, of example_join ?v] m by simp
  ultimately show ?thesis by blast
qed

text \<open>A join gets its answer. When the room welcomes a client whose join is waiting (and the room is
  still registered under its nickname), the read loop hands over the room as it is now, and
  the join can return: with this room, or with the result that was already there for it.\<close>

theorem muc_join_answered:
  assumes "muc_reachable s" "(w, None) \<in> set (mu_joins s)" "mu_sending s = None"
    and "rm_Nick (room_at s (jn_room w)) = jn_nick w" "welcomes (jn_room w) p"
  shows "\<exists>s' v. muc_step\<^sup>*\<^sup>* (fst (handlePresence p s)) s' \<and> (w, v) \<in> set (mu_returned s')
    \<and> (mu_chan s (jn_chan w) = None \<and> v = Inr (update_room p (room_at s (jn_room w))) \<or> mu_chan s (jn_chan w) = Some v)"
proof -
  let ?s1 = "fst (handlePresence p s)" and ?r = "update_room p (room_at s (jn_room w))"
  have inv: "joins_inv s" using muc_reachable_inv[OF assms(1)] by simp
  have w: "w \<in> set (joins s)" using assms(2) by (rule joins_I)
  then have pend: "mu_pending s (key_of w) = Some (jn_chan w)" and nick: "jn_nick w \<noteq> []"
    using inv unfolding joins_inv_def by blast+
  have "rm_Nick ?r = jn_nick w" using nick assms(4) by (simp add: update_room_def Let_def)
  then have s1: "mu_sending ?s1 = Some (jn_chan w, Inr ?r)" "mu_joins ?s1 = mu_joins s" "mu_chan ?s1 = mu_chan s"
    using assms(5) pend by (simp_all add: handlePresence_def Let_def welcomes_def join_outcome_def)
  have take: "\<exists>s'. muc_step\<^sup>*\<^sup>* t s' \<and> (w, v) \<in> set (mu_returned s')"
    if t: "(w, None) \<in> set (mu_joins t)" "mu_chan t (jn_chan w) = Some v" for t v
  proof -
    let ?t1 = "Join_select w v (t\<lparr>mu_chan := (mu_chan t)(jn_chan w := None)\<rparr>)"
    have "muc_step t ?t1" by (rule muc_step.answered[OF t])
    moreover have "muc_step ?t1 (Join_return w v ?t1)"
      by (rule muc_step.returned) (use t(1) in \<open>auto simp: Join_select_def\<close>)
    ultimately show ?thesis by (intro exI[of _ "Join_return w v ?t1"]) (auto simp: Join_return_def)
  qed
  show ?thesis
  proof (cases "mu_chan s (jn_chan w)")
    case None
    let ?s2 = "?s1\<lparr>mu_chan := (mu_chan ?s1)(jn_chan w \<mapsto> Inr ?r), mu_sending := None\<rparr>"
    have "muc_step ?s1 ?s2" using s1(1) by (rule muc_step.deliver) (simp add: s1(3) None)
    then show ?thesis
      using take[of ?s2 "Inr ?r"] s1(2) assms(2) None by (auto intro: converse_rtranclp_into_rtranclp)
  next
    case (Some v)
    then show ?thesis using take[of ?s1 v] s1 assms(2) by auto
  qed
qed

theorem muc_join_answered_witness:
  "\<exists>s' v. muc_step\<^sup>*\<^sup>* (fst (handlePresence example_welcome example_joining)) s' \<and> (example_join, v) \<in> set (mu_returned s')
    \<and> v = Inr (update_room example_welcome (new_room ''r@h'' ''me''))"
proof -
  note f = example_joining_facts
  have "rm_Nick (room_at example_joining (jn_room example_join)) = jn_nick example_join" "welcomes (jn_room example_join) example_welcome"
    by (simp_all add: room_at_def f example_join_def new_room_def welcomes_def example_welcome_facts)
  from muc_join_answered[OF f(1) _ f(3) this] show ?thesis by (auto simp: f room_at_def example_join_def)
qed

text \<open>C39: the read loop can hang. A handler that waits to send a join result into a channel that is full
  and whose join is no longer listening waits forever: no step of the program ever lets it
  continue, so no stanza is handled any more. The witness reaches this state: a join times
  out, and before its deferred function runs two self-presences arrive.\<close>

theorem muc_handler_stuck:
  assumes "mu_sending s = Some (ch, v)" "mu_chan s ch \<noteq> None" "ch < mu_nextchan s"
    and "\<forall>w. (w, None) \<in> set (mu_joins s) \<longrightarrow> jn_chan w \<noteq> ch" "muc_step\<^sup>*\<^sup>* s s'"
  shows "mu_sending s' = Some (ch, v)"
proof -
  define stuck where "stuck = (\<lambda>t :: muc. mu_sending t = Some (ch, v) \<and> mu_chan t ch \<noteq> None \<and> ch < mu_nextchan t
    \<and> (\<forall>w. (w, None) \<in> set (mu_joins t) \<longrightarrow> jn_chan w \<noteq> ch))"
  have keeps: "stuck t'" if "muc_step t t'" "stuck t" for t t'
    using that
  proof (induction rule: muc_step.induct)
    case (join room nick sent s v s')
    then show ?case by (cases rule: Join_begin_cases[OF join(1)]) (auto simp: stuck_def)
  qed (auto simp: stuck_def Join_select_def Join_return_def split: if_splits)
  have "stuck s" using assms(1-4) by (simp add: stuck_def)
  with assms(5) have "stuck s'" by (induction rule: rtranclp_induct) (auto intro: keeps)
  then show ?thesis by (simp add: stuck_def)
qed

definition example_stuck :: muc where
  "example_stuck =
     (let s1 = fst (handlePresence example_welcome (Join_select example_join (Inl (Sentinel DeadlineExceeded)) example_joining));
          s2 = s1\<lparr>mu_chan := (mu_chan s1)(0 \<mapsto> Inr (update_room example_welcome (new_room ''r@h'' ''me''))), mu_sending := None\<rparr>
      in fst (handlePresence example_welcome s2))"

theorem muc_handler_stuck_witness:
  "muc_reachable example_stuck \<and> mu_sending (Join_return example_join (Inl (Sentinel DeadlineExceeded)) example_stuck) \<noteq> None"
proof -
  note f = example_joining_facts
  let ?e = "Inl (Sentinel DeadlineExceeded) :: room result"
  let ?v = "Inr (update_room example_welcome (new_room ''r@h'' ''me''))"
  define s0 where "s0 = Join_select example_join ?e example_joining"
  define s1 where "s1 = fst (handlePresence example_welcome s0)"
  define s2 where "s2 = s1\<lparr>mu_chan := (mu_chan s1)(0 \<mapsto> ?v), mu_sending := None\<rparr>"
  have "muc_step example_joining s0" unfolding s0_def by (rule muc_step.gave_up) (simp_all add: f)
  with f(1) have r0: "muc_reachable s0" by (rule muc_reachable.step)
  have room: "room_at s0 ''r@h'' = new_room ''r@h'' ''me''" by (simp add: s0_def Join_select_def room_at_def f)
  then have pre: "mu_pending s0 ''r@h/me'' = Some 0" "mu_sending s0 = None" "rm_Nick (room_at s0 ''r@h'') = ''me''"
    by (simp_all add: s0_def Join_select_def f new_room_def)
  note h = handle_welcome[OF pre, folded s1_def, unfolded room]
  have r1: "muc_reachable s1" using muc_reachable.step[OF r0 h(1)] .
  have "muc_step s1 s2" unfolding s2_def using h(2) by (rule muc_step.deliver) (simp add: h(4) s0_def Join_select_def f)
  with r1 have r2: "muc_reachable s2" by (rule muc_reachable.step)
  have "mu_pending s2 ''r@h/me'' = Some 0" "mu_sending s2 = None" "rm_Nick (room_at s2 ''r@h'') = ''me''"
    using h(3) by (simp_all add: s2_def h(5) pre room_at_def)
  note g = handle_welcome[OF this]
  have st: "example_stuck = fst (handlePresence example_welcome s2)" by (simp add: example_stuck_def s2_def s1_def s0_def Let_def)
  have r: "muc_reachable example_stuck" unfolding st by (rule muc_reachable.step[OF r2 g(1)])
  have j: "mu_joins example_stuck = [(example_join, Some ?e)]" unfolding st g(6) by (simp add: s2_def h(6) s0_def Join_select_def f)
  have "muc_step\<^sup>*\<^sup>* example_stuck (Join_return example_join ?e example_stuck)"
    by (rule r_into_rtranclp) (rule muc_step.returned, simp add: j)
  moreover have "mu_chan example_stuck 0 \<noteq> None" unfolding st g(4) by (simp add: s2_def)
  moreover have "0 < mu_nextchan example_stuck"
    by (simp add: st mu_frame) (simp add: s2_def s1_def s0_def mu_frame example_joining_def Join_begin_def NewMUC_def BareJIDString_def Let_def)
  ultimately have "mu_sending (Join_return example_join ?e example_stuck)
      = Some (0, Inr (update_room example_welcome (room_at s2 ''r@h'')))"
    using muc_handler_stuck[of example_stuck 0 "Inr (update_room example_welcome (room_at s2 ''r@h''))"] g(2) j
    unfolding st by simp
  then show ?thesis using r by simp
qed

end
