(* ===== verification/Omemo_Store.thy ===== *)
theory Omemo_Store
  imports Payloads "HOL-Library.Word"
begin

unbundle bit_operations_syntax

text \<open>
  The data of OMEMO: the types of \<^verbatim>\<open>src/omemo/types.go\<close>, their XML forms in
  \<^verbatim>\<open>src/omemo/xml.go\<close>, and the metadata stores of \<^verbatim>\<open>src/omemo/store.go\<close>. Device identifiers
  are 32-bit words. The store interface is a record of operations (\<open>store_ops\<close>) over a state of
  its own; the in-memory and the JSON store provide it.
\<close>

abbreviation OmemoNS :: string where "OmemoNS \<equiv> ''eu.siacs.conversations.axolotl''"
abbreviation DeviceListNode :: string where "DeviceListNode \<equiv> ''eu.siacs.conversations.axolotl.devicelist''"
abbreviation BundleNodePrefix :: string where "BundleNodePrefix \<equiv> ''eu.siacs.conversations.axolotl.bundles:''"

subsection \<open>Types\<close>

type_synonym device_id = "32 word"

definition DeviceID_String :: "device_id \<Rightarrow> string" where
  "DeviceID_String i = FormatNat 10 (unat i)"

datatype address = Address (ad_JID: string) (ad_DeviceID: device_id)

definition Address_String :: "address \<Rightarrow> string" where
  "Address_String a = ad_JID a @ '':'' @ DeviceID_String (ad_DeviceID a)"

text \<open>The levels and policies are strings; a stored level is always one of the five.\<close>

abbreviation TrustUndecided :: string where "TrustUndecided \<equiv> ''undecided''"
abbreviation TrustTrusted :: string where "TrustTrusted \<equiv> ''trusted''"
abbreviation TrustVerified :: string where "TrustVerified \<equiv> ''verified''"
abbreviation TrustDistrusted :: string where "TrustDistrusted \<equiv> ''distrusted''"
abbreviation TrustIgnored :: string where "TrustIgnored \<equiv> ''ignored''"
abbreviation TrustManual :: string where "TrustManual \<equiv> ''manual''"
abbreviation TrustBlindBeforeVerification :: string where "TrustBlindBeforeVerification \<equiv> ''blind-before-verification''"
abbreviation TrustAll :: string where "TrustAll \<equiv> ''trust-all''"

datatype pre_key = PreKey (pk_ID: "32 word") (pk_Public: bytes)

record key_bundle =
  bd_IdentityKey :: bytes
  bd_SignedPreKeyID :: "32 word"
  bd_SignedPreKey :: bytes
  bd_SignedPreKeySignature :: bytes
  bd_PreKeys :: "pre_key list"

record device_list =
  dl_JID :: string
  dl_Devices :: "device_id list"
  dl_FetchedAt :: gotime

datatype session_ciphertext = SessionCiphertext (sc_Data: bytes) (sc_PreKey: bool)

record wrapped_key =
  wk_Recipient :: device_id
  wk_PreKey :: bool
  wk_Data :: bytes

record envelope =
  env_Sender :: device_id
  env_IV :: bytes
  env_Payload :: bytes
  env_Keys :: "wrapped_key list"

definition bundle0 :: key_bundle where
  "bundle0 = \<lparr>bd_IdentityKey = [], bd_SignedPreKeyID = 0, bd_SignedPreKey = [], bd_SignedPreKeySignature = [], bd_PreKeys = []\<rparr>"

text \<open>\<^verbatim>\<open>uniqueDevices\<close>: the nonzero identifiers, each at its first occurrence.\<close>

definition uniqueDevices :: "device_id list \<Rightarrow> device_id list" where
  "uniqueDevices values = uniq_acc {} (filter (\<lambda>v. v \<noteq> 0) values)"

lemma uniqueDevices_set: "set (uniqueDevices ds) = set ds - {0}" "distinct (uniqueDevices ds)"
  by (auto simp: uniqueDevices_def set_uniq_acc distinct_uniq_acc)

lemma uniqueDevices_id: "distinct ds \<Longrightarrow> 0 \<notin> set ds \<Longrightarrow> uniqueDevices ds = ds"
  by (simp add: uniqueDevices_def uniq_acc_id filter_id_conv) (metis filter_id_conv uniq_acc_id inf_bot_right)

lemma uniqueDevices_idem [simp]: "uniqueDevices (uniqueDevices ds) = uniqueDevices ds"
  by (simp add: uniqueDevices_id uniqueDevices_set)

subsection \<open>XML forms\<close>

definition BundleNode :: "device_id \<Rightarrow> string" where
  "BundleNode device = BundleNodePrefix @ DeviceID_String device"

definition parse_uint32 :: "string \<Rightarrow> 32 word result" where
  "parse_uint32 s = (case ParseUint 32 s of (v, None) \<Rightarrow> Inr (of_nat v) | (_, Some e) \<Rightarrow> Inl (NumError e s))"

definition parseDeviceID :: "string \<Rightarrow> device_id result" where
  "parseDeviceID value =
     (case parse_uint32 (TrimSpace value) of
        Inl _ \<Rightarrow> Inl (Errorf ''omemo: invalid device ID %q'' [value] None)
      | Inr i \<Rightarrow> if i = 0 then Inl (Errorf ''omemo: invalid device ID %q'' [value] None) else Inr i)"

definition device_node :: "device_id \<Rightarrow> node" where
  "device_node i = SetAttr ''id'' (DeviceID_String i) (NewNode OmemoNS ''device'')"

definition DeviceList_ToNode :: "device_id list \<Rightarrow> node" where
  "DeviceList_ToNode devices = AddChildren (map device_node (uniqueDevices devices)) (NewNode OmemoNS ''list'')"

definition ParseDeviceList :: "node \<Rightarrow> device_id list result" where
  "ParseDeviceList node =
     (if Space (Name node) \<noteq> OmemoNS \<or> Local (Name node) \<noteq> ''list''
      then Inl (Wrapf ''%w: invalid device list'' ErrInvalidEnvelope)
      else map_value uniqueDevices
        (map_result (\<lambda>c. parseDeviceID (or_empty (AttrValue ''id'' c))) (filter (\<lambda>c. Local (Name c) = ''device'') (Children node))))"

definition prekey_node :: "pre_key \<Rightarrow> node" where
  "prekey_node k =
     SetAttr ''preKeyId'' (FormatNat 10 (unat (pk_ID k))) (NewTextNode OmemoNS ''preKeyPublic'' (EncodeToString (pk_Public k)))"

definition Bundle_ToNode :: "key_bundle \<Rightarrow> node" where
  "Bundle_ToNode b =
     AddChild (AddChildren (map prekey_node (bd_PreKeys b)) (NewNode OmemoNS ''prekeys''))
       (AddChild (NewTextNode OmemoNS ''identityKey'' (EncodeToString (bd_IdentityKey b)))
       (AddChild (NewTextNode OmemoNS ''signedPreKeySignature'' (EncodeToString (bd_SignedPreKeySignature b)))
       (AddChild (SetAttr ''signedPreKeyId'' (FormatNat 10 (unat (bd_SignedPreKeyID b)))
            (NewTextNode OmemoNS ''signedPreKeyPublic'' (EncodeToString (bd_SignedPreKey b))))
         (NewNode OmemoNS ''bundle''))))"

definition bundle_part :: "node option \<Rightarrow> bytes result" where
  "bundle_part child = (case child of None \<Rightarrow> Inl (Errf ''omemo: missing bundle element'') | Some c \<Rightarrow> decode_text (Text c))"

definition parse_prekey :: "node \<Rightarrow> pre_key result" where
  "parse_prekey c =
     (case parse_uint32 (or_empty (AttrValue ''preKeyId'' c)) of
        Inl e \<Rightarrow> Inl e
      | Inr i \<Rightarrow> (case decode_text (Text c) of Inl e \<Rightarrow> Inl e | Inr public \<Rightarrow> Inr (PreKey i public)))"

definition parse_prekeys :: "node option \<Rightarrow> pre_key list result" where
  "parse_prekeys prekeys =
     (case prekeys of None \<Rightarrow> Inr []
      | Some p \<Rightarrow> map_result parse_prekey (filter (\<lambda>c. Local (Name c) = ''preKeyPublic'') (Children p)))"

definition bundle_complete :: "key_bundle \<Rightarrow> bool" where
  "bundle_complete b \<longleftrightarrow> bd_IdentityKey b \<noteq> [] \<and> bd_SignedPreKey b \<noteq> [] \<and> bd_SignedPreKeySignature b \<noteq> []"

definition ParseBundle :: "node \<Rightarrow> key_bundle result" where
  "ParseBundle node =
     (if Space (Name node) \<noteq> OmemoNS \<or> Local (Name node) \<noteq> ''bundle'' then Inl (Errf ''omemo: invalid bundle payload'')
      else case Child OmemoNS ''signedPreKeyPublic'' node of
        None \<Rightarrow> Inl (Errf ''omemo: bundle has no signed pre-key'')
      | Some signedKey \<Rightarrow>
          (case parse_uint32 (or_empty (AttrValue ''signedPreKeyId'' signedKey)) of
             Inl e \<Rightarrow> Inl (Errorf ''omemo: invalid signed pre-key ID: %w'' [] (Some e))
           | Inr i \<Rightarrow>
               (case bundle_part (Some signedKey) of Inl e \<Rightarrow> Inl e
                | Inr spk \<Rightarrow>
                    (case bundle_part (Child OmemoNS ''signedPreKeySignature'' node) of Inl e \<Rightarrow> Inl e
                     | Inr sig \<Rightarrow>
                         (case bundle_part (Child OmemoNS ''identityKey'' node) of Inl e \<Rightarrow> Inl e
                          | Inr ik \<Rightarrow>
                              (case parse_prekeys (Child OmemoNS ''prekeys'' node) of Inl e \<Rightarrow> Inl e
                               | Inr ks \<Rightarrow>
                                   let b = \<lparr>bd_IdentityKey = ik, bd_SignedPreKeyID = i, bd_SignedPreKey = spk,
                                            bd_SignedPreKeySignature = sig, bd_PreKeys = ks\<rparr>
                                   in if bundle_complete b then Inr b else Inl (Errf ''omemo: incomplete bundle'')))))))"

definition key_node :: "wrapped_key \<Rightarrow> node" where
  "key_node k =
     SetAttrOpt ''prekey'' (if wk_PreKey k then Some ''true'' else None)
       (SetAttr ''rid'' (DeviceID_String (wk_Recipient k)) (NewTextNode OmemoNS ''key'' (EncodeToString (wk_Data k))))"

definition header_of :: "envelope \<Rightarrow> node" where
  "header_of e =
     AddChild (NewTextNode OmemoNS ''iv'' (EncodeToString (env_IV e)))
       (AddChildren (map key_node (env_Keys e))
       (SetAttr ''sid'' (DeviceID_String (env_Sender e)) (NewNode OmemoNS ''header'')))"

definition Envelope_ToNode :: "envelope \<Rightarrow> node" where
  "Envelope_ToNode e =
     AddChildIf (env_Payload e \<noteq> []) (NewTextNode OmemoNS ''payload'' (EncodeToString (env_Payload e)))
       (AddChild (header_of e) (NewNode OmemoNS ''encrypted''))"

definition parse_key :: "node \<Rightarrow> wrapped_key result" where
  "parse_key c =
     (case parseDeviceID (or_empty (AttrValue ''rid'' c)) of
        Inl e \<Rightarrow> Inl e
      | Inr device \<Rightarrow>
          (case decode_text (Text c) of
             Inl _ \<Rightarrow> Inl (Wrapf ''%w: invalid key encoding'' ErrInvalidEnvelope)
           | Inr data \<Rightarrow> Inr \<lparr>wk_Recipient = device,
                             wk_PreKey = (AttrValue ''prekey'' c = Some ''true'' \<or> AttrValue ''prekey'' c = Some ''1''),
                             wk_Data = data\<rparr>))"

definition header_child :: "envelope \<Rightarrow> node \<Rightarrow> envelope result" where
  "header_child e c =
     (if Local (Name c) = ''key'' then map_value (\<lambda>k. e\<lparr>env_Keys := env_Keys e @ [k]\<rparr>) (parse_key c)
      else if Local (Name c) = ''iv'' then
        (case decode_text (Text c) of
           Inl _ \<Rightarrow> Inl (Wrapf ''%w: invalid IV encoding'' ErrInvalidEnvelope)
         | Inr iv \<Rightarrow> Inr (e\<lparr>env_IV := iv\<rparr>))
      else Inr e)"

definition parse_payload :: "node option \<Rightarrow> bytes result" where
  "parse_payload payload =
     (case payload of None \<Rightarrow> Inr []
      | Some p \<Rightarrow> (case decode_text (Text p) of
           Inl _ \<Rightarrow> Inl (Wrapf ''%w: invalid payload encoding'' ErrInvalidEnvelope) | Inr b \<Rightarrow> Inr b))"

definition ParseEnvelope :: "node \<Rightarrow> envelope result" where
  "ParseEnvelope node =
     (if Space (Name node) \<noteq> OmemoNS \<or> Local (Name node) \<noteq> ''encrypted'' then Inl (Sentinel ErrInvalidEnvelope)
      else case Child OmemoNS ''header'' node of
        None \<Rightarrow> Inl (Wrapf ''%w: missing header'' ErrInvalidEnvelope)
      | Some header \<Rightarrow>
          (case parseDeviceID (or_empty (AttrValue ''sid'' header)) of
             Inl e \<Rightarrow> Inl e
           | Inr sender \<Rightarrow>
               (case fold_result header_child \<lparr>env_Sender = sender, env_IV = [], env_Payload = [], env_Keys = []\<rparr> (Children header) of
                  Inl e \<Rightarrow> Inl e
                | Inr e \<Rightarrow>
                    (case parse_payload (Child OmemoNS ''payload'' node) of
                       Inl err \<Rightarrow> Inl err
                     | Inr payload \<Rightarrow>
                         if env_IV e = [] \<or> env_Keys e = [] then Inl (Wrapf ''%w: incomplete envelope'' ErrInvalidEnvelope)
                         else Inr (e\<lparr>env_Payload := payload\<rparr>)))))"

definition KeyFor :: "envelope \<Rightarrow> device_id \<Rightarrow> wrapped_key option" where
  "KeyFor e device = find (\<lambda>k. wk_Recipient k = device) (env_Keys e)"

subsection \<open>The codecs\<close>

lemma parse_uint32_Format [simp]: "parse_uint32 (FormatNat 10 (unat (i :: 32 word))) = Inr i"
proof -
  have "unat i < 2 ^ 32" using unsigned_less[of i] by simp
  then show ?thesis by (simp add: parse_uint32_def ParseUint_FormatNat)
qed

lemma parseDeviceID_String [simp]: "i \<noteq> 0 \<Longrightarrow> parseDeviceID (DeviceID_String i) = Inr i"
  by (simp add: parseDeviceID_def DeviceID_String_def TrimSpace_id)

lemma parseDeviceID_nonzero: "parseDeviceID s = Inr i \<Longrightarrow> i \<noteq> 0"
  by (auto simp: parseDeviceID_def split: sum.splits if_splits)

lemma filter_device_nodes: "filter (\<lambda>c. Local (Name c) = ''device'') (map device_node ds) = map device_node ds"
  by (induction ds) (simp_all add: device_node_def)

interpretation device_list_codec: payload_codec DeviceList_ToNode ParseDeviceList "\<lambda>ds. distinct ds \<and> 0 \<notin> set ds"
proof
  fix ds :: "device_id list" and n :: node
  have "map_result (\<lambda>c. parseDeviceID (or_empty (AttrValue ''id'' c))) (map device_node es) = Inr es" if "0 \<notin> set es" for es
    using that by (induction es) (simp_all add: device_node_def)
  then show "ParseDeviceList (DeviceList_ToNode ds) = Inr ds" if "distinct ds \<and> 0 \<notin> set ds"
    using that by (simp add: ParseDeviceList_def DeviceList_ToNode_def filter_device_nodes uniqueDevices_id)
  show "well_built (DeviceList_ToNode ds)"
    unfolding DeviceList_ToNode_def by (intro inv_intros) (auto simp: device_node_def intro!: inv_intros)
  show "ParseDeviceList (strip_xmlns n) = ParseDeviceList n"
    by (simp add: ParseDeviceList_def filter_strip map_result_strip)
qed

lemma key_nodes [simp]:
  "Name (prekey_node k) = XName OmemoNS ''preKeyPublic''" "Name (key_node w) = XName OmemoNS ''key''"
  "parse_prekey (prekey_node k) = Inr k"
  by (cases k; simp add: prekey_node_def key_node_def parse_prekey_def)+

lemma parse_key_node [simp]: "wk_Recipient k \<noteq> 0 \<Longrightarrow> parse_key (key_node k) = Inr k"
  by (cases k) (simp add: parse_key_def key_node_def)

lemma filter_prekey_nodes: "filter (\<lambda>c. Local (Name c) = ''preKeyPublic'') (map prekey_node ks) = map prekey_node ks"
  by (induction ks) simp_all

lemma map_result_inverse: "(\<And>x. x \<in> set xs \<Longrightarrow> f (g x) = Inr x) \<Longrightarrow> map_result f (map g xs) = Inr xs"
  by (induction xs) simp_all

lemma key_readers_blind:
  "parse_prekey (strip_xmlns c) = parse_prekey c" "parse_key (strip_xmlns c) = parse_key c"
  "bundle_part (map_option strip_xmlns p) = bundle_part p" "parse_payload (map_option strip_xmlns p) = parse_payload p"
  by (auto simp: parse_prekey_def parse_key_def bundle_part_def parse_payload_def split: option.splits sum.splits)

lemma header_child_blind: "header_child e (strip_xmlns c) = header_child e c"
  by (simp add: header_child_def key_readers_blind)

lemmas omemo_readers_blind = key_readers_blind header_child_blind

lemma parse_prekeys_blind: "parse_prekeys (map_option strip_xmlns p) = parse_prekeys p"
  by (cases p) (simp_all add: parse_prekeys_def filter_strip map_result_strip omemo_readers_blind)

lemma Bundle_children:
  "Child OmemoNS ''signedPreKeyPublic'' (Bundle_ToNode b)
     = Some (SetAttr ''signedPreKeyId'' (FormatNat 10 (unat (bd_SignedPreKeyID b)))
            (NewTextNode OmemoNS ''signedPreKeyPublic'' (EncodeToString (bd_SignedPreKey b))))"
  "Child OmemoNS ''signedPreKeySignature'' (Bundle_ToNode b)
     = Some (NewTextNode OmemoNS ''signedPreKeySignature'' (EncodeToString (bd_SignedPreKeySignature b)))"
  "Child OmemoNS ''identityKey'' (Bundle_ToNode b) = Some (NewTextNode OmemoNS ''identityKey'' (EncodeToString (bd_IdentityKey b)))"
  "Child OmemoNS ''prekeys'' (Bundle_ToNode b) = Some (AddChildren (map prekey_node (bd_PreKeys b)) (NewNode OmemoNS ''prekeys''))"
  "Name (Bundle_ToNode b) = XName OmemoNS ''bundle''"
  by (simp_all add: Bundle_ToNode_def Child_eq_find)

interpretation bundle_codec: payload_codec Bundle_ToNode ParseBundle bundle_complete
proof
  fix b :: key_bundle and n :: node
  show "ParseBundle (Bundle_ToNode b) = Inr b" if "bundle_complete b"
    using that by (cases b)
      (simp add: ParseBundle_def Bundle_children bundle_part_def parse_prekeys_def filter_prekey_nodes map_result_inverse)
  show "well_built (Bundle_ToNode b)"
    unfolding Bundle_ToNode_def by (intro inv_intros) (auto simp: prekey_node_def intro!: inv_intros)
  show "ParseBundle (strip_xmlns n) = ParseBundle n"
  proof (cases "Child OmemoNS ''signedPreKeyPublic'' n")
    case (Some c)
    then show ?thesis
      using omemo_readers_blind(3)[of "Some c"] by (simp add: ParseBundle_def omemo_readers_blind parse_prekeys_blind cong: sum.case_cong)
  qed (simp add: ParseBundle_def)
qed

text \<open>An envelope survives when its device identifiers are not zero and it has a key and an IV.\<close>

definition envelope_valid :: "envelope \<Rightarrow> bool" where
  "envelope_valid e \<longleftrightarrow> env_Sender e \<noteq> 0 \<and> (\<forall>k\<in>set (env_Keys e). wk_Recipient k \<noteq> 0) \<and> env_IV e \<noteq> [] \<and> env_Keys e \<noteq> []"

lemma fold_header_keys:
  "\<forall>k\<in>set ks. wk_Recipient k \<noteq> 0 \<Longrightarrow>
   fold_result header_child e (map key_node ks) = Inr (e\<lparr>env_Keys := env_Keys e @ ks\<rparr>)"
  by (induction ks arbitrary: e) (simp_all add: header_child_def)

lemma Envelope_children:
  "Child OmemoNS ''header'' (Envelope_ToNode e) = Some (header_of e)"
  "Child OmemoNS ''payload'' (Envelope_ToNode e)
     = (if env_Payload e \<noteq> [] then Some (NewTextNode OmemoNS ''payload'' (EncodeToString (env_Payload e))) else None)"
  "Name (Envelope_ToNode e) = XName OmemoNS ''encrypted''"
  by (simp_all add: Envelope_ToNode_def Child_eq_find header_of_def)

interpretation envelope_codec: payload_codec Envelope_ToNode ParseEnvelope envelope_valid
proof
  fix e :: envelope and n :: node
  show "ParseEnvelope (Envelope_ToNode e) = Inr e" if "envelope_valid e"
  proof -
    have p: "parse_payload (Child OmemoNS ''payload'' (Envelope_ToNode e)) = Inr (env_Payload e)"
      by (simp add: Envelope_children parse_payload_def)
    have "parseDeviceID (or_empty (AttrValue ''sid'' (header_of e))) = Inr (env_Sender e)"
      using that by (simp add: header_of_def envelope_valid_def)
    moreover have "fold_result header_child e0 (Children (header_of e)) = Inr (e0\<lparr>env_Keys := env_Keys e0 @ env_Keys e, env_IV := env_IV e\<rparr>)" for e0
      using that by (simp add: header_of_def envelope_valid_def fold_result_append fold_header_keys header_child_def)
    ultimately show ?thesis
      using that p by (simp add: ParseEnvelope_def Envelope_children envelope_valid_def)
  qed
  show "well_built (Envelope_ToNode e)"
    unfolding Envelope_ToNode_def header_of_def by (intro inv_intros) (auto simp: key_node_def intro!: inv_intros)
  show "ParseEnvelope (strip_xmlns n) = ParseEnvelope n"
    by (cases "Child OmemoNS ''header'' n")
      (simp_all add: ParseEnvelope_def fold_result_strip omemo_readers_blind cong: sum.case_cong)
qed

subsection \<open>Keys of the maps\<close>

lemma digits_no_colon: "CHR '':'' \<notin> set (DeviceID_String i)"
proof
  assume "CHR '':'' \<in> set (DeviceID_String i)"
  then obtain d where "d < 10" "CHR '':'' = digit_char d" using FormatNat_digits[of _ "unat i"] by (auto simp: DeviceID_String_def)
  then have "digit_val CHR '':'' = Some d" by simp
  then show False by (simp add: digit_val_def split: if_splits)
qed

lemma Address_String_split: "LastIndexByte (Address_String a) CHR '':'' = Some (length (ad_JID a))"
  unfolding Address_String_def append_Cons append_Nil by (rule LastIndexByte_split[OF digits_no_colon])

definition parse_address :: "string \<Rightarrow> address option" where
  "parse_address key =
     (case LastIndexByte key CHR '':'' of
        None \<Rightarrow> None
      | Some separator \<Rightarrow>
          if separator = 0 \<or> separator = length key - 1 then None
          else case parse_uint32 (drop (separator + 1) key) of
            Inl _ \<Rightarrow> None
          | Inr v \<Rightarrow> if v = 0 then None else Some (Address (take separator key) v))"

lemma parse_address_String: "ad_JID a \<noteq> [] \<Longrightarrow> ad_DeviceID a \<noteq> 0 \<Longrightarrow> parse_address (Address_String a) = Some a"
proof -
  assume a: "ad_JID a \<noteq> []" "ad_DeviceID a \<noteq> 0"
  have k: "Address_String a = ad_JID a @ CHR '':'' # DeviceID_String (ad_DeviceID a)" by (simp add: Address_String_def)
  have "DeviceID_String (ad_DeviceID a) \<noteq> []" by (simp add: DeviceID_String_def)
  then have "length (ad_JID a) \<noteq> length (Address_String a) - 1" unfolding k by (cases "DeviceID_String (ad_DeviceID a)") auto
  then show ?thesis
    using a unfolding parse_address_def Address_String_split by (simp add: k DeviceID_String_def)
qed

lemma Address_String_inj: "Address_String a = Address_String b \<Longrightarrow> a = b"
proof -
  assume e: "Address_String a = Address_String b"
  have n: "length (ad_JID a) = length (ad_JID b)" using Address_String_split[of a] Address_String_split[of b] e by simp
  have "ad_JID a = ad_JID b \<and> DeviceID_String (ad_DeviceID a) = DeviceID_String (ad_DeviceID b)"
    using e n by (simp add: Address_String_def)
  moreover have "parse_uint32 (DeviceID_String i) = Inr i" for i by (simp add: DeviceID_String_def)
  ultimately have "ad_DeviceID a = ad_DeviceID b" by (metis Inr_inject)
  then show "a = b" using \<open>_ \<and> _\<close> by (metis address.collapse)
qed

lemma Address_String_eq [simp]: "Address_String a = Address_String b \<longleftrightarrow> a = b"
  using Address_String_inj by blast

subsection \<open>The interface\<close>

record 's store_ops =
  so_OwnDeviceID :: "'s \<Rightarrow> device_id result \<times> 's"
  so_SetOwnDeviceID :: "device_id \<Rightarrow> 's \<Rightarrow> go_error option \<times> 's"
  so_DeviceList :: "string \<Rightarrow> 's \<Rightarrow> device_list option result"
  so_PutDeviceList :: "device_list \<Rightarrow> 's \<Rightarrow> go_error option \<times> 's"
  so_Bundle :: "address \<Rightarrow> 's \<Rightarrow> key_bundle option result"
  so_PutBundle :: "address \<Rightarrow> key_bundle \<Rightarrow> 's \<Rightarrow> go_error option \<times> 's"
  so_Trust :: "address \<Rightarrow> 's \<Rightarrow> string result"
  so_SetTrust :: "address \<Rightarrow> string \<Rightarrow> 's \<Rightarrow> go_error option \<times> 's"
  so_KnownAddresses :: "'s \<Rightarrow> address list result"

subsection \<open>The in-memory store\<close>

record memory_data =
  md_Own :: device_id
  md_Lists :: "string \<Rightarrow> device_list option"
  md_Bundles :: "string \<Rightarrow> key_bundle option"
  md_Trust :: "string \<Rightarrow> string option"

definition NewMemoryStore :: memory_data where
  "NewMemoryStore = \<lparr>md_Own = 0, md_Lists = Map.empty, md_Bundles = Map.empty, md_Trust = Map.empty\<rparr>"

definition validTrust :: "string \<Rightarrow> bool" where
  "validTrust v \<longleftrightarrow> v \<in> {TrustUndecided, TrustTrusted, TrustVerified, TrustDistrusted, TrustIgnored}"

text \<open>A fresh identifier from four random bytes, big-endian, with the top bit cleared and zero avoided.\<close>

definition random_device_id :: "bytes \<Rightarrow> device_id" where
  "random_device_id raw =
     (let i = foldl (\<lambda>acc c. push_bit 8 acc OR of_char c) (0 :: 32 word) raw AND 0x7fffffff
      in if i = 0 then 1 else i)"

definition mem_OwnDeviceID :: "bytes result \<Rightarrow> memory_data \<Rightarrow> device_id result \<times> memory_data" where
  "mem_OwnDeviceID raw s =
     (if md_Own s \<noteq> 0 then (Inr (md_Own s), s)
      else case raw of
        Inl e \<Rightarrow> (Inl e, s)
      | Inr b \<Rightarrow> (Inr (random_device_id b), s\<lparr>md_Own := random_device_id b\<rparr>))"

definition mem_SetOwnDeviceID :: "device_id \<Rightarrow> memory_data \<Rightarrow> go_error option \<times> memory_data" where
  "mem_SetOwnDeviceID i s =
     (if i = 0 then (Some (Errf ''omemo: device ID must be nonzero''), s) else (None, s\<lparr>md_Own := i\<rparr>))"

definition mem_DeviceList :: "string \<Rightarrow> memory_data \<Rightarrow> device_list option" where
  "mem_DeviceList jid s = md_Lists s jid"

definition mem_PutDeviceList :: "gotime \<Rightarrow> device_list \<Rightarrow> memory_data \<Rightarrow> memory_data" where
  "mem_PutDeviceList now l s =
     s\<lparr>md_Lists := (md_Lists s)(dl_JID l \<mapsto>
         l\<lparr>dl_Devices := uniqueDevices (dl_Devices l),
           dl_FetchedAt := (if IsZero (dl_FetchedAt l) then now else dl_FetchedAt l)\<rparr>)\<rparr>"

definition mem_Bundle :: "address \<Rightarrow> memory_data \<Rightarrow> key_bundle option" where
  "mem_Bundle a s = md_Bundles s (Address_String a)"

definition mem_PutBundle :: "address \<Rightarrow> key_bundle \<Rightarrow> memory_data \<Rightarrow> memory_data" where
  "mem_PutBundle a b s = s\<lparr>md_Bundles := (md_Bundles s)(Address_String a \<mapsto> b)\<rparr>"

definition mem_Trust :: "address \<Rightarrow> memory_data \<Rightarrow> string" where
  "mem_Trust a s = (case md_Trust s (Address_String a) of None \<Rightarrow> TrustUndecided | Some v \<Rightarrow> v)"

definition mem_SetTrust :: "address \<Rightarrow> string \<Rightarrow> memory_data \<Rightarrow> go_error option \<times> memory_data" where
  "mem_SetTrust a level s =
     (if \<not> validTrust level then (Some (Errorf ''omemo: invalid trust level %q'' [level] None), s)
      else (None, s\<lparr>md_Trust := (md_Trust s)(Address_String a \<mapsto> level)\<rparr>))"

text \<open>\<^verbatim>\<open>KnownAddresses\<close> walks the keys in the order of a Go map, which the argument \<open>order\<close> stands for.\<close>

definition mem_keys :: "memory_data \<Rightarrow> string set" where
  "mem_keys s = dom (md_Bundles s) \<union> dom (md_Trust s)"

definition mem_KnownAddresses :: "(string set \<Rightarrow> string list) \<Rightarrow> memory_data \<Rightarrow> address list" where
  "mem_KnownAddresses order s = List.map_filter parse_address (order (mem_keys s))"

definition memory_store :: "bytes result \<Rightarrow> gotime \<Rightarrow> (string set \<Rightarrow> string list) \<Rightarrow> memory_data store_ops" where
  "memory_store raw now order =
     \<lparr>so_OwnDeviceID = mem_OwnDeviceID raw, so_SetOwnDeviceID = mem_SetOwnDeviceID,
      so_DeviceList = (\<lambda>jid s. Inr (mem_DeviceList jid s)),
      so_PutDeviceList = (\<lambda>l s. (None, mem_PutDeviceList now l s)),
      so_Bundle = (\<lambda>a s. Inr (mem_Bundle a s)), so_PutBundle = (\<lambda>a b s. (None, mem_PutBundle a b s)),
      so_Trust = (\<lambda>a s. Inr (mem_Trust a s)), so_SetTrust = mem_SetTrust,
      so_KnownAddresses = (\<lambda>s. Inr (mem_KnownAddresses order s))\<rparr>"

subsection \<open>The JSON store\<close>

text \<open>
  The store with the bytes of its file. \<open>io\<close> is the outcome of \<^verbatim>\<open>persist\<close> before the rename took
  effect (creating the directory, writing, changing the mode and renaming the temporary file);
  \<open>encode\<close> and \<open>decode\<close> are \<^verbatim>\<open>encoding/json\<close>.
\<close>

record json_store =
  js_mem :: memory_data
  js_file :: "bytes option"

definition OpenJSONStore :: "(bytes \<Rightarrow> memory_data result) \<Rightarrow> bytes option result \<Rightarrow> json_store result" where
  "OpenJSONStore decode file =
     (case file of
        Inl e \<Rightarrow> Inl e
      | Inr None \<Rightarrow> Inr \<lparr>js_mem = NewMemoryStore, js_file = None\<rparr>
      | Inr (Some data) \<Rightarrow>
          (case decode data of
             Inl e \<Rightarrow> Inl (Errorf ''omemo: decode store: %w'' [] (Some e))
           | Inr m \<Rightarrow> Inr \<lparr>js_mem = m, js_file = Some data\<rparr>))"

definition persist :: "(memory_data \<Rightarrow> bytes result) \<Rightarrow> go_error option \<Rightarrow> json_store \<Rightarrow> go_error option \<times> json_store" where
  "persist encode io s =
     (case encode (js_mem s) of
        Inl e \<Rightarrow> (Some e, s)
      | Inr data \<Rightarrow> (case io of Some e \<Rightarrow> (Some e, s) | None \<Rightarrow> (None, s\<lparr>js_file := Some data\<rparr>)))"

text \<open>The mutators: the memory operation, and then \<^verbatim>\<open>persist\<close> when it succeeded.\<close>

definition persisted ::
  "(memory_data \<Rightarrow> bytes result) \<Rightarrow> go_error option \<Rightarrow> (memory_data \<Rightarrow> go_error option \<times> memory_data)
    \<Rightarrow> json_store \<Rightarrow> go_error option \<times> json_store" where
  "persisted encode io f s =
     (case f (js_mem s) of
        (Some e, m) \<Rightarrow> (Some e, s\<lparr>js_mem := m\<rparr>)
      | (None, m) \<Rightarrow> persist encode io (s\<lparr>js_mem := m\<rparr>))"

definition json_OwnDeviceID ::
  "(memory_data \<Rightarrow> bytes result) \<Rightarrow> go_error option \<Rightarrow> bytes result \<Rightarrow> json_store \<Rightarrow> device_id result \<times> json_store" where
  "json_OwnDeviceID encode io raw s =
     (case mem_OwnDeviceID raw (js_mem s) of
        (Inl e, m) \<Rightarrow> (Inl e, s\<lparr>js_mem := m\<rparr>)
      | (Inr i, m) \<Rightarrow>
          if md_Own (js_mem s) = 0 then
            (case persist encode io (s\<lparr>js_mem := m\<rparr>) of (Some e, s') \<Rightarrow> (Inl e, s') | (None, s') \<Rightarrow> (Inr i, s'))
          else (Inr i, s\<lparr>js_mem := m\<rparr>))"

definition json_SetOwnDeviceID ::
  "(memory_data \<Rightarrow> bytes result) \<Rightarrow> go_error option \<Rightarrow> device_id \<Rightarrow> json_store \<Rightarrow> go_error option \<times> json_store" where
  "json_SetOwnDeviceID encode io i = persisted encode io (mem_SetOwnDeviceID i)"

definition json_PutDeviceList ::
  "(memory_data \<Rightarrow> bytes result) \<Rightarrow> go_error option \<Rightarrow> gotime \<Rightarrow> device_list \<Rightarrow> json_store \<Rightarrow> go_error option \<times> json_store" where
  "json_PutDeviceList encode io now l = persisted encode io (\<lambda>m. (None, mem_PutDeviceList now l m))"

definition json_PutBundle ::
  "(memory_data \<Rightarrow> bytes result) \<Rightarrow> go_error option \<Rightarrow> address \<Rightarrow> key_bundle \<Rightarrow> json_store \<Rightarrow> go_error option \<times> json_store" where
  "json_PutBundle encode io a b = persisted encode io (\<lambda>m. (None, mem_PutBundle a b m))"

definition json_SetTrust ::
  "(memory_data \<Rightarrow> bytes result) \<Rightarrow> go_error option \<Rightarrow> address \<Rightarrow> string \<Rightarrow> json_store \<Rightarrow> go_error option \<times> json_store" where
  "json_SetTrust encode io a l = persisted encode io (mem_SetTrust a l)"

lemmas json_mutators = json_SetOwnDeviceID_def json_PutDeviceList_def json_PutBundle_def json_SetTrust_def

definition json_store_ops ::
  "(memory_data \<Rightarrow> bytes result) \<Rightarrow> go_error option \<Rightarrow> bytes result \<Rightarrow> gotime \<Rightarrow> (string set \<Rightarrow> string list) \<Rightarrow> json_store store_ops" where
  "json_store_ops encode io raw now order =
     \<lparr>so_OwnDeviceID = json_OwnDeviceID encode io raw,
      so_SetOwnDeviceID = json_SetOwnDeviceID encode io,
      so_DeviceList = (\<lambda>jid s. Inr (mem_DeviceList jid (js_mem s))),
      so_PutDeviceList = json_PutDeviceList encode io now,
      so_Bundle = (\<lambda>a s. Inr (mem_Bundle a (js_mem s))),
      so_PutBundle = json_PutBundle encode io,
      so_Trust = (\<lambda>a s. Inr (mem_Trust a (js_mem s))),
      so_SetTrust = json_SetTrust encode io,
      so_KnownAddresses = (\<lambda>s. Inr (mem_KnownAddresses order (js_mem s)))\<rparr>"

subsection \<open>What the manager relies on\<close>

text \<open>
  The laws of a store: trust is always a valid level, only \<^verbatim>\<open>SetTrust\<close> changes it and only for its
  address, and \<^verbatim>\<open>KnownAddresses\<close> lists every proper address with a decided level. \<open>ok\<close> is the
  store's invariant; a mutator keeps it also when it reports an error.
\<close>

definition proper_address :: "address \<Rightarrow> bool" where
  "proper_address a \<longleftrightarrow> ad_JID a \<noteq> [] \<and> ad_DeviceID a \<noteq> 0"

locale omemo_store =
  fixes ops :: "'s store_ops"
    and ok :: "'s \<Rightarrow> bool"
  assumes trust_valid: "ok s \<Longrightarrow> \<exists>l. so_Trust ops a s = Inr l \<and> validTrust l"
    and known_total: "ok s \<Longrightarrow> \<exists>as. so_KnownAddresses ops s = Inr as"
    and known_complete: "ok s \<Longrightarrow> so_KnownAddresses ops s = Inr as \<Longrightarrow> proper_address a \<Longrightarrow>
      so_Trust ops a s \<noteq> Inr TrustUndecided \<Longrightarrow> a \<in> set as"
    and known_proper: "ok s \<Longrightarrow> so_KnownAddresses ops s = Inr as \<Longrightarrow> a \<in> set as \<Longrightarrow> proper_address a"
    and set_trust: "ok s \<Longrightarrow> so_SetTrust ops a l s = (None, s') \<Longrightarrow>
      ok s' \<and> so_Trust ops b s' = (if b = a then Inr l else so_Trust ops b s)"
    and put_list: "ok s \<Longrightarrow> so_PutDeviceList ops dl s = (e, s') \<Longrightarrow> ok s' \<and> so_Trust ops a s' = so_Trust ops a s"
    and put_bundle: "ok s \<Longrightarrow> so_PutBundle ops c bd s = (e, s') \<Longrightarrow> ok s' \<and> so_Trust ops a s' = so_Trust ops a s"
    and own_id: "ok s \<Longrightarrow> so_OwnDeviceID ops s = (i, s') \<Longrightarrow> ok s' \<and> so_Trust ops a s' = so_Trust ops a s"

definition trust_ok :: "(string set \<Rightarrow> string list) \<Rightarrow> memory_data \<Rightarrow> bool" where
  "trust_ok order s \<longleftrightarrow> finite (mem_keys s) \<and> (\<forall>v\<in>ran (md_Trust s). validTrust v) \<and> (\<forall>K. finite K \<longrightarrow> set (order K) = K)"

lemma mem_Trust_valid: "trust_ok order s \<Longrightarrow> validTrust (mem_Trust a s)"
  by (cases "md_Trust s (Address_String a)") (auto simp: mem_Trust_def trust_ok_def ranI, simp add: validTrust_def)

lemma mem_known_complete:
  assumes "trust_ok order s" "proper_address a" "mem_Trust a s \<noteq> TrustUndecided"
  shows "a \<in> set (mem_KnownAddresses order s)"
proof -
  have "Address_String a \<in> mem_keys s" using assms(3) by (auto simp: mem_Trust_def mem_keys_def split: option.splits)
  then have "Address_String a \<in> set (order (mem_keys s))" using assms(1) by (simp add: trust_ok_def)
  then show ?thesis
    using parse_address_String[of a] assms(2) by (force simp: mem_KnownAddresses_def proper_address_def List.map_filter_def)
qed

lemma parse_address_proper: "parse_address k = Some a \<Longrightarrow> proper_address a"
  by (auto simp: parse_address_def proper_address_def split: option.splits if_splits sum.splits)

lemma mem_known_proper: "a \<in> set (mem_KnownAddresses order s) \<Longrightarrow> proper_address a"
  by (auto simp: mem_KnownAddresses_def List.map_filter_def dest: parse_address_proper split: if_splits)

lemma mem_operations:
  "trust_ok order s \<Longrightarrow> mem_SetTrust a l s = (None, s') \<Longrightarrow> trust_ok order s' \<and> mem_Trust b s' = (if b = a then l else mem_Trust b s)"
  "trust_ok order s \<Longrightarrow> trust_ok order (mem_PutDeviceList now dl s) \<and> mem_Trust b (mem_PutDeviceList now dl s) = mem_Trust b s"
  "trust_ok order s \<Longrightarrow> trust_ok order (mem_PutBundle a bd s) \<and> mem_Trust b (mem_PutBundle a bd s) = mem_Trust b s"
  "trust_ok order s \<Longrightarrow> mem_OwnDeviceID raw s = (i, s') \<Longrightarrow> trust_ok order s' \<and> mem_Trust b s' = mem_Trust b s"
proof -
  assume k: "trust_ok order s"
  show "trust_ok order (mem_PutDeviceList now dl s) \<and> mem_Trust b (mem_PutDeviceList now dl s) = mem_Trust b s"
    using k by (simp add: mem_PutDeviceList_def trust_ok_def mem_keys_def mem_Trust_def)
  show "trust_ok order (mem_PutBundle a bd s) \<and> mem_Trust b (mem_PutBundle a bd s) = mem_Trust b s"
    using k by (simp add: mem_PutBundle_def trust_ok_def mem_keys_def mem_Trust_def)
  show "trust_ok order s' \<and> mem_Trust b s' = mem_Trust b s" if "mem_OwnDeviceID raw s = (i, s')"
  proof -
    have "s' = s \<or> (\<exists>j. s' = s\<lparr>md_Own := j\<rparr>)" using that by (auto simp: mem_OwnDeviceID_def split: if_splits sum.splits)
    then show ?thesis using k by (auto simp: trust_ok_def mem_keys_def mem_Trust_def)
  qed
  show "trust_ok order s' \<and> mem_Trust b s' = (if b = a then l else mem_Trust b s)" if "mem_SetTrust a l s = (None, s')"
  proof -
    have l: "validTrust l" "s' = s\<lparr>md_Trust := (md_Trust s)(Address_String a \<mapsto> l)\<rparr>"
      using that by (auto simp: mem_SetTrust_def split: if_splits)
    have "validTrust v" if "v \<in> ran ((md_Trust s)(Address_String a \<mapsto> l))" for v
      using that k l(1) by (auto simp: trust_ok_def ran_def split: if_splits)
    then show ?thesis using k l(2) by (simp add: trust_ok_def mem_keys_def mem_Trust_def)
  qed
qed

interpretation memory: omemo_store "memory_store raw now order" "trust_ok order" for raw now order
proof
  fix s s' :: memory_data and a b c :: address and as l e i dl bd
  show "\<exists>l. so_Trust (memory_store raw now order) a s = Inr l \<and> validTrust l" if "trust_ok order s"
    using mem_Trust_valid[OF that] by (simp add: memory_store_def)
  show "a \<in> set as" if "trust_ok order s" "so_KnownAddresses (memory_store raw now order) s = Inr as" "proper_address a"
    "so_Trust (memory_store raw now order) a s \<noteq> Inr TrustUndecided"
    using that mem_known_complete by (auto simp: memory_store_def)
  show "proper_address a" if "so_KnownAddresses (memory_store raw now order) s = Inr as" "a \<in> set as"
    using that mem_known_proper by (auto simp: memory_store_def)
  show "trust_ok order s' \<and> so_Trust (memory_store raw now order) b s'
      = (if b = a then Inr l else so_Trust (memory_store raw now order) b s)"
    if "trust_ok order s" "so_SetTrust (memory_store raw now order) a l s = (None, s')"
    using that mem_operations(1) by (auto simp: memory_store_def)
  show "trust_ok order s' \<and> so_Trust (memory_store raw now order) a s' = so_Trust (memory_store raw now order) a s"
    if "trust_ok order s" "so_PutDeviceList (memory_store raw now order) dl s = (e, s')"
    using that mem_operations(2)[OF that(1), of now dl a] by (simp add: memory_store_def)
  show "trust_ok order s' \<and> so_Trust (memory_store raw now order) a s' = so_Trust (memory_store raw now order) a s"
    if "trust_ok order s" "so_PutBundle (memory_store raw now order) c bd s = (e, s')"
    using that mem_operations(3)[OF that(1), of c bd a] by (simp add: memory_store_def)
  show "trust_ok order s' \<and> so_Trust (memory_store raw now order) a s' = so_Trust (memory_store raw now order) a s"
    if "trust_ok order s" "so_OwnDeviceID (memory_store raw now order) s = (i, s')"
    using that mem_operations(4)[OF that(1)] by (simp add: memory_store_def)
qed (simp_all add: memory_store_def)

text \<open>The JSON store keeps the same laws whatever happens to its file, and reopening it after a
  successful operation gives the same metadata.\<close>

lemma persist_mem: "js_mem (snd (persist encode io s)) = js_mem s"
  by (simp add: persist_def split: sum.splits option.splits)

lemma persisted_mem: "js_mem (snd (persisted encode io f s)) = snd (f (js_mem s))"
  by (auto simp: persisted_def persist_mem split: prod.splits option.splits)

lemma persisted_None: "persisted encode io f s = (None, s') \<Longrightarrow> f (js_mem s) = (None, js_mem s')"
proof -
  assume p: "persisted encode io f s = (None, s')"
  then have "fst (f (js_mem s)) = None" by (auto simp: persisted_def split: prod.splits option.splits)
  moreover have "js_mem s' = snd (f (js_mem s))" using persisted_mem[of encode io f s] p by simp
  ultimately show ?thesis by (metis prod.collapse)
qed

lemma json_OwnDeviceID_mem: "js_mem (snd (json_OwnDeviceID encode io raw s)) = snd (mem_OwnDeviceID raw (js_mem s))"
proof -
  have "js_mem s' = m" if "persist encode io (s\<lparr>js_mem := m\<rparr>) = (e, s')" for m e s'
    using persist_mem[of encode io "s\<lparr>js_mem := m\<rparr>"] that by simp
  then show ?thesis by (auto simp: json_OwnDeviceID_def split: prod.splits sum.splits option.splits)
qed

interpretation json: omemo_store "json_store_ops encode io raw now order" "\<lambda>s. trust_ok order (js_mem s)"
  for encode io raw now order
proof
  fix s s' :: json_store and a b c :: address and as l e i dl bd
  let ?o = "json_store_ops encode io raw now order"
  show "\<exists>l. so_Trust ?o a s = Inr l \<and> validTrust l" if "trust_ok order (js_mem s)"
    using mem_Trust_valid[OF that] by (simp add: json_store_ops_def json_mutators)
  show "a \<in> set as" if "trust_ok order (js_mem s)" "so_KnownAddresses ?o s = Inr as" "proper_address a"
    "so_Trust ?o a s \<noteq> Inr TrustUndecided"
    using that mem_known_complete by (auto simp: json_store_ops_def json_mutators)
  show "proper_address a" if "so_KnownAddresses ?o s = Inr as" "a \<in> set as"
    using that mem_known_proper by (auto simp: json_store_ops_def json_mutators)
  show "trust_ok order (js_mem s') \<and> so_Trust ?o b s' = (if b = a then Inr l else so_Trust ?o b s)"
    if "trust_ok order (js_mem s)" "so_SetTrust ?o a l s = (None, s')"
    using mem_operations(1)[OF that(1), of a l "js_mem s'" b] persisted_None[of encode io "mem_SetTrust a l" s s'] that(2)
    by (auto simp: json_store_ops_def json_mutators)
  show "trust_ok order (js_mem s') \<and> so_Trust ?o a s' = so_Trust ?o a s"
    if "trust_ok order (js_mem s)" "so_PutDeviceList ?o dl s = (e, s')"
    using mem_operations(2)[OF that(1), of now dl a] persisted_mem[of encode io "\<lambda>m. (None, mem_PutDeviceList now dl m)" s] that(2)
    by (simp add: json_store_ops_def json_mutators)
  show "trust_ok order (js_mem s') \<and> so_Trust ?o a s' = so_Trust ?o a s"
    if "trust_ok order (js_mem s)" "so_PutBundle ?o c bd s = (e, s')"
    using mem_operations(3)[OF that(1), of c bd a] persisted_mem[of encode io "\<lambda>m. (None, mem_PutBundle c bd m)" s] that(2)
    by (simp add: json_store_ops_def json_mutators)
  show "trust_ok order (js_mem s') \<and> so_Trust ?o a s' = so_Trust ?o a s"
    if "trust_ok order (js_mem s)" "so_OwnDeviceID ?o s = (i, s')"
    using mem_operations(4)[OF that(1), of raw _ "snd (mem_OwnDeviceID raw (js_mem s))" a]
      json_OwnDeviceID_mem[of encode io raw s] that(2)
    by (simp add: json_store_ops_def json_mutators) (metis prod.collapse)
qed (simp_all add: json_store_ops_def json_mutators)

lemma json_reopen:
  assumes "persisted encode io f s = (None, s')" "\<And>m data. encode m = Inr data \<Longrightarrow> decode data = Inr m"
  shows "OpenJSONStore decode (Inr (js_file s')) = Inr s'"
  using assms by (auto simp: persisted_def persist_def OpenJSONStore_def split: prod.splits option.splits sum.splits)

end
