(* ===== verification/Pubsub.thy ===== *)
theory Pubsub
  imports Exchange Forms Rsm
begin

text \<open>
  Publish-subscribe and personal eventing: \<^verbatim>\<open>src/xep/pubsub.go\<close>. The plugins keep no state of
  their own; the client's \<^verbatim>\<open>RequestIQ\<close> is an argument, and an event handler returns what it
  emits.
\<close>

abbreviation PubSubNS :: string where "PubSubNS \<equiv> ''http://jabber.org/protocol/pubsub''"
abbreviation PubSubEventNS :: string where "PubSubEventNS \<equiv> ''http://jabber.org/protocol/pubsub#event''"
abbreviation PubSubOwnerNS :: string where "PubSubOwnerNS \<equiv> ''http://jabber.org/protocol/pubsub#owner''"

subsection \<open>Data\<close>

record pubsub_item =
  pi_ID :: string
  pi_Publisher :: string
  pi_Payloads :: "node list"

record pubsub_subscription =
  psub_JID :: string
  psub_Node :: string
  psub_SubID :: string
  psub_State :: string

record pubsub_affiliation =
  paff_JID :: string
  paff_Node :: string
  paff_Affiliation :: string

record pubsub_event =
  pev_From :: string
  pev_Node :: string
  pev_Items :: "pubsub_item list"
  pev_Retracted :: "string list"
  pev_Purge :: bool
  pev_Delete :: bool
  pev_Redirect :: string
  pev_Subscription :: "pubsub_subscription option"
  pev_Configuration :: "form option"

definition pubsub_event0 :: pubsub_event where
  "pubsub_event0 = \<lparr>pev_From = [], pev_Node = [], pev_Items = [], pev_Retracted = [], pev_Purge = False, pev_Delete = False,
     pev_Redirect = [], pev_Subscription = None, pev_Configuration = None\<rparr>"

definition parse_pubsub_item :: "node \<Rightarrow> pubsub_item" where
  "parse_pubsub_item child =
     \<lparr>pi_ID = or_empty (AttrValue ''id'' child), pi_Publisher = or_empty (AttrValue ''publisher'' child),
      pi_Payloads = Children child\<rparr>"

definition parsePubSubItems :: "node \<Rightarrow> pubsub_item list" where
  "parsePubSubItems n = map parse_pubsub_item (filter (\<lambda>c. Local (Name c) = ''item'') (Children n))"

definition parseSubscription :: "node \<Rightarrow> pubsub_subscription" where
  "parseSubscription n =
     \<lparr>psub_JID = or_empty (AttrValue ''jid'' n), psub_Node = or_empty (AttrValue ''node'' n),
      psub_SubID = or_empty (AttrValue ''subid'' n), psub_State = or_empty (AttrValue ''subscription'' n)\<rparr>"

definition parse_affiliation :: "node \<Rightarrow> pubsub_affiliation" where
  "parse_affiliation n =
     \<lparr>paff_JID = or_empty (AttrValue ''jid'' n), paff_Node = or_empty (AttrValue ''node'' n),
      paff_Affiliation = or_empty (AttrValue ''affiliation'' n)\<rparr>"

subsection \<open>Requests\<close>

definition pubsub_iq :: "string \<Rightarrow> string \<Rightarrow> string \<Rightarrow> node list \<Rightarrow> iq" where
  "pubsub_iq kind ns service children =
     iq0\<lparr>iq_To := service, iq_Type := kind, iq_Payloads := [AddChildren children (NewNode ns ''pubsub'')]\<rparr>"

definition item_ref :: "string \<Rightarrow> node" where
  "item_ref i = SetAttr ''id'' i (NewNode PubSubNS ''item'')"

text \<open>Most operations report only whether the request succeeded.\<close>

definition iq_error :: "iq result \<Rightarrow> go_error option" where
  "iq_error answer = (case answer of Inl e \<Rightarrow> Some e | Inr _ \<Rightarrow> None)"

definition submit :: "form \<Rightarrow> node" where
  "submit f = Form_ToNode (f\<lparr>frm_Type := ''submit''\<rparr>)"

definition PubSub_GetItems ::
  "(iq \<Rightarrow> iq result) \<Rightarrow> string \<Rightarrow> string \<Rightarrow> int \<Rightarrow> string list \<Rightarrow> (pubsub_item list \<times> rsm option) result" where
  "PubSub_GetItems request service node limit itemIDs =
     (let items = SetAttrOpt ''max_items'' (if limit > 0 then Some (Itoa limit) else None)
                    (SetAttr ''node'' node (NewNode PubSubNS ''items''))
      in case request (pubsub_iq IQGet PubSubNS service [AddChildren (map item_ref itemIDs) items]) of
           Inl e \<Rightarrow> Inl e
         | Inr response \<Rightarrow>
             (case IQ_Payload response of
                None \<Rightarrow> Inl (Errf ''xep: missing pubsub response'')
              | Some payload \<Rightarrow>
                  (case Child PubSubNS ''items'' payload of
                     None \<Rightarrow> Inl (Errf ''xep: missing pubsub items'')
                   | Some itemsNode \<Rightarrow>
                       (case Child RSMNS ''set'' itemsNode of
                          None \<Rightarrow> Inr (parsePubSubItems itemsNode, None)
                        | Some set' \<Rightarrow> (case ParseRSM set' of Inl e \<Rightarrow> Inl e
                                        | Inr v \<Rightarrow> Inr (parsePubSubItems itemsNode, Some v))))))"

definition publish_item :: "string \<Rightarrow> node list \<Rightarrow> node" where
  "publish_item i payloads = AddChildren payloads (SetAttrIf ''id'' i (NewNode PubSubNS ''item''))"

definition published_id :: "node option \<Rightarrow> string option" where
  "published_id payload =
     (case payload of None \<Rightarrow> None
      | Some p \<Rightarrow> (case Child PubSubNS ''publish'' p of None \<Rightarrow> None
         | Some pr \<Rightarrow> (case Child PubSubNS ''item'' pr of None \<Rightarrow> None | Some i \<Rightarrow> AttrValue ''id'' i)))"

definition PubSub_Publish ::
  "(iq \<Rightarrow> iq result) \<Rightarrow> string \<Rightarrow> string \<Rightarrow> string \<Rightarrow> node list \<Rightarrow> form option \<Rightarrow> string result" where
  "PubSub_Publish request service node i payloads options =
     (case request (pubsub_iq IQSet PubSubNS service
             (AddChild (publish_item i payloads) (SetAttr ''node'' node (NewNode PubSubNS ''publish''))
              # opt_children (\<lambda>f. AddChild (submit f) (NewNode PubSubNS ''publish-options'')) options)) of
        Inl e \<Rightarrow> Inl e
      | Inr response \<Rightarrow> Inr (case published_id (IQ_Payload response) of None \<Rightarrow> i | Some v \<Rightarrow> v))"

definition PubSub_Retract :: "(iq \<Rightarrow> iq result) \<Rightarrow> string \<Rightarrow> string \<Rightarrow> bool \<Rightarrow> string list \<Rightarrow> go_error option" where
  "PubSub_Retract request service node notify ids =
     iq_error (request (pubsub_iq IQSet PubSubNS service
       [AddChildren (map item_ref ids)
          (SetAttrOpt ''notify'' (if notify then Some ''true'' else None) (SetAttr ''node'' node (NewNode PubSubNS ''retract'')))]))"

definition node_jid :: "string \<Rightarrow> string \<Rightarrow> string \<Rightarrow> node" where
  "node_jid local node jid = SetAttr ''jid'' jid (SetAttr ''node'' node (NewNode PubSubNS local))"

definition PubSub_Subscribe ::
  "(iq \<Rightarrow> iq result) \<Rightarrow> string \<Rightarrow> string \<Rightarrow> string \<Rightarrow> form option \<Rightarrow> pubsub_subscription result" where
  "PubSub_Subscribe request service node jid options =
     (case request (pubsub_iq IQSet PubSubNS service
             (node_jid ''subscribe'' node jid # opt_children (\<lambda>f. AddChild (submit f) (node_jid ''options'' node jid)) options)) of
        Inl e \<Rightarrow> Inl e
      | Inr response \<Rightarrow>
          (case IQ_Payload response of
             None \<Rightarrow> Inl (Errf ''xep: missing pubsub subscription'')
           | Some payload \<Rightarrow>
               (case Child PubSubNS ''subscription'' payload of
                  None \<Rightarrow> Inl (Errf ''xep: missing subscription element'')
                | Some n \<Rightarrow> Inr (parseSubscription n))))"

definition PubSub_Unsubscribe :: "(iq \<Rightarrow> iq result) \<Rightarrow> string \<Rightarrow> string \<Rightarrow> string \<Rightarrow> string \<Rightarrow> go_error option" where
  "PubSub_Unsubscribe request service node jid subID =
     iq_error (request (pubsub_iq IQSet PubSubNS service [SetAttrIf ''subid'' subID (node_jid ''unsubscribe'' node jid)]))"

text \<open>The two listings have the same shape: ask for \<open>many\<close>, collect the children named \<open>one\<close>.\<close>

definition listing :: "(iq \<Rightarrow> iq result) \<Rightarrow> string \<Rightarrow> string \<Rightarrow> string \<Rightarrow> string \<Rightarrow> (node \<Rightarrow> 'a) \<Rightarrow> 'a list result" where
  "listing request service node many one parse =
     (case request (pubsub_iq IQGet PubSubNS service [SetAttrIf ''node'' node (NewNode PubSubNS many)]) of
        Inl e \<Rightarrow> Inl e
      | Inr response \<Rightarrow>
          (case IQ_Payload response of
             None \<Rightarrow> Inl (Errf ''xep: missing pubsub response'')
           | Some payload \<Rightarrow>
               (case Child PubSubNS many payload of
                  None \<Rightarrow> Inr []
                | Some parent \<Rightarrow> Inr (map parse (filter (\<lambda>c. Local (Name c) = one) (Children parent))))))"

definition PubSub_Subscriptions :: "(iq \<Rightarrow> iq result) \<Rightarrow> string \<Rightarrow> string \<Rightarrow> pubsub_subscription list result" where
  "PubSub_Subscriptions request service node = listing request service node ''subscriptions'' ''subscription'' parseSubscription"

definition PubSub_Affiliations :: "(iq \<Rightarrow> iq result) \<Rightarrow> string \<Rightarrow> string \<Rightarrow> pubsub_affiliation list result" where
  "PubSub_Affiliations request service node = listing request service node ''affiliations'' ''affiliation'' parse_affiliation"

definition PubSub_CreateNode :: "(iq \<Rightarrow> iq result) \<Rightarrow> string \<Rightarrow> string \<Rightarrow> form option \<Rightarrow> go_error option" where
  "PubSub_CreateNode request service node config =
     iq_error (request (pubsub_iq IQSet PubSubNS service
       (SetAttrIf ''node'' node (NewNode PubSubNS ''create'')
        # opt_children (\<lambda>f. AddChild (submit f) (NewNode PubSubNS ''configure'')) config)))"

definition PubSub_DeleteNode :: "(iq \<Rightarrow> iq result) \<Rightarrow> string \<Rightarrow> string \<Rightarrow> string \<Rightarrow> go_error option" where
  "PubSub_DeleteNode request service node redirect =
     iq_error (request (pubsub_iq IQSet PubSubOwnerNS service
       [AddChildIf (redirect \<noteq> []) (SetAttr ''uri'' redirect (NewNode PubSubOwnerNS ''redirect''))
          (SetAttr ''node'' node (NewNode PubSubOwnerNS ''delete''))]))"

definition PubSub_Purge :: "(iq \<Rightarrow> iq result) \<Rightarrow> string \<Rightarrow> string \<Rightarrow> go_error option" where
  "PubSub_Purge request service node =
     iq_error (request (pubsub_iq IQSet PubSubOwnerNS service [SetAttr ''node'' node (NewNode PubSubOwnerNS ''purge'')]))"

definition PubSub_GetNodeConfig :: "(iq \<Rightarrow> iq result) \<Rightarrow> string \<Rightarrow> string \<Rightarrow> form result" where
  "PubSub_GetNodeConfig request service node =
     (case request (pubsub_iq IQGet PubSubOwnerNS service [SetAttr ''node'' node (NewNode PubSubOwnerNS ''configure'')]) of
        Inl e \<Rightarrow> Inl e
      | Inr response \<Rightarrow>
          (case IQ_Payload response of
             None \<Rightarrow> Inl (Errf ''xep: missing pubsub owner response'')
           | Some payload \<Rightarrow>
               (case Child PubSubOwnerNS ''configure'' payload of
                  None \<Rightarrow> Inl (Errf ''xep: missing configure response'')
                | Some parent \<Rightarrow>
                    (case Child DataFormsNS ''x'' parent of
                       None \<Rightarrow> Inl (Errf ''xep: missing configuration form'')
                     | Some f \<Rightarrow> ParseForm f))))"

definition PubSub_SetNodeConfig :: "(iq \<Rightarrow> iq result) \<Rightarrow> string \<Rightarrow> string \<Rightarrow> form \<Rightarrow> go_error option" where
  "PubSub_SetNodeConfig request service node f =
     iq_error (request (pubsub_iq IQSet PubSubOwnerNS service
       [AddChild (submit f) (SetAttr ''node'' node (NewNode PubSubOwnerNS ''configure''))]))"

subsection \<open>Events\<close>

definition event_child :: "pubsub_event \<Rightarrow> node \<Rightarrow> pubsub_event result" where
  "event_child event child =
     (let node = or_empty (AttrValue ''node'' child) in
      if Local (Name child) = ''items'' then
        Inr (event\<lparr>pev_Node := node, pev_Items := parsePubSubItems child,
               pev_Retracted := pev_Retracted event
                 @ map (\<lambda>x. or_empty (AttrValue ''id'' x)) (filter (\<lambda>x. Local (Name x) = ''retract'') (Children child))\<rparr>)
      else if Local (Name child) = ''purge'' then Inr (event\<lparr>pev_Node := node, pev_Purge := True\<rparr>)
      else if Local (Name child) = ''delete'' then
        Inr (event\<lparr>pev_Node := node, pev_Delete := True,
               pev_Redirect := (case Child PubSubEventNS ''redirect'' child of
                                  None \<Rightarrow> pev_Redirect event | Some r \<Rightarrow> or_empty (AttrValue ''uri'' r))\<rparr>)
      else if Local (Name child) = ''subscription'' then
        Inr (event\<lparr>pev_Subscription := Some (parseSubscription child), pev_Node := psub_Node (parseSubscription child)\<rparr>)
      else if Local (Name child) = ''configuration'' then
        (case Child DataFormsNS ''x'' child of
           None \<Rightarrow> Inr (event\<lparr>pev_Node := node\<rparr>)
         | Some f \<Rightarrow> (case ParseForm f of Inl e \<Rightarrow> Inl e
                     | Inr v \<Rightarrow> Inr (event\<lparr>pev_Node := node, pev_Configuration := Some v\<rparr>)))
      else Inr event)"

definition parsePubSubEvent :: "node \<Rightarrow> pubsub_event result" where
  "parsePubSubEvent n =
     (if Space (Name n) \<noteq> PubSubEventNS \<or> Local (Name n) \<noteq> ''event'' then Inl (Errf ''xep: invalid pubsub event'')
      else fold_result event_child pubsub_event0 (Children n))"

text \<open>The names of the emitted events and the value they carry; a message without the element is not
  the handler's concern.\<close>

definition handleEvent :: "message \<Rightarrow> (string \<times> pubsub_event) list result" where
  "handleEvent m =
     (case Message_Extension m PubSubEventNS ''event'' of
        None \<Rightarrow> Inr []
      | Some eventNode \<Rightarrow>
          (case parsePubSubEvent eventNode of
             Inl e \<Rightarrow> Inl e
           | Inr event0 \<Rightarrow>
               let event = event0\<lparr>pev_From := msg_From m\<rparr> in
               Inr ((''pubsub_event'', event)
                    # (if pev_Node event \<noteq> [] then [(''pubsub_event:'' @ pev_Node event, event)] else []))))"

subsection \<open>Personal eventing\<close>

definition PEP_Publish :: "(iq \<Rightarrow> iq result) \<Rightarrow> string \<Rightarrow> string \<Rightarrow> node \<Rightarrow> form option \<Rightarrow> string result" where
  "PEP_Publish request node i payload options = PubSub_Publish request [] node i [payload] options"

definition PEP_Items :: "(iq \<Rightarrow> iq result) \<Rightarrow> string \<Rightarrow> string \<Rightarrow> int \<Rightarrow> pubsub_item list result" where
  "PEP_Items request jid node limit = (case PubSub_GetItems request jid node limit [] of Inl e \<Rightarrow> Inl e | Inr (items, _) \<Rightarrow> Inr items)"

subsection \<open>What comes back\<close>

lemma parse_publish_item [simp]:
  "parse_pubsub_item (publish_item i ps) = \<lparr>pi_ID = i, pi_Publisher = [], pi_Payloads = ps\<rparr>"
  by (simp add: parse_pubsub_item_def publish_item_def)

lemma Local_publish_item [simp]: "Local (Name (publish_item i ps)) = ''item''"
  by (simp add: publish_item_def)

text \<open>An answer that lists published items is read as these items, in order; items of other names and
  the result set element are skipped.\<close>

definition items_answer :: "string \<Rightarrow> (string \<times> node list) list \<Rightarrow> rsm option \<Rightarrow> node" where
  "items_answer node published r =
     AddChild (AddChildren (map (\<lambda>(i, ps). publish_item i ps) published @ opt_children RSM_ToNode r)
         (SetAttr ''node'' node (NewNode PubSubNS ''items'')))
       (NewNode PubSubNS ''pubsub'')"

lemma filter_published:
  "filter (\<lambda>c. Local (Name c) = ''item'') (map (\<lambda>(i, ps). publish_item i ps) published)
     = map (\<lambda>(i, ps). publish_item i ps) published"
  by (induction published) auto

lemma Name_RSM: "Name (RSM_ToNode r) = XName RSMNS ''set''"
  by (simp add: RSM_ToNode_def)

lemma find_set_published:
  "find (\<lambda>c. Local (Name c) = ''set'' \<and> Space (Name c) = RSMNS) (map (\<lambda>(i, ps). publish_item i ps) published) = None"
  by (induction published) auto

lemma GetItems_answer:
  assumes "\<And>q. request q = Inr (IQ_Result q [items_answer node published r])" "pred_option rsm_valid r"
  shows "PubSub_GetItems request service node limit ids
    = Inr (map (\<lambda>(i, ps). \<lparr>pi_ID = i, pi_Publisher = [], pi_Payloads = ps\<rparr>) published, r)"
proof -
  have "Child RSMNS ''set'' (AddChildren (map (\<lambda>(i, ps). publish_item i ps) published @ opt_children RSM_ToNode r)
         (SetAttr ''node'' node (NewNode PubSubNS ''items''))) = map_option RSM_ToNode r"
    by (cases r) (simp_all add: Child_eq_find find_append_split opt_children_def named_def find_set_published Name_RSM)
  moreover have "filter (\<lambda>c. Local (Name c) = ''item'') (opt_children RSM_ToNode r) = []"
    by (cases r) (simp_all add: opt_children_def Name_RSM)
  ultimately show ?thesis
    using assms(2) by (cases r)
      (simp_all add: PubSub_GetItems_def assms(1) items_answer_def Child_eq_find parsePubSubItems_def filter_published
        rsm_codec.decode_encode comp_def case_prod_beta)
qed

end
