(* ===== verification/Omemo.thy ===== *)
theory Omemo
  imports Omemo_Store Pubsub Message_Extensions
begin

text \<open>
  The OMEMO manager, \<^verbatim>\<open>src/omemo/manager.go\<close>. The store and the session backend are interfaces:
  records of operations over states of their own, which the manager threads (the pair \<open>'s \<times> 'b\<close>).
  The client's \<^verbatim>\<open>RequestIQ\<close>, the clock and the own address are in \<open>world\<close>; AES-GCM and the random
  bytes are arguments. A call that panics in the source is \<open>None\<close>.
\<close>

subsection \<open>Interfaces and options\<close>

record 'b session_backend =
  sb_OwnBundle :: "'b \<Rightarrow> key_bundle result"
  sb_HasSession :: "address \<Rightarrow> 'b \<Rightarrow> bool result"
  sb_BuildSession :: "address \<Rightarrow> key_bundle \<Rightarrow> 'b \<Rightarrow> go_error option \<times> 'b"
  sb_Encrypt :: "address \<Rightarrow> bytes \<Rightarrow> 'b \<Rightarrow> session_ciphertext result \<times> 'b"
  sb_Decrypt :: "address \<Rightarrow> session_ciphertext \<Rightarrow> 'b \<Rightarrow> bytes result \<times> 'b"

record ('s, 'b) manager =
  mg_Store :: "'s store_ops"
  mg_Backend :: "'b session_backend"
  mg_TrustPolicy :: string
  mg_DeviceListTTL :: int
  mg_DisableOwnDevices :: bool
  mg_AutoDecrypt :: bool
  mg_FallbackBody :: string
  mg_SenderJID :: "(message \<Rightarrow> string) option"

record world =
  wd_request :: "iq \<Rightarrow> iq result"
  wd_now :: gotime
  wd_own :: string

definition OmemoFallbackBody :: string where
  "OmemoFallbackBody = ''This message is encrypted with OMEMO and could not be decrypted by this client.''"

definition New :: "('s, 'b) manager \<Rightarrow> ('s, 'b) manager" where
  "New opts =
     opts\<lparr>mg_TrustPolicy := (if mg_TrustPolicy opts = [] then TrustBlindBeforeVerification else mg_TrustPolicy opts),
       mg_DeviceListTTL := (if mg_DeviceListTTL opts \<le> 0 then 5 * 60 * 1000000000 else mg_DeviceListTTL opts),
       mg_FallbackBody := (if mg_FallbackBody opts = [] then OmemoFallbackBody else mg_FallbackBody opts)\<rparr>"

text \<open>\<^verbatim>\<open>time.Since\<close> in nanoseconds.\<close>

definition since :: "gotime \<Rightarrow> gotime \<Rightarrow> int" where
  "since now t = (tm_sec now - tm_sec t) * 1000000000 + (tm_nsec now - tm_nsec t)"

subsection \<open>Trust\<close>

fun verified_known :: "(address \<Rightarrow> string result) \<Rightarrow> string \<Rightarrow> address list \<Rightarrow> bool result" where
  "verified_known trust jid [] = Inr False"
| "verified_known trust jid (other # addresses) =
     (if ad_JID other \<noteq> jid then verified_known trust jid addresses
      else case trust other of
        Inl e \<Rightarrow> Inl e
      | Inr t \<Rightarrow> if t = TrustVerified then Inr True else verified_known trust jid addresses)"

definition effectiveTrust :: "('s, 'b) manager \<Rightarrow> address \<Rightarrow> 's \<Rightarrow> string result" where
  "effectiveTrust m a s =
     (case so_Trust (mg_Store m) a s of
        Inl e \<Rightarrow> Inl e
      | Inr level \<Rightarrow>
          if level \<noteq> TrustUndecided then Inr level
          else if mg_TrustPolicy m = TrustAll then Inr TrustTrusted
          else if mg_TrustPolicy m = TrustManual then Inr TrustUndecided
          else if mg_TrustPolicy m = TrustBlindBeforeVerification then
            (case so_KnownAddresses (mg_Store m) s of
               Inl e \<Rightarrow> Inl e
             | Inr addresses \<Rightarrow>
                 (case verified_known (\<lambda>other. so_Trust (mg_Store m) other s) (ad_JID a) addresses of
                    Inl e \<Rightarrow> Inl e
                  | Inr v \<Rightarrow> Inr (if v then TrustUndecided else TrustTrusted)))
          else Inl (Errorf ''omemo: invalid trust policy %q'' [mg_TrustPolicy m] None))"

definition usable :: "string result \<Rightarrow> bool" where
  "usable t \<longleftrightarrow> t = Inr TrustTrusted \<or> t = Inr TrustVerified"

subsection \<open>Device lists and bundles\<close>

text \<open>The first item's first device list, if any.\<close>

definition listed_devices :: "pubsub_item list \<Rightarrow> device_id list result" where
  "listed_devices items =
     (case items of [] \<Rightarrow> Inr []
      | item # _ \<Rightarrow> (case find (named OmemoNS ''list'') (pi_Payloads item) of None \<Rightarrow> Inr [] | Some p \<Rightarrow> ParseDeviceList p))"

definition RefreshDeviceList :: "world \<Rightarrow> ('s, 'b) manager \<Rightarrow> string \<Rightarrow> 's \<Rightarrow> device_list result \<times> 's" where
  "RefreshDeviceList w m jid0 s =
     (let jid = BareJIDString jid0 in
      case PubSub_GetItems (wd_request w) jid DeviceListNode 1 [] of
        Inl e \<Rightarrow> (Inl e, s)
      | Inr (items, _) \<Rightarrow>
          (case listed_devices items of
             Inl e \<Rightarrow> (Inl e, s)
           | Inr devices \<Rightarrow>
               let l = \<lparr>dl_JID = jid, dl_Devices = devices, dl_FetchedAt = wd_now w\<rparr> in
               (case so_PutDeviceList (mg_Store m) l s of (Some e, s') \<Rightarrow> (Inl e, s') | (None, s') \<Rightarrow> (Inr l, s'))))"

definition DeviceList :: "world \<Rightarrow> ('s, 'b) manager \<Rightarrow> string \<Rightarrow> bool \<Rightarrow> 's \<Rightarrow> device_list result \<times> 's" where
  "DeviceList w m jid0 refresh s =
     (let jid = BareJIDString jid0 in
      if refresh then RefreshDeviceList w m jid s
      else case so_DeviceList (mg_Store m) jid s of
        Inl e \<Rightarrow> (Inl e, s)
      | Inr None \<Rightarrow> RefreshDeviceList w m jid s
      | Inr (Some l) \<Rightarrow>
          if since (wd_now w) (dl_FetchedAt l) \<le> mg_DeviceListTTL m then (Inr l, s) else RefreshDeviceList w m jid s)"

definition FetchBundle :: "world \<Rightarrow> ('s, 'b) manager \<Rightarrow> address \<Rightarrow> 's \<Rightarrow> key_bundle result \<times> 's" where
  "FetchBundle w m a s =
     (case so_Bundle (mg_Store m) a s of
        Inl e \<Rightarrow> (Inl e, s)
      | Inr (Some b) \<Rightarrow> (Inr b, s)
      | Inr None \<Rightarrow>
          (case PubSub_GetItems (wd_request w) (ad_JID a) (BundleNode (ad_DeviceID a)) 1 [] of
             Inl e \<Rightarrow> (Inl e, s)
           | Inr ([], _) \<Rightarrow> (Inl (Errorf ''omemo: no bundle for %s'' [Address_String a] None), s)
           | Inr (item # _, _) \<Rightarrow>
               (case find (named OmemoNS ''bundle'') (pi_Payloads item) of
                  None \<Rightarrow> (Inl (Errorf ''omemo: bundle payload missing for %s'' [Address_String a] None), s)
                | Some p \<Rightarrow>
                    (case ParseBundle p of
                       Inl e \<Rightarrow> (Inl e, s)
                     | Inr b \<Rightarrow> (case so_PutBundle (mg_Store m) a b s of (Some e, s') \<Rightarrow> (Inl e, s') | (None, s') \<Rightarrow> (Inr b, s'))))))"

definition EnsureSession :: "world \<Rightarrow> ('s, 'b) manager \<Rightarrow> address \<Rightarrow> 's \<times> 'b \<Rightarrow> go_error option \<times> 's \<times> 'b" where
  "EnsureSession w m a st =
     (case st of (s, b) \<Rightarrow>
      case sb_HasSession (mg_Backend m) a b of
        Inl e \<Rightarrow> (Some e, s, b)
      | Inr True \<Rightarrow> (None, s, b)
      | Inr False \<Rightarrow>
          (case FetchBundle w m a s of
             (Inl e, s') \<Rightarrow> (Some e, s', b)
           | (Inr bd, s') \<Rightarrow>
               (case sb_BuildSession (mg_Backend m) a bd b of
                  (Some e, b') \<Rightarrow> (Some (Errorf ''omemo: build session for %s: %w'' [Address_String a] (Some e)), s', b')
                | (None, b') \<Rightarrow> (None, s', b'))))"

record device_info =
  dv_Address :: address
  dv_Trust :: string
  dv_Fingerprint :: string
  dv_Active :: bool
  dv_HasBundle :: bool
  dv_HasSession :: bool
  dv_LastSeen :: gotime

function groups8 :: "string \<Rightarrow> string list" where
  "groups8 encoded = (if encoded = [] then [] else take 8 encoded # groups8 (drop 8 encoded))"
  by pat_completeness auto
termination by (relation "measure length") auto

declare groups8.simps [simp del]

definition Fingerprint :: "unicode \<Rightarrow> (bytes \<Rightarrow> bytes) \<Rightarrow> bytes \<Rightarrow> string" where
  "Fingerprint U sha256 identityKey = Join '' '' (groups8 (ToUpper U (hexEncode (sha256 identityKey))))"

definition device_info_of ::
  "('s, 'b) manager \<Rightarrow> (bytes \<Rightarrow> string) \<Rightarrow> device_list \<Rightarrow> 's \<times> 'b \<Rightarrow> device_id \<Rightarrow> device_info result" where
  "device_info_of m fingerprint l st i =
     (let a = Address (dl_JID l) i in
      case effectiveTrust m a (fst st) of
        Inl e \<Rightarrow> Inl e
      | Inr trust \<Rightarrow>
          (case so_Bundle (mg_Store m) a (fst st) of
             Inl e \<Rightarrow> Inl e
           | Inr bd \<Rightarrow>
               (case sb_HasSession (mg_Backend m) a (snd st) of
                  Inl e \<Rightarrow> Inl e
                | Inr session \<Rightarrow>
                    Inr \<lparr>dv_Address = a, dv_Trust = trust,
                         dv_Fingerprint = (case bd of None \<Rightarrow> [] | Some b \<Rightarrow> fingerprint (bd_IdentityKey b)),
                         dv_Active = True, dv_HasBundle = (bd \<noteq> None), dv_HasSession = session, dv_LastSeen = dl_FetchedAt l\<rparr>)))"

definition Devices ::
  "world \<Rightarrow> ('s, 'b) manager \<Rightarrow> (bytes \<Rightarrow> string) \<Rightarrow> string \<Rightarrow> bool \<Rightarrow> 's \<times> 'b \<Rightarrow> device_info list result \<times> 's \<times> 'b" where
  "Devices w m fingerprint jid refresh st =
     (case DeviceList w m jid refresh (fst st) of
        (Inl e, s') \<Rightarrow> (Inl e, s', snd st)
      | (Inr l, s') \<Rightarrow> (map_result (device_info_of m fingerprint l (s', snd st)) (dl_Devices l), s', snd st))"

subsection \<open>Publishing\<close>

definition pep_field :: "string \<Rightarrow> string \<Rightarrow> string \<Rightarrow> field" where
  "pep_field name kind value = field0\<lparr>fld_Var := name, fld_Type := kind, fld_Values := [value]\<rparr>"

definition pepOptions :: form where
  "pepOptions = form0\<lparr>frm_Fields :=
     [pep_field ''pubsub#persist_items'' ''boolean'' ''true'', pep_field ''pubsub#access_model'' ''list-single'' ''open'',
      pep_field ''pubsub#max_items'' ''text-single'' ''1'',
      pep_field ''pubsub#send_last_published_item'' ''list-single'' ''on_sub_and_presence'']\<rparr>"

definition validateBundle :: "key_bundle \<Rightarrow> go_error option" where
  "validateBundle b = (if bundle_complete b then None else Some (Errf ''omemo: backend returned an incomplete bundle''))"

definition PublishBundle :: "world \<Rightarrow> ('s, 'b) manager \<Rightarrow> 's \<times> 'b \<Rightarrow> go_error option \<times> 's" where
  "PublishBundle w m st =
     (case so_OwnDeviceID (mg_Store m) (fst st) of
        (Inl e, s') \<Rightarrow> (Some e, s')
      | (Inr i, s') \<Rightarrow>
          (case sb_OwnBundle (mg_Backend m) (snd st) of
             Inl e \<Rightarrow> (Some (Errorf ''omemo: own bundle: %w'' [] (Some e)), s')
           | Inr b \<Rightarrow>
               (case validateBundle b of
                  Some e \<Rightarrow> (Some e, s')
                | None \<Rightarrow>
                    (case PubSub_Publish (wd_request w) [] (BundleNode i) ''current'' [Bundle_ToNode b] (Some pepOptions) of
                       Inl e \<Rightarrow> (Some e, s') | Inr _ \<Rightarrow> (None, s')))))"

text \<open>The list to publish: the stored one, or a fresh one when it is missing or stale and can be
  fetched. A store error reads as no list.\<close>

definition own_list :: "world \<Rightarrow> ('s, 'b) manager \<Rightarrow> 's \<Rightarrow> device_id list \<times> 's" where
  "own_list w m s =
     (let cached = (case so_DeviceList (mg_Store m) (wd_own w) s of Inr (Some l) \<Rightarrow> Some l | _ \<Rightarrow> None);
          old = (case cached of None \<Rightarrow> [] | Some l \<Rightarrow> dl_Devices l)
      in if (case cached of None \<Rightarrow> True | Some l \<Rightarrow> since (wd_now w) (dl_FetchedAt l) > mg_DeviceListTTL m)
         then (case RefreshDeviceList w m (wd_own w) s of (Inl _, s') \<Rightarrow> (old, s') | (Inr r, s') \<Rightarrow> (dl_Devices r, s'))
         else (old, s))"

definition PublishDeviceList :: "world \<Rightarrow> ('s, 'b) manager \<Rightarrow> 's \<Rightarrow> go_error option \<times> 's" where
  "PublishDeviceList w m s =
     (case so_OwnDeviceID (mg_Store m) s of
        (Inl e, s1) \<Rightarrow> (Some e, s1)
      | (Inr i, s1) \<Rightarrow>
          (case own_list w m s1 of (devices, s2) \<Rightarrow>
             let l = \<lparr>dl_JID = wd_own w, dl_Devices = uniqueDevices (devices @ [i]), dl_FetchedAt = wd_now w\<rparr> in
             (case PubSub_Publish (wd_request w) [] DeviceListNode ''current'' [DeviceList_ToNode (dl_Devices l)] (Some pepOptions) of
                Inl e \<Rightarrow> (Some e, s2)
              | Inr _ \<Rightarrow> so_PutDeviceList (mg_Store m) l s2)))"

definition PublishOwn :: "world \<Rightarrow> ('s, 'b) manager \<Rightarrow> 's \<times> 'b \<Rightarrow> go_error option \<times> 's" where
  "PublishOwn w m st =
     (case PublishBundle w m st of (Some e, s') \<Rightarrow> (Some e, s') | (None, s') \<Rightarrow> PublishDeviceList w m s')"

text \<open>A device list pushed by a contact: the first one in the event is stored and announced.\<close>

definition handlePubSub :: "world \<Rightarrow> ('s, 'b) manager \<Rightarrow> pubsub_event \<Rightarrow> 's \<Rightarrow> device_list option result \<times> 's" where
  "handlePubSub w m event s =
     (if pev_Node event \<noteq> DeviceListNode then (Inr None, s)
      else case find (named OmemoNS ''list'') (concat (map pi_Payloads (pev_Items event))) of
        None \<Rightarrow> (Inr None, s)
      | Some p \<Rightarrow>
          (case ParseDeviceList p of
             Inl e \<Rightarrow> (Inl e, s)
           | Inr devices \<Rightarrow>
               let l = \<lparr>dl_JID = BareJIDString (pev_From event), dl_Devices = devices, dl_FetchedAt = wd_now w\<rparr> in
               (case so_PutDeviceList (mg_Store m) l s of (Some e, s') \<Rightarrow> (Inl e, s') | (None, s') \<Rightarrow> (Inr (Some l), s'))))"

subsection \<open>Payload encryption\<close>

text \<open>AES in Galois counter mode with a tag of 16 bytes; a nonce of another length than 12 panics.\<close>

record gcm =
  gcm_Seal :: "bytes \<Rightarrow> bytes \<Rightarrow> bytes \<Rightarrow> bytes"
  gcm_Open :: "bytes \<Rightarrow> bytes \<Rightarrow> bytes \<Rightarrow> bytes option"

definition seal :: "gcm \<Rightarrow> (bytes \<times> bytes) result \<Rightarrow> bytes \<Rightarrow> (bytes \<times> bytes \<times> bytes) result" where
  "seal g random plain =
     (case random of
        Inl e \<Rightarrow> Inl e
      | Inr (key, iv) \<Rightarrow>
          let sealed = gcm_Seal g key iv plain; tagStart = length sealed - 16
          in Inr (key @ drop tagStart sealed, iv, take tagStart sealed))"

definition open_payload :: "gcm \<Rightarrow> bytes \<Rightarrow> bytes \<Rightarrow> bytes \<Rightarrow> bytes result option" where
  "open_payload g material iv payload =
     (if length material < 16 then Some (Inl (Wrapf ''%w: key material too short'' ErrInvalidEnvelope))
      else
        let key = take 16 material; tag = drop 16 material in
        if length tag \<noteq> 16 then Some (Inl (Wrapf ''%w: invalid authentication tag length'' ErrInvalidEnvelope))
        else if length iv \<noteq> 12 then None
        else case gcm_Open g key iv (payload @ tag) of
          None \<Rightarrow> Some (Inl (Errorf ''omemo: authenticate payload: %w'' [] (Some (Foreign ''cipher: message authentication failed''))))
        | Some plain \<Rightarrow> Some (Inr plain))"

subsection \<open>Messages\<close>

definition withoutOMEMO :: "node list \<Rightarrow> node list" where
  "withoutOMEMO nodes = filter (\<lambda>n. \<not> named OmemoNS ''encrypted'' n) nodes"

record skipped_device =
  sk_Address :: address
  sk_Reason :: string
  sk_Trust :: string

record encryption_result =
  er_Recipients :: "address list"
  er_Skipped :: "skipped_device list"
  er_Envelope :: "envelope option"

definition result0 :: encryption_result where
  "result0 = \<lparr>er_Recipients = [], er_Skipped = [], er_Envelope = None\<rparr>"

definition add_targets :: "string \<Rightarrow> device_id list \<Rightarrow> address list \<Rightarrow> address list" where
  "add_targets jid ids targets = foldl (\<lambda>ts i. if Address jid i \<in> set ts then ts else ts @ [Address jid i]) targets ids"

definition recipient_targets :: "world \<Rightarrow> ('s, 'b) manager \<Rightarrow> address list \<times> 's \<Rightarrow> string \<Rightarrow> address list \<times> 's" where
  "recipient_targets w m acc recipient =
     (let bare = BareJIDString recipient in
      case DeviceList w m bare False (snd acc) of
        (Inl _, s') \<Rightarrow> (fst acc, s')
      | (Inr l, s') \<Rightarrow> (add_targets bare (dl_Devices l) (fst acc), s'))"

definition own_targets :: "world \<Rightarrow> ('s, 'b) manager \<Rightarrow> device_id \<Rightarrow> address list \<times> 's \<Rightarrow> address list \<times> 's" where
  "own_targets w m ownID acc =
     (if mg_DisableOwnDevices m then acc
      else case DeviceList w m (wd_own w) False (snd acc) of
        (Inl _, s') \<Rightarrow> (fst acc, s')
      | (Inr l, s') \<Rightarrow> (add_targets (wd_own w) (filter (\<lambda>i. i \<noteq> ownID) (dl_Devices l)) (fst acc), s'))"

text \<open>One round of the loop over the targets: a key is wrapped, or the device is skipped with a reason.
  \<open>err_text\<close> renders an error.\<close>

definition wrap_target ::
  "world \<Rightarrow> ('s, 'b) manager \<Rightarrow> (go_error \<Rightarrow> string) \<Rightarrow> bytes
    \<Rightarrow> (wrapped_key list \<times> encryption_result) \<times> 's \<times> 'b \<Rightarrow> address \<Rightarrow> (wrapped_key list \<times> encryption_result) \<times> 's \<times> 'b" where
  "wrap_target w m err_text material acc a =
     (case acc of ((keys, r), st) \<Rightarrow>
      let skip = (\<lambda>trust reason. r\<lparr>er_Skipped := er_Skipped r @ [\<lparr>sk_Address = a, sk_Reason = reason, sk_Trust = trust\<rparr>]\<rparr>) in
      case effectiveTrust m a (fst st) of
        Inl e \<Rightarrow> ((keys, skip (case so_Trust (mg_Store m) a (fst st) of Inr l \<Rightarrow> l | Inl _ \<Rightarrow> []) (err_text e)), st)
      | Inr trust \<Rightarrow>
          if trust \<noteq> TrustTrusted \<and> trust \<noteq> TrustVerified then ((keys, skip trust ''device is not trusted''), st)
          else case EnsureSession w m a st of
            (Some e, st') \<Rightarrow> ((keys, skip trust (err_text e)), st')
          | (None, (s', b')) \<Rightarrow>
              (case sb_Encrypt (mg_Backend m) a material b' of
                 (Inl e, b'') \<Rightarrow> ((keys, skip trust (err_text e)), (s', b''))
               | (Inr c, b'') \<Rightarrow>
                   ((keys @ [\<lparr>wk_Recipient = ad_DeviceID a, wk_PreKey = sc_PreKey c, wk_Data = sc_Data c\<rparr>],
                     r\<lparr>er_Recipients := er_Recipients r @ [a]\<rparr>), (s', b''))))"

definition encrypted_message :: "('s, 'b) manager \<Rightarrow> string \<Rightarrow> message \<Rightarrow> envelope \<Rightarrow> message" where
  "encrypted_message m nextID message e =
     (let o1 = message\<lparr>msg_Body := mg_FallbackBody m, msg_Extensions := withoutOMEMO (msg_Extensions message) @ [Envelope_ToNode e]\<rparr>;
          o2 = AddHint ''store'' (SetEncryptionInfo (EncryptionInfo OmemoNS ''OMEMO'') o1);
          o3 = (if msg_ID o2 = [] then o2\<lparr>msg_ID := nextID\<rparr> else o2)
      in if GetOriginID o3 = None then SetOriginID (msg_ID o3) o3 else o3)"

definition EncryptMessage ::
  "world \<Rightarrow> ('s, 'b) manager \<Rightarrow> (go_error \<Rightarrow> string) \<Rightarrow> gcm \<Rightarrow> (bytes \<times> bytes) result \<Rightarrow> (address list \<Rightarrow> address list)
    \<Rightarrow> string \<Rightarrow> message \<Rightarrow> string list \<Rightarrow> 's \<times> 'b \<Rightarrow> (message \<times> encryption_result \<times> go_error option) \<times> 's \<times> 'b" where
  "EncryptMessage w m err_text g random order nextID message recipients0 st =
     (let recipients = (if recipients0 = [] \<and> msg_To message \<noteq> [] then [msg_To message] else recipients0) in
      if recipients = [] then ((message, result0, Some (Errf ''omemo: no recipients'')), st)
      else case so_OwnDeviceID (mg_Store m) (fst st) of
        (Inl e, s1) \<Rightarrow> ((message, result0, Some e), s1, snd st)
      | (Inr ownID, s1) \<Rightarrow>
          (case own_targets w m ownID (foldl (recipient_targets w m) ([], s1) recipients) of (targets, s2) \<Rightarrow>
           if targets = [] then ((message, result0, Some (Sentinel ErrNoDevices)), s2, snd st)
           else case seal g random (msg_Body message) of
             Inl e \<Rightarrow> ((message, result0, Some e), s2, snd st)
           | Inr (material, iv, payload) \<Rightarrow>
               (case foldl (wrap_target w m err_text material) (([], result0), s2, snd st) (order targets) of
                  ((keys, r), st') \<Rightarrow>
                    if keys = [] then ((message, r, Some (Sentinel ErrNoTrustedDevices)), st')
                    else
                      let e = \<lparr>env_Sender = ownID, env_IV = iv, env_Payload = payload, env_Keys = keys\<rparr>
                      in ((encrypted_message m nextID message e, r\<lparr>er_Envelope := Some e\<rparr>, None), st'))))"

definition SendEncrypted ::
  "(message \<Rightarrow> go_error option) \<Rightarrow> (message \<times> encryption_result \<times> go_error option) \<Rightarrow> encryption_result \<times> go_error option" where
  "SendEncrypted send encrypted =
     (case encrypted of (out, r, Some e) \<Rightarrow> (r, Some e) | (out, r, None) \<Rightarrow> (r, send out))"

record decryption_result =
  dr_Sender :: address
  dr_Trust :: string
  dr_Fingerprint :: string
  dr_PreKey :: bool

definition DecryptFrom ::
  "('s, 'b) manager \<Rightarrow> gcm \<Rightarrow> (bytes \<Rightarrow> string) \<Rightarrow> message \<Rightarrow> string \<Rightarrow> 's \<times> 'b
    \<Rightarrow> ((message \<times> decryption_result) result \<times> 's \<times> 'b) option" where
  "DecryptFrom m g fingerprint message senderJID st =
     (case Message_Extension message OmemoNS ''encrypted'' of
        None \<Rightarrow> Some (Inl (Errf ''omemo: message is not encrypted''), st)
      | Some node \<Rightarrow>
          (case ParseEnvelope node of
             Inl e \<Rightarrow> Some (Inl e, st)
           | Inr env \<Rightarrow>
               (case so_OwnDeviceID (mg_Store m) (fst st) of
                  (Inl e, s1) \<Rightarrow> Some (Inl e, s1, snd st)
                | (Inr ownID, s1) \<Rightarrow>
                    (case KeyFor env ownID of
                       None \<Rightarrow> Some (Inl (Sentinel ErrNoKeyForDevice), s1, snd st)
                     | Some wrapped \<Rightarrow>
                         let a = Address (BareJIDString senderJID) (env_Sender env) in
                         (case sb_Decrypt (mg_Backend m) a (SessionCiphertext (wk_Data wrapped) (wk_PreKey wrapped)) (snd st) of
                            (Inl e, b1) \<Rightarrow> Some (Inl (Errorf ''omemo: decrypt key from %s: %w'' [Address_String a] (Some e)), s1, b1)
                          | (Inr material, b1) \<Rightarrow>
                              (case open_payload g material (env_IV env) (env_Payload env) of
                                 None \<Rightarrow> None
                               | Some (Inl e) \<Rightarrow> Some (Inl e, s1, b1)
                               | Some (Inr plain) \<Rightarrow>
                                   (case effectiveTrust m a s1 of
                                      Inl e \<Rightarrow> Some (Inl e, s1, b1)
                                    | Inr trust \<Rightarrow>
                                        Some (Inr (message\<lparr>msg_Body := plain, msg_Extensions := withoutOMEMO (msg_Extensions message)\<rparr>,
                                          \<lparr>dr_Sender = a, dr_Trust = trust,
                                           dr_Fingerprint = (case so_Bundle (mg_Store m) a s1 of
                                              Inr (Some b) \<Rightarrow> fingerprint (bd_IdentityKey b) | _ \<Rightarrow> []),
                                           dr_PreKey = wk_PreKey wrapped\<rparr>), s1, b1)))))))) "

definition sender_of :: "('s, 'b) manager \<Rightarrow> message \<Rightarrow> string" where
  "sender_of m message =
     (case mg_SenderJID m of
        None \<Rightarrow> BareJIDString (msg_From message)
      | Some resolve \<Rightarrow> if resolve message \<noteq> [] then BareJIDString (resolve message) else BareJIDString (msg_From message))"

definition DecryptMessage ::
  "('s, 'b) manager \<Rightarrow> gcm \<Rightarrow> (bytes \<Rightarrow> string) \<Rightarrow> message \<Rightarrow> 's \<times> 'b \<Rightarrow> ((message \<times> decryption_result) result \<times> 's \<times> 'b) option" where
  "DecryptMessage m g fingerprint message st = DecryptFrom m g fingerprint message (sender_of m message) st"

datatype omemo_event =
    DecryptionFailed message go_error
  | MessageDecrypted message
  | OmemoMessage message message decryption_result

definition handleEncrypted ::
  "('s, 'b) manager \<Rightarrow> gcm \<Rightarrow> (bytes \<Rightarrow> string) \<Rightarrow> message \<Rightarrow> 's \<times> 'b \<Rightarrow> (omemo_event list \<times> 's \<times> 'b) option" where
  "handleEncrypted m g fingerprint message st =
     (case DecryptMessage m g fingerprint message st of
        None \<Rightarrow> None
      | Some (Inl e, st') \<Rightarrow> Some ([DecryptionFailed message e], st')
      | Some (Inr (plain, r), st') \<Rightarrow>
          Some ((if mg_AutoDecrypt m then [MessageDecrypted plain] else []) @ [OmemoMessage message plain r], st'))"

subsection \<open>Trust decisions\<close>

text \<open>
  Who gets keys: a device the user trusts or has verified, or an undecided one when the policy
  trusts everything, or trusts blindly and no device of that contact has been verified yet.
\<close>

definition trusts :: "(address \<Rightarrow> string result) \<Rightarrow> string \<Rightarrow> address \<Rightarrow> bool" where
  "trusts trust policy a \<longleftrightarrow>
     trust a = Inr TrustTrusted \<or> trust a = Inr TrustVerified
     \<or> trust a = Inr TrustUndecided
        \<and> (policy = TrustAll
           \<or> policy = TrustBlindBeforeVerification
              \<and> \<not> (\<exists>b. proper_address b \<and> ad_JID b = ad_JID a \<and> trust b = Inr TrustVerified))"

lemma verified_known_spec:
  assumes "\<And>b. \<exists>l. trust b = Inr l"
  shows "verified_known trust jid as = Inr (\<exists>b\<in>set as. ad_JID b = jid \<and> trust b = Inr TrustVerified)"
proof (induction as)
  case (Cons b as)
  obtain l where "trust b = Inr l" using assms by blast
  then show ?case using Cons by auto
qed simp

context omemo_store
begin

lemma effectiveTrust_spec:
  assumes "ok s" "mg_Store m = ops"
  shows "usable (effectiveTrust m a s) \<longleftrightarrow> trusts (\<lambda>b. so_Trust ops b s) (mg_TrustPolicy m) a"
proof -
  obtain l where l: "so_Trust ops a s = Inr l" "validTrust l" using trust_valid[OF assms(1)] by blast
  obtain as where as: "so_KnownAddresses ops s = Inr as" using known_total[OF assms(1)] by blast
  have v: "verified_known (\<lambda>b. so_Trust ops b s) (ad_JID a) as
      = Inr (\<exists>b\<in>set as. ad_JID b = ad_JID a \<and> so_Trust ops b s = Inr TrustVerified)"
    by (rule verified_known_spec) (use trust_valid[OF assms(1)] in blast)
  have "(\<exists>b\<in>set as. ad_JID b = ad_JID a \<and> so_Trust ops b s = Inr TrustVerified)
      = (\<exists>b. proper_address b \<and> ad_JID b = ad_JID a \<and> so_Trust ops b s = Inr TrustVerified)"
    using known_complete[OF assms(1) as] known_proper[OF assms(1) as] by fastforce
  then show ?thesis
    using l as v by (auto simp: effectiveTrust_def assms(2) usable_def trusts_def)
qed

definition same_trust :: "'s \<Rightarrow> 's \<Rightarrow> bool" where
  "same_trust s s' \<longleftrightarrow> ok s' \<and> (\<forall>a. so_Trust ops a s' = so_Trust ops a s)"

lemma same_trust_trans: "same_trust s t \<Longrightarrow> same_trust t u \<Longrightarrow> same_trust s u"
  by (simp add: same_trust_def)

lemma same_trust_refl: "ok s \<Longrightarrow> same_trust s s"
  by (simp add: same_trust_def)

lemma same_trust_ok: "same_trust s t \<Longrightarrow> ok t"
  by (simp add: same_trust_def)

lemma RefreshDeviceList_trust:
  assumes "ok s" "mg_Store m = ops" "RefreshDeviceList w m jid s = (v, s')"
  shows "same_trust s s'"
proof -
  have "s' = s \<or> (\<exists>l e. so_PutDeviceList ops l s = (e, s'))"
    using assms(2,3) by (auto simp: RefreshDeviceList_def Let_def split: sum.splits prod.splits option.splits)
  then show ?thesis using put_list[OF assms(1)] assms(1) unfolding same_trust_def by auto
qed

lemma DeviceList_trust:
  assumes "ok s" "mg_Store m = ops" "DeviceList w m jid refresh s = (v, s')"
  shows "same_trust s s'"
proof -
  have "s' = s \<or> (\<exists>j. RefreshDeviceList w m j s = (v, s'))"
    using assms(3) by (auto simp: DeviceList_def Let_def split: if_splits sum.splits option.splits)
  then show ?thesis using RefreshDeviceList_trust[OF assms(1,2)] same_trust_refl[OF assms(1)] by blast
qed

lemma FetchBundle_trust:
  assumes "ok s" "mg_Store m = ops" "FetchBundle w m a s = (v, s')"
  shows "same_trust s s'"
proof -
  have "s' = s \<or> (\<exists>b e. so_PutBundle ops a b s = (e, s'))"
    using assms(2,3) by (auto simp: FetchBundle_def split: sum.splits prod.splits option.splits list.splits)
  then show ?thesis using put_bundle[OF assms(1)] assms(1) unfolding same_trust_def by auto
qed

lemma EnsureSession_trust:
  assumes "ok (fst st)" "mg_Store m = ops" "EnsureSession w m a st = (v, st')"
  shows "same_trust (fst st) (fst st')"
proof -
  have "fst st' = fst st \<or> (\<exists>x. FetchBundle w m a (fst st) = (x, fst st'))"
    using assms(3) by (auto simp: EnsureSession_def split: prod.splits sum.splits bool.splits option.splits)
  then show ?thesis using FetchBundle_trust[OF assms(1,2)] same_trust_refl[OF assms(1)] by auto
qed

end

text \<open>The loop over the targets keeps the books: keys and recipients correspond, recipients are
  trusted, and every target so far is a recipient or was skipped.\<close>

definition wrapped_ok ::
  "(address \<Rightarrow> string result) \<Rightarrow> string \<Rightarrow> address list \<Rightarrow> wrapped_key list \<times> encryption_result \<Rightarrow> bool" where
  "wrapped_ok trust policy sofar kr \<longleftrightarrow>
     map wk_Recipient (fst kr) = map ad_DeviceID (er_Recipients (snd kr))
     \<and> (\<forall>a\<in>set (er_Recipients (snd kr)). trusts trust policy a)
     \<and> set (er_Recipients (snd kr)) \<union> sk_Address ` set (er_Skipped (snd kr)) = set sofar
     \<and> er_Envelope (snd kr) = None"

lemma wrapped_ok_skip:
  "wrapped_ok trust policy sofar (keys, r) \<Longrightarrow> sk_Address x = a \<Longrightarrow>
   wrapped_ok trust policy (sofar @ [a]) (keys, r\<lparr>er_Skipped := er_Skipped r @ [x]\<rparr>)"
  by (auto simp: wrapped_ok_def)

lemma wrapped_ok_key:
  "wrapped_ok trust policy sofar (keys, r) \<Longrightarrow> wk_Recipient k = ad_DeviceID a \<Longrightarrow> trusts trust policy a \<Longrightarrow>
   wrapped_ok trust policy (sofar @ [a]) (keys @ [k], r\<lparr>er_Recipients := er_Recipients r @ [a]\<rparr>)"
  by (auto simp: wrapped_ok_def)

text \<open>What a successful encryption went through.\<close>

lemma EncryptMessage_run:
  assumes "EncryptMessage w m err_text g random order nextID message rs st = ((out, r, None), st')"
  obtains own s1 targets s2 material iv payload keys r'
  where "so_OwnDeviceID (mg_Store m) (fst st) = (Inr own, s1)"
    "own_targets w m own (foldl (recipient_targets w m) ([], s1)
       (if rs = [] \<and> msg_To message \<noteq> [] then [msg_To message] else rs)) = (targets, s2)"
    "seal g random (msg_Body message) = Inr (material, iv, payload)"
    "foldl (wrap_target w m err_text material) (([], result0), s2, snd st) (order targets) = ((keys, r'), st')" "keys \<noteq> []"
    "r = r'\<lparr>er_Envelope := Some \<lparr>env_Sender = own, env_IV = iv, env_Payload = payload, env_Keys = keys\<rparr>\<rparr>"
    "out = encrypted_message m nextID message \<lparr>env_Sender = own, env_IV = iv, env_Payload = payload, env_Keys = keys\<rparr>"
proof -
  let ?rs = "if rs = [] \<and> msg_To message \<noteq> [] then [msg_To message] else rs"
  have rs: "?rs \<noteq> []" using assms by (auto simp: EncryptMessage_def Let_def)
  obtain i s1 where i: "so_OwnDeviceID (mg_Store m) (fst st) = (i, s1)" by (metis prod.collapse)
  then obtain own where own: "i = Inr own" using assms rs by (cases i) (auto simp: EncryptMessage_def Let_def)
  obtain targets s2 where t: "own_targets w m own (foldl (recipient_targets w m) ([], s1) ?rs) = (targets, s2)"
    by (metis prod.collapse)
  have n: "targets \<noteq> []" using assms rs i own t by (auto simp: EncryptMessage_def Let_def)
  obtain material iv payload where p: "seal g random (msg_Body message) = Inr (material, iv, payload)"
    using assms rs i own t n by (cases "seal g random (msg_Body message)") (auto simp: EncryptMessage_def Let_def)
  obtain keys r' st'' where f: "foldl (wrap_target w m err_text material) (([], result0), s2, snd st) (order targets) = ((keys, r'), st'')"
    by (metis prod.collapse)
  have "st'' = st' \<and> keys \<noteq> []
    \<and> r = r'\<lparr>er_Envelope := Some \<lparr>env_Sender = own, env_IV = iv, env_Payload = payload, env_Keys = keys\<rparr>\<rparr>
    \<and> out = encrypted_message m nextID message \<lparr>env_Sender = own, env_IV = iv, env_Payload = payload, env_Keys = keys\<rparr>"
    using assms rs i own t n p f by (auto simp: EncryptMessage_def Let_def split: if_splits)
  then show ?thesis using that[OF i[unfolded own] t p] f by blast
qed

context omemo_store
begin

lemma recipient_targets_trust:
  assumes "ok (snd acc)" "mg_Store m = ops"
  shows "same_trust (snd acc) (snd (foldl (recipient_targets w m) acc rs))"
  using assms(1)
proof (induction rs arbitrary: acc)
  case Nil
  then show ?case by (simp add: same_trust_refl)
next
  case (Cons r rs)
  have "\<exists>v. DeviceList w m (BareJIDString r) False (snd acc) = (v, snd (recipient_targets w m acc r))"
    by (auto simp: recipient_targets_def Let_def split: prod.splits sum.splits)
  then have "same_trust (snd acc) (snd (recipient_targets w m acc r))"
    using DeviceList_trust[OF Cons.prems assms(2)] by blast
  then show ?case using Cons.IH[OF same_trust_ok] same_trust_trans by simp
qed

lemma own_targets_trust:
  assumes "ok (snd acc)" "mg_Store m = ops"
  shows "same_trust (snd acc) (snd (own_targets w m i acc))"
proof -
  have "snd (own_targets w m i acc) = snd acc \<or> (\<exists>v. DeviceList w m (wd_own w) False (snd acc) = (v, snd (own_targets w m i acc)))"
    by (auto simp: own_targets_def split: prod.splits sum.splits)
  then show ?thesis using DeviceList_trust[OF assms] same_trust_refl[OF assms(1)] by metis
qed

lemma wrap_target_ok:
  assumes "same_trust s0 (fst (snd acc))" "mg_Store m = ops"
    and "wrapped_ok (\<lambda>b. so_Trust ops b s0) (mg_TrustPolicy m) sofar (fst acc)"
  shows "same_trust s0 (fst (snd (wrap_target w m err_text material acc a)))
    \<and> wrapped_ok (\<lambda>b. so_Trust ops b s0) (mg_TrustPolicy m) (sofar @ [a]) (fst (wrap_target w m err_text material acc a))"
proof -
  obtain keys r st where acc: "acc = ((keys, r), st)" by (metis prod.collapse)
  have ok: "ok (fst st)" and eq: "(\<lambda>b. so_Trust ops b (fst st)) = (\<lambda>b. so_Trust ops b s0)"
    using assms(1) by (auto simp: acc same_trust_def)
  note spec = effectiveTrust_spec[OF ok assms(2), of a, unfolded eq]
  note skip = wrapped_ok_skip[OF assms(3)[unfolded acc fst_conv], of _ a]
  have same: "same_trust s0 (fst st)" using assms(1) by (simp add: acc)
  show ?thesis
  proof (cases "effectiveTrust m a (fst st)")
    case (Inl e)
    then show ?thesis using same by (auto simp: acc wrap_target_def Let_def intro!: skip)
  next
    case (Inr t)
    show ?thesis
    proof (cases "t \<noteq> TrustTrusted \<and> t \<noteq> TrustVerified")
      case True
      then show ?thesis using same Inr by (auto simp: acc wrap_target_def Let_def intro!: skip)
    next
      case trusted: False
      then have tr: "trusts (\<lambda>b. so_Trust ops b s0) (mg_TrustPolicy m) a" using spec Inr by (auto simp: usable_def)
      obtain e s' b' where en: "EnsureSession w m a st = (e, s', b')" by (metis prod.collapse)
      have st': "same_trust s0 s'" using EnsureSession_trust[OF ok assms(2) en] same same_trust_trans by fastforce
      obtain c b'' where c: "sb_Encrypt (mg_Backend m) a material b' = (c, b'')" by (metis prod.collapse)
      show ?thesis
        using st' trusted Inr en c wrapped_ok_key[OF assms(3)[unfolded acc fst_conv] _ tr]
        by (cases e; cases c) (auto simp: acc wrap_target_def Let_def intro!: skip)
    qed
  qed
qed

lemma wrap_targets_ok:
  assumes "same_trust s0 (fst (snd acc))" "mg_Store m = ops"
    and "wrapped_ok (\<lambda>b. so_Trust ops b s0) (mg_TrustPolicy m) sofar (fst acc)"
  shows "wrapped_ok (\<lambda>b. so_Trust ops b s0) (mg_TrustPolicy m) (sofar @ ts) (fst (foldl (wrap_target w m err_text material) acc ts))"
  using assms(1,3)
proof (induction ts arbitrary: acc sofar)
  case (Cons a ts)
  note w = wrap_target_ok[OF Cons.prems(1) assms(2) Cons.prems(2), of w err_text material a]
  show ?case using Cons.IH[OF conjunct1[OF w] conjunct2[OF w]] by simp
qed simp

lemma EncryptMessage_trusted:
  assumes "ok (fst st)" "mg_Store m = ops"
    and "EncryptMessage w m err_text g random order nextID message rs st = ((out, r, None), st')"
  shows "\<exists>e. er_Envelope r = Some e \<and> out = encrypted_message m nextID message e \<and> env_Keys e \<noteq> []
    \<and> map wk_Recipient (env_Keys e) = map ad_DeviceID (er_Recipients r)
    \<and> (\<forall>a\<in>set (er_Recipients r). trusts (\<lambda>b. so_Trust ops b (fst st)) (mg_TrustPolicy m) a)"
proof -
  let ?rs = "if rs = [] \<and> msg_To message \<noteq> [] then [msg_To message] else rs"
  obtain own s1 targets s2 material iv payload keys r' where run:
    "so_OwnDeviceID ops (fst st) = (Inr own, s1)" "own_targets w m own (foldl (recipient_targets w m) ([], s1) ?rs) = (targets, s2)"
    "foldl (wrap_target w m err_text material) (([], result0), s2, snd st) (order targets) = ((keys, r'), st')" "keys \<noteq> []"
    "r = r'\<lparr>er_Envelope := Some \<lparr>env_Sender = own, env_IV = iv, env_Payload = payload, env_Keys = keys\<rparr>\<rparr>"
    "out = encrypted_message m nextID message \<lparr>env_Sender = own, env_IV = iv, env_Payload = payload, env_Keys = keys\<rparr>"
    using EncryptMessage_run[OF assms(3)] unfolding assms(2) by metis
  have "same_trust (fst st) s1" using own_id[OF assms(1) run(1)] by (simp add: same_trust_def)
  moreover have "same_trust s1 (snd (foldl (recipient_targets w m) ([], s1) ?rs))"
    using recipient_targets_trust[of "([], s1)" m w] calculation assms(2) by (simp add: same_trust_def)
  moreover have "same_trust (snd (foldl (recipient_targets w m) ([], s1) ?rs)) s2"
    using own_targets_trust[of "foldl (recipient_targets w m) ([], s1) ?rs" m w own] calculation(2) assms(2) run(2)
    by (simp add: same_trust_def)
  ultimately have s2: "same_trust (fst st) s2" using same_trust_trans by blast
  have "wrapped_ok (\<lambda>b. so_Trust ops b (fst st)) (mg_TrustPolicy m) ([] @ order targets) (keys, r')"
    using wrap_targets_ok[where ?s0.0 = "fst st" and acc = "(([], result0), s2, snd st)" and m = m and sofar = "[]"
      and w = w and err_text = err_text and material = material and ts = "order targets"] s2 assms(2) run(3)
    by (simp add: wrapped_ok_def result0_def)
  then show ?thesis using run(4-6) by (simp add: wrapped_ok_def)
qed

end

end
