(* ===== verification/Omemo_Session.thy ===== *)
theory Omemo_Session
  imports Omemo "HOL-Library.List_Lexorder" "HOL-Library.Char_ord"
begin

text \<open>
  End-to-end encryption: what travels from \<^verbatim>\<open>EncryptMessage\<close> of one manager through the stream to
  \<^verbatim>\<open>DecryptFrom\<close> of another. The contract between the two session backends is the locale
  \<open>session_pair\<close>; the backend of \<^verbatim>\<open>src/omemo/testkit/backend.go\<close> provides it. SHA-256 and AES-GCM
  are arguments with the laws the code relies on.
\<close>

subsection \<open>The test backend\<close>

record tk_backend =
  tk_bundle :: key_bundle
  tk_sessions :: "string \<Rightarrow> bytes option"
  tk_fresh :: "string \<Rightarrow> bool"

text \<open>\<^verbatim>\<open>NewBackend\<close> from the four random strings.\<close>

definition NewBackend :: "(bytes \<times> bytes \<times> bytes \<times> bytes) result \<Rightarrow> tk_backend result" where
  "NewBackend random =
     (case random of
        Inl e \<Rightarrow> Inl e
      | Inr (ident, signedKey, signature, prekey) \<Rightarrow>
          Inr \<lparr>tk_bundle = \<lparr>bd_IdentityKey = ident, bd_SignedPreKeyID = 1, bd_SignedPreKey = signedKey,
                            bd_SignedPreKeySignature = signature, bd_PreKeys = [PreKey 1 prekey]\<rparr>,
               tk_sessions = Map.empty, tk_fresh = (\<lambda>_. False)\<rparr>)"

definition derive :: "(bytes \<Rightarrow> bytes) \<Rightarrow> bytes \<Rightarrow> bytes \<Rightarrow> bytes" where
  "derive sha256 a b = (if a > b then sha256 (b @ a) else sha256 (a @ b))"

definition tk_BuildSession :: "(bytes \<Rightarrow> bytes) \<Rightarrow> address \<Rightarrow> key_bundle \<Rightarrow> tk_backend \<Rightarrow> go_error option \<times> tk_backend" where
  "tk_BuildSession sha256 a remote b =
     (if bd_IdentityKey remote = [] then (Some (Errf ''testkit: remote identity missing''), b)
      else (None, b\<lparr>tk_sessions := (tk_sessions b)(Address_String a \<mapsto> derive sha256 (bd_IdentityKey (tk_bundle b)) (bd_IdentityKey remote)),
                    tk_fresh := (tk_fresh b)(Address_String a := True)\<rparr>))"

definition tk_Encrypt ::
  "gcm \<Rightarrow> bytes result \<Rightarrow> address \<Rightarrow> bytes \<Rightarrow> tk_backend \<Rightarrow> session_ciphertext result \<times> tk_backend" where
  "tk_Encrypt g nonce a plain b =
     (let pre = tk_fresh b (Address_String a); b' = b\<lparr>tk_fresh := (tk_fresh b)(Address_String a := False)\<rparr> in
      case tk_sessions b (Address_String a) of
        None \<Rightarrow> (Inl (Sentinel ErrMissingSession), b')
      | Some key \<Rightarrow>
          (case nonce of
             Inl e \<Rightarrow> (Inl e, b')
           | Inr n \<Rightarrow> (Inr (SessionCiphertext (bd_IdentityKey (tk_bundle b) @ n @ gcm_Seal g key n plain) pre), b')))"

definition tk_Decrypt ::
  "gcm \<Rightarrow> (bytes \<Rightarrow> bytes) \<Rightarrow> address \<Rightarrow> session_ciphertext \<Rightarrow> tk_backend \<Rightarrow> bytes result \<times> tk_backend" where
  "tk_Decrypt g sha256 a c b =
     (let data = sc_Data c in
      if length data < 32 + 12 then (Inl (Errf ''testkit: ciphertext too short''), b)
      else
        let key = derive sha256 (bd_IdentityKey (tk_bundle b)) (take 32 data) in
        case gcm_Open g key (take 12 (drop 32 data)) (drop 44 data) of
          None \<Rightarrow> (Inl (Foreign ''cipher: message authentication failed''), b)
        | Some plain \<Rightarrow> (Inr plain, b\<lparr>tk_sessions := (tk_sessions b)(Address_String a \<mapsto> key)\<rparr>))"

definition testkit :: "gcm \<Rightarrow> (bytes \<Rightarrow> bytes) \<Rightarrow> bytes result \<Rightarrow> tk_backend session_backend" where
  "testkit g sha256 nonce =
     \<lparr>sb_OwnBundle = (\<lambda>b. Inr (tk_bundle b)), sb_HasSession = (\<lambda>a b. Inr (tk_sessions b (Address_String a) \<noteq> None)),
      sb_BuildSession = tk_BuildSession sha256, sb_Encrypt = tk_Encrypt g nonce, sb_Decrypt = tk_Decrypt g sha256\<rparr>"

subsection \<open>The contract of two backends\<close>

definition gcm_ok :: "gcm \<Rightarrow> bool" where
  "gcm_ok g \<longleftrightarrow> (\<forall>k n p. gcm_Open g k n (gcm_Seal g k n p) = Some p \<and> length (gcm_Seal g k n p) = length p + 16)"

text \<open>
  \<open>agree a b\<close> says that the sender's backend in state \<open>a\<close> and the receiver's in state \<open>b\<close> hold the two
  ends of a session; the sender's own operations for any address keep it.
\<close>

locale session_pair =
  fixes sender :: "'a session_backend" and receiver :: "'b session_backend"
    and dest :: address and origin :: address
    and agree :: "'a \<Rightarrow> 'b \<Rightarrow> bool"
  assumes delivered: "agree a b \<Longrightarrow> sb_Encrypt sender dest plain a = (Inr c, a') \<Longrightarrow> fst (sb_Decrypt receiver origin c b) = Inr plain"
    and keeps_encrypt: "agree a b \<Longrightarrow> sb_Encrypt sender x plain a = (r, a') \<Longrightarrow> agree a' b"
    and keeps_build: "agree a b \<Longrightarrow> x \<noteq> dest \<Longrightarrow> sb_BuildSession sender x bd a = (e, a') \<Longrightarrow> agree a' b"
    and has_session: "agree a b \<Longrightarrow> sb_HasSession sender dest a = Inr True"

lemma derive_sym: "derive sha256 a b = derive sha256 b a"
  by (cases a b rule: linorder_cases) (auto simp: derive_def)

definition tk_agree :: "(bytes \<Rightarrow> bytes) \<Rightarrow> address \<Rightarrow> tk_backend \<Rightarrow> tk_backend \<Rightarrow> bool" where
  "tk_agree sha256 dest a b \<longleftrightarrow>
     length (bd_IdentityKey (tk_bundle a)) = 32
     \<and> tk_sessions a (Address_String dest) = Some (derive sha256 (bd_IdentityKey (tk_bundle a)) (bd_IdentityKey (tk_bundle b)))"

lemma tk_delivered:
  assumes "gcm_ok g" "length nonce = 12" "tk_agree sha256 dest a b" "tk_Encrypt g (Inr nonce) dest plain a = (Inr c, a')"
  shows "fst (tk_Decrypt g sha256 origin c b) = Inr plain"
proof -
  let ?k = "derive sha256 (bd_IdentityKey (tk_bundle b)) (bd_IdentityKey (tk_bundle a))"
  have "sc_Data c = bd_IdentityKey (tk_bundle a) @ nonce @ gcm_Seal g ?k nonce plain"
    using assms(3,4) by (auto simp: tk_Encrypt_def tk_agree_def Let_def derive_sym)
  then show ?thesis using assms(1-3) by (simp add: tk_Decrypt_def tk_agree_def gcm_ok_def Let_def)
qed

interpretation testkit_pair:
  session_pair "testkit g sha256 (Inr nonce)" "testkit g sha256 other" dest origin
    "\<lambda>a b. gcm_ok g \<and> length nonce = 12 \<and> tk_agree sha256 dest a b" for g sha256 nonce other dest origin
proof
  fix a a' :: tk_backend and b :: tk_backend and x plain c r e bd
  assume ab: "gcm_ok g \<and> length nonce = 12 \<and> tk_agree sha256 dest a b"
  show "fst (sb_Decrypt (testkit g sha256 other) origin c b) = Inr plain"
    if "sb_Encrypt (testkit g sha256 (Inr nonce)) dest plain a = (Inr c, a')"
    using ab that tk_delivered[of g nonce sha256 dest a b plain c a' origin] by (simp add: testkit_def)
  show "gcm_ok g \<and> length nonce = 12 \<and> tk_agree sha256 dest a' b"
    if "sb_Encrypt (testkit g sha256 (Inr nonce)) x plain a = (r, a')"
    using ab that by (auto simp: testkit_def tk_Encrypt_def tk_agree_def Let_def split: option.splits)
  show "gcm_ok g \<and> length nonce = 12 \<and> tk_agree sha256 dest a' b"
    if "x \<noteq> dest" "sb_BuildSession (testkit g sha256 (Inr nonce)) x bd a = (e, a')"
    using ab that by (auto simp: testkit_def tk_BuildSession_def tk_agree_def split: if_splits)
  show "sb_HasSession (testkit g sha256 (Inr nonce)) dest a = Inr True"
    using ab by (simp add: testkit_def tk_agree_def)
qed

subsection \<open>The message on its way\<close>

lemma Name_wire_built: "well_built n \<Longrightarrow> Name (wire d n) = Name n"
  by (metis Name_strip strip_wire_built)

lemma Message_Extension_received:
  "list_all well_built (msg_Extensions m) \<Longrightarrow>
   Message_Extension (received_message d m) ns l = map_option (wire d) (Message_Extension m ns l)"
proof -
  have "list_all well_built es \<Longrightarrow> findExtension (map (wire d) es) ns l = map_option (wire d) (findExtension es ns l)" for es
    by (induction es) (auto simp: Name_wire_built)
  then show "list_all well_built (msg_Extensions m) \<Longrightarrow> ?thesis"
    by (simp add: Message_Extension_def received_message_def)
qed

lemma slot_simps:
  "slot p (add_extension e m) = slot p m @ (if p e then [e] else [])"
  "(\<And>n. p n \<Longrightarrow> Space (Name n) \<noteq> ns) \<Longrightarrow> slot p (removeExtension ns names m) = slot p m"
  by (auto simp: slot_def add_extension_def removeExtension_def intro: filter_cong)

lemma omemo_slot_frame:
  fixes x :: message
  defines "p \<equiv> in_slot OmemoNS [''encrypted'']"
  shows "slot p (SetEncryptionInfo i x) = slot p x" "slot p (AddHint h x) = slot p x" "slot p (SetOriginID j x) = slot p x"
    "slot p (x\<lparr>msg_ID := j\<rparr>) = slot p x"
proof -
  have other: "\<not> p n" if "Space (Name n) \<noteq> OmemoNS" for n using that by (simp add: p_def in_slot_def)
  have n: "n \<in> {EncryptionNS, HintsNS, StanzaIDNS} \<Longrightarrow> p k \<Longrightarrow> Space (Name k) \<noteq> n" for n k by (auto simp: p_def in_slot_def)
  show "slot p (SetEncryptionInfo i x) = slot p x"
    unfolding SetEncryptionInfo_def slot_simps(1) by (simp add: slot_simps(2) n other)
  show "slot p (AddHint h x) = slot p x" by (simp add: AddHint_def slot_simps(1) other)
  show "slot p (SetOriginID j x) = slot p x"
    unfolding SetOriginID_def slot_simps(1) by (simp add: slot_simps(2) n other id_node_def)
  show "slot p (x\<lparr>msg_ID := j\<rparr>) = slot p x" by (simp add: slot_def)
qed

lemma encrypted_message_ext:
  "Message_Extension (encrypted_message m nid message e) OmemoNS ''encrypted'' = Some (Envelope_ToNode e)"
proof -
  let ?p = "in_slot OmemoNS [''encrypted'']"
  have "slot ?p (message\<lparr>msg_Body := f, msg_Extensions := withoutOMEMO (msg_Extensions message) @ [Envelope_ToNode e]\<rparr>) = [Envelope_ToNode e]" for f
    by (auto simp: slot_def withoutOMEMO_def in_slot_def named_def Envelope_children filter_empty_conv)
  then have "slot ?p (encrypted_message m nid message e) = [Envelope_ToNode e]"
    unfolding encrypted_message_def Let_def by (simp only: omemo_slot_frame split: if_split) simp
  then show ?thesis
    by (simp add: Message_Extension_slot[of _ "[''encrypted'']"] Envelope_children)
qed

lemma encrypted_message_built:
  "list_all well_built (msg_Extensions message) \<Longrightarrow> list_all well_built (msg_Extensions (encrypted_message m nid message e))"
proof -
  assume "list_all well_built (msg_Extensions message)"
  then have "list_all well_built (withoutOMEMO (msg_Extensions message) @ [Envelope_ToNode e])"
    by (auto simp: withoutOMEMO_def list_all_iff envelope_codec.encode_built)
  then show ?thesis
    by (auto simp: encrypted_message_def Let_def SetOriginID_def AddHint_def SetEncryptionInfo_def add_extension_def
        removeExtension_def id_node_def list_all_iff intro!: inv_intros)
qed

lemma seal_open:
  assumes "gcm_ok g" "length key = 16" "length iv = 12" "seal g (Inr (key, iv)) p = Inr (material, iv', payload)"
  shows "open_payload g material iv' payload = Some (Inr p)" "iv' = iv"
proof -
  let ?s = "gcm_Seal g key iv p"
  have m: "material = key @ drop (length ?s - 16) ?s" "iv' = iv" "payload = take (length ?s - 16) ?s"
    using assms(4) by (auto simp: seal_def Let_def)
  have "length ?s = length p + 16" "gcm_Open g key iv ?s = Some p" using assms(1) by (simp_all add: gcm_ok_def)
  then show "open_payload g material iv' payload = Some (Inr p)" using assms(2,3) by (simp add: open_payload_def m Let_def)
  show "iv' = iv" by (fact m(2))
qed

subsection \<open>The keys\<close>

definition opens :: "'b session_backend \<Rightarrow> address \<Rightarrow> 'b \<Rightarrow> bytes \<Rightarrow> wrapped_key \<Rightarrow> bool" where
  "opens receiver origin b material k \<longleftrightarrow>
     fst (sb_Decrypt receiver origin (SessionCiphertext (wk_Data k) (wk_PreKey k)) b) = Inr material"

definition keys_open :: "'b session_backend \<Rightarrow> address \<Rightarrow> address \<Rightarrow> 'b \<Rightarrow> bytes \<Rightarrow> wrapped_key list \<times> encryption_result \<Rightarrow> bool" where
  "keys_open receiver dest origin b material kr \<longleftrightarrow>
     list_all2 (\<lambda>k a. wk_Recipient k = ad_DeviceID a \<and> (a = dest \<longrightarrow> opens receiver origin b material k))
       (fst kr) (er_Recipients (snd kr))"

lemma keys_open_find:
  assumes "list_all2 (\<lambda>k a. wk_Recipient k = ad_DeviceID a \<and> (a = dest \<longrightarrow> P k)) keys as"
    and "dest \<in> set as" "\<forall>a\<in>set as. ad_DeviceID a = ad_DeviceID dest \<longrightarrow> a = dest"
  shows "\<exists>k. find (\<lambda>k. wk_Recipient k = ad_DeviceID dest) keys = Some k \<and> P k"
  using assms by (induction keys as rule: list_all2_induct) auto

lemma keys_recipients:
  "list_all2 (\<lambda>k a. wk_Recipient k = ad_DeviceID a \<and> P k a) keys as \<Longrightarrow> \<forall>a\<in>set as. ad_DeviceID a \<noteq> 0 \<Longrightarrow>
   \<forall>k\<in>set keys. wk_Recipient k \<noteq> 0"
  by (induction keys as rule: list_all2_induct) auto

context session_pair
begin

lemma EnsureSession_agree:
  assumes "agree (snd st) b" "mg_Backend m = sender" "EnsureSession w m x st = (e, st')"
  shows "agree (snd st') b"
proof -
  have "snd st' = snd st \<or> (x \<noteq> dest \<and> (\<exists>bd e. sb_BuildSession sender x bd (snd st) = (e, snd st')))"
    using assms has_session[OF assms(1)]
    by (cases "x = dest") (auto simp: EnsureSession_def split: prod.splits sum.splits bool.splits option.splits)
  then show ?thesis using assms(1) keeps_build by auto
qed

lemma wrap_target_opens:
  assumes "agree (snd (snd acc)) b" "mg_Backend m = sender" "keys_open receiver dest origin b material (fst acc)"
  shows "agree (snd (snd (wrap_target w m err_text material acc a))) b
    \<and> keys_open receiver dest origin b material (fst (wrap_target w m err_text material acc a))"
proof -
  obtain keys r st where acc: "acc = ((keys, r), st)" by (metis prod.collapse)
  obtain e s' b' where en: "EnsureSession w m a st = (e, s', b')" by (metis prod.collapse)
  have ag: "agree (snd st) b" "agree b' b" using assms(1) EnsureSession_agree[OF _ assms(2) en] by (simp_all add: acc)
  obtain c b'' where c: "sb_Encrypt sender a material b' = (c, b'')" by (metis prod.collapse)
  have ag': "agree b'' b" using keeps_encrypt[OF ag(2) c] .
  have op: "a = dest \<Longrightarrow> c = Inr x \<Longrightarrow> fst (sb_Decrypt receiver origin (SessionCiphertext (sc_Data x) (sc_PreKey x)) b) = Inr material" for x
    using delivered[OF ag(2)] c by auto
  have "keys_open receiver dest origin b material (keys, r\<lparr>er_Skipped := S\<rparr>)" for S
    using assms(3) by (simp add: acc keys_open_def)
  moreover have "keys_open receiver dest origin b material
      (keys @ [\<lparr>wk_Recipient = ad_DeviceID a, wk_PreKey = sc_PreKey x, wk_Data = sc_Data x\<rparr>], r\<lparr>er_Recipients := er_Recipients r @ [a]\<rparr>)"
    if "c = Inr x" for x
    using assms(3) op[OF _ that] by (auto simp: acc keys_open_def opens_def intro!: list_all2_appendI)
  ultimately show ?thesis
    using ag ag' c en assms(2) by (auto simp: acc wrap_target_def Let_def split: sum.splits option.splits)
qed

lemma wrap_targets_open:
  assumes "agree (snd (snd acc)) b" "mg_Backend m = sender" "keys_open receiver dest origin b material (fst acc)"
  shows "keys_open receiver dest origin b material (fst (foldl (wrap_target w m err_text material) acc ts))"
  using assms(1,3)
proof (induction ts arbitrary: acc)
  case (Cons a ts)
  note w = wrap_target_opens[OF Cons.prems(1) assms(2) Cons.prems(2), of w err_text a]
  show ?case using Cons.IH[OF conjunct1[OF w] conjunct2[OF w]] by simp
qed simp

lemma decrypt_encrypted:
  assumes enc: "EncryptMessage w mA err_text g (Inr (key, iv)) order nid message rs (sA, bA) = ((out, r, None), stA)"
    and A: "mg_Backend mA = sender" "agree bA bB" "fst (so_OwnDeviceID (mg_Store mA) sA) = Inr (ad_DeviceID origin)"
    and g: "gcm_ok g" "length key = 16" "length iv = 12"
    and rec: "dest \<in> set (er_Recipients r)" "\<forall>a\<in>set (er_Recipients r). ad_DeviceID a = ad_DeviceID dest \<longrightarrow> a = dest"
    and nz: "ad_DeviceID origin \<noteq> 0" "\<forall>a\<in>set (er_Recipients r). ad_DeviceID a \<noteq> 0"
    and B: "mg_Backend mB = receiver" "so_OwnDeviceID (mg_Store mB) sB = (Inr (ad_DeviceID dest), sB')"
      "effectiveTrust mB origin sB' = Inr t" "ad_JID origin = BareJIDString jid"
    and ext: "list_all well_built (msg_Extensions message)"
  shows "\<exists>plain res st. DecryptFrom mB g fingerprint (received_message d out) jid (sB, bB) = Some (Inr (plain, res), st)
    \<and> msg_Body plain = msg_Body message \<and> Message_Extension plain OmemoNS ''encrypted'' = None
    \<and> dr_Sender res = origin \<and> dr_Trust res = t"
proof -
  obtain own s1 targets s2 material iv' payload keys r' where run:
    "so_OwnDeviceID (mg_Store mA) sA = (Inr own, s1)" "seal g (Inr (key, iv)) (msg_Body message) = Inr (material, iv', payload)"
    "foldl (wrap_target w mA err_text material) (([], result0), s2, bA) (order targets) = ((keys, r'), stA)" "keys \<noteq> []"
    "r = r'\<lparr>er_Envelope := Some \<lparr>env_Sender = own, env_IV = iv', env_Payload = payload, env_Keys = keys\<rparr>\<rparr>"
    "out = encrypted_message mA nid message \<lparr>env_Sender = own, env_IV = iv', env_Payload = payload, env_Keys = keys\<rparr>"
    by (rule EncryptMessage_run[OF enc]) auto
  define e where "e = \<lparr>env_Sender = own, env_IV = iv', env_Payload = payload, env_Keys = keys\<rparr>"
  have own: "own = ad_DeviceID origin" using A(3) run(1) by simp
  have ko: "keys_open receiver dest origin bB material (keys, r')"
    using wrap_targets_open[where acc = "(([], result0), s2, bA)" and b = bB and m = mA and material = material and w = w
      and err_text = err_text and ts = "order targets"] A run(3) by (simp add: keys_open_def result0_def)
  then have l2: "list_all2 (\<lambda>k a. wk_Recipient k = ad_DeviceID a \<and> (a = dest \<longrightarrow> opens receiver origin bB material k)) keys (er_Recipients r)"
    by (simp add: keys_open_def run(5))
  obtain k where k: "KeyFor e (ad_DeviceID dest) = Some k" "opens receiver origin bB material k"
    using keys_open_find[OF l2 rec] by (auto simp: KeyFor_def e_def)
  have "\<forall>k\<in>set keys. wk_Recipient k \<noteq> 0"
    using keys_recipients[OF l2 nz(2)] .
  moreover note op = seal_open[OF g run(2)]
  ultimately have "envelope_valid e" using nz(1) own run(4) g(3) by (auto simp: envelope_valid_def e_def)
  then have env: "ParseEnvelope (wire d (Envelope_ToNode e)) = Inr e" by (rule envelope_codec.decode_wire)
  have msg: "Message_Extension (received_message d out) OmemoNS ''encrypted'' = Some (wire d (Envelope_ToNode e))"
    by (simp add: Message_Extension_received[OF encrypted_message_built[OF ext]] encrypted_message_ext run(6) e_def)
  have addr: "Address (BareJIDString jid) (env_Sender e) = origin" using B(4) own by (cases origin) (simp add: e_def)
  obtain b' where dec: "sb_Decrypt receiver origin (SessionCiphertext (wk_Data k) (wk_PreKey k)) bB = (Inr material, b')"
    using k(2) unfolding opens_def by (metis prod.collapse)
  have none: "Message_Extension (x\<lparr>msg_Extensions := withoutOMEMO es\<rparr>) OmemoNS ''encrypted'' = None" for x :: message and es
    by (auto simp: Message_Extension_def findExtension_find withoutOMEMO_def find_None_iff named_def)
  have "open_payload g material (env_IV e) (env_Payload e) = Some (Inr (msg_Body message))" using op by (simp add: e_def)
  then show ?thesis
    using msg env B(1-3) k(1) dec by (simp add: DecryptFrom_def addr Let_def none)
qed

end

subsection \<open>Properties\<close>

text \<open>
  An example: alice's device 7 and bob's device 5 hold the two ends of a session, alice has cached bob's
  device list and trusts the device. The cipher appends a constant tag and the hash is constant.
\<close>

definition example_gcm :: gcm where
  "example_gcm = \<lparr>gcm_Seal = (\<lambda>_ _ p. p @ replicate 16 CHR ''0''), gcm_Open = (\<lambda>_ _ c. Some (take (length c - 16) c))\<rparr>"

definition example_end :: "char \<Rightarrow> string \<Rightarrow> tk_backend" where
  "example_end k peer =
     \<lparr>tk_bundle = \<lparr>bd_IdentityKey = replicate 32 k, bd_SignedPreKeyID = 1, bd_SignedPreKey = ''s'', bd_SignedPreKeySignature = ''g'',
        bd_PreKeys = [PreKey 1 ''p'']\<rparr>,
      tk_sessions = [peer \<mapsto> ''h''], tk_fresh = (\<lambda>_. True)\<rparr>"

definition example_data :: "device_id \<Rightarrow> memory_data" where
  "example_data own =
     \<lparr>md_Own = own, md_Lists = [''bob@x'' \<mapsto> \<lparr>dl_JID = ''bob@x'', dl_Devices = [5], dl_FetchedAt = \<lparr>tm_sec = 9, tm_nsec = 0, tm_offset = 0\<rparr>\<rparr>],
      md_Bundles = Map.empty, md_Trust = [''bob@x:5'' \<mapsto> TrustTrusted, ''alice@x:7'' \<mapsto> TrustVerified]\<rparr>"

definition example_manager :: "(memory_data, tk_backend) manager" where
  "example_manager = New
     \<lparr>mg_Store = memory_store (Inl (Errf [])) \<lparr>tm_sec = 9, tm_nsec = 0, tm_offset = 0\<rparr> sorted_list_of_set,
      mg_Backend = testkit example_gcm (\<lambda>_. ''h'') (Inr (replicate 12 CHR ''n'')), mg_TrustPolicy = [], mg_DeviceListTTL = 0,
      mg_DisableOwnDevices = True, mg_AutoDecrypt = True, mg_FallbackBody = [], mg_SenderJID = None\<rparr>"

definition example_world :: world where
  "example_world =
     \<lparr>wd_request = (\<lambda>_. Inl (Errf [])), wd_now = \<lparr>tm_sec = 10, tm_nsec = 0, tm_offset = 0\<rparr>, wd_own = ''alice@x''\<rparr>"

definition example_secret :: message where
  "example_secret = message0\<lparr>msg_To := ''bob@x/phone'', msg_Body := ''secret''\<rparr>"

definition example_run :: "(message \<times> encryption_result \<times> go_error option) \<times> memory_data \<times> tk_backend" where
  "example_run =
     EncryptMessage example_world example_manager (\<lambda>_. []) example_gcm (Inr (replicate 16 CHR ''k'', replicate 12 CHR ''i'')) id ''id1''
       example_secret [] (example_data 7, example_end CHR ''a'' ''bob@x:5'')"

lemma example_names:
  "Address_String (Address ''bob@x'' 5) = ''bob@x:5''" "Address_String (Address ''alice@x'' 7) = ''alice@x:7''"
  "BareJIDString ''bob@x/phone'' = ''bob@x''" "BareJIDString ''bob@x'' = ''bob@x''"
  "BareJIDString ''alice@x/home'' = ''alice@x''" "BareJIDString ''alice@x'' = ''alice@x''"
  by code_simp+

lemma example_trust:
  "effectiveTrust example_manager (Address ''bob@x'' 5) (example_data i) = Inr TrustTrusted"
  "effectiveTrust example_manager (Address ''alice@x'' 7) (example_data i) = Inr TrustVerified"
  by (simp_all add: effectiveTrust_def example_manager_def New_def memory_store_def mem_Trust_def example_data_def example_names)

lemma example_store:
  "mg_Store example_manager = memory_store (Inl (Errf [])) \<lparr>tm_sec = 9, tm_nsec = 0, tm_offset = 0\<rparr> sorted_list_of_set"
  "mg_TrustPolicy example_manager = TrustBlindBeforeVerification"
  "so_OwnDeviceID (mg_Store example_manager) (example_data 5) = (Inr 5, example_data 5)"
  "so_OwnDeviceID (mg_Store example_manager) (example_data 7) = (Inr 7, example_data 7)"
  "mg_DisableOwnDevices example_manager"
  "DeviceList example_world example_manager ''bob@x'' False (example_data i)
   = (Inr \<lparr>dl_JID = ''bob@x'', dl_Devices = [5], dl_FetchedAt = \<lparr>tm_sec = 9, tm_nsec = 0, tm_offset = 0\<rparr>\<rparr>, example_data i)"
  by (simp_all add: example_manager_def New_def memory_store_def mem_OwnDeviceID_def example_data_def DeviceList_def
      mem_DeviceList_def example_names since_def example_world_def Let_def)

lemma example_backend:
  "mg_Backend example_manager = testkit example_gcm (\<lambda>_. ''h'') (Inr (replicate 12 CHR ''n''))"
  "EnsureSession w example_manager (Address ''bob@x'' 5) (s, example_end k ''bob@x:5'') = (None, s, example_end k ''bob@x:5'')"
  by (simp_all add: example_manager_def New_def EnsureSession_def testkit_def example_end_def example_names)

lemma example_run_result:
  "snd (snd (fst example_run)) = None" "er_Recipients (fst (snd (fst example_run))) = [Address ''bob@x'' 5]"
proof -
  let ?b = "example_end CHR ''a'' ''bob@x:5''"
  have t: "recipient_targets example_world example_manager ([], example_data 7) ''bob@x/phone'' = ([Address ''bob@x'' 5], example_data 7)"
    by (simp add: recipient_targets_def example_names example_store(6) add_targets_def Let_def)
  have e: "fst (sb_Encrypt (mg_Backend example_manager) (Address ''bob@x'' 5) m ?b) \<noteq> Inl x" for m x
    by (simp add: example_backend testkit_def tk_Encrypt_def example_end_def example_names Let_def)
  then have w: "\<exists>k st. wrap_target example_world example_manager err m (([], result0), example_data 7, ?b) (Address ''bob@x'' 5)
      = (([k], result0\<lparr>er_Recipients := [Address ''bob@x'' 5]\<rparr>), st)" for m err
    by (auto simp: wrap_target_def example_trust example_backend(2) Let_def result0_def split: prod.splits sum.splits)
      (metis fst_conv)
  obtain m iv p where sl: "seal example_gcm (Inr (replicate 16 CHR ''k'', replicate 12 CHR ''i'')) ''secret'' = Inr (m, iv, p)"
    by (simp add: seal_def Let_def)
  obtain k st where "wrap_target example_world example_manager (\<lambda>_. []) m (([], result0), example_data 7, ?b) (Address ''bob@x'' 5)
      = (([k], result0\<lparr>er_Recipients := [Address ''bob@x'' 5]\<rparr>), st)" using w by blast
  then show "snd (snd (fst example_run)) = None" "er_Recipients (fst (snd (fst example_run))) = [Address ''bob@x'' 5]"
    by (simp_all add: example_run_def EncryptMessage_def example_store(3-5) example_secret_def message0_def t own_targets_def sl Let_def)
qed

lemma example_run_pair: "example_run = ((fst (fst example_run), fst (snd (fst example_run)), None), snd example_run)"
  using example_run_result(1) by (metis prod.collapse)

lemma example_gcm_ok: "gcm_ok example_gcm"
  by (simp add: gcm_ok_def example_gcm_def)

text \<open>C25: a message that \<^verbatim>\<open>EncryptMessage\<close> returns without an error carries exactly one wrapped key per
  recipient of the result, and each of these devices is one the store trusts or has verified, or is undecided
  under a policy that lets it in: no key reaches a distrusted or ignored device, and under blind trust no
  undecided device of a contact who has a verified one.\<close>

theorem omemo_keys_only_trusted:
  assumes "trust_ok order s" "mg_Store m = memory_store raw now order"
    and "EncryptMessage w m err_text g random walk nid message rs (s, b) = ((out, r, None), st')"
  shows "\<exists>e. er_Envelope r = Some e \<and> Message_Extension out OmemoNS ''encrypted'' = Some (Envelope_ToNode e)
    \<and> env_Keys e \<noteq> [] \<and> map wk_Recipient (env_Keys e) = map ad_DeviceID (er_Recipients r)
    \<and> (\<forall>a\<in>set (er_Recipients r). trusts (\<lambda>c. Inr (mem_Trust c s)) (mg_TrustPolicy m) a)"
  using memory.EncryptMessage_trusted[of order "(s, b)" m raw now, OF _ assms(2,3)] assms(1) encrypted_message_ext
  by (auto simp: memory_store_def)

theorem omemo_keys_only_trusted_witness:
  "\<exists>e. er_Envelope (fst (snd (fst example_run))) = Some e
    \<and> map wk_Recipient (env_Keys e) = [5] \<and> trusts (\<lambda>c. Inr (mem_Trust c (example_data 7))) TrustBlindBeforeVerification (Address ''bob@x'' 5)"
proof -
  have t: "trust_ok sorted_list_of_set (example_data 7)"
    by (auto simp: trust_ok_def example_data_def mem_keys_def validTrust_def)
  show ?thesis
    using omemo_keys_only_trusted[OF t example_store(1) example_run_pair[unfolded example_run_def]] example_run_result(2)
    by (auto simp: example_store(2) example_run_def)
qed

text \<open>C26: end to end. Take two managers whose backends hold the two ends of a session (the contract
  \<open>session_pair\<close>), a message that the first encrypts without an error, with the device \<open>dest\<close> among the
  recipients and no other recipient of the same number. The stanza as the second receives it decrypts to the
  original body, is attributed to the sending device with the trust the receiver holds for it, and carries
  no encrypted element any more.\<close>

theorem omemo_roundtrip:
  assumes "session_pair (mg_Backend mA) (mg_Backend mB) dest origin agree" "agree bA bB"
    and "EncryptMessage w mA err_text g (Inr (key, iv)) walk nid message rs (sA, bA) = ((out, r, None), stA)"
    and "fst (so_OwnDeviceID (mg_Store mA) sA) = Inr (ad_DeviceID origin)"
    and "gcm_ok g" "length key = 16" "length iv = 12" "list_all well_built (msg_Extensions message)"
    and "dest \<in> set (er_Recipients r)" "\<forall>a\<in>set (er_Recipients r). ad_DeviceID a = ad_DeviceID dest \<longrightarrow> a = dest"
    and "ad_DeviceID origin \<noteq> 0" "\<forall>a\<in>set (er_Recipients r). ad_DeviceID a \<noteq> 0"
    and "so_OwnDeviceID (mg_Store mB) sB = (Inr (ad_DeviceID dest), sB')"
    and "effectiveTrust mB origin sB' = Inr t" "ad_JID origin = BareJIDString jid"
  shows "\<exists>plain res st. DecryptFrom mB g fingerprint (received_message d out) jid (sB, bB) = Some (Inr (plain, res), st)
    \<and> msg_Body plain = msg_Body message \<and> Message_Extension plain OmemoNS ''encrypted'' = None
    \<and> dr_Sender res = origin \<and> dr_Trust res = t"
  using session_pair.decrypt_encrypted[OF assms(1,3) refl assms(2,4-7,9-12) refl assms(13-15,8)] .

theorem omemo_roundtrip_witness:
  "\<exists>plain res st. DecryptFrom example_manager example_gcm (\<lambda>_. []) (received_message ''jabber:client'' (fst (fst example_run))) ''alice@x/home''
       (example_data 5, example_end CHR ''b'' ''alice@x:7'') = Some (Inr (plain, res), st)
    \<and> msg_Body plain = ''secret'' \<and> dr_Sender res = Address ''alice@x'' 7 \<and> dr_Trust res = TrustVerified"
proof -
  let ?n = "replicate 12 CHR ''n''" and ?h = "\<lambda>_ :: bytes. ''h''" and ?o = "Address ''alice@x'' 7"
  have p: "session_pair (mg_Backend example_manager) (mg_Backend example_manager) (Address ''bob@x'' 5) ?o
      (\<lambda>a b. gcm_ok example_gcm \<and> length ?n = 12 \<and> tk_agree ?h (Address ''bob@x'' 5) a b)"
    using testkit_pair.session_pair_axioms[of example_gcm ?h ?n "Inr ?n"] by (simp add: example_backend)
  have ag: "gcm_ok example_gcm \<and> length ?n = 12 \<and> tk_agree ?h (Address ''bob@x'' 5) (example_end CHR ''a'' ''bob@x:5'') (example_end CHR ''b'' ''alice@x:7'')"
    using example_gcm_ok by (simp add: tk_agree_def example_end_def example_names derive_def)
  have r: "\<exists>plain res st. DecryptFrom example_manager example_gcm (\<lambda>_. []) (received_message ''jabber:client'' (fst (fst example_run))) ''alice@x/home''
       (example_data 5, example_end CHR ''b'' ''alice@x:7'') = Some (Inr (plain, res), st)
    \<and> msg_Body plain = msg_Body example_secret \<and> Message_Extension plain OmemoNS ''encrypted'' = None
    \<and> dr_Sender res = ?o \<and> dr_Trust res = TrustVerified"
  proof (rule omemo_roundtrip[OF p _ trans[OF example_run_def[symmetric] example_run_pair] _ example_gcm_ok])
    show "so_OwnDeviceID (mg_Store example_manager) (example_data 5) = (Inr (ad_DeviceID (Address ''bob@x'' 5)), example_data 5)"
      by (simp add: example_store(3))
  qed (use ag in \<open>simp_all add: example_run_result example_store(4) example_trust example_names example_secret_def message0_def\<close>)
  show ?thesis using r by (simp add: example_secret_def) blast
qed

text \<open>Encryption replaces the body and nothing else of the message's text: the language-tagged bodies, which
  hold the same text for a message that was received with a language, leave in clear next to the envelope.\<close>

theorem omemo_bodies_in_clear:
  "msg_Bodies (encrypted_message m nid message e) = msg_Bodies message
   \<and> msg_Subject (encrypted_message m nid message e) = msg_Subject message"
  by (simp add: encrypted_message_def Let_def SetEncryptionInfo_def AddHint_def SetOriginID_def add_extension_def removeExtension_def)

text \<open>C40: an envelope whose IV does not have 12 bytes passes \<^verbatim>\<open>ParseEnvelope\<close>, and when its key unwraps, the
  call of AES-GCM panics: \<^verbatim>\<open>DecryptFrom\<close> returns neither a message nor an error.\<close>

theorem omemo_bad_iv_panics:
  assumes "Message_Extension message OmemoNS ''encrypted'' = Some n" "ParseEnvelope n = Inr e" "length (env_IV e) \<noteq> 12"
    and "so_OwnDeviceID (mg_Store m) s = (Inr own, s')" "KeyFor e own = Some k" "length material = 32"
    and "sb_Decrypt (mg_Backend m) (Address (BareJIDString jid) (env_Sender e)) (SessionCiphertext (wk_Data k) (wk_PreKey k)) b = (Inr material, b')"
  shows "DecryptFrom m g fingerprint message jid (s, b) = None"
  using assms by (simp add: DecryptFrom_def open_payload_def Let_def)

definition example_bad_envelope :: envelope where
  "example_bad_envelope =
     \<lparr>env_Sender = 7, env_IV = ''short'', env_Payload = ''p'',
      env_Keys = [\<lparr>wk_Recipient = 5, wk_PreKey = False, wk_Data = replicate 32 CHR ''a'' @ replicate 60 CHR ''n''\<rparr>]\<rparr>"

theorem omemo_bad_iv_panics_witness:
  "DecryptFrom example_manager example_gcm (\<lambda>_. []) (message0\<lparr>msg_Extensions := [Envelope_ToNode example_bad_envelope]\<rparr>) ''alice@x''
     (example_data 5, example_end CHR ''b'' ''alice@x:7'') = None"
proof (rule omemo_bad_iv_panics[of _ "Envelope_ToNode example_bad_envelope" example_bad_envelope _ _ 5 "example_data 5"])
  show "ParseEnvelope (Envelope_ToNode example_bad_envelope) = Inr example_bad_envelope"
    by (rule envelope_codec.decode_encode) (simp add: envelope_valid_def example_bad_envelope_def)
  show "so_OwnDeviceID (mg_Store example_manager) (example_data 5) = (Inr 5, example_data 5)"
    by (rule example_store)
  show "KeyFor example_bad_envelope 5 = Some (hd (env_Keys example_bad_envelope))" by code_simp
  show "sb_Decrypt (mg_Backend example_manager) (Address (BareJIDString ''alice@x'') (env_Sender example_bad_envelope))
      (SessionCiphertext (wk_Data (hd (env_Keys example_bad_envelope))) (wk_PreKey (hd (env_Keys example_bad_envelope))))
      (example_end CHR ''b'' ''alice@x:7'')
    = (Inr (replicate 32 CHR ''n''),
       (example_end CHR ''b'' ''alice@x:7'')\<lparr>tk_sessions := [''alice@x:7'' \<mapsto> ''h'']\<rparr>)"
    by (simp add: example_backend testkit_def tk_Decrypt_def example_bad_envelope_def example_gcm_def derive_def example_end_def example_names)
qed (simp_all add: Message_Extension_def example_bad_envelope_def Envelope_children message0_def)

end
