(* ===== verification/Storage.thy ===== *)
theory Storage
  imports Pubsub Disco Muc Datetime
begin

text \<open>
  Private storage, bookmarks, file upload and the self-ping of rooms:
  \<^verbatim>\<open>src/xep/storage_upload.go\<close>. A plugin that has not been initialised has no client (\<open>None\<close>); the
  HTTP exchange and the checks of \<^verbatim>\<open>url.Parse\<close> after the scheme are arguments.
\<close>

abbreviation PrivateXMLNS :: string where "PrivateXMLNS \<equiv> ''jabber:iq:private''"
abbreviation LegacyBookmarksNS :: string where "LegacyBookmarksNS \<equiv> ''storage:bookmarks''"
abbreviation BookmarksNS :: string where "BookmarksNS \<equiv> ''urn:xmpp:bookmarks:1''"
abbreviation HTTPUploadNS :: string where "HTTPUploadNS \<equiv> ''urn:xmpp:http:upload:0''"

type_synonym client_request = "(iq \<Rightarrow> iq result) option"

subsection \<open>Private XML storage\<close>

definition private_query :: "string \<Rightarrow> node \<Rightarrow> iq" where
  "private_query kind n = iq0\<lparr>iq_Type := kind, iq_Payloads := [AddChild n (NewNode PrivateXMLNS ''query'')]\<rparr>"

definition PrivateXML_Get :: "client_request \<Rightarrow> string \<Rightarrow> string \<Rightarrow> node result" where
  "PrivateXML_Get client namespace l =
     (case client of
        None \<Rightarrow> Inl (Errf ''xep: private XML plugin is not initialized'')
      | Some request \<Rightarrow>
          (case request (private_query IQGet (NewNode namespace l)) of
             Inl e \<Rightarrow> Inl e
           | Inr response \<Rightarrow>
               (case IQ_Payload response of
                  None \<Rightarrow> Inl (Errf ''xep: missing private XML response'')
                | Some payload \<Rightarrow>
                    (case Child namespace l payload of
                       None \<Rightarrow> Inl (Errorf ''xep: private XML payload {%s}%s missing'' [namespace, l] None)
                     | Some n \<Rightarrow> Inr n))))"

definition PrivateXML_Set :: "client_request \<Rightarrow> node \<Rightarrow> go_error option" where
  "PrivateXML_Set client n =
     (case client of
        None \<Rightarrow> Some (Errf ''xep: private XML plugin is not initialized'')
      | Some request \<Rightarrow> iq_error (request (private_query IQSet n)))"

subsection \<open>Bookmarks\<close>

record bookmark =
  bk_JID :: string
  bk_Name :: string
  bk_Nick :: string
  bk_Password :: string
  bk_AutoJoin :: bool
  bk_Extensions :: "node list"

text \<open>The part the two formats share: the optional attributes and children in the given namespace.\<close>

definition conference_node :: "string \<Rightarrow> bookmark \<Rightarrow> node \<Rightarrow> node" where
  "conference_node ns b n =
     AddChildIf (bk_Password b \<noteq> []) (NewTextNode ns ''password'' (bk_Password b))
       (AddChildIf (bk_Nick b \<noteq> []) (NewTextNode ns ''nick'' (bk_Nick b))
         (SetAttrOpt ''autojoin'' (if bk_AutoJoin b then Some ''true'' else None) (SetAttrIf ''name'' (bk_Name b) n)))"

definition legacyNode :: "bookmark \<Rightarrow> node" where
  "legacyNode b = conference_node LegacyBookmarksNS b (SetAttr ''jid'' (bk_JID b) (NewNode LegacyBookmarksNS ''conference''))"

definition nativeNode :: "bookmark \<Rightarrow> node" where
  "nativeNode b = AddChildren (bk_Extensions b) (conference_node BookmarksNS b (NewNode BookmarksNS ''conference''))"

definition autojoin_set :: "node \<Rightarrow> bool" where
  "autojoin_set n \<longleftrightarrow> (case AttrValue ''autojoin'' n of None \<Rightarrow> False | Some raw \<Rightarrow> raw = ''true'' \<or> raw = ''1'')"

definition parse_legacy :: "node \<Rightarrow> bookmark" where
  "parse_legacy n =
     \<lparr>bk_JID = or_empty (AttrValue ''jid'' n), bk_Name = or_empty (AttrValue ''name'' n),
      bk_Nick = ChildText LegacyBookmarksNS ''nick'' n, bk_Password = ChildText LegacyBookmarksNS ''password'' n,
      bk_AutoJoin = autojoin_set n, bk_Extensions = []\<rparr>"

definition parse_native :: "string \<Rightarrow> node \<Rightarrow> bookmark" where
  "parse_native i n =
     \<lparr>bk_JID = i, bk_Name = or_empty (AttrValue ''name'' n),
      bk_Nick = ChildText BookmarksNS ''nick'' n, bk_Password = ChildText BookmarksNS ''password'' n,
      bk_AutoJoin = autojoin_set n,
      bk_Extensions = filter (\<lambda>c. Local (Name c) \<noteq> ''nick'' \<and> Local (Name c) \<noteq> ''password'') (Children n)\<rparr>"

definition LegacyBookmarks_Get :: "client_request \<Rightarrow> bookmark list result" where
  "LegacyBookmarks_Get client =
     (case PrivateXML_Get client LegacyBookmarksNS ''storage'' of
        Inl e \<Rightarrow> Inl e
      | Inr storage \<Rightarrow> Inr (map parse_legacy (filter (\<lambda>n. Local (Name n) = ''conference'') (Children storage))))"

definition LegacyBookmarks_Set :: "client_request \<Rightarrow> bookmark list \<Rightarrow> go_error option" where
  "LegacyBookmarks_Set client bookmarks =
     (if \<exists>b\<in>set bookmarks. bk_JID b = [] then Some (Errf ''xep: bookmark JID is required'')
      else PrivateXML_Set client (AddChildren (map legacyNode bookmarks) (NewNode LegacyBookmarksNS ''storage'')))"

definition option_field :: "string \<Rightarrow> string \<Rightarrow> string \<Rightarrow> field" where
  "option_field var kind v = field0\<lparr>fld_Var := var, fld_Type := kind, fld_Values := [v]\<rparr>"

definition bookmark_options :: form where
  "bookmark_options = form0\<lparr>frm_Fields :=
     [option_field ''pubsub#persist_items'' ''boolean'' ''true'', option_field ''pubsub#access_model'' ''list-single'' ''whitelist'',
      option_field ''pubsub#send_last_published_item'' ''list-single'' ''never'']\<rparr>"

definition NativeBookmarks_Publish :: "(iq \<Rightarrow> iq result) \<Rightarrow> bookmark \<Rightarrow> go_error option" where
  "NativeBookmarks_Publish request b =
     (if bk_JID b = [] then Some (Errf ''xep: bookmark JID is required'')
      else case PEP_Publish request BookmarksNS (bk_JID b) (nativeNode b) (Some bookmark_options) of
        Inl e \<Rightarrow> Some e | Inr _ \<Rightarrow> None)"

definition NativeBookmarks_Delete :: "(iq \<Rightarrow> iq result) \<Rightarrow> string \<Rightarrow> go_error option" where
  "NativeBookmarks_Delete request jid = PubSub_Retract request [] BookmarksNS True [jid]"

definition item_bookmarks :: "pubsub_item \<Rightarrow> bookmark list" where
  "item_bookmarks item = map (parse_native (pi_ID item)) (filter (named BookmarksNS ''conference'') (pi_Payloads item))"

definition NativeBookmarks_Get :: "(iq \<Rightarrow> iq result) \<Rightarrow> string \<Rightarrow> bookmark list result" where
  "NativeBookmarks_Get request jid =
     (case PEP_Items request jid BookmarksNS 0 of
        Inl e \<Rightarrow> Inl e
      | Inr items \<Rightarrow> Inr (concat (map item_bookmarks items)))"

subsection \<open>HTTP headers and URLs\<close>

text \<open>\<^verbatim>\<open>http.Header\<close>: a map from canonical names (\<^verbatim>\<open>textproto.CanonicalMIMEHeaderKey\<close>) to values.\<close>

type_synonym http_header = "string \<Rightarrow> string list option"

definition header_char :: "char \<Rightarrow> bool" where
  "header_char c \<longleftrightarrow>
     (let n = of_char c :: nat in 48 \<le> n \<and> n \<le> 57 \<or> 65 \<le> n \<and> n \<le> 90 \<or> 97 \<le> n \<and> n \<le> 122
        \<or> n \<in> {33, 35, 36, 37, 38, 39, 42, 43, 45, 46, 94, 95, 96, 124, 126})"

fun canon :: "bool \<Rightarrow> string \<Rightarrow> string" where
  "canon upper [] = []"
| "canon upper (c # cs) = (if upper then upper_char c else lower_char c) # canon (c = CHR ''-'') cs"

definition canonical_key :: "string \<Rightarrow> string" where
  "canonical_key s = (if list_all header_char s then canon True s else s)"

definition header_Add :: "string \<Rightarrow> string \<Rightarrow> http_header \<Rightarrow> http_header" where
  "header_Add name v h = h(canonical_key name \<mapsto> (case h (canonical_key name) of None \<Rightarrow> [] | Some vs \<Rightarrow> vs) @ [v])"

definition header_Set :: "string \<Rightarrow> string \<Rightarrow> http_header \<Rightarrow> http_header" where
  "header_Set name v h = h(canonical_key name \<mapsto> [v])"

text \<open>
  \<^verbatim>\<open>getScheme\<close> of \<^verbatim>\<open>net/url\<close>: \<open>None\<close> is the error for a URL that starts with a colon. \<open>rest\<close> is the
  outcome of the checks that follow (control characters, host, port and escapes).
\<close>

fun getScheme :: "string \<Rightarrow> string \<Rightarrow> string option" where
  "getScheme seen [] = Some []"
| "getScheme seen (c # cs) =
     (if c \<in> set ''abcdefghijklmnopqrstuvwxyzABCDEFGHIJKLMNOPQRSTUVWXYZ'' then getScheme (seen @ [c]) cs
      else if c \<in> set ''0123456789+-.'' then (if seen = [] then Some [] else getScheme (seen @ [c]) cs)
      else if c = CHR '':'' then (if seen = [] then None else Some seen)
      else Some [])"

definition url_Scheme :: "(string \<Rightarrow> go_error option) \<Rightarrow> string \<Rightarrow> string result" where
  "url_Scheme rest u =
     (case getScheme [] u of
        None \<Rightarrow> Inl (Foreign ''missing protocol scheme'')
      | Some s \<Rightarrow> (case rest u of Some e \<Rightarrow> Inl e | None \<Rightarrow> Inr (map lower_char s)))"

subsection \<open>File upload\<close>

record upload_slot =
  us_PutURL :: string
  us_GetURL :: string
  us_Headers :: http_header

definition slot_request :: "string \<Rightarrow> string \<Rightarrow> string \<Rightarrow> int \<Rightarrow> iq" where
  "slot_request service filename mediaType sz =
     iq0\<lparr>iq_To := service, iq_Type := IQGet, iq_Payloads :=
       [SetAttrIf ''content-type'' mediaType
          (SetAttr ''size'' (Itoa sz) (SetAttr ''filename'' filename (NewNode HTTPUploadNS ''request'')))]\<rparr>"

definition put_header :: "http_header \<Rightarrow> node \<Rightarrow> http_header" where
  "put_header h n =
     (if Local (Name n) \<noteq> ''header'' \<or> or_empty (AttrValue ''name'' n) = [] then h
      else header_Add (or_empty (AttrValue ''name'' n)) (Text n) h)"

definition parse_slot :: "node \<Rightarrow> upload_slot" where
  "parse_slot payload =
     \<lparr>us_PutURL = (case Child HTTPUploadNS ''put'' payload of None \<Rightarrow> [] | Some p \<Rightarrow> or_empty (AttrValue ''url'' p)),
      us_GetURL = (case Child HTTPUploadNS ''get'' payload of None \<Rightarrow> [] | Some g \<Rightarrow> or_empty (AttrValue ''url'' g)),
      us_Headers = (case Child HTTPUploadNS ''put'' payload of None \<Rightarrow> Map.empty | Some p \<Rightarrow> foldl put_header Map.empty (Children p))\<rparr>"

definition RequestSlot :: "client_request \<Rightarrow> string \<Rightarrow> string \<Rightarrow> string \<Rightarrow> int \<Rightarrow> upload_slot result" where
  "RequestSlot client service filename mediaType sz =
     (case client of
        None \<Rightarrow> Inl (Errf ''xep: HTTP upload plugin is not initialized'')
      | Some request \<Rightarrow>
          if filename = [] then Inl (Errf ''xep: upload filename is required'')
          else if sz < 0 then Inl (Errf ''xep: upload size cannot be negative'')
          else case request (slot_request service filename mediaType sz) of
            Inl e \<Rightarrow> Inl e
          | Inr response \<Rightarrow>
              (case IQ_Payload response of
                 None \<Rightarrow> Inl (Errf ''xep: missing HTTP upload slot'')
               | Some payload \<Rightarrow>
                   if \<not> named HTTPUploadNS ''slot'' payload then Inl (Errf ''xep: missing HTTP upload slot'')
                   else let sl = parse_slot payload in
                     if us_PutURL sl = [] \<or> us_GetURL sl = [] then Inl (Errf ''xep: incomplete HTTP upload slot'')
                     else Inr sl))"

record http_request =
  hr_URL :: string
  hr_Body :: bytes
  hr_ContentLength :: int
  hr_Header :: http_header

record http_response =
  hp_StatusCode :: int
  hp_Status :: string

text \<open>
  \<^verbatim>\<open>Upload\<close> returns the request it sends, if it sends one, beside its result. \<open>order\<close> enumerates the
  slot's header map; \<^verbatim>\<open>NewRequestWithContext\<close> parses the same URL once more, with the same outcome.
\<close>

definition merge_headers :: "(string \<times> string list) list \<Rightarrow> http_header \<Rightarrow> http_header" where
  "merge_headers order h = foldl (\<lambda>h (name, vs). foldl (\<lambda>h v. header_Add name v h) h vs) h order"

definition put_request :: "(string \<times> string list) list \<Rightarrow> upload_slot \<Rightarrow> bytes \<Rightarrow> int \<Rightarrow> string \<Rightarrow> http_request" where
  "put_request order sl body sz mediaType =
     \<lparr>hr_URL = us_PutURL sl, hr_Body = body, hr_ContentLength = sz,
      hr_Header = merge_headers order (if mediaType \<noteq> [] then header_Set ''Content-Type'' mediaType Map.empty else Map.empty)\<rparr>"

definition Upload ::
  "(string \<Rightarrow> go_error option) \<Rightarrow> (http_request \<Rightarrow> http_response result) \<Rightarrow> (string \<times> string list) list \<Rightarrow> bool
    \<Rightarrow> upload_slot \<Rightarrow> bytes \<Rightarrow> int \<Rightarrow> string \<Rightarrow> http_request option \<times> go_error option" where
  "Upload rest do_http order allowInsecure sl body sz mediaType =
     (case url_Scheme rest (us_PutURL sl) of
        Inl e \<Rightarrow> (None, Some (Errorf ''xep: invalid upload URL: %w'' [] (Some e)))
      | Inr scheme \<Rightarrow>
          if \<not> allowInsecure \<and> scheme \<noteq> ''https'' then (None, Some (Errf ''xep: refusing non-HTTPS upload URL''))
          else let q = put_request order sl body sz mediaType in
            (Some q,
             case do_http q of
               Inl e \<Rightarrow> Some e
             | Inr r \<Rightarrow> if hp_StatusCode r < 200 \<or> hp_StatusCode r \<ge> 300
                        then Some (Errorf ''xep: upload failed with HTTP %s'' [hp_Status r] None) else None))"

definition max_file_size :: "form list \<Rightarrow> int" where
  "max_file_size forms =
     foldl (\<lambda>n f. case Form_Field ''max-file-size'' f of
              Some x \<Rightarrow> (case fld_Values x of [] \<Rightarrow> n | v # _ \<Rightarrow> fst (ParseInt64 v))
            | None \<Rightarrow> n) 0 forms"

fun first_upload_service :: "(string \<Rightarrow> disco_info result) \<Rightarrow> disco_item list \<Rightarrow> (string \<times> int) result" where
  "first_upload_service info [] = Inl (Errf ''xep: no HTTP upload service discovered'')"
| "first_upload_service info (item # items) =
     (case info (it_JID item) of
        Inl _ \<Rightarrow> first_upload_service info items
      | Inr i \<Rightarrow>
          if HTTPUploadNS \<in> set (di_Features i) then Inr (it_JID item, max_file_size (di_Forms i))
          else first_upload_service info items)"

definition Discover :: "(iq \<Rightarrow> iq result) \<Rightarrow> string \<Rightarrow> (string \<times> int) result" where
  "Discover request domain =
     (case GetItems request domain [] None of
        Inl e \<Rightarrow> Inl e
      | Inr items \<Rightarrow> first_upload_service (\<lambda>jid. GetInfo request jid []) (ds_Items items))"

subsection \<open>Self-ping\<close>

definition SelfPing :: "(iq \<Rightarrow> iq result) \<Rightarrow> string \<Rightarrow> int \<Rightarrow> int \<Rightarrow> muc \<Rightarrow> int \<times> go_error option" where
  "SelfPing request room started returned s =
     (case MUC_Room room s of
        None \<Rightarrow> (0, Some (Errorf ''xep: not joined to %s'' [room] None))
      | Some state \<Rightarrow>
          if \<not> rm_Joined state then (0, Some (Errorf ''xep: not joined to %s'' [room] None))
          else Ping request (BareJIDString room @ ''/'' @ rm_Nick state) started returned)"

subsection \<open>Bookmarks survive storage\<close>

lemma ChildText_found: "ns \<noteq> [] \<Longrightarrow> ChildText ns l n = (case find (named ns l) (Children n) of None \<Rightarrow> [] | Some c \<Rightarrow> Text c)"
proof -
  have "named ns l = (\<lambda>c. Local (Name c) = l \<and> Space (Name c) = ns)" by (auto simp: named_def)
  then show "ns \<noteq> [] \<Longrightarrow> ?thesis" by (simp add: ChildText_def Child_eq_find)
qed

lemma find_conference:
  "find (named ns ''nick'') (Children (conference_node ns b n)) =
     (case find (named ns ''nick'') (Children n) of None \<Rightarrow> if bk_Nick b \<noteq> [] then Some (NewTextNode ns ''nick'' (bk_Nick b)) else None | c \<Rightarrow> c)"
  "find (named ns ''password'') (Children (conference_node ns b n)) =
     (case find (named ns ''password'') (Children n) of None \<Rightarrow> if bk_Password b \<noteq> [] then Some (NewTextNode ns ''password'' (bk_Password b)) else None | c \<Rightarrow> c)"
  by (auto simp: conference_node_def find_append_split named_def split: option.splits)

lemma ChildText_conference:
  "ns \<noteq> [] \<Longrightarrow> Children n = [] \<Longrightarrow> ChildText ns ''nick'' (conference_node ns b n) = bk_Nick b"
  "ns \<noteq> [] \<Longrightarrow> Children n = [] \<Longrightarrow> ChildText ns ''password'' (conference_node ns b n) = bk_Password b"
  by (simp_all add: ChildText_found find_conference)

lemma conference_attrs:
  "AttrValue k (conference_node ns b n) =
     (if k = ''autojoin'' \<and> bk_AutoJoin b then Some ''true'' else if k = ''name'' \<and> bk_Name b \<noteq> [] then Some (bk_Name b) else AttrValue k n)"
  by (auto simp: conference_node_def AttrValue_SetAttrIf)

lemma parse_legacyNode: "bk_Extensions b = [] \<Longrightarrow> parse_legacy (legacyNode b) = b"
  by (cases b) (auto simp: parse_legacy_def legacyNode_def ChildText_conference conference_attrs autojoin_set_def)

interpretation legacy_codec: payload_codec legacyNode "\<lambda>n. Inr (parse_legacy n)" "\<lambda>b. bk_Extensions b = []"
proof
  show "Inr (parse_legacy (legacyNode b)) = Inr b" if "bk_Extensions b = []" for b using parse_legacyNode[OF that] by simp
  show "well_built (legacyNode b)" for b unfolding legacyNode_def conference_node_def by (intro inv_intros) auto
  show "Inr (parse_legacy (strip_xmlns n)) = Inr (parse_legacy n)" for n by (simp add: parse_legacy_def autojoin_set_def)
qed

text \<open>A server that answers with the stored element; the request and the answer cross the wire.\<close>

definition private_server :: "node \<Rightarrow> iq \<Rightarrow> iq" where
  "private_server stored q = IQ_Result q [AddChild stored (NewNode PrivateXMLNS ''query'')]"

lemma legacy_bookmarks_stored:
  assumes "\<forall>b\<in>set bs. bk_Extensions b = []"
  shows "LegacyBookmarks_Get (Some (answered_by d
    (private_server (AddChildren (map legacyNode bs) (NewNode LegacyBookmarksNS ''storage''))))) = Inr bs"
proof -
  define p where "p = AddChild (AddChildren (map legacyNode bs) (NewNode LegacyBookmarksNS ''storage'')) (NewNode PrivateXMLNS ''query'')"
  let ?f = "\<lambda>p. case Child LegacyBookmarksNS ''storage'' p of None \<Rightarrow> None
      | Some st \<Rightarrow> Some (map parse_legacy (filter (\<lambda>n. Local (Name n) = ''conference'') (Children st)))"
  have blind: "parse_legacy (strip_xmlns n) = parse_legacy n" for n using legacy_codec.decode_blind by simp
  have "?f (wire d p) = ?f p"
  proof (rule decode_wire_built[where f = ?f])
    show "?f (strip_xmlns m) = ?f m" for m by (simp add: filter_strip blind comp_def split: option.splits)
    show "well_built p" unfolding p_def by (intro inv_intros) (auto simp: legacy_codec.encode_built)
  qed
  moreover have "filter (\<lambda>n. Local (Name n) = ''conference'') (map legacyNode bs) = map legacyNode bs"
    by (rule filter_True) (auto simp: legacyNode_def conference_node_def)
  then have "?f p = Some bs"
    using assms by (simp add: p_def Child_eq_find comp_def parse_legacyNode map_idI)
  ultimately have "?f (wire d p) = Some bs" by simp
  moreover have "answered_by d (private_server (AddChildren (map legacyNode bs) (NewNode LegacyBookmarksNS ''storage''))) q
      = Inr (over_wire d (IQ_Result (over_wire d q) [p]))" for q
    by (rule answered_result) (simp add: private_server_def p_def)
  ultimately show ?thesis
    by (auto simp: LegacyBookmarks_Get_def PrivateXML_Get_def split: option.splits)
qed

lemma parse_nativeNode:
  assumes "\<forall>e\<in>set (bk_Extensions b). Local (Name e) \<noteq> ''nick'' \<and> Local (Name e) \<noteq> ''password''"
  shows "parse_native (bk_JID b) (nativeNode b) = b"
proof -
  let ?n = "conference_node BookmarksNS b (NewNode BookmarksNS ''conference'')"
  have none: "find (named BookmarksNS k) (bk_Extensions b) = None" if "k = ''nick'' \<or> k = ''password''" for k
    using assms that by (auto simp: find_None_iff named_def)
  have tx: "ChildText BookmarksNS k (nativeNode b) = ChildText BookmarksNS k ?n" if "k = ''nick'' \<or> k = ''password''" for k
    using none[OF that] by (simp add: nativeNode_def ChildText_found find_append_split split: option.splits)
  have "filter (\<lambda>c. Local (Name c) \<noteq> ''nick'' \<and> Local (Name c) \<noteq> ''password'') (Children (nativeNode b)) = bk_Extensions b"
    using assms by (auto simp: nativeNode_def conference_node_def filter_id_conv)
  moreover have "AttrValue k (nativeNode b) = AttrValue k ?n" for k by (simp add: nativeNode_def)
  ultimately show ?thesis
    using parse_native_def[of "bk_JID b" "nativeNode b"] by (auto simp: tx ChildText_conference autojoin_set_def conference_attrs)
qed

lemma native_bookmarks_stored:
  assumes "\<And>q. request q = Inr (IQ_Result q [items_answer BookmarksNS (map (\<lambda>b. (bk_JID b, [nativeNode b])) bs) None])"
    and "\<forall>b\<in>set bs. \<forall>e\<in>set (bk_Extensions b). Local (Name e) \<noteq> ''nick'' \<and> Local (Name e) \<noteq> ''password''"
  shows "NativeBookmarks_Get request jid = Inr bs"
proof -
  have n: "named BookmarksNS ''conference'' (nativeNode b)" for b by (simp add: nativeNode_def conference_node_def named_def)
  have "concat (map (\<lambda>b. item_bookmarks \<lparr>pi_ID = bk_JID b, pi_Publisher = [], pi_Payloads = [nativeNode b]\<rparr>) bs) = bs"
    using assms(2) by (induction bs) (simp_all add: item_bookmarks_def n parse_nativeNode)
  then show ?thesis
    by (simp add: NativeBookmarks_Get_def PEP_Items_def GetItems_answer[OF assms(1)] comp_def)
qed

subsection \<open>What is uploaded where\<close>

lemma of_char_case:
  "of_char (upper_char c) = (if 97 \<le> (of_char c :: nat) \<and> of_char c \<le> (122 :: nat) then of_char c - 32 else (of_char c :: nat))"
  "of_char (lower_char c) = (if 65 \<le> (of_char c :: nat) \<and> of_char c \<le> (90 :: nat) then of_char c + 32 else (of_char c :: nat))"
  by (auto simp: upper_char_def lower_char_def)

lemma char_eq_nat: "c = d \<longleftrightarrow> (of_char c :: nat) = of_char d"
  by (simp add: of_char_eq_iff)

lemma case_hyphen: "upper_char c = CHR ''-'' \<longleftrightarrow> c = CHR ''-''" "lower_char c = CHR ''-'' \<longleftrightarrow> c = CHR ''-''"
  unfolding char_eq_nat of_char_case by auto

lemma upper_char_idem: "upper_char (upper_char c) = upper_char c"
  unfolding char_eq_nat of_char_case by auto

lemma header_char_upper: "header_char c \<Longrightarrow> header_char (upper_char c)"
proof (cases "97 \<le> (of_char c :: nat) \<and> of_char c \<le> (122 :: nat)")
  case True
  then have "65 \<le> (of_char (upper_char c) :: nat) \<and> of_char (upper_char c) \<le> (90 :: nat)" by (auto simp: of_char_case)
  then show ?thesis by (simp add: header_char_def Let_def)
qed (auto simp: upper_char_def)

lemma header_char_lower: "header_char c \<Longrightarrow> header_char (lower_char c)"
proof (cases "65 \<le> (of_char c :: nat) \<and> of_char c \<le> (90 :: nat)")
  case True
  then have "97 \<le> (of_char (lower_char c) :: nat) \<and> of_char (lower_char c) \<le> (122 :: nat)" by (auto simp: of_char_case)
  then show ?thesis by (simp add: header_char_def Let_def)
qed (auto simp: lower_char_def)

lemma canon_idem: "canon u (canon u s) = canon u s"
  by (induction u s rule: canon.induct) (simp_all add: case_hyphen upper_char_idem)

lemma header_char_canon: "list_all header_char s \<Longrightarrow> list_all header_char (canon u s)"
  by (induction u s rule: canon.induct) (simp_all add: header_char_upper header_char_lower)

lemma canonical_key_idem: "canonical_key (canonical_key s) = canonical_key s"
  by (simp add: canonical_key_def canon_idem header_char_canon)

text \<open>The keys of a header map built with \<^verbatim>\<open>Add\<close> are canonical, and no key is without a value.\<close>

definition header_ok :: "http_header \<Rightarrow> bool" where
  "header_ok h \<longleftrightarrow> (\<forall>k vs. h k = Some vs \<longrightarrow> canonical_key k = k \<and> vs \<noteq> [])"

lemma header_ok_Add: "header_ok h \<Longrightarrow> header_ok (header_Add n v h)"
  by (auto simp: header_ok_def header_Add_def canonical_key_idem)

lemma header_ok_slot: "header_ok (us_Headers (parse_slot p))"
proof -
  have "header_ok h \<Longrightarrow> header_ok (foldl put_header h ns)" for h ns
    by (induction ns arbitrary: h) (simp_all add: put_header_def header_ok_Add)
  moreover have "header_ok Map.empty" by (simp add: header_ok_def)
  ultimately show ?thesis by (simp add: parse_slot_def split: option.splits)
qed

lemma add_values:
  "canonical_key n = n \<Longrightarrow> vs \<noteq> [] \<Longrightarrow>
   foldl (\<lambda>h v. header_Add n v h) h vs = h(n \<mapsto> (case h n of None \<Rightarrow> [] | Some ws \<Rightarrow> ws) @ vs)"
proof (induction vs arbitrary: h)
  case (Cons v vs)
  then show ?case by (cases "vs = []") (auto simp: header_Add_def fun_upd_def split: option.splits)
qed simp

lemma merge_headers_at:
  assumes "distinct (map fst order)" "\<forall>(n, vs)\<in>set order. canonical_key n = n \<and> vs \<noteq> []"
  shows "merge_headers order h k =
    (case map_of order k of None \<Rightarrow> h k | Some vs \<Rightarrow> Some ((case h k of None \<Rightarrow> [] | Some ws \<Rightarrow> ws) @ vs))"
  using assms
proof (induction order arbitrary: h)
  case (Cons x order)
  obtain n vs where x: "x = (n, vs)" by (metis prod.collapse)
  define h' where "h' = h(n \<mapsto> (case h n of None \<Rightarrow> [] | Some ws \<Rightarrow> ws) @ vs)"
  have none: "map_of order n = None" using Cons.prems(1) x by (simp add: map_of_eq_None_iff)
  have "merge_headers (x # order) h k = merge_headers order h' k"
    using Cons.prems(2) by (simp add: merge_headers_def x add_values h'_def)
  also have "\<dots> = (case map_of order k of None \<Rightarrow> h' k | Some vs \<Rightarrow> Some ((case h' k of None \<Rightarrow> [] | Some ws \<Rightarrow> ws) @ vs))"
    using Cons.prems by (intro Cons.IH) simp_all
  finally show ?case using none by (cases "k = n"; cases "map_of order k") (simp_all add: x h'_def)
qed (simp add: merge_headers_def)

lemma getScheme_split: "getScheme seen u = Some s \<Longrightarrow> s \<noteq> [] \<Longrightarrow> \<exists>r. seen @ u = s @ CHR '':'' # r"
proof (induction u arbitrary: seen)
  case (Cons c cs)
  show ?case using Cons.prems Cons.IH[of "seen @ [c]"] by (auto split: if_splits simp del: set_simps)
qed simp

text \<open>C27: unless insecure uploads are allowed, the request that goes out is addressed to the slot's PUT URL and
  that URL starts with \<^verbatim>\<open>https:\<close> in upper or lower case. It carries the body, the given length, and exactly
  the headers the service asked for, whatever their names, after the media type; the headers are
  independent of the order in which Go walks the map.\<close>

theorem upload_request_exact:
  assumes "RequestSlot client service filename mt n = Inr sl"
    and "distinct (map fst order)" "map_of order = us_Headers sl"
    and "Upload rest do_http order False sl body sz mediaType = (Some q, r)"
  shows "map lower_char (take 6 (us_PutURL sl)) = ''https:'' \<and> hr_URL q = us_PutURL sl \<and> hr_Body q = body \<and> hr_ContentLength q = sz
    \<and> hr_Header q k = (let given = (if k = ''Content-Type'' \<and> mediaType \<noteq> [] then [mediaType] else []) @
                                (case us_Headers sl k of None \<Rightarrow> [] | Some vs \<Rightarrow> vs)
                       in if given = [] then None else Some given)"
proof -
  obtain p where p: "sl = parse_slot p"
    using assms(1) by (auto simp: RequestSlot_def Let_def split: option.splits if_splits sum.splits)
  obtain s where s: "getScheme [] (us_PutURL sl) = Some s" "map lower_char s = ''https''" "q = put_request order sl body sz mediaType"
    using assms(4) by (auto simp: Upload_def url_Scheme_def Let_def split: sum.splits if_splits option.splits)
  moreover have "length s = 5" using arg_cong[OF s(2), of length] by simp
  ultimately have "take 6 (us_PutURL sl) = s @ '':''" using getScheme_split[OF s(1)] by auto
  then have "map lower_char (take 6 (us_PutURL sl)) = map lower_char s @ [lower_char CHR '':'']" by simp
  then have u: "map lower_char (take 6 (us_PutURL sl)) = ''https:''" unfolding s(2) by (simp add: lower_char_def)
  have ok: "header_ok (us_Headers sl)" unfolding p by (rule header_ok_slot)
  then have "\<forall>(n, vs)\<in>set order. canonical_key n = n \<and> vs \<noteq> []"
    using assms(2) unfolding header_ok_def assms(3)[symmetric] by (auto simp: map_of_is_SomeI)
  note m = merge_headers_at[OF assms(2) this]
  have ct: "canonical_key ''Content-Type'' = ''Content-Type''" by code_simp
  have "us_Headers sl k \<noteq> Some []" using ok by (auto simp: header_ok_def)
  then show ?thesis
    using u by (auto simp: s(3) put_request_def m assms(3) header_Set_def ct Let_def split: option.splits)
qed

definition example_slot_answer :: node where
  "example_slot_answer =
     AddChild (SetAttr ''url'' ''https://x/g'' (NewNode HTTPUploadNS ''get''))
       (AddChild (AddChild (SetAttr ''name'' ''authorization'' (NewTextNode HTTPUploadNS ''header'' ''t'')) (SetAttr ''url'' ''HTTPS://x/p'' (NewNode HTTPUploadNS ''put'')))
         (NewNode HTTPUploadNS ''slot''))"

theorem upload_request_exact_witness:
  "\<exists>sl q. RequestSlot (Some (\<lambda>i. Inr (IQ_Result i [example_slot_answer]))) ''up.x'' ''f'' [] 3 = Inr sl
    \<and> fst (Upload (\<lambda>_. None) (\<lambda>_. Inr \<lparr>hp_StatusCode = 201, hp_Status = ''201 Created''\<rparr>) [(''Authorization'', [''t''])] False sl ''abc'' 3 ''a/b'') = Some q
    \<and> hr_URL q = ''HTTPS://x/p'' \<and> hr_Header q ''Content-Type'' = Some [''a/b''] \<and> hr_Header q ''Authorization'' = Some [''t'']"
proof -
  let ?sl = "parse_slot example_slot_answer" and ?o = "[(''Authorization'', [''t''])]" and ?do = "\<lambda>_. Inr \<lparr>hp_StatusCode = 201, hp_Status = ''201 Created''\<rparr>"
  let ?q = "put_request ?o ?sl ''abc'' 3 ''a/b''"
  have hd: "us_Headers ?sl = [''Authorization'' \<mapsto> [''t'']]"
  proof -
    have "canonical_key ''authorization'' = ''Authorization''" by code_simp
    then show ?thesis by (simp add: parse_slot_def example_slot_answer_def Child_eq_find put_header_def header_Add_def)
  qed
  have rq: "RequestSlot (Some (\<lambda>i. Inr (IQ_Result i [example_slot_answer]))) ''up.x'' ''f'' [] 3 = Inr ?sl"
    by (simp add: RequestSlot_def Let_def) (simp add: example_slot_answer_def parse_slot_def Child_eq_find named_def)
  have url: "us_PutURL ?sl = ''HTTPS://x/p''" by (simp add: example_slot_answer_def parse_slot_def Child_eq_find)
  have "url_Scheme (\<lambda>_. None) ''HTTPS://x/p'' = Inr ''https''" by code_simp
  then have up: "Upload (\<lambda>_. None) ?do ?o False ?sl ''abc'' 3 ''a/b'' = (Some ?q, None)"
    by (simp add: Upload_def url)
  have "distinct (map fst ?o)" "map_of ?o = us_Headers ?sl" by (simp_all add: hd)
  from upload_request_exact[OF rq this up, of "''Content-Type''"] upload_request_exact[OF rq this up, of "''Authorization''"]
  show ?thesis using rq up by (intro exI[of _ ?sl] exI[of _ ?q]) (simp add: hd url Let_def)
qed

text \<open>Discovery returns the first listed service that advertises the feature, skipping those that do not answer.\<close>

lemma first_upload_service_spec:
  "first_upload_service info items =
     (case find (\<lambda>it. \<exists>i. info (it_JID it) = Inr i \<and> HTTPUploadNS \<in> set (di_Features i)) items of
        None \<Rightarrow> Inl (Errf ''xep: no HTTP upload service discovered'')
      | Some it \<Rightarrow> (case info (it_JID it) of Inl e \<Rightarrow> Inl e | Inr i \<Rightarrow> Inr (it_JID it, max_file_size (di_Forms i))))"
  by (induction items) (auto split: sum.splits)

end
