(* ===== verification/Catalog.thy ===== *)
theory Catalog
  imports Storage Client_Control Stream_Management Mam Payloads Omemo
begin

text \<open>
  The plugin catalogue and the registration of the plugins: \<^verbatim>\<open>src/xep/catalog.go\<close>, \<^verbatim>\<open>src/xep/registry.go\<close>
  and the \<^verbatim>\<open>init\<close> functions and metadata methods of every plugin of \<^verbatim>\<open>src/xep\<close>. A factory is the XEP
  number it makes a plugin for; the code of a plugin (\<open>p_code\<close>) stands for its Go type: the XEP number for a
  type of its own, 0 for \<^verbatim>\<open>GenericPlugin\<close> and 1 for \<^verbatim>\<open>featurePlugin\<close>. Go initialises the files of a package in
  the order of their names, \<^verbatim>\<open>catalog.go\<close> first.
\<close>

abbreviation DisplayedSyncNS :: string where "DisplayedSyncNS \<equiv> ''urn:xmpp:mds:displayed:0''"
abbreviation OMEMOMediaNS :: string where "OMEMOMediaNS \<equiv> ''urn:xmpp:omemo:2''"
abbreviation MAMPreferencesNS :: string where "MAMPreferencesNS \<equiv> ''urn:xmpp:mam:2''"

subsection \<open>The catalogue\<close>

datatype coverage = CoverageNone | CoverageCatalog | CoveragePayload | CoverageClient | CoverageOperational

record descriptor =
  d_Number :: nat
  d_Title :: string
  d_Namespaces :: "string list"
  d_Coverage :: coverage
  d_Notes :: string

text \<open>\<^verbatim>\<open>%04d\<close>\<close>

definition digit :: "nat \<Rightarrow> char" where
  "digit n = char_of (48 + n mod 10)"

definition pad4 :: "nat \<Rightarrow> string" where
  "pad4 n = (if n < 10000 then [digit (n div 1000), digit (n div 100), digit (n div 10), digit n] else FormatNat 10 n)"

definition Descriptor_Name :: "descriptor \<Rightarrow> string" where
  "Descriptor_Name d = ''xep_'' @ pad4 (d_Number d)"

definition Descriptor_XEP :: "descriptor \<Rightarrow> string" where
  "Descriptor_XEP d = ''XEP-'' @ pad4 (d_Number d)"

definition catalog_titles :: "(nat \<times> string) list" where
  "catalog_titles =
     [(4, ''Data Forms''), (9, ''Jabber-RPC''), (12, ''Last Activity''), (13, ''Flexible Offline Message Retrieval''),
      (16, ''Privacy Lists''), (20, ''Feature Negotiation''), (27, ''Current Jabber OpenPGP Usage''), (30, ''Service Discovery''),
      (33, ''Extended Stanza Addressing''), (45, ''Multi-User Chat''), (47, ''In-band Bytestreams''), (48, ''Bookmarks''),
      (49, ''Private XML Storage''), (50, ''Ad-Hoc Commands''), (54, ''vcard-temp''), (55, ''Jabber Search''),
      (59, ''Result Set Management''), (60, ''Publish-Subscribe''), (65, ''SOCKS5 Bytestreams''), (66, ''Out of Band Data''),
      (70, ''Verifying HTTP Requests via XMPP''), (71, ''XHTML-IM''), (77, ''In-Band Registration''),
      (78, ''Non-SASL Authentication''), (79, ''Advanced Message Processing''), (80, ''User Location''),
      (82, ''XMPP Date and Time Profiles''), (84, ''User Avatar''), (85, ''Chat State Notifications''),
      (86, ''Error Condition Mappings''), (91, ''Legacy Delayed Delivery''), (92, ''Software Version''),
      (95, ''Stream Initiation''), (96, ''SI File Transfer''), (100, ''Gateway Interaction''), (106, ''JID Escaping''),
      (107, ''User Mood''), (108, ''User Activity''), (115, ''Entity Capabilities''), (118, ''User Tune''),
      (122, ''Data Forms Validation''), (128, ''Service Discovery Extensions''), (131, ''Stanza Headers and Internet Metadata''),
      (133, ''Service Administration''), (152, ''Reachability Addresses''), (153, ''vCard-Based Avatars''),
      (163, ''Personal Eventing Protocol''), (172, ''User Nickname''), (184, ''Message Delivery Receipts''),
      (186, ''Invisible Command''), (191, ''Blocking Command''), (196, ''User Gaming''), (198, ''Stream Management''),
      (199, ''XMPP Ping''), (202, ''Entity Time''), (203, ''Delayed Delivery''), (221, ''Data Forms Media Element''),
      (222, ''Persistent Storage of Public Data via PubSub''), (223, ''Persistent Storage of Private Data via PubSub''),
      (224, ''Attention''), (231, ''Bits of Binary''), (234, ''Jingle File Transfer''), (235, ''OAuth Over XMPP''),
      (242, ''XMPP Client Compliance 2009''), (249, ''Direct MUC Invitations''), (256, ''Last Activity in Presence''),
      (257, ''Client Certificate Management for SASL EXTERNAL''), (258, ''Security Labels in XMPP''),
      (264, ''Jingle Content Thumbnails''), (270, ''XMPP Compliance Suites 2010''), (279, ''Server IP Check''),
      (280, ''Message Carbons''), (292, ''vCard4 Over XMPP''), (297, ''Stanza Forwarding''),
      (300, ''Use of Cryptographic Hash Functions in XMPP''), (302, ''XMPP Compliance Suites 2012''),
      (308, ''Last Message Correction''), (313, ''Message Archive Management''), (317, ''Hats''),
      (319, ''Last User Interaction in Presence''), (323, ''Internet of Things - Sensor Data''),
      (325, ''Internet of Things - Control''), (332, ''HTTP over XMPP Transport''), (333, ''Chat Markers''),
      (334, ''Message Processing Hints''), (335, ''JSON Containers''), (352, ''Client State Indication''),
      (353, ''Jingle Message Initiation''), (356, ''Privileged Entity''), (359, ''Unique and Stable Stanza IDs''),
      (363, ''HTTP File Upload''), (369, ''MIX-CORE''), (372, ''References''), (377, ''Spam Reporting''),
      (380, ''Explicit Message Encryption''), (382, ''Spoiler Messages''), (385, ''Stateless Inline Media Sharing''),
      (394, ''Message Markup''), (402, ''PEP Native Bookmarks''), (403, ''MIX-Presence''), (404, ''MIX-ANON''),
      (405, ''MIX-PAM''), (410, ''MUC Self-Ping''), (421, ''Anonymous Unique Occupant Identifiers for MUCs''),
      (422, ''Message Fastening''), (424, ''Message Retraction''), (425, ''Moderated Message Retraction''),
      (428, ''Fallback Indication''), (437, ''Room Activity Indicators''), (439, ''Quick Response''),
      (441, ''Message Archive Management Preferences''), (444, ''Message Reactions''), (446, ''File Metadata Element''),
      (447, ''Stateless File Sharing''), (449, ''Stickers''), (454, ''OMEMO Media Sharing''), (455, ''Service Outage Status''),
      (461, ''Message Replies''), (462, ''PubSub Type Filtering''), (463, ''MUC Affiliation Versioning''),
      (469, ''Bookmark Pinning''), (482, ''Call Invites''), (490, ''Message Displayed Synchronization''),
      (492, ''Chat Notification Settings''), (494, ''Client Access Management''), (502, ''MUC Activity Indicator''),
      (511, ''Link Metadata''), (513, ''Explicit Mentions'')]"

definition Catalog :: "descriptor list" where
  "Catalog = map (\<lambda>(n, t). \<lparr>d_Number = n, d_Title = t, d_Namespaces = [], d_Coverage = CoverageNone, d_Notes = []\<rparr>) catalog_titles"

text \<open>The \<^verbatim>\<open>init\<close> function: the numbers are distinct, so \<^verbatim>\<open>sort.Slice\<close> has one possible result.\<close>

definition byNumber :: "descriptor list \<Rightarrow> nat \<Rightarrow> nat option" where
  "byNumber cat = foldl (\<lambda>m (i, d). m(d_Number d \<mapsto> i)) Map.empty (enumerate 0 cat)"

definition upgrade :: "(nat \<Rightarrow> nat option) \<Rightarrow> descriptor list \<Rightarrow> nat \<times> coverage \<times> string list \<times> string \<Rightarrow> descriptor list" where
  "upgrade index cat u =
     (case u of (number, coverage, namespaces, remarks) \<Rightarrow>
      case index number of
        None \<Rightarrow> cat
      | Some i \<Rightarrow> cat[i := (cat ! i)\<lparr>d_Coverage := coverage, d_Namespaces := namespaces, d_Notes := remarks\<rparr>])"

definition coverage_metadata :: "(nat \<times> coverage \<times> string list \<times> string) list" where
  "coverage_metadata =
     [(48, CoverageClient, [''storage:bookmarks''],
       ''Legacy conference bookmark read/write through private XML storage.''),
      (49, CoverageClient, [''jabber:iq:private''],
       ''Private XML storage get/set API.''),
      (4, CoverageOperational, [''jabber:x:data''],
       ''Typed forms, validation, and media elements.''),
      (30, CoverageOperational, [''http://jabber.org/protocol/disco#info'', ''http://jabber.org/protocol/disco#items''],
       ''Query and responder APIs.''),
      (45, CoverageClient, [''http://jabber.org/protocol/muc'', ''http://jabber.org/protocol/muc#user'', ''http://jabber.org/protocol/muc#admin'', ''http://jabber.org/protocol/muc#owner''],
       ''Join, leave, invitations, occupants, configuration, and room administration.''),
      (50, CoveragePayload, [''http://jabber.org/protocol/commands''],
       ''Typed command actions, status, notes, and forms.''),
      (59, CoverageOperational, [''http://jabber.org/protocol/rsm''],
       ''Typed request/response sets and paging helpers.''),
      (60, CoverageClient, [''http://jabber.org/protocol/pubsub'', ''http://jabber.org/protocol/pubsub#event'', ''http://jabber.org/protocol/pubsub#owner''],
       ''Publish, retract, subscribe, configuration, affiliations, and events.''),
      (82, CoverageOperational, [],
       ''Date and time profile helpers.''),
      (122, CoveragePayload, [''http://jabber.org/protocol/xdata-validate''],
       ''Data-form validation rules are integrated with XEP-0004 forms.''),
      (163, CoverageClient, [''http://jabber.org/protocol/pubsub#event''],
       ''PEP publish, item retrieval, and event handling over XEP-0060.''),
      (85, CoveragePayload, [''http://jabber.org/protocol/chatstates''],
       ''Typed chat-state extensions.''),
      (92, CoverageOperational, [''jabber:iq:version''],
       ''Automatic responder and query API.''),
      (106, CoverageOperational, [''urn:xmpp:jid:0''],
       ''Implemented by xmpp.EscapeLocal and xmpp.UnescapeLocal.''),
      (184, CoverageClient, [''urn:xmpp:receipts''],
       ''Request, acknowledge, and automatic receipt handling.''),
      (191, CoverageClient, [''urn:xmpp:blocking''],
       ''List, block, unblock, and push events.''),
      (198, CoverageClient, [''urn:xmpp:sm:3''],
       ''Enable and acknowledgement tracking; reconnect/resume remains application-driven.''),
      (199, CoverageOperational, [''urn:xmpp:ping''],
       ''Automatic responder and latency query.''),
      (202, CoverageOperational, [''urn:xmpp:time''],
       ''Automatic responder and query API.''),
      (203, CoverageOperational, [''urn:xmpp:delay''],
       ''Typed delayed-delivery marker.''),
      (221, CoveragePayload, [''urn:xmpp:media-element''],
       ''Media elements are integrated with XEP-0004 fields.''),
      (224, CoveragePayload, [''urn:xmpp:attention:0''],
       ''Attention message payload helpers.''),
      (249, CoveragePayload, [''jabber:x:conference''],
       ''Direct MUC invitation payload helpers.''),
      (231, CoveragePayload, [''urn:xmpp:bob''],
       ''CID generation and Bits of Binary payloads.''),
      (280, CoverageClient, [''urn:xmpp:carbons:2''],
       ''Enable, disable, and forwarded-carbon parsing.''),
      (297, CoveragePayload, [''urn:xmpp:forward:0''],
       ''Typed forwarded stanza container.''),
      (300, CoverageOperational, [''urn:xmpp:hashes:2''],
       ''Hash registry and payload helpers.''),
      (308, CoverageOperational, [''urn:xmpp:message-correct:0''],
       ''Message correction helpers.''),
      (313, CoverageClient, [''urn:xmpp:mam:2''],
       ''Archive queries, result events, fin parsing, and RSM.''),
      (333, CoveragePayload, [''urn:xmpp:chat-markers:0''],
       ''Chat marker payloads.''),
      (334, CoverageOperational, [''urn:xmpp:hints''],
       ''Message-processing hints.''),
      (335, CoverageOperational, [''urn:xmpp:json:0''],
       ''Validated JSON containers.''),
      (352, CoverageClient, [''urn:xmpp:csi:0''],
       ''Active/inactive stream elements.''),
      (359, CoverageOperational, [''urn:xmpp:sid:0''],
       ''Origin and stanza identifiers.''),
      (363, CoverageClient, [''urn:xmpp:http:upload:0''],
       ''Service discovery, slot requests, and HTTP upload.''),
      (372, CoveragePayload, [''urn:xmpp:reference:0''],
       ''Typed references.''),
      (380, CoverageOperational, [''urn:xmpp:eme:0''],
       ''Encryption metadata.''),
      (382, CoverageOperational, [''urn:xmpp:spoiler:0''],
       ''Spoiler marker and localized hint.''),
      (385, CoveragePayload, [''urn:xmpp:sims:1''],
       ''SIMS references and sources.''),
      (394, CoveragePayload, [''urn:xmpp:markup:0''],
       ''Message markup spans, blocks, lists, and code ranges.''),
      (402, CoverageClient, [''urn:xmpp:bookmarks:1''],
       ''PEP bookmark helpers.''),
      (410, CoverageClient, [''urn:xmpp:ping''],
       ''MUC self-ping.''),
      (421, CoverageOperational, [''urn:xmpp:occupant-id:0''],
       ''Occupant identifiers.''),
      (424, CoverageOperational, [''urn:xmpp:message-retract:1''],
       ''Message retraction and fallback.''),
      (428, CoverageOperational, [''urn:xmpp:fallback:0''],
       ''Fallback ranges and stripping.''),
      (441, CoverageClient, [''urn:xmpp:mam:2''],
       ''MAM preference get/set payloads and client API.''),
      (444, CoverageOperational, [''urn:xmpp:reactions:0''],
       ''Message reactions.''),
      (446, CoveragePayload, [''urn:xmpp:file:metadata:0''],
       ''File metadata, hashes, dimensions, and thumbnails.''),
      (447, CoveragePayload, [''urn:xmpp:sfs:0''],
       ''Stateless file sharing.''),
      (454, CoveragePayload, [''urn:xmpp:omemo:2''],
       ''OMEMO media fragment helpers.''),
      (461, CoverageOperational, [''urn:xmpp:reply:0''],
       ''Message replies and fallback.''),
      (482, CoveragePayload, [''urn:xmpp:call-invites:0''],
       ''Call invitation actions.''),
      (490, CoveragePayload, [''urn:xmpp:mds:displayed:0''],
       ''Displayed synchronization.''),
      (511, CoveragePayload, [''urn:xmpp:link-metadata:0''],
       ''Link metadata.''),
      (513, CoverageOperational, [''urn:xmpp:mention:0''],
       ''Explicit mentions.'')]"

definition applyCoverageMetadata :: "(nat \<Rightarrow> nat option) \<Rightarrow> descriptor list \<Rightarrow> descriptor list" where
  "applyCoverageMetadata index cat = foldl (upgrade index) cat coverage_metadata"

definition sorted_catalog :: "descriptor list" where
  "sorted_catalog = map (\<lambda>d. d\<lparr>d_Coverage := CoverageCatalog\<rparr>) (sort_key d_Number Catalog)"

definition catalog_index :: "nat \<Rightarrow> nat option" where
  "catalog_index = byNumber sorted_catalog"

definition initialised_catalog :: "descriptor list" where
  "initialised_catalog = applyCoverageMetadata catalog_index sorted_catalog"

definition Lookup :: "nat \<Rightarrow> descriptor option" where
  "Lookup number = (case catalog_index number of None \<Rightarrow> None | Some i \<Rightarrow> Some (initialised_catalog ! i))"

subsection \<open>The plugins\<close>

definition xep_plugin :: "nat \<Rightarrow> string \<Rightarrow> string \<Rightarrow> string list \<Rightarrow> string list \<Rightarrow> plugin" where
  "xep_plugin n name description dependencies features =
     \<lparr>p_Name = name, p_Description = description, p_Dependencies = dependencies, p_Features = features, p_code = n\<rparr>"

definition Blocking_plugin :: plugin where
  "Blocking_plugin = xep_plugin 191 ''xep_0191'' ''XEP-0191 Blocking Command'' [] [BlockingNS]"

definition StreamManagement_plugin :: plugin where
  "StreamManagement_plugin = xep_plugin 198 ''xep_0198'' ''XEP-0198 Stream Management'' [] [StreamManagementNS]"

definition Carbons_plugin :: plugin where
  "Carbons_plugin = xep_plugin 280 ''xep_0280'' ''XEP-0280 Message Carbons'' [''xep_0297''] [CarbonsNS]"

definition CSI_plugin :: plugin where
  "CSI_plugin = xep_plugin 352 ''xep_0352'' ''XEP-0352 Client State Indication'' [] [CSINS]"

definition newDelayPlugin :: plugin where
  "newDelayPlugin = xep_plugin 203 ''xep_0203'' ''XEP-0203 Delayed Delivery'' [] [DelayNS]"

definition Disco_plugin :: plugin where
  "Disco_plugin = xep_plugin 30 ''xep_0030'' ''XEP-0030 Service Discovery'' [''xep_0004'', ''xep_0059''] [DiscoInfoNS, DiscoItemsNS]"

definition newFormsPlugin :: plugin where
  "newFormsPlugin = xep_plugin 4 ''xep_0004'' ''XEP-0004 Data Forms'' [] [DataFormsNS, DataValidationNS, DataMediaNS]"

definition MAM_plugin :: plugin where
  "MAM_plugin = xep_plugin 313 ''xep_0313'' ''XEP-0313 Message Archive Management'' [''xep_0004'', ''xep_0059'', ''xep_0297''] [MAMNS]"

definition Receipts_plugin :: plugin where
  "Receipts_plugin = xep_plugin 184 ''xep_0184'' ''XEP-0184 Message Delivery Receipts'' [] [ReceiptsNS]"

definition MUC_plugin :: plugin where
  "MUC_plugin = xep_plugin 45 ''xep_0045'' ''XEP-0045 Multi-User Chat'' [''xep_0030'', ''xep_0004''] [MUCNS, MUCUserNS, MUCAdminNS, MUCOwnerNS]"

definition PubSub_plugin :: plugin where
  "PubSub_plugin = xep_plugin 60 ''xep_0060'' ''XEP-0060 Publish-Subscribe'' [''xep_0004'', ''xep_0030'', ''xep_0059''] [PubSubNS, PubSubEventNS, PubSubOwnerNS]"

definition PEP_plugin :: plugin where
  "PEP_plugin = xep_plugin 163 ''xep_0163'' ''XEP-0163 Personal Eventing Protocol'' [''xep_0060''] []"

definition newRSMPlugin :: plugin where
  "newRSMPlugin = xep_plugin 59 ''xep_0059'' ''XEP-0059 Result Set Management'' [] [RSMNS]"

definition LegacyBookmarks_plugin :: plugin where
  "LegacyBookmarks_plugin = xep_plugin 48 ''xep_0048'' ''XEP-0048 Bookmarks'' [''xep_0049''] []"

definition PrivateXML_plugin :: plugin where
  "PrivateXML_plugin = xep_plugin 49 ''xep_0049'' ''XEP-0049 Private XML Storage'' [] []"

definition HTTPUpload_plugin :: plugin where
  "HTTPUpload_plugin = xep_plugin 363 ''xep_0363'' ''XEP-0363 HTTP File Upload'' [''xep_0030''] [HTTPUploadNS]"

definition NativeBookmarks_plugin :: plugin where
  "NativeBookmarks_plugin = xep_plugin 402 ''xep_0402'' ''XEP-0402 PEP Native Bookmarks'' [''xep_0163''] [BookmarksNS]"

definition MUCSelfPing_plugin :: plugin where
  "MUCSelfPing_plugin = xep_plugin 410 ''xep_0410'' ''XEP-0410 MUC Self-Ping'' [''xep_0045'', ''xep_0199''] []"

definition Version_plugin :: plugin where
  "Version_plugin = xep_plugin 92 ''xep_0092'' ''XEP-0092 Software Version'' [] [VersionNS]"

definition Ping_plugin :: plugin where
  "Ping_plugin = xep_plugin 199 ''xep_0199'' ''XEP-0199 XMPP Ping'' [] [PingNS]"

definition EntityTime_plugin :: plugin where
  "EntityTime_plugin = xep_plugin 202 ''xep_0202'' ''XEP-0202 Entity Time'' [] [EntityTimeNS]"

text \<open>The plugin of \<^verbatim>\<open>src/omemo/manager.go\<close>, which is not part of the catalogue; \<open>backend\<close> says whether one is configured.\<close>

definition Omemo_plugin :: plugin where
  "Omemo_plugin = xep_plugin 10000 ''slixmpp_omemo'' ''slixmpp-omemo compatible OMEMO integration''
     [''xep_0060'', ''xep_0163'', ''xep_0334'', ''xep_0380''] [OmemoNS, DeviceListNode]"

text \<open>A factory of the \<^verbatim>\<open>init\<close> functions: a plugin type of its own, or \<^verbatim>\<open>staticPlugin\<close> with features.\<close>

datatype xep_factory = OwnType plugin | Static "string list"

definition client_control_init :: "(nat \<times> xep_factory) list" where
  "client_control_init =
     [(191, OwnType Blocking_plugin), (198, OwnType StreamManagement_plugin), (280, OwnType Carbons_plugin), (352, OwnType CSI_plugin)]"

definition datetime_init :: "(nat \<times> xep_factory) list" where
  "datetime_init = [(82, Static []), (203, OwnType newDelayPlugin)]"

definition disco_init :: "(nat \<times> xep_factory) list" where
  "disco_init = [(30, OwnType Disco_plugin)]"

definition forms_init :: "(nat \<times> xep_factory) list" where
  "forms_init = [(4, OwnType newFormsPlugin), (122, Static [DataValidationNS]), (221, Static [DataMediaNS])]"

definition mam_init :: "(nat \<times> xep_factory) list" where
  "mam_init = [(313, OwnType MAM_plugin), (441, Static [MAMPreferencesNS])]"

definition message_extensions_init :: "(nat \<times> xep_factory) list" where
  "message_extensions_init =
     [(85, Static [ChatStatesNS]), (184, OwnType Receipts_plugin), (224, Static [AttentionNS]), (249, Static [DirectMUCInviteNS]),
      (308, Static [CorrectionNS]), (333, Static [MarkersNS]), (334, Static [HintsNS]), (335, Static [JSONNS]), (359, Static [StanzaIDNS]),
      (372, Static [ReferenceNS]), (380, Static [EncryptionNS]), (382, Static [SpoilerNS]), (394, Static [MessageMarkupNS]),
      (421, Static [OccupantIDNS]), (424, Static [RetractionNS, FallbackNS]), (428, Static [FallbackNS]), (444, Static [ReactionsNS]),
      (461, Static [ReplyNS, FallbackNS]), (482, Static [CallInvitesNS]), (490, Static [DisplayedSyncNS]), (513, Static [MentionNS])]"

definition muc_init :: "(nat \<times> xep_factory) list" where
  "muc_init = [(45, OwnType MUC_plugin)]"

definition payloads_init :: "(nat \<times> xep_factory) list" where
  "payloads_init =
     [(50, Static [CommandsNS]), (231, Static [BoBNS]), (297, Static [ForwardNS]), (300, Static [HashesNS]),
      (385, Static [SIMSNS, ReferenceNS, FileMetadataNS]), (446, Static [FileMetadataNS]), (447, Static [SFSNS, FileMetadataNS, URLDataNS]),
      (454, Static [OMEMOMediaNS]), (511, Static [LinkMetadataNS])]"

definition pubsub_init :: "(nat \<times> xep_factory) list" where
  "pubsub_init = [(60, OwnType PubSub_plugin), (163, OwnType PEP_plugin)]"

definition rsm_init :: "(nat \<times> xep_factory) list" where
  "rsm_init = [(59, OwnType newRSMPlugin)]"

definition storage_upload_init :: "(nat \<times> xep_factory) list" where
  "storage_upload_init =
     [(48, OwnType LegacyBookmarks_plugin), (49, OwnType PrivateXML_plugin), (363, OwnType HTTPUpload_plugin),
      (402, OwnType NativeBookmarks_plugin), (410, OwnType MUCSelfPing_plugin)]"

definition utility_plugins_init :: "(nat \<times> xep_factory) list" where
  "utility_plugins_init = [(92, OwnType Version_plugin), (199, OwnType Ping_plugin), (202, OwnType EntityTime_plugin)]"

subsection \<open>The registry\<close>

text \<open>\<^verbatim>\<open>registerSpecialized\<close> panics (\<open>None\<close>) on a number that is already registered.\<close>

fun registerSpecialized :: "(nat \<times> xep_factory) list \<Rightarrow> (nat \<Rightarrow> xep_factory option) \<Rightarrow> (nat \<Rightarrow> xep_factory option) option" where
  "registerSpecialized [] fs = Some fs"
| "registerSpecialized ((number, f) # rest) fs =
     (if fs number \<noteq> None then None else registerSpecialized rest (fs(number \<mapsto> f)))"

definition all_init :: "(nat \<times> xep_factory) list" where
  "all_init = client_control_init @ datetime_init @ disco_init @ forms_init @ mam_init @ message_extensions_init @ muc_init
     @ payloads_init @ pubsub_init @ rsm_init @ storage_upload_init @ utility_plugins_init"

definition specializedFactories :: "nat \<Rightarrow> xep_factory option" where
  "specializedFactories = (case registerSpecialized all_init Map.empty of None \<Rightarrow> Map.empty | Some fs \<Rightarrow> fs)"

definition descriptor0 :: descriptor where
  "descriptor0 = \<lparr>d_Number = 0, d_Title = [], d_Namespaces = [], d_Coverage = CoverageNone, d_Notes = []\<rparr>"

definition staticPlugin :: "nat \<Rightarrow> string list \<Rightarrow> plugin" where
  "staticPlugin number features =
     (let d = (case Lookup number of None \<Rightarrow> descriptor0 | Some d \<Rightarrow> d)
      in xep_plugin 1 (Descriptor_Name d) (Descriptor_XEP d @ '': '' @ d_Title d) [] (sort features))"

definition GenericPlugin :: "descriptor \<Rightarrow> plugin" where
  "GenericPlugin d = xep_plugin 0 (Descriptor_Name d) (Descriptor_XEP d @ '': '' @ d_Title d) [] []"

text \<open>What the factory that \<^verbatim>\<open>RegisterAll\<close> registers for a descriptor returns.\<close>

definition plugin_of :: "descriptor \<Rightarrow> plugin" where
  "plugin_of d =
     (case specializedFactories (d_Number d) of
        Some (OwnType p) \<Rightarrow> p
      | Some (Static features) \<Rightarrow> staticPlugin (d_Number d) features
      | None \<Rightarrow> GenericPlugin d)"

fun register_descriptors :: "descriptor list \<Rightarrow> 'w plugin_manager_scheme \<Rightarrow> go_error option \<times> 'w plugin_manager_scheme" where
  "register_descriptors [] m = (None, m)"
| "register_descriptors (d # ds) m =
     (case RegisterFactory (Descriptor_Name d) (Some (d_Number d)) m of
        (Some e, m') \<Rightarrow> (Some e, m')
      | (None, m') \<Rightarrow> register_descriptors ds m')"

definition RegisterAll :: "'w plugin_manager_scheme option \<Rightarrow> go_error option \<times> 'w plugin_manager_scheme option" where
  "RegisterAll client =
     (case client of
        None \<Rightarrow> (Some (Errf ''xep: nil client''), None)
      | Some m \<Rightarrow> (case register_descriptors initialised_catalog m of (e, m') \<Rightarrow> (e, Some m')))"

definition Load :: "nat \<Rightarrow> 'w plugin_env \<Rightarrow> nat \<Rightarrow> ('w, plugin option result) pm_call" where
  "Load depth env number m =
     (case Lookup number of
        None \<Rightarrow> Some (Inl (Errorf ''xep: XEP-%04d is not in the Slixmpp catalog'' [pad4 number] None), m)
      | Some d \<Rightarrow> Plugins.Load depth env (Descriptor_Name d) m)"

fun load_numbers :: "nat \<Rightarrow> 'w plugin_env \<Rightarrow> nat list \<Rightarrow> ('w, go_error option) pm_call" where
  "load_numbers depth env [] m = Some (None, m)"
| "load_numbers depth env (n # ns) m =
     (case Load depth env n m of
        None \<Rightarrow> None
      | Some (Inl e, m') \<Rightarrow> Some (Some e, m')
      | Some (Inr _, m') \<Rightarrow> load_numbers depth env ns m')"

definition LoadDefaults :: "nat \<Rightarrow> 'w plugin_env \<Rightarrow> ('w, go_error option) pm_call" where
  "LoadDefaults depth env = load_numbers depth env [4, 30, 92, 184, 199, 202, 203, 334, 359, 380]"

subsection \<open>Initialisation\<close>

text \<open>The \<^verbatim>\<open>Init\<close> methods that can fail look up the plugins they build on and check their types.\<close>

definition required_plugin :: "string \<Rightarrow> nat \<Rightarrow> string \<Rightarrow> string \<Rightarrow> 'w plugin_manager_scheme \<Rightarrow> go_error option" where
  "required_plugin name code missing unexpected m =
     (case Plugins.Get name m of
        None \<Rightarrow> Some (Errf missing)
      | Some p \<Rightarrow> if p_code p = code then None else Some (Errf unexpected))"

definition PEP_Init :: "'w plugin_manager_scheme \<Rightarrow> go_error option" where
  "PEP_Init = required_plugin ''xep_0060'' 60 ''xep: xep_0060 not loaded'' ''xep: xep_0060 has unexpected type''"

definition LegacyBookmarks_Init :: "'w plugin_manager_scheme \<Rightarrow> go_error option" where
  "LegacyBookmarks_Init = required_plugin ''xep_0049'' 49 ''xep: xep_0049 not loaded'' ''xep: unexpected xep_0049 plugin type''"

definition NativeBookmarks_Init :: "'w plugin_manager_scheme \<Rightarrow> go_error option" where
  "NativeBookmarks_Init = required_plugin ''xep_0163'' 163 ''xep: xep_0163 not loaded'' ''xep: unexpected xep_0163 plugin type''"

definition MUCSelfPing_Init :: "'w plugin_manager_scheme \<Rightarrow> go_error option" where
  "MUCSelfPing_Init m =
     (case required_plugin ''xep_0045'' 45 ''xep: unexpected MUC plugin type'' ''xep: unexpected MUC plugin type'' m of
        Some e \<Rightarrow> Some e
      | None \<Rightarrow> required_plugin ''xep_0199'' 199 ''xep: unexpected ping plugin type'' ''xep: unexpected ping plugin type'' m)"

definition Omemo_Init :: "bool \<Rightarrow> 'w plugin_manager_scheme \<Rightarrow> go_error option" where
  "Omemo_Init backend m =
     (if \<not> backend then Some (Errf ''omemo: SessionBackend is required'')
      else required_plugin ''xep_0060'' 60 ''omemo: xep_0060 is not loaded'' ''omemo: unexpected xep_0060 plugin type'' m)"

definition xep_Init :: "bool \<Rightarrow> plugin \<Rightarrow> 'w plugin_manager_scheme \<Rightarrow> go_error option" where
  "xep_Init backend p m =
     (if p_code p = 163 then PEP_Init m
      else if p_code p = 48 then LegacyBookmarks_Init m
      else if p_code p = 402 then NativeBookmarks_Init m
      else if p_code p = 410 then MUCSelfPing_Init m
      else if p_code p = 10000 then Omemo_Init backend m
      else None)"

text \<open>The manager's environment with the listeners of \<^verbatim>\<open>plugin_loaded\<close> as an argument.\<close>

definition catalog_env ::
  "bool \<Rightarrow> (plugin \<Rightarrow> 'w plugin_manager_scheme \<Rightarrow> 'w plugin_manager_scheme) \<Rightarrow> 'w plugin_env" where
  "catalog_env backend listeners =
     \<lparr>pe_make = (\<lambda>n. map_option plugin_of (find (\<lambda>d. d_Number d = n) initialised_catalog)),
      pe_init = (\<lambda>p m. (xep_Init backend p m, m)), pe_loaded_event = listeners\<rparr>"

subsection \<open>The catalogue after initialisation\<close>

definition catalog_numbers :: "nat list" where
  "catalog_numbers = map fst catalog_titles"

definition xep_name :: "nat \<Rightarrow> string" where
  "xep_name n = ''xep_'' @ pad4 n"

lemma Descriptor_Name_xep: "Descriptor_Name d = xep_name (d_Number d)"
  by (simp add: Descriptor_Name_def xep_name_def)

lemma digit_eq: "digit n = digit m \<longleftrightarrow> n mod 10 = m mod 10"
proof -
  have "(of_char (digit n) :: nat) = 48 + n mod 10" for n by (simp add: digit_def)
  then show ?thesis unfolding of_char_eq_iff[where ?'a = nat, symmetric] by auto
qed

lemma four_digits:
  fixes k :: nat
  assumes "k < 10000"
  shows "k = 1000 * (k div 1000 mod 10) + 100 * (k div 100 mod 10) + 10 * (k div 10 mod 10) + k mod 10"
proof -
  have compose: "k = a * 10 + x \<Longrightarrow> a = b * 10 + y \<Longrightarrow> b = c * 10 + z \<Longrightarrow> k = 1000 * c + 100 * z + 10 * y + x" for a b c x y z :: nat
    by simp
  have "k div 100 = k div 10 div 10" "k div 1000 = k div 10 div 10 div 10"
    using div_mult2_eq[of k 10 10] div_mult2_eq[of k 10 100] div_mult2_eq[of "k div 10" 10 10] by simp_all
  moreover have "k div 1000 mod 10 = k div 1000" using assms by simp
  moreover have "k = 1000 * (k div 10 div 10 div 10) + 100 * (k div 10 div 10 mod 10) + 10 * (k div 10 mod 10) + k mod 10"
    by (rule compose) (rule div_mult_mod_eq[symmetric])+
  ultimately show ?thesis by metis
qed

lemma xep_name_inj: "n < 10000 \<Longrightarrow> m < 10000 \<Longrightarrow> xep_name n = xep_name m \<Longrightarrow> n = m"
proof -
  assume b: "n < 10000" "m < 10000" "xep_name n = xep_name m"
  have "n div 1000 mod 10 = m div 1000 mod 10" "n div 100 mod 10 = m div 100 mod 10" "n div 10 mod 10 = m div 10 mod 10" "n mod 10 = m mod 10"
    using b by (simp_all add: xep_name_def pad4_def digit_eq)
  then show "n = m" using four_digits[OF b(1)] four_digits[OF b(2)] by metis
qed

lemma catalog_numbers_increase: "sorted_wrt (<) catalog_numbers"
  unfolding catalog_numbers_def catalog_titles_def list.map fst_conv
  by (simp only: sorted_wrt2[OF transp_on_less] sorted_wrt1) simp

lemma catalog_numbers_bound: "list_all (\<lambda>n. n < 10000) catalog_numbers"
  unfolding catalog_numbers_def catalog_titles_def by simp

lemma catalog_numbers_facts:
  "sorted catalog_numbers" "distinct catalog_numbers" "n \<in> set catalog_numbers \<Longrightarrow> n < 10000"
  using catalog_numbers_increase catalog_numbers_bound by (auto simp: strict_sorted_iff list_all_iff)

lemma numbers_sorted_catalog: "map d_Number sorted_catalog = catalog_numbers"
proof -
  have c: "map d_Number Catalog = catalog_numbers" by (simp add: Catalog_def catalog_numbers_def comp_def case_prod_beta)
  have "sort_key d_Number Catalog = Catalog"
    by (rule sort_key_id_if_sorted) (simp add: c catalog_numbers_facts)
  then show ?thesis by (simp add: sorted_catalog_def c comp_def)
qed

lemma byNumber_snoc: "byNumber (cat @ [d]) = (byNumber cat)(d_Number d \<mapsto> length cat)"
  by (simp add: byNumber_def enumerate_append_eq)

lemma byNumber_Some: "byNumber cat n = Some i \<Longrightarrow> i < length cat \<and> d_Number (cat ! i) = n"
  by (induction cat rule: rev_induct) (auto simp: byNumber_snoc nth_append byNumber_def[of "[]"] split: if_splits)

lemma byNumber_None: "byNumber cat n = None \<longleftrightarrow> n \<notin> d_Number ` set cat"
  by (induction cat rule: rev_induct) (auto simp: byNumber_snoc byNumber_def[of "[]"])

lemma numbers_upgrade: "map d_Number (upgrade ix cat u) = map d_Number cat"
  by (auto simp: upgrade_def map_update list_update_same_conv split: prod.splits option.splits)
    (metis (no_types, lifting) length_map list_update_beyond list_update_id not_less nth_map)

lemma numbers_initialised: "map d_Number initialised_catalog = catalog_numbers"
proof -
  have "map d_Number (foldl (upgrade ix) cat us) = map d_Number cat" for ix cat us
    by (induction us arbitrary: cat) (simp_all add: numbers_upgrade)
  then show ?thesis by (simp add: initialised_catalog_def applyCoverageMetadata_def numbers_sorted_catalog)
qed

lemma Lookup_Some:
  assumes "Lookup n = Some d"
  shows "d \<in> set initialised_catalog" "d_Number d = n" "n \<in> set catalog_numbers"
proof -
  obtain i where i: "byNumber sorted_catalog n = Some i" "d = initialised_catalog ! i"
    using assms by (auto simp: Lookup_def catalog_index_def split: option.splits)
  have l: "length initialised_catalog = length sorted_catalog"
    using numbers_initialised numbers_sorted_catalog by (metis length_map)
  have "i < length sorted_catalog" "d_Number (sorted_catalog ! i) = n" using byNumber_Some[OF i(1)] by auto
  then show "d \<in> set initialised_catalog" "d_Number d = n" "n \<in> set catalog_numbers"
    using i(2) l numbers_initialised numbers_sorted_catalog by (auto, metis nth_map, metis nth_map nth_mem length_map)
qed

lemma Lookup_None: "Lookup n = None \<longleftrightarrow> n \<notin> set catalog_numbers"
proof -
  have "Lookup n = None \<longleftrightarrow> byNumber sorted_catalog n = None" by (auto simp: Lookup_def catalog_index_def split: option.splits)
  then show ?thesis by (simp add: byNumber_None numbers_sorted_catalog[symmetric])
qed

lemma find_number: "n \<in> set catalog_numbers \<Longrightarrow> \<exists>d. find (\<lambda>d. d_Number d = n) initialised_catalog = Some d \<and> d_Number d = n \<and> d \<in> set initialised_catalog"
proof -
  assume "n \<in> set catalog_numbers"
  then have "find (\<lambda>d. d_Number d = n) initialised_catalog \<noteq> None"
    by (auto simp: find_None_iff numbers_initialised[symmetric])
  then show ?thesis by (metis (mono_tags, lifting) find_Some_iff nth_mem option.exhaust)
qed

subsection \<open>Loading by rank\<close>

text \<open>
  When every factory makes a plugin of its own name whose dependencies have factories and a smaller rank, and
  \<^verbatim>\<open>Init\<close> succeeds once the dependencies are there, loading succeeds, with a nesting depth above the rank.
\<close>

definition loaded_made :: "'w plugin_env \<Rightarrow> (string \<Rightarrow> nat option) \<Rightarrow> 'w plugin_manager_scheme \<Rightarrow> bool" where
  "loaded_made env F m \<longleftrightarrow> (\<forall>n p. pm_loaded m n = Some p \<longrightarrow> (\<exists>f. F n = Some f \<and> pe_make env f = Some p))"

locale ranked_plugins = plugin_calls env for env :: "'w plugin_env" +
  fixes F :: "string \<Rightarrow> nat option" and rank :: "string \<Rightarrow> nat"
  assumes made: "F n = Some f \<Longrightarrow> \<exists>p. pe_make env f = Some p \<and> p_Name p = n \<and> n \<noteq> []
      \<and> (\<forall>d\<in>set (p_Dependencies p). d \<in> dom F \<and> rank d < rank n)"
    and starts: "F n = Some f \<Longrightarrow> pe_make env f = Some p \<Longrightarrow> loaded_made env F m \<Longrightarrow>
      set (p_Dependencies p) \<subseteq> dom (pm_loaded m) \<Longrightarrow> fst (pe_init env p m) = None"
begin

definition ready :: "string \<Rightarrow> 'w plugin_manager_scheme \<Rightarrow> bool" where
  "ready n m \<longleftrightarrow> pm_inv m \<and> pm_factories m = F \<and> loaded_made env F m \<and> (\<forall>l\<in>pm_loading m. rank n < rank l)"

definition loads :: "(string \<Rightarrow> ('w, plugin option result) pm_call) \<Rightarrow> string \<Rightarrow> bool" where
  "loads load n \<longleftrightarrow> (\<forall>m. ready n m \<longrightarrow> (\<exists>p m'. load n m = Some (Inr (Some p), m') \<and> pm_grows m m'
     \<and> pm_loaded m' n = Some p \<and> loaded_made env F m'))"

lemma named: "pm_factories m = F \<Longrightarrow> factories_named env m"
  using made by (fastforce simp: factories_named_def)

lemma load_deps_succeed:
  assumes "\<And>d. d \<in> set deps \<Longrightarrow> loads load d" "\<And>d m. d \<in> set deps \<Longrightarrow> P m \<Longrightarrow> ready d m"
    and "\<And>m m'. P m \<Longrightarrow> pm_grows m m' \<Longrightarrow> loaded_made env F m' \<Longrightarrow> P m'" "P m" "pm_inv m" "loaded_made env F m"
  shows "\<exists>m'. load_deps load who deps m = Some (None, m') \<and> pm_grows m m' \<and> loaded_made env F m' \<and> set deps \<subseteq> dom (pm_loaded m')"
  using assms
proof (induction deps arbitrary: m)
  case (Cons d deps)
  obtain p m1 where l: "load d m = Some (Inr (Some p), m1)" "pm_grows m m1" "pm_loaded m1 d = Some p" "loaded_made env F m1"
    using Cons.prems(1)[of d] Cons.prems(2)[OF _ Cons.prems(4), of d] unfolding loads_def by auto
  have P1: "P m1" using Cons.prems(3)[OF Cons.prems(4) l(2,4)] .
  obtain m2 where r: "load_deps load who deps m1 = Some (None, m2)" "pm_grows m1 m2" "loaded_made env F m2" "set deps \<subseteq> dom (pm_loaded m2)"
    using Cons.IH[OF Cons.prems(1,2) _ P1 pm_growsD(1)[OF l(2)] l(4)] Cons.prems(3) by auto
  have "d \<in> dom (pm_loaded m2)" using l(3) pm_growsD(4)[OF r(2)] by auto
  then show ?case using l(1,2) r pm_grows_trans by auto
qed (simp add: pm_grows_refl)

lemma use_body_succeeds:
  assumes F: "F n = Some f" "pe_make env f = Some p" and fresh: "pm_loaded m n = None"
    and deps: "\<And>d. d \<in> set (p_Dependencies p) \<Longrightarrow> loads load d" and m: "ready n m"
  shows "\<exists>m'. use_body env load p (m\<lparr>pm_loading := insert n (pm_loading m)\<rparr>) = Some (None, m')
    \<and> pm_loaded m' n = Some p \<and> loaded_made env F m'"
proof -
  have p: "p_Name p = n" "\<And>d. d \<in> set (p_Dependencies p) \<Longrightarrow> rank d < rank n" using made[OF F(1)] F(2) by auto
  let ?m0 = "m\<lparr>pm_loading := insert n (pm_loading m)\<rparr>"
  define P where "P x \<longleftrightarrow> pm_inv x \<and> pm_factories x = F \<and> loaded_made env F x \<and> pm_loading x = insert n (pm_loading m)"
    for x :: "'w plugin_manager_scheme"
  have lm: "loaded_made env F ?m0" using m by (simp add: ready_def loaded_made_def)
  have P0: "P ?m0" "pm_inv ?m0" using m fresh lm by (auto simp: P_def ready_def pm_inv_def)
  have rd: "ready d x" if "d \<in> set (p_Dependencies p)" "P x" for d x
    using that p(2)[OF that(1)] m by (auto simp: P_def ready_def)
  have grow: "P x'" if "P x" "pm_grows x x'" "loaded_made env F x'" for x x'
    using that pm_growsD(1-3)[OF that(2)] by (simp add: P_def)
  have "\<exists>m1. load_deps load n (p_Dependencies p) ?m0 = Some (None, m1) \<and> pm_grows ?m0 m1 \<and> loaded_made env F m1
      \<and> set (p_Dependencies p) \<subseteq> dom (pm_loaded m1)"
    by (rule load_deps_succeed[where P = P]) (fact deps rd grow P0 lm)+
  then obtain m1 where d: "load_deps load n (p_Dependencies p) ?m0 = Some (None, m1)" "loaded_made env F m1"
      "set (p_Dependencies p) \<subseteq> dom (pm_loaded m1)"
    by (elim exE conjE)
  obtain m2 where i: "pe_init env p m1 = (None, m2)" using starts[OF F d(2,3)] by (metis prod.collapse)
  have l2: "pm_loaded m2 = pm_loaded m1" using init_fields[OF i] by simp
  have "loaded_made env F (pe_loaded_event env p (m2\<lparr>pm_loaded := (pm_loaded m2)(n \<mapsto> p), pm_order := pm_order m2 @ [n]\<rparr>))"
    using d(2) F by (auto simp: loaded_made_def event_fields l2)
  then show ?thesis using d(1) i by (simp add: use_body_def p(1) event_fields)
qed

lemma Use_succeeds:
  assumes "F n = Some f" "pe_make env f = Some p" "\<And>d. d \<in> set (p_Dependencies p) \<Longrightarrow> loads (load_with env (Use depth env)) d"
    and m: "ready n m" "pm_loaded m n = None"
  shows "\<exists>m'. Use (Suc depth) env (Some p) m = Some (None, m') \<and> pm_grows m m' \<and> pm_loaded m' n = Some p \<and> loaded_made env F m'"
proof -
  have p: "p_Name p = n" "n \<noteq> []" using made[OF assms(1)] assms(2) by auto
  have nl: "n \<notin> pm_loading m" using m(1) by (auto simp: ready_def)
  obtain x where b: "use_body env (load_with env (Use depth env)) p (m\<lparr>pm_loading := insert n (pm_loading m)\<rparr>) = Some (None, x)"
      "pm_loaded x n = Some p" "loaded_made env F x"
    using use_body_succeeds[OF assms(1,2) m(2) assms(3) m(1)] by auto
  let ?x = "x\<lparr>pm_loading := pm_loading x - {n}\<rparr>"
  have u: "Use (Suc depth) env (Some p) m = Some (None, ?x)" using b(1) p nl m(2) by simp
  have "pm_grows m ?x" using Use_ok[of "Suc depth"] u m(1) named[of m] unfolding use_ok_def ready_def by blast
  moreover have "loaded_made env F ?x" using b(3) by (simp add: loaded_made_def)
  ultimately show ?thesis using u b(2) by simp
qed

lemma load_succeeds: "n \<in> dom F \<Longrightarrow> rank n < depth \<Longrightarrow> loads (load_with env (Use depth env)) n"
proof (induction depth arbitrary: n)
  case (Suc depth)
  obtain f where f: "F n = Some f" using Suc.prems by auto
  obtain p where p: "pe_make env f = Some p" "\<And>d. d \<in> set (p_Dependencies p) \<Longrightarrow> d \<in> dom F \<and> rank d < rank n"
    using made[OF f] by auto
  have deps: "loads (load_with env (Use depth env)) d" if "d \<in> set (p_Dependencies p)" for d
    using Suc.IH[of d] p(2)[OF that] Suc.prems(2) by simp
  show ?case
    unfolding loads_def
  proof (intro allI impI)
    fix m assume r: "ready n m"
    show "\<exists>p m'. load_with env (Use (Suc depth) env) n m = Some (Inr (Some p), m') \<and> pm_grows m m'
        \<and> pm_loaded m' n = Some p \<and> loaded_made env F m'"
    proof (cases "pm_loaded m n")
      case None
      obtain m' where u: "Use (Suc depth) env (Some p) m = Some (None, m')" "pm_grows m m'" "pm_loaded m' n = Some p" "loaded_made env F m'"
        using Use_succeeds[OF f p(1) deps r None] by blast
      have "pm_factories m = F" using r by (simp add: ready_def)
      then show ?thesis using u f p(1) None by (simp add: load_with_def del: Use.simps)
    next
      case (Some q)
      then show ?thesis using r by (auto simp: load_with_def ready_def pm_grows_refl)
    qed
  qed
qed simp

end

subsection \<open>The registered factories\<close>

definition catalog_factories :: "string \<Rightarrow> nat option" where
  "catalog_factories = map_of (map (\<lambda>n. (xep_name n, n)) catalog_numbers)"

lemma distinct_names: "distinct (map xep_name catalog_numbers)"
  using catalog_numbers_facts(2) by (auto simp: distinct_map inj_on_def intro: xep_name_inj catalog_numbers_facts(3))

lemma catalog_factories_iff: "catalog_factories n = Some k \<longleftrightarrow> k \<in> set catalog_numbers \<and> n = xep_name k"
proof -
  have "distinct (map fst (map (\<lambda>n. (xep_name n, n)) catalog_numbers))" using distinct_names by (simp add: comp_def)
  then show ?thesis unfolding catalog_factories_def by (subst map_of_eq_Some_iff) auto
qed

lemma register_descriptors_ok:
  "distinct (map Descriptor_Name ds) \<Longrightarrow> \<forall>d\<in>set ds. pm_factories m (Descriptor_Name d) = None \<Longrightarrow>
   register_descriptors ds m =
     (None, m\<lparr>pm_factories := pm_factories m ++ map_of (map (\<lambda>d. (Descriptor_Name d, d_Number d)) ds)\<rparr>)"
proof (induction ds arbitrary: m)
  case (Cons d ds)
  let ?m = "m\<lparr>pm_factories := (pm_factories m)(Descriptor_Name d \<mapsto> d_Number d)\<rparr>"
  have "RegisterFactory (Descriptor_Name d) (Some (d_Number d)) m = (None, ?m)"
    using Cons.prems by (simp add: RegisterFactory_def Descriptor_Name_def)
  moreover have "(pm_factories m)(Descriptor_Name d \<mapsto> d_Number d) ++ map_of (map (\<lambda>d. (Descriptor_Name d, d_Number d)) ds)
      = pm_factories m ++ map_of (map (\<lambda>d. (Descriptor_Name d, d_Number d)) (d # ds))"
    using Cons.prems(1) by (subst map_add_upd_left) (auto simp: dom_map_of_conv_image_fst)
  moreover have "\<forall>e\<in>set ds. pm_factories ?m (Descriptor_Name e) = None" using Cons.prems by (auto simp: image_iff)
  then have "register_descriptors ds ?m = (None, ?m\<lparr>pm_factories := pm_factories ?m ++ map_of (map (\<lambda>d. (Descriptor_Name d, d_Number d)) ds)\<rparr>)"
    using Cons.prems(1) by (intro Cons.IH) simp_all
  ultimately show ?case by (simp del: fun_upd_apply)
qed simp

subsection \<open>What the factories make\<close>

lemma registerSpecialized_ok:
  "distinct (map fst l) \<Longrightarrow> \<forall>n\<in>fst ` set l. fs n = None \<Longrightarrow> registerSpecialized l fs = Some (fs ++ map_of l)"
proof (induction l arbitrary: fs)
  case (Cons x l)
  obtain n f where x: "x = (n, f)" by (metis prod.collapse)
  have u: "fs(n \<mapsto> f) ++ map_of l = fs ++ map_of (x # l)"
    using Cons.prems(1) by (subst map_add_upd_left) (auto simp: x dom_map_of_conv_image_fst simp del: fun_upd_apply)
  have "\<forall>k\<in>fst ` set l. (fs(n \<mapsto> f)) k = None" using Cons.prems by (auto simp: x)
  then have "registerSpecialized l (fs(n \<mapsto> f)) = Some (fs(n \<mapsto> f) ++ map_of l)" using Cons.prems(1) by (intro Cons.IH) (simp_all add: x)
  then show ?case using Cons.prems(2) unfolding u by (simp add: x del: fun_upd_apply)
qed simp

lemmas init_tables = all_init_def client_control_init_def datetime_init_def disco_init_def forms_init_def mam_init_def message_extensions_init_def
  muc_init_def payloads_init_def pubsub_init_def rsm_init_def storage_upload_init_def utility_plugins_init_def

text \<open>No \<^verbatim>\<open>init\<close> function panics: every number is registered once.\<close>

lemma specialized_table: "registerSpecialized all_init Map.empty = Some (map_of all_init)" "specializedFactories = map_of all_init"
proof -
  have "distinct (map fst all_init)" by code_simp
  then show "registerSpecialized all_init Map.empty = Some (map_of all_init)" using registerSpecialized_ok[of all_init Map.empty] by simp
  then show "specializedFactories = map_of all_init" by (simp add: specializedFactories_def)
qed

definition depended_on :: "nat list" where
  "depended_on = [4, 30, 45, 49, 59, 60, 163, 199, 297]"

definition catalog_rank :: "string \<Rightarrow> nat" where
  "catalog_rank name =
     (case map_of [(''xep_0030'', 1), (''xep_0048'', 1), (''xep_0280'', 1), (''xep_0313'', 1), (''xep_0045'', 2), (''xep_0060'', 2),
        (''xep_0363'', 2), (''xep_0163'', 3), (''xep_0410'', 3), (''xep_0402'', 4)] name of None \<Rightarrow> 0 | Some r \<Rightarrow> r)"

lemma table_in_catalog: "set (map fst all_init) \<subseteq> set catalog_numbers" "set depended_on \<subseteq> set catalog_numbers"
  unfolding depended_on_def by (simp_all add: init_tables catalog_numbers_def catalog_titles_def)

definition own_plugin_ok :: "nat \<times> xep_factory \<Rightarrow> bool" where
  "own_plugin_ok e \<longleftrightarrow>
     (case snd e of
        OwnType p \<Rightarrow> p_Name p = xep_name (fst e) \<and> p_code p = fst e \<and> 1 < fst e \<and> fst e < 10000
          \<and> list_all (\<lambda>d. list_ex (\<lambda>k. d = xep_name k) depended_on \<and> catalog_rank d < catalog_rank (p_Name p)) (p_Dependencies p)
      | Static _ \<Rightarrow> True)"

lemma digit_chars:
  "char_of (48 :: nat) = CHR ''0''" "char_of (49 :: nat) = CHR ''1''" "char_of (50 :: nat) = CHR ''2''" "char_of (51 :: nat) = CHR ''3''" "char_of (52 :: nat) = CHR ''4''"
  "char_of (53 :: nat) = CHR ''5''" "char_of (54 :: nat) = CHR ''6''" "char_of (55 :: nat) = CHR ''7''" "char_of (56 :: nat) = CHR ''8''" "char_of (57 :: nat) = CHR ''9''"
  by code_simp+

lemma xep_names:
  "xep_name 191 = ''xep_0191''" "xep_name 198 = ''xep_0198''" "xep_name 280 = ''xep_0280''"
  "xep_name 352 = ''xep_0352''" "xep_name 203 = ''xep_0203''" "xep_name 30 = ''xep_0030''" "xep_name 4 = ''xep_0004''"
  "xep_name 313 = ''xep_0313''" "xep_name 184 = ''xep_0184''" "xep_name 45 = ''xep_0045''" "xep_name 60 = ''xep_0060''"
  "xep_name 163 = ''xep_0163''" "xep_name 59 = ''xep_0059''" "xep_name 48 = ''xep_0048''" "xep_name 49 = ''xep_0049''"
  "xep_name 363 = ''xep_0363''" "xep_name 402 = ''xep_0402''" "xep_name 410 = ''xep_0410''" "xep_name 92 = ''xep_0092''"
  "xep_name 199 = ''xep_0199''" "xep_name 202 = ''xep_0202''" "xep_name 297 = ''xep_0297''"
  by (simp_all add: xep_name_def pad4_def digit_def digit_chars)

lemmas own_plugins = Blocking_plugin_def StreamManagement_plugin_def Carbons_plugin_def CSI_plugin_def Disco_plugin_def MAM_plugin_def Receipts_plugin_def MUC_plugin_def PubSub_plugin_def
  PEP_plugin_def LegacyBookmarks_plugin_def PrivateXML_plugin_def HTTPUpload_plugin_def NativeBookmarks_plugin_def MUCSelfPing_plugin_def Version_plugin_def Ping_plugin_def EntityTime_plugin_def
  newDelayPlugin_def newFormsPlugin_def newRSMPlugin_def xep_plugin_def

lemma own_plugins_ok: "list_all own_plugin_ok all_init"
  by (simp add: init_tables own_plugin_ok_def own_plugins depended_on_def xep_names catalog_rank_def)

lemma specialized_facts:
  assumes "specializedFactories n = Some (OwnType p)"
  shows "p_Name p = xep_name n" "p_code p = n" "1 < n" "n < 10000"
    "d \<in> set (p_Dependencies p) \<Longrightarrow> (\<exists>k\<in>set catalog_numbers. d = xep_name k) \<and> catalog_rank d < catalog_rank (xep_name n)"
proof -
  have "(n, OwnType p) \<in> set all_init" using assms specialized_table(2) by (metis map_of_SomeD)
  then have "own_plugin_ok (n, OwnType p)" using own_plugins_ok by (simp add: list_all_iff)
  then show "p_Name p = xep_name n" "p_code p = n" "1 < n" "n < 10000"
    "d \<in> set (p_Dependencies p) \<Longrightarrow> (\<exists>k\<in>set catalog_numbers. d = xep_name k) \<and> catalog_rank d < catalog_rank (xep_name n)"
    using table_in_catalog(2) by (fastforce simp: own_plugin_ok_def list_all_iff list_ex_iff)+
qed

lemma staticPlugin_facts:
  assumes "n \<in> set catalog_numbers"
  shows "p_Name (staticPlugin n fs) = xep_name n" "p_Dependencies (staticPlugin n fs) = []" "p_code (staticPlugin n fs) = 1"
proof -
  obtain d where "Lookup n = Some d" using assms Lookup_None by blast
  then show "p_Name (staticPlugin n fs) = xep_name n" "p_Dependencies (staticPlugin n fs) = []" "p_code (staticPlugin n fs) = 1"
    using Lookup_Some(2) by (auto simp: staticPlugin_def xep_plugin_def Descriptor_Name_xep)
qed

lemma plugin_of_facts:
  assumes "d \<in> set initialised_catalog"
  shows "p_Name (plugin_of d) = xep_name (d_Number d)"
    "e \<in> set (p_Dependencies (plugin_of d)) \<Longrightarrow> (\<exists>k\<in>set catalog_numbers. e = xep_name k) \<and> catalog_rank e < catalog_rank (xep_name (d_Number d))"
    "1 < p_code (plugin_of d) \<Longrightarrow> p_code (plugin_of d) = d_Number d \<and> specializedFactories (d_Number d) = Some (OwnType (plugin_of d))"
proof -
  have n: "d_Number d \<in> set catalog_numbers" using assms by (auto simp: numbers_initialised[symmetric])
  show "p_Name (plugin_of d) = xep_name (d_Number d)"
    "e \<in> set (p_Dependencies (plugin_of d)) \<Longrightarrow> (\<exists>k\<in>set catalog_numbers. e = xep_name k) \<and> catalog_rank e < catalog_rank (xep_name (d_Number d))"
    "1 < p_code (plugin_of d) \<Longrightarrow> p_code (plugin_of d) = d_Number d \<and> specializedFactories (d_Number d) = Some (OwnType (plugin_of d))"
    using specialized_facts staticPlugin_facts[OF n]
    by (auto simp: plugin_of_def GenericPlugin_def xep_plugin_def Descriptor_Name_xep split: option.splits xep_factory.splits)
qed

lemma catalog_make:
  assumes "catalog_factories n = Some f"
  obtains d where "pe_make (catalog_env backend listeners) f = Some (plugin_of d)" "d \<in> set initialised_catalog" "d_Number d = f" "n = xep_name f"
  using assms find_number[of f] that by (auto simp: catalog_factories_iff catalog_env_def)

text \<open>A required plugin that has been loaded is the one the type assertion expects.\<close>

lemma required_plugin_ok:
  assumes "loaded_made (catalog_env backend listeners) catalog_factories m" "xep_name k \<in> dom (pm_loaded m)" "k < 10000"
    and "specializedFactories k = Some (OwnType p)"
  shows "required_plugin (xep_name k) k missing unexpected m = None"
proof -
  obtain q f where q: "pm_loaded m (xep_name k) = Some q" "catalog_factories (xep_name k) = Some f" "pe_make (catalog_env backend listeners) f = Some q"
    using assms(1,2) unfolding loaded_made_def by blast
  obtain d where d: "pe_make (catalog_env backend listeners) f = Some (plugin_of d)" "d_Number d = f" "xep_name k = xep_name f"
    using catalog_make[OF q(2)] by metis
  have "f < 10000" using q(2) by (simp add: catalog_factories_iff catalog_numbers_facts(3))
  then have "f = k" using xep_name_inj[OF assms(3) _ d(3)] by simp
  then have "q = p" using d(1,2) q(3) assms(4) by (simp add: plugin_of_def)
  then show ?thesis using q(1) specialized_facts(2)[OF assms(4)] by (simp add: required_plugin_def Plugins.Get_def)
qed

lemma required_factories:
  "specializedFactories 60 = Some (OwnType PubSub_plugin)" "specializedFactories 49 = Some (OwnType PrivateXML_plugin)"
  "specializedFactories 163 = Some (OwnType PEP_plugin)" "specializedFactories 45 = Some (OwnType MUC_plugin)"
  "specializedFactories 199 = Some (OwnType Ping_plugin)" "specializedFactories 48 = Some (OwnType LegacyBookmarks_plugin)"
  "specializedFactories 402 = Some (OwnType NativeBookmarks_plugin)" "specializedFactories 410 = Some (OwnType MUCSelfPing_plugin)"
  by (simp_all add: specialized_table(2) init_tables)

lemmas required_ok = required_plugin_ok[where k = 60, unfolded xep_names] required_plugin_ok[where k = 49, unfolded xep_names]
  required_plugin_ok[where k = 163, unfolded xep_names] required_plugin_ok[where k = 45, unfolded xep_names]
  required_plugin_ok[where k = 199, unfolded xep_names]

lemma xep_Init_ok:
  assumes lm: "loaded_made (catalog_env backend listeners) catalog_factories m" and d: "d \<in> set initialised_catalog"
    and deps: "set (p_Dependencies (plugin_of d)) \<subseteq> dom (pm_loaded m)"
  shows "xep_Init backend (plugin_of d) m = None"
proof (cases "p_code (plugin_of d) \<in> {163, 48, 402, 410, 10000}")
  case True
  then have "1 < p_code (plugin_of d)" by auto
  from plugin_of_facts(3)[OF d this] have s: "specializedFactories (p_code (plugin_of d)) = Some (OwnType (plugin_of d))" by metis
  then have "p_code (plugin_of d) < 10000" using specialized_facts(4) by blast
  with True consider (pep) "p_code (plugin_of d) = 163" | (legacy) "p_code (plugin_of d) = 48" | (native) "p_code (plugin_of d) = 402"
    | (self) "p_code (plugin_of d) = 410" by auto
  then show ?thesis
  proof cases
    case pep
    then have "plugin_of d = PEP_plugin" using s required_factories by simp
    then show ?thesis using deps required_ok(1)[OF lm] required_factories(1) by (simp add: xep_Init_def PEP_Init_def PEP_plugin_def xep_plugin_def)
  next
    case legacy
    then have "plugin_of d = LegacyBookmarks_plugin" using s required_factories by simp
    then show ?thesis using deps required_ok(2)[OF lm] required_factories(2)
      by (simp add: xep_Init_def LegacyBookmarks_Init_def LegacyBookmarks_plugin_def xep_plugin_def)
  next
    case native
    then have "plugin_of d = NativeBookmarks_plugin" using s required_factories by simp
    then show ?thesis using deps required_ok(3)[OF lm] required_factories(3)
      by (simp add: xep_Init_def NativeBookmarks_Init_def NativeBookmarks_plugin_def xep_plugin_def)
  next
    case self
    then have "plugin_of d = MUCSelfPing_plugin" using s required_factories by simp
    then show ?thesis using deps required_ok(4,5)[OF lm] required_factories(4,5)
      by (simp add: xep_Init_def MUCSelfPing_Init_def MUCSelfPing_plugin_def xep_plugin_def)
  qed
qed (simp add: xep_Init_def)

lemma catalog_ranked:
  assumes "keeps_manager (catalog_env backend listeners)"
  shows "ranked_plugins (catalog_env backend listeners) catalog_factories catalog_rank"
proof
  show "keeps_manager (catalog_env backend listeners)" by (rule assms)
  fix n f
  assume f: "catalog_factories n = Some f"
  then obtain d where d: "pe_make (catalog_env backend listeners) f = Some (plugin_of d)" "d \<in> set initialised_catalog" "d_Number d = f" "n = xep_name f"
    using catalog_make by metis
  have "e \<in> dom catalog_factories \<and> catalog_rank e < catalog_rank n" if "e \<in> set (p_Dependencies (plugin_of d))" for e
    using plugin_of_facts(2)[OF d(2) that] d(3,4) catalog_factories_iff[of e] by auto
  moreover have "n \<noteq> []" by (simp add: d(4) xep_name_def)
  ultimately show "\<exists>p. pe_make (catalog_env backend listeners) f = Some p \<and> p_Name p = n \<and> n \<noteq> []
      \<and> (\<forall>d\<in>set (p_Dependencies p). d \<in> dom catalog_factories \<and> catalog_rank d < catalog_rank n)"
    using d plugin_of_facts(1)[OF d(2)] by auto
  show "fst (pe_init (catalog_env backend listeners) p m) = None"
    if "pe_make (catalog_env backend listeners) f = Some p" "loaded_made (catalog_env backend listeners) catalog_factories m"
      "set (p_Dependencies p) \<subseteq> dom (pm_loaded m)" for p m
  proof -
    have "p = plugin_of d" using that(1) d(1) by simp
    then show ?thesis using xep_Init_ok[OF that(2) d(2)] that(3) by (simp add: catalog_env_def)
  qed
qed

lemma keeps_catalog_env:
  "(\<And>p m. plugin_manager.truncate (listeners p m) = plugin_manager.truncate m) \<Longrightarrow> keeps_manager (catalog_env backend listeners)"
  by (simp add: keeps_manager_def catalog_env_def)

interpretation quiet_catalog: ranked_plugins "catalog_env backend (\<lambda>_ m. m)" catalog_factories catalog_rank for backend
  by (rule catalog_ranked) (simp add: keeps_catalog_env)

subsection \<open>Loading from the catalogue\<close>

definition fresh_client :: "'w plugin_manager_scheme \<Rightarrow> bool" where
  "fresh_client m \<longleftrightarrow> plugin_manager.truncate m = newPluginManager"

lemma RegisterAll_fresh:
  assumes "fresh_client m"
  shows "RegisterAll (Some m) = (None, Some (m\<lparr>pm_factories := catalog_factories\<rparr>))" "pm_inv (m\<lparr>pm_factories := catalog_factories\<rparr>)"
    "pm_loaded m = Map.empty" "pm_loading m = {}"
proof -
  have f: "pm_factories m = Map.empty" "pm_loaded m = Map.empty" "pm_loading m = {}" "pm_order m = []"
    using assms by (simp_all add: fresh_client_def newPluginManager_def plugin_manager.defs)
  have n: "map Descriptor_Name initialised_catalog = map xep_name catalog_numbers"
    "map (\<lambda>d. (Descriptor_Name d, d_Number d)) initialised_catalog = map (\<lambda>n. (xep_name n, n)) catalog_numbers"
    by (simp_all add: Descriptor_Name_xep numbers_initialised[symmetric])
  show "RegisterAll (Some m) = (None, Some (m\<lparr>pm_factories := catalog_factories\<rparr>))"
    using register_descriptors_ok[of initialised_catalog m] distinct_names by (simp add: RegisterAll_def n f catalog_factories_def)
  show "pm_inv (m\<lparr>pm_factories := catalog_factories\<rparr>)" by (simp add: pm_inv_def f deps_before_def)
qed (use assms in \<open>simp_all add: fresh_client_def newPluginManager_def plugin_manager.defs\<close>)

lemma Load_catalog: "n \<in> set catalog_numbers \<Longrightarrow> Load depth env n m = load_with env (Use depth env) (xep_name n) m"
proof -
  assume "n \<in> set catalog_numbers"
  then obtain d where "Lookup n = Some d" using Lookup_None by blast
  then show ?thesis using Lookup_Some(2) by (auto simp: Catalog.Load_def Plugins.Load_def Descriptor_Name_xep)
qed

lemma rank_bound: "catalog_rank n < 6"
  by (simp add: catalog_rank_def split: option.splits)

context ranked_plugins
begin

lemma load_numbers_succeed:
  assumes "\<And>n x. n \<in> set ns \<Longrightarrow> Load depth env n x = load_with env (Use depth env) (xep_name n) x"
    and "\<And>n. n \<in> set ns \<Longrightarrow> xep_name n \<in> dom F \<and> rank (xep_name n) < depth"
    and "pm_inv m" "pm_factories m = F" "loaded_made env F m" "pm_loading m = {}"
  shows "\<exists>m'. load_numbers depth env ns m = Some (None, m') \<and> pm_grows m m' \<and> loaded_made env F m' \<and> xep_name ` set ns \<subseteq> dom (pm_loaded m')"
  using assms
proof (induction ns arbitrary: m)
  case (Cons n ns)
  have "loads (load_with env (Use depth env)) (xep_name n)" "ready (xep_name n) m"
    using load_succeeds Cons.prems by (simp_all add: ready_def)
  then obtain p m1 where l: "load_with env (Use depth env) (xep_name n) m = Some (Inr (Some p), m1)" "pm_grows m m1"
      "pm_loaded m1 (xep_name n) = Some p" "loaded_made env F m1"
    unfolding loads_def by blast
  obtain m2 where r: "load_numbers depth env ns m1 = Some (None, m2)" "pm_grows m1 m2" "loaded_made env F m2" "xep_name ` set ns \<subseteq> dom (pm_loaded m2)"
    using Cons.IH[OF Cons.prems(1,2) pm_growsD(1)[OF l(2)] _ l(4)] pm_growsD(2,3)[OF l(2)] Cons.prems(4,6) by auto
  have "xep_name n \<in> dom (pm_loaded m2)" using l(3) pm_growsD(4)[OF r(2)] by auto
  then show ?case using l(1,2) r Cons.prems(1)[of n] pm_grows_trans by auto
qed (simp add: pm_grows_refl)

end

text \<open>The catalogue is well typed. On a fresh client \<^verbatim>\<open>RegisterAll\<close> succeeds, and then any sequence of
  catalogue numbers loads without an error: every declared dependency is in the catalogue, the dependencies have
  no cycle (a nesting of six is enough), and no \<^verbatim>\<open>Init\<close> finds a required plugin missing or of another Go type.
  Each number ends up loaded as the plugin the registry makes for it, after its dependencies.\<close>

theorem catalog_loads:
  assumes "fresh_client m" "\<And>p x. plugin_manager.truncate (listeners p x) = plugin_manager.truncate x" "set ns \<subseteq> set catalog_numbers"
  shows "\<exists>m0 m'. RegisterAll (Some m) = (None, Some m0) \<and> load_numbers 6 (catalog_env backend listeners) ns m0 = Some (None, m') \<and> pm_inv m'
    \<and> (\<forall>n\<in>set ns. \<exists>d\<in>set initialised_catalog. d_Number d = n \<and> pm_loaded m' (xep_name n) = Some (plugin_of d))"
proof -
  let ?env = "catalog_env backend listeners" and ?m = "m\<lparr>pm_factories := catalog_factories\<rparr>"
  note r = catalog_ranked[OF keeps_catalog_env[OF assms(2)], of backend]
  have lm: "loaded_made ?env catalog_factories ?m" using RegisterAll_fresh(3)[OF assms(1)] by (simp add: loaded_made_def)
  have "\<exists>m'. load_numbers 6 ?env ns ?m = Some (None, m') \<and> pm_grows ?m m' \<and> loaded_made ?env catalog_factories m'
      \<and> xep_name ` set ns \<subseteq> dom (pm_loaded m')"
  proof (rule ranked_plugins.load_numbers_succeed[OF r])
    show "Load 6 ?env n x = load_with ?env (Use 6 ?env) (xep_name n) x" if "n \<in> set ns" for n x
      using that assms(3) by (intro Load_catalog) auto
    show "xep_name n \<in> dom catalog_factories \<and> catalog_rank (xep_name n) < 6" if "n \<in> set ns" for n
      using that assms(3) rank_bound catalog_factories_iff[of "xep_name n" n] by auto
  qed (use RegisterAll_fresh[OF assms(1)] lm in simp_all)
  then obtain m' where m': "load_numbers 6 ?env ns ?m = Some (None, m')" "pm_grows ?m m'" "loaded_made ?env catalog_factories m'"
      "xep_name ` set ns \<subseteq> dom (pm_loaded m')" by (elim exE conjE)
  have "\<exists>d\<in>set initialised_catalog. d_Number d = n \<and> pm_loaded m' (xep_name n) = Some (plugin_of d)" if n: "n \<in> set ns" for n
  proof -
    obtain q f where q: "pm_loaded m' (xep_name n) = Some q" "catalog_factories (xep_name n) = Some f" "pe_make ?env f = Some q"
      using m'(3,4) n unfolding loaded_made_def by blast
    obtain d where d: "pe_make ?env f = Some (plugin_of d)" "d \<in> set initialised_catalog" "d_Number d = f" "xep_name n = xep_name f"
      using catalog_make[OF q(2)] by metis
    have "n = f" using xep_name_inj[OF _ _ d(4)] q(2) n assms(3) by (auto simp: catalog_factories_iff catalog_numbers_facts(3))
    then show ?thesis using d q by auto
  qed
  then show ?thesis using RegisterAll_fresh(1)[OF assms(1)] m'(1) pm_growsD(1)[OF m'(2)] by blast
qed

theorem catalog_loads_witness:
  "\<exists>m0 m'. RegisterAll (Some newPluginManager) = (None, Some m0) \<and> LoadDefaults 6 (catalog_env False (\<lambda>_ m. m)) m0 = Some (None, m')
    \<and> pm_inv m' \<and> pm_loaded m' (xep_name 30) \<noteq> None"
proof -
  have "fresh_client newPluginManager" by (simp add: fresh_client_def newPluginManager_def plugin_manager.defs)
  moreover have "set [4, 30, 92, 184, 199, 202, 203, 334, 359, 380 :: nat] \<subseteq> set catalog_numbers"
    by (simp add: catalog_numbers_def catalog_titles_def)
  ultimately show ?thesis
    using catalog_loads[of newPluginManager "\<lambda>_ m. m" "[4, 30, 92, 184, 199, 202, 203, 334, 359, 380]" False]
    unfolding LoadDefaults_def by fastforce
qed

text \<open>An entry that stays at catalogue coverage is served by the generic plugin, which advertises no feature.\<close>

lemma length_upgrade [simp]: "length (upgrade ix cat u) = length cat"
  using numbers_upgrade[of ix cat u] map_eq_imp_length_eq by blast

lemma upgrade_other:
  assumes "map d_Number c = map d_Number cat0" "d_Number (c ! i) \<notin> fst ` set vs" "i < length c"
  shows "d_Coverage (foldl (upgrade (byNumber cat0)) c vs ! i) = d_Coverage (c ! i)"
  using assms
proof (induction vs arbitrary: c)
  case (Cons v vs)
  have "byNumber cat0 (fst v) \<noteq> Some i"
    using byNumber_Some[of cat0 "fst v" i] Cons.prems by (metis image_eqI list.set_intros(1) length_map nth_map)
  then have "upgrade (byNumber cat0) c v ! i = c ! i" by (cases v) (auto simp: upgrade_def split: option.splits)
  then show ?case using Cons.IH[of "upgrade (byNumber cat0) c v"] Cons.prems by (simp add: numbers_upgrade)
qed simp

lemma upgraded:
  assumes "i < length cat" "map d_Number cat = map d_Number cat0" "distinct (map d_Number cat0)"
    and "d_Number (cat ! i) \<in> fst ` set us" "\<forall>u\<in>set us. fst (snd u) \<noteq> CoverageCatalog"
  shows "d_Coverage (foldl (upgrade (byNumber cat0)) cat us ! i) \<noteq> CoverageCatalog"
  using assms
proof (induction us arbitrary: cat)
  case (Cons u us)
  let ?cat = "upgrade (byNumber cat0) cat u"
  have num: "d_Number (?cat ! i) = d_Number (cat ! i)"
    using numbers_upgrade[of "byNumber cat0" cat u] Cons.prems(1) by (metis length_map nth_map)
  show ?case
  proof (cases "d_Number (cat ! i) \<in> fst ` set us")
    case True
    then show ?thesis using Cons.IH[of ?cat] Cons.prems num by (simp add: numbers_upgrade)
  next
    case False
    then have eq: "fst u = d_Number (cat ! i)" using Cons.prems(4) by auto
    have "byNumber cat0 (fst u) \<noteq> None"
      using Cons.prems(1,2) eq unfolding byNumber_None by (metis image_eqI length_map nth_map nth_mem)
    then obtain j where j: "byNumber cat0 (fst u) = Some j" by auto
    have "j = i" using byNumber_Some[OF j] eq Cons.prems(1-3) by (metis distinct_conv_nth length_map nth_map)
    then have "d_Coverage (?cat ! i) = fst (snd u)" using j Cons.prems(1) by (cases u) (simp add: upgrade_def)
    then show ?thesis using upgrade_other[of ?cat cat0 i us] False num Cons.prems by (simp add: numbers_upgrade)
  qed
qed simp

lemma catalog_only_generic:
  assumes "d \<in> set initialised_catalog" "d_Coverage d = CoverageCatalog"
  shows "plugin_of d = GenericPlugin d" "p_Features (plugin_of d) = []"
proof -
  obtain i where i: "i < length sorted_catalog" "d = initialised_catalog ! i"
    using assms(1) numbers_initialised numbers_sorted_catalog by (metis in_set_conv_nth length_map)
  have n: "d_Number (sorted_catalog ! i) = d_Number d"
    using i numbers_initialised numbers_sorted_catalog by (metis length_map nth_map)
  have "d_Number d \<notin> fst ` set coverage_metadata"
  proof
    assume "d_Number d \<in> fst ` set coverage_metadata"
    moreover have "\<forall>u\<in>set coverage_metadata. fst (snd u) \<noteq> CoverageCatalog" by (simp add: coverage_metadata_def)
    ultimately show False
      using upgraded[of i sorted_catalog sorted_catalog coverage_metadata] i assms(2) n numbers_sorted_catalog catalog_numbers_facts(2)
      by (simp add: initialised_catalog_def applyCoverageMetadata_def catalog_index_def)
  qed
  moreover have "set (map fst all_init) \<subseteq> fst ` set coverage_metadata"
    by (simp add: init_tables coverage_metadata_def)
  ultimately have "map_of all_init (d_Number d) = None" by (auto simp: map_of_eq_None_iff)
  then show "plugin_of d = GenericPlugin d" "p_Features (plugin_of d) = []"
    by (simp_all add: plugin_of_def specialized_table(2) GenericPlugin_def xep_plugin_def)
qed

end
