(* ===== verification/Lifecycle.thy ===== *)
theory Lifecycle
  imports Catalog Handlers Api_Registry Client_Control Stream_Management Omemo_Session Roster
begin

text \<open>
  What the plugins register with the client and take back: the \<^verbatim>\<open>Init\<close> and \<^verbatim>\<open>Shutdown\<close> methods
  of \<^verbatim>\<open>src/xep\<close> and \<^verbatim>\<open>src/omemo/manager.go\<close>, as far as they touch the stanza handlers, the
  event bus and the API registry, and the conversions (\<^verbatim>\<open>asIQ\<close>, \<^verbatim>\<open>asMessage\<close>, \<^verbatim>\<open>asPresence\<close>)
  their callbacks start with, which panic on a stanza of the wrong kind. A callback is a
  method of a plugin; the registries store its number.
\<close>

subsection \<open>Conversions and callbacks\<close>

fun asIQ :: "stanza \<Rightarrow> iq option" where
  "asIQ (SIQ i) = Some i"
| "asIQ _ = None"

fun asMessage :: "stanza \<Rightarrow> message option" where
  "asMessage (SMessage m) = Some m"
| "asMessage _ = None"

fun omemo_asMessage :: "stanza \<Rightarrow> message option" where
  "omemo_asMessage (SMessage m) = Some m"
| "omemo_asMessage _ = None"

fun asPresence :: "stanza \<Rightarrow> presence option" where
  "asPresence (SPresence p) = Some p"
| "asPresence _ = None"

fun asRosterIQ :: "stanza \<Rightarrow> iq option" where
  "asRosterIQ (SIQ i) = Some i"
| "asRosterIQ _ = None"

datatype plugin_kind =
    KBlocking | KCarbons | KCSI | KStreamManagement | KDisco | KMAM | KReceipts | KMUC | KPubSub
  | KVersion | KPing | KEntityTime | KPrivateXML | KHTTPUpload | KOmemo | KRoster

datatype plugin_method =
    Call_Blocking_handlePush | Call_Carbons_handle | Call_Disco_handleInfo | Call_Disco_handleItems | Call_MAM_handleResult
  | Call_Receipts_handle | Call_MUC_handlePresence | Call_MUC_handleMessage | Call_PubSub_handleEvent | Call_Version_reply
  | Call_Ping_reply | Call_EntityTime_reply | Call_Omemo_handleEncrypted
  | Call_SM_onSent | Call_SM_onReceived | Call_SM_onElement | Call_Omemo_handlePubSub | Call_Omemo_publish | Call_Roster_handlePush

definition plugin_methods :: "plugin_method list" where
  "plugin_methods =
     [Call_Blocking_handlePush, Call_Carbons_handle, Call_Disco_handleInfo, Call_Disco_handleItems, Call_MAM_handleResult,
      Call_Receipts_handle, Call_MUC_handlePresence, Call_MUC_handleMessage, Call_PubSub_handleEvent, Call_Version_reply,
      Call_Ping_reply, Call_EntityTime_reply, Call_Omemo_handleEncrypted,
      Call_SM_onSent, Call_SM_onReceived, Call_SM_onElement, Call_Omemo_handlePubSub, Call_Omemo_publish,
      Call_Roster_handlePush]"

fun method_kind :: "plugin_method \<Rightarrow> plugin_kind" where
  "method_kind Call_Blocking_handlePush = KBlocking"
| "method_kind Call_Carbons_handle = KCarbons"
| "method_kind Call_Disco_handleInfo = KDisco"
| "method_kind Call_Disco_handleItems = KDisco"
| "method_kind Call_MAM_handleResult = KMAM"
| "method_kind Call_Receipts_handle = KReceipts"
| "method_kind Call_MUC_handlePresence = KMUC"
| "method_kind Call_MUC_handleMessage = KMUC"
| "method_kind Call_PubSub_handleEvent = KPubSub"
| "method_kind Call_Version_reply = KVersion"
| "method_kind Call_Ping_reply = KPing"
| "method_kind Call_EntityTime_reply = KEntityTime"
| "method_kind Call_Omemo_handleEncrypted = KOmemo"
| "method_kind Call_SM_onSent = KStreamManagement"
| "method_kind Call_SM_onReceived = KStreamManagement"
| "method_kind Call_SM_onElement = KStreamManagement"
| "method_kind Call_Omemo_handlePubSub = KOmemo"
| "method_kind Call_Omemo_publish = KOmemo"
| "method_kind Call_Roster_handlePush = KRoster"

text \<open>The number of a method, and back; other numbers are the application's own callbacks.\<close>

definition method_no :: "plugin_method \<Rightarrow> nat" where
  "method_no m = length (takeWhile (\<lambda>x. x \<noteq> m) plugin_methods)"

definition method_of :: "nat \<Rightarrow> plugin_method option" where
  "method_of n = find (\<lambda>m. method_no m = n) plugin_methods"

text \<open>
  Whether the conversion at the head of a stanza callback returns. The event callbacks get
  no stanza of their own and check the type of the data themselves.
\<close>

fun converts :: "plugin_method \<Rightarrow> stanza \<Rightarrow> bool" where
  "converts Call_Blocking_handlePush st \<longleftrightarrow> asIQ st \<noteq> None"
| "converts Call_Carbons_handle st \<longleftrightarrow> asMessage st \<noteq> None"
| "converts Call_Disco_handleInfo st \<longleftrightarrow> asIQ st \<noteq> None"
| "converts Call_Disco_handleItems st \<longleftrightarrow> asIQ st \<noteq> None"
| "converts Call_MAM_handleResult st \<longleftrightarrow> asMessage st \<noteq> None"
| "converts Call_Receipts_handle st \<longleftrightarrow> asMessage st \<noteq> None"
| "converts Call_MUC_handlePresence st \<longleftrightarrow> asPresence st \<noteq> None"
| "converts Call_MUC_handleMessage st \<longleftrightarrow> asMessage st \<noteq> None"
| "converts Call_PubSub_handleEvent st \<longleftrightarrow> asMessage st \<noteq> None"
| "converts Call_Version_reply st \<longleftrightarrow> asIQ st \<noteq> None"
| "converts Call_Ping_reply st \<longleftrightarrow> asIQ st \<noteq> None"
| "converts Call_EntityTime_reply st \<longleftrightarrow> asIQ st \<noteq> None"
| "converts Call_Roster_handlePush st \<longleftrightarrow> asRosterIQ st \<noteq> None"
| "converts Call_Omemo_handleEncrypted st \<longleftrightarrow> omemo_asMessage st \<noteq> None"
| "converts _ st \<longleftrightarrow> True"

subsection \<open>The plugin objects\<close>

text \<open>
  The part of a plugin's struct that concerns registration: whether \<^verbatim>\<open>client\<close> is set, and the
  handlers and subscriptions kept for \<^verbatim>\<open>Shutdown\<close> (a single \<^verbatim>\<open>handler\<close> field is a list of at
  most one). The client state adds the API registry to the registries of \<^verbatim>\<open>Handlers\<close>.
\<close>

record plugin_object =
  po_client :: bool
  po_handlers :: "handler list"
  po_subscriptions :: "subscription list"

definition plugin_object0 :: plugin_object where
  "plugin_object0 = \<lparr>po_client = False, po_handlers = [], po_subscriptions = []\<rparr>"

record life_state = dispatch_state +
  ls_API :: api_registry

definition life_state0 :: life_state where
  "life_state0 = \<lparr>bus_nextID = 0, bus_handlers = Map.empty, hr_nextID = 0, hr_handlers = [],
     ds_spawned = [], ls_API = NewAPIRegistry\<rparr>"

type_synonym handler_entry = "string \<times> matcher \<times> plugin_method \<times> handler_options list"

fun add_handlers :: "handler_entry list \<Rightarrow> life_state \<Rightarrow> (handler list \<times> life_state) option" where
  "add_handlers [] w = Some ([], w)"
| "add_handlers ((name, m, cb, options) # es) w =
     (case AddHandler name (Some m) (Some (method_no cb)) options w of
        None \<Rightarrow> None
      | Some (h, w1) \<Rightarrow>
          (case add_handlers es w1 of None \<Rightarrow> None | Some (hs, w2) \<Rightarrow> Some (h # hs, w2)))"

fun add_subscriptions :: "(string \<times> plugin_method) list \<Rightarrow> life_state \<Rightarrow> (subscription list \<times> life_state) option" where
  "add_subscriptions [] w = Some ([], w)"
| "add_subscriptions ((name, cb) # es) w =
     (case On name (Some (method_no cb)) [] w of
        None \<Rightarrow> None
      | Some (s, w1) \<Rightarrow>
          (case add_subscriptions es w1 of None \<Rightarrow> None | Some (ss, w2) \<Rightarrow> Some (s # ss, w2)))"

text \<open>An \<^verbatim>\<open>Init\<close> either panics (\<open>None\<close>) or returns its error with the object and the client.\<close>

type_synonym init_result = "(go_error option \<times> plugin_object \<times> life_state) option"

definition set_handler :: "plugin_object \<Rightarrow> (handler list \<times> life_state) option \<Rightarrow> init_result" where
  "set_handler p r =
     map_option (\<lambda>(hs, w'). (None, p\<lparr>po_client := True, po_handlers := hs\<rparr>, w')) r"

definition append_handlers :: "plugin_object \<Rightarrow> (handler list \<times> life_state) option \<Rightarrow> init_result" where
  "append_handlers p r =
     map_option (\<lambda>(hs, w'). (None, p\<lparr>po_client := True, po_handlers := po_handlers p @ hs\<rparr>, w')) r"

definition append_subscriptions :: "plugin_object \<Rightarrow> (subscription list \<times> life_state) option \<Rightarrow> init_result" where
  "append_subscriptions p r =
     map_option (\<lambda>(ss, w'). (None, p\<lparr>po_client := True, po_subscriptions := po_subscriptions p @ ss\<rparr>, w')) r"

abbreviation iq_matcher :: "string \<Rightarrow> string \<Rightarrow> string \<Rightarrow> matcher" where
  "iq_matcher kind ns local \<equiv> MatchAnd [Some (MatchIQType kind), Some (MatchPayload ns local)]"

abbreviation kind_matcher :: "string \<Rightarrow> string \<Rightarrow> string \<Rightarrow> matcher" where
  "kind_matcher kind ns local \<equiv> MatchAnd [Some (MatchKind kind), Some (MatchPayload ns local)]"

definition Blocking_Init :: "plugin_object \<Rightarrow> life_state \<Rightarrow> init_result" where
  "Blocking_Init b w = append_handlers b (add_handlers
     [(''block-push'', iq_matcher IQSet BlockingNS ''block'', Call_Blocking_handlePush, []),
      (''unblock-push'', iq_matcher IQSet BlockingNS ''unblock'', Call_Blocking_handlePush, [])] w)"

definition Carbons_Init :: "plugin_object \<Rightarrow> life_state \<Rightarrow> init_result" where
  "Carbons_Init ca w = set_handler ca (add_handlers [(''carbons'', MatchKind ''message'', Call_Carbons_handle, [])] w)"

definition CSI_Init :: "plugin_object \<Rightarrow> life_state \<Rightarrow> init_result" where
  "CSI_Init c w = Some (None, c\<lparr>po_client := True\<rparr>, w)"

definition StreamManagement_Init :: "plugin_object \<Rightarrow> life_state \<Rightarrow> init_result" where
  "StreamManagement_Init sm w = append_subscriptions sm (add_subscriptions
     [(''sent_stanza'', Call_SM_onSent), (''received_stanza'', Call_SM_onReceived), (''stream_element'', Call_SM_onElement)] w)"

text \<open>The numbers of the two API closures of service discovery.\<close>

definition Disco_register :: "life_state \<Rightarrow> life_state" where
  "Disco_register w =
     w\<lparr>ls_API := snd (Register ''xep_0030'' ''get_items'' [] [] (Some 1)
        (snd (Register ''xep_0030'' ''get_info'' [] [] (Some 0) (ls_API w))))\<rparr>"

definition Disco_attach :: "plugin_object \<Rightarrow> life_state \<Rightarrow> init_result" where
  "Disco_attach d w = map_option (\<lambda>(err, d', w'). (err, d', Disco_register w')) (append_handlers d (add_handlers
     [(''disco-info'', iq_matcher IQGet DiscoInfoNS ''query'', Call_Disco_handleInfo, []),
      (''disco-items'', iq_matcher IQGet DiscoItemsNS ''query'', Call_Disco_handleItems, [])] w))"

definition MAM_Init :: "plugin_object \<Rightarrow> life_state \<Rightarrow> init_result" where
  "MAM_Init m w = set_handler m (add_handlers
     [(''mam-result'', kind_matcher ''message'' MAMNS ''result'', Call_MAM_handleResult, [])] w)"

definition Receipts_Init :: "plugin_object \<Rightarrow> life_state \<Rightarrow> init_result" where
  "Receipts_Init r w = set_handler r (add_handlers [(''receipts'', MatchKind ''message'', Call_Receipts_handle, [])] w)"

definition MUC_Init :: "plugin_object \<Rightarrow> life_state \<Rightarrow> init_result" where
  "MUC_Init m w = append_handlers m (add_handlers
     [(''muc-presence'', kind_matcher ''presence'' MUCUserNS ''x'', Call_MUC_handlePresence, []),
      (''muc-message'', MatchKind ''message'', Call_MUC_handleMessage, [])] w)"

definition PubSub_Init :: "plugin_object \<Rightarrow> life_state \<Rightarrow> init_result" where
  "PubSub_Init p w = set_handler p (add_handlers
     [(''pubsub-event'', kind_matcher ''message'' PubSubEventNS ''event'', Call_PubSub_handleEvent, [])] w)"

definition Version_attach :: "plugin_object \<Rightarrow> life_state \<Rightarrow> init_result" where
  "Version_attach v w = set_handler v (add_handlers
     [(''software-version'', iq_matcher IQGet VersionNS ''query'', Call_Version_reply, [])] w)"

definition Ping_Init :: "plugin_object \<Rightarrow> life_state \<Rightarrow> init_result" where
  "Ping_Init p w = set_handler p (add_handlers [(''ping'', iq_matcher IQGet PingNS ''ping'', Call_Ping_reply, [])] w)"

definition EntityTime_Init :: "plugin_object \<Rightarrow> life_state \<Rightarrow> init_result" where
  "EntityTime_Init e w = set_handler e (add_handlers
     [(''entity-time'', iq_matcher IQGet EntityTimeNS ''time'', Call_EntityTime_reply, [])] w)"

definition PrivateXML_Init :: "plugin_object \<Rightarrow> life_state \<Rightarrow> init_result" where
  "PrivateXML_Init p w = Some (None, p\<lparr>po_client := True\<rparr>, w)"

definition HTTPUpload_Init :: "plugin_object \<Rightarrow> life_state \<Rightarrow> init_result" where
  "HTTPUpload_Init u w = Some (None, u\<lparr>po_client := True\<rparr>, w)"

text \<open>
  The OMEMO manager: \<open>backend\<close> and \<open>publish\<close> are its options \<^verbatim>\<open>Backend\<close> and \<^verbatim>\<open>PublishOnConnect\<close>.
  \<^verbatim>\<open>client\<close> is already set when the lookup of \<^verbatim>\<open>xep_0060\<close> fails.
\<close>

definition Omemo_attach :: "bool \<Rightarrow> bool \<Rightarrow> plugin_manager \<Rightarrow> plugin_object \<Rightarrow> life_state \<Rightarrow> init_result" where
  "Omemo_attach backend publish pm m w =
     (case Omemo_Init backend pm of
        Some e \<Rightarrow> Some (Some e, if backend then m\<lparr>po_client := True\<rparr> else m, w)
      | None \<Rightarrow>
          (case set_handler m (add_handlers
                  [(''omemo'', kind_matcher ''message'' OmemoNS ''encrypted'', Call_Omemo_handleEncrypted,
                    [\<lparr>ho_Priority = - 100, ho_Once = False, ho_Async = False\<rparr>])] w) of
             None \<Rightarrow> None
           | Some (_, m1, w1) \<Rightarrow>
               append_subscriptions m1 (add_subscriptions
                 ((''pubsub_event'', Call_Omemo_handlePubSub)
                  # (if publish then [(''session_start'', Call_Omemo_publish)] else [])) w1)))"

text \<open>
  The roster manager (\<^verbatim>\<open>NewRosterManager\<close> of \<^verbatim>\<open>src/xmpp/roster.go\<close>) registers its push handler in
  the same way when it is given a client; it has no \<^verbatim>\<open>Shutdown\<close>.
\<close>

definition NewRosterManager :: "bool \<Rightarrow> plugin_object \<Rightarrow> life_state \<Rightarrow> init_result" where
  "NewRosterManager client r w =
     (if client
      then set_handler r (add_handlers
        [(''roster-push'', iq_matcher IQSet rosterNS ''query'', Call_Roster_handlePush, [])] w)
      else Some (None, r, w))"

subsection \<open>Shutdown\<close>

definition remove_handlers :: "plugin_object \<Rightarrow> life_state \<Rightarrow> life_state" where
  "remove_handlers p w = (if po_client p then fold (\<lambda>h. RemoveHandler (Some h)) (po_handlers p) w else w)"

definition remove_subscriptions :: "plugin_object \<Rightarrow> life_state \<Rightarrow> life_state" where
  "remove_subscriptions p w = (if po_client p then fold (\<lambda>s. Off (Some s)) (po_subscriptions p) w else w)"

definition Blocking_Shutdown :: "plugin_object \<Rightarrow> life_state \<Rightarrow> life_state" where
  "Blocking_Shutdown p w = remove_handlers p w"

definition Carbons_Shutdown :: "plugin_object \<Rightarrow> life_state \<Rightarrow> life_state" where
  "Carbons_Shutdown p w = remove_handlers p w"

definition MAM_Shutdown :: "plugin_object \<Rightarrow> life_state \<Rightarrow> life_state" where
  "MAM_Shutdown p w = remove_handlers p w"

definition Receipts_Shutdown :: "plugin_object \<Rightarrow> life_state \<Rightarrow> life_state" where
  "Receipts_Shutdown p w = remove_handlers p w"

definition MUC_Shutdown :: "plugin_object \<Rightarrow> life_state \<Rightarrow> life_state" where
  "MUC_Shutdown p w = remove_handlers p w"

definition PubSub_Shutdown :: "plugin_object \<Rightarrow> life_state \<Rightarrow> life_state" where
  "PubSub_Shutdown p w = remove_handlers p w"

definition Version_Shutdown :: "plugin_object \<Rightarrow> life_state \<Rightarrow> life_state" where
  "Version_Shutdown p w = remove_handlers p w"

definition Ping_Shutdown :: "plugin_object \<Rightarrow> life_state \<Rightarrow> life_state" where
  "Ping_Shutdown p w = remove_handlers p w"

definition EntityTime_Shutdown :: "plugin_object \<Rightarrow> life_state \<Rightarrow> life_state" where
  "EntityTime_Shutdown p w = remove_handlers p w"

definition StreamManagement_Shutdown :: "plugin_object \<Rightarrow> life_state \<Rightarrow> life_state" where
  "StreamManagement_Shutdown sm w = remove_subscriptions sm w"

definition Disco_Shutdown :: "plugin_object \<Rightarrow> life_state \<Rightarrow> life_state" where
  "Disco_Shutdown d w =
     (if po_client d
      then (remove_handlers d w)\<lparr>ls_API := Purge ''xep_0030'' (ls_API (remove_handlers d w))\<rparr>
      else w)"

definition Omemo_Shutdown :: "plugin_object \<Rightarrow> life_state \<Rightarrow> life_state" where
  "Omemo_Shutdown m w = remove_subscriptions m (remove_handlers m w)"

subsection \<open>All plugins\<close>

fun plugin_Init :: "bool \<Rightarrow> bool \<Rightarrow> plugin_manager \<Rightarrow> plugin_kind \<Rightarrow> plugin_object \<Rightarrow> life_state \<Rightarrow> init_result" where
  "plugin_Init backend publish pm KBlocking p w = Blocking_Init p w"
| "plugin_Init backend publish pm KCarbons p w = Carbons_Init p w"
| "plugin_Init backend publish pm KCSI p w = CSI_Init p w"
| "plugin_Init backend publish pm KStreamManagement p w = StreamManagement_Init p w"
| "plugin_Init backend publish pm KDisco p w = Disco_attach p w"
| "plugin_Init backend publish pm KMAM p w = MAM_Init p w"
| "plugin_Init backend publish pm KReceipts p w = Receipts_Init p w"
| "plugin_Init backend publish pm KMUC p w = MUC_Init p w"
| "plugin_Init backend publish pm KPubSub p w = PubSub_Init p w"
| "plugin_Init backend publish pm KVersion p w = Version_attach p w"
| "plugin_Init backend publish pm KPing p w = Ping_Init p w"
| "plugin_Init backend publish pm KEntityTime p w = EntityTime_Init p w"
| "plugin_Init backend publish pm KPrivateXML p w = PrivateXML_Init p w"
| "plugin_Init backend publish pm KHTTPUpload p w = HTTPUpload_Init p w"
| "plugin_Init backend publish pm KRoster p w = NewRosterManager True p w"
| "plugin_Init backend publish pm KOmemo p w = Omemo_attach backend publish pm p w"

fun plugin_Shutdown :: "plugin_kind \<Rightarrow> plugin_object \<Rightarrow> life_state \<Rightarrow> life_state" where
  "plugin_Shutdown KBlocking p w = Blocking_Shutdown p w"
| "plugin_Shutdown KCarbons p w = Carbons_Shutdown p w"
| "plugin_Shutdown KMAM p w = MAM_Shutdown p w"
| "plugin_Shutdown KReceipts p w = Receipts_Shutdown p w"
| "plugin_Shutdown KMUC p w = MUC_Shutdown p w"
| "plugin_Shutdown KPubSub p w = PubSub_Shutdown p w"
| "plugin_Shutdown KVersion p w = Version_Shutdown p w"
| "plugin_Shutdown KPing p w = Ping_Shutdown p w"
| "plugin_Shutdown KEntityTime p w = EntityTime_Shutdown p w"
| "plugin_Shutdown KStreamManagement p w = StreamManagement_Shutdown p w"
| "plugin_Shutdown KDisco p w = Disco_Shutdown p w"
| "plugin_Shutdown KOmemo p w = Omemo_Shutdown p w"
| "plugin_Shutdown KCSI p w = w"
| "plugin_Shutdown KPrivateXML p w = w"
| "plugin_Shutdown KHTTPUpload p w = w"
| "plugin_Shutdown KRoster p w = w"

lemmas plugin_shutdowns = Blocking_Shutdown_def Carbons_Shutdown_def MAM_Shutdown_def Receipts_Shutdown_def MUC_Shutdown_def PubSub_Shutdown_def Version_Shutdown_def Ping_Shutdown_def EntityTime_Shutdown_def StreamManagement_Shutdown_def

text \<open>
  The life of a client's plugins: loading (which the plugin manager does only for a plugin
  that is not loaded), a failed load, shutting down, and between these the application
  registering and removing its own callbacks. \<open>live\<close> are the loaded plugins. The counters of the
  two registries are 64 bits wide; \<open>room\<close> leaves what one \<^verbatim>\<open>Init\<close> can use.
\<close>

definition room :: "life_state \<Rightarrow> bool" where
  "room w \<longleftrightarrow> hr_nextID w + 2 < counter_limit \<and> bus_nextID w + 3 < counter_limit"

inductive plugin_life :: "bool \<Rightarrow> life_state \<Rightarrow> (plugin_kind \<Rightarrow> plugin_object) \<Rightarrow> plugin_kind set \<Rightarrow> bool"
  for publish :: bool where
  fresh: "plugin_life publish life_state0 (\<lambda>_. plugin_object0) {}"
| loaded: "plugin_life publish w objs live \<Longrightarrow> k \<notin> live \<Longrightarrow> room w \<Longrightarrow>
    plugin_Init backend publish pm k (objs k) w = Some (None, p, w') \<Longrightarrow>
    plugin_life publish w' (objs(k := p)) (insert k live)"
| failed: "plugin_life publish w objs live \<Longrightarrow> k \<notin> live \<Longrightarrow>
    plugin_Init backend publish pm k (objs k) w = Some (Some e, p, w') \<Longrightarrow>
    plugin_life publish w' (objs(k := p)) live"
| stopped: "plugin_life publish w objs live \<Longrightarrow> k \<in> live \<Longrightarrow> k \<noteq> KRoster \<Longrightarrow>
    plugin_life publish (plugin_Shutdown k (objs k) w) objs (live - {k})"
| own_handler: "plugin_life publish w objs live \<Longrightarrow> room w \<Longrightarrow> method_of cb = None \<Longrightarrow>
    AddHandler name m (Some cb) options w = Some (h, w') \<Longrightarrow> plugin_life publish w' objs live"
| drop_own_handler: "plugin_life publish w objs live \<Longrightarrow> h \<in> set (hr_handlers w) \<Longrightarrow>
    method_of (h_Callback h) = None \<Longrightarrow> plugin_life publish (RemoveHandler (Some h) w) objs live"
| own_subscription: "plugin_life publish w objs live \<Longrightarrow> room w \<Longrightarrow> method_of cb = None \<Longrightarrow>
    On name (Some cb) options w = Some (s, w') \<Longrightarrow> plugin_life publish w' objs live"
| drop_own_subscription: "plugin_life publish w objs live \<Longrightarrow> s \<in> all_subs w \<Longrightarrow>
    method_of (sub_handler s) = None \<Longrightarrow> plugin_life publish (Off (Some s) w) objs live"

subsection \<open>Registered things and their owners\<close>

text \<open>
  The bookkeeping shared by the two registries: every registered item has a number, an
  owner (or none) and a description; an owner holds on to what it registered, old items
  included, and is either live, with exactly its entries registered, or has nothing registered.
\<close>

locale ownership =
  fixes ident :: "'a \<Rightarrow> nat"
    and owner :: "'a \<Rightarrow> 'o option"
    and desc :: "'a \<Rightarrow> 'd"
    and entries :: "'o \<Rightarrow> 'd set"
  assumes entries_owner: "desc i \<in> entries k \<Longrightarrow> owner i = Some k"
begin

definition owned_by :: "'o \<Rightarrow> 'a set \<Rightarrow> 'a set" where
  "owned_by k items = {i \<in> items. owner i = Some k}"

definition own_inv :: "nat \<Rightarrow> 'a set \<Rightarrow> ('o \<Rightarrow> 'a set) \<Rightarrow> 'o set \<Rightarrow> bool" where
  "own_inv bnd items held live \<longleftrightarrow>
     (\<forall>i\<in>items. ident i \<le> bnd \<and> (\<forall>k. owner i = Some k \<longrightarrow> i \<in> held k))
     \<and> (\<forall>k. \<forall>h\<in>held k. ident h \<le> bnd \<and> owner h = Some k \<and> (\<forall>i\<in>items. ident i = ident h \<longrightarrow> i = h))
     \<and> (\<forall>k. bij_betw desc (owned_by k items) (if k \<in> live then entries k else {}))"

lemma own_invD:
  assumes "own_inv bnd items held live"
  shows "i \<in> items \<Longrightarrow> ident i \<le> bnd" "i \<in> items \<Longrightarrow> owner i = Some k \<Longrightarrow> i \<in> held k"
    "h \<in> held k \<Longrightarrow> ident h \<le> bnd" "h \<in> held k \<Longrightarrow> i \<in> items \<Longrightarrow> ident i = ident h \<Longrightarrow> i = h"
    "h \<in> held k \<Longrightarrow> owner h = Some k"
    "bij_betw desc (owned_by k items) (if k \<in> live then entries k else {})"
  using assms unfolding own_inv_def by blast+

lemma own_invI:
  assumes "\<And>i. i \<in> items \<Longrightarrow> ident i \<le> bnd" "\<And>i k. i \<in> items \<Longrightarrow> owner i = Some k \<Longrightarrow> i \<in> held k"
    "\<And>h k. h \<in> held k \<Longrightarrow> ident h \<le> bnd" "\<And>h k i. h \<in> held k \<Longrightarrow> i \<in> items \<Longrightarrow> ident i = ident h \<Longrightarrow> i = h"
    "\<And>h k. h \<in> held k \<Longrightarrow> owner h = Some k"
    "\<And>k. bij_betw desc (owned_by k items) (if k \<in> live then entries k else {})"
  shows "own_inv bnd items held live"
  unfolding own_inv_def by (intro conjI ballI allI impI) (rule assms; assumption)+

lemma own_inv_empty: "own_inv bnd {} (\<lambda>_. {}) {}"
  by (simp add: own_inv_def owned_by_def bij_betw_def)

lemma nothing_owned: "own_inv bnd items held live \<Longrightarrow> k \<notin> live \<Longrightarrow> owned_by k items = {}"
  using own_invD(6)[of bnd items held live k] by (auto simp: bij_betw_def)

lemma owned_by_Un: "owned_by k (A \<union> B) = owned_by k A \<union> owned_by k B"
  by (auto simp: owned_by_def)

lemma attach:
  assumes inv: "own_inv bnd items held live" and "k \<notin> live"
    and new: "\<And>i. i \<in> new \<Longrightarrow> bnd < ident i \<and> ident i \<le> bnd'" "bij_betw desc new (entries k)" "inj_on ident new"
    and H: "new \<subseteq> H" "H \<subseteq> new \<union> held k" and "bnd \<le> bnd'"
  shows "own_inv bnd' (items \<union> new) (held(k := H)) (insert k live)"
proof -
  have own: "owner i = Some k" if "i \<in> new" for i
    using that new(2) entries_owner by (auto simp: bij_betw_def)
  then have "owned_by k new = new" "j \<noteq> k \<Longrightarrow> owned_by j new = {}" for j
    by (auto simp: owned_by_def)
  then have bij: "bij_betw desc (owned_by j (items \<union> new)) (if j \<in> insert k live then entries j else {})" for j
    using own_invD(6)[OF inv, of j] new(2) nothing_owned[OF inv assms(2)] assms(2)
    by (cases "j = k") (simp_all add: owned_by_Un)
  have held: "i \<in> (held(k := H)) j" if "i \<in> items \<union> new" "owner i = Some j" for i j
    using that own H nothing_owned[OF inv assms(2)] own_invD(2)[OF inv] by (auto simp: owned_by_def)
  have old: "i = h" if "h \<in> held j" "i \<in> items \<union> new" "ident i = ident h" for h i j
    using that new(1)[of i] own_invD(3,4)[OF inv that(1)] by auto
  have ids: "owner h = Some j \<and> (i \<in> items \<union> new \<longrightarrow> ident i = ident h \<longrightarrow> i = h)"
    if "h \<in> (held(k := H)) j" for h i j
  proof (cases "j = k \<and> h \<in> new")
    case True
    then show ?thesis
      using new(1)[of h] own_invD(1)[OF inv, of i] own inj_onD[OF new(3), of i h] by auto
  next
    case False
    then have "h \<in> held j" using that H(2) by (auto split: if_splits)
    then show ?thesis using old own_invD(5)[OF inv] by blast
  qed
  have "ident i \<le> bnd'" if "i \<in> items \<union> new \<union> (held(k := H)) j" for i j
    using that new(1)[of i] own_invD(1)[OF inv, of i] own_invD(3)[OF inv, of i] H(2) \<open>bnd \<le> bnd'\<close>
    by (fastforce split: if_splits)
  then show ?thesis unfolding own_inv_def using bij held ids by blast
qed

lemma detach:
  assumes inv: "own_inv bnd items held live"
  shows "own_inv bnd {i \<in> items. ident i \<notin> ident ` held k} held (live - {k})"
proof -
  let ?items = "{i \<in> items. ident i \<notin> ident ` held k}"
  have "owned_by k ?items = {}"
    using own_invD(2)[OF inv] by (auto simp: owned_by_def)
  moreover have "owned_by j ?items = owned_by j items" if "j \<noteq> k" for j
    using that own_invD(4,5)[OF inv] by (fastforce simp: owned_by_def)
  ultimately have "bij_betw desc (owned_by j ?items) (if j \<in> live - {k} then entries j else {})" for j
    using own_invD(6)[OF inv, of j] by (cases "j = k") (simp_all add: bij_betw_def)
  then show ?thesis using own_invD(1-5)[OF inv] unfolding own_inv_def by blast
qed

lemma no_entries:
  assumes inv: "own_inv bnd items held live" and "entries k = {}"
  shows "{i \<in> items. ident i \<notin> ident ` held k} = items"
proof -
  have "owned_by k items = {}" using own_invD(6)[OF inv, of k] assms(2) by (auto simp: bij_betw_def split: if_splits)
  then have "ident i \<notin> ident ` held k" if "i \<in> items" for i
    using that own_invD(4,5)[OF inv] by (fastforce simp: owned_by_def)
  then show ?thesis by blast
qed

lemma foreign_add:
  assumes inv: "own_inv bnd items held live" and "owner i = None" "bnd < ident i" "ident i \<le> bnd'"
  shows "own_inv bnd' (insert i items) held live"
proof -
  have "owned_by k (insert i items) = owned_by k items" for k
    using assms(2) by (auto simp: owned_by_def)
  then have "bij_betw desc (owned_by k (insert i items)) (if k \<in> live then entries k else {})" for k
    using own_invD(6)[OF inv] by simp
  moreover have "x = h" if "h \<in> held k" "x \<in> insert i items" "ident x = ident h" for h k x
    using that own_invD(3,4)[OF inv that(1)] assms(3) by (cases "x = i") auto
  moreover have "ident x \<le> bnd'" if "x \<in> insert i items \<union> held k" for x k
    using that own_invD(1,3)[OF inv, of x] assms(3,4) by fastforce
  moreover have "x \<in> held k" if "x \<in> insert i items" "owner x = Some k" for x k
    using that own_invD(2)[OF inv] assms(2) by (cases "x = i") simp_all
  ultimately show ?thesis using own_invD(5)[OF inv] by (intro own_invI) (assumption | blast)+
qed

lemma foreign_remove:
  assumes inv: "own_inv bnd items held live" and "items' \<subseteq> items" "\<And>i. i \<in> items - items' \<Longrightarrow> owner i = None"
  shows "own_inv bnd items' held live"
proof -
  have "owned_by k items' = owned_by k items" for k
    using assms(2,3) by (fastforce simp: owned_by_def)
  then show ?thesis using assms unfolding own_inv_def by (metis subsetD)
qed

end

subsection \<open>What each plugin owns\<close>

fun plugin_callbacks :: "plugin_kind \<Rightarrow> ((string \<times> int) \<times> plugin_method) list" where
  "plugin_callbacks KBlocking = [((''block-push'', 0), Call_Blocking_handlePush), ((''unblock-push'', 0), Call_Blocking_handlePush)]"
| "plugin_callbacks KCarbons = [((''carbons'', 0), Call_Carbons_handle)]"
| "plugin_callbacks KDisco = [((''disco-info'', 0), Call_Disco_handleInfo), ((''disco-items'', 0), Call_Disco_handleItems)]"
| "plugin_callbacks KMAM = [((''mam-result'', 0), Call_MAM_handleResult)]"
| "plugin_callbacks KReceipts = [((''receipts'', 0), Call_Receipts_handle)]"
| "plugin_callbacks KMUC = [((''muc-presence'', 0), Call_MUC_handlePresence), ((''muc-message'', 0), Call_MUC_handleMessage)]"
| "plugin_callbacks KPubSub = [((''pubsub-event'', 0), Call_PubSub_handleEvent)]"
| "plugin_callbacks KVersion = [((''software-version'', 0), Call_Version_reply)]"
| "plugin_callbacks KPing = [((''ping'', 0), Call_Ping_reply)]"
| "plugin_callbacks KEntityTime = [((''entity-time'', 0), Call_EntityTime_reply)]"
| "plugin_callbacks KRoster = [((''roster-push'', 0), Call_Roster_handlePush)]"
| "plugin_callbacks KOmemo = [((''omemo'', - 100), Call_Omemo_handleEncrypted)]"
| "plugin_callbacks _ = []"

fun plugin_events :: "bool \<Rightarrow> plugin_kind \<Rightarrow> (string \<times> plugin_method) list" where
  "plugin_events publish KStreamManagement =
     [(''sent_stanza'', Call_SM_onSent), (''received_stanza'', Call_SM_onReceived), (''stream_element'', Call_SM_onElement)]"
| "plugin_events publish KOmemo =
     (''pubsub_event'', Call_Omemo_handlePubSub) # (if publish then [(''session_start'', Call_Omemo_publish)] else [])"
| "plugin_events publish _ = []"

definition handler_desc :: "handler \<Rightarrow> (string \<times> int) \<times> plugin_method option" where
  "handler_desc h = ((h_Name h, h_Priority h), method_of (h_Callback h))"

definition sub_desc :: "subscription \<Rightarrow> string \<times> plugin_method option" where
  "sub_desc s = (sub_name s, method_of (sub_handler s))"

definition method_owner :: "nat \<Rightarrow> plugin_kind option" where
  "method_owner n = map_option method_kind (method_of n)"

definition described :: "('n \<times> plugin_method) list \<Rightarrow> ('n \<times> plugin_method option) list" where
  "described = map (apsnd Some)"

lemma method_of_no [simp]: "method_of (method_no m) = Some m"
  by (cases m) (simp_all add: method_of_def method_no_def plugin_methods_def)

lemma plugin_callbacks_kind: "(n, m) \<in> set (plugin_callbacks k) \<Longrightarrow> method_kind m = k"
  by (cases k) auto

lemma plugin_events_kind: "(n, m) \<in> set (plugin_events publish k) \<Longrightarrow> method_kind m = k"
  by (cases k) (auto split: if_splits)

lemma distinct_described:
  "distinct (described (plugin_callbacks k))" "distinct (described (plugin_events publish k))"
  by (cases k; simp add: described_def)+

interpretation own_handlers: ownership h_id "\<lambda>h. method_owner (h_Callback h)" handler_desc
    "\<lambda>k. set (described (plugin_callbacks k))"
  by unfold_locales (auto simp: handler_desc_def described_def method_owner_def plugin_callbacks_kind)

interpretation own_subs: ownership sub_id "\<lambda>s. method_owner (sub_handler s)" sub_desc
    "\<lambda>k. set (described (plugin_events publish k))" for publish
  by unfold_locales (auto simp: sub_desc_def described_def method_owner_def dest: plugin_events_kind)

text \<open>The matcher each callback is registered with; the two block pushes have their own.\<close>

fun callback_matcher :: "string \<Rightarrow> plugin_method \<Rightarrow> matcher" where
  "callback_matcher name Call_Blocking_handlePush =
     iq_matcher IQSet BlockingNS (if name = ''block-push'' then ''block'' else ''unblock'')"
| "callback_matcher name Call_Carbons_handle = MatchKind ''message''"
| "callback_matcher name Call_Disco_handleInfo = iq_matcher IQGet DiscoInfoNS ''query''"
| "callback_matcher name Call_Disco_handleItems = iq_matcher IQGet DiscoItemsNS ''query''"
| "callback_matcher name Call_MAM_handleResult = kind_matcher ''message'' MAMNS ''result''"
| "callback_matcher name Call_Receipts_handle = MatchKind ''message''"
| "callback_matcher name Call_MUC_handlePresence = kind_matcher ''presence'' MUCUserNS ''x''"
| "callback_matcher name Call_MUC_handleMessage = MatchKind ''message''"
| "callback_matcher name Call_PubSub_handleEvent = kind_matcher ''message'' PubSubEventNS ''event''"
| "callback_matcher name Call_Version_reply = iq_matcher IQGet VersionNS ''query''"
| "callback_matcher name Call_Ping_reply = iq_matcher IQGet PingNS ''ping''"
| "callback_matcher name Call_EntityTime_reply = iq_matcher IQGet EntityTimeNS ''time''"
| "callback_matcher name Call_Omemo_handleEncrypted = kind_matcher ''message'' OmemoNS ''encrypted''"
| "callback_matcher name Call_Roster_handlePush = iq_matcher IQSet rosterNS ''query''"
| "callback_matcher name _ = MatchAll"

text \<open>What it accepts, the callback can convert.\<close>

lemma callback_matcher_converts: "callback_matcher name m (Some st) \<Longrightarrow> converts m st"
  by (cases st; cases m) (auto simp: MatchKind_def split: if_splits)

text \<open>A plugin's handler has the matcher of its callback and is called each time, on the read loop.\<close>

definition typed_handler :: "handler \<Rightarrow> bool" where
  "typed_handler h \<longleftrightarrow>
     (\<forall>m. method_of (h_Callback h) = Some m \<longrightarrow>
        h_Matcher h = Some (callback_matcher (h_Name h) m) \<and> \<not> h_Once h \<and> \<not> h_Async h)"

definition typed_entry :: "handler_entry \<Rightarrow> bool" where
  "typed_entry = (\<lambda>(name, matcher, m, options).
     matcher = callback_matcher name m \<and> list_all (\<lambda>x. \<not> ho_Once x \<and> \<not> ho_Async x) options)"

definition life_inv :: "bool \<Rightarrow> life_state \<Rightarrow> (plugin_kind \<Rightarrow> plugin_object) \<Rightarrow> plugin_kind set \<Rightarrow> bool" where
  "life_inv publish w objs live \<longleftrightarrow>
     handlers.registry_inv w \<and> bus_wf w
     \<and> own_handlers.own_inv (hr_nextID w) (set (hr_handlers w)) (\<lambda>k. set (po_handlers (objs k))) live
     \<and> own_subs.own_inv publish (bus_nextID w) (all_subs w) (\<lambda>k. set (po_subscriptions (objs k))) live
     \<and> (\<forall>h\<in>set (hr_handlers w). typed_handler h)
     \<and> (\<forall>k\<in>live. po_client (objs k))
     \<and> api_handlers (ls_API w) =
         (if KDisco \<in> live then [ApiKey ''xep_0030'' ''get_info'' [] [] \<mapsto> 0, ApiKey ''xep_0030'' ''get_items'' [] [] \<mapsto> 1]
          else Map.empty)"

subsection \<open>Registering and removing\<close>

text \<open>The two registries are separate fields: changing one leaves what is said of the other.\<close>

lemma registries_separate [simp]:
  "bus_wf (w\<lparr>hr_nextID := a\<rparr>) \<longleftrightarrow> bus_wf w" "bus_wf (w\<lparr>hr_handlers := hs\<rparr>) \<longleftrightarrow> bus_wf w"
  "bus_wf (w\<lparr>ls_API := r\<rparr>) \<longleftrightarrow> bus_wf w"
  "all_subs (w\<lparr>hr_nextID := a\<rparr>) = all_subs w" "all_subs (w\<lparr>hr_handlers := hs\<rparr>) = all_subs w"
  "all_subs (w\<lparr>ls_API := r\<rparr>) = all_subs w"
  "handlers.registry_inv (w\<lparr>bus_nextID := b\<rparr>) \<longleftrightarrow> handlers.registry_inv w"
  "handlers.registry_inv (w\<lparr>bus_handlers := bs\<rparr>) \<longleftrightarrow> handlers.registry_inv w"
  "handlers.registry_inv (w\<lparr>ls_API := r\<rparr>) \<longleftrightarrow> handlers.registry_inv w"
  for w :: life_state
  by (simp_all add: bus_wf_def all_subs_def subs_of_def events.registry_inv_def handlers.registry_inv_def)

text \<open>What a change of only the handlers, or only the bus, keeps.\<close>

definition same_bus :: "life_state \<Rightarrow> life_state \<Rightarrow> bool" where
  "same_bus w w' \<longleftrightarrow> bus_nextID w' = bus_nextID w \<and> all_subs w' = all_subs w \<and> (bus_wf w' \<longleftrightarrow> bus_wf w)
     \<and> ls_API w' = ls_API w"

definition same_handlers :: "life_state \<Rightarrow> life_state \<Rightarrow> bool" where
  "same_handlers w w' \<longleftrightarrow> hr_nextID w' = hr_nextID w \<and> hr_handlers w' = hr_handlers w
     \<and> (handlers.registry_inv w' \<longleftrightarrow> handlers.registry_inv w) \<and> ls_API w' = ls_API w"

lemma same_trans:
  "same_bus a b \<Longrightarrow> same_bus b c \<Longrightarrow> same_bus a c" "same_handlers a b \<Longrightarrow> same_handlers b c \<Longrightarrow> same_handlers a c"
  by (simp_all add: same_bus_def same_handlers_def)

lemma handler_add_same: "same_bus w (snd (handler_add x w))" for w :: life_state
  by (cases x) (simp add: same_bus_def handler_add_def Let_def)

lemma RemoveHandler_same: "same_bus w (RemoveHandler h w)" for w :: life_state
  by (simp add: same_bus_def RemoveHandler_def handler_remove_def split: option.splits)

lemma bus_add_same: "same_handlers w (snd (bus_add name x w))" for w :: life_state
  by (simp add: same_handlers_def bus_add_def Let_def)

lemma Off_same: "same_handlers w (Off s w)" for w :: life_state
  by (simp add: same_handlers_def Off_def Let_def split: option.splits)

lemma fold_same:
  "(\<And>x w. same_bus w (f x w)) \<Longrightarrow> same_bus w (fold f xs w)"
  "(\<And>x w. same_handlers w (f x w)) \<Longrightarrow> same_handlers w (fold f xs w)"
proof -
  show "(\<And>x w. same_bus w (f x w)) \<Longrightarrow> same_bus w (fold f xs w)"
    by (induction xs arbitrary: w) (auto simp: same_bus_def)
  show "(\<And>x w. same_handlers w (f x w)) \<Longrightarrow> same_handlers w (fold f xs w)"
    by (induction xs arbitrary: w) (auto simp: same_handlers_def)
qed

lemma AddHandler_Some:
  "AddHandler name m (Some cb) options w =
     Some (handler_add (name, m, cb, case options of [] \<Rightarrow> \<lparr>ho_Priority = 0, ho_Once = False, ho_Async = False\<rparr> | o1 # _ \<Rightarrow> o1) w)"
  by (simp add: AddHandler_def)

lemma handler_add_fields:
  "set (hr_handlers (snd (handler_add (name, m, cb, o1) w))) = insert (fst (handler_add (name, m, cb, o1) w)) (set (hr_handlers w))"
  "h_Name (fst (handler_add (name, m, cb, o1) w)) = name" "h_Callback (fst (handler_add (name, m, cb, o1) w)) = cb"
  "h_Matcher (fst (handler_add (name, Some f, cb, o1) w)) = Some f"
  "h_Priority (fst (handler_add (name, m, cb, o1) w)) = ho_Priority o1"
  "h_id (fst (handler_add x w)) = (hr_nextID w + 1) mod counter_limit"
  "hr_nextID (snd (handler_add x w)) = (hr_nextID w + 1) mod counter_limit"
  by (simp_all add: handler_add_def Let_def split: prod.splits)

lemma bus_add_handler: "sub_handler (fst (bus_add name (h, o1) w)) = h"
  by (simp add: bus_add_def Let_def)

lemma typed_added:
  assumes "typed_entry (name, m, cb, options)"
  shows "typed_handler (fst (handler_add (name, Some m, method_no cb,
    case options of [] \<Rightarrow> \<lparr>ho_Priority = 0, ho_Once = False, ho_Async = False\<rparr> | o1 # _ \<Rightarrow> o1) w))"
  using assms by (cases options) (simp_all add: typed_entry_def typed_handler_def handler_add_def Let_def)

lemma typed_foreign: "method_of (h_Callback h) = None \<Longrightarrow> typed_handler h"
  by (simp add: typed_handler_def)

text \<open>Registering a list: it never panics, the new items have new numbers and the given descriptions.\<close>

definition options_priority :: "handler_options list \<Rightarrow> int" where
  "options_priority options = (case options of [] \<Rightarrow> 0 | o1 # _ \<Rightarrow> ho_Priority o1)"

definition names_methods :: "handler_entry list \<Rightarrow> ((string \<times> int) \<times> plugin_method) list" where
  "names_methods = map (\<lambda>(n, m, cb, options). ((n, options_priority options), cb))"

lemma add_handlers_spec:
  assumes "handlers.registry_inv w" "hr_nextID w + length es < counter_limit" "list_all typed_entry es"
  shows "\<exists>hs w'. add_handlers es w = Some (hs, w') \<and> handlers.registry_inv w' \<and> same_bus w w'
     \<and> hr_nextID w' = hr_nextID w + length es \<and> set (hr_handlers w') = set (hr_handlers w) \<union> set hs
     \<and> (\<forall>h\<in>set hs. hr_nextID w < h_id h \<and> h_id h \<le> hr_nextID w' \<and> typed_handler h)
     \<and> map handler_desc hs = described (names_methods es)"
  using assms
proof (induction es arbitrary: w)
  case Nil
  then show ?case by (simp add: same_bus_def described_def names_methods_def)
next
  case (Cons e es)
  obtain name m cb options where e: "e = (name, m, cb, options)" by (metis prod_cases4)
  define x where "x = (name, Some m, method_no cb, case options of [] \<Rightarrow> \<lparr>ho_Priority = 0, ho_Once = False, ho_Async = False\<rparr> | o1 # _ \<Rightarrow> o1)"
  let ?h = "fst (handler_add x w)" and ?w = "snd (handler_add x w)"
  have inv: "handlers.registry_inv ?w" using Cons.prems by (intro handlers.add_inv) auto
  have next_id: "hr_nextID ?w = hr_nextID w + 1" "h_id ?h = hr_nextID w + 1"
    using Cons.prems by (simp_all add: handler_add_fields)
  have "hr_nextID ?w + length es < counter_limit" "list_all typed_entry es"
    using Cons.prems next_id by simp_all
  from Cons.IH[OF inv this] obtain hs w' where IH: "add_handlers es ?w = Some (hs, w')" "handlers.registry_inv w'"
      "same_bus ?w w'" "hr_nextID w' = hr_nextID ?w + length es" "set (hr_handlers w') = set (hr_handlers ?w) \<union> set hs"
      "\<forall>h\<in>set hs. hr_nextID ?w < h_id h \<and> h_id h \<le> hr_nextID w' \<and> typed_handler h"
      "map handler_desc hs = described (names_methods es)" by blast
  have "add_handlers (e # es) w = Some (?h # hs, w')"
    using IH(1) by (simp add: e AddHandler_Some x_def case_prod_beta)
  moreover have "same_bus w w'" using handler_add_same[of w x] IH(3) by (rule same_trans)
  moreover have "typed_handler ?h" using Cons.prems(3) typed_added[of name m cb options] by (simp add: e x_def)
  moreover have "handler_desc ?h = ((name, options_priority options), Some cb)"
    by (simp add: handler_desc_def x_def handler_add_fields options_priority_def split: list.splits)
  ultimately show ?case
    using IH next_id by (auto simp: e described_def names_methods_def x_def handler_add_fields(1))
qed

lemma add_subscriptions_spec:
  assumes "bus_wf w" "bus_nextID w + length es < counter_limit"
  shows "\<exists>ss w'. add_subscriptions es w = Some (ss, w') \<and> bus_wf w' \<and> same_handlers w w'
     \<and> bus_nextID w' = bus_nextID w + length es \<and> all_subs w' = all_subs w \<union> set ss
     \<and> (\<forall>s\<in>set ss. bus_nextID w < sub_id s \<and> sub_id s \<le> bus_nextID w')
     \<and> map sub_desc ss = described es"
  using assms
proof (induction es arbitrary: w)
  case Nil
  then show ?case by (simp add: same_handlers_def described_def)
next
  case (Cons e es)
  obtain name cb where e: "e = (name, cb)" by (metis prod.exhaust)
  let ?x = "(method_no cb, event_options0)"
  let ?s = "fst (bus_add name ?x w)" and ?w = "snd (bus_add name ?x w)"
  have inv: "bus_wf ?w" using Cons.prems by (intro bus_evolves_wf[OF bus_add_evolves]) auto
  have next_id: "bus_nextID ?w = bus_nextID w + 1" "sub_id ?s = bus_nextID w + 1"
    using Cons.prems by simp_all
  have "bus_nextID ?w + length es < counter_limit" using Cons.prems next_id by simp
  from Cons.IH[OF inv this] obtain ss w' where IH: "add_subscriptions es ?w = Some (ss, w')" "bus_wf w'"
      "same_handlers ?w w'" "bus_nextID w' = bus_nextID ?w + length es" "all_subs w' = all_subs ?w \<union> set ss"
      "\<forall>s\<in>set ss. bus_nextID ?w < sub_id s \<and> sub_id s \<le> bus_nextID w'" "map sub_desc ss = described es" by blast
  have "add_subscriptions (e # es) w = Some (?s # ss, w')"
    using IH(1) by (simp add: e On_def case_prod_beta)
  moreover have "same_handlers w w'" using bus_add_same[of w name ?x] IH(3) by (rule same_trans)
  moreover have "sub_desc ?s = (name, Some cb)" by (simp add: sub_desc_def bus_add_handler)
  ultimately show ?case
    using IH next_id by (auto simp: e described_def all_subs_add)
qed

text \<open>Removing what an object holds.\<close>

lemma remove_handlers_fold:
  assumes "handlers.registry_inv w"
  shows "handlers.registry_inv (fold (\<lambda>h. RemoveHandler (Some h)) hs w)
     \<and> hr_nextID (fold (\<lambda>h. RemoveHandler (Some h)) hs w) = hr_nextID w
     \<and> set (hr_handlers (fold (\<lambda>h. RemoveHandler (Some h)) hs w)) = {i \<in> set (hr_handlers w). h_id i \<notin> h_id ` set hs}"
  using assms
proof (induction hs arbitrary: w)
  case (Cons h hs)
  have "handlers.registry_inv (RemoveHandler (Some h) w)" "hr_nextID (RemoveHandler (Some h) w) = hr_nextID w"
    "hr_handlers (RemoveHandler (Some h) w) = filter (\<lambda>i. h_id i \<noteq> h_id h) (hr_handlers w)"
    using handlers.remove_inv[OF Cons.prems] handlers.remove_filter[OF Cons.prems, of h] handlers.last_id_remove[of h w]
    by (simp_all add: RemoveHandler_def)
  then show ?case using Cons.IH[of "RemoveHandler (Some h) w"] by auto
qed simp

lemma remove_subscriptions_fold:
  assumes "bus_wf w" "\<And>s i. s \<in> set ss \<Longrightarrow> i \<in> all_subs w \<Longrightarrow> sub_id i = sub_id s \<Longrightarrow> sub_name i = sub_name s"
  shows "bus_wf (fold (\<lambda>s. Off (Some s)) ss w) \<and> bus_nextID (fold (\<lambda>s. Off (Some s)) ss w) = bus_nextID w
     \<and> all_subs (fold (\<lambda>s. Off (Some s)) ss w) = {i \<in> all_subs w. sub_id i \<notin> sub_id ` set ss}"
  using assms
proof (induction ss arbitrary: w)
  case (Cons s ss)
  define w1 where "w1 = Off (Some s) w"
  have subs: "all_subs w1 = {i \<in> all_subs w. sub_id i \<noteq> sub_id s}"
    unfolding w1_def all_subs_Off[OF Cons.prems(1)] using Cons.prems(2)[of s] by auto
  have "bus_wf w1" unfolding w1_def using Cons.prems(1) by (intro bus_evolves_wf[OF Off_evolves])
  then have "bus_wf (fold (\<lambda>s. Off (Some s)) ss w1) \<and> bus_nextID (fold (\<lambda>s. Off (Some s)) ss w1) = bus_nextID w1
     \<and> all_subs (fold (\<lambda>s. Off (Some s)) ss w1) = {i \<in> all_subs w1. sub_id i \<notin> sub_id ` set ss}"
    by (rule Cons.IH) (rule Cons.prems(2), simp_all add: subs)
  moreover have "{i \<in> all_subs w1. sub_id i \<notin> sub_id ` set ss} = {i \<in> all_subs w. sub_id i \<notin> sub_id ` set (s # ss)}"
    by (auto simp: subs)
  moreover have "bus_nextID w1 = bus_nextID w" by (simp add: w1_def)
  ultimately show ?case by (simp flip: w1_def)
qed simp

subsection \<open>One plugin\<close>

lemmas plugin_inits = Blocking_Init_def Carbons_Init_def CSI_Init_def StreamManagement_Init_def Disco_attach_def
  MAM_Init_def Receipts_Init_def MUC_Init_def PubSub_Init_def Version_attach_def Ping_Init_def EntityTime_Init_def
  PrivateXML_Init_def HTTPUpload_Init_def Omemo_attach_def NewRosterManager_def

text \<open>
  A successful \<^verbatim>\<open>Init\<close> registers, in this order, well-typed handlers and subscriptions with the
  names and methods of the tables, keeps them in the object, and for service discovery adds
  the API closures.
\<close>

definition init_form :: "bool \<Rightarrow> plugin_kind \<Rightarrow> plugin_object \<Rightarrow> life_state \<Rightarrow> plugin_object \<Rightarrow> life_state \<Rightarrow> bool" where
  "init_form publish k p w p' w' \<longleftrightarrow>
     (\<exists>es hs w1 ss w2. names_methods es = plugin_callbacks k \<and> list_all typed_entry es \<and> length es \<le> 2
        \<and> add_handlers es w = Some (hs, w1) \<and> add_subscriptions (plugin_events publish k) w1 = Some (ss, w2)
        \<and> w' = (if k = KDisco then Disco_register w2 else w2) \<and> po_client p'
        \<and> set hs \<subseteq> set (po_handlers p') \<and> set (po_handlers p') \<subseteq> set hs \<union> set (po_handlers p)
        \<and> set ss \<subseteq> set (po_subscriptions p') \<and> set (po_subscriptions p') \<subseteq> set ss \<union> set (po_subscriptions p))"

lemma init_formI:
  assumes "add_handlers es w = Some (hs, w1)" "add_subscriptions (plugin_events publish k) w1 = Some (ss, w2)"
    and "names_methods es = plugin_callbacks k" "list_all typed_entry es" "length es \<le> 2"
    and "w' = (if k = KDisco then Disco_register w2 else w2)" "po_client p'"
    and "po_handlers p' \<in> {hs, po_handlers p @ hs}" "po_subscriptions p' \<in> {po_subscriptions p @ ss}"
  shows "init_form publish k p w p' w'"
  unfolding init_form_def
  by (rule exI[of _ es], rule exI[of _ hs], rule exI[of _ w1], rule exI[of _ ss], rule exI[of _ w2]) (use assms in auto)

declare add_handlers.simps(2) [simp del] add_subscriptions.simps(2) [simp del]

lemma handlers_form:
  assumes "set_handler p (add_handlers es w) = Some (None, p', w0) \<or> append_handlers p (add_handlers es w) = Some (None, p', w0)"
    and "w' = (if k = KDisco then Disco_register w0 else w0)"
    and "names_methods es = plugin_callbacks k" "list_all typed_entry es" "length es \<le> 2" "plugin_events publish k = []"
  shows "init_form publish k p w p' w'"
proof -
  obtain hs where "add_handlers es w = Some (hs, w0)" "po_client p'" "po_handlers p' \<in> {hs, po_handlers p @ hs}"
      "po_subscriptions p' = po_subscriptions p"
    using assms(1) by (auto simp: set_handler_def append_handlers_def)
  then show ?thesis using assms(2-6) by (intro init_formI[of es w hs w0 publish k "[]" w0]) simp_all
qed

lemma no_handlers_form:
  assumes "append_subscriptions p (add_subscriptions (plugin_events publish k) w) = Some (None, p', w')"
    and "plugin_callbacks k = []" "k \<noteq> KDisco"
  shows "init_form publish k p w p' w'"
proof -
  obtain ss where "add_subscriptions (plugin_events publish k) w = Some (ss, w')" "po_client p'"
      "po_handlers p' = po_handlers p" "po_subscriptions p' = po_subscriptions p @ ss"
    using assms(1) by (auto simp: append_subscriptions_def)
  then show ?thesis using assms(2,3) by (intro init_formI[of "[]" w "[]" w publish k ss w']) (simp_all add: names_methods_def)
qed

lemma Omemo_form:
  assumes "Omemo_attach backend publish pm p w = Some (None, p', w')"
  shows "init_form publish KOmemo p w p' w'"
proof -
  let ?es = "[(''omemo'', kind_matcher ''message'' OmemoNS ''encrypted'', Call_Omemo_handleEncrypted,
    [\<lparr>ho_Priority = - 100, ho_Once = False, ho_Async = False\<rparr>])]"
  obtain hs w1 ss where "add_handlers ?es w = Some (hs, w1)"
      "add_subscriptions (plugin_events publish KOmemo) w1 = Some (ss, w')" "po_client p'"
      "po_handlers p' = hs" "po_subscriptions p' = po_subscriptions p @ ss"
    using assms unfolding Omemo_attach_def set_handler_def append_subscriptions_def plugin_events.simps
    by (auto split: option.splits)
  then show ?thesis
    by (intro init_formI[of ?es w hs w1 publish KOmemo ss w'])
      (simp_all add: names_methods_def options_priority_def typed_entry_def)
qed

lemma plugin_Init_form:
  assumes "plugin_Init backend publish pm k p w = Some (None, p', w')"
  shows "init_form publish k p w p' w'"
proof (cases "k \<in> {KCSI, KPrivateXML, KHTTPUpload, KStreamManagement, KOmemo, KDisco}")
  case True
  show ?thesis
  proof (cases k)
    case KStreamManagement
    show ?thesis using assms by (intro no_handlers_form) (simp_all add: KStreamManagement StreamManagement_Init_def)
  next
    case KOmemo
    then show ?thesis using assms Omemo_form by simp
  next
    case KDisco
    let ?es = "[(''disco-info'', iq_matcher IQGet DiscoInfoNS ''query'', Call_Disco_handleInfo, []),
      (''disco-items'', iq_matcher IQGet DiscoItemsNS ''query'', Call_Disco_handleItems, [])]"
    obtain w0 where "append_handlers p (add_handlers ?es w) = Some (None, p', w0)" "w' = Disco_register w0"
      using assms unfolding KDisco plugin_Init.simps Disco_attach_def by auto
    then show ?thesis
      by (intro handlers_form[of p ?es w p' w0])
        (simp_all add: KDisco names_methods_def options_priority_def typed_entry_def)
  qed (use assms True in \<open>auto simp: plugin_inits init_form_def names_methods_def intro!: exI[of _ "[]"]\<close>)
next
  case False
  then show ?thesis
    using assms
    by (cases k) (simp_all add: plugin_inits,
      (rule handlers_form, (erule disjI1 | erule disjI2), simp_all add: names_methods_def options_priority_def typed_entry_def)+)
qed

lemma plugin_Init_failed:
  "plugin_Init backend publish pm k p w = Some (Some e, p', w') \<Longrightarrow>
     w' = w \<and> po_handlers p' = po_handlers p \<and> po_subscriptions p' = po_subscriptions p"
  by (cases k)
    (auto simp: plugin_inits set_handler_def append_handlers_def append_subscriptions_def
      split: option.splits prod.splits if_splits)

subsection \<open>The invariant\<close>

lemma bij_betw_list: "map f xs = ys \<Longrightarrow> distinct ys \<Longrightarrow> bij_betw f (set xs) (set ys)"
  by (auto simp: bij_betw_def distinct_map)

lemma holders_upd: "(\<lambda>j. set (f ((objs(k := p)) j))) = (\<lambda>j. set (f (objs j)))(k := set (f p))"
  by (rule ext) simp

lemma plugin_tables_short: "length (plugin_callbacks k) \<le> 2" "length (plugin_events publish k) \<le> 3"
  by (cases k; simp)+

lemma length_names_methods [simp]: "length (names_methods es) = length es"
  by (simp add: names_methods_def)

lemma Disco_register_fields [simp]:
  "hr_nextID (Disco_register w) = hr_nextID w" "hr_handlers (Disco_register w) = hr_handlers w"
  "bus_nextID (Disco_register w) = bus_nextID w" "all_subs (Disco_register w) = all_subs w"
  "bus_wf (Disco_register w) \<longleftrightarrow> bus_wf w" "handlers.registry_inv (Disco_register w) \<longleftrightarrow> handlers.registry_inv w"
  "api_handlers (ls_API (Disco_register w)) = (api_handlers (ls_API w))
     (ApiKey ''xep_0030'' ''get_info'' [] [] \<mapsto> 0, ApiKey ''xep_0030'' ''get_items'' [] [] \<mapsto> 1)"
  by (simp_all add: Disco_register_def Register_def api_put_def)

lemma init_keeps_inv:
  assumes inv: "life_inv publish w objs live" and k: "k \<notin> live" and "room w"
    and "init_form publish k (objs k) w p w'"
  shows "life_inv publish w' (objs(k := p)) (insert k live)"
proof -
  obtain es hs w1 ss w2 where form: "names_methods es = plugin_callbacks k" "list_all typed_entry es"
      "add_handlers es w = Some (hs, w1)" "add_subscriptions (plugin_events publish k) w1 = Some (ss, w2)"
      "w' = (if k = KDisco then Disco_register w2 else w2)" "po_client p"
      "set hs \<subseteq> set (po_handlers p)" "set (po_handlers p) \<subseteq> set hs \<union> set (po_handlers (objs k))"
      "set ss \<subseteq> set (po_subscriptions p)" "set (po_subscriptions p) \<subseteq> set ss \<union> set (po_subscriptions (objs k))"
    using assms(4) unfolding init_form_def by blast
  have reg: "handlers.registry_inv w" "bus_wf w" using inv by (simp_all add: life_inv_def)
  have len: "length es \<le> 2" using plugin_tables_short(1)[of k] by (simp flip: form(1))
  then have "hr_nextID w + length es < counter_limit" using \<open>room w\<close> by (simp add: room_def)
  from add_handlers_spec[OF reg(1) this form(2)] form(3)
  have H: "handlers.registry_inv w1" "same_bus w w1" "hr_nextID w1 = hr_nextID w + length es"
      "set (hr_handlers w1) = set (hr_handlers w) \<union> set hs"
      "\<forall>h\<in>set hs. hr_nextID w < h_id h \<and> h_id h \<le> hr_nextID w1 \<and> typed_handler h"
      "map handler_desc hs = described (plugin_callbacks k)"
    by (auto simp: form(1))
  have "bus_wf w1" using H(2) reg(2) by (simp add: same_bus_def)
  moreover have "bus_nextID w1 + length (plugin_events publish k) < counter_limit"
    using \<open>room w\<close> H(2) plugin_tables_short(2)[of publish k] by (simp add: room_def same_bus_def)
  ultimately have S: "bus_wf w2" "same_handlers w1 w2" "all_subs w2 = all_subs w1 \<union> set ss"
      "bus_nextID w2 = bus_nextID w1 + length (plugin_events publish k)"
      "\<forall>s\<in>set ss. bus_nextID w1 < sub_id s \<and> sub_id s \<le> bus_nextID w2"
      "map sub_desc ss = described (plugin_events publish k)"
    using add_subscriptions_spec[of w1 "plugin_events publish k"] form(4) by auto
  have own: "own_handlers.own_inv (hr_nextID w1) (set (hr_handlers w1))
      ((\<lambda>j. set (po_handlers (objs j)))(k := set (po_handlers p))) (insert k live)"
    unfolding H(4)
  proof (rule own_handlers.attach)
    show "own_handlers.own_inv (hr_nextID w) (set (hr_handlers w)) (\<lambda>j. set (po_handlers (objs j))) live"
      using inv by (simp add: life_inv_def)
    show "inj_on h_id (set hs)"
      using H(1) inj_on_subset[of h_id "set (hr_handlers w1)" "set hs"]
      by (simp add: handlers.registry_inv_def distinct_map H(4))
  qed (use k H form bij_betw_list[OF H(6) distinct_described(1)] in simp_all)
  have subs: "own_subs.own_inv publish (bus_nextID w2) (all_subs w2)
      ((\<lambda>j. set (po_subscriptions (objs j)))(k := set (po_subscriptions p))) (insert k live)"
    unfolding S(3)
  proof (rule own_subs.attach)
    show "own_subs.own_inv publish (bus_nextID w1) (all_subs w1) (\<lambda>j. set (po_subscriptions (objs j))) live"
      using inv H(2) by (simp add: life_inv_def same_bus_def)
    show "inj_on sub_id (set ss)"
      using S(1) inj_on_subset[of sub_id "all_subs w2" "set ss"] by (simp add: bus_wf_def S(3))
  qed (use k S form bij_betw_list[OF S(6) distinct_described(2)] in simp_all)
  have same: "ls_API w2 = ls_API w" "hr_handlers w2 = hr_handlers w1" "hr_nextID w2 = hr_nextID w1"
      "handlers.registry_inv w2"
    using S(2) H(1,2) by (simp_all add: same_handlers_def same_bus_def)
  have typed: "\<forall>h\<in>set (hr_handlers w1). typed_handler h"
    using inv H(4,5) by (auto simp: life_inv_def)
  have api: "api_handlers (ls_API w) = (if KDisco \<in> live
      then [ApiKey ''xep_0030'' ''get_info'' [] [] \<mapsto> 0, ApiKey ''xep_0030'' ''get_items'' [] [] \<mapsto> 1] else Map.empty)"
    and clients: "\<forall>j\<in>insert k live. po_client ((objs(k := p)) j)"
    using inv form(6) by (simp_all add: life_inv_def)
  show ?thesis
    unfolding life_inv_def holders_upd using own subs typed clients api same S(1) k
    by (cases "k = KDisco") (simp_all add: form(5))
qed

lemma stop_keeps_inv:
  assumes inv: "life_inv publish w objs live"
    and H: "handlers.registry_inv w'" "hr_nextID w' = hr_nextID w"
      "set (hr_handlers w') = {i \<in> set (hr_handlers w). h_id i \<notin> h_id ` set (po_handlers (objs k))}"
    and S: "bus_wf w'" "bus_nextID w' = bus_nextID w"
      "all_subs w' = {i \<in> all_subs w. sub_id i \<notin> sub_id ` set (po_subscriptions (objs k))}"
    and api: "api_handlers (ls_API w') = (if k = KDisco then Map.empty else api_handlers (ls_API w))"
  shows "life_inv publish w' objs (live - {k})"
  using inv unfolding life_inv_def H(2,3) S(2,3) api
  by (auto simp: H S intro: own_handlers.detach own_subs.detach)

lemma handlers_gone:
  assumes "handlers.registry_inv w" "po_client p"
  shows "handlers.registry_inv (remove_handlers p w)" "hr_nextID (remove_handlers p w) = hr_nextID w"
    "set (hr_handlers (remove_handlers p w)) = {i \<in> set (hr_handlers w). h_id i \<notin> h_id ` set (po_handlers p)}"
    "same_bus w (remove_handlers p w)"
  using remove_handlers_fold[OF assms(1), of "po_handlers p"] assms(2) fold_same(1)[of "\<lambda>h. RemoveHandler (Some h)" w "po_handlers p", OF RemoveHandler_same]
  by (simp_all add: remove_handlers_def)

lemma subscriptions_gone:
  assumes wf: "bus_wf w" and inv: "own_subs.own_inv publish (bus_nextID w) (all_subs w) held live"
    and "po_client p" "set (po_subscriptions p) = held k"
  shows "bus_wf (remove_subscriptions p w)" "bus_nextID (remove_subscriptions p w) = bus_nextID w"
    "all_subs (remove_subscriptions p w) = {i \<in> all_subs w. sub_id i \<notin> sub_id ` set (po_subscriptions p)}"
    "same_handlers w (remove_subscriptions p w)"
proof -
  have "sub_name i = sub_name s" if "s \<in> set (po_subscriptions p)" "i \<in> all_subs w" "sub_id i = sub_id s" for s i
    using own_subs.own_invD(4)[OF inv, of s k i] that assms(4) by blast
  from remove_subscriptions_fold[OF wf this] fold_same(2)[of "\<lambda>s. Off (Some s)" w "po_subscriptions p", OF Off_same] assms(3)
  show "bus_wf (remove_subscriptions p w)" "bus_nextID (remove_subscriptions p w) = bus_nextID w"
    "all_subs (remove_subscriptions p w) = {i \<in> all_subs w. sub_id i \<notin> sub_id ` set (po_subscriptions p)}"
    "same_handlers w (remove_subscriptions p w)"
    by (simp_all add: remove_subscriptions_def)
qed

lemma Shutdown_keeps_inv:
  assumes inv: "life_inv publish w objs live" and k: "k \<in> live" "k \<noteq> KRoster"
  shows "life_inv publish (plugin_Shutdown k (objs k) w) objs (live - {k})"
proof -
  let ?p = "objs k"
  let ?w1 = "remove_handlers ?p w"
  have reg: "handlers.registry_inv w" "bus_wf w" "po_client ?p"
    and oh: "own_handlers.own_inv (hr_nextID w) (set (hr_handlers w)) (\<lambda>k. set (po_handlers (objs k))) live"
    and os: "own_subs.own_inv publish (bus_nextID w) (all_subs w) (\<lambda>k. set (po_subscriptions (objs k))) live"
    using inv k by (simp_all add: life_inv_def)
  note hg = handlers_gone[OF reg(1,3)]
  note sg = subscriptions_gone[OF reg(2) os reg(3) refl]
  have os1: "own_subs.own_inv publish (bus_nextID ?w1) (all_subs ?w1) (\<lambda>k. set (po_subscriptions (objs k))) live"
    and wf1: "bus_wf ?w1"
    using hg(4) os reg(2) by (simp_all add: same_bus_def)
  note sg1 = subscriptions_gone[OF wf1 os1 reg(3) refl]
  have nh: "plugin_callbacks k = [] \<Longrightarrow> {i \<in> set (hr_handlers w). h_id i \<notin> h_id ` set (po_handlers ?p)} = set (hr_handlers w)"
    using own_handlers.no_entries[OF oh, of k] by (simp add: described_def)
  have ns: "plugin_events publish k = [] \<Longrightarrow> {i \<in> all_subs w. sub_id i \<notin> sub_id ` set (po_subscriptions ?p)} = all_subs w"
    using own_subs.no_entries[OF os, of k] by (simp add: described_def)
  have only_handlers: "life_inv publish ?w1 objs (live - {k})" if "plugin_events publish k = []" "k \<noteq> KDisco"
    using that hg ns[OF that(1)] reg(2) by (intro stop_keeps_inv[OF inv]) (simp_all add: same_bus_def)
  have purged: "(\<lambda>a. if ak_category a = ''xep_0030'' then None else api_handlers (ls_API w) a) = Map.empty"
    using inv by (auto simp: life_inv_def)
  have disco: "life_inv publish (Disco_Shutdown ?p w) objs (live - {k})" if "k = KDisco"
    using that hg ns reg(2,3) purged
    by (intro stop_keeps_inv[OF inv]) (simp_all add: same_bus_def Disco_Shutdown_def Purge_def)
  have only_subs: "life_inv publish (remove_subscriptions ?p w) objs (live - {k})" if "plugin_callbacks k = []"
    using that sg nh[OF that] reg(1)
    by (intro stop_keeps_inv[OF inv]) (auto simp: same_handlers_def)
  have both: "life_inv publish (Omemo_Shutdown ?p w) objs (live - {k})" if "k \<noteq> KDisco"
    using that hg sg1 by (intro stop_keeps_inv[OF inv]) (simp_all add: Omemo_Shutdown_def same_handlers_def same_bus_def)
  have quiet: "life_inv publish w objs (live - {k})" if "plugin_callbacks k = []" "plugin_events publish k = []"
    using that nh ns reg by (intro stop_keeps_inv[OF inv]) auto
  show ?thesis
    using only_handlers disco only_subs both quiet k(2) by (cases k) (simp_all add: plugin_shutdowns)
qed

lemma own_handler_keeps_inv:
  assumes inv: "life_inv publish w objs live" and "room w" "method_of cb = None"
    and "AddHandler name m (Some cb) options w = Some (h, w')"
  shows "life_inv publish w' objs live"
proof -
  obtain o1 where add: "handler_add (name, m, cb, o1) w = (h, w')" using assms(4) by (simp add: AddHandler_Some)
  have reg: "handlers.registry_inv w'"
    using handlers.add_inv[of w "(name, m, cb, o1)"] inv assms(2) by (simp add: add life_inv_def room_def)
  have h: "set (hr_handlers w') = insert h (set (hr_handlers w))" "h_Callback h = cb"
      "h_id h = hr_nextID w + 1" "hr_nextID w' = hr_nextID w + 1"
    using handler_add_fields(1-3)[of name m cb o1 w] handler_add_fields(6,7)[of "(name, m, cb, o1)" w] assms(2)
    by (simp_all add: add room_def)
  have "own_handlers.own_inv (hr_nextID w') (set (hr_handlers w')) (\<lambda>k. set (po_handlers (objs k))) live"
    unfolding h(1)
    by (rule own_handlers.foreign_add) (use inv assms(3) h in \<open>auto simp: life_inv_def method_owner_def\<close>)
  then show ?thesis
    using inv reg h handler_add_same[of w "(name, m, cb, o1)"] typed_foreign[of h] assms(3)
    by (simp add: life_inv_def same_bus_def add)
qed

lemma drop_handler_keeps_inv:
  assumes inv: "life_inv publish w objs live" and h: "h \<in> set (hr_handlers w)" "method_of (h_Callback h) = None"
  shows "life_inv publish (RemoveHandler (Some h) w) objs live"
proof -
  let ?w = "RemoveHandler (Some h) w"
  have reg: "handlers.registry_inv w" using inv by (simp add: life_inv_def)
  have gone: "handlers.registry_inv ?w" "hr_nextID ?w = hr_nextID w"
      "set (hr_handlers ?w) = {i \<in> set (hr_handlers w). h_id i \<noteq> h_id h}"
    using remove_handlers_fold[OF reg, of "[h]"] by auto
  have "i = h" if "i \<in> set (hr_handlers w)" "h_id i = h_id h" for i
    using that h(1) reg inj_onD[of h_id "set (hr_handlers w)" i h] by (simp add: handlers.registry_inv_def distinct_map)
  then have foreign: "method_of (h_Callback i) = None" if "i \<in> set (hr_handlers w)" "h_id i = h_id h" for i
    using that h(2) by blast
  have "own_handlers.own_inv (hr_nextID w) (set (hr_handlers ?w)) (\<lambda>k. set (po_handlers (objs k))) live"
    unfolding gone(3)
    by (rule own_handlers.foreign_remove[of _ "set (hr_handlers w)"])
      (use inv in \<open>simp add: life_inv_def\<close>, blast, auto simp: method_owner_def foreign)
  then show ?thesis
    using inv gone RemoveHandler_same[of w "Some h"] by (simp add: life_inv_def same_bus_def)
qed

lemma own_subscription_keeps_inv:
  assumes inv: "life_inv publish w objs live" and "room w" "method_of cb = None"
    and "On name (Some cb) options w = Some (s, w')"
  shows "life_inv publish w' objs live"
proof -
  obtain o1 where add: "bus_add name (cb, o1) w = (s, w')" using assms(4) by (auto simp: On_def)
  have wf: "bus_wf w'"
    using bus_add_evolves[of w name "(cb, o1)"] inv assms(2) by (simp add: add life_inv_def room_def bus_evolves_def)
  have s: "all_subs w' = insert s (all_subs w)" "sub_handler s = cb"
      "sub_id s = bus_nextID w + 1" "bus_nextID w' = bus_nextID w + 1"
    using all_subs_add[of name "(cb, o1)" w] bus_add_handler[of name cb o1 w] bus_add_sub(1)[of name "(cb, o1)" w]
      bus_nextID_simps(2)[of name "(cb, o1)" w] assms(2)
    by (simp_all add: add room_def)
  have "own_subs.own_inv publish (bus_nextID w') (all_subs w') (\<lambda>k. set (po_subscriptions (objs k))) live"
    unfolding s(1)
    by (rule own_subs.foreign_add) (use inv assms(3) s in \<open>auto simp: life_inv_def method_owner_def\<close>)
  then show ?thesis
    using inv wf s bus_add_same[of w name "(cb, o1)"] by (simp add: life_inv_def same_handlers_def add)
qed

lemma drop_subscription_keeps_inv:
  assumes inv: "life_inv publish w objs live" and s: "s \<in> all_subs w" "method_of (sub_handler s) = None"
  shows "life_inv publish (Off (Some s) w) objs live"
proof -
  have wf: "bus_wf w" using inv by (simp add: life_inv_def)
  have "i = s" if "i \<in> all_subs w" "sub_id i = sub_id s" for i
    using that s(1) wf inj_onD[of sub_id "all_subs w" i s] by (simp add: bus_wf_def)
  then have foreign: "method_of (sub_handler i) = None" if "i \<in> all_subs w" "sub_id i = sub_id s" for i
    using that s(2) by blast
  have "own_subs.own_inv publish (bus_nextID w) (all_subs (Off (Some s) w)) (\<lambda>k. set (po_subscriptions (objs k))) live"
    unfolding all_subs_Off[OF wf]
    by (rule own_subs.foreign_remove[of _ _ "all_subs w"])
      (use inv in \<open>simp add: life_inv_def\<close>, blast, auto simp: method_owner_def foreign)
  then show ?thesis
    using inv Off_evolves[OF wf, of "Some s"] Off_same[of w "Some s"] by (simp add: life_inv_def same_handlers_def bus_evolves_def)
qed

lemma life_invariant: "plugin_life publish w objs live \<Longrightarrow> life_inv publish w objs live"
proof (induction rule: plugin_life.induct)
  case fresh
  show ?case
    by (simp add: life_inv_def life_state0_def handlers.registry_inv_def bus_wf_def events.registry_inv_def subs_of_def
        all_subs_def plugin_object0_def own_handlers.own_inv_empty own_subs.own_inv_empty NewAPIRegistry_def)
next
  case (loaded w objs live k backend pm p w')
  then show ?case by (intro init_keeps_inv plugin_Init_form)
next
  case (failed w objs live k backend pm e p w')
  have "w' = w" "po_handlers p = po_handlers (objs k)" "po_subscriptions p = po_subscriptions (objs k)"
    using plugin_Init_failed failed(3) by blast+
  moreover from this have "(\<lambda>j. set (po_handlers ((objs(k := p)) j))) = (\<lambda>j. set (po_handlers (objs j)))"
    "(\<lambda>j. set (po_subscriptions ((objs(k := p)) j))) = (\<lambda>j. set (po_subscriptions (objs j)))" by (simp_all add: fun_eq_iff)
  ultimately show ?case using failed(2,4) by (simp add: life_inv_def)
next
  case (stopped w objs live k)
  then show ?case by (intro Shutdown_keeps_inv)
next
  case (own_handler w objs live cb name m options h w')
  show ?case by (rule own_handler_keeps_inv[OF own_handler.IH own_handler.hyps(2-4)])
next
  case (drop_own_handler w objs live h)
  show ?case by (rule drop_handler_keeps_inv[OF drop_own_handler.IH drop_own_handler.hyps(2-3)])
next
  case (own_subscription w objs live cb name options s w')
  show ?case by (rule own_subscription_keeps_inv[OF own_subscription.IH own_subscription.hyps(2-4)])
next
  case (drop_own_subscription w objs live s)
  show ?case by (rule drop_subscription_keeps_inv[OF drop_own_subscription.IH drop_own_subscription.hyps(2-3)])
qed

lemma life_invD:
  assumes "life_inv publish w objs live"
  shows "handlers.registry_inv w"
    "own_handlers.own_inv (hr_nextID w) (set (hr_handlers w)) (\<lambda>k. set (po_handlers (objs k))) live"
    "own_subs.own_inv publish (bus_nextID w) (all_subs w) (\<lambda>k. set (po_subscriptions (objs k))) live"
    "h \<in> set (hr_handlers w) \<Longrightarrow> typed_handler h"
  using assms by (simp_all add: life_inv_def)

lemma plugin_priority: "((n, p), m) \<in> set (plugin_callbacks k) \<Longrightarrow> p = (if k = KOmemo then - 100 else 0)"
  by (cases k) auto

lemma owned_priority:
  assumes inv: "life_inv publish w objs live" and i: "i \<in> set (hr_handlers w)" "method_owner (h_Callback i) = Some k"
  shows "h_Priority i = (if k = KOmemo then - 100 else 0)"
proof -
  have "handler_desc i \<in> set (described (plugin_callbacks k))"
    using own_handlers.own_invD(6)[OF life_invD(2)[OF inv], of k] i
    by (auto simp: bij_betw_def own_handlers.owned_by_def split: if_splits)
  then show ?thesis using plugin_priority by (fastforce simp: handler_desc_def described_def)
qed

lemma omemo_handler_unique:
  assumes inv: "life_inv publish w objs live"
    and "i \<in> set (hr_handlers w)" "method_owner (h_Callback i) = Some KOmemo"
    and "h \<in> set (hr_handlers w)" "method_owner (h_Callback h) = Some KOmemo"
  shows "i = h"
proof -
  have bij: "bij_betw handler_desc (own_handlers.owned_by KOmemo (set (hr_handlers w)))
      (if KOmemo \<in> live then set (described (plugin_callbacks KOmemo)) else {})"
    by (rule own_handlers.own_invD) (rule life_invD[OF inv])
  have own: "i \<in> own_handlers.owned_by KOmemo (set (hr_handlers w))" "h \<in> own_handlers.owned_by KOmemo (set (hr_handlers w))"
    using assms by (simp_all add: own_handlers.owned_by_def)
  then have "handler_desc i = handler_desc h"
    using bij_betwE[OF bij] by (auto simp: described_def split: if_splits)
  then show ?thesis using own bij by (auto simp: bij_betw_def inj_on_def)
qed

subsection \<open>An example\<close>

definition example_pm :: plugin_manager where
  "example_pm = newPluginManager\<lparr>pm_loaded := [''xep_0060'' \<mapsto> PubSub_plugin]\<rparr>"

definition ping_handler :: handler where
  "ping_handler = \<lparr>h_id = 1, h_Name = ''ping'', h_Matcher = Some (iq_matcher IQGet PingNS ''ping''),
     h_Callback = method_no Call_Ping_reply, h_Priority = 0, h_Once = False, h_Async = False\<rparr>"

definition omemo_handler :: handler where
  "omemo_handler = \<lparr>h_id = 2, h_Name = ''omemo'', h_Matcher = Some (kind_matcher ''message'' OmemoNS ''encrypted''),
     h_Callback = method_no Call_Omemo_handleEncrypted, h_Priority = - 100, h_Once = False, h_Async = False\<rparr>"

definition omemo_sub :: subscription where
  "omemo_sub = \<lparr>sub_id = 1, sub_name = ''pubsub_event'', sub_priority = 0, sub_once = False, sub_async = False,
     sub_handler = method_no Call_Omemo_handlePubSub\<rparr>"

definition after_ping :: life_state where
  "after_ping = life_state0\<lparr>hr_nextID := 1, hr_handlers := [ping_handler]\<rparr>"

definition after_omemo :: life_state where
  "after_omemo = life_state0\<lparr>bus_nextID := 1, bus_handlers := [''pubsub_event'' \<mapsto> [omemo_sub]],
     hr_nextID := 2, hr_handlers := [omemo_handler, ping_handler]\<rparr>"

lemma example_inits:
  "plugin_Init True False example_pm KPing plugin_object0 life_state0 =
     Some (None, plugin_object0\<lparr>po_client := True, po_handlers := [ping_handler]\<rparr>, after_ping)"
  "plugin_Init True False example_pm KOmemo plugin_object0 after_ping =
     Some (None, plugin_object0\<lparr>po_client := True, po_handlers := [omemo_handler], po_subscriptions := [omemo_sub]\<rparr>, after_omemo)"
  by (simp_all add: plugin_inits set_handler_def append_subscriptions_def add_handlers.simps add_subscriptions.simps
      AddHandler_Some handler_add_def On_def bus_add_def subs_of_def life_state0_def after_ping_def after_omemo_def
      ping_handler_def omemo_handler_def omemo_sub_def plugin_object0_def event_options0_def Omemo_Init_def required_plugin_def
      Plugins.Get_def example_pm_def newPluginManager_def PubSub_plugin_def xep_plugin_def Let_def)

lemma example_life:
  "plugin_life False after_ping ((\<lambda>_. plugin_object0)(KPing := plugin_object0\<lparr>po_client := True, po_handlers := [ping_handler]\<rparr>)) {KPing}"
  "\<exists>objs. plugin_life False after_omemo objs {KOmemo, KPing}"
proof -
  show ping: "plugin_life False after_ping ((\<lambda>_. plugin_object0)(KPing := plugin_object0\<lparr>po_client := True, po_handlers := [ping_handler]\<rparr>)) {KPing}"
    using plugin_life.loaded[OF plugin_life.fresh[of False] _ _ example_inits(1)]
    by (simp add: room_def life_state0_def)
  show "\<exists>objs. plugin_life False after_omemo objs {KOmemo, KPing}"
    using plugin_life.loaded[OF ping, of KOmemo True example_pm] example_inits(2)
    by (auto simp: room_def after_ping_def life_state0_def)
qed

subsection \<open>Properties\<close>

text \<open>C28: at every moment of a client's life, whatever was loaded, failed to load or was shut
  down before and whatever the application registered itself, each loaded plugin has exactly
  its handlers and subscriptions registered, once each, and a plugin that is not loaded has
  none; the discovery API is registered exactly while service discovery is loaded. Nothing
  leaks, also when a plugin object is loaded again after a shutdown.\<close>

theorem plugin_registrations_exact:
  assumes "plugin_life publish w objs live"
  shows "bij_betw handler_desc {h \<in> set (hr_handlers w). method_owner (h_Callback h) = Some k}
           (if k \<in> live then set (described (plugin_callbacks k)) else {})
     \<and> bij_betw sub_desc {s \<in> all_subs w. method_owner (sub_handler s) = Some k}
           (if k \<in> live then set (described (plugin_events publish k)) else {})
     \<and> dom (api_handlers (ls_API w)) = (if KDisco \<in> live
           then {ApiKey ''xep_0030'' ''get_info'' [] [], ApiKey ''xep_0030'' ''get_items'' [] []} else {})"
proof -
  have inv: "life_inv publish w objs live" using assms by (rule life_invariant)
  have "bij_betw handler_desc (own_handlers.owned_by k (set (hr_handlers w))) (if k \<in> live then set (described (plugin_callbacks k)) else {})"
    by (rule own_handlers.own_invD) (rule life_invD[OF inv])
  moreover have "bij_betw sub_desc (own_subs.owned_by k (all_subs w)) (if k \<in> live then set (described (plugin_events publish k)) else {})"
    by (rule own_subs.own_invD) (rule life_invD[OF inv])
  moreover have "dom (api_handlers (ls_API w)) = (if KDisco \<in> live
           then {ApiKey ''xep_0030'' ''get_info'' [] [], ApiKey ''xep_0030'' ''get_items'' [] []} else {})"
    using inv by (auto simp: life_inv_def)
  ultimately show ?thesis unfolding own_handlers.owned_by_def own_subs.owned_by_def by blast
qed

theorem plugin_registrations_exact_witness:
  "plugin_life False (plugin_Shutdown KPing (plugin_object0\<lparr>po_client := True, po_handlers := [ping_handler]\<rparr>) after_ping)
     ((\<lambda>_. plugin_object0)(KPing := plugin_object0\<lparr>po_client := True, po_handlers := [ping_handler]\<rparr>)) {}
   \<and> {h \<in> set (hr_handlers (plugin_Shutdown KPing (plugin_object0\<lparr>po_client := True, po_handlers := [ping_handler]\<rparr>) after_ping)).
        method_owner (h_Callback h) = Some KPing} = {}"
proof -
  have life: "plugin_life False (plugin_Shutdown KPing (plugin_object0\<lparr>po_client := True, po_handlers := [ping_handler]\<rparr>) after_ping)
     ((\<lambda>_. plugin_object0)(KPing := plugin_object0\<lparr>po_client := True, po_handlers := [ping_handler]\<rparr>)) {}"
    using plugin_life.stopped[OF example_life(1), of KPing] by simp
  then show ?thesis
    using plugin_registrations_exact[OF life, of KPing] by (simp add: bij_betw_def del: plugin_Shutdown.simps)
qed

text \<open>C29: whatever stanza arrives, a plugin callback whose matcher accepts it gets a stanza of
  the kind it converts to, so none of the conversions panics during dispatch; and the
  OMEMO handler comes before the handlers of all other plugins.\<close>

theorem plugin_dispatch_typed:
  assumes "plugin_life publish w objs live" "hr_handlers w = before @ h # after"
    and "method_of (h_Callback h) = Some m" "accepts st h"
  shows "converts m st \<and> (method_kind m = KOmemo \<longrightarrow> (\<forall>i\<in>set before. method_of (h_Callback i) = None))"
proof -
  have inv: "life_inv publish w objs live" using assms(1) by (rule life_invariant)
  have "converts m st" using life_invD(4)[OF inv, of h] assms(2-4) callback_matcher_converts
    by (auto simp: typed_handler_def accepts_def)
  moreover have "method_of (h_Callback i) = None" if "method_kind m = KOmemo" "i \<in> set before" for i
  proof (rule ccontr)
    assume "method_of (h_Callback i) \<noteq> None"
    then obtain k where k: "method_owner (h_Callback i) = Some k" by (auto simp: method_owner_def)
    have h: "method_owner (h_Callback h) = Some KOmemo" using assms(3) that(1) by (simp add: method_owner_def)
    have mem: "i \<in> set (hr_handlers w)" "h \<in> set (hr_handlers w)" using assms(2) that(2) by simp_all
    have "sorted (map h_Priority (hr_handlers w))" "distinct (map h_id (hr_handlers w))"
      using life_invD(1)[OF inv] by (simp_all add: handlers.registry_inv_def)
    then have "h_Priority i \<le> h_Priority h" "i \<noteq> h"
      using that(2) by (auto simp: assms(2) sorted_append)
    then show False
      using owned_priority[OF inv mem(1) k] owned_priority[OF inv mem(2) h] omemo_handler_unique[OF inv mem(1) _ mem(2) h] k
      by (auto split: if_splits)
  qed
  ultimately show ?thesis by blast
qed

theorem plugin_dispatch_typed_witness:
  "hr_handlers after_omemo = [omemo_handler] @ ping_handler # []
   \<and> accepts (SIQ (iq0\<lparr>iq_Type := IQGet, iq_Payloads := [NewNode PingNS ''ping'']\<rparr>)) ping_handler
   \<and> converts Call_Ping_reply (SIQ (iq0\<lparr>iq_Type := IQGet, iq_Payloads := [NewNode PingNS ''ping'']\<rparr>))"
proof -
  let ?st = "SIQ (iq0\<lparr>iq_Type := IQGet, iq_Payloads := [NewNode PingNS ''ping'']\<rparr>)"
  obtain objs where life: "plugin_life False after_omemo objs {KOmemo, KPing}" using example_life(2) by blast
  have hs: "hr_handlers after_omemo = [omemo_handler] @ ping_handler # []"
    by (simp add: after_omemo_def)
  have acc: "accepts ?st ping_handler"
    by (simp add: accepts_def ping_handler_def MatchPayload_def NewNode_def)
  have "method_of (h_Callback ping_handler) = Some Call_Ping_reply" by (simp add: ping_handler_def)
  from plugin_dispatch_typed[OF life hs this acc] hs acc show ?thesis by blast
qed

end
