(* ===== verification/Stream_Text.thy ===== *)
theory Stream_Text
  imports Connect Go_Utf8
begin

text \<open>
  The text of the stream: \<^verbatim>\<open>escapeXMLAttribute\<close> and the stream openings that
  \<^verbatim>\<open>openAndReadFeatures\<close> (\<^verbatim>\<open>src/xmpp/client.go\<close>) and \<^verbatim>\<open>connectComponent\<close>
  (\<^verbatim>\<open>src/xmpp/component.go\<close>) assemble from strings, and the debug log of \<^verbatim>\<open>debugXML\<close>. The rest of
  the library writes through the XML encoder and is modelled on tokens; here the characters
  matter, because the opening is the one place where configured text is pasted into XML.
\<close>

subsection \<open>Escaping\<close>

text \<open>\<^verbatim>\<open>xml.EscapeText\<close>, rune by rune; what XML cannot carry becomes U+FFFD.\<close>

definition isInCharacterRange :: "nat \<Rightarrow> bool" where
  "isInCharacterRange r \<longleftrightarrow> r = 0x09 \<or> r = 0x0A \<or> r = 0x0D \<or> 0x20 \<le> r \<and> r \<le> 0xD7FF
     \<or> 0xE000 \<le> r \<and> r \<le> 0xFFFD \<or> 0x10000 \<le> r \<and> r \<le> 0x10FFFF"

definition escape_rune :: "nat \<Rightarrow> string" where
  "escape_rune r =
     (if r = 0x22 then ''&#34;''
      else if r = 0x27 then ''&#39;''
      else if r = 0x26 then ''&amp;''
      else if r = 0x3C then ''&lt;''
      else if r = 0x3E then ''&gt;''
      else if r = 0x09 then ''&#x9;''
      else if r = 0x0A then ''&#xA;''
      else if r = 0x0D then ''&#xD;''
      else if \<not> isInCharacterRange r then from_runes [RuneError]
      else from_runes [r])"

definition EscapeText :: "string \<Rightarrow> string" where
  "EscapeText s = concat (map escape_rune (runes s))"

definition ReplaceAll_char :: "char \<Rightarrow> string \<Rightarrow> string \<Rightarrow> string" where
  "ReplaceAll_char c new s = concat (map (\<lambda>x. if x = c then new else [x]) s)"

definition escapeXMLAttribute :: "string \<Rightarrow> string" where
  "escapeXMLAttribute v = ReplaceAll_char (CHR 0x27) ''&apos;'' (EscapeText v)"

subsection \<open>The stream openings\<close>

abbreviation quote :: string where "quote \<equiv> [CHR 0x27]"

definition client_opening :: "string \<Rightarrow> string \<Rightarrow> string" where
  "client_opening domain lang =
     ''<stream:stream to='' @ quote @ escapeXMLAttribute domain @ quote @ '' version='' @ quote @ ''1.0'' @ quote
     @ '' xmlns='' @ quote @ clientNS @ quote @ '' xmlns:stream='' @ quote @ streamNS @ quote
     @ (if lang \<noteq> [] then '' xml:lang='' @ quote @ escapeXMLAttribute lang @ quote else []) @ ''>''"

definition component_opening :: "string \<Rightarrow> string" where
  "component_opening domain =
     ''<stream:stream xmlns='' @ quote @ componentNS @ quote @ '' xmlns:stream='' @ quote @ streamNS @ quote
     @ '' to='' @ quote @ escapeXMLAttribute domain @ quote @ ''>''"

subsection \<open>Reading a start tag\<close>

text \<open>
  What an XML reader makes of such a tag (XML 1.0, sections 2.3, 3.1 and 4.1): references are
  replaced, an attribute value ends at its quote and contains no \<open><\<close>, an unknown reference or
  a missing delimiter is an error.
\<close>

definition hex_val :: "char \<Rightarrow> nat option" where
  "hex_val c =
     (let n = of_char c in
      if 48 \<le> n \<and> n \<le> (57 :: nat) then Some (n - 48)
      else if 65 \<le> n \<and> n \<le> 70 then Some (n - 55)
      else if 97 \<le> n \<and> n \<le> 102 then Some (n - 87)
      else None)"

fun parse_hex :: "nat \<Rightarrow> string \<Rightarrow> nat option" where
  "parse_hex acc [] = Some acc"
| "parse_hex acc (c # cs) = (case hex_val c of None \<Rightarrow> None | Some d \<Rightarrow> parse_hex (acc * 16 + d) cs)"

definition reference :: "string \<Rightarrow> string option" where
  "reference name =
     (if name = ''amp'' then Some ''&''
      else if name = ''lt'' then Some ''<''
      else if name = ''gt'' then Some ''>''
      else if name = ''quot'' then Some [CHR 0x22]
      else if name = ''apos'' then Some quote
      else
        (case name of
           CHR ''#'' # CHR ''x'' # hs \<Rightarrow> if hs = [] then None else map_option (\<lambda>n. from_runes [n]) (parse_hex 0 hs)
         | CHR ''#'' # ds \<Rightarrow> if ds = [] then None else map_option (\<lambda>n. from_runes [n]) (parse_digits 0 ds)
         | _ \<Rightarrow> None))"

function unescape :: "string \<Rightarrow> string option" where
  "unescape [] = Some []"
| "unescape (c # cs) =
     (if c \<noteq> CHR ''&'' then map_option (Cons c) (unescape cs)
      else
        (case IndexByte cs (CHR '';'') of
           None \<Rightarrow> None
         | Some n \<Rightarrow>
             (case reference (take n cs) of
                None \<Rightarrow> None
              | Some t \<Rightarrow> map_option ((@) t) (unescape (drop (n + 1) cs)))))"
  by pat_completeness auto
termination by (relation "measure length") auto

definition attribute_value :: "string \<Rightarrow> string option" where
  "attribute_value raw = (if CHR ''<'' \<in> set raw then None else unescape raw)"

text \<open>The first attribute of \<open> name='value'...\<close> and the rest.\<close>

definition next_attribute :: "string \<Rightarrow> ((string \<times> string) \<times> string) option" where
  "next_attribute s =
     (case s of
        CHR '' '' # t \<Rightarrow>
          (case IndexByte t (CHR ''='') of
             None \<Rightarrow> None
           | Some i \<Rightarrow>
               (case drop (i + 1) t of
                  [] \<Rightarrow> None
                | q # u \<Rightarrow>
                    if q \<noteq> CHR 0x27 then None
                    else
                      (case IndexByte u (CHR 0x27) of
                         None \<Rightarrow> None
                       | Some j \<Rightarrow> map_option (\<lambda>v. ((take i t, v), drop (j + 1) u)) (attribute_value (take j u)))))
      | _ \<Rightarrow> None)"

lemma next_attribute_shorter: "next_attribute s = Some (a, rest) \<Longrightarrow> length rest < length s"
proof -
  assume *: "next_attribute s = Some (a, rest)"
  then obtain c t where s: "s = c # t" by (cases s) (simp_all add: next_attribute_def)
  then obtain i q u j where "drop (i + 1) t = q # u" "rest = drop (j + 1) u"
    using * by (auto simp: next_attribute_def split: char.splits bool.splits option.splits list.splits if_splits)
  moreover from this have "length u < length t" by (metis length_Cons length_drop diff_le_self Suc_le_lessD)
  ultimately show ?thesis using s by simp
qed

function read_attributes :: "string \<Rightarrow> (string \<times> string) list option" where
  "read_attributes s =
     (if s = ''>'' then Some []
      else
        (case next_attribute s of
           None \<Rightarrow> None
         | Some (a, rest) \<Rightarrow> map_option (Cons a) (read_attributes rest)))"
  by pat_completeness auto
termination
  by (relation "measure length") (auto dest: next_attribute_shorter)

declare read_attributes.simps [simp del]

definition read_start_tag :: "string \<Rightarrow> string \<Rightarrow> (string \<times> string) list option" where
  "read_start_tag name s =
     (if prefix (''<'' @ name) s then read_attributes (drop (length name + 1) s) else None)"

subsection \<open>Escaped text stays inside its quotes\<close>

text \<open>What reaches the reader: the configured text, with U+FFFD for what XML cannot carry.\<close>

definition carried_rune :: "nat \<Rightarrow> nat" where
  "carried_rune r = (if isInCharacterRange r then r else RuneError)"

definition carried :: "string \<Rightarrow> string" where
  "carried v = from_runes (map carried_rune (runes v))"

definition xml_text :: "string \<Rightarrow> bool" where
  "xml_text v \<longleftrightarrow> utf8 v \<and> list_all isInCharacterRange (runes v)"

lemma carried_id: "xml_text v \<Longrightarrow> carried v = v"
  by (simp add: xml_text_def carried_def carried_rune_def utf8_def list_all_iff map_idI)

lemma from_runes_Cons: "from_runes (r # rs) = from_runes [r] @ from_runes rs"
  by (simp add: from_runes_def)

lemma top_byte: "scalar r \<Longrightarrow> r div 262144 \<le> 4"
proof -
  assume "scalar r"
  then have "r div 262144 \<le> 0x10FFFF div 262144" by (intro div_le_mono) (auto simp: scalar_def)
  then show ?thesis by simp
qed

lemma from_runes_low: "c \<in> set (from_runes [r]) \<Longrightarrow> of_char c < (128 :: nat) \<Longrightarrow> scalar r \<Longrightarrow> of_char c = r"
  using top_byte[of r] by (auto simp: from_runes_def encode_rune_def Let_def split: if_splits)

lemma carried_scalar: "scalar r \<Longrightarrow> scalar (carried_rune r)"
  by (simp add: carried_rune_def scalar_small)

text \<open>The characters that are special in an attribute value.\<close>

lemma escape_rune_safe:
  assumes "scalar r" "c \<in> set (escape_rune r)"
  shows "c \<noteq> CHR 0x27 \<and> c \<noteq> CHR ''<''"
proof (cases "r \<in> {0x22, 0x27, 0x26, 0x3C, 0x3E, 0x09, 0x0A, 0x0D}")
  case True
  then show ?thesis using assms(2) by (auto simp: escape_rune_def)
next
  case False
  then have c: "c \<in> set (from_runes [carried_rune r])"
    using assms(2) by (auto simp: escape_rune_def carried_rune_def split: if_splits)
  have "of_char c \<noteq> (0x27 :: nat) \<and> of_char c \<noteq> (0x3C :: nat)"
    using from_runes_low[OF c _ carried_scalar[OF assms(1)]] False
    by (auto simp: carried_rune_def RuneError_def split: if_splits)
  then show ?thesis by auto
qed

lemma ReplaceAll_char_id: "c \<notin> set s \<Longrightarrow> ReplaceAll_char c new s = s"
  by (induction s) (auto simp: ReplaceAll_char_def)

lemma escapeXMLAttribute_EscapeText: "escapeXMLAttribute v = EscapeText v"
proof -
  have "CHR 0x27 \<notin> set (EscapeText v)"
    using escape_rune_safe runes_scalar[of v] by (fastforce simp: EscapeText_def list_all_iff)
  then show ?thesis by (simp add: escapeXMLAttribute_def ReplaceAll_char_id)
qed

lemma escaped_safe: "CHR 0x27 \<notin> set (escapeXMLAttribute v)" "CHR ''<'' \<notin> set (escapeXMLAttribute v)"
  using escape_rune_safe runes_scalar[of v]
  by (fastforce simp: escapeXMLAttribute_EscapeText EscapeText_def list_all_iff)+

lemma unescape_copies: "CHR ''&'' \<notin> set a \<Longrightarrow> unescape (a @ s) = map_option ((@) a) (unescape s)"
  by (induction a) (auto simp: map_option_case split: option.splits)

lemma unescape_reference:
  assumes "CHR '';'' \<notin> set name" "reference name = Some t"
  shows "unescape (CHR ''&'' # name @ CHR '';'' # s) = map_option ((@) t) (unescape s)"
  using assms by simp

lemma unescape_appended:
  "CHR '';'' \<notin> set name \<Longrightarrow> reference name = Some t \<Longrightarrow>
   unescape ((CHR ''&'' # name @ '';'') @ s) = map_option ((@) t) (unescape s)"
  using unescape_reference[of name t s] by simp

lemma specials: "char_of (38 :: nat) = CHR ''&''" "char_of (60 :: nat) = CHR ''<''" "char_of (62 :: nat) = CHR ''>''"
  by (simp_all add: char_of_eq_iff)

lemma references:
  "reference ''#34'' = Some (from_runes [0x22])" "reference ''#39'' = Some (from_runes [0x27])"
  "reference ''amp'' = Some (from_runes [0x26])" "reference ''lt'' = Some (from_runes [0x3C])"
  "reference ''gt'' = Some (from_runes [0x3E])" "reference ''#x9'' = Some (from_runes [0x09])"
  "reference ''#xA'' = Some (from_runes [0x0A])" "reference ''#xD'' = Some (from_runes [0x0D])"
  by (simp_all add: reference_def hex_val_def digit_val_def from_runes_def encode_rune_def scalar_def specials)

lemma unescape_escape_rune:
  assumes "scalar r"
  shows "unescape (escape_rune r @ s) = map_option ((@) (from_runes [carried_rune r])) (unescape s)"
proof -
  consider "r = 0x22" | "r = 0x27" | "r = 0x26" | "r = 0x3C" | "r = 0x3E" | "r = 0x09" | "r = 0x0A" | "r = 0x0D"
    | "r \<notin> {0x22, 0x27, 0x26, 0x3C, 0x3E, 0x09, 0x0A, 0x0D}" by blast
  then show ?thesis
  proof cases
    case 9
    have e: "escape_rune r = from_runes [carried_rune r]"
      using 9 by (simp add: escape_rune_def carried_rune_def)
    have "CHR ''&'' \<notin> set (from_runes [carried_rune r])"
      using from_runes_low[OF _ _ carried_scalar[OF assms], of "CHR ''&''"] 9
      by (auto simp: carried_rune_def RuneError_def split: if_splits)
    then show ?thesis by (simp add: e unescape_copies)
  qed (use references[THEN unescape_appended[rotated]] in \<open>simp_all add: escape_rune_def carried_rune_def isInCharacterRange_def
      del: unescape.simps\<close>)
qed

lemma unescape_EscapeText: "unescape (EscapeText v) = Some (carried v)"
proof -
  have "unescape (concat (map escape_rune rs)) = Some (from_runes (map carried_rune rs))" if "list_all scalar rs" for rs
    using that
  proof (induction rs)
    case (Cons r rs)
    then show ?case
      by (simp add: unescape_escape_rune from_runes_Cons[of "carried_rune r" "map carried_rune rs"] del: unescape.simps)
  qed (simp add: from_runes_def)
  then show ?thesis using runes_scalar by (simp add: EscapeText_def carried_def)
qed

lemma attribute_value_escaped: "attribute_value (escapeXMLAttribute v) = Some (carried v)"
  using escaped_safe(2)[of v] by (simp add: attribute_value_def unescape_EscapeText escapeXMLAttribute_EscapeText)

lemma next_attribute_form:
  assumes "CHR ''='' \<notin> set name" "CHR 0x27 \<notin> set raw" "attribute_value raw = Some v"
  shows "next_attribute ('' '' @ name @ ''='' @ quote @ raw @ quote @ rest) = Some ((name, v), rest)"
  using assms by (simp add: next_attribute_def)

lemma read_attributes_form:
  assumes "CHR ''='' \<notin> set name" "CHR 0x27 \<notin> set raw" "attribute_value raw = Some v"
  shows "read_attributes ('' '' @ name @ ''='' @ quote @ raw @ quote @ rest) = map_option (Cons (name, v)) (read_attributes rest)"
  using next_attribute_form[OF assms] by (subst read_attributes.simps) simp

lemma plain_values:
  "attribute_value ''1.0'' = Some ''1.0''" "attribute_value clientNS = Some clientNS"
  "attribute_value streamNS = Some streamNS" "attribute_value componentNS = Some componentNS"
  by (simp_all add: attribute_value_def)

lemma read_end_of_tag: "read_attributes ''>'' = Some []"
  by (simp add: read_attributes.simps)

subsection \<open>Properties\<close>

text \<open>C30: whatever the configured domain and language are, the text of a stream opening is one
  start tag with exactly the attributes the code means to write, in its order; the values
  read back are the configured ones, with U+FFFD for what XML cannot carry, so well-formed
  text comes back unchanged and nothing can break out of its attribute.\<close>

theorem stream_opening_exact:
  "read_start_tag ''stream:stream'' (client_opening domain lang) =
     Some ([(''to'', carried domain), (''version'', ''1.0''), (''xmlns'', clientNS), (''xmlns:stream'', streamNS)]
       @ (if lang \<noteq> [] then [(''xml:lang'', carried lang)] else []))
   \<and> read_start_tag ''stream:stream'' (component_opening domain) =
     Some [(''xmlns'', componentNS), (''xmlns:stream'', streamNS), (''to'', carried domain)]
   \<and> (xml_text domain \<longrightarrow> carried domain = domain)"
proof -
  define tail where "tail = (if lang \<noteq> [] then '' '' @ ''xml:lang'' @ ''='' @ quote @ escapeXMLAttribute lang @ quote @ ''>'' else ''>'')"
  have tail: "read_attributes tail = Some (if lang \<noteq> [] then [(''xml:lang'', carried lang)] else [])"
    unfolding tail_def using read_attributes_form[of "''xml:lang''", OF _ escaped_safe(1) attribute_value_escaped, of lang "''>''"]
    by (simp add: read_end_of_tag)
  have to: "read_attributes ('' '' @ ''to'' @ ''='' @ quote @ escapeXMLAttribute domain @ quote @ rest) =
      map_option (Cons (''to'', carried domain)) (read_attributes rest)" for rest
    by (rule read_attributes_form) (simp_all add: escaped_safe attribute_value_escaped)
  have version: "read_attributes ('' '' @ ''version'' @ ''='' @ quote @ ''1.0'' @ quote @ rest) =
      map_option (Cons (''version'', ''1.0'')) (read_attributes rest)" for rest
    by (rule read_attributes_form) (simp_all add: plain_values)
  have xmlns: "read_attributes ('' '' @ ''xmlns'' @ ''='' @ quote @ clientNS @ quote @ rest) =
      map_option (Cons (''xmlns'', clientNS)) (read_attributes rest)"
      "read_attributes ('' '' @ ''xmlns'' @ ''='' @ quote @ componentNS @ quote @ rest) =
      map_option (Cons (''xmlns'', componentNS)) (read_attributes rest)" for rest
    by (rule read_attributes_form; simp add: plain_values)+
  have stream: "read_attributes ('' '' @ ''xmlns:stream'' @ ''='' @ quote @ streamNS @ quote @ rest) =
      map_option (Cons (''xmlns:stream'', streamNS)) (read_attributes rest)" for rest
    by (rule read_attributes_form) (simp_all add: plain_values)
  have client: "client_opening domain lang = ''<stream:stream'' @ ('' '' @ ''to'' @ ''='' @ quote @ escapeXMLAttribute domain @ quote
      @ '' '' @ ''version'' @ ''='' @ quote @ ''1.0'' @ quote @ '' '' @ ''xmlns'' @ ''='' @ quote @ clientNS @ quote
      @ '' '' @ ''xmlns:stream'' @ ''='' @ quote @ streamNS @ quote @ tail)"
    by (simp add: client_opening_def tail_def)
  have component: "component_opening domain = ''<stream:stream'' @ ('' '' @ ''xmlns'' @ ''='' @ quote @ componentNS @ quote
      @ '' '' @ ''xmlns:stream'' @ ''='' @ quote @ streamNS @ quote
      @ '' '' @ ''to'' @ ''='' @ quote @ escapeXMLAttribute domain @ quote @ ''>'')"
    by (simp add: component_opening_def)
  have tag: "read_start_tag ''stream:stream'' (''<stream:stream'' @ s) = read_attributes s" for s
    by (simp add: read_start_tag_def)
  show ?thesis
    unfolding client component tag to version xmlns stream tail read_end_of_tag using carried_id by simp
qed

theorem stream_opening_exact_witness:
  "xml_text ''example.org''
   \<and> read_start_tag ''stream:stream'' (component_opening ''example.org'') =
       Some [(''xmlns'', componentNS), (''xmlns:stream'', streamNS), (''to'', ''example.org'')]"
proof -
  have "xml_text ''example.org''" by (simp add: xml_text_def utf8_ascii runes_ascii isInCharacterRange_def)
  then show ?thesis using stream_opening_exact[of "''example.org''" "[]"] by simp
qed

subsection \<open>The debug log\<close>

text \<open>
  The text the XML encoder writes for tokens: the namespace of a start tag in front of its
  attributes, values escaped, character data escaped except for line feeds. \<open>qualified\<close> is what
  it writes for the name of an attribute in a namespace.
\<close>

definition escape_data :: "string \<Rightarrow> string" where
  "escape_data s = concat (map (\<lambda>r. if r = 0x0A then from_runes [r] else escape_rune r) (runes s))"

definition attr_text :: "(xname \<Rightarrow> string) \<Rightarrow> attr \<Rightarrow> string" where
  "attr_text qualified a =
     (if Local (AName a) = [] then []
      else '' '' @ (if Space (AName a) = [] then Local (AName a) else qualified (AName a))
        @ ''='' @ [CHR 0x22] @ EscapeText (AValue a) @ [CHR 0x22])"

fun token_text :: "(xname \<Rightarrow> string) \<Rightarrow> xtoken \<Rightarrow> string" where
  "token_text qualified (StartElement nm as) =
     ''<'' @ Local nm @ (if Space nm = [] then [] else '' xmlns='' @ [CHR 0x22] @ EscapeText (Space nm) @ [CHR 0x22])
     @ concat (map (attr_text qualified) as) @ ''>''"
| "token_text qualified (EndElement nm) = ''</'' @ Local nm @ ''>''"
| "token_text qualified (CharData t) = escape_data t"
| "token_text qualified OtherToken = []"

definition node_text :: "(xname \<Rightarrow> string) \<Rightarrow> node \<Rightarrow> string result" where
  "node_text qualified n = (case marshal n of Inl e \<Rightarrow> Inl e | Inr ts \<Rightarrow> Inr (concat (map (token_text qualified) ts)))"

definition Contains :: "string \<Rightarrow> string \<Rightarrow> bool" where
  "Contains s sub \<longleftrightarrow> sublist sub s"

text \<open>\<^verbatim>\<open>debugXML\<close>: the line given to the logger, if any; \<open>enabled\<close> is \<^verbatim>\<open>DebugXML\<close> with a logger set.\<close>

definition debugXML :: "bool \<Rightarrow> string \<Rightarrow> string \<Rightarrow> string option" where
  "debugXML enabled direction data =
     (if \<not> enabled then None
      else
        let shown = TrimSpace data;
            shown = (if Contains shown ''<auth'' \<or> Contains shown ''<response'' then ''<redacted-sasl/>'' else shown)
        in Some (direction @ '' '' @ shown))"

text \<open>What \<^verbatim>\<open>writeNode\<close> logs of an element it writes.\<close>

definition logged :: "(xname \<Rightarrow> string) \<Rightarrow> node \<Rightarrow> string option" where
  "logged qualified n = (case node_text qualified n of Inl e \<Rightarrow> None | Inr t \<Rightarrow> debugXML True ''TX'' t)"

text \<open>The elements that carry SASL data.\<close>

definition sasl_element :: "node \<Rightarrow> bool" where
  "sasl_element n \<longleftrightarrow> Local (Name n) = ''auth'' \<or> Local (Name n) = ''response''"

lemma node_text_ends:
  assumes "node_text qualified n = Inr t"
  obtains u where "t = ''<'' @ Local (Name n) @ u @ ''>''"
proof -
  obtain nm as ps where n: "n = Node nm as ps" by (cases n)
  then obtain ts where "t = concat (map (token_text qualified) (StartElement nm as # ts @ [EndElement nm]))"
    using assms by (auto simp: node_text_def split: sum.splits if_splits)
  then have "t = ''<'' @ Local nm @ ((if Space nm = [] then [] else '' xmlns='' @ [CHR 0x22] @ EscapeText (Space nm) @ [CHR 0x22])
     @ concat (map (attr_text qualified) as) @ ''>'' @ concat (map (token_text qualified) ts) @ ''</'' @ Local nm) @ ''>''"
    by simp
  then show thesis using that n by simp
qed

lemma logged_sasl:
  assumes "sasl_element n" "marshal n = Inr ts"
  shows "logged qualified n = Some ''TX <redacted-sasl/>''"
proof -
  obtain t where t: "node_text qualified n = Inr t" using assms(2) by (simp add: node_text_def)
  then obtain u where u: "t = ''<'' @ Local (Name n) @ u @ ''>''" by (rule node_text_ends)
  then have "TrimSpace t = t" by (intro TrimSpace_id trimmed_plain_ends) (simp_all add: plain_char_def ascii_spaces_def)
  moreover have "Contains t ''<auth'' \<or> Contains t ''<response''"
    using assms(1) unfolding u sasl_element_def Contains_def by (auto intro: prefix_imp_sublist)
  ultimately show ?thesis by (simp add: logged_def t debugXML_def)
qed

text \<open>Items that reach the log only in their redacted form, and operations that write only such items.\<close>

definition redacted :: "out_item \<Rightarrow> bool" where
  "redacted it \<longleftrightarrow> (\<exists>n. it = OutNode n \<and> (\<forall>qualified. logged qualified n = Some ''TX <redacted-sasl/>''))"

definition adds_redacted :: "(bool \<times> out_item) list \<Rightarrow> conn \<Rightarrow> bool" where
  "adds_redacted before s \<longleftrightarrow> (\<exists>out. cn_out s = before @ out \<and> (\<forall>x\<in>set out. redacted (snd x)))"

abbreviation keeps_redacted :: "(bool \<times> out_item) list \<Rightarrow> 'a conn_op \<Rightarrow> bool" where
  "keeps_redacted before m \<equiv> triple (adds_redacted before) m (keeping (adds_redacted before) (\<lambda>_ _. True))"

lemma silent_redacted: "silent m \<Longrightarrow> keeps_redacted before m"
  unfolding silent_def triple_def keeping_def adds_redacted_def by (metis snd_conv)

lemma bind_redacted: "keeps_redacted before m \<Longrightarrow> (\<And>x. keeps_redacted before (f x)) \<Longrightarrow> keeps_redacted before (bindc m f)"
  by (rule triple_bind) auto

lemma writeNode_redacted:
  assumes "sasl_element n"
  shows "keeps_redacted before (writeNode n)"
proof (rule tripleI)
  fix s r s' assume s: "adds_redacted before s" "writeNode n s = (r, s')"
  then obtain out where out: "cn_out s = before @ out" "\<forall>x\<in>set out. redacted (snd x)"
    by (auto simp: adds_redacted_def)
  have "cn_out s' = cn_out s \<or> (cn_out s' = cn_out s @ [(cn_tls s, OutNode n)] \<and> redacted (OutNode n))"
    using s(2) logged_sasl[OF assms]
    by (auto simp: writeNode_def write_item_def redacted_def split: sum.splits if_splits list.splits option.splits)
  then show "keeping (adds_redacted before) (\<lambda>_ _. True) r s'"
    using out by (auto simp: keeping_def adds_redacted_def)
qed

lemmas redacted_intros = bind_redacted writeNode_redacted control_triples silent_steps[THEN silent_redacted]

lemma sasl_nodes:
  "sasl_element (auth_node mechanism initial)" "sasl_element (NewTextNode saslNS ''response'' t)"
  "sasl_element (SetAttr ''mechanism'' mechanism (NewTextNode saslNS ''auth'' t))"
  by (simp_all add: sasl_element_def auth_node_def Let_def NewTextNode_def split: option.splits)

lemma authenticate_redacted: "keeps_redacted before (authenticate env cfg features)"
  unfolding authenticate_def run_mechanism_def authPlain_def authExternal_def simpleSASL_def authSCRAM_def scram_response_def
    Let_def
  by (intro redacted_intros sasl_nodes)

text \<open>C31: authentication, with every mechanism, every server behaviour and on every path, writes
  only elements whose debug line is the redacted placeholder: no password, proof or other
  SASL data reaches the log.\<close>

theorem sasl_never_logged:
  "\<exists>out. cn_out (snd (authenticate env cfg features s)) = cn_out s @ out \<and> list_all (\<lambda>x. redacted (snd x)) out"
proof -
  have "adds_redacted (cn_out s) s" by (simp add: adds_redacted_def)
  from tripleD[OF authenticate_redacted this, of env cfg features "fst (authenticate env cfg features s)"]
  show ?thesis by (simp add: keeping_def adds_redacted_def list_all_iff)
qed

subsection \<open>Writing to the transport\<close>

text \<open>
  The loop of \<^verbatim>\<open>writeRaw\<close>. The transport is an argument: \<open>Write\<close> takes some bytes, reports how many
  and perhaps an error. A transport that accepts nothing without an error would keep the
  loop running forever, which is \<open>None\<close>.
\<close>

partial_function (option) write_loop ::
  "('w \<Rightarrow> string \<Rightarrow> (nat \<times> go_error option) \<times> 'w) \<Rightarrow> string \<Rightarrow> 'w \<Rightarrow> (go_error option \<times> 'w) option" where
  "write_loop Write data w =
     (if data = [] then Some (None, w)
      else
        (case Write w data of
           ((n, Some e), w') \<Rightarrow> Some (Some e, w')
         | ((n, None), w') \<Rightarrow>
             if n > length data then Some (Some (Foreign ''runtime error: slice bounds out of range''), w')
             else write_loop Write (drop n data) w'))"

definition writeRaw ::
  "(conn \<Rightarrow> string \<Rightarrow> (nat \<times> go_error option) \<times> conn) \<Rightarrow> string \<Rightarrow> conn \<Rightarrow> (unit result \<times> conn) option" where
  "writeRaw Write data s =
     (if \<not> cn_open s then Some (Inl (Sentinel ErrNotConnected), s)
      else
        (case write_loop Write data s of
           None \<Rightarrow> None
         | Some (Some e, s') \<Rightarrow> Some (Inl e, s')
         | Some (None, s') \<Rightarrow> Some (Inr (), s')))"

text \<open>
  The contract of a transport: what it reports is what it took, and it takes something or
  reports an error. The bytes taken so far are \<open>taken\<close>.
\<close>

locale transport =
  fixes Write :: "'w \<Rightarrow> string \<Rightarrow> (nat \<times> go_error option) \<times> 'w"
    and taken :: "'w \<Rightarrow> string"
  assumes took: "data \<noteq> [] \<Longrightarrow> Write w data = ((n, err), w') \<Longrightarrow>
      n \<le> length data \<and> taken w' = taken w @ take n data \<and> (err = None \<longrightarrow> 0 < n)"
begin

text \<open>The loop returns, has handed over a prefix of the data, and without an error all of it.\<close>

lemma write_loop_delivers:
  "\<exists>err w' k. write_loop Write data w = Some (err, w') \<and> taken w' = taken w @ take k data
     \<and> (err = None \<longrightarrow> taken w' = taken w @ data)"
proof (induction "length data" arbitrary: data w rule: less_induct)
  case less
  show ?case
  proof (cases "data = []")
    case True
    then show ?thesis by (simp add: write_loop.simps)
  next
    case False
    obtain n err w1 where wr: "Write w data = ((n, err), w1)" by (metis prod.exhaust)
    note t = took[OF False wr]
    show ?thesis
    proof (cases err)
      case (Some e)
      then show ?thesis using False wr t by (auto simp: write_loop.simps[of Write data])
    next
      case None
      then have "length (drop n data) < length data" using t False by simp
      from less[OF this, of w1] obtain err' w' k where r: "write_loop Write (drop n data) w1 = Some (err', w')"
          "taken w' = taken w1 @ take k (drop n data)" "err' = None \<longrightarrow> taken w' = taken w1 @ drop n data" by blast
      have "write_loop Write data w = Some (err', w')"
        using False wr None t r(1) by (simp add: write_loop.simps[of Write data])
      moreover have "taken w' = taken w @ take (n + k) data" using r(2) t by (simp add: take_add)
      moreover have "err' = None \<longrightarrow> taken w' = taken w @ data" using r(3) t by simp
      ultimately show ?thesis by blast
    qed
  qed
qed

end

text \<open>The connection of the model takes a write whole or refuses it.\<close>

definition conn_Write :: "conn \<Rightarrow> string \<Rightarrow> (nat \<times> go_error option) \<times> conn" where
  "conn_Write s data =
     (case cn_writes s of
        Some e # ws \<Rightarrow> ((0, Some e), s\<lparr>cn_writes := ws\<rparr>)
      | None # ws \<Rightarrow> ((length data, None), s\<lparr>cn_writes := ws, cn_out := cn_out s @ [(cn_tls s, OutRaw data)]\<rparr>)
      | [] \<Rightarrow> ((length data, None), s\<lparr>cn_out := cn_out s @ [(cn_tls s, OutRaw data)]\<rparr>))"

definition raw_text :: "bool \<times> out_item \<Rightarrow> string" where
  "raw_text x = (case snd x of OutRaw t \<Rightarrow> t | _ \<Rightarrow> [])"

interpretation whole: transport conn_Write "\<lambda>s. concat (map raw_text (cn_out s))"
  by unfold_locales (auto simp: conn_Write_def raw_text_def split: list.splits option.splits)

text \<open>So \<^const>\<open>write_item\<close> is what \<^verbatim>\<open>writeRaw\<close> does with it.\<close>

lemma writeRaw_write_item: "data \<noteq> [] \<Longrightarrow> writeRaw conn_Write data s = Some (write_item (OutRaw data) s)"
  by (auto simp: writeRaw_def write_item_def conn_Write_def write_loop.simps split: list.splits option.splits)

end
