(* ===== verification/Client_Api.thy ===== *)
theory Client_Api
  imports Lifecycle Client Stream_Text
begin

text \<open>
  What an application calls: creating a client (\<^verbatim>\<open>NewClient\<close>, \<^verbatim>\<open>MustNewClient\<close>), the remaining send
  operations and the keep-alive loop of \<^verbatim>\<open>src/xmpp/client.go\<close>, and installing the OMEMO
  manager (\<^verbatim>\<open>Install\<close>, \<^verbatim>\<open>RegisterFactory\<close> of \<^verbatim>\<open>src/omemo/manager.go\<close>). A client puts together the
  parts modelled elsewhere; the starting point of each part's invariant is its state in a
  new client.
\<close>

subsection \<open>A new client\<close>

record client =
  cl_cfg :: config
  cl_jid :: jid
  cl_registries :: life_state
  cl_Plugins :: plugin_manager
  cl_requests :: iq_state
  cl_life :: lifecycle

definition lifecycle0 :: lifecycle where
  "lifecycle0 = \<lparr>lc_closing = False, lc_connected = False, lc_conn = False, lc_keepalive_stopped = False,
     lc_cancelled = False, lc_finished = False, lc_events = []\<rparr>"

definition NewClient :: "unicode \<Rightarrow> config \<Rightarrow> client result" where
  "NewClient U cfg0 =
     (let cfg = normalized cfg0 in
      case validate U cfg of
        Inl e \<Rightarrow> Inl e
      | Inr j \<Rightarrow> Inr \<lparr>cl_cfg = cfg, cl_jid = j, cl_registries = life_state0, cl_Plugins = newPluginManager,
                        cl_requests = iq_state0, cl_life = lifecycle0\<rparr>)"

text \<open>A panic is \<open>Inl\<close> with the error it carries.\<close>

definition MustNewClient :: "unicode \<Rightarrow> config \<Rightarrow> go_error + client" where
  "MustNewClient U cfg = (case NewClient U cfg of Inl e \<Rightarrow> Inl e | Inr c \<Rightarrow> Inr c)"

definition MustParseJID :: "unicode \<Rightarrow> string \<Rightarrow> go_error + jid" where
  "MustParseJID U v = (case ParseJID U v of Inl e \<Rightarrow> Inl e | Inr j \<Rightarrow> Inr j)"

definition MustXML :: "node \<Rightarrow> go_error + xtoken list" where
  "MustXML n = (case marshal n of Inl e \<Rightarrow> Inl e | Inr ts \<Rightarrow> Inr ts)"

definition IsComponent :: "client \<Rightarrow> bool" where
  "IsComponent c \<longleftrightarrow> cfg_ComponentSecret (cl_cfg c) \<noteq> []"

subsection \<open>Sending\<close>

definition SendNode :: "node \<Rightarrow> unit conn_op" where
  "SendNode n s =
     (if \<not> cn_open s then (Inl (Sentinel ErrNotConnected), s)
      else bindc (writeNode n) (\<lambda>_. emit ''sent_stream_element'') s)"

definition RawSend :: "string \<Rightarrow> unit conn_op" where
  "RawSend data s = (if \<not> cn_open s then (Inl (Sentinel ErrNotConnected), s) else write_item (OutRaw data) s)"

definition SendMessage :: "string \<Rightarrow> string \<Rightarrow> unit conn_op" where
  "SendMessage to' body =
     bindc NextID (\<lambda>id'. Send (SMessage (message0\<lparr>msg_To := to', msg_ID := id', msg_Type := ''chat'', msg_Body := body\<rparr>)))"

definition ReplyIQ :: "iq \<Rightarrow> node list \<Rightarrow> unit conn_op" where
  "ReplyIQ request payloads = Send (SIQ (IQ_Result request payloads))"

definition Connected :: "conn \<Rightarrow> bool" where
  "Connected s = cn_connected s"

definition client_Features :: "conn \<Rightarrow> node" where
  "client_Features s = clone (cn_features s)"

subsection \<open>Keeping the connection alive\<close>

text \<open>
  The loop selects among the ticker and the two channels; the list is the order in which they
  become ready. The result is the error reported, if the loop ended with one, and whether it
  has returned.
\<close>

datatype keepalive_event = Tick | KeepaliveDone | ClientDone

fun keepaliveLoop :: "keepalive_event list \<Rightarrow> conn \<Rightarrow> (go_error option \<times> bool) \<times> conn" where
  "keepaliveLoop [] s = ((None, False), s)"
| "keepaliveLoop (Tick # evs) s =
     (case write_item (OutRaw '' '') s of
        (Inl e, s') \<Rightarrow> ((Some e, True), s')
      | (Inr _, s') \<Rightarrow> keepaliveLoop evs s')"
| "keepaliveLoop (KeepaliveDone # evs) s = ((None, True), s)"
| "keepaliveLoop (ClientDone # evs) s = ((None, True), s)"

subsection \<open>The OMEMO manager in a client\<close>

text \<open>The factory number of the manager stands for the closure that makes it.\<close>

definition Install :: "nat \<Rightarrow> 'w plugin_env \<Rightarrow> ('w, plugin result) pm_call" where
  "Install depth env m =
     (case Use depth env (Some Omemo_plugin) m of
        None \<Rightarrow> None
      | Some (Some e, m') \<Rightarrow> Some (Inl e, m')
      | Some (None, m') \<Rightarrow> Some (Inr Omemo_plugin, m'))"

definition omemo_RegisterFactory :: "'w plugin_manager_scheme \<Rightarrow> go_error option \<times> 'w plugin_manager_scheme" where
  "omemo_RegisterFactory m = RegisterFactory ''slixmpp_omemo'' (Some 10000) m"

definition manager_OwnDeviceID :: "('s, 'b) manager \<Rightarrow> 's \<Rightarrow> device_id result \<times> 's" where
  "manager_OwnDeviceID m s = so_OwnDeviceID (mg_Store m) s"

definition manager_SetTrust :: "('s, 'b) manager \<Rightarrow> address \<Rightarrow> string \<Rightarrow> 's \<Rightarrow> go_error option \<times> 's" where
  "manager_SetTrust m a l s = so_SetTrust (mg_Store m) a l s"

definition manager_Trust :: "('s, 'b) manager \<Rightarrow> address \<Rightarrow> 's \<Rightarrow> string result" where
  "manager_Trust m a s = so_Trust (mg_Store m) a s"

subsection \<open>What a new client guarantees\<close>

lemma new_client_fields:
  assumes "NewClient U cfg = Inr c"
  shows "cl_cfg c = normalized cfg" "validate U (normalized cfg) = Inr (cl_jid c)" "cl_registries c = life_state0"
    "cl_Plugins c = newPluginManager" "cl_requests c = iq_state0" "cl_life c = lifecycle0"
  using assms by (auto simp: NewClient_def Let_def split: sum.splits)

text \<open>Every invariant of the parts holds of a new client.\<close>

lemma new_client_ready:
  assumes "NewClient U cfg = Inr c"
  shows "plugin_life publish (cl_registries c) (\<lambda>_. plugin_object0) {}" "pm_inv (cl_Plugins c)"
    "fresh_client (cl_Plugins c)" "iq_reachable (cl_requests c)" "\<not> lc_finished (cl_life c)"
  using new_client_fields[OF assms]
  by (simp_all add: plugin_life.fresh pm_inv_new[unfolded newPluginManager_def] iq_reachable.initial lifecycle0_def fresh_client_def newPluginManager_def
      plugin_manager.defs)

text \<open>A component's address and domain are checked before there is a client.\<close>

lemma new_component:
  assumes "NewClient U cfg = Inr c" "IsComponent c"
  shows "JID_IsDomain (cl_jid c) \<and> cfg_Address (cl_cfg c) \<noteq> []"
  using new_client_fields(1,2)[OF assms(1)] assms(2)
  by (auto simp: validate_def IsComponent_def Let_def split: sum.splits if_splits)

subsection \<open>Keep-alive\<close>

lemma keepalive_stops:
  "keepaliveLoop evs s = ((Some e, r), s') \<Longrightarrow> r"
  "KeepaliveDone \<in> set evs \<or> ClientDone \<in> set evs \<Longrightarrow> snd (fst (keepaliveLoop evs s))"
  by (induction evs s rule: keepaliveLoop.induct) (auto split: prod.splits sum.splits)

text \<open>On a connection that takes every write, one blank per tick and nothing after the stop.\<close>

lemma keepalive_blanks:
  "cn_open s \<Longrightarrow> cn_writes s = [] \<Longrightarrow> stop \<noteq> Tick \<Longrightarrow>
   keepaliveLoop (replicate n Tick @ stop # evs) s =
     ((None, True), s\<lparr>cn_out := cn_out s @ replicate n (cn_tls s, OutRaw '' '')\<rparr>)"
proof (induction n arbitrary: s)
  case 0
  then show ?case by (cases stop) simp_all
next
  case (Suc n)
  then show ?case
    by (simp add: write_item_def)
qed

subsection \<open>Installing OMEMO\<close>

context ranked_plugins
begin

text \<open>A plugin outside the catalogue whose dependencies are in it: they all load.\<close>

lemma outside_dependencies:
  assumes m: "pm_inv m" "pm_factories m = F" "loaded_made env F m" "pm_loading m = {}" "pm_loaded m n = None"
    and deps: "\<And>d. d \<in> set deps \<Longrightarrow> d \<in> dom F \<and> rank d < depth \<and> rank d < rank n"
  shows "\<exists>m1. load_deps (load_with env (Use depth env)) who deps (m\<lparr>pm_loading := {n}\<rparr>) = Some (None, m1)
    \<and> pm_grows (m\<lparr>pm_loading := {n}\<rparr>) m1 \<and> loaded_made env F m1 \<and> set deps \<subseteq> dom (pm_loaded m1)"
proof -
  define P where "P x \<longleftrightarrow> pm_inv x \<and> pm_factories x = F \<and> loaded_made env F x \<and> pm_loading x = {n}"
    for x :: "'w plugin_manager_scheme"
  let ?m = "m\<lparr>pm_loading := {n}\<rparr>"
  have lm: "loaded_made env F ?m" using m(3) by (simp add: loaded_made_def)
  have P0: "P ?m" "pm_inv ?m" using m lm by (auto simp: P_def pm_inv_def)
  have ld: "loads (load_with env (Use depth env)) d" if "d \<in> set deps" for d
    using deps[OF that] by (intro load_succeeds) simp_all
  have rd: "ready d x" if "d \<in> set deps" "P x" for d x
    using that deps[OF that(1)] by (simp add: P_def ready_def)
  have grow: "P x'" if "P x" "pm_grows x x'" "loaded_made env F x'" for x x'
    using that pm_growsD(1-3)[OF that(2)] by (simp add: P_def)
  show ?thesis by (rule load_deps_succeed[where P = P]) (fact ld rd grow P0 lm)+
qed

end

definition omemo_rank :: "string \<Rightarrow> nat" where
  "omemo_rank n = (if n = ''slixmpp_omemo'' then 6 else catalog_rank n)"

lemma omemo_not_catalogued: "catalog_factories ''slixmpp_omemo'' = None"
  using catalog_factories_iff[of "''slixmpp_omemo''"] by (cases "catalog_factories ''slixmpp_omemo''") (auto simp: xep_name_def)

lemma omemo_ranked: "ranked_plugins (catalog_env backend (\<lambda>_ m. m)) catalog_factories omemo_rank"
proof
  fix n f assume n: "catalog_factories n = Some f"
  then have "n \<noteq> ''slixmpp_omemo''" using omemo_not_catalogued by auto
  moreover have "d \<noteq> ''slixmpp_omemo''" if "d \<in> dom catalog_factories" for d
    using that omemo_not_catalogued by auto
  ultimately show "\<exists>p. pe_make (catalog_env backend (\<lambda>_ m. m)) f = Some p \<and> p_Name p = n \<and> n \<noteq> []
      \<and> (\<forall>d\<in>set (p_Dependencies p). d \<in> dom catalog_factories \<and> omemo_rank d < omemo_rank n)"
    using quiet_catalog.made[OF n, of backend] by (fastforce simp: omemo_rank_def)
qed (rule quiet_catalog.starts)

interpretation with_omemo: ranked_plugins "catalog_env backend (\<lambda>_ m. m)" catalog_factories omemo_rank for backend
  by (rule omemo_ranked)

lemma omemo_dependencies:
  "d \<in> set (p_Dependencies Omemo_plugin) \<Longrightarrow> d \<in> dom catalog_factories \<and> omemo_rank d < 6 \<and> omemo_rank d < omemo_rank ''slixmpp_omemo''"
proof -
  have names: "xep_name 334 = ''xep_0334''" "xep_name 380 = ''xep_0380''"
    by (simp_all add: xep_name_def pad4_def digit_def digit_chars)
  have "{60, 163, 334, 380} \<subseteq> set catalog_numbers" by (simp add: catalog_numbers_def catalog_titles_def)
  then have "xep_name k \<in> dom catalog_factories" if "k \<in> {60, 163, 334, 380}" for k
    using that catalog_factories_iff[of "xep_name k" k] by auto
  from this[of 60] this[of 163] this[of 334] this[of 380]
  have dom: "''xep_0060'' \<in> dom catalog_factories" "''xep_0163'' \<in> dom catalog_factories"
    "''xep_0334'' \<in> dom catalog_factories" "''xep_0380'' \<in> dom catalog_factories"
    unfolding names xep_names by simp_all
  have rank: "omemo_rank ''xep_0060'' < 6" "omemo_rank ''xep_0163'' < 6" "omemo_rank ''xep_0334'' < 6" "omemo_rank ''xep_0380'' < 6"
    "omemo_rank ''slixmpp_omemo'' = 6"
    by (simp_all add: omemo_rank_def catalog_rank_def)
  assume "d \<in> set (p_Dependencies Omemo_plugin)"
  then consider "d = ''xep_0060''" | "d = ''xep_0163''" | "d = ''xep_0334''" | "d = ''xep_0380''"
    by (auto simp: Omemo_plugin_def xep_plugin_def)
  then show ?thesis using dom rank by cases simp_all
qed

lemma Use_pred:
  "0 < d \<Longrightarrow> p_Name p \<noteq> [] \<Longrightarrow> pm_loaded m (p_Name p) = None \<Longrightarrow> p_Name p \<notin> pm_loading m \<Longrightarrow>
   Use d env (Some p) m =
     (case use_body env (load_with env (Use (d - 1) env)) p (m\<lparr>pm_loading := insert (p_Name p) (pm_loading m)\<rparr>) of
        None \<Rightarrow> None | Some (r, m') \<Rightarrow> Some (r, m'\<lparr>pm_loading := pm_loading m' - {p_Name p}\<rparr>))"
  by (cases d) simp_all

text \<open>After \<^verbatim>\<open>RegisterAll\<close> on a fresh client, \<^verbatim>\<open>Install\<close> loads the manager's dependencies and then the
  manager, and without a session backend it reports exactly that, leaving the manager unloaded.\<close>

theorem omemo_install:
  assumes "fresh_client m"
  shows "\<exists>m0 r m'. RegisterAll (Some m) = (None, Some m0)
     \<and> Install 7 (catalog_env backend (\<lambda>_ m. m)) m0 = Some (r, m') \<and> pm_inv m'
     \<and> set (p_Dependencies Omemo_plugin) \<subseteq> dom (pm_loaded m')
     \<and> (if backend then r = Inr Omemo_plugin \<and> pm_loaded m' ''slixmpp_omemo'' = Some Omemo_plugin
        else r = Inl (Errorf ''xmpp: initialize plugin %s: %w'' [''slixmpp_omemo'']
               (Some (Errf ''omemo: SessionBackend is required''))) \<and> pm_loaded m' ''slixmpp_omemo'' = None)"
proof -
  let ?env = "catalog_env backend (\<lambda>_ m. m)" and ?m = "m\<lparr>pm_factories := catalog_factories\<rparr>"
  let ?start = "?m\<lparr>pm_loading := {''slixmpp_omemo''}\<rparr>"
  note fresh = RegisterAll_fresh[OF assms]
  have p: "p_Name Omemo_plugin = ''slixmpp_omemo''" "p_code Omemo_plugin = 10000" by (simp_all add: Omemo_plugin_def xep_plugin_def)
  have "\<exists>m1. load_deps (load_with ?env (Use 6 ?env)) ''slixmpp_omemo'' (p_Dependencies Omemo_plugin) ?start = Some (None, m1)
      \<and> pm_grows ?start m1 \<and> loaded_made ?env catalog_factories m1 \<and> set (p_Dependencies Omemo_plugin) \<subseteq> dom (pm_loaded m1)"
    by (rule with_omemo.outside_dependencies) (use fresh omemo_dependencies in \<open>simp_all add: loaded_made_def\<close>)
  then obtain m1 where m1: "load_deps (load_with ?env (Use 6 ?env)) ''slixmpp_omemo'' (p_Dependencies Omemo_plugin) ?start = Some (None, m1)"
      "pm_grows ?start m1" "loaded_made ?env catalog_factories m1" "set (p_Dependencies Omemo_plugin) \<subseteq> dom (pm_loaded m1)"
    by (elim exE conjE)
  have "pm_loaded m1 ''slixmpp_omemo'' = None"
    using m1(3) omemo_not_catalogued unfolding loaded_made_def by (metis option.distinct(1) option.exhaust)
  note unloaded = this
  have "''xep_0060'' \<in> dom (pm_loaded m1)" using m1(4) by (auto simp: Omemo_plugin_def xep_plugin_def)
  then have "Omemo_Init backend m1 = (if backend then None else Some (Errf ''omemo: SessionBackend is required''))"
    using required_ok(1)[OF m1(3)] required_factories(1) by (simp add: Omemo_Init_def)
  then have init: "pe_init ?env Omemo_plugin m1 = (if backend then None else Some (Errf ''omemo: SessionBackend is required''), m1)"
    by (simp add: catalog_env_def xep_Init_def p)
  have use: "Use 7 ?env (Some Omemo_plugin) ?m =
      (case use_body ?env (load_with ?env (Use 6 ?env)) Omemo_plugin ?start of
         None \<Rightarrow> None | Some (r, m') \<Rightarrow> Some (r, m'\<lparr>pm_loading := pm_loading m' - {''slixmpp_omemo''}\<rparr>))"
    using fresh(3,4) by (simp add: p Use_pred cong: option.case_cong)
  have "pm_factories ?m = catalog_factories" by simp
  then have inv: "pm_inv m'" if "Use 7 ?env (Some Omemo_plugin) ?m = Some (r, m')" for r m'
    using that quiet_catalog.Use_ok[of backend 7] with_omemo.named[of ?m backend] fresh(2) pm_growsD(1)
    unfolding quiet_catalog.use_ok_def by blast
  show ?thesis
  proof (cases backend)
    case True
    let ?m' = "m1\<lparr>pm_loaded := (pm_loaded m1)(''slixmpp_omemo'' \<mapsto> Omemo_plugin),
      pm_order := pm_order m1 @ [''slixmpp_omemo''], pm_loading := pm_loading m1 - {''slixmpp_omemo''}\<rparr>"
    have "Use 7 ?env (Some Omemo_plugin) ?m = Some (None, ?m')"
      unfolding use use_body_def p(1) m1(1) using init True by (simp add: catalog_env_def)
    then show ?thesis using fresh(1) inv m1(4) True by (auto simp: Install_def)
  next
    case False
    let ?m' = "m1\<lparr>pm_loading := pm_loading m1 - {''slixmpp_omemo''}\<rparr>"
    have "Use 7 ?env (Some Omemo_plugin) ?m = Some (Some (Errorf ''xmpp: initialize plugin %s: %w'' [''slixmpp_omemo'']
               (Some (Errf ''omemo: SessionBackend is required''))), ?m')"
      unfolding use use_body_def p(1) m1(1) using init False by simp
    then show ?thesis using fresh(1) inv m1(4) False unloaded by (auto simp: Install_def)
  qed
qed

end
