(* ===== verification/Wiring.thy ===== *)
theory Wiring
  imports Client_Api
begin

text \<open>
  The parts together: a client whose plugin manager (\<^verbatim>\<open>src/xmpp/plugin.go\<close>) loads the plugins of
  the catalogue (\<^verbatim>\<open>src/xep\<close>) and whose \<^verbatim>\<open>Init\<close> and \<^verbatim>\<open>Shutdown\<close> calls act on the client's
  registries. The manager's record is extended by the registries and the plugin objects, so
  that the results on the manager and on the registries meet in one state.
\<close>

record wired = plugin_manager +
  wr_life :: life_state
  wr_objs :: "plugin_kind \<Rightarrow> plugin_object"

text \<open>The Go type of a plugin object, by the number that stands for its type.\<close>

definition kind_codes :: "(nat \<times> plugin_kind) list" where
  "kind_codes =
     [(191, KBlocking), (280, KCarbons), (352, KCSI), (198, KStreamManagement), (30, KDisco), (313, KMAM), (184, KReceipts),
      (45, KMUC), (60, KPubSub), (92, KVersion), (199, KPing), (202, KEntityTime), (49, KPrivateXML), (363, KHTTPUpload),
      (10000, KOmemo)]"

definition kind_of_plugin :: "plugin \<Rightarrow> plugin_kind option" where
  "kind_of_plugin p = map_of kind_codes (p_code p)"

definition wired_init :: "bool \<Rightarrow> bool \<Rightarrow> plugin \<Rightarrow> wired \<Rightarrow> go_error option \<times> wired" where
  "wired_init backend publish p m =
     (case kind_of_plugin p of
        None \<Rightarrow> (xep_Init backend p m, m)
      | Some k \<Rightarrow>
          (case plugin_Init backend publish (plugin_manager.truncate m) k (wr_objs m k) (wr_life m) of
             None \<Rightarrow> (Some (Foreign ''panic''), m)
           | Some (err, obj, w) \<Rightarrow> (err, m\<lparr>wr_life := w, wr_objs := (wr_objs m)(k := obj)\<rparr>)))"

definition wired_env :: "bool \<Rightarrow> bool \<Rightarrow> unit wired_ext plugin_env" where
  "wired_env backend publish =
     \<lparr>pe_make = pe_make (catalog_env backend (\<lambda>_ m. m) :: unit wired_ext plugin_env),
      pe_init = wired_init backend publish, pe_loaded_event = (\<lambda>_ m. m)\<rparr>"

definition stop_plugin :: "plugin \<Rightarrow> wired \<Rightarrow> wired" where
  "stop_plugin p m =
     (case kind_of_plugin p of
        None \<Rightarrow> m
      | Some k \<Rightarrow> m\<lparr>wr_life := plugin_Shutdown k (wr_objs m k) (wr_life m)\<rparr>)"

definition wire_client :: "client \<Rightarrow> wired" where
  "wire_client c = plugin_manager.extend (cl_Plugins c) \<lparr>wr_life = cl_registries c, wr_objs = \<lambda>_. plugin_object0\<rparr>"

subsection \<open>Properties that every initialisation keeps\<close>

text \<open>
  A property of the manager and what surrounds it that every \<^verbatim>\<open>Init\<close> of a wanted plugin keeps,
  whether it succeeds or fails, is kept by loading; what a wanted plugin depends on is wanted too.
\<close>

locale init_invariant = plugin_calls env for env :: "'w plugin_env" +
  fixes wanted :: "string \<Rightarrow> bool" and made :: "plugin \<Rightarrow> bool" and I :: "'w plugin_manager_scheme \<Rightarrow> bool"
  assumes I_loading: "I (m\<lparr>pm_loading := L\<rparr>) \<longleftrightarrow> I m"
    and made_deps: "made p \<Longrightarrow> d \<in> set (p_Dependencies p) \<Longrightarrow> wanted d"
    and I_made: "I m \<Longrightarrow> wanted n \<Longrightarrow> pm_factories m n = Some f \<Longrightarrow> pe_make env f = Some p \<Longrightarrow> made p"
    and I_init: "I m \<Longrightarrow> made p \<Longrightarrow> pm_loaded m (p_Name p) = None \<Longrightarrow> pe_init env p m = (None, m') \<Longrightarrow>
      I (pe_loaded_event env p (m'\<lparr>pm_loaded := (pm_loaded m')(p_Name p \<mapsto> p), pm_order := pm_order m' @ [p_Name p]\<rparr>))"
    and I_failed: "I m \<Longrightarrow> made p \<Longrightarrow> pe_init env p m = (Some e, m') \<Longrightarrow> I m'"
begin

definition load_keeps :: "(string \<Rightarrow> ('w, plugin option result) pm_call) \<Rightarrow> bool" where
  "load_keeps load \<longleftrightarrow> (\<forall>n m r m'. wanted n \<longrightarrow> pm_inv m \<longrightarrow> factories_named env m \<longrightarrow> I m \<longrightarrow> load n m = Some (r, m') \<longrightarrow> I m')"

definition use_keeps :: "(plugin option \<Rightarrow> ('w, go_error option) pm_call) \<Rightarrow> bool" where
  "use_keeps use \<longleftrightarrow> (\<forall>p m r m'. pm_inv m \<longrightarrow> factories_named env m \<longrightarrow> I m \<longrightarrow> made p \<longrightarrow>
     use (Some p) m = Some (r, m') \<longrightarrow> I m')"

lemma load_with_keeps: "use_keeps use \<Longrightarrow> load_keeps (load_with env use)"
  unfolding load_keeps_def
proof (intro allI impI)
  fix n m r m'
  assume u: "use_keeps use" and n: "wanted n" and m: "pm_inv m" "factories_named env m" "I m" and l: "load_with env use n m = Some (r, m')"
  consider "m' = m" | f p e where "pm_factories m n = Some f" "pe_make env f = Some p" "use (Some p) m = Some (e, m')"
    using l m(2)[unfolded factories_named_def] by (auto simp: load_with_def split: option.splits) metis+
  then show "I m'"
  proof cases
    case (2 f p e)
    then show ?thesis using u m I_made[OF m(3) n] unfolding use_keeps_def by blast
  qed (use m in simp)
qed

lemma load_deps_keeps:
  assumes ok: "load_ok load" and keeps: "load_keeps load"
  shows "(\<And>d. d \<in> set deps \<Longrightarrow> wanted d) \<Longrightarrow> pm_inv m \<Longrightarrow> factories_named env m \<Longrightarrow> I m \<Longrightarrow>
    load_deps load who deps m = Some (r, m') \<Longrightarrow> I m'"
proof (induction deps arbitrary: m)
  case (Cons d deps)
  from Cons.prems(5) obtain r1 m1 where l: "load d m = Some (r1, m1)" by (auto split: option.splits)
  have g: "pm_grows m m1" using ok Cons.prems l unfolding load_ok_def by blast
  have I1: "I m1" using keeps Cons.prems(1)[of d] Cons.prems(2-) l unfolding load_keeps_def by force
  have f1: "factories_named env m1" using Cons.prems(3) pm_growsD(3)[OF g] by (simp add: factories_named_def)
  show ?case
  proof (cases r1)
    case (Inl e)
    then show ?thesis using Cons.prems(5) l I1 by simp
  next
    case (Inr q)
    then show ?thesis using Cons.IH[OF _ pm_growsD(1)[OF g] f1 I1] Cons.prems(1,5) l by simp
  qed
qed simp

lemma use_body_keeps:
  assumes ok: "load_ok load" and keeps: "load_keeps load" and m: "pm_inv m" "factories_named env m" "I m" "made p"
    and fresh: "p_Name p \<notin> dom (pm_loaded m)"
    and b: "use_body env load p (m\<lparr>pm_loading := insert (p_Name p) (pm_loading m)\<rparr>) = Some (r, m')"
  shows "I m'"
proof -
  let ?start = "m\<lparr>pm_loading := insert (p_Name p) (pm_loading m)\<rparr>"
  have start: "pm_inv ?start" "factories_named env ?start" "I ?start"
    using m fresh by (auto simp: pm_inv_def factories_named_def I_loading)
  from b obtain e m1 where d: "load_deps load (p_Name p) (p_Dependencies p) ?start = Some (e, m1)"
    by (auto simp: use_body_def split: option.splits)
  have I1: "I m1" by (rule load_deps_keeps[OF ok keeps made_deps[OF m(4)] start d])
  have g: "pm_grows ?start m1" using load_deps_ok[OF ok start(1,2) d] by simp
  then have "p_Name p \<in> pm_loading m1" "pm_inv m1" by (auto simp: pm_grows_def)
  then have n1: "pm_loaded m1 (p_Name p) = None" by (auto simp: pm_inv_def)
  show ?thesis
  proof (cases e)
    case (Some err)
    then show ?thesis using b d I1 by (auto simp: use_body_def)
  next
    case None
    obtain ie m2 where i: "pe_init env p m1 = (ie, m2)" by (cases "pe_init env p m1")
    show ?thesis
    proof (cases ie)
      case (Some err)
      then have "m' = m2" using b d None i by (auto simp: use_body_def)
      then show ?thesis using I_failed[OF I1 m(4)] i Some by simp
    next
      case ok: None
      then have "m' = pe_loaded_event env p (m2\<lparr>pm_loaded := (pm_loaded m2)(p_Name p \<mapsto> p), pm_order := pm_order m2 @ [p_Name p]\<rparr>)"
        using b d None i by (auto simp: use_body_def)
      then show ?thesis using I_init[OF I1 m(4) n1] i ok by simp
    qed
  qed
qed

lemma Use_keeps: "use_keeps (Use depth env)"
proof (induction depth)
  case (Suc depth)
  note load = load_with_ok[OF Use_ok[of depth]] load_with_keeps[OF Suc]
  show ?case
    unfolding use_keeps_def
  proof (intro allI impI)
    fix p m r m'
    assume m: "pm_inv m" "factories_named env m" "I m" "made p" and u: "Use (Suc depth) env (Some p) m = Some (r, m')"
    show "I m'"
    proof (cases "p_Name p = [] \<or> pm_loaded m (p_Name p) \<noteq> None \<or> p_Name p \<in> pm_loading m")
      case True
      then show ?thesis using u m(3) by (auto split: if_splits)
    next
      case False
      then obtain x where b: "use_body env (load_with env (Use depth env)) p
            (m\<lparr>pm_loading := insert (p_Name p) (pm_loading m)\<rparr>) = Some (r, x)"
        and m': "m' = x\<lparr>pm_loading := pm_loading x - {p_Name p}\<rparr>"
        using u by (auto split: option.splits)
      have "I x" using use_body_keeps[OF load m _ b] False by auto
      then show ?thesis by (simp add: m' I_loading)
    qed
  qed
qed (simp add: use_keeps_def)

lemma loading_keeps: "load_keeps (load_with env (Use depth env))"
  by (rule load_with_keeps[OF Use_keeps])

lemma numbers_keep:
  assumes "\<And>n x. n \<in> set ns \<Longrightarrow> Load depth env n x = load_with env (Use depth env) (xep_name n) x"
    and "\<And>n. n \<in> set ns \<Longrightarrow> wanted (xep_name n)" and named: "\<And>x. I x \<Longrightarrow> factories_named env x"
    and "pm_inv m" "I m" "load_numbers depth env ns m = Some (r, m')"
  shows "I m'"
  using assms(1,2,4-)
proof (induction ns arbitrary: m)
  case (Cons n ns)
  obtain r1 m1 where l: "Load depth env n m = Some (r1, m1)" "load_with env (Use depth env) (xep_name n) m = Some (r1, m1)"
    using Cons.prems(1)[of n m] Cons.prems(5) by (auto split: option.splits)
  have I1: "I m1"
    using loading_keeps[of depth] Cons.prems(2)[of n] Cons.prems(3,4) named l(2) unfolding load_keeps_def by force
  have inv: "pm_inv m1"
    using load_with_ok[OF Use_ok, of depth] Cons.prems(3,4) named l(2) pm_growsD(1) unfolding load_ok_def by blast
  show ?case
  proof (cases r1)
    case (Inl e)
    then show ?thesis using Cons.prems(5) I1 l(1) by simp
  next
    case (Inr q)
    then show ?thesis using Cons.IH[OF Cons.prems(1,2) inv I1] Cons.prems(5) l(1) by simp
  qed
qed simp

end

subsection \<open>The plugins of the catalogue\<close>

lemma add_handlers_total: "\<exists>hs w'. add_handlers es w = Some (hs, w')"
proof (induction es arbitrary: w)
  case (Cons e es)
  obtain name m cb options where e: "e = (name, m, cb, options)" by (metis prod_cases4)
  obtain h w1 where h: "AddHandler name (Some m) (Some (method_no cb)) options w = Some (h, w1)"
    by (simp add: AddHandler_Some) (metis prod.exhaust)
  obtain hs w2 where "add_handlers es w1 = Some (hs, w2)" using Cons by blast
  then show ?case using h by (simp add: e add_handlers.simps)
qed simp

lemma add_subscriptions_total: "\<exists>ss w'. add_subscriptions es w = Some (ss, w')"
proof (induction es arbitrary: w)
  case (Cons e es)
  obtain name cb where e: "e = (name, cb)" by (metis prod.exhaust)
  obtain s w1 where s: "On name (Some (method_no cb)) [] w = Some (s, w1)" by (simp add: On_def) (metis prod.exhaust)
  obtain ss w2 where "add_subscriptions es w1 = Some (ss, w2)" using Cons by blast
  then show ?case using s by (simp add: e add_subscriptions.simps)
qed simp

lemma plugin_Init_succeeds:
  assumes "k \<noteq> KOmemo"
  shows "\<exists>p w'. plugin_Init backend publish pm k obj w = Some (None, p, w')"
proof -
  have "\<exists>p w'. set_handler obj (add_handlers es w) = Some (None, p, w')"
    "\<exists>p w'. append_handlers obj (add_handlers es w) = Some (None, p, w')" for es
    using add_handlers_total[of es w] by (auto simp: set_handler_def append_handlers_def)
  moreover have "\<exists>p w'. append_subscriptions obj (add_subscriptions es w) = Some (None, p, w')" for es
    using add_subscriptions_total[of es w] by (auto simp: append_subscriptions_def)
  ultimately show ?thesis
    using assms by (cases k) (simp_all add: plugin_inits)
qed

lemma kind_of_plugin_code: "kind_of_plugin p = Some k \<Longrightarrow> (p_code p, k) \<in> set kind_codes"
  by (simp add: kind_of_plugin_def map_of_SomeD)

lemma kind_codes_facts:
  "(c, k) \<in> set kind_codes \<Longrightarrow> (c', k) \<in> set kind_codes \<Longrightarrow> c = c'" "(c, k) \<in> set kind_codes \<Longrightarrow> 1 < c"
  "(c, k) \<in> set kind_codes \<Longrightarrow> c \<notin> {163, 48, 402, 410}" "(c, KOmemo) \<in> set kind_codes \<Longrightarrow> c = 10000"
  "(c, KRoster) \<notin> set kind_codes"
  by (auto simp: kind_codes_def)

definition catalog_plugin :: "plugin \<Rightarrow> bool" where
  "catalog_plugin p \<longleftrightarrow> (\<exists>d\<in>set initialised_catalog. p = plugin_of d)"

lemma catalog_plugin_kind:
  assumes "catalog_plugin p" "kind_of_plugin p = Some k"
  shows "k \<noteq> KOmemo" "p_Name p = xep_name (p_code p)" "xep_Init backend p m = None"
proof -
  obtain d where d: "d \<in> set initialised_catalog" "p = plugin_of d" using assms(1) by (auto simp: catalog_plugin_def)
  note c = kind_of_plugin_code[OF assms(2)]
  have f: "p_code p = d_Number d" "specializedFactories (d_Number d) = Some (OwnType p)"
    using plugin_of_facts(3)[OF d(1)] kind_codes_facts(2)[OF c] d(2) by simp_all
  then have "p_code p < 10000" using specialized_facts(4) by metis
  then show "k \<noteq> KOmemo" using kind_codes_facts(4) c by auto
  then show "p_Name p = xep_name (p_code p)" using plugin_of_facts(1)[OF d(1)] f(1) d(2) by simp
  show "xep_Init backend p m = None" using kind_codes_facts(3)[OF c] \<open>p_code p < 10000\<close> by (simp add: xep_Init_def)
qed

lemma catalog_env_make: "pe_make (wired_env backend publish) = pe_make (catalog_env backend (\<lambda>_ m. m) :: unit wired_ext plugin_env)"
  by (simp add: wired_env_def)

lemma catalog_made:
  assumes "catalog_factories n = Some f" "pe_make (wired_env backend publish) f = Some p"
  shows "catalog_plugin p"
proof -
  obtain d where "pe_make (catalog_env backend (\<lambda>_ m. m) :: unit wired_ext plugin_env) f = Some (plugin_of d)" "d \<in> set initialised_catalog"
    by (rule catalog_make[OF assms(1)])
  then show ?thesis using assms(2) by (auto simp: catalog_env_make catalog_plugin_def)
qed

lemma loaded_made_wired: "loaded_made (wired_env backend publish) F m \<longleftrightarrow> loaded_made (catalog_env backend (\<lambda>_ m. m) :: unit wired_ext plugin_env) F m"
  by (simp add: loaded_made_def catalog_env_make)

lemma keeps_wired: "keeps_manager (wired_env backend publish)"
proof -
  have "plugin_manager.truncate (snd (wired_init backend publish p m)) = plugin_manager.truncate m" for p m
    by (auto simp: wired_init_def plugin_manager.defs split: option.splits prod.splits)
  then show ?thesis by (simp add: keeps_manager_def wired_env_def)
qed

lemma wired_ranked: "ranked_plugins (wired_env backend publish) catalog_factories catalog_rank"
proof
  show "keeps_manager (wired_env backend publish)" by (rule keeps_wired)
  fix n f assume f: "catalog_factories n = Some f"
  show "\<exists>p. pe_make (wired_env backend publish) f = Some p \<and> p_Name p = n \<and> n \<noteq> []
      \<and> (\<forall>d\<in>set (p_Dependencies p). d \<in> dom catalog_factories \<and> catalog_rank d < catalog_rank n)"
    unfolding catalog_env_make by (rule quiet_catalog.made[OF f])
  show "fst (pe_init (wired_env backend publish) p m) = None"
    if p: "pe_make (wired_env backend publish) f = Some p" and lm: "loaded_made (wired_env backend publish) catalog_factories m"
      and deps: "set (p_Dependencies p) \<subseteq> dom (pm_loaded m)" for p m
  proof (cases "kind_of_plugin p")
    case None
    have "fst (pe_init (catalog_env backend (\<lambda>_ m. m)) p m) = None"
      by (rule quiet_catalog.starts[OF f]) (use p lm deps in \<open>simp_all add: catalog_env_make loaded_made_wired\<close>)
    then show ?thesis using None by (simp add: wired_env_def wired_init_def catalog_env_def)
  next
    case (Some k)
    have "k \<noteq> KOmemo" using catalog_plugin_kind(1)[OF catalog_made[OF f p] Some] .
    then obtain obj w' where "plugin_Init backend publish (plugin_manager.truncate m) k (wr_objs m k) (wr_life m) = Some (None, obj, w')"
      using plugin_Init_succeeds by blast
    then show ?thesis using Some by (simp add: wired_env_def wired_init_def)
  qed
qed

interpretation wired_catalog: ranked_plugins "wired_env backend publish" catalog_factories catalog_rank for backend publish
  by (rule wired_ranked)

subsection \<open>Loaded plugins and live registrations\<close>

definition live_kinds :: "wired \<Rightarrow> plugin_kind set" where
  "live_kinds m = {k. \<exists>n p. pm_loaded m n = Some p \<and> kind_of_plugin p = Some k}"

text \<open>Nothing but plugins has registered anything.\<close>

definition only_plugins :: "life_state \<Rightarrow> bool" where
  "only_plugins w \<longleftrightarrow> (\<forall>h\<in>set (hr_handlers w). method_of (h_Callback h) \<noteq> None)
     \<and> (\<forall>s\<in>all_subs w. method_of (sub_handler s) \<noteq> None)"

definition wired_inv :: "bool \<Rightarrow> bool \<Rightarrow> wired \<Rightarrow> bool" where
  "wired_inv backend publish m \<longleftrightarrow>
     pm_factories m = catalog_factories \<and> loaded_made (wired_env backend publish) catalog_factories m
     \<and> plugin_life publish (wr_life m) (wr_objs m) (live_kinds m) \<and> only_plugins (wr_life m)
     \<and> hr_nextID (wr_life m) \<le> 2 * card (live_kinds m) \<and> bus_nextID (wr_life m) \<le> 3 * card (live_kinds m)"

lemma all_kinds: "(UNIV :: plugin_kind set) = set [KBlocking, KCarbons, KCSI, KStreamManagement, KDisco, KMAM, KReceipts, KMUC, KPubSub,
    KVersion, KPing, KEntityTime, KPrivateXML, KHTTPUpload, KOmemo, KRoster]"
  by (auto intro: plugin_kind.exhaust)

lemma few_kinds: "card (S :: plugin_kind set) \<le> 16" "finite (S :: plugin_kind set)"
proof -
  have "finite (UNIV :: plugin_kind set)" "card (UNIV :: plugin_kind set) \<le> 16"
    unfolding all_kinds using card_length[of "[KBlocking, KCarbons, KCSI, KStreamManagement, KDisco, KMAM, KReceipts, KMUC, KPubSub,
      KVersion, KPing, KEntityTime, KPrivateXML, KHTTPUpload, KOmemo, KRoster]"] by simp_all
  then show "card S \<le> 16" "finite S" using card_mono[of UNIV S] finite_subset[of S UNIV] by auto
qed

lemma desc_methods:
  "map handler_desc hs = described es \<Longrightarrow> h \<in> set hs \<Longrightarrow> method_of (h_Callback h) \<noteq> None"
  "map sub_desc ss = described fs \<Longrightarrow> s \<in> set ss \<Longrightarrow> method_of (sub_handler s) \<noteq> None"
proof -
  assume "map handler_desc hs = described es" "h \<in> set hs"
  then have "handler_desc h \<in> set (described es)" by (metis image_eqI set_map)
  then show "method_of (h_Callback h) \<noteq> None" by (auto simp: handler_desc_def described_def)
next
  assume "map sub_desc ss = described fs" "s \<in> set ss"
  then have "sub_desc s \<in> set (described fs)" by (metis image_eqI set_map)
  then show "method_of (sub_handler s) \<noteq> None" by (auto simp: sub_desc_def described_def)
qed

lemma init_counts:
  assumes inv: "life_inv publish w objs live" and "room w" and "init_form publish k obj w p w'"
  shows "hr_nextID w' \<le> hr_nextID w + 2 \<and> bus_nextID w' \<le> bus_nextID w + 3"
    and "only_plugins w \<Longrightarrow> only_plugins w'"
proof -
  obtain es hs w1 ss w2 where form: "list_all typed_entry es" "length es \<le> 2" "add_handlers es w = Some (hs, w1)"
      "add_subscriptions (plugin_events publish k) w1 = Some (ss, w2)" "w' = (if k = KDisco then Disco_register w2 else w2)"
    using assms(3) unfolding init_form_def by blast
  have H: "same_bus w w1" "hr_nextID w1 = hr_nextID w + length es" "set (hr_handlers w1) = set (hr_handlers w) \<union> set hs"
      "map handler_desc hs = described (names_methods es)"
    using add_handlers_spec[of w es] form(1-3) inv assms(2) by (auto simp: life_inv_def room_def)
  have "bus_wf w1" "bus_nextID w1 + length (plugin_events publish k) < counter_limit"
    using H(1) inv assms(2) plugin_tables_short(2)[of publish k] by (simp_all add: life_inv_def same_bus_def room_def)
  from add_subscriptions_spec[OF this] form(4)
  have S: "same_handlers w1 w2" "bus_nextID w2 = bus_nextID w1 + length (plugin_events publish k)"
      "all_subs w2 = all_subs w1 \<union> set ss" "map sub_desc ss = described (plugin_events publish k)" by auto
  show "hr_nextID w' \<le> hr_nextID w + 2 \<and> bus_nextID w' \<le> bus_nextID w + 3"
    using H(1,2) S(1,2) form(2,5) plugin_tables_short(2)[of publish k] by (simp add: same_handlers_def same_bus_def)
  have new: "set (hr_handlers w') = set (hr_handlers w) \<union> set hs" "all_subs w' = all_subs w \<union> set ss"
    using H(1,3) S(1,3) form(5) by (simp_all add: same_handlers_def same_bus_def)
  show "only_plugins w \<Longrightarrow> only_plugins w'"
    using desc_methods(1)[OF H(4)] desc_methods(2)[OF S(4)] by (auto simp: only_plugins_def new)
qed

lemma wired_room:
  assumes "wired_inv backend publish m"
  shows "room (wr_life m)"
proof -
  have "hr_nextID (wr_life m) \<le> 2 * card (live_kinds m)" "bus_nextID (wr_life m) \<le> 3 * card (live_kinds m)"
    using assms by (simp_all add: wired_inv_def)
  then have "hr_nextID (wr_life m) \<le> 32" "bus_nextID (wr_life m) \<le> 48"
    using few_kinds(1)[of "live_kinds m"] by linarith+
  then show ?thesis by (simp add: room_def)
qed

text \<open>A plugin of the catalogue that is not loaded has a kind that is not live.\<close>

lemma not_live:
  assumes inv: "wired_inv backend publish m" and p: "catalog_plugin p" "pm_loaded m (p_Name p) = None" "kind_of_plugin p = Some k"
  shows "k \<notin> live_kinds m"
proof
  assume "k \<in> live_kinds m"
  then obtain n q where q: "pm_loaded m n = Some q" "kind_of_plugin q = Some k" by (auto simp: live_kinds_def)
  then obtain f where f: "catalog_factories n = Some f" "pe_make (wired_env backend publish) f = Some q"
    using inv by (auto simp: wired_inv_def loaded_made_def)
  have "p_Name q = n" using wired_catalog.made[OF f(1), of backend publish] f(2) by auto
  moreover have "p_code q = p_code p"
    using kind_codes_facts(1) kind_of_plugin_code[OF q(2)] kind_of_plugin_code[OF p(3)] by blast
  ultimately have "n = p_Name p"
    using catalog_plugin_kind(2)[OF catalog_made[OF f] q(2)] catalog_plugin_kind(2)[OF p(1,3)] by simp
  then show False using q(1) p(2) by simp
qed

lemma live_kinds_add:
  assumes "pm_loaded m n = None"
  shows "live_kinds (m\<lparr>pm_loaded := (pm_loaded m)(n \<mapsto> p), pm_order := os\<rparr>) =
    (case kind_of_plugin p of None \<Rightarrow> live_kinds m | Some k \<Rightarrow> insert k (live_kinds m))"
proof -
  have "k \<in> live_kinds (m\<lparr>pm_loaded := (pm_loaded m)(n \<mapsto> p), pm_order := os\<rparr>) \<longleftrightarrow>
      kind_of_plugin p = Some k \<or> k \<in> live_kinds m" for k
  proof
    assume "k \<in> live_kinds (m\<lparr>pm_loaded := (pm_loaded m)(n \<mapsto> p), pm_order := os\<rparr>)"
    then obtain n' q where "((pm_loaded m)(n \<mapsto> p)) n' = Some q" "kind_of_plugin q = Some k"
      by (auto simp: live_kinds_def simp del: fun_upd_apply)
    then show "kind_of_plugin p = Some k \<or> k \<in> live_kinds m" by (cases "n' = n") (auto simp: live_kinds_def)
  next
    assume "kind_of_plugin p = Some k \<or> k \<in> live_kinds m"
    then show "k \<in> live_kinds (m\<lparr>pm_loaded := (pm_loaded m)(n \<mapsto> p), pm_order := os\<rparr>)"
    proof
      assume "k \<in> live_kinds m"
      then obtain n' q where q: "pm_loaded m n' = Some q" "kind_of_plugin q = Some k" by (auto simp: live_kinds_def)
      then have "((pm_loaded m)(n \<mapsto> p)) n' = Some q" using assms by auto
      then show ?thesis using q(2) unfolding live_kinds_def by (simp del: fun_upd_apply) blast
    qed (auto simp: live_kinds_def)
  qed
  then show ?thesis by (auto split: option.splits)
qed

lemma live_kinds_objects [simp]: "live_kinds (m\<lparr>wr_life := w, wr_objs := objs\<rparr>) = live_kinds m"
  "live_kinds (m\<lparr>pm_loading := L\<rparr>) = live_kinds m"
  by (simp_all add: live_kinds_def)

lemma made_add:
  assumes "loaded_made env F m" "pm_loaded m' = (pm_loaded m)(n \<mapsto> p)" "F n = Some f" "pe_make env f = Some p"
  shows "loaded_made env F m'"
  using assms by (auto simp: loaded_made_def)

lemma catalog_plugin_factory:
  assumes "catalog_plugin p"
  obtains f where "catalog_factories (p_Name p) = Some f" "pe_make (wired_env backend publish) f = Some p"
proof -
  obtain d where d: "d \<in> set initialised_catalog" "p = plugin_of d" using assms by (auto simp: catalog_plugin_def)
  have n: "d_Number d \<in> set catalog_numbers" using d(1) by (auto simp: numbers_initialised[symmetric])
  then have f: "catalog_factories (p_Name p) = Some (d_Number d)"
    using plugin_of_facts(1)[OF d(1)] d(2) by (simp add: catalog_factories_iff)
  obtain d' where d': "find (\<lambda>x. d_Number x = d_Number d) initialised_catalog = Some d'" "d_Number d' = d_Number d"
    using find_number[OF n] by blast
  then have "d' \<in> set initialised_catalog" by (auto simp: find_Some_iff)
  moreover have "distinct (map d_Number initialised_catalog)"
    using catalog_numbers_facts numbers_initialised by simp
  ultimately have "d' = d" using d(1) d'(2) by (auto simp: distinct_map inj_on_def)
  then have "pe_make (wired_env backend publish) (d_Number d) = Some p"
    using d'(1) d(2) by (simp add: catalog_env_make catalog_env_def)
  then show thesis using that f by blast
qed

lemma wired_init_keeps:
  assumes inv: "wired_inv backend publish m" and p: "catalog_plugin p" "pm_loaded m (p_Name p) = None"
    and i: "wired_init backend publish p m = (None, m')"
  shows "wired_inv backend publish (m'\<lparr>pm_loaded := (pm_loaded m')(p_Name p \<mapsto> p), pm_order := pm_order m' @ [p_Name p]\<rparr>)"
    (is "wired_inv _ _ ?m")
proof -
  obtain f where f: "catalog_factories (p_Name p) = Some f" "pe_make (wired_env backend publish) f = Some p"
    by (rule catalog_plugin_factory[OF p(1)])
  have life: "plugin_life publish (wr_life m) (wr_objs m) (live_kinds m)"
    and made: "loaded_made (wired_env backend publish) catalog_factories m" and F: "pm_factories m = catalog_factories"
    and only: "only_plugins (wr_life m)" and ids: "hr_nextID (wr_life m) \<le> 2 * card (live_kinds m)" "bus_nextID (wr_life m) \<le> 3 * card (live_kinds m)"
    using inv by (simp_all add: wired_inv_def)
  show ?thesis
  proof (cases "kind_of_plugin p")
    case None
    then have m': "m' = m" using i by (simp add: wired_init_def)
    have "loaded_made (wired_env backend publish) catalog_factories ?m"
      by (rule made_add[OF made _ f]) (simp add: m')
    then show ?thesis
      using F life only ids live_kinds_add[OF p(2), where p = p] None by (simp add: wired_inv_def m')
  next
    case (Some k)
    then obtain obj w where w: "plugin_Init backend publish (plugin_manager.truncate m) k (wr_objs m k) (wr_life m) = Some (None, obj, w)"
      and m': "m' = m\<lparr>wr_life := w, wr_objs := (wr_objs m)(k := obj)\<rparr>"
      using i by (auto simp: wired_init_def split: option.splits prod.splits)
    have k: "k \<notin> live_kinds m" by (rule not_live[OF inv p Some])
    have live: "live_kinds ?m = insert k (live_kinds m)"
      using live_kinds_add[where m = m' and n = "p_Name p" and p = p] p(2) Some by (simp add: m')
    have "loaded_made (wired_env backend publish) catalog_factories ?m"
      by (rule made_add[OF made _ f]) (simp add: m')
    moreover have "plugin_life publish w ((wr_objs m)(k := obj)) (insert k (live_kinds m))"
      by (rule plugin_life.loaded[OF life k wired_room[OF inv] w])
    moreover have "hr_nextID w \<le> hr_nextID (wr_life m) + 2 \<and> bus_nextID w \<le> bus_nextID (wr_life m) + 3"
      by (rule init_counts(1)[OF life_invariant[OF life] wired_room[OF inv] plugin_Init_form[OF w]])
    moreover have "only_plugins w"
      by (rule init_counts(2)[OF life_invariant[OF life] wired_room[OF inv] plugin_Init_form[OF w] only])
    moreover have "card (insert k (live_kinds m)) = card (live_kinds m) + 1" using k few_kinds(2) by simp
    ultimately show ?thesis unfolding wired_inv_def live using F ids by (simp add: m')
  qed
qed

lemma wired_init_fails:
  assumes inv: "wired_inv backend publish m" and p: "catalog_plugin p" and i: "wired_init backend publish p m = (Some e, m')"
  shows "m' = m"
proof (cases "kind_of_plugin p")
  case (Some k)
  have "k \<noteq> KOmemo" using catalog_plugin_kind(1)[OF p Some] .
  then obtain obj w where "plugin_Init backend publish (plugin_manager.truncate m) k (wr_objs m k) (wr_life m) = Some (None, obj, w)"
    using plugin_Init_succeeds by blast
  then show ?thesis using i Some by (simp add: wired_init_def)
qed (use i in \<open>simp add: wired_init_def\<close>)

interpretation wiring: init_invariant "wired_env backend publish" "\<lambda>_. True" catalog_plugin "wired_inv backend publish" for backend publish
proof
  fix m m' :: wired and L n f p e
  show "wired_inv backend publish (m\<lparr>pm_loading := L\<rparr>) \<longleftrightarrow> wired_inv backend publish m"
    by (simp add: wired_inv_def loaded_made_def)
  show "catalog_plugin p" if "wired_inv backend publish m" "pm_factories m n = Some f" "pe_make (wired_env backend publish) f = Some p"
    using that by (intro catalog_made) (auto simp: wired_inv_def)
  show "wired_inv backend publish (pe_loaded_event (wired_env backend publish) p
      (m'\<lparr>pm_loaded := (pm_loaded m')(p_Name p \<mapsto> p), pm_order := pm_order m' @ [p_Name p]\<rparr>))"
    if "wired_inv backend publish m" "catalog_plugin p" "pm_loaded m (p_Name p) = None"
      "pe_init (wired_env backend publish) p m = (None, m')"
    using wired_init_keeps[OF that(1-3)] that(4) by (simp add: wired_env_def)
  show "wired_inv backend publish m'"
    if "wired_inv backend publish m" "catalog_plugin p" "pe_init (wired_env backend publish) p m = (Some e, m')"
    using wired_init_fails[OF that(1,2)] that by (simp add: wired_env_def)
qed simp

lemma wired_named: "wired_inv backend publish m \<Longrightarrow> factories_named (wired_env backend publish) m"
  by (rule wired_catalog.named) (simp add: wired_inv_def)

lemma load_numbers_keeps:
  assumes "set ns \<subseteq> set catalog_numbers" "pm_inv m" "wired_inv backend publish m"
    and "load_numbers depth (wired_env backend publish) ns m = Some (r, m')"
  shows "wired_inv backend publish m'"
  by (rule wiring.numbers_keep[OF _ _ wired_named assms(2-)])
    (use assms(1) in \<open>auto intro: Load_catalog\<close>)

text \<open>
  Loading brings in what was asked for and what that depends on, and nothing else: a set of
  catalogue numbers that contains the dependencies of its plugins bounds what is loaded.
\<close>

definition closed_numbers :: "nat set \<Rightarrow> bool" where
  "closed_numbers S \<longleftrightarrow> S \<subseteq> set catalog_numbers
     \<and> (\<forall>d\<in>set initialised_catalog. d_Number d \<in> S \<longrightarrow> set (p_Dependencies (plugin_of d)) \<subseteq> xep_name ` S)"

definition bounded_inv :: "bool \<Rightarrow> bool \<Rightarrow> nat set \<Rightarrow> wired \<Rightarrow> bool" where
  "bounded_inv backend publish S m \<longleftrightarrow> wired_inv backend publish m \<and> dom (pm_loaded m) \<subseteq> xep_name ` S"

lemma catalog_named:
  assumes "catalog_factories n = Some f" "pe_make (wired_env backend publish) f = Some p"
  shows "p_Name p = n"
  using wired_catalog.made[OF assms(1), of backend publish] assms(2) by auto

lemma closed_deps:
  assumes "closed_numbers S" "catalog_plugin p" "p_Name p \<in> xep_name ` S" "d \<in> set (p_Dependencies p)"
  shows "d \<in> xep_name ` S"
proof -
  obtain x where x: "x \<in> set initialised_catalog" "p = plugin_of x" using assms(2) by (auto simp: catalog_plugin_def)
  then obtain n where n: "n \<in> S" "xep_name (d_Number x) = xep_name n" using assms(3) plugin_of_facts(1) by auto
  have "d_Number x \<in> set catalog_numbers" using x(1) by (auto simp: numbers_initialised[symmetric])
  moreover have "n \<in> set catalog_numbers" using assms(1) n(1) by (auto simp: closed_numbers_def)
  ultimately have "d_Number x = n" using n(2) catalog_numbers_facts(3) xep_name_inj by blast
  then show ?thesis using assms(1,4) x n(1) by (auto simp: closed_numbers_def)
qed

lemma bounded_loading:
  assumes "closed_numbers S"
  shows "init_invariant (wired_env backend publish) (\<lambda>n. n \<in> xep_name ` S)
    (\<lambda>p. catalog_plugin p \<and> p_Name p \<in> xep_name ` S) (bounded_inv backend publish S)"
proof
  fix m m' :: wired and L n f p e d
  show "bounded_inv backend publish S (m\<lparr>pm_loading := L\<rparr>) \<longleftrightarrow> bounded_inv backend publish S m"
    by (simp add: bounded_inv_def wiring.I_loading)
  show "d \<in> xep_name ` S" if "catalog_plugin p \<and> p_Name p \<in> xep_name ` S" "d \<in> set (p_Dependencies p)"
    using that closed_deps[OF assms] by blast
  show "catalog_plugin p \<and> p_Name p \<in> xep_name ` S"
    if "bounded_inv backend publish S m" "n \<in> xep_name ` S" "pm_factories m n = Some f" "pe_make (wired_env backend publish) f = Some p"
    using that catalog_made[of n f backend publish p] catalog_named[of n f backend publish p]
    by (auto simp: bounded_inv_def wired_inv_def)
  show "bounded_inv backend publish S (pe_loaded_event (wired_env backend publish) p
      (m'\<lparr>pm_loaded := (pm_loaded m')(p_Name p \<mapsto> p), pm_order := pm_order m' @ [p_Name p]\<rparr>))"
    if "bounded_inv backend publish S m" "catalog_plugin p \<and> p_Name p \<in> xep_name ` S" "pm_loaded m (p_Name p) = None"
      "pe_init (wired_env backend publish) p m = (None, m')"
  proof -
    have "plugin_manager.truncate (snd (wired_init backend publish p m)) = plugin_manager.truncate m"
      using keeps_wired[of backend publish] by (simp add: keeps_manager_def wired_env_def)
    then have "pm_loaded m' = pm_loaded m" using that(4) by (simp add: wired_env_def plugin_manager.defs)
    then show ?thesis
      using wiring.I_init[of backend publish m p m'] that by (auto simp: bounded_inv_def wired_env_def)
  qed
  show "bounded_inv backend publish S m'"
    if "bounded_inv backend publish S m" "catalog_plugin p \<and> p_Name p \<in> xep_name ` S"
      "pe_init (wired_env backend publish) p m = (Some e, m')"
    using wired_init_fails[of backend publish m p e m'] that by (auto simp: bounded_inv_def wired_env_def)
qed

lemma load_numbers_bounded:
  assumes "closed_numbers S" "set ns \<subseteq> S" "pm_inv m" "bounded_inv backend publish S m"
    and "load_numbers depth (wired_env backend publish) ns m = Some (r, m')"
  shows "dom (pm_loaded m') \<subseteq> xep_name ` S"
proof -
  have "bounded_inv backend publish S m'"
    by (rule init_invariant.numbers_keep[OF bounded_loading[OF assms(1)] _ _ _ assms(3-)])
      (use assms(1,2) in \<open>auto simp: closed_numbers_def bounded_inv_def intro: Load_catalog wired_named\<close>)
  then show ?thesis by (simp add: bounded_inv_def)
qed

subsection \<open>Shutting down\<close>

lemma shutdown_all:
  assumes "pm_inv m"
  shows "\<exists>err. shutdown stop m = Some (err, map (the \<circ> pm_loaded m) (rev (pm_order m)))"
  using shutdown_loop_all[of "rev (pm_order m)" "pm_loaded m" stop] assms by (simp add: shutdown_def pm_inv_def)

lemma stop_plugins:
  assumes "plugin_life publish (wr_life m) (wr_objs m) live" "distinct (List.map_filter kind_of_plugin ps)"
    and "set (List.map_filter kind_of_plugin ps) \<subseteq> live"
  shows "plugin_life publish (wr_life (fold stop_plugin ps m)) (wr_objs m) (live - set (List.map_filter kind_of_plugin ps))"
  using assms
proof (induction ps arbitrary: m live)
  case (Cons p ps)
  show ?case
  proof (cases "kind_of_plugin p")
    case None
    then show ?thesis using Cons by (simp add: stop_plugin_def map_filter_simps)
  next
    case (Some k)
    let ?m = "stop_plugin p m"
    have k: "k \<in> live" "k \<notin> set (List.map_filter kind_of_plugin ps)" "k \<noteq> KRoster"
      using Cons.prems(2,3) Some kind_codes_facts(5) kind_of_plugin_code[OF Some] by (auto simp: map_filter_simps)
    have "plugin_life publish (wr_life ?m) (wr_objs ?m) (live - {k})"
      using plugin_life.stopped[OF Cons.prems(1) k(1,3)] Some by (simp add: stop_plugin_def)
    then have "plugin_life publish (wr_life (fold stop_plugin ps ?m)) (wr_objs ?m) (live - {k} - set (List.map_filter kind_of_plugin ps))"
      using Cons.prems(2,3) Some k(2) by (intro Cons.IH) (auto simp: map_filter_simps)
    moreover have "live - {k} - set (List.map_filter kind_of_plugin ps) = live - set (List.map_filter kind_of_plugin (p # ps))"
      using Some by (auto simp: map_filter_simps)
    moreover have "wr_objs ?m = wr_objs m" using Some by (simp add: stop_plugin_def)
    ultimately show ?thesis by simp
  qed
qed (simp add: map_filter_simps)

lemma in_map_filter: "z \<in> set (List.map_filter f xs) \<longleftrightarrow> (\<exists>x\<in>set xs. f x = Some z)"
  by (induction xs) (auto simp: map_filter_simps split: option.splits)

lemma distinct_map_some:
  assumes "distinct xs" and "\<And>x y z. x \<in> set xs \<Longrightarrow> y \<in> set xs \<Longrightarrow> f x = Some z \<Longrightarrow> f y = Some z \<Longrightarrow> x = y"
  shows "distinct (List.map_filter f xs)"
  using assms
proof (induction xs)
  case (Cons x xs)
  have "distinct (List.map_filter f xs)" using Cons.prems by (intro Cons.IH) auto
  moreover have "z \<notin> set (List.map_filter f xs)" if "f x = Some z" for z
  proof
    assume "z \<in> set (List.map_filter f xs)"
    then obtain y where y: "y \<in> set xs" "f y = Some z" by (auto simp: in_map_filter)
    then have "x = y" using that by (intro Cons.prems(2)) simp_all
    then show False using Cons.prems(1) y(1) by simp
  qed
  ultimately show ?case by (auto simp: map_filter_simps split: option.splits)
qed (simp add: map_filter_simps)

text \<open>The kinds of the loaded plugins are the live ones, each once.\<close>

lemma loaded_kinds:
  assumes inv: "wired_inv backend publish m" "pm_inv m"
  defines "ps \<equiv> map (the \<circ> pm_loaded m) (rev (pm_order m))"
  shows "distinct (List.map_filter kind_of_plugin ps)" "set (List.map_filter kind_of_plugin ps) = live_kinds m"
proof -
  have made: "catalog_plugin p" if "pm_loaded m n = Some p" for n p
    using that inv(1) catalog_made unfolding wired_inv_def loaded_made_def by metis
  have order: "set (pm_order m) = dom (pm_loaded m)" "distinct (pm_order m)"
    and named: "\<And>n p. pm_loaded m n = Some p \<Longrightarrow> p_Name p = n"
    using inv(2) by (auto simp: pm_inv_def)
  have loaded: "p \<in> set ps \<longleftrightarrow> (\<exists>n. pm_loaded m n = Some p)" for p
    using order(1) by (force simp: ps_def)
  then have mem: "catalog_plugin p" "pm_loaded m (p_Name p) = Some p" if "p \<in> set ps" for p
    using that made named by metis+
  have "map p_Name ps = rev (pm_order m)"
  proof -
    have "(p_Name \<circ> (the \<circ> pm_loaded m)) n = n" if "n \<in> set (rev (pm_order m))" for n
      using that order(1) named by fastforce
    then show ?thesis unfolding ps_def map_map by (rule map_idI)
  qed
  then have dist: "distinct ps" using order(2) by (metis distinct_map distinct_rev)
  show "distinct (List.map_filter kind_of_plugin ps)"
  proof (rule distinct_map_some[OF dist])
    fix p q k assume p: "p \<in> set ps" "q \<in> set ps" and k: "kind_of_plugin p = Some k" "kind_of_plugin q = Some k"
    have "p_code p = p_code q"
      using kind_codes_facts(1) kind_of_plugin_code[OF k(1)] kind_of_plugin_code[OF k(2)] by blast
    then have "p_Name p = p_Name q"
      using catalog_plugin_kind(2)[OF mem(1)[OF p(1)] k(1)] catalog_plugin_kind(2)[OF mem(1)[OF p(2)] k(2)] by simp
    then have "Some p = Some q" using mem(2)[OF p(1)] mem(2)[OF p(2)] by metis
    then show "p = q" by simp
  qed
  show "set (List.map_filter kind_of_plugin ps) = live_kinds m"
    by (simp add: set_eq_iff in_map_filter live_kinds_def Bex_def loaded) blast
qed

text \<open>Stopping every loaded plugin, in any order, leaves a state with no plugin live.\<close>

lemma stopped_life:
  assumes "wired_inv backend publish m" "pm_inv m"
  shows "plugin_life publish (wr_life (fold stop_plugin (map (the \<circ> pm_loaded m) (rev (pm_order m))) m)) (wr_objs m) {}"
proof -
  have "plugin_life publish (wr_life m) (wr_objs m) (live_kinds m)" using assms(1) by (simp add: wired_inv_def)
  from stop_plugins[OF this loaded_kinds(1)[OF assms]] show ?thesis by (simp add: loaded_kinds(2)[OF assms])
qed

text \<open>With a plugin set live, the registries hold exactly the entries of its plugins.\<close>

lemma life_registered:
  assumes "plugin_life publish w objs live"
  shows "bij_betw handler_desc {h \<in> set (hr_handlers w). method_owner (h_Callback h) = Some k}
      (if k \<in> live then set (described (plugin_callbacks k)) else {})"
    and "bij_betw sub_desc {s \<in> all_subs w. method_owner (sub_handler s) = Some k}
      (if k \<in> live then set (described (plugin_events publish k)) else {})"
  using own_handlers.own_invD(6)[OF life_invD(2)[OF life_invariant[OF assms]], of k]
    own_subs.own_invD(6)[OF life_invD(3)[OF life_invariant[OF assms]], of k]
  unfolding own_handlers.owned_by_def own_subs.owned_by_def by blast+

lemma life_nothing_left:
  assumes "plugin_life publish w objs {}"
  shows "h \<in> set (hr_handlers w) \<Longrightarrow> method_of (h_Callback h) = None"
    and "s \<in> all_subs w \<Longrightarrow> method_of (sub_handler s) = None"
    and "api_handlers (ls_API w) = Map.empty"
proof -
  have none: "{h \<in> set (hr_handlers w). method_owner (h_Callback h) = Some k} = {}"
    "{s \<in> all_subs w. method_owner (sub_handler s) = Some k} = {}" for k
    using life_registered[OF assms, of k] by (simp_all add: bij_betw_def)
  show "h \<in> set (hr_handlers w) \<Longrightarrow> method_of (h_Callback h) = None"
    using none(1) by (cases "method_of (h_Callback h)") (auto simp: method_owner_def)
  show "s \<in> all_subs w \<Longrightarrow> method_of (sub_handler s) = None"
    using none(2) by (cases "method_of (sub_handler s)") (auto simp: method_owner_def)
  show "api_handlers (ls_API w) = Map.empty" using life_invariant[OF assms] by (auto simp: life_inv_def)
qed

subsection \<open>From a new client to its shutdown\<close>

lemma wire_fresh:
  assumes "NewClient U cfg = Inr c"
  shows "fresh_client (wire_client c)" "wr_life (wire_client c) = cl_registries c" "wr_objs (wire_client c) = (\<lambda>_. plugin_object0)"
  using new_client_ready(3)[OF assms] by (simp_all add: wire_client_def fresh_client_def plugin_manager.defs)

lemma registered_inv:
  assumes "NewClient U cfg = Inr c"
  shows "wired_inv backend publish ((wire_client c)\<lparr>pm_factories := catalog_factories\<rparr>)"
proof -
  have "pm_loaded (wire_client c) = Map.empty" by (rule RegisterAll_fresh(3)[OF wire_fresh(1)[OF assms]])
  then have "live_kinds ((wire_client c)\<lparr>pm_factories := catalog_factories\<rparr>) = {}"
    "loaded_made (wired_env backend publish) catalog_factories ((wire_client c)\<lparr>pm_factories := catalog_factories\<rparr>)"
    by (simp_all add: live_kinds_def loaded_made_def)
  then show ?thesis
    using new_client_ready(1)[OF assms] new_client_fields[OF assms] wire_fresh(2,3)[OF assms]
    by (simp add: wired_inv_def life_state0_def only_plugins_def all_subs_def subs_of_def)
qed

lemma wired_loading:
  assumes c: "NewClient U cfg = Inr c" and ns: "set ns \<subseteq> set catalog_numbers"
  obtains m' where "load_numbers 6 (wired_env backend publish) ns ((wire_client c)\<lparr>pm_factories := catalog_factories\<rparr>) = Some (None, m')"
    "pm_inv m'" "wired_inv backend publish m'" "xep_name ` set ns \<subseteq> dom (pm_loaded m')"
proof -
  let ?env = "wired_env backend publish" and ?m = "(wire_client c)\<lparr>pm_factories := catalog_factories\<rparr>"
  note fresh = RegisterAll_fresh[OF wire_fresh(1)[OF c]]
  note inv = registered_inv[OF c, of backend publish]
  have "\<exists>m'. load_numbers 6 ?env ns ?m = Some (None, m') \<and> pm_grows ?m m' \<and> loaded_made ?env catalog_factories m'
      \<and> xep_name ` set ns \<subseteq> dom (pm_loaded m')"
  proof (rule wired_catalog.load_numbers_succeed)
    show "Load 6 ?env n x = load_with ?env (Use 6 ?env) (xep_name n) x" if "n \<in> set ns" for n x
      using that ns by (intro Load_catalog) auto
    show "xep_name n \<in> dom catalog_factories \<and> catalog_rank (xep_name n) < 6" if "n \<in> set ns" for n
      using that ns rank_bound catalog_factories_iff[of "xep_name n" n] by auto
  qed (use fresh inv in \<open>simp_all add: wired_inv_def\<close>)
  then obtain m' where m': "load_numbers 6 ?env ns ?m = Some (None, m')" "pm_grows ?m m'" "xep_name ` set ns \<subseteq> dom (pm_loaded m')"
    by blast
  show thesis
    by (rule that[OF m'(1) pm_growsD(1)[OF m'(2)] load_numbers_keeps[OF ns fresh(2) inv m'(1)] m'(3)])
qed

subsection \<open>The live kinds are those of the loaded numbers\<close>

definition numbers_loaded :: "wired \<Rightarrow> nat set" where
  "numbers_loaded m = {n \<in> set catalog_numbers. xep_name n \<in> dom (pm_loaded m)}"

lemma kind_codes_table:
  "list_all (\<lambda>(c, k). k = KOmemo \<or> (case map_of all_init c of Some (OwnType p) \<Rightarrow> p_code p = c | _ \<Rightarrow> False)) kind_codes"
  by code_simp

lemma kind_codes_own:
  assumes "(c, k) \<in> set kind_codes" "k \<noteq> KOmemo"
  shows "\<exists>p. specializedFactories c = Some (OwnType p) \<and> p_code p = c"
proof -
  have "case map_of all_init c of Some (OwnType p) \<Rightarrow> p_code p = c | _ \<Rightarrow> False"
    using bspec[OF kind_codes_table[unfolded list_all_iff] assms(1)] assms(2) by simp
  then show ?thesis by (simp add: specialized_table(2) split: option.splits xep_factory.splits)
qed

lemma live_kinds_numbers:
  assumes inv: "wired_inv backend publish m"
  shows "live_kinds m = {k. \<exists>c. (c, k) \<in> set kind_codes \<and> c \<in> numbers_loaded m}"
proof (intro equalityI subsetI)
  fix k assume "k \<in> live_kinds m"
  then obtain n p where p: "pm_loaded m n = Some p" "kind_of_plugin p = Some k" by (auto simp: live_kinds_def)
  obtain f where f: "catalog_factories n = Some f" "pe_make (wired_env backend publish) f = Some p"
    using inv p(1) by (auto simp: wired_inv_def loaded_made_def)
  have "xep_name (p_code p) = n" "f \<in> set catalog_numbers" "n = xep_name f"
    using catalog_plugin_kind(2)[OF catalog_made[OF f] p(2)] catalog_named[OF f] f(1) by (simp_all add: catalog_factories_iff)
  moreover have "p_code p < 10000"
    using catalog_plugin_kind(1)[OF catalog_made[OF f] p(2)] kind_of_plugin_code[OF p(2)] by (auto simp: kind_codes_def)
  ultimately have "p_code p \<in> numbers_loaded m"
    using xep_name_inj[of "p_code p" f] catalog_numbers_facts(3)[of f] p(1) by (auto simp: numbers_loaded_def)
  then show "k \<in> {k. \<exists>c. (c, k) \<in> set kind_codes \<and> c \<in> numbers_loaded m}" using kind_of_plugin_code[OF p(2)] by blast
next
  fix k assume "k \<in> {k. \<exists>c. (c, k) \<in> set kind_codes \<and> c \<in> numbers_loaded m}"
  then obtain c p where c: "(c, k) \<in> set kind_codes" "c \<in> set catalog_numbers" "pm_loaded m (xep_name c) = Some p"
    by (auto simp: numbers_loaded_def)
  obtain f where f: "catalog_factories (xep_name c) = Some f" "pe_make (wired_env backend publish) f = Some p"
    using inv c(3) by (auto simp: wired_inv_def loaded_made_def)
  then have "f = c" using c(2) catalog_numbers_facts(3) xep_name_inj by (auto simp: catalog_factories_iff)
  moreover obtain d where d: "pe_make (wired_env backend publish) f = Some (plugin_of d)" "d_Number d = f"
    using catalog_make[OF f(1)] catalog_env_make by metis
  moreover have "k \<noteq> KOmemo" using c(1,2) catalog_numbers_facts(3)[of c] by (auto simp: kind_codes_def)
  ultimately have "p_code p = c" using kind_codes_own[OF c(1)] f(2) by (auto simp: plugin_of_def)
  moreover have "distinct (map fst kind_codes)" by (simp add: kind_codes_def)
  ultimately have "kind_of_plugin p = Some k" using c(1) by (simp add: kind_of_plugin_def)
  then show "k \<in> live_kinds m" using c(3) by (auto simp: live_kinds_def)
qed

end
