(* ===== verification/Session.thy ===== *)
theory Session
  imports Wiring
begin

text \<open>
  A connected client at work: the read loop of \<^verbatim>\<open>src/xmpp/client.go\<close> on the connection, dispatch
  through the registries, and the callbacks of the plugins that \<^verbatim>\<open>LoadDefaults\<close> loads
  (\<^verbatim>\<open>src/xep/disco.go\<close>, \<^verbatim>\<open>message_extensions.go\<close>, \<^verbatim>\<open>utility_plugins.go\<close>), which write their answers to the
  same connection. The state puts the registries, the connection and the data of these
  plugins side by side; callbacks of other plugins and of the application are part of the
  environment.
\<close>

record session = life_state +
  ss_conn :: conn
  ss_disco :: disco
  ss_version :: version_info
  ss_autoAck :: bool
  ss_iqs :: iq_state

text \<open>The clock and the growth of slices, and the plugins' features.\<close>

record surroundings =
  su_clock :: gotime
  su_grow :: "nat \<Rightarrow> nat \<Rightarrow> nat"
  su_features :: "string list"

type_synonym session_env = "unit session_ext life_state_ext dispatch_env"

subsection \<open>Sending\<close>

text \<open>\<^verbatim>\<open>Send\<close> announces the stanza on the bus once it is written.\<close>

definition session_Send :: "session_env \<Rightarrow> stanza \<Rightarrow> session \<Rightarrow> go_error option \<times> session" where
  "session_Send env st w =
     (case Send st (ss_conn w) of
        (Inl e, c) \<Rightarrow> (Some e, w\<lparr>ss_conn := c\<rparr>)
      | (Inr _, c) \<Rightarrow> (None, emit_event env ''sent_stanza'' (DStanza st) (w\<lparr>ss_conn := c\<rparr>)))"

definition session_NextID :: "session \<Rightarrow> string \<times> session" where
  "session_NextID w =
     (case NextID (ss_conn w) of (r, c) \<Rightarrow> (case r of Inl _ \<Rightarrow> [] | Inr i \<Rightarrow> i, w\<lparr>ss_conn := c\<rparr>))"

subsection \<open>The callbacks\<close>

text \<open>A conversion of the wrong kind panics; dispatch never reaches that branch.\<close>

definition with_iq :: "(iq \<Rightarrow> session \<Rightarrow> go_error option \<times> session) \<Rightarrow> stanza \<Rightarrow> session \<Rightarrow> go_error option \<times> session" where
  "with_iq f st w = (case asIQ st of None \<Rightarrow> (Some (Foreign ''panic''), w) | Some q \<Rightarrow> f q w)"

definition call_receipts :: "session_env \<Rightarrow> message \<Rightarrow> session \<Rightarrow> go_error option \<times> session" where
  "call_receipts env m w =
     (case Receipts_handle (ss_autoAck w) (fst (session_NextID w)) m of
        NoReceipt \<Rightarrow> (None, w)
      | ReceiptEvent i \<Rightarrow> (None, emit_event env ''receipt_received'' (DValue i) w)
      | ReceiptAck ack \<Rightarrow> session_Send env (SMessage ack) (snd (session_NextID w)))"

definition call_info :: "session_env \<Rightarrow> surroundings \<Rightarrow> iq \<Rightarrow> session \<Rightarrow> go_error option \<times> session" where
  "call_info env su q w =
     (case handleInfo (su_grow su) (su_features su) (ss_disco w) q of
        (answer, d) \<Rightarrow> session_Send env (SIQ answer) (w\<lparr>ss_disco := d\<rparr>))"

definition plugin_call ::
  "session_env \<Rightarrow> surroundings \<Rightarrow> plugin_method \<Rightarrow> handler \<Rightarrow> stanza \<Rightarrow> session \<Rightarrow> go_error option \<times> session" where
  "plugin_call env su m h st w =
     (if m = Call_Ping_reply then with_iq (\<lambda>q. session_Send env (SIQ (Ping_handler q))) st w
      else if m = Call_Version_reply then with_iq (\<lambda>q w. session_Send env (SIQ (Version_handler (ss_version w) q)) w) st w
      else if m = Call_EntityTime_reply then with_iq (\<lambda>q. session_Send env (SIQ (EntityTime_handler (su_clock su) q))) st w
      else if m = Call_Disco_handleInfo then with_iq (call_info env su) st w
      else if m = Call_Disco_handleItems then with_iq (\<lambda>q w. session_Send env (SIQ (handleItems (ss_disco w) q)) w) st w
      else if m = Call_Receipts_handle then
        (case asMessage st of None \<Rightarrow> (Some (Foreign ''panic''), w) | Some msg \<Rightarrow> call_receipts env msg w)
      else de_callback env h st w)"

text \<open>The environment with the plugins' callbacks in place.\<close>

definition with_plugins :: "surroundings \<Rightarrow> session_env \<Rightarrow> session_env" where
  "with_plugins su env =
     env\<lparr>de_callback := (\<lambda>h st w.
       case method_of (h_Callback h) of None \<Rightarrow> de_callback env h st w | Some m \<Rightarrow> plugin_call env su m h st w)\<rparr>"

subsection \<open>The read loop\<close>

definition route :: "stanza \<Rightarrow> session \<Rightarrow> session" where
  "route st w = (case st of SIQ i \<Rightarrow> w\<lparr>ss_iqs := route_iq i (ss_iqs w)\<rparr> | _ \<Rightarrow> w)"

fun perform :: "session_env \<Rightarrow> read_action \<Rightarrow> session \<Rightarrow> session" where
  "perform env (Report e) w = reportError env (Some e) w"
| "perform env (Element n) w = emit_event env ''stream_element'' (DNode n) w"
| "perform env (Deliver st) w = dispatchStanza env st (route st w)"

text \<open>
  The loop of \<^verbatim>\<open>readLoop\<close> on the tokens still to come. A callback may have closed the connection,
  so each turn looks for it again.
\<close>

function serve :: "session_env \<Rightarrow> go_error \<Rightarrow> xtoken list \<Rightarrow> session \<Rightarrow> session" where
  "serve env fin ts w =
     (if \<not> cn_open (ss_conn w) then perform env (Report (Sentinel ErrNotConnected)) w
      else case read_top fin ts of
        (Inl e, _) \<Rightarrow> fold (perform env) (read_end e) w
      | (Inr n, rest) \<Rightarrow>
          (let (act, go_on) = read_body n; w' = perform env act w
           in if go_on then serve env fin rest w' else w'))"
  by pat_completeness auto

termination
proof (relation "measure (\<lambda>(env, fin, ts, w). length ts)")
  fix env :: session_env and fin ts and w :: session and r rest n p act go_on w'
  assume "(r, rest) = read_top fin ts" "r = Inr n"
  then show "((env, fin, rest, w'), (env, fin, ts, w)) \<in> measure (\<lambda>(env, fin, ts, w). length ts)"
    using read_top_consumes[of fin ts n rest] by simp
qed simp

declare serve.simps [simp del]

subsection \<open>A connection that takes every write\<close>

text \<open>The stanzas written so far, and the states in which every write succeeds and nobody listens.\<close>

definition sent :: "conn \<Rightarrow> stanza list" where
  "sent c = List.map_filter (\<lambda>(_, it). case it of OutStanza st \<Rightarrow> Some st | _ \<Rightarrow> None) (cn_out c)"

definition ready :: "session \<Rightarrow> bool" where
  "ready w \<longleftrightarrow> all_subs w = {} \<and> cn_open (ss_conn w) \<and> cn_writes (ss_conn w) = []"

text \<open>\<open>grown w os w'\<close>: between the two states exactly the stanzas \<open>os\<close> were written, in this order; the
  registries and the plugins' settings are as before.\<close>

definition grown :: "session \<Rightarrow> stanza list \<Rightarrow> session \<Rightarrow> bool" where
  "grown w os w' \<longleftrightarrow> ready w' \<and> hr_handlers w' = hr_handlers w \<and> ss_autoAck w' = ss_autoAck w
     \<and> ss_version w' = ss_version w \<and> sent (ss_conn w') = sent (ss_conn w) @ os"

lemma grown_refl: "ready w \<Longrightarrow> grown w [] w"
  by (simp add: grown_def)

lemma grown_trans: "grown w os w' \<Longrightarrow> grown w' os' w'' \<Longrightarrow> grown w (os @ os') w''"
  by (simp add: grown_def)

lemma grown_ready: "grown w os w' \<Longrightarrow> ready w'"
  by (simp add: grown_def)

lemma subs_of_none: "all_subs w = {} \<Longrightarrow> subs_of n w = []"
  by (simp add: all_subs_def) (metis all_not_in_conv set_empty)

lemma emit_unheard [simp]: "ready w \<Longrightarrow> emit_event env name data w = w"
  by (simp add: ready_def emit_event_def Emit_def emit_order_def subs_of_none)

lemma StanzaXML_sendable: "sendable_stanza d st \<Longrightarrow> \<exists>ts. StanzaXML st = Inr ts"
  using marshal_normal[OF normal_stanza_node] by (simp add: StanzaXML_node)

lemma Send_written:
  assumes "cn_open c" "cn_writes c = []" "sendable_stanza d st"
  shows "Send st c = (Inr (), c\<lparr>cn_out := cn_out c @ [(cn_tls c, OutStanza st)], cn_events := cn_events c @ [''sent_stanza'']\<rparr>)"
  using StanzaXML_sendable[OF assms(3)] assms(1,2)
  by (auto simp: Send_def writeStanza_def write_item_def bindc_def emit_def)

lemma session_Send_grown:
  assumes "ready w" "sendable_stanza d st"
  obtains w' where "session_Send env st w = (None, w')" "grown w [st] w'"
proof -
  let ?c = "(ss_conn w)\<lparr>cn_out := cn_out (ss_conn w) @ [(cn_tls (ss_conn w), OutStanza st)],
    cn_events := cn_events (ss_conn w) @ [''sent_stanza'']\<rparr>"
  have r: "ready (w\<lparr>ss_conn := ?c\<rparr>)" using assms(1) by (simp add: ready_def all_subs_def subs_of_def)
  have "session_Send env st w = (None, w\<lparr>ss_conn := ?c\<rparr>)"
    using Send_written[of "ss_conn w" d st] assms r by (simp add: session_Send_def ready_def[of w])
  moreover have "grown w [st] (w\<lparr>ss_conn := ?c\<rparr>)"
    using r by (simp add: grown_def sent_def map_filter_simps List.map_filter_def)
  ultimately show thesis by (rule that)
qed

lemma session_NextID_grown: "ready w \<Longrightarrow> grown w [] (snd (session_NextID w))"
  by (simp add: session_NextID_def NextID_def Let_def grown_def ready_def sent_def all_subs_def subs_of_def)

subsection \<open>What the plugins answer\<close>

text \<open>
  The answers of the default plugins: \<open>acks\<close> what \<^verbatim>\<open>Receipts\<close> writes for a message, \<open>serves\<close> what a
  callback answers to a request. The discovery answer depends on the entries at that moment.
\<close>

definition wants_ack :: "bool \<Rightarrow> message \<Rightarrow> bool" where
  "wants_ack autoAck m \<longleftrightarrow> autoAck \<and> ReceiptID m = None \<and> msg_ID m \<noteq> [] \<and> Message_Extension m ReceiptsNS ''request'' \<noteq> None
     \<and> msg_Type m \<noteq> MessageGroupChat \<and> msg_Type m \<noteq> MessageErrorType"

definition acks :: "bool \<Rightarrow> message \<Rightarrow> stanza list \<Rightarrow> bool" where
  "acks autoAck m os \<longleftrightarrow>
     (if wants_ack autoAck m then \<exists>i. os = [SMessage ((ReceiptMessage (msg_From m) (msg_ID m))\<lparr>msg_ID := i\<rparr>)] else os = [])"

definition request_methods :: "plugin_method list" where
  "request_methods = [Call_Disco_handleInfo, Call_Disco_handleItems, Call_Version_reply, Call_Ping_reply, Call_EntityTime_reply]"

fun serves :: "surroundings \<Rightarrow> version_info \<Rightarrow> plugin_method \<Rightarrow> iq \<Rightarrow> iq \<Rightarrow> bool" where
  "serves su v Call_Ping_reply q r \<longleftrightarrow> r = Ping_handler q"
| "serves su v Call_Version_reply q r \<longleftrightarrow> r = Version_handler v q"
| "serves su v Call_EntityTime_reply q r \<longleftrightarrow> r = EntityTime_handler (su_clock su) q"
| "serves su v Call_Disco_handleInfo q r \<longleftrightarrow> (\<exists>d. r = fst (handleInfo (su_grow su) (su_features su) d q))"
| "serves su v Call_Disco_handleItems q r \<longleftrightarrow> (\<exists>d. r = handleItems d q)"
| "serves su v _ q r \<longleftrightarrow> False"

text \<open>A request whose answer can be written.\<close>

definition answerable :: "iq \<Rightarrow> bool" where
  "answerable q \<longleftrightarrow> iq_ID q \<noteq> [] \<and> list_all (\<lambda>n. normal n \<and> Local (Name n) \<noteq> ''error'') (iq_Payloads q)"

lemma sendable_result:
  "answerable q \<Longrightarrow> list_all (\<lambda>n. normal n \<and> Local (Name n) \<noteq> ''error'') ns \<Longrightarrow> sendable_stanza d (SIQ (IQ_Result q ns))"
  by (simp add: answerable_def IQ_Result_def sendable_def iq0_def)

lemma sendable_not_found: "answerable q \<Longrightarrow> sendable_stanza d (SIQ (IQ_ErrorResult q (Some item_not_found)))"
  by (simp add: answerable_def IQ_ErrorResult_def sendable_def sendable_error_def cloneNodes_def item_not_found_def
      stanza_error0_def iq0_def map_idI)

lemma disco_answers:
  "fst (handleInfo grow fs d q) = IQ_ErrorResult q (Some item_not_found) \<or> (\<exists>i. fst (handleInfo grow fs d q) = IQ_Result q [discoInfoNode i])"
  "handleItems d q = IQ_ErrorResult q (Some item_not_found) \<or> (\<exists>i. handleItems d q = IQ_Result q [discoItemsNode i])"
  by (auto simp: handleInfo_def handleItems_def split: option.splits prod.splits)

lemma answers_built:
  "list_all (\<lambda>n. normal n \<and> Local (Name n) \<noteq> ''error'') [discoInfoNode i]" "list_all (\<lambda>n. normal n \<and> Local (Name n) \<noteq> ''error'') [discoItemsNode j]"
  "list_all (\<lambda>n. normal n \<and> Local (Name n) \<noteq> ''error'') [versionNode v]" "list_all (\<lambda>n. normal n \<and> Local (Name n) \<noteq> ''error'') [timeNode t]"
  using disco_info_codec.encode_built[of i] disco_items_codec.encode_built[of j] utility_nodes_built
  by (simp_all add: well_built_def discoInfoNode_def discoItemsNode_def versionNode_def timeNode_def)

lemma serves_shape:
  assumes "serves su v m q r"
  obtains "r = IQ_ErrorResult q (Some item_not_found)"
  | ns where "r = IQ_Result q ns" "list_all (\<lambda>n. normal n \<and> Local (Name n) \<noteq> ''error'') ns"
proof -
  consider "r = Ping_handler q" | "r = Version_handler v q" | "r = EntityTime_handler (su_clock su) q"
    | d where "r = fst (handleInfo (su_grow su) (su_features su) d q)" | d where "r = handleItems d q"
    using assms by (cases m) auto
  then show thesis
  proof cases
    case 1
    then show thesis using that(2)[of "[]"] by (simp add: Ping_handler_def)
  next
    case 2
    then show thesis using that(2)[OF _ answers_built(3)] by (simp add: Version_handler_def)
  next
    case 3
    then show thesis using that(2)[OF _ answers_built(4)] by (simp add: EntityTime_handler_def)
  next
    case (4 d)
    then show thesis using that(1) that(2)[OF _ answers_built(1)] disco_answers(1) by metis
  next
    case (5 d)
    then show thesis using that(1) that(2)[OF _ answers_built(2)] disco_answers(2) by metis
  qed
qed

lemma serves_sendable: "serves su v m q r \<Longrightarrow> answerable q \<Longrightarrow> sendable_stanza d (SIQ r)"
  by (elim serves_shape) (use sendable_not_found sendable_result in blast)+

lemma serves_addressed:
  "serves su v m q r \<Longrightarrow> iq_ID r = iq_ID q \<and> iq_To r = iq_From q \<and> iq_From r = iq_To q \<and> iq_Type r \<in> {IQResult, IQError}"
  by (elim serves_shape) (simp_all add: IQ_Result_def IQ_ErrorResult_def)

subsection \<open>One callback\<close>

lemma call_receipts_grown:
  assumes "ready w"
  obtains w' os where "call_receipts env m w = (None, w')" "grown w os w'" "acks (ss_autoAck w) m os"
proof (cases "Receipts_handle (ss_autoAck w) (fst (session_NextID w)) m")
  case (ReceiptEvent i)
  then have "\<not> wants_ack (ss_autoAck w) m" by (auto simp: Receipts_handle_def wants_ack_def split: option.splits if_splits)
  then show thesis using that[of w "[]"] assms ReceiptEvent by (simp add: call_receipts_def acks_def grown_refl)
next
  case NoReceipt
  then have "\<not> wants_ack (ss_autoAck w) m" by (auto simp: Receipts_handle_def wants_ack_def split: option.splits if_splits)
  then show thesis using that[of w "[]"] assms NoReceipt by (simp add: call_receipts_def acks_def grown_refl)
next
  case (ReceiptAck ack)
  then have ack: "wants_ack (ss_autoAck w) m" "ack = (ReceiptMessage (msg_From m) (msg_ID m))\<lparr>msg_ID := fst (session_NextID w)\<rparr>"
    by (auto simp: Receipts_handle_def wants_ack_def split: option.splits if_splits)
  have next_id: "grown w [] (snd (session_NextID w))" by (rule session_NextID_grown[OF assms])
  have "sendable_stanza [] (SMessage ack)"
    by (simp add: ack(2) ReceiptMessage_def sendable_def message0_def id_node_def normal_SetAttr normal_NewNode)
  from session_Send_grown[OF grown_ready[OF next_id] this] obtain w'
    where w': "session_Send env (SMessage ack) (snd (session_NextID w)) = (None, w')" "grown (snd (session_NextID w)) [SMessage ack] w'"
    by blast
  have "grown w [SMessage ack] w'" using grown_trans[OF next_id w'(2)] by simp
  then show thesis using that[of w' "[SMessage ack]"] w'(1) ReceiptAck ack by (auto simp: call_receipts_def acks_def)
qed

lemma plugin_call_grown:
  assumes "ready w" "m \<in> set request_methods" "answerable q"
  obtains w' r where "plugin_call env su m h (SIQ q) w = (None, w')" "grown w [SIQ r] w'" "serves su (ss_version w) m q r"
proof -
  have send: "\<exists>w'. session_Send env (SIQ r) w = (None, w') \<and> grown w [SIQ r] w'" if "serves su (ss_version w) m q r" for r
    using session_Send_grown[OF assms(1) serves_sendable[OF that assms(3)]] by metis
  show thesis
  proof (cases "m = Call_Disco_handleInfo")
    case True
    obtain r d where a: "handleInfo (su_grow su) (su_features su) (ss_disco w) q = (r, d)" by fastforce
    let ?w = "w\<lparr>ss_disco := d\<rparr>"
    have s: "serves su (ss_version w) m q r" using a True by (auto intro: exI[of _ "ss_disco w"])
    have "grown w [] ?w" using assms(1) by (simp add: grown_def ready_def all_subs_def subs_of_def)
    moreover obtain w' where "session_Send env (SIQ r) ?w = (None, w')" "grown ?w [SIQ r] w'"
      using session_Send_grown[OF grown_ready[OF calculation] serves_sendable[OF s assms(3)]] by metis
    ultimately show thesis
      using that[OF _ _ s, of w'] grown_trans[of w "[]" ?w "[SIQ r]" w'] a True
      by (simp add: plugin_call_def with_iq_def call_info_def)
  next
    case False
    then consider "m = Call_Disco_handleItems" | "m = Call_Version_reply" | "m = Call_Ping_reply" | "m = Call_EntityTime_reply"
      using assms(2) by (auto simp: request_methods_def)
    then show thesis
      using send that by cases (fastforce simp: plugin_call_def with_iq_def)+
  qed
qed

subsection \<open>One stanza\<close>

definition default_methods :: "plugin_method list" where
  "default_methods = Call_Receipts_handle # request_methods"

text \<open>The handlers after \<^verbatim>\<open>LoadDefaults\<close>: one for each of these methods, with its matcher.\<close>

definition default_handlers :: "handler list \<Rightarrow> bool" where
  "default_handlers hs \<longleftrightarrow> (\<forall>h\<in>set hs. typed_handler h) \<and> distinct (map (\<lambda>h. method_of (h_Callback h)) hs)
     \<and> (\<lambda>h. method_of (h_Callback h)) ` set hs = Some ` set default_methods"

text \<open>What the plugins write for a stanza: to a request one answer for each service it names.\<close>

fun responds :: "surroundings \<Rightarrow> version_info \<Rightarrow> bool \<Rightarrow> stanza \<Rightarrow> stanza list \<Rightarrow> bool" where
  "responds su v autoAck (SMessage m) os \<longleftrightarrow> acks autoAck m os"
| "responds su v autoAck (SPresence p) os \<longleftrightarrow> os = []"
| "responds su v autoAck (SIQ q) os \<longleftrightarrow>
     (\<exists>ms rs. os = map SIQ rs \<and> distinct ms \<and> list_all2 (\<lambda>m r. serves su v m q r) ms rs
        \<and> set ms = {m \<in> set request_methods. callback_matcher [] m (Some (SIQ q))})"

lemma filter_unique:
  assumes "distinct (map f xs)" "c \<in> f ` set xs"
  shows "\<exists>x. filter (\<lambda>x. f x = c) xs = [x] \<and> f x = c \<and> x \<in> set xs"
  using assms
proof (induction xs)
  case (Cons x xs)
  show ?case
  proof (cases "f x = c")
    case True
    then have "filter (\<lambda>x. f x = c) xs = []" using Cons.prems(1) by (auto simp: filter_empty_conv) (metis image_eqI)
    then show ?thesis using True by simp
  next
    case False
    then show ?thesis using Cons by auto
  qed
qed simp

lemma turn_typed:
  assumes "typed_handler h" "method_of (h_Callback h) = Some m" "plugin_call env su m h st w = (None, w')"
  shows "handler_turn (with_plugins su env) st h w = w'"
  using assms by (simp add: handler_turn_def typed_handler_def with_plugins_def reportError_def Let_def)

lemma accepts_typed:
  "typed_handler h \<Longrightarrow> method_of (h_Callback h) = Some m \<Longrightarrow> accepts st h \<longleftrightarrow> callback_matcher (h_Name h) m (Some st)"
  by (simp add: typed_handler_def accepts_def)

lemma default_method_cases:
  assumes "default_handlers hs" "h \<in> set hs"
  obtains m where "method_of (h_Callback h) = Some m" "m \<in> set default_methods" "typed_handler h"
proof -
  have "method_of (h_Callback h) \<in> Some ` set default_methods" using assms unfolding default_handlers_def by blast
  then show thesis using that assms unfolding default_handlers_def by blast
qed

lemma turns_requests:
  assumes "ready w" "answerable q" "\<forall>h\<in>set hs. typed_handler h \<and> (\<exists>m\<in>set request_methods. method_of (h_Callback h) = Some m)"
  shows "\<exists>rs. grown w (map SIQ rs) (fold (handler_turn (with_plugins su env) (SIQ q)) hs w)
     \<and> list_all2 (\<lambda>h r. serves su (ss_version w) (the (method_of (h_Callback h))) q r) hs rs"
  using assms(1,3)
proof (induction hs arbitrary: w)
  case Nil
  then show ?case by (auto simp: grown_refl intro!: exI[of _ "[]"])
next
  case (Cons h hs)
  obtain m where m: "typed_handler h" "m \<in> set request_methods" "method_of (h_Callback h) = Some m" using Cons.prems(2) by auto
  obtain w1 r where w1: "plugin_call env su m h (SIQ q) w = (None, w1)" "grown w [SIQ r] w1" "serves su (ss_version w) m q r"
    by (rule plugin_call_grown[OF Cons.prems(1) m(2) assms(2)])
  have v: "ss_version w1 = ss_version w" using w1(2) by (simp add: grown_def)
  obtain rs where rs: "grown w1 (map SIQ rs) (fold (handler_turn (with_plugins su env) (SIQ q)) hs w1)"
      "list_all2 (\<lambda>h r. serves su (ss_version w) (the (method_of (h_Callback h))) q r) hs rs"
    using Cons.IH[OF grown_ready[OF w1(2)]] Cons.prems(2) v by auto
  have "grown w (map SIQ (r # rs)) (fold (handler_turn (with_plugins su env) (SIQ q)) (h # hs) w)"
    using grown_trans[OF w1(2) rs(1)] turn_typed[OF m(1,3) w1(1)] by simp
  then show ?case using rs(2) w1(3) m(3) by (intro exI[of _ "r # rs"]) simp
qed

lemma default_accepts:
  assumes "method_of (h_Callback h) = Some m" "m \<in> set default_methods" "typed_handler h"
  shows "accepts (SMessage x) h \<longleftrightarrow> m = Call_Receipts_handle" "\<not> accepts (SPresence p) h"
    "accepts (SIQ q) h \<longleftrightarrow> m \<in> set request_methods \<and> callback_matcher [] m (Some (SIQ q))"
  using assms by (auto simp: accepts_typed default_methods_def request_methods_def MatchKind_def)

lemma loop_message:
  assumes "ready w" "default_handlers (hr_handlers w)"
  shows "\<exists>os. grown w os (dispatch_loop (with_plugins su env) (SMessage m) (hr_handlers w) w) \<and> acks (ss_autoAck w) m os"
proof -
  let ?hs = "hr_handlers w" and ?f = "\<lambda>h. method_of (h_Callback h)"
  have "accepts (SMessage m) h \<longleftrightarrow> ?f h = Some Call_Receipts_handle" if "h \<in> set ?hs" for h
    using default_method_cases[OF assms(2) that] default_accepts(1) by (metis option.inject)
  then have "filter (accepts (SMessage m)) ?hs = filter (\<lambda>h. ?f h = Some Call_Receipts_handle) ?hs"
    by (intro filter_cong) simp_all
  moreover have "distinct (map ?f ?hs)" "Some Call_Receipts_handle \<in> ?f ` set ?hs"
    using assms(2) by (simp_all add: default_handlers_def default_methods_def)
  ultimately obtain h where h: "filter (accepts (SMessage m)) ?hs = [h]" "?f h = Some Call_Receipts_handle" "h \<in> set ?hs"
    using filter_unique[of ?f ?hs] by metis
  obtain w' os where w': "call_receipts env m w = (None, w')" "grown w os w'" "acks (ss_autoAck w) m os"
    by (rule call_receipts_grown[OF assms(1)])
  have "handler_turn (with_plugins su env) (SMessage m) h w = w'"
    by (rule turn_typed[OF _ h(2)]) (use h(3) assms(2) w'(1) in \<open>auto simp: default_handlers_def plugin_call_def\<close>)
  then show ?thesis using w' h(1) by (auto simp: dispatch_loop_fold)
qed

lemma loop_presence:
  assumes "default_handlers hs"
  shows "dispatch_loop env (SPresence p) hs w = w"
proof -
  have "filter (accepts (SPresence p)) hs = []"
    using default_method_cases[OF assms] default_accepts(2) by (metis filter_empty_conv)
  then show ?thesis by (simp add: dispatch_loop_fold)
qed

lemma loop_request:
  assumes "ready w" "default_handlers (hr_handlers w)" "answerable q"
  shows "\<exists>os. grown w os (dispatch_loop (with_plugins su env) (SIQ q) (hr_handlers w) w)
     \<and> responds su (ss_version w) (ss_autoAck w) (SIQ q) os"
proof -
  let ?hs = "filter (accepts (SIQ q)) (hr_handlers w)" and ?f = "\<lambda>h. method_of (h_Callback h)"
  let ?ok = "{m \<in> set request_methods. callback_matcher [] m (Some (SIQ q))}"
  have mem: "accepts (SIQ q) h \<longleftrightarrow> ?f h \<in> Some ` ?ok" if "h \<in> set (hr_handlers w)" for h
    using default_method_cases[OF assms(2) that] default_accepts(3) by (smt (verit) image_iff mem_Collect_eq option.inject)
  have typed: "\<forall>h\<in>set ?hs. typed_handler h \<and> (\<exists>m\<in>set request_methods. ?f h = Some m)"
    using mem assms(2) by (auto simp: default_handlers_def)
  obtain rs where rs: "grown w (map SIQ rs) (fold (handler_turn (with_plugins su env) (SIQ q)) ?hs w)"
      "list_all2 (\<lambda>h r. serves su (ss_version w) (the (?f h)) q r) ?hs rs"
    using turns_requests[OF assms(1,3) typed] by blast
  have img: "?f ` set ?hs = Some ` ?ok"
  proof
    have "Some m \<in> ?f ` set (hr_handlers w)" if "m \<in> set request_methods" for m
      using assms(2) that by (simp add: default_handlers_def default_methods_def)
    then show "Some ` ?ok \<subseteq> ?f ` set ?hs" using mem by fastforce
  qed (use mem in auto)
  let ?ms = "map (the \<circ> ?f) ?hs"
  have "map Some ?ms = map ?f ?hs" using typed by auto
  moreover have "distinct (map ?f ?hs)" using assms(2) by (simp add: default_handlers_def List.distinct_map_filter)
  ultimately have "distinct ?ms" by (metis distinct_map)
  moreover have "set ?ms = ?ok"
  proof -
    have "set ?ms = the ` ?f ` set ?hs" by (simp only: set_map image_comp)
    also have "\<dots> = ?ok" by (simp only: img image_image option.sel image_ident)
    finally show ?thesis .
  qed
  moreover have "list_all2 (\<lambda>m r. serves su (ss_version w) m q r) ?ms rs" using rs(2) by (simp add: list_all2_map1)
  ultimately have "responds su (ss_version w) (ss_autoAck w) (SIQ q) (map SIQ rs)"
    unfolding responds.simps by (intro exI[of _ ?ms] exI[of _ rs]) blast
  then show ?thesis using rs(1) by (auto simp: dispatch_loop_fold)
qed

lemma loop_responds:
  assumes "ready w" "default_handlers (hr_handlers w)" "\<And>q. st = SIQ q \<Longrightarrow> answerable q"
  shows "\<exists>os. grown w os (dispatch_loop (with_plugins su env) st (hr_handlers w) w) \<and> responds su (ss_version w) (ss_autoAck w) st os"
proof (cases st)
  case (SMessage m)
  then show ?thesis using loop_message[OF assms(1,2)] by simp
next
  case (SPresence p)
  then show ?thesis using grown_refl[OF assms(1)] by (simp add: loop_presence[OF assms(2)])
next
  case (SIQ q)
  then show ?thesis using loop_request[OF assms(1,2)] assms(3) by simp
qed

subsection \<open>A whole conversation\<close>

text \<open>
  What the application's message hook writes for a message is described by \<open>talks\<close>; the answers to a stanza
  are what the handlers respond and, for a message, what the hook says after them.
\<close>

definition hook_talks :: "session_env \<Rightarrow> (message \<Rightarrow> stanza list \<Rightarrow> bool) \<Rightarrow> bool" where
  "hook_talks env talks \<longleftrightarrow> de_OnPresence env = None \<and> de_OnIQ env = None
     \<and> (\<forall>m w. ready w \<longrightarrow> (\<exists>os. grown w os (call_hook (de_OnMessage env) m w) \<and> talks m os))"

definition answered :: "(stanza \<Rightarrow> stanza list \<Rightarrow> bool) \<Rightarrow> (message \<Rightarrow> stanza list \<Rightarrow> bool) \<Rightarrow> stanza \<Rightarrow> stanza list \<Rightarrow> bool" where
  "answered resp talks st os \<longleftrightarrow>
     (\<exists>os1 os2. os = os1 @ os2 \<and> resp st os1 \<and> (case st of SMessage m \<Rightarrow> talks m os2 | _ \<Rightarrow> os2 = []))"

lemma with_plugins_hooks [simp]: "hook_talks (with_plugins su env) talks \<longleftrightarrow> hook_talks env talks"
  by (simp add: hook_talks_def with_plugins_def)

lemma normal_wire: "normal n \<Longrightarrow> normal (wire d n)" "normal_part p \<Longrightarrow> normal_part (wire_part d p)"
proof (induction n and p arbitrary: d and d rule: normal_normal_part.induct)
  case (1 nm as ps)
  then show ?case by (auto simp: Let_def list_all_iff)
qed simp_all

lemma answerable_received: "sendable_stanza d (SIQ q) \<Longrightarrow> answerable (received_iq d q)"
  by (auto simp: answerable_def received_iq_def sendable_def list_all_iff normal_wire)

lemma serve_stanza:
  assumes "sendable_stanza d s"
  obtains ts where "StanzaXML s = Inr ts" "\<And>us. transmit [d] (ts @ us) = transmit [d] ts @ transmit [d] us"
    and "\<And>env fin rest w. cn_open (ss_conn w) \<Longrightarrow>
      serve env fin (transmit [d] ts @ rest) w = serve env fin rest (perform env (Deliver (received d s)) w)"
proof -
  obtain ts n where r: "StanzaXML s = Inr ts" "read_body n = (Deliver (received d s), True)"
      "\<And>fin rest. read_top fin (transmit [d] ts @ rest) = (Inr n, rest)"
      "\<And>us. transmit [d] (ts @ us) = transmit [d] ts @ transmit [d] us"
    using read_stanza[OF assms] by metis
  have "serve env fin (transmit [d] ts @ rest) w = serve env fin rest (perform env (Deliver (received d s)) w)"
    if "cn_open (ss_conn w)" for env fin rest w
    using that r(2,3) by (subst serve.simps) (simp del: perform.simps)
  then show thesis using that r(1,4) by blast
qed

text \<open>
  The interface between the read loop and the registered handlers: with handlers that are \<open>good\<close>, the
  dispatch loop writes \<open>resp\<close> and nothing else.
\<close>

locale service =
  fixes env :: session_env and good :: "handler list \<Rightarrow> bool"
    and resp :: "version_info \<Rightarrow> bool \<Rightarrow> stanza \<Rightarrow> stanza list \<Rightarrow> bool"
  assumes loop: "ready w \<Longrightarrow> good (hr_handlers w) \<Longrightarrow> (\<And>q. st = SIQ q \<Longrightarrow> answerable q) \<Longrightarrow>
    \<exists>os. grown w os (dispatch_loop env st (hr_handlers w) w) \<and> resp (ss_version w) (ss_autoAck w) st os"
begin

lemma dispatch_answers:
  assumes w: "ready w" "good (hr_handlers w)" "\<And>q. st = SIQ q \<Longrightarrow> answerable q" and hook: "hook_talks env talks"
  shows "\<exists>os. grown w os (dispatchStanza env st w) \<and> answered (resp (ss_version w) (ss_autoAck w)) talks st os"
proof -
  obtain os1 where os1: "grown w os1 (dispatch_loop env st (hr_handlers w) w)" "resp (ss_version w) (ss_autoAck w) st os1"
    using loop[OF w(1,2), of st] w(3) by blast
  define w1 where "w1 = dispatch_loop env st (hr_handlers w) w"
  have r1: "ready w1" using os1(1) by (simp add: w1_def grown_ready)
  have "\<exists>os2. grown w1 os2 (dispatch_kind env st w1) \<and> (case st of SMessage m \<Rightarrow> talks m os2 | _ \<Rightarrow> os2 = [])"
  proof (cases st)
    case (SMessage m)
    obtain os2 where "grown w1 os2 (call_hook (de_OnMessage env) m w1)" "talks m os2"
      using hook r1 unfolding hook_talks_def by blast
    then show ?thesis using SMessage grown_ready by (auto simp: Let_def)
  qed (use hook r1 in \<open>auto simp: hook_talks_def call_hook_def grown_refl Let_def\<close>)
  then obtain os2 where os2: "grown w1 os2 (dispatch_kind env st w1)" "case st of SMessage m \<Rightarrow> talks m os2 | _ \<Rightarrow> os2 = []"
    by blast
  have "dispatchStanza env st w = dispatch_kind env st w1"
    using w(1) r1 by (simp add: dispatchStanza_def w1_def Let_def)
  then show ?thesis using grown_trans[OF os1(1)[folded w1_def] os2(1)] os1(2) os2(2) unfolding answered_def by metis
qed

lemma perform_deliver:
  assumes "ready w" "good (hr_handlers w)" "sendable_stanza d s" "hook_talks env talks"
  shows "\<exists>os. grown w os (perform env (Deliver (received d s)) w)
     \<and> answered (resp (ss_version w) (ss_autoAck w)) talks (received d s) os"
proof -
  let ?w = "route (received d s) w"
  have "ready ?w" "hr_handlers ?w = hr_handlers w" "ss_version ?w = ss_version w" "ss_autoAck ?w = ss_autoAck w"
      "ss_conn ?w = ss_conn w"
    using assms(1) by (auto simp: route_def ready_def all_subs_def subs_of_def split: stanza.splits)
  moreover have "answerable q" if "received d s = SIQ q" for q
    using that assms(3) answerable_received by (cases s) auto
  ultimately show ?thesis
    using dispatch_answers[of ?w "received d s" talks] assms(2,4) by (simp add: grown_def)
qed

lemma conversation:
  assumes "ready w" "good (hr_handlers w)" "\<forall>s\<in>set ss. sendable_stanza d s" "hook_talks env talks" "read_end fin = []"
  shows "\<exists>tss oss. map_result StanzaXML ss = Inr tss
     \<and> grown w (concat oss) (serve env fin (transmit [d] (concat tss)) w)
     \<and> list_all2 (answered (resp (ss_version w) (ss_autoAck w)) talks) (map (received d) ss) oss"
  using assms(1-3)
proof (induction ss arbitrary: w)
  case Nil
  have "serve env fin [] w = w"
    using Nil.prems(1) assms(5) by (subst serve.simps) (simp add: ready_def)
  then show ?case using Nil.prems(1) by (auto simp: grown_refl intro!: exI[of _ "[]"])
next
  case (Cons s ss)
  let ?w1 = "perform env (Deliver (received d s)) w"
  obtain os where os: "grown w os ?w1" "answered (resp (ss_version w) (ss_autoAck w)) talks (received d s) os"
    using perform_deliver[OF Cons.prems(1,2) _ assms(4)] Cons.prems(3) by force
  have same: "hr_handlers ?w1 = hr_handlers w" "ss_version ?w1 = ss_version w" "ss_autoAck ?w1 = ss_autoAck w"
    using os(1) by (simp_all add: grown_def del: perform.simps)
  obtain tss oss where IH: "map_result StanzaXML ss = Inr tss"
      "grown ?w1 (concat oss) (serve env fin (transmit [d] (concat tss)) ?w1)"
      "list_all2 (answered (resp (ss_version w) (ss_autoAck w)) talks) (map (received d) ss) oss"
    using Cons.IH[OF grown_ready[OF os(1)]] Cons.prems(2,3) same by (auto simp del: perform.simps)
  obtain ts where ts: "StanzaXML s = Inr ts" "\<And>us. transmit [d] (ts @ us) = transmit [d] ts @ transmit [d] us"
      "\<And>rest. serve env fin (transmit [d] ts @ rest) w = serve env fin rest ?w1"
    using serve_stanza[of d s] Cons.prems(1,3) by (metis list.set_intros(1) ready_def)
  have "grown w (concat (os # oss)) (serve env fin (transmit [d] (concat (ts # tss))) w)"
    using grown_trans[OF os(1) IH(2)] ts(2,3) by (simp del: perform.simps)
  then show ?case using IH(1,3) os(2) ts(1) by (intro exI[of _ "ts # tss"] exI[of _ "os # oss"]) simp
qed

end

text \<open>The default plugins are such a service, and so is a client without plugins, which writes nothing.\<close>

interpretation default_service: service "with_plugins su env" default_handlers "responds su" for su env
  by unfold_locales (rule loop_responds)

interpretation bare_service: service env "\<lambda>hs. hs = []" "\<lambda>_ _ _ os. os = []" for env
  by unfold_locales (simp add: grown_refl)

subsection \<open>After \<^verbatim>\<open>LoadDefaults\<close>\<close>

definition default_numbers :: "nat list" where
  "default_numbers = [4, 30, 59, 92, 184, 199, 202, 203, 334, 359, 380]"

definition default_kinds :: "plugin_kind set" where
  "default_kinds = {KDisco, KReceipts, KVersion, KPing, KEntityTime}"

lemma default_dependencies:
  "list_all (\<lambda>n. case map_of all_init n of
     Some (OwnType p) \<Rightarrow> list_all (\<lambda>d. d = ''xep_0004'' \<or> d = ''xep_0059'') (p_Dependencies p) | _ \<Rightarrow> True) default_numbers"
  by code_simp

lemma default_codes:
  "list_all (\<lambda>(c, k). c \<in> set default_numbers \<longrightarrow> List.member [KDisco, KReceipts, KVersion, KPing, KEntityTime] k) kind_codes"
  by code_simp

lemma closed_defaults: "closed_numbers (set default_numbers)"
proof -
  have "set (p_Dependencies (plugin_of d)) \<subseteq> {''xep_0004'', ''xep_0059''}" if "d_Number d \<in> set default_numbers" for d
    using bspec[OF default_dependencies[unfolded list_all_iff] that]
    by (auto simp: plugin_of_def specialized_table(2) staticPlugin_def GenericPlugin_def xep_plugin_def list_all_iff Let_def
        split: option.splits xep_factory.splits)
  moreover have "xep_name 4 = ''xep_0004''" "xep_name 59 = ''xep_0059''" by code_simp+
  then have "{''xep_0004'', ''xep_0059''} \<subseteq> xep_name ` set default_numbers" by (force simp: default_numbers_def)
  moreover have "set default_numbers \<subseteq> set catalog_numbers" by (simp add: default_numbers_def catalog_numbers_def catalog_titles_def)
  ultimately show ?thesis unfolding closed_numbers_def by blast
qed

lemma default_live:
  assumes inv: "wired_inv backend publish m" and low: "xep_name ` set [4, 30, 92, 184, 199, 202, 203, 334, 359, 380] \<subseteq> dom (pm_loaded m)"
    and high: "dom (pm_loaded m) \<subseteq> xep_name ` set default_numbers"
  shows "live_kinds m = default_kinds"
proof -
  have cat: "set default_numbers \<subseteq> set catalog_numbers" using closed_defaults by (simp add: closed_numbers_def)
  have up: "numbers_loaded m \<subseteq> set default_numbers"
    using high cat xep_name_inj catalog_numbers_facts(3) unfolding numbers_loaded_def by blast
  have loaded: "n \<in> numbers_loaded m" if "n \<in> set [30, 92, 184, 199, 202]" for n
    using that low cat unfolding numbers_loaded_def default_numbers_def by (intro CollectI conjI) fastforce+
  have codes: "(30, KDisco) \<in> set kind_codes" "(92, KVersion) \<in> set kind_codes" "(184, KReceipts) \<in> set kind_codes"
      "(199, KPing) \<in> set kind_codes" "(202, KEntityTime) \<in> set kind_codes"
    by (simp_all add: kind_codes_def)
  have "live_kinds m \<subseteq> default_kinds"
    using up bspec[OF default_codes[unfolded list_all_iff]] unfolding live_kinds_numbers[OF inv] default_kinds_def by fastforce
  moreover have "k \<in> live_kinds m" if "k \<in> default_kinds" for k
    using that codes loaded unfolding live_kinds_numbers[OF inv] default_kinds_def by fastforce
  ultimately show ?thesis by blast
qed

text \<open>In the tables of these plugins a method occurs once.\<close>

lemma default_tables:
  assumes "k \<in> default_kinds"
  shows "plugin_events publish k = []" "x \<in> set (described (plugin_callbacks k)) \<Longrightarrow> \<exists>m\<in>set default_methods. snd x = Some m"
    "x \<in> set (described (plugin_callbacks k)) \<Longrightarrow> y \<in> set (described (plugin_callbacks k)) \<Longrightarrow> snd x = snd y \<Longrightarrow> x = y"
  using assms by (auto simp: default_kinds_def described_def default_methods_def request_methods_def)

lemma default_method_table:
  "m \<in> set default_methods \<Longrightarrow> method_kind m \<in> default_kinds \<and> (\<exists>n. (n, Some m) \<in> set (described (plugin_callbacks (method_kind m))))"
  by (auto simp: default_kinds_def described_def default_methods_def request_methods_def)

lemma default_registered:
  assumes life: "plugin_life publish w objs default_kinds" and only: "only_plugins w"
  shows "default_handlers (hr_handlers w)" "all_subs w = {}"
proof -
  note inv = life_invariant[OF life]
  let ?f = "\<lambda>h. method_of (h_Callback h)" and ?hs = "hr_handlers w"
  have owner: "method_owner c = Some (method_kind m)" if "method_of c = Some m" for c m using that by (simp add: method_owner_def)
  have reg: "bij_betw handler_desc {h \<in> set ?hs. method_owner (h_Callback h) = Some k}
      (if k \<in> default_kinds then set (described (plugin_callbacks k)) else {})" for k
    by (rule life_registered(1)[OF life])
  have desc: "handler_desc h \<in> set (described (plugin_callbacks (method_kind m))) \<and> method_kind m \<in> default_kinds"
    if "h \<in> set ?hs" "?f h = Some m" for h m
    using bij_betwE[OF reg[of "method_kind m"]] owner[OF that(2)] that(1) by (auto split: if_splits)
  have snd_desc: "snd (handler_desc h) = ?f h" for h by (simp add: handler_desc_def)
  have inj: "h = h'" if h: "h \<in> set ?hs" "h' \<in> set ?hs" "?f h = ?f h'" for h h'
  proof -
    obtain m where m: "?f h = Some m" using only h(1) by (auto simp: only_plugins_def)
    have "handler_desc h = handler_desc h'"
      using default_tables(3) desc[OF h(1) m] desc[OF h(2)] h(3) m snd_desc by metis
    then show ?thesis
      using bij_betw_imp_inj_on[OF reg[of "method_kind m"]] owner[of _ m] h m by (auto simp: inj_on_def)
  qed
  show "default_handlers ?hs"
    unfolding default_handlers_def
  proof (intro conjI)
    show "\<forall>h\<in>set ?hs. typed_handler h" using life_invD(4)[OF inv] by blast
    have "distinct ?hs" using life_invD(1)[OF inv] by (auto simp: handlers.registry_inv_def distinct_map)
    then show "distinct (map ?f ?hs)" using inj by (auto simp: distinct_map inj_on_def)
    show "?f ` set ?hs = Some ` set default_methods"
    proof (intro equalityI subsetI)
      fix x assume "x \<in> ?f ` set ?hs"
      then obtain h m where h: "h \<in> set ?hs" "x = ?f h" "?f h = Some m" using only by (auto simp: only_plugins_def)
      then show "x \<in> Some ` set default_methods" using default_tables(2) desc[OF h(1,3)] snd_desc by (metis image_eqI)
    next
      fix x assume "x \<in> Some ` set default_methods"
      then obtain m where m: "x = Some m" "m \<in> set default_methods" by blast
      then obtain n where "(n, Some m) \<in> set (described (plugin_callbacks (method_kind m)))" "method_kind m \<in> default_kinds"
        using default_method_table by blast
      then obtain h where "h \<in> set ?hs" "handler_desc h = (n, Some m)"
        using bij_betw_imp_surj_on[OF reg[of "method_kind m"]] by (auto simp: image_iff) (metis (mono_tags, lifting) mem_Collect_eq imageE)
      then show "x \<in> ?f ` set ?hs" using m(1) snd_desc by (metis image_eqI snd_conv)
    qed
  qed
  have "method_of (sub_handler s) = None" if "s \<in> all_subs w" for s
  proof (rule ccontr)
    assume "method_of (sub_handler s) \<noteq> None"
    then obtain m where "method_owner (sub_handler s) = Some (method_kind m)" using owner by auto
    then show False
      using bij_betwE[OF life_registered(2)[OF life, of "method_kind m"]] that default_tables(1) by (auto simp: described_def split: if_splits)
  qed
  then show "all_subs w = {}" using only by (auto simp: only_plugins_def)
qed

end
