(* ===== verification/Programs.thy ===== *)
theory Programs
  imports Session
begin

text \<open>
  The programs under \<^verbatim>\<open>src/examples\<close> that talk over a connection. A \<^verbatim>\<open>main\<close> checks its flags, builds
  the configuration, creates the client, loads plugins, sets the callbacks and connects; it
  ends in one of the ways of \<open>program\<close>, or its client is running. The parsed flags are an argument,
  and the log is not modelled. Afterwards the read loop of \<open>Session\<close> serves the connection with the
  callbacks of the program in place.
\<close>

datatype 'a program =
    Usage
  | Fatal go_error
  | Panic go_error
  | Running 'a

text \<open>\<^verbatim>\<open>logger.Fatal(err)\<close> after a failed step; \<open>None\<close> is a loading that exceeds its nesting depth.\<close>

definition or_fatal :: "'a result \<Rightarrow> ('a \<Rightarrow> 'b program option) \<Rightarrow> 'b program option" where
  "or_fatal r f = (case r of Inl e \<Rightarrow> Some (Fatal e) | Inr x \<Rightarrow> f x)"

definition register_all :: "client \<Rightarrow> (wired \<Rightarrow> 'b program option) \<Rightarrow> 'b program option" where
  "register_all c f =
     (case RegisterAll (Some (wire_client c)) of
        (Some e, _) \<Rightarrow> Some (Fatal e)
      | (None, Some m) \<Rightarrow> f m
      | (None, None) \<Rightarrow> None)"

definition connect :: "connect_env \<Rightarrow> client \<Rightarrow> conn \<Rightarrow> conn result" where
  "connect env c s =
     (case Connect env (cl_cfg c) (s\<lparr>cn_jid := cl_jid c\<rparr>) of (Inl e, _) \<Rightarrow> Inl e | (Inr _, s') \<Rightarrow> Inr s')"

text \<open>The plugins' data when their factories made them and \<^verbatim>\<open>Init\<close> ran.\<close>

definition start_session :: "life_state \<Rightarrow> conn \<Rightarrow> session" where
  "start_session l c =
     life_state.extend l
       \<lparr>ss_conn = c, ss_disco = Disco_Init NewDisco, ss_version = Version_Init \<lparr>vi_Name = [], vi_Version = [], vi_OS = []\<rparr>,
        ss_autoAck = True, ss_iqs = iq_state0\<rparr>"

text \<open>The callbacks of a program: a message hook, an error hook that only logs.\<close>

definition program_env :: "session_env \<Rightarrow> (session_env \<Rightarrow> message \<Rightarrow> session \<Rightarrow> session) \<Rightarrow> session_env" where
  "program_env env hook =
     env\<lparr>de_OnMessage := Some (hook env), de_OnPresence := None, de_OnIQ := None, de_OnError := Some (\<lambda>_ w. w)\<rparr>"

text \<open>Sending a reply under a fresh identifier; an error is logged.\<close>

definition send_reply :: "session_env \<Rightarrow> message \<Rightarrow> session \<Rightarrow> session" where
  "send_reply env reply w =
     (case session_NextID w of (i, w') \<Rightarrow> snd (session_Send env (SMessage (reply\<lparr>msg_ID := i\<rparr>)) w'))"

subsection \<open>The echo client\<close>

record echo_flags =
  ef_jid :: string
  ef_password :: string
  ef_address :: string
  ef_resource :: string
  ef_directTLS :: bool
  ef_args :: "string list"

definition echo_jid :: "echo_flags \<Rightarrow> string" where
  "echo_jid f = (if ef_jid f = [] \<and> length (ef_args f) > 0 then ef_args f ! 0 else ef_jid f)"

definition echo_password :: "echo_flags \<Rightarrow> string" where
  "echo_password f = (if ef_password f = [] \<and> length (ef_args f) > 1 then ef_args f ! 1 else ef_password f)"

definition echo_config :: "echo_flags \<Rightarrow> config" where
  "echo_config f =
     (DefaultConfig (echo_jid f) (echo_password f))
       \<lparr>cfg_Resource := ef_resource f, cfg_Address := ef_address f, cfg_DirectTLS := ef_directTLS f\<rparr>"

definition echo_OnMessage :: "session_env \<Rightarrow> message \<Rightarrow> session \<Rightarrow> session" where
  "echo_OnMessage env m w =
     (if msg_Type m = MessageGroupChat \<or> msg_Type m = MessageErrorType \<or> msg_Body m = [] then w
      else send_reply env (Message_Reply m (msg_Body m)) w)"

definition echo_main :: "unicode \<Rightarrow> connect_env \<Rightarrow> echo_flags \<Rightarrow> conn \<Rightarrow> session program option" where
  "echo_main U env f s =
     (if echo_jid f = [] \<or> echo_password f = [] then Some Usage
      else or_fatal (NewClient U (echo_config f)) (\<lambda>c. register_all c (\<lambda>m.
        case LoadDefaults 6 (wired_env False False) m of
          None \<Rightarrow> None
        | Some (Some e, _) \<Rightarrow> Some (Fatal e)
        | Some (None, m') \<Rightarrow> or_fatal (connect env c s) (\<lambda>s'. Some (Running (start_session (wr_life m') s'))))))"

subsection \<open>The echo component\<close>

record component_flags =
  cf_jid :: string
  cf_secret :: string
  cf_address :: string
  cf_directTLS :: bool

definition component_config :: "component_flags \<Rightarrow> config" where
  "component_config f =
     (DefaultConfig (cf_jid f) [])
       \<lparr>cfg_ComponentSecret := cf_secret f, cfg_Address := cf_address f, cfg_DirectTLS := cf_directTLS f\<rparr>"

definition component_OnMessage :: "session_env \<Rightarrow> message \<Rightarrow> session \<Rightarrow> session" where
  "component_OnMessage env m w =
     (if msg_Body m = [] \<or> msg_Type m = MessageErrorType then w
      else send_reply env ((Message_Reply m (''component echo: '' @ msg_Body m))\<lparr>msg_From := msg_To m\<rparr>) w)"

definition component_main :: "unicode \<Rightarrow> connect_env \<Rightarrow> component_flags \<Rightarrow> conn \<Rightarrow> session program option" where
  "component_main U env f s =
     (if cf_jid f = [] \<or> cf_secret f = [] \<or> cf_address f = [] then Some Usage
      else or_fatal (NewClient U (component_config f)) (\<lambda>c. register_all c (\<lambda>m.
        or_fatal (connect env c s) (\<lambda>s'. Some (Running (start_session (wr_life m) s'))))))"

subsection \<open>What the replies are\<close>

lemma send_reply_grown:
  assumes "ready w" "msg_Extensions reply = []" "msg_Error reply = None"
  shows "\<exists>i. grown w [SMessage (reply\<lparr>msg_ID := i\<rparr>)] (send_reply env reply w)"
proof -
  let ?i = "fst (session_NextID w)" and ?w = "snd (session_NextID w)"
  have n: "grown w [] ?w" by (rule session_NextID_grown[OF assms(1)])
  have "sendable_stanza [] (SMessage (reply\<lparr>msg_ID := ?i\<rparr>))" using assms(2,3) by (simp add: sendable_def)
  then obtain w' where w': "session_Send env (SMessage (reply\<lparr>msg_ID := ?i\<rparr>)) ?w = (None, w')" "grown ?w [SMessage (reply\<lparr>msg_ID := ?i\<rparr>)] w'"
    using session_Send_grown[OF grown_ready[OF n]] by metis
  then show ?thesis using grown_trans[OF n w'(2)] by (auto simp: send_reply_def case_prod_beta)
qed

lemma reply_plain: "msg_Extensions (Message_Reply m b) = []" "msg_Error (Message_Reply m b) = None"
  by (simp_all add: Message_Reply_def message0_def Let_def)

definition echoes :: "message \<Rightarrow> stanza list \<Rightarrow> bool" where
  "echoes m os \<longleftrightarrow>
     (if msg_Type m = MessageGroupChat \<or> msg_Type m = MessageErrorType \<or> msg_Body m = [] then os = []
      else \<exists>i. os = [SMessage ((Message_Reply m (msg_Body m))\<lparr>msg_ID := i\<rparr>)])"

lemma echo_talks: "hook_talks (program_env env echo_OnMessage) echoes"
  using send_reply_grown reply_plain
  by (simp add: hook_talks_def program_env_def call_hook_def echo_OnMessage_def echoes_def grown_refl) metis

definition component_echoes :: "message \<Rightarrow> stanza list \<Rightarrow> bool" where
  "component_echoes m os \<longleftrightarrow>
     (if msg_Body m = [] \<or> msg_Type m = MessageErrorType then os = []
      else \<exists>i. os = [SMessage ((Message_Reply m (''component echo: '' @ msg_Body m))\<lparr>msg_From := msg_To m, msg_ID := i\<rparr>)])"

lemma component_talks: "hook_talks (program_env env component_OnMessage) component_echoes"
proof -
  have "\<exists>i. grown w [SMessage ((Message_Reply m b)\<lparr>msg_From := t, msg_ID := i\<rparr>)] (send_reply env ((Message_Reply m b)\<lparr>msg_From := t\<rparr>) w)"
    if "ready w" for m b t w
    using send_reply_grown[OF that, of "(Message_Reply m b)\<lparr>msg_From := t\<rparr>" env] reply_plain by simp
  then show ?thesis
    by (simp add: hook_talks_def program_env_def call_hook_def component_OnMessage_def component_echoes_def grown_refl) metis
qed

subsection \<open>Starting\<close>

lemma start_session_fields [simp]:
  "hr_handlers (start_session l c) = hr_handlers l" "ss_conn (start_session l c) = c" "all_subs (start_session l c) = all_subs l"
  "ss_autoAck (start_session l c)" "ss_version (start_session l c) = Version_Init \<lparr>vi_Name = [], vi_Version = [], vi_OS = []\<rparr>"
  by (simp_all add: start_session_def life_state.defs all_subs_def subs_of_def)

lemma registered:
  assumes "NewClient U cfg = Inr c"
  shows "register_all c f = f ((wire_client c)\<lparr>pm_factories := catalog_factories\<rparr>)"
  using RegisterAll_fresh(1)[OF wire_fresh(1)[OF assms]] by (simp add: register_all_def)

lemma defaults_loaded:
  assumes c: "NewClient U cfg = Inr c"
  obtains m where "LoadDefaults 6 (wired_env backend publish) ((wire_client c)\<lparr>pm_factories := catalog_factories\<rparr>) = Some (None, m)"
    "default_handlers (hr_handlers (wr_life m))" "all_subs (wr_life m) = {}"
proof -
  let ?m = "(wire_client c)\<lparr>pm_factories := catalog_factories\<rparr>" and ?env = "wired_env backend publish"
  let ?ns = "[4, 30, 92, 184, 199, 202, 203, 334, 359, 380]"
  have ns: "set ?ns \<subseteq> set default_numbers" by (simp add: default_numbers_def)
  then have "set ?ns \<subseteq> set catalog_numbers" using closed_defaults by (auto simp: closed_numbers_def)
  then obtain m where m: "load_numbers 6 ?env ?ns ?m = Some (None, m)" "pm_inv m" "wired_inv backend publish m"
      "xep_name ` set ?ns \<subseteq> dom (pm_loaded m)"
    by (rule wired_loading[OF c])
  have "bounded_inv backend publish (set default_numbers) ?m"
    using registered_inv[OF c, of backend publish] RegisterAll_fresh(3)[OF wire_fresh(1)[OF c]] by (simp add: bounded_inv_def)
  from load_numbers_bounded[OF closed_defaults ns RegisterAll_fresh(2)[OF wire_fresh(1)[OF c]] this m(1)]
  have "live_kinds m = default_kinds" by (rule default_live[OF m(3,4)])
  then have "plugin_life publish (wr_life m) (wr_objs m) default_kinds" "only_plugins (wr_life m)"
    using m(3) by (simp_all add: wired_inv_def)
  then show thesis using that m(1) default_registered by (simp add: LoadDefaults_def)
qed

lemma connected_open:
  assumes "\<not> cn_open s" "\<not> cn_connected s" "cfg_ComponentSecret (cl_cfg c) = []" "connect env c s = Inr s'"
  shows "cn_open s'"
  using Connect_outcome_lemma[of "s\<lparr>cn_jid := cl_jid c\<rparr>" "cl_cfg c" env "Inr ()" s'] assms
  by (auto simp: connect_def split: prod.splits sum.splits)

lemma client_secret: "NewClient U cfg = Inr c \<Longrightarrow> cfg_ComponentSecret (cl_cfg c) = cfg_ComponentSecret cfg"
  using new_client_fields[of U cfg c] by (simp add: normalized_def)

lemma echo_runs:
  assumes "echo_jid f \<noteq> []" "echo_password f \<noteq> []" "NewClient U (echo_config f) = Inr c"
  obtains l where "default_handlers (hr_handlers l)" "all_subs l = {}"
    "echo_main U env f s = or_fatal (connect env c s) (\<lambda>s'. Some (Running (start_session l s')))"
proof -
  obtain m where "LoadDefaults 6 (wired_env False False) ((wire_client c)\<lparr>pm_factories := catalog_factories\<rparr>) = Some (None, m)"
      "default_handlers (hr_handlers (wr_life m))" "all_subs (wr_life m) = {}"
    by (rule defaults_loaded[OF assms(3)])
  then show thesis
    using that assms by (simp add: echo_main_def or_fatal_def[of "Inr c"] registered[OF assms(3)])
qed

text \<open>The ways the echo program can go.\<close>

lemma echo_main_cases:
  assumes "\<not> cn_open s" "\<not> cn_connected s"
  obtains (usage) "echo_main U env f s = Some Usage" "echo_jid f = [] \<or> echo_password f = []"
  | (config) e where "echo_main U env f s = Some (Fatal e)" "NewClient U (echo_config f) = Inl e"
  | (connection) e c where "echo_main U env f s = Some (Fatal e)" "NewClient U (echo_config f) = Inr c" "connect env c s = Inl e"
  | (runs) w where "echo_main U env f s = Some (Running w)" "default_handlers (hr_handlers w)" "all_subs w = {}" "cn_open (ss_conn w)"
      "ss_autoAck w" "ss_version w = Version_Init \<lparr>vi_Name = [], vi_Version = [], vi_OS = []\<rparr>"
proof (cases "echo_jid f = [] \<or> echo_password f = []")
  case True
  then show thesis using usage by (simp add: echo_main_def)
next
  case given: False
  show thesis
  proof (cases "NewClient U (echo_config f)")
    case (Inl e)
    then show thesis using config given by (simp add: echo_main_def or_fatal_def)
  next
    case c: (Inr c)
    obtain l where l: "default_handlers (hr_handlers l)" "all_subs l = {}"
        "echo_main U env f s = or_fatal (connect env c s) (\<lambda>s'. Some (Running (start_session l s')))"
      using echo_runs[OF _ _ c] given by metis
    show thesis
    proof (cases "connect env c s")
      case (Inl e)
      then show thesis using connection c l(3) by (simp add: or_fatal_def)
    next
      case (Inr s')
      have "cfg_ComponentSecret (cl_cfg c) = []"
        using client_secret[OF c] by (simp add: echo_config_def DefaultConfig_def config0_def)
      then have "cn_open s'" using connected_open[OF assms _ Inr] by blast
      then show thesis using runs[of "start_session l s'"] l Inr by (simp add: or_fatal_def)
    qed
  qed
qed

lemma component_open:
  assumes "Connect env cfg s = (Inr (), s')" "cfg_ComponentSecret cfg \<noteq> []" "\<not> cfg_AutoPresence cfg"
  shows "cn_open s'"
proof -
  obtain s1 where "finishConnect cfg s1 = (Inr (), s')"
    using assms(1,2) by (auto simp: Connect_def connectComponent_def bindc_def split: if_splits prod.splits sum.splits)
  then show ?thesis using assms(3) by (auto simp: finishConnect_def bindc_def emit_def returnc_def split: if_splits)
qed

lemma life_state0_empty: "hr_handlers life_state0 = []" "all_subs life_state0 = {}"
  by (simp_all add: life_state0_def all_subs_def subs_of_def)

text \<open>The ways the component program can go; it has no plugins.\<close>

lemma component_main_cases:
  obtains (usage) "component_main U env f s = Some Usage" "cf_jid f = [] \<or> cf_secret f = [] \<or> cf_address f = []"
  | (config) e where "component_main U env f s = Some (Fatal e)" "NewClient U (component_config f) = Inl e"
  | (connection) e c where "component_main U env f s = Some (Fatal e)" "NewClient U (component_config f) = Inr c" "connect env c s = Inl e"
  | (runs) w where "component_main U env f s = Some (Running w)" "hr_handlers w = []" "all_subs w = {}" "cn_open (ss_conn w)"
proof (cases "cf_jid f = [] \<or> cf_secret f = [] \<or> cf_address f = []")
  case True
  then show thesis using usage by (simp add: component_main_def)
next
  case given: False
  show thesis
  proof (cases "NewClient U (component_config f)")
    case (Inl e)
    then show thesis using config given by (simp add: component_main_def or_fatal_def)
  next
    case c: (Inr c)
    have life: "wr_life (wire_client c) = life_state0" using wire_fresh(2)[OF c] new_client_fields(3)[OF c] by simp
    have main: "component_main U env f s = or_fatal (connect env c s) (\<lambda>s'. Some (Running (start_session life_state0 s')))"
      using given c by (simp add: component_main_def or_fatal_def[of "Inr c"] registered[OF c] life)
    show thesis
    proof (cases "connect env c s")
      case (Inl e)
      then show thesis using connection c main by (simp add: or_fatal_def)
    next
      case (Inr s')
      have "cfg_ComponentSecret (cl_cfg c) \<noteq> []" "\<not> cfg_AutoPresence (cl_cfg c)"
        using new_client_fields(1)[OF c] given by (simp_all add: component_config_def normalized_def)
      then have "cn_open s'"
        using Inr component_open[of env "cl_cfg c" "s\<lparr>cn_jid := cl_jid c\<rparr>" s'] by (auto simp: connect_def split: prod.splits sum.splits)
      then show thesis
        using runs[of "start_session life_state0 s'"] main Inr by (simp add: or_fatal_def life_state0_empty)
    qed
  qed
qed

subsection \<open>Properties\<close>


text \<open>The component program answers every message that has a body and is no error, from the address
  the message was sent to and to its sender, and writes nothing else.\<close>

theorem component_program:
  assumes "\<forall>x\<in>set ss. sendable_stanza componentNS x" "read_end fin = []"
  shows "case component_main U env f s of
      None \<Rightarrow> False
    | Some Usage \<Rightarrow> cf_jid f = [] \<or> cf_secret f = [] \<or> cf_address f = []
    | Some (Fatal e) \<Rightarrow> NewClient U (component_config f) = Inl e \<or> (\<exists>c. NewClient U (component_config f) = Inr c \<and> connect env c s = Inl e)
    | Some (Panic e) \<Rightarrow> False
    | Some (Running w) \<Rightarrow> cn_writes (ss_conn w) = [] \<longrightarrow>
        (\<exists>tss oss. map_result StanzaXML ss = Inr tss
           \<and> sent (ss_conn (serve (program_env base component_OnMessage) fin (transmit [componentNS] (concat tss)) w))
             = sent (ss_conn w) @ concat oss
           \<and> list_all2 (answered (\<lambda>_ os. os = []) component_echoes) (map (received componentNS) ss) oss)"
proof (rule component_main_cases[of U env f s])
  fix w assume w: "component_main U env f s = Some (Running w)" "hr_handlers w = []" "all_subs w = {}" "cn_open (ss_conn w)"
  from bare_service.conversation[OF _ w(2) assms(1) component_talks[of base] assms(2)] w
  show ?thesis by (force simp: ready_def grown_def)
qed simp_all

text \<open>A server that offers \<^verbatim>\<open>ANONYMOUS\<close> over direct TLS and binds the address asked for.\<close>

definition example_server :: conn where
  "example_server =
     \<lparr>cn_open = False, cn_tls = False, cn_in = [], cn_fin = Sentinel ErrEOF,
      cn_later =
        [([StartElement (XName streamNS ''stream'') [], StartElement (XName streamNS ''features'') [],
           StartElement (XName saslNS ''mechanisms'') [], StartElement (XName saslNS ''mechanism'') [],
           CharData ''ANONYMOUS'', EndElement (XName saslNS ''mechanism''),
           EndElement (XName saslNS ''mechanisms''), EndElement (XName streamNS ''features''),
           StartElement (XName saslNS ''success'') [], EndElement (XName saslNS ''success'')], Sentinel ErrEOF),
         ([StartElement (XName streamNS ''stream'') [], StartElement (XName streamNS ''features'') [],
           StartElement (XName bindNS ''bind'') [], EndElement (XName bindNS ''bind''), EndElement (XName streamNS ''features''),
           StartElement (XName clientNS ''iq'') [Attr (XName [] ''type'') IQResult, Attr (XName [] ''id'') ''go-1''],
           StartElement (XName bindNS ''bind'') [], StartElement (XName bindNS ''jid'') [],
           CharData (JID_String example_jid), EndElement (XName bindNS ''jid''), EndElement (XName bindNS ''bind''),
           EndElement (XName clientNS ''iq'')], Sentinel ErrEOF)],
      cn_writes = [], cn_out = [], cn_jid = \<lparr>jid_Local = [], jid_Domain = [], jid_Resource = []\<rparr>,
      cn_nextID = 0, cn_features = NewNode [] [], cn_connected = False, cn_events = []\<rparr>"

definition example_flags :: echo_flags where
  "example_flags = \<lparr>ef_jid = JID_String example_jid, ef_password = ''secret'', ef_address = ''localhost:5223'', ef_resource = [],
     ef_directTLS = True, ef_args = []\<rparr>"

definition example_client_config :: config where
  "example_client_config = normalized (echo_config example_flags)"

definition example_opened :: conn where
  "example_opened = snd (openAndReadFeatures example_client_config (example_server\<lparr>cn_jid := example_jid, cn_open := True, cn_tls := True\<rparr>))"

definition example_bound :: conn where
  "example_bound = example_opened\<lparr>cn_in := [], cn_later := [], cn_nextID := 1, cn_features :=
       Node (XName streamNS ''features'') [] [ChildPart (Node (XName bindNS ''bind'') [] [])],
     cn_out := cn_out example_opened @ [(True, OutNode (auth_node ''ANONYMOUS'' None)), (True, OutOpen clientNS ''example.org'' ''en''),
       (True, OutStanza (SIQ (bind_request example_jid ''go-1'')))]\<rparr>"

lemma example_negotiation:
  "negotiate_tls example_connect_env example_client_config (example_server\<lparr>cn_jid := example_jid, cn_open := True, cn_tls := True\<rparr>)
     = (Inr (cn_features example_opened), example_opened)"
  "authenticate (ce_auth example_connect_env) example_client_config (cn_features example_opened) example_opened
     = (Inr (), example_opened\<lparr>cn_in := [], cn_out := cn_out example_opened @ [(True, OutNode (auth_node ''ANONYMOUS'' None))]\<rparr>)"
  by code_simp+

definition example_answer :: iq where
  "example_answer = iq0\<lparr>iq_ID := ''go-1'', iq_Type := IQResult,
     iq_Payloads := [AddChild (NewTextNode bindNS ''jid'' (JID_String example_jid)) (NewNode bindNS ''bind'')]\<rparr>"

definition example_asked :: conn where
  "example_asked = example_bound\<lparr>cn_in := drop 5 (fst (cn_later example_server ! 1))\<rparr>"

lemma example_reopened:
  "openAndReadFeatures example_client_config
     (example_opened\<lparr>cn_in := [], cn_out := cn_out example_opened @ [(True, OutNode (auth_node ''ANONYMOUS'' None))]\<rparr>)
     = (Inr (cn_features example_bound), example_asked\<lparr>cn_nextID := 0, cn_out := butlast (cn_out example_asked)\<rparr>)"
  by code_simp

lemma example_bind_written:
  "writeStanza (SIQ (bind_request example_jid ''go-1'')) (example_asked\<lparr>cn_nextID := 1, cn_out := butlast (cn_out example_asked)\<rparr>)
     = (Inr (), example_asked)"
  by code_simp

lemma example_bind_read:
  "case readTopLevelNode example_asked of
     (Inr n, s) \<Rightarrow> sync_response ''go-1'' n = Some (Inr example_answer) \<and> s = example_bound | _ \<Rightarrow> False"
  by code_simp

lemma example_bind_done: "bound_jid example_unicode example_answer = Inr example_jid"
  by code_simp

lemma example_binds:
  "bindResource example_connect_env (example_asked\<lparr>cn_nextID := 0, cn_out := butlast (cn_out example_asked)\<rparr>) = (Inr (), example_bound)"
proof -
  obtain n where n: "readTopLevelNode example_asked = (Inr n, example_bound)" "sync_response ''go-1'' n = Some (Inr example_answer)"
    using example_bind_read by (auto split: prod.splits sum.splits)
  have "ce_done example_connect_env example_asked = None" "ae_unicode (ce_auth example_connect_env) = example_unicode"
    by (simp_all add: example_connect_env_def)
  then have "sync_loop example_connect_env ''go-1'' example_asked = (Inr example_answer, example_bound)"
    using n by (subst sync_loop.simps) simp
  moreover have "FormatNat 36 1 = ''1''" by code_simp
  then have "NextID (example_asked\<lparr>cn_nextID := 0, cn_out := butlast (cn_out example_asked)\<rparr>)
      = (Inr ''go-1'', example_asked\<lparr>cn_nextID := 1, cn_out := butlast (cn_out example_asked)\<rparr>)"
    by (simp add: NextID_def Let_def)
  moreover have "cn_jid example_asked = example_jid" "iq_ID (bind_request example_jid ''go-1'') = ''go-1''"
    "setJID example_jid example_bound = (Inr (), example_bound)"
    by code_simp+
  ultimately show ?thesis
    using example_bind_written example_bind_done
    by (simp add: bindResource_def syncIQ_def bindc_def JIDc_def wrapc_def liftc_def \<open>ae_unicode (ce_auth example_connect_env) = example_unicode\<close>)
qed

lemma example_finishes:
  "case finishConnect example_client_config example_bound of (Inl _, _) \<Rightarrow> False | (Inr _, s) \<Rightarrow> cn_writes s = []"
proof -
  have "FormatNat 36 (Suc (Suc 0)) = ''2''" by code_simp
  then have "NextID (example_bound\<lparr>cn_connected := True, cn_events := cn_events example_bound @ [''connected'', ''session_start'']\<rparr>)
      = (Inr ''go-2'', example_bound\<lparr>cn_connected := True, cn_events := cn_events example_bound @ [''connected'', ''session_start''], cn_nextID := 2\<rparr>)"
    by (simp add: NextID_def Let_def example_bound_def)
  moreover have "StanzaXML (SPresence ((cfg_InitialPresence example_client_config)\<lparr>prs_ID := ''go-2''\<rparr>)) =
      Inr [StartElement (XName [] ''presence'') [Attr (XName [] ''id'') ''go-2''], EndElement (XName [] ''presence'')]"
    "cfg_AutoPresence example_client_config" "prs_ID (cfg_InitialPresence example_client_config) = []"
    "cn_open example_bound" "cn_writes example_bound = []"
    by code_simp+
  ultimately show ?thesis
    by (simp add: finishConnect_def bindc_def emit_def SendPresence_def Send_def writeStanza_def write_item_def)
qed

lemma example_client:
  obtains c where "NewClient example_unicode (echo_config example_flags) = Inr c" "cl_cfg c = example_client_config" "cl_jid c = example_jid"
proof -
  have "cfg_JID example_client_config = JID_String example_jid" "cfg_Resource example_client_config = []"
    "cfg_ComponentSecret example_client_config = []" "\<exists>x. SplitHostPort (cfg_Address example_client_config) = Inr x"
    by (code_simp, code_simp, code_simp) (rule exI[of _ "(''localhost'', ''5223'')"], code_simp)
  then have "validate example_unicode (normalized (echo_config example_flags)) = Inr example_jid"
    using ParseJID_String[OF example_jid_canonical] by (auto simp: validate_def example_client_config_def Let_def)
  then show thesis using that by (simp add: NewClient_def example_client_config_def Let_def)
qed

lemma example_connects:
  assumes "cl_cfg c = example_client_config" "cl_jid c = example_jid"
  shows "\<exists>s. connect example_connect_env c example_server = Inr s \<and> cn_writes s = []"
proof -
  obtain s where s: "finishConnect example_client_config example_bound = (Inr (), s)" "cn_writes s = []"
    using example_finishes by (auto split: prod.splits sum.splits)
  have "Child bindNS ''bind'' (cn_features example_bound) = Some (Node (XName bindNS ''bind'') [] [])" "Child legacySessionNS ''session'' (cn_features example_bound) = None"
    "cfg_ComponentSecret example_client_config = []" "cfg_DirectTLS example_client_config"
    "\<not> cn_connected example_server" "\<not> cn_open example_server"
    by code_simp+
  moreover have "ce_dial example_connect_env a = None" "ce_handshake example_connect_env x = None" for a x
    by (simp_all add: example_connect_env_def)
  ultimately have "Connect example_connect_env example_client_config (example_server\<lparr>cn_jid := example_jid\<rparr>) = (Inr (), s)"
    using example_negotiation example_reopened example_binds s(1)
    by (simp add: Connect_def dial_def handshake_def setConn_def bindc_def failConnect_def negotiate_session_def wrapc_def returnc_def)
  then show ?thesis using s(2) by (simp add: connect_def assms)
qed

text \<open>A conversation of the example: a chat message that asks for a receipt, and a ping.\<close>

definition example_chat :: message where
  "example_chat = RequestReceipt (message0\<lparr>msg_From := ''juliet@example.org/balcony'', msg_ID := ''m1'', msg_Type := MessageChat,
     msg_Body := ''hello''\<rparr>)"

definition example_ping :: iq where
  "example_ping = iq0\<lparr>iq_From := ''example.org'', iq_ID := ''p1'', iq_Type := IQGet, iq_Payloads := [NewNode PingNS ''ping'']\<rparr>"

definition example_surroundings :: surroundings where
  "example_surroundings = \<lparr>su_clock = \<lparr>tm_sec = 0, tm_nsec = 0, tm_offset = 0\<rparr>, su_grow = (\<lambda>_ n. n), su_features = []\<rparr>"

definition example_base :: session_env where
  "example_base = \<lparr>de_now = 0, de_events = (\<lambda>_ _ b. (None, b)), de_callback = (\<lambda>_ _ w. (None, w)), de_OnMessage = None,
     de_OnPresence = None, de_OnIQ = None, de_OnError = None\<rparr>"

lemma example_answers:
  assumes "answered (responds su v True) echoes (received clientNS (SMessage example_chat)) os1"
    and "answered (responds su v True) echoes (received clientNS (SIQ example_ping)) os2"
  shows "length os1 = 2" "length os2 = 1"
proof -
  have "wants_ack True (received_message clientNS example_chat)" "msg_Body (received_message clientNS example_chat) = ''hello''"
    "msg_Type (received_message clientNS example_chat) = MessageChat"
    by code_simp+
  then show "length os1 = 2" using assms(1) by (auto simp: answered_def acks_def echoes_def)
  have "filter (\<lambda>m. callback_matcher [] m (Some (SIQ (received_iq clientNS example_ping)))) request_methods = [Call_Ping_reply]"
    by code_simp
  then have "{m \<in> set request_methods. callback_matcher [] m (Some (SIQ (received_iq clientNS example_ping)))} = {Call_Ping_reply}"
    by (metis empty_set list.simps(15) set_filter)
  with assms(2) obtain ms rs where "os2 = map SIQ rs" "distinct ms" "list_all2 (\<lambda>m r. serves su v m (received_iq clientNS example_ping) r) ms rs"
      "set ms = {Call_Ping_reply}"
    by (auto simp: answered_def)
  then show "length os2 = 1" using distinct_card[of ms] list_all2_lengthD by fastforce
qed


end
