(* ===== verification/Room_Program.thy ===== *)
theory Room_Program
  imports Programs Muc
begin

text \<open>
  The room client \<^verbatim>\<open>src/examples/muc/main.go\<close>: it joins a room, sends each line of its standard input
  there, and leaves when the input or the program ends. The goroutine that reads the connection
  and the one that reads the input meet the main loop at its \<^verbatim>\<open>select\<close>; a list of turns is the order
  in which they do.
\<close>

record muc_flags =
  mf_jid :: string
  mf_password :: string
  mf_room :: string
  mf_nick :: string
  mf_roomPassword :: string
  mf_address :: string

definition muc_config :: "muc_flags \<Rightarrow> config" where
  "muc_config f =
     (DefaultConfig (mf_jid f) (mf_password f))\<lparr>cfg_Address := mf_address f, cfg_Resource := ''slixmpp-go-muc''\<rparr>"

text \<open>The connection and the plugin, which the type assertion gives.\<close>

record chat =
  ch_conn :: conn
  ch_muc :: muc

definition muc_main :: "unicode \<Rightarrow> connect_env \<Rightarrow> muc_flags \<Rightarrow> conn \<Rightarrow> chat program option" where
  "muc_main U env f s =
     (if mf_jid f = [] \<or> mf_password f = [] \<or> mf_room f = [] then Some Usage
      else or_fatal (NewClient U (muc_config f)) (\<lambda>c. register_all c (\<lambda>m.
        case Catalog.Load 6 (wired_env False False) 45 m of
          None \<Rightarrow> None
        | Some (Inl e, _) \<Rightarrow> Some (Fatal e)
        | Some (Inr p, m') \<Rightarrow>
            if map_option p_code p \<noteq> Some 45 then Some (Fatal (Errf ''xep_0045 has unexpected type''))
            else or_fatal (connect env c s) (\<lambda>s'. Some (Running \<lparr>ch_conn = s', ch_muc = NewMUC\<rparr>)))))"

subsection \<open>Joining\<close>

text \<open>What the read loop hands to the plugin, and the ends that the \<^verbatim>\<open>select\<close> statements wait for.\<close>

datatype turn =
    PresenceIn presence
  | MessageIn message
  | Typed string
  | InputClosed
  | Interrupted
  | ConnectionDone

text \<open>
  \<^verbatim>\<open>Join\<close> after its presence is sent. The handler puts the outcome into the channel of the join, and the
  \<^verbatim>\<open>select\<close> takes it; the input is not read yet. \<open>None\<close> is a join that still waits.
\<close>

fun await_join :: "join \<Rightarrow> turn list \<Rightarrow> muc \<Rightarrow> (room result \<times> turn list \<times> muc) option" where
  "await_join w [] m = None"
| "await_join w (PresenceIn p # ts) m =
     (let m' = fst (handlePresence p m) in
      case mu_sending m' of
        Some (ch, v) \<Rightarrow> if ch = jn_chan w then Some (v, ts, Join_return w v (Join_select w v (m'\<lparr>mu_sending := None\<rparr>))) else await_join w ts m'
      | None \<Rightarrow> await_join w ts m')"
| "await_join w (MessageIn x # ts) m = await_join w ts (fst (handleMessage x m))"
| "await_join w (Interrupted # ts) m =
     (let v = Inl (Sentinel Canceled) in Some (v, Interrupted # ts, Join_return w v (Join_select w v m)))"
| "await_join w (ConnectionDone # ts) m =
     (let v = Inl (Sentinel ErrClosed) in Some (v, ConnectionDone # ts, Join_return w v (Join_select w v m)))"
| "await_join w (_ # ts) m = await_join w ts m"

definition send_join :: "muc_flags \<Rightarrow> conn \<Rightarrow> go_error option \<times> conn" where
  "send_join f c =
     (case bindc NextID (\<lambda>i. Send (SPresence (join_presence (BareJIDString (mf_room f)) (mf_nick f) i
               \<lparr>jo_Password = mf_roomPassword f, jo_History = None\<rparr>))) c of
        (Inl e, c') \<Rightarrow> (Some e, c')
      | (Inr _, c') \<Rightarrow> (None, c'))"

definition enter_room :: "muc_flags \<Rightarrow> turn list \<Rightarrow> chat \<Rightarrow> (turn list \<times> chat) program option" where
  "enter_room f ts ch =
     (case send_join f (ch_conn ch) of (err, c) \<Rightarrow>
      case Join_begin (mf_room f) (mf_nick f) err (ch_muc ch) of
        (Inl e, _) \<Rightarrow> Some (Fatal e)
      | (Inr w, m) \<Rightarrow>
          (case await_join w ts m of
             None \<Rightarrow> None
           | Some (Inl e, _) \<Rightarrow> Some (Fatal e)
           | Some (Inr _, ts', m') \<Rightarrow> Some (Running (ts', \<lparr>ch_conn = c, ch_muc = m'\<rparr>))))"

subsection \<open>The main loop\<close>

definition send_line :: "muc_flags \<Rightarrow> string \<Rightarrow> chat \<Rightarrow> chat" where
  "send_line f line ch =
     ch\<lparr>ch_conn := snd (bindc NextID (\<lambda>i. Send (SMessage (MUC_SendMessage (mf_room f) line i))) (ch_conn ch))\<rparr>"

definition leave_room :: "muc_flags \<Rightarrow> string \<Rightarrow> chat \<Rightarrow> chat" where
  "leave_room f status ch =
     ch\<lparr>ch_conn := close_transport (case mu_rooms (ch_muc ch) (BareJIDString (mf_room f)) of
         None \<Rightarrow> ch_conn ch
       | Some _ \<Rightarrow> snd (bindc NextID (\<lambda>i. case MUC_Leave (mf_room f) status i (ch_muc ch) of
           Inl e \<Rightarrow> failc e | Inr p \<Rightarrow> Send (SPresence p)) (ch_conn ch)))\<rparr>"

fun chat_loop :: "muc_flags \<Rightarrow> turn list \<Rightarrow> chat \<Rightarrow> chat" where
  "chat_loop f [] ch = ch"
| "chat_loop f (PresenceIn p # ts) ch = chat_loop f ts (ch\<lparr>ch_muc := fst (handlePresence p (ch_muc ch))\<rparr>)"
| "chat_loop f (MessageIn x # ts) ch = chat_loop f ts (ch\<lparr>ch_muc := fst (handleMessage x (ch_muc ch))\<rparr>)"
| "chat_loop f (Typed line # ts) ch = chat_loop f ts (send_line f line ch)"
| "chat_loop f (InputClosed # ts) ch = leave_room f ''stdin closed'' ch"
| "chat_loop f (Interrupted # ts) ch = leave_room f ''client exiting'' ch"
| "chat_loop f (ConnectionDone # ts) ch = ch"

subsection \<open>What it writes\<close>

text \<open>The lines up to the end, and the presence that ends the stay.\<close>

fun lines_of :: "turn list \<Rightarrow> string list" where
  "lines_of [] = []"
| "lines_of (Typed line # ts) = line # lines_of ts"
| "lines_of (PresenceIn _ # ts) = lines_of ts"
| "lines_of (MessageIn _ # ts) = lines_of ts"
| "lines_of (_ # ts) = []"

fun farewell :: "turn list \<Rightarrow> string option" where
  "farewell [] = None"
| "farewell (InputClosed # ts) = Some ''stdin closed''"
| "farewell (Interrupted # ts) = Some ''client exiting''"
| "farewell (ConnectionDone # ts) = None"
| "farewell (_ # ts) = farewell ts"

definition spoken :: "muc_flags \<Rightarrow> string \<Rightarrow> stanza \<Rightarrow> bool" where
  "spoken f line st \<longleftrightarrow> (\<exists>i. st = SMessage (message0\<lparr>msg_To := BareJIDString (mf_room f), msg_ID := i, msg_Type := MessageGroupChat, msg_Body := line\<rparr>))"

definition parting :: "muc_flags \<Rightarrow> string \<Rightarrow> stanza \<Rightarrow> bool" where
  "parting f status st \<longleftrightarrow> (\<exists>i. st = SPresence (presence0\<lparr>prs_To := BareJIDString (mf_room f) @ ''/'' @ mf_nick f,
     prs_Type := PresenceUnavailable, prs_Status := status, prs_ID := i\<rparr>))"

definition stays :: "muc_flags \<Rightarrow> turn list \<Rightarrow> stanza list \<Rightarrow> bool" where
  "stays f ts os \<longleftrightarrow> (\<exists>ls es. os = ls @ es \<and> list_all2 (spoken f) (lines_of ts) ls
     \<and> (case farewell ts of None \<Rightarrow> es = [] | Some status \<Rightarrow> \<exists>p. es = [p] \<and> parting f status p))"

text \<open>The room of the plugin keeps the nickname it was joined with.\<close>

definition seated :: "muc_flags \<Rightarrow> muc \<Rightarrow> bool" where
  "seated f m \<longleftrightarrow> (\<exists>r. mu_rooms m (BareJIDString (mf_room f)) = Some r \<and> rm_Nick r = mf_nick f \<and> mf_nick f \<noteq> [])"

lemma seated_kept:
  "seated f m \<Longrightarrow> seated f (fst (handlePresence p m))" "seated f m \<Longrightarrow> seated f (fst (handleMessage x m))"
  "seated f (Join_return w v (Join_select w v m)) \<longleftrightarrow> seated f m" "seated f (m\<lparr>mu_sending := None\<rparr>) \<longleftrightarrow> seated f m"
  by (auto simp: seated_def handlePresence_def handleMessage_def Join_return_def Join_select_def room_at_def update_room_def Let_def)

lemma await_join_seated: "await_join w ts m = Some (v, ts', m') \<Longrightarrow> seated f m \<Longrightarrow> seated f m'"
  by (induction w ts m arbitrary: v ts' m' rule: await_join.induct)
    (auto simp: Let_def seated_kept split: option.splits if_splits)

text \<open>Sending with a fresh identifier on a connection that takes every write.\<close>

lemma send_fresh:
  assumes "cn_open c" "cn_writes c = []" "\<And>i. sendable_stanza d (st i)"
  obtains i c' where "bindc NextID (\<lambda>i. Send (st i)) c = (Inr (), c')" "sent c' = sent c @ [st i]" "cn_open c'" "cn_writes c' = []"
proof -
  obtain i c1 where n: "NextID c = (Inr i, c1)" "sent c1 = sent c" "cn_open c1" "cn_writes c1 = []"
    using assms(1,2) by (auto simp: NextID_def Let_def sent_def)
  then show thesis
    using that Send_written[OF n(3,4) assms(3)] by (simp add: bindc_def sent_def map_filter_simps List.map_filter_def)
qed

subsection \<open>Waiting for the room\<close>

text \<open>The state in which the one join of the program waits.\<close>

definition waiting :: "muc_flags \<Rightarrow> join \<Rightarrow> muc \<Rightarrow> bool" where
  "waiting f w m \<longleftrightarrow> seated f m \<and> mu_pending m = [join_key (BareJIDString (mf_room f)) (mf_nick f) \<mapsto> jn_chan w]"

lemma pending_kept [simp]:
  "mu_pending (fst (handlePresence p m)) = mu_pending m" "mu_pending (fst (handleMessage x m)) = mu_pending m"
  by (simp_all add: handlePresence_def handleMessage_def Let_def)

lemma waiting_kept:
  "waiting f w m \<Longrightarrow> waiting f w (fst (handlePresence p m))" "waiting f w m \<Longrightarrow> waiting f w (fst (handleMessage x m))"
  by (simp_all add: waiting_def seated_kept(1,2))

text \<open>The handler answers the join exactly for the room's welcome and its refusal.\<close>

lemma sending_join:
  assumes "waiting f w m"
  shows "mu_sending (fst (handlePresence p m)) =
    (if welcomes (BareJIDString (mf_room f)) p then Some (jn_chan w, Inr (update_room p (room_at m (BareJIDString (mf_room f)))))
     else if refuses (BareJIDString (mf_room f)) (prs_Error p) p then Some (jn_chan w, Inl (StanzaErr (prs_Error p)))
     else None)"
proof (cases "fst (splitOccupant (prs_From p)) = BareJIDString (mf_room f)")
  case True
  have "rm_Nick (update_room p (room_at m (BareJIDString (mf_room f)))) = mf_nick f"
    using assms by (auto simp: waiting_def seated_def room_at_def update_room_def Let_def)
  then show ?thesis
    using True assms by (auto simp: waiting_def handlePresence_def Let_def join_outcome_def welcomes_def refuses_def split: option.splits)
next
  case False
  then have "join_key (fst (splitOccupant (prs_From p))) n \<noteq> join_key (BareJIDString (mf_room f)) (mf_nick f)" for n
    using join_key_inj splitOccupant_room slash_notin_BareJIDString by metis
  then show ?thesis
    using False assms by (auto simp: waiting_def handlePresence_def Let_def welcomes_def refuses_def)
qed

lemma await_join_outcome:
  assumes "waiting f w m" "await_join w ts m = Some (v, ts', m')"
  shows "case v of
      Inr r \<Rightarrow> \<exists>p. PresenceIn p \<in> set ts \<and> welcomes (BareJIDString (mf_room f)) p
    | Inl e \<Rightarrow> (\<exists>p. PresenceIn p \<in> set ts \<and> refuses (BareJIDString (mf_room f)) (prs_Error p) p \<and> e = StanzaErr (prs_Error p))
        \<or> (e = Sentinel Canceled \<and> Interrupted \<in> set ts) \<or> (e = Sentinel ErrClosed \<and> ConnectionDone \<in> set ts)"
  using assms
proof (induction w ts m arbitrary: v ts' m' rule: await_join.induct)
  case (2 w p ts m)
  note s = sending_join[OF "2.prems"(1), of p]
  show ?case
  proof (cases "mu_sending (fst (handlePresence p m))")
    case None
    then have "await_join w ts (fst (handlePresence p m)) = Some (v, ts', m')" using "2.prems"(2) by simp
    from "2.IH"(1)[OF refl None waiting_kept(1)[OF "2.prems"(1)] this] show ?thesis by (auto split: sum.splits)
  next
    case (Some x)
    then have "x = (jn_chan w, v)" using "2.prems"(2) s by (auto simp: Let_def split: if_splits)
    then show ?thesis using Some s by (auto split: if_splits)
  qed
qed (auto simp: waiting_kept(2) Let_def split: sum.splits)

lemma await_join_ends:
  assumes "waiting f w m" "PresenceIn p \<in> set ts" "welcomes (BareJIDString (mf_room f)) p"
  shows "await_join w ts m \<noteq> None"
  using assms
proof (induction w ts m rule: await_join.induct)
  case (2 w q ts m)
  then show ?case
    using waiting_kept(1)[OF "2.prems"(1)] by (auto simp: sending_join Let_def split: option.splits if_splits)
qed (auto simp: waiting_kept(2) Let_def)

subsection \<open>The stay\<close>

lemma sent_closed [simp]: "sent (close_transport c) = sent c"
  by (auto simp: close_transport_def bindc_def emit_def clearConn_def write_item_def sent_def map_filter_simps List.map_filter_def
      split: list.splits option.splits)

lemma stays_turns:
  "stays f [] []" "stays f (ConnectionDone # ts) []"
  "stays f ts os \<Longrightarrow> stays f (PresenceIn p # ts) os" "stays f ts os \<Longrightarrow> stays f (MessageIn x # ts) os"
  "parting f ''stdin closed'' o1 \<Longrightarrow> stays f (InputClosed # ts) [o1]" "parting f ''client exiting'' o1 \<Longrightarrow> stays f (Interrupted # ts) [o1]"
  by (auto simp: stays_def)

lemma stays_typed: "spoken f line o1 \<Longrightarrow> stays f ts os \<Longrightarrow> stays f (Typed line # ts) (o1 # os)"
proof -
  assume l: "spoken f line o1" and "stays f ts os"
  then obtain ls es where "os = ls @ es" "list_all2 (spoken f) (lines_of ts) ls"
      "case farewell ts of None \<Rightarrow> es = [] | Some status \<Rightarrow> \<exists>p. es = [p] \<and> parting f status p"
    by (auto simp: stays_def)
  then show ?thesis using l unfolding stays_def by (intro exI[of _ "o1 # ls"] exI[of _ es]) simp
qed

lemma send_line_spoken:
  assumes "cn_open (ch_conn ch)" "cn_writes (ch_conn ch) = []"
  obtains o1 where "spoken f line o1" "sent (ch_conn (send_line f line ch)) = sent (ch_conn ch) @ [o1]"
    "cn_open (ch_conn (send_line f line ch))" "cn_writes (ch_conn (send_line f line ch)) = []" "ch_muc (send_line f line ch) = ch_muc ch"
proof -
  have "sendable_stanza [] (SMessage (MUC_SendMessage (mf_room f) line i))" for i
    by (simp add: MUC_SendMessage_def message0_def sendable_def)
  from send_fresh[OF assms, of "[]" "\<lambda>i. SMessage (MUC_SendMessage (mf_room f) line i)", OF this]
  obtain i c' where "bindc NextID (\<lambda>i. Send (SMessage (MUC_SendMessage (mf_room f) line i))) (ch_conn ch) = (Inr (), c')"
      "sent c' = sent (ch_conn ch) @ [SMessage (MUC_SendMessage (mf_room f) line i)]" "cn_open c'" "cn_writes c' = []"
    by blast
  moreover have "spoken f line (SMessage (MUC_SendMessage (mf_room f) line i))" by (auto simp: spoken_def MUC_SendMessage_def)
  ultimately show thesis using that by (simp add: send_line_def)
qed

lemma leave_room_parting:
  assumes "cn_open (ch_conn ch)" "cn_writes (ch_conn ch) = []" "seated f (ch_muc ch)"
  obtains o1 where "parting f status o1" "sent (ch_conn (leave_room f status ch)) = sent (ch_conn ch) @ [o1]"
proof -
  let ?p = "\<lambda>i. presence0\<lparr>prs_To := BareJIDString (mf_room f) @ ''/'' @ mf_nick f, prs_Type := PresenceUnavailable, prs_Status := status, prs_ID := i\<rparr>"
  have "sendable_stanza [] (SPresence (?p i))" for i by (simp add: presence0_def sendable_def)
  from send_fresh[OF assms(1,2), of "[]" "\<lambda>i. SPresence (?p i)", OF this]
  obtain i c' where "bindc NextID (\<lambda>i. Send (SPresence (?p i))) (ch_conn ch) = (Inr (), c')" "sent c' = sent (ch_conn ch) @ [SPresence (?p i)]"
    by blast
  moreover obtain r where "mu_rooms (ch_muc ch) (BareJIDString (mf_room f)) = Some r" "rm_Nick r = mf_nick f"
    using assms(3) by (auto simp: seated_def)
  ultimately show thesis
    using that[of "SPresence (?p i)"] by (auto simp: leave_room_def MUC_Leave_def parting_def Let_def)
qed

lemma chat_loop_stays:
  assumes "cn_open (ch_conn ch)" "cn_writes (ch_conn ch) = []" "seated f (ch_muc ch)"
  shows "\<exists>os. sent (ch_conn (chat_loop f ts ch)) = sent (ch_conn ch) @ os \<and> stays f ts os"
  using assms
proof (induction f ts ch rule: chat_loop.induct)
  case (2 f p ts ch)
  then show ?case using seated_kept(1) stays_turns(3) by fastforce
next
  case (3 f x ts ch)
  then show ?case using seated_kept(2) stays_turns(4) by fastforce
next
  case (4 f line ts ch)
  obtain o1 where o: "spoken f line o1" "sent (ch_conn (send_line f line ch)) = sent (ch_conn ch) @ [o1]"
      "cn_open (ch_conn (send_line f line ch))" "cn_writes (ch_conn (send_line f line ch)) = []" "ch_muc (send_line f line ch) = ch_muc ch"
    using send_line_spoken[OF "4.prems"(1,2)] by blast
  then obtain os where "sent (ch_conn (chat_loop f ts (send_line f line ch))) = sent (ch_conn (send_line f line ch)) @ os" "stays f ts os"
    using "4.IH" "4.prems"(3) by auto
  then show ?case using o(1,2) stays_typed by auto
next
  case (5 f ts ch)
  then show ?case using leave_room_parting[of ch f "''stdin closed''"] stays_turns(5) by (metis chat_loop.simps(5))
next
  case (6 f ts ch)
  then show ?case using leave_room_parting[of ch f "''client exiting''"] stays_turns(6) by (metis chat_loop.simps(6))
qed (auto simp: stays_turns)

subsection \<open>The whole program\<close>

lemma send_join_written:
  assumes "cn_open c" "cn_writes c = []"
  obtains i c' where "send_join f c = (None, c')" "cn_open c'" "cn_writes c' = []"
    "sent c' = sent c @ [SPresence (join_presence (BareJIDString (mf_room f)) (mf_nick f) i \<lparr>jo_Password = mf_roomPassword f, jo_History = None\<rparr>)]"
proof -
  let ?p = "\<lambda>i. join_presence (BareJIDString (mf_room f)) (mf_nick f) i \<lparr>jo_Password = mf_roomPassword f, jo_History = None\<rparr>"
  have "well_built (join_payload \<lparr>jo_Password = pw, jo_History = None\<rparr>)" "Local (Name (join_payload \<lparr>jo_Password = pw, jo_History = None\<rparr>)) = ''x''" for pw
    by (auto simp: join_payload_def opt_children_def intro!: inv_intros)
  then have "sendable_stanza [] (SPresence (?p i))" for i
    by (simp add: join_presence_def presence0_def sendable_def well_built_def)
  from send_fresh[OF assms, of "[]" "\<lambda>i. SPresence (?p i)", OF this]
  obtain i c' where "bindc NextID (\<lambda>i. Send (SPresence (?p i))) c = (Inr (), c')" "sent c' = sent c @ [SPresence (?p i)]" "cn_open c'" "cn_writes c' = []"
    by blast
  then show thesis using that[of c' i] by (simp add: send_join_def)
qed

lemma Join_begin_new:
  assumes "BareJIDString (mf_room f) \<noteq> []" "mf_nick f \<noteq> []"
  obtains w m where "Join_begin (mf_room f) (mf_nick f) None NewMUC = (Inr w, m)" "waiting f w m"
  using assms that by (simp add: Join_begin_def NewMUC_def waiting_def seated_def new_room_def Let_def)

lemma muc_loaded:
  assumes "NewClient U cfg = Inr c"
  obtains m where "Catalog.Load 6 (wired_env backend publish) 45 ((wire_client c)\<lparr>pm_factories := catalog_factories\<rparr>) = Some (Inr (Some MUC_plugin), m)"
proof -
  let ?env = "wired_env backend publish" and ?m = "(wire_client c)\<lparr>pm_factories := catalog_factories\<rparr>"
  have n: "45 \<in> set catalog_numbers" by (simp add: catalog_numbers_def catalog_titles_def)
  then obtain m where m: "load_numbers 6 ?env [45] ?m = Some (None, m)" using wired_loading[OF assms, of "[45]" backend publish] by auto
  then obtain q where q: "Catalog.Load 6 ?env 45 ?m = Some (Inr q, m)" by (auto split: option.splits prod.splits sum.splits)
  have f: "catalog_factories (xep_name 45) = Some 45" using n by (simp add: catalog_factories_iff)
  obtain d where "pe_make ?env 45 = Some (plugin_of d)" "d_Number d = 45"
    unfolding catalog_env_make by (rule catalog_make[OF f])
  then have "pe_make ?env 45 = Some MUC_plugin" using required_factories by (simp add: plugin_of_def)
  moreover have "pm_loaded ?m = Map.empty" using wire_fresh(1)[OF assms] by (simp add: fresh_client_def newPluginManager_def plugin_manager.defs)
  ultimately have "q = Some MUC_plugin"
    using q f unfolding Load_catalog[OF n] by (auto simp: load_with_def split: option.splits prod.splits)
  then show thesis using that q by simp
qed

text \<open>The ways the program can go before it joins: the plugin always loads.\<close>

lemma muc_main_cases:
  assumes "\<not> cn_open s" "\<not> cn_connected s"
  obtains (usage) "muc_main U env f s = Some Usage" "mf_jid f = [] \<or> mf_password f = [] \<or> mf_room f = []"
  | (config) e where "muc_main U env f s = Some (Fatal e)" "NewClient U (muc_config f) = Inl e"
  | (connection) e c where "muc_main U env f s = Some (Fatal e)" "NewClient U (muc_config f) = Inr c" "connect env c s = Inl e"
  | (runs) c where "muc_main U env f s = Some (Running \<lparr>ch_conn = c, ch_muc = NewMUC\<rparr>)" "cn_open c"
proof (cases "mf_jid f = [] \<or> mf_password f = [] \<or> mf_room f = []")
  case True
  then show thesis using usage by (simp add: muc_main_def)
next
  case given: False
  show thesis
  proof (cases "NewClient U (muc_config f)")
    case (Inl e)
    then show thesis using config given by (simp add: muc_main_def or_fatal_def)
  next
    case c: (Inr c)
    obtain m where m: "Catalog.Load 6 (wired_env False False) 45 ((wire_client c)\<lparr>pm_factories := catalog_factories\<rparr>) = Some (Inr (Some MUC_plugin), m)"
      by (rule muc_loaded[OF c])
    have "p_code MUC_plugin = 45" by (simp add: MUC_plugin_def xep_plugin_def)
    then have main: "muc_main U env f s = or_fatal (connect env c s) (\<lambda>s'. Some (Running \<lparr>ch_conn = s', ch_muc = NewMUC\<rparr>))"
      using given c m by (simp add: muc_main_def or_fatal_def[of "Inr c"] registered[OF c])
    show thesis
    proof (cases "connect env c s")
      case (Inl e)
      then show thesis using connection c main by (simp add: or_fatal_def)
    next
      case (Inr s')
      have "cfg_ComponentSecret (cl_cfg c) = []"
        using client_secret[OF c] by (simp add: muc_config_def DefaultConfig_def config0_def)
      then show thesis using runs[of s'] connected_open[OF assms _ Inr] main Inr by (simp add: or_fatal_def)
    qed
  qed
qed

subsection \<open>Properties\<close>


text \<open>Romeo enters \<^verbatim>\<open>r@h\<close> as \<^verbatim>\<open>me\<close>, says one line and closes his input.\<close>

definition example_visit :: muc_flags where
  "example_visit = \<lparr>mf_jid = ''romeo@example.org'', mf_password = ''secret'', mf_room = ''r@h'', mf_nick = ''me'', mf_roomPassword = [], mf_address = []\<rparr>"

definition example_turns :: "turn list" where
  "example_turns = [PresenceIn example_welcome, Typed ''hello'', MessageIn message0, InputClosed]"


end
