(* ===== verification/Omemo_Demo.thy ===== *)
theory Omemo_Demo
  imports Programs Omemo_Session
begin

text \<open>
  The demonstration \<^verbatim>\<open>src/examples/omemo/main.go\<close>: two parties, each with a client, a memory store, the
  test backend and an installed manager, and one encrypted message from the one to the other.
  It never connects; the random bytes, the clock, SHA-256, AES-GCM and the order in which Go
  walks a map are the environment.
\<close>

record demo_env =
  dm_unicode :: unicode
  dm_gcm :: gcm
  dm_sha256 :: "bytes \<Rightarrow> bytes"
  dm_keys :: "string \<Rightarrow> (bytes \<times> bytes \<times> bytes \<times> bytes) result"
  dm_nonce :: "bytes result"
  dm_random :: "(bytes \<times> bytes) result"
  dm_started :: gotime
  dm_now :: gotime
  dm_request :: "iq \<Rightarrow> iq result"
  dm_walk :: "address list \<Rightarrow> address list"
  dm_known :: "string set \<Rightarrow> string list"
  dm_err_text :: "go_error \<Rightarrow> string"
  dm_fingerprint :: "bytes \<Rightarrow> string"

record party =
  pt_client :: client
  pt_store :: memory_data
  pt_backend :: tk_backend
  pt_manager :: "(memory_data, tk_backend) manager"

definition demo_manager :: "demo_env \<Rightarrow> (memory_data, tk_backend) manager" where
  "demo_manager env = New
     \<lparr>mg_Store = memory_store (Inl (Errf [])) (dm_started env) (dm_known env),
      mg_Backend = testkit (dm_gcm env) (dm_sha256 env) (dm_nonce env), mg_TrustPolicy = TrustAll, mg_DeviceListTTL = 0,
      mg_DisableOwnDevices = True, mg_AutoDecrypt = False, mg_FallbackBody = [], mg_SenderJID = None\<rparr>"

definition newParty :: "demo_env \<Rightarrow> string \<Rightarrow> device_id \<Rightarrow> party program option" where
  "newParty env jid deviceID =
     (case MustNewClient (dm_unicode env) (DefaultConfig jid ''unused'') of
        Inl e \<Rightarrow> Some (Panic e)
      | Inr c \<Rightarrow>
          (case RegisterAll (Some (cl_Plugins c)) of
             (Some e, _) \<Rightarrow> Some (Fatal e)
           | (None, None) \<Rightarrow> None
           | (None, Some m) \<Rightarrow>
               (case mem_SetOwnDeviceID deviceID NewMemoryStore of
                  (Some e, _) \<Rightarrow> Some (Fatal e)
                | (None, store) \<Rightarrow> or_fatal (NewBackend (dm_keys env jid)) (\<lambda>backend.
                    case Install 7 (catalog_env True (\<lambda>_ m. m)) m of
                      None \<Rightarrow> None
                    | Some (Inl e, _) \<Rightarrow> Some (Fatal e)
                    | Some (Inr _, m') \<Rightarrow> Some (Running
                        \<lparr>pt_client = c\<lparr>cl_Plugins := m'\<rparr>, pt_store = store, pt_backend = backend, pt_manager = demo_manager env\<rparr>)))))"

text \<open>What follows a step that may end the program.\<close>

definition and_then :: "'a program option \<Rightarrow> ('a \<Rightarrow> 'b program option) \<Rightarrow> 'b program option" where
  "and_then p f =
     (case p of
        None \<Rightarrow> None
      | Some Usage \<Rightarrow> Some Usage
      | Some (Fatal e) \<Rightarrow> Some (Fatal e)
      | Some (Panic e) \<Rightarrow> Some (Panic e)
      | Some (Running x) \<Rightarrow> f x)"

abbreviation alice_address :: string where "alice_address \<equiv> ''alice@example.org/laptop''"
abbreviation bob_address :: string where "bob_address \<equiv> ''bob@example.org/phone''"

text \<open>Alice knows Bob's device and bundle, and Bob Alice's bundle.\<close>

definition alice_store :: "demo_env \<Rightarrow> key_bundle \<Rightarrow> memory_data \<Rightarrow> memory_data" where
  "alice_store env bundle s =
     mem_PutBundle (Address ''bob@example.org'' 202) bundle
       (mem_PutDeviceList (dm_started env) \<lparr>dl_JID = ''bob@example.org'', dl_Devices = [202], dl_FetchedAt = dm_started env\<rparr> s)"

definition bob_store :: "key_bundle \<Rightarrow> memory_data \<Rightarrow> memory_data" where
  "bob_store bundle s = mem_PutBundle (Address ''alice@example.org'' 101) bundle s"

definition demo_message :: "party \<Rightarrow> message" where
  "demo_message a = message0\<lparr>msg_From := JID_String (cl_jid (pt_client a)), msg_To := ''bob@example.org'', msg_Type := MessageChat,
     msg_Body := ''hello through the OMEMO integration layer''\<rparr>"

definition demo_world :: "demo_env \<Rightarrow> party \<Rightarrow> world" where
  "demo_world env a = \<lparr>wd_request = dm_request env, wd_now = dm_now env, wd_own = JID_Bare (cl_jid (pt_client a))\<rparr>"

text \<open>The program's output: how many devices the message was encrypted for, the body that leaves, and the
  body that arrives. The first identifier that Alice's client gives out names the message.\<close>

definition omemo_main :: "demo_env \<Rightarrow> (nat \<times> string \<times> string) program option" where
  "omemo_main env =
     and_then (newParty env alice_address 101) (\<lambda>alice.
     and_then (newParty env bob_address 202) (\<lambda>bob.
       let aliceStore = alice_store env (tk_bundle (pt_backend bob)) (pt_store alice);
           bobStore = bob_store (tk_bundle (pt_backend alice)) (pt_store bob)
       in case EncryptMessage (demo_world env alice) (pt_manager alice) (dm_err_text env) (dm_gcm env) (dm_random env) (dm_walk env)
               (''go-'' @ FormatNat 36 1) (demo_message alice) [] (aliceStore, pt_backend alice) of
            ((_, _, Some e), _) \<Rightarrow> Some (Fatal e)
          | ((encrypted, result, None), _) \<Rightarrow>
              (case DecryptFrom (pt_manager bob) (dm_gcm env) (dm_fingerprint env) encrypted ''alice@example.org'' (bobStore, pt_backend bob) of
                 None \<Rightarrow> Some (Panic (Foreign ''crypto/cipher: incorrect nonce length given to GCM''))
               | Some (Inl e, _) \<Rightarrow> Some (Fatal e)
               | Some (Inr (plain, _), _) \<Rightarrow>
                   Some (Running (length (er_Recipients result), msg_Body encrypted, msg_Body plain)))))"

subsection \<open>The parties\<close>

definition party_jid :: "string \<Rightarrow> string \<Rightarrow> jid" where
  "party_jid l r = \<lparr>jid_Local = l, jid_Domain = ''example.org'', jid_Resource = r\<rparr>"

lemma party_jids:
  "canonical_jid U (party_jid ''alice'' ''laptop'')" "canonical_jid U (party_jid ''bob'' ''phone'')"
  "JID_String (party_jid ''alice'' ''laptop'') = alice_address" "JID_String (party_jid ''bob'' ''phone'') = bob_address"
proof -
  show s: "JID_String (party_jid ''alice'' ''laptop'') = alice_address" "JID_String (party_jid ''bob'' ''phone'') = bob_address"
    by code_simp+
  have "trimmed ''example.org''" "trimmed alice_address" "trimmed bob_address"
    by (rule trimmed_plain_ends; simp add: plain_char_def ascii_spaces_def)+
  then show "canonical_jid U (party_jid ''alice'' ''laptop'')" "canonical_jid U (party_jid ''bob'' ''phone'')"
    unfolding canonical_jid_def s
    by (simp_all add: wf_jid_def party_jid_def ToLower_def ascii_def lower_char_def suffix_def)
qed

lemma party_client:
  assumes "canonical_jid U j" "JID_String j = jid"
  shows "\<exists>c. NewClient U (DefaultConfig jid pw) = Inr c \<and> cl_jid c = j"
proof -
  have "validate U (normalized (DefaultConfig jid pw)) = Inr j"
    using ParseJID_String[OF assms(1)] assms(2)
    by (simp add: validate_def normalized_def DefaultConfig_def config0_def)
  then show ?thesis by (simp add: NewClient_def Let_def)
qed

text \<open>A party as \<^verbatim>\<open>newParty\<close> leaves it.\<close>

definition made_party :: "demo_env \<Rightarrow> device_id \<Rightarrow> bytes \<Rightarrow> party \<Rightarrow> bool" where
  "made_party env own ident p \<longleftrightarrow> pt_manager p = demo_manager env \<and> pt_store p = NewMemoryStore\<lparr>md_Own := own\<rparr>
     \<and> tk_sessions (pt_backend p) = Map.empty \<and> bd_IdentityKey (tk_bundle (pt_backend p)) = ident"

lemma newParty_runs:
  assumes "canonical_jid (dm_unicode env) j" "JID_String j = jid" "deviceID \<noteq> 0" "dm_keys env jid = Inr (ident, signedKey, signature, prekey)"
  obtains p where "newParty env jid deviceID = Some (Running p)" "made_party env deviceID ident p"
proof -
  obtain c where c: "NewClient (dm_unicode env) (DefaultConfig jid ''unused'') = Inr c" "cl_jid c = j"
    using party_client[OF assms(1,2)] by blast
  obtain m0 r m' where m: "RegisterAll (Some (cl_Plugins c)) = (None, Some m0)" "Install 7 (catalog_env True (\<lambda>_ m. m)) m0 = Some (Inr Omemo_plugin, m')"
    using omemo_install[OF new_client_ready(3)[OF c(1)], of True] by auto
  show thesis
    using c m assms(3,4) that by (simp add: newParty_def MustNewClient_def mem_SetOwnDeviceID_def NewBackend_def or_fatal_def made_party_def)
qed

subsection \<open>The message\<close>

text \<open>The manager's store and backend are the ones of the party.\<close>

lemma demo_manager_simps [simp]:
  "mg_Store (demo_manager env) = memory_store (Inl (Errf [])) (dm_started env) (dm_known env)"
  "mg_Backend (demo_manager env) = testkit (dm_gcm env) (dm_sha256 env) (dm_nonce env)"
  "mg_TrustPolicy (demo_manager env) = TrustAll" "mg_DisableOwnDevices (demo_manager env)"
  "mg_DeviceListTTL (demo_manager env) = 300000000000" "mg_FallbackBody (demo_manager env) = OmemoFallbackBody"
  by (simp_all add: demo_manager_def New_def)

lemma demo_trust: "md_Trust s = Map.empty \<Longrightarrow> effectiveTrust (demo_manager env) a s = Inr TrustTrusted"
  by (simp add: effectiveTrust_def memory_store_def mem_Trust_def)

lemma demo_own: "md_Own s \<noteq> 0 \<Longrightarrow> so_OwnDeviceID (memory_store raw now order) s = (Inr (md_Own s), s)"
  by (simp add: memory_store_def mem_OwnDeviceID_def)

lemma bob_bare: "BareJIDString ''bob@example.org'' = ''bob@example.org''" "BareJIDString ''alice@example.org'' = ''alice@example.org''"
  by code_simp+

lemma demo_devices:
  assumes "since (dm_now env) (dm_started env) \<le> 300000000000"
  shows "own_targets (demo_world env a) (demo_manager env) own (foldl (recipient_targets (demo_world env a) (demo_manager env))
      ([], alice_store env bd s) [''bob@example.org'']) = ([Address ''bob@example.org'' 202], alice_store env bd s)"
proof -
  have "uniqueDevices [202] = [202]" by code_simp
  then have "DeviceList (demo_world env a) (demo_manager env) ''bob@example.org'' False (alice_store env bd s)
      = (Inr \<lparr>dl_JID = ''bob@example.org'', dl_Devices = [202], dl_FetchedAt = dm_started env\<rparr>, alice_store env bd s)"
    using assms by (simp add: DeviceList_def bob_bare memory_store_def mem_DeviceList_def alice_store_def mem_PutDeviceList_def mem_PutBundle_def
        demo_world_def Let_def)
  then show ?thesis by (simp add: own_targets_def recipient_targets_def bob_bare add_targets_def)
qed

text \<open>One wrapped key for Bob's device; Bob's backend unwraps it.\<close>

lemma demo_wraps:
  assumes g: "gcm_ok (dm_gcm env)" "dm_nonce env = Inr nonce" "length nonce = 12"
    and s: "md_Trust s = Map.empty" and a: "tk_sessions ba = Map.empty" "length (bd_IdentityKey (tk_bundle ba)) = 32"
    and b: "bd_IdentityKey (tk_bundle bb) \<noteq> []"
  obtains k st where "wrap_target w (demo_manager env) err material (([], result0), alice_store env (tk_bundle bb) s, ba) (Address ''bob@example.org'' 202)
      = (([k], result0\<lparr>er_Recipients := [Address ''bob@example.org'' 202]\<rparr>), st)" "wk_Recipient k = 202"
    "fst (tk_Decrypt (dm_gcm env) (dm_sha256 env) origin (SessionCiphertext (wk_Data k) (wk_PreKey k)) bb) = Inr material"
proof -
  let ?m = "demo_manager env" and ?s = "alice_store env (tk_bundle bb) s" and ?bob = "Address ''bob@example.org'' 202"
  let ?key = "derive (dm_sha256 env) (bd_IdentityKey (tk_bundle ba)) (bd_IdentityKey (tk_bundle bb))"
  let ?ba = "ba\<lparr>tk_sessions := [Address_String ?bob \<mapsto> ?key], tk_fresh := (tk_fresh ba)(Address_String ?bob := True)\<rparr>"
  have t: "effectiveTrust ?m ?bob ?s = Inr TrustTrusted"
    by (rule demo_trust) (simp add: alice_store_def mem_PutBundle_def mem_PutDeviceList_def s)
  have en: "EnsureSession w ?m ?bob (?s, ba) = (None, ?s, ?ba)"
    using a b by (simp add: EnsureSession_def testkit_def FetchBundle_def memory_store_def mem_Bundle_def alice_store_def mem_PutBundle_def
        tk_BuildSession_def)
  obtain c b' where c: "tk_Encrypt (dm_gcm env) (Inr nonce) ?bob material ?ba = (Inr c, b')"
    by (simp add: tk_Encrypt_def Let_def)
  have "tk_agree (dm_sha256 env) ?bob ?ba bb" using a by (simp add: tk_agree_def)
  note d = tk_delivered[OF g(1,3) this c, of origin]
  show thesis
    by (rule that[of "\<lparr>wk_Recipient = 202, wk_PreKey = sc_PreKey c, wk_Data = sc_Data c\<rparr>" "(?s, b')"])
      (use t en c d g(2) in \<open>simp_all add: wrap_target_def testkit_def Let_def result0_def\<close>)
qed

lemma demo_encrypts:
  assumes g: "gcm_ok (dm_gcm env)" "dm_nonce env = Inr nonce" "length nonce = 12" "length key = 16" "length iv = 12"
    and a: "made_party env 101 identA alice" "length identA = 32" and b: "made_party env 202 identB bob" "length identB = 32"
    and env: "since (dm_now env) (dm_started env) \<le> 300000000000"
      "\<forall>ts. set (dm_walk env ts) = set ts \<and> length (dm_walk env ts) = length ts"
  obtains e k material st where "\<forall>nid. EncryptMessage (demo_world env alice) (pt_manager alice) (dm_err_text env) (dm_gcm env) (Inr (key, iv)) (dm_walk env) nid
        (demo_message alice) [] (alice_store env (tk_bundle (pt_backend bob)) (pt_store alice), pt_backend alice)
      = ((encrypted_message (demo_manager env) nid (demo_message alice) e, result0\<lparr>er_Recipients := [Address ''bob@example.org'' 202], er_Envelope := Some e\<rparr>, None), st)"
    "envelope_valid e" "env_Sender e = 101" "env_Keys e = [k]" "wk_Recipient k = 202"
    "fst (tk_Decrypt (dm_gcm env) (dm_sha256 env) (Address ''alice@example.org'' 101) (SessionCiphertext (wk_Data k) (wk_PreKey k)) (pt_backend bob)) = Inr material"
    "open_payload (dm_gcm env) material (env_IV e) (env_Payload e) = Some (Inr (msg_Body (demo_message alice)))"
proof -
  let ?bob = "Address ''bob@example.org'' 202" and ?msg = "demo_message alice" and ?m = "demo_manager env"
  let ?s = "alice_store env (tk_bundle (pt_backend bob)) (pt_store alice)"
  have A: "pt_manager alice = ?m" "tk_sessions (pt_backend alice) = Map.empty" "length (bd_IdentityKey (tk_bundle (pt_backend alice))) = 32"
    "bd_IdentityKey (tk_bundle (pt_backend bob)) \<noteq> []" "md_Trust (pt_store alice) = Map.empty"
    using a b by (auto simp: made_party_def NewMemoryStore_def)
  have fields: "md_Own ?s = 101" "msg_To ?msg = ''bob@example.org''"
    using a(1) by (simp_all add: alice_store_def mem_PutBundle_def mem_PutDeviceList_def made_party_def demo_message_def)
  obtain material payload where sl: "seal (dm_gcm env) (Inr (key, iv)) (msg_Body ?msg) = Inr (material, iv, payload)"
    by (simp add: seal_def Let_def)
  obtain k st where k: "wrap_target (demo_world env alice) ?m (dm_err_text env) material (([], result0), ?s, pt_backend alice) ?bob
        = (([k], result0\<lparr>er_Recipients := [?bob]\<rparr>), st)" "wk_Recipient k = 202"
      "fst (tk_Decrypt (dm_gcm env) (dm_sha256 env) (Address ''alice@example.org'' 101) (SessionCiphertext (wk_Data k) (wk_PreKey k)) (pt_backend bob)) = Inr material"
    by (rule demo_wraps[OF g(1-3) A(5,2-4)])
  define e where "e = \<lparr>env_Sender = 101, env_IV = iv, env_Payload = payload, env_Keys = [k]\<rparr>"
  have "dm_walk env [?bob] = [?bob]" using env(2)[rule_format, of "[?bob]"] by (cases "dm_walk env [?bob]") auto
  then have "EncryptMessage (demo_world env alice) ?m (dm_err_text env) (dm_gcm env) (Inr (key, iv)) (dm_walk env) nid ?msg [] (?s, pt_backend alice)
      = ((encrypted_message ?m nid ?msg e, result0\<lparr>er_Recipients := [?bob], er_Envelope := Some e\<rparr>, None), st)" for nid
    using demo_devices[OF env(1), of alice 101 "tk_bundle (pt_backend bob)" "pt_store alice"] fields sl k(1)
    by (simp add: EncryptMessage_def demo_own e_def Let_def)
  moreover have "envelope_valid e" using g(5) k(2) by (auto simp: envelope_valid_def e_def)
  moreover have "open_payload (dm_gcm env) material (env_IV e) (env_Payload e) = Some (Inr (msg_Body ?msg))"
    using seal_open(1)[OF g(1,4,5) sl] by (simp add: e_def)
  ultimately show thesis using that[of e st k material] k(2,3) by (simp add: A(1) e_def)
qed

lemma demo_decrypts:
  assumes "ParseEnvelope (Envelope_ToNode e) = Inr e" "env_Sender e = 101" "env_Keys e = [k]" "wk_Recipient k = 202"
    and "fst (tk_Decrypt (dm_gcm env) (dm_sha256 env) (Address ''alice@example.org'' 101) (SessionCiphertext (wk_Data k) (wk_PreKey k)) bb) = Inr material"
    and "open_payload (dm_gcm env) material (env_IV e) (env_Payload e) = Some (Inr body)"
    and "md_Own s = 202" "md_Trust s = Map.empty"
  obtains plain res st where "DecryptFrom (demo_manager env) (dm_gcm env) fp (encrypted_message m nid message e) ''alice@example.org'' (s, bb)
      = Some (Inr (plain, res), st)" "msg_Body plain = body"
proof -
  obtain b' where d: "tk_Decrypt (dm_gcm env) (dm_sha256 env) (Address ''alice@example.org'' 101) (SessionCiphertext (wk_Data k) (wk_PreKey k)) bb
      = (Inr material, b')" using assms(5) by (metis prod.collapse)
  have "KeyFor e 202 = Some k" using assms(3,4) by (simp add: KeyFor_def)
  then show thesis
    using assms(1,2,6-8) d that by (simp add: DecryptFrom_def encrypted_message_ext demo_own demo_trust bob_bare testkit_def Let_def)
qed

lemma encrypted_body: "msg_Body (encrypted_message m nid message e) = mg_FallbackBody m"
  by (simp add: encrypted_message_def Let_def SetEncryptionInfo_def AddHint_def SetOriginID_def add_extension_def removeExtension_def)

subsection \<open>Properties\<close>

text \<open>C36: the demonstration succeeds. When the random bytes have the lengths asked for, encryption is
  undone by decryption, and no more than the five minutes pass for which a cached device list
  counts, no step fails or panics: both parties are created with their plugins, the message
  is encrypted for the one known device, leaves with the fallback text as its body, and Bob gets
  the text that Alice wrote.\<close>

theorem omemo_demo_delivers:
  assumes "gcm_ok (dm_gcm env)" "dm_nonce env = Inr nonce" "length nonce = 12"
    and "dm_random env = Inr (key, iv)" "length key = 16" "length iv = 12"
    and "dm_keys env alice_address = Inr (identA, rest)" "length identA = 32"
    and "dm_keys env bob_address = Inr (identB, rest')" "length identB = 32"
    and "since (dm_now env) (dm_started env) \<le> 300000000000"
    and "\<forall>ts. set (dm_walk env ts) = set ts \<and> length (dm_walk env ts) = length ts"
  shows "omemo_main env = Some (Running (1, OmemoFallbackBody, ''hello through the OMEMO integration layer''))"
proof -
  obtain alice where a: "newParty env alice_address 101 = Some (Running alice)" "made_party env 101 identA alice"
    by (rule newParty_runs[of env "party_jid ''alice'' ''laptop''" alice_address 101 identA "fst rest" "fst (snd rest)" "snd (snd rest)"])
      (use party_jids assms(7) in auto)
  obtain bob where b: "newParty env bob_address 202 = Some (Running bob)" "made_party env 202 identB bob"
    by (rule newParty_runs[of env "party_jid ''bob'' ''phone''" bob_address 202 identB "fst rest'" "fst (snd rest')" "snd (snd rest')"])
      (use party_jids assms(9) in auto)
  let ?bs = "bob_store (tk_bundle (pt_backend alice)) (pt_store bob)"
  obtain e k material st where e: "\<forall>nid. EncryptMessage (demo_world env alice) (pt_manager alice) (dm_err_text env) (dm_gcm env) (Inr (key, iv)) (dm_walk env) nid
        (demo_message alice) [] (alice_store env (tk_bundle (pt_backend bob)) (pt_store alice), pt_backend alice)
      = ((encrypted_message (demo_manager env) nid (demo_message alice) e, result0\<lparr>er_Recipients := [Address ''bob@example.org'' 202], er_Envelope := Some e\<rparr>, None), st)"
      "envelope_valid e" "env_Sender e = 101" "env_Keys e = [k]" "wk_Recipient k = 202"
      "fst (tk_Decrypt (dm_gcm env) (dm_sha256 env) (Address ''alice@example.org'' 101) (SessionCiphertext (wk_Data k) (wk_PreKey k)) (pt_backend bob)) = Inr material"
      "open_payload (dm_gcm env) material (env_IV e) (env_Payload e) = Some (Inr (msg_Body (demo_message alice)))"
    by (rule demo_encrypts[OF assms(1-3,5,6) a(2) assms(8) b(2) assms(10-12)])
  have bs: "md_Own ?bs = 202" "md_Trust ?bs = Map.empty"
    using b(2) by (simp_all add: made_party_def bob_store_def mem_PutBundle_def NewMemoryStore_def)
  obtain plain res st' where "DecryptFrom (demo_manager env) (dm_gcm env) (dm_fingerprint env)
      (encrypted_message (demo_manager env) (''go-'' @ FormatNat 36 1) (demo_message alice) e) ''alice@example.org''
      (?bs, pt_backend bob) = Some (Inr (plain, res), st')" "msg_Body plain = msg_Body (demo_message alice)"
    by (rule demo_decrypts[OF envelope_codec.decode_encode[OF e(2)] e(3-7) bs])
  then show ?thesis
    using a b e(1) by (simp add: omemo_main_def and_then_def assms(4) encrypted_body result0_def demo_message_def made_party_def)
qed

definition example_demo :: demo_env where
  "example_demo =
     \<lparr>dm_unicode = example_unicode, dm_gcm = example_gcm, dm_sha256 = (\<lambda>_. ''h''),
      dm_keys = (\<lambda>jid. Inr (replicate 32 (if jid = alice_address then CHR ''a'' else CHR ''b''), ''s'', ''g'', ''p'')),
      dm_nonce = Inr (replicate 12 CHR ''n''), dm_random = Inr (replicate 16 CHR ''k'', replicate 12 CHR ''i''),
      dm_started = \<lparr>tm_sec = 9, tm_nsec = 0, tm_offset = 0\<rparr>, dm_now = \<lparr>tm_sec = 10, tm_nsec = 0, tm_offset = 0\<rparr>,
      dm_request = (\<lambda>_. Inl (Errf [])), dm_walk = rev, dm_known = sorted_list_of_set, dm_err_text = (\<lambda>_. []), dm_fingerprint = (\<lambda>_. [])\<rparr>"

theorem omemo_demo_delivers_witness:
  "omemo_main example_demo = Some (Running (1, OmemoFallbackBody, ''hello through the OMEMO integration layer''))"
  by (rule omemo_demo_delivers[where nonce = "replicate 12 CHR ''n''" and key = "replicate 16 CHR ''k''" and iv = "replicate 12 CHR ''i''"
        and identA = "replicate 32 CHR ''a''" and identB = "replicate 32 CHR ''b''" and rest = "(''s'', ''g'', ''p'')" and rest' = "(''s'', ''g'', ''p'')"])
    (simp_all add: example_demo_def example_gcm_ok since_def)

end
