(* ===== verification/Matrix.thy ===== *)
theory Matrix
  imports Catalog Stream_Text
begin

text \<open>
  The support matrix: \<^verbatim>\<open>src/cmd/xep-matrix/main.go\<close> prints the catalogue as a Markdown table, one row for
  each entry, with the bars inside a cell escaped. A reader of Markdown rows gives every cell back.
\<close>

fun coverage_text :: "coverage \<Rightarrow> string" where
  "coverage_text CoverageNone = []"
| "coverage_text CoverageCatalog = ''catalog''"
| "coverage_text CoveragePayload = ''payload''"
| "coverage_text CoverageClient = ''client''"
| "coverage_text CoverageOperational = ''operational''"

abbreviation bar :: char where "bar \<equiv> CHR ''|''"
abbreviation backslash :: char where "backslash \<equiv> CHR 0x5C"

text \<open>The em dash as UTF-8.\<close>

abbreviation dash :: string where "dash \<equiv> [CHR 0xE2, CHR 0x80, CHR 0x94]"

definition escape :: "string \<Rightarrow> string" where
  "escape v = ReplaceAll_char bar [backslash, bar] v"

definition matrix_preamble :: "string list" where
  "matrix_preamble =
     [''# XEP support matrix'', [], ''This file is generated from `xep.Catalog` by `go run ./cmd/xep-matrix`.'', [],
      ''Coverage meanings:'', [],
      ''- **operational** '' @ dash @ '' typed implementation plus client behavior and protocol tests within the documented scope.'',
      ''- **client** '' @ dash @ '' typed client operations and/or incoming event handling; some optional portions of the XEP may remain.'',
      ''- **payload** '' @ dash @ '' typed XML builders/parsers; application code supplies the surrounding workflow.'',
      ''- **catalog** '' @ dash @ '' the Slixmpp plugin name exists for migration/discovery, but loading it advertises no wire support.'',
      [], ''| XEP | Slixmpp plugin | Title | Coverage | Namespaces | Notes |'', ''|---|---|---|---|---|---|'']"

definition row_namespaces :: "descriptor \<Rightarrow> string" where
  "row_namespaces d = (let s = Join ''<br>'' (d_Namespaces d) in if s = [] then dash else s)"

definition row_notes :: "descriptor \<Rightarrow> string" where
  "row_notes d =
     (if d_Notes d = [] then ''Metadata compatibility only; use `xmpp.Node` for custom XML.'' else d_Notes d)"

definition matrix_row :: "descriptor \<Rightarrow> string" where
  "matrix_row d =
     ''| '' @ Descriptor_XEP d @ '' | `'' @ Descriptor_Name d @ ''` | '' @ escape (d_Title d) @ '' | **'' @ coverage_text (d_Coverage d)
       @ ''** | '' @ escape (row_namespaces d) @ '' | '' @ escape (row_notes d) @ '' |''"

text \<open>The lines of the output; each ends in a newline.\<close>

definition matrix_lines :: "descriptor list \<Rightarrow> string list" where
  "matrix_lines catalog = matrix_preamble @ map matrix_row catalog"

subsection \<open>Reading a row\<close>

text \<open>The cells of a Markdown row: a bar ends a cell unless a backslash stands before it.\<close>

fun onto_first :: "char \<Rightarrow> string list \<Rightarrow> string list" where
  "onto_first c (x # xs) = (c # x) # xs"
| "onto_first c [] = [[c]]"

fun split_cells :: "string \<Rightarrow> string list" where
  "split_cells [] = [[]]"
| "split_cells [c] = (if c = bar then [[], []] else [[c]])"
| "split_cells (c # d # s) =
     (if c = bar then [] # split_cells (d # s)
      else if c = backslash \<and> d = bar then onto_first bar (split_cells s)
      else onto_first c (split_cells (d # s)))"

text \<open>The outer bars leave an empty cell on each side, and one blank stands on each side of a text.\<close>

definition table_row :: "string \<Rightarrow> string list" where
  "table_row line = map (\<lambda>x. butlast (tl x)) (butlast (tl (split_cells line)))"

definition row_cells :: "descriptor \<Rightarrow> string list" where
  "row_cells d =
     [Descriptor_XEP d, ''`'' @ Descriptor_Name d @ ''`'', d_Title d, ''**'' @ coverage_text (d_Coverage d) @ ''**'',
      row_namespaces d, row_notes d]"

lemma split_cells_not_Nil [simp]: "split_cells s \<noteq> []"
  by (induction s rule: split_cells.induct) (auto elim: onto_first.elims)

lemma split_bar: "split_cells (bar # s) = [] # split_cells s"
  by (cases s) auto

lemma split_plain: "c \<noteq> bar \<Longrightarrow> c \<noteq> backslash \<or> s = [] \<or> hd s \<noteq> bar \<Longrightarrow> split_cells (c # s) = onto_first c (split_cells s)"
  by (cases s) auto

lemma split_pair: "split_cells (backslash # bar # s) = onto_first bar (split_cells s)"
  by simp

lemma escape_simps [simp]: "escape [] = []" "escape (c # s) = (if c = bar then [backslash, bar] else [c]) @ escape s"
  by (simp_all add: escape_def ReplaceAll_char_def)

lemma escape_head: "escape s = [] \<or> hd (escape s) \<noteq> bar"
  by (cases s) auto

lemma escape_plain: "bar \<notin> set s \<Longrightarrow> escape s = s"
  by (simp add: escape_def ReplaceAll_char_id)

text \<open>Escaped text followed by a blank goes into the current cell as it was.\<close>

lemma split_escaped: "split_cells (escape v @ CHR '' '' # s) = foldr onto_first v (split_cells (CHR '' '' # s))"
proof (induction v)
  case (Cons c v)
  have h: "escape v @ CHR '' '' # s = [] \<or> hd (escape v @ CHR '' '' # s) \<noteq> bar" using escape_head[of v] by (cases "escape v") auto
  show ?case
  proof (cases "c = bar")
    case True
    then show ?thesis using Cons by (simp add: split_pair del: split_cells.simps)
  next
    case False
    then show ?thesis using Cons split_plain[of c "escape v @ CHR '' '' # s"] h by simp
  qed
qed simp

lemma foldr_onto_first: "xs \<noteq> [] \<Longrightarrow> foldr onto_first v xs = (v @ hd xs) # tl xs"
  by (induction v) (cases xs; simp)+

text \<open>One cell of a row: a blank, the text, a blank and the closing bar.\<close>

lemma split_cell:
  "split_cells (CHR '' '' # escape v @ CHR '' '' # bar # s) = (CHR '' '' # v @ '' '') # split_cells s"
proof -
  have "split_cells (CHR '' '' # bar # s) = '' '' # split_cells s" by (simp add: split_bar split_plain)
  then have "split_cells (escape v @ CHR '' '' # bar # s) = (v @ '' '') # split_cells s"
    by (simp add: split_escaped foldr_onto_first)
  then show ?thesis using escape_head[of v] by (simp add: split_plain)
qed

lemma digit_no_bar: "digit n \<noteq> bar"
proof
  assume "digit n = bar"
  then have "of_char (digit n) = (of_char bar :: nat)" by simp
  then show False by (simp add: digit_def)
qed

lemma digit_char_no_bar: "d < 10 \<Longrightarrow> digit_char d \<noteq> bar"
proof
  assume d: "d < 10" and "digit_char d = bar"
  then have "of_char (digit_char d) = (of_char bar :: nat)" by simp
  then show False using d by (simp add: digit_char_def)
qed

lemma pad4_no_bar: "bar \<notin> set (pad4 n)"
proof (cases "n < 10000")
  case True
  then show ?thesis using digit_no_bar by (auto simp: pad4_def dest: sym)
next
  case False
  have "bar \<notin> set (FormatNat 10 n)"
  proof
    assume "bar \<in> set (FormatNat 10 n)"
    then obtain d where "d < 10" "bar = digit_char d" using FormatNat_digits by blast
    then show False using digit_char_no_bar[of d] by simp
  qed
  then show ?thesis using False by (simp add: pad4_def)
qed

lemma cells_no_bar:
  "bar \<notin> set (Descriptor_XEP d)" "bar \<notin> set (''`'' @ Descriptor_Name d @ ''`'')" "bar \<notin> set (''**'' @ coverage_text (d_Coverage d) @ ''**'')"
  using pad4_no_bar by (auto simp: Descriptor_XEP_def Descriptor_Name_def) (cases "d_Coverage d"; simp)+

subsection \<open>Properties\<close>

text \<open>C34: the support matrix is faithful to the catalogue. Whatever titles, namespaces and notes the
  entries have, bars and backslashes included, a reader of Markdown tables that takes the rows
  of the output apart gets back for every entry, in the order of the catalogue, its six
  columns as they are.\<close>

theorem matrix_rows_faithful:
  "map table_row (drop (length matrix_preamble) (matrix_lines catalog)) = map row_cells catalog"
proof -
  have "table_row (matrix_row d) = row_cells d" for d
  proof -
    note c = escape_plain[OF cells_no_bar(1)[of d], symmetric] escape_plain[OF cells_no_bar(2)[of d], symmetric]
      escape_plain[OF cells_no_bar(3)[of d], symmetric]
    have "matrix_row d = bar # CHR '' '' # escape (Descriptor_XEP d) @ CHR '' '' # bar # CHR '' '' # escape (''`'' @ Descriptor_Name d @ ''`'')
        @ CHR '' '' # bar # CHR '' '' # escape (d_Title d) @ CHR '' '' # bar # CHR '' '' # escape (''**'' @ coverage_text (d_Coverage d) @ ''**'')
        @ CHR '' '' # bar # CHR '' '' # escape (row_namespaces d) @ CHR '' '' # bar # CHR '' '' # escape (row_notes d) @ CHR '' '' # bar # []"
      using c by (simp add: matrix_row_def)
    then show ?thesis by (simp only: table_row_def row_cells_def split_bar split_cell split_cells.simps(1)) (simp add: butlast_append)
  qed
  then show ?thesis by (simp add: matrix_lines_def)
qed

end
