(* ===== verification/Spec2Isabelle.thy ===== *)
theory Spec2Isabelle
  imports Matcher Plugins Connect Client Handlers Api_Registry Roster Forms Stream_Management
    Message_Extensions Client_Control Disco Mam Muc Omemo_Session Storage Catalog Lifecycle Stream_Text Client_Api
    Wiring Session Programs Room_Program Omemo_Demo Matrix
begin

text \<open>
  \<^bold>\<open>A verification of slixmpp-go.\<close> The repository is an XMPP library in Go: \<^verbatim>\<open>src/xmpp\<close> holds the
  client and its core data (XML nodes, addresses, stanzas, the stream, authentication, handlers,
  events, the plugin manager, the roster), \<^verbatim>\<open>src/xep\<close> the protocol extensions as plugins and codecs,
  and \<^verbatim>\<open>src/omemo\<close> end-to-end encryption over an exchangeable session backend. The development
  models all three packages and proves what makes each part correct; this theory collects
  them and states what holds of a client together with its plugins.

  \<^bold>\<open>The parts and how they meet.\<close> \<^verbatim>\<open>NewClient\<close> checks a configuration and creates the registries.
  \<^verbatim>\<open>Connect\<close> opens the stream, negotiates TLS, authenticates, binds a resource and starts the read
  loop. The read loop decodes one element after the other, hands answers to the waiting
  \<^verbatim>\<open>RequestIQ\<close> and everything else to the stanza handlers, and emits events. Plugins are created
  by the factories that \<^verbatim>\<open>RegisterAll\<close> enters into the manager; loading one loads its dependencies
  first, and its \<^verbatim>\<open>Init\<close> registers handlers, event subscriptions and internal API entries that its
  \<^verbatim>\<open>Shutdown\<close> takes back.

  \<^bold>\<open>Conventions.\<close> A Go string or byte slice is a list of \<^typ>\<open>char\<close>, a byte each; a struct is a
  record with the zero value suffixed \<open>0\<close>; an error is a value of \<open>go_error\<close> and a fallible
  function returns \<open>go_error + 'a\<close>; a panic is \<open>None\<close> where the code can panic. State is passed
  explicitly, and where goroutines interleave the operations are cut at their blocking points and an
  inductive relation runs through every interleaving. Closures are numbers whose meaning is a
  parameter of what calls them, so that a handler can act on the state that calls it.

  \<^bold>\<open>Foundations.\<close>
  \<^item> \<open>Prelude\<close>, \<open>Go_Strings\<close>, \<open>Go_Numbers\<close>, \<open>Go_Utf8\<close>, \<open>Go_Base64\<close>, \<open>Go_Time\<close>: what the source uses of Go's
    standard library (\<^verbatim>\<open>strings\<close>, \<^verbatim>\<open>strconv\<close> with overflow, rune conversion, \<^verbatim>\<open>base64\<close>, \<^verbatim>\<open>time\<close>), with
    the inverse laws and bounds that the components need.
  \<^item> \<open>Xml_Node\<close>, \<open>Xml_Codec\<close> (\<^verbatim>\<open>xmpp/node.go\<close>): the tree, its editing operations, and serialising and
    parsing; what a tree looks like after it has crossed the wire.
  \<^item> \<open>Jid\<close> (\<^verbatim>\<open>xmpp/jid.go\<close>), \<open>Errors\<close> (\<^verbatim>\<open>xmpp/errors.go\<close>) and \<open>Stanza\<close> (\<^verbatim>\<open>xmpp/stanza.go\<close>): addresses, stanza errors,
    the three kinds of stanza with their codecs, and their round trips.
  \<^item> \<open>Codec\<close>: the interface of every payload codec as a locale (a value written, carried through the
    stream and read again), interpreted for the formats of \<open>Forms\<close>, \<open>Payloads\<close>, \<open>Rsm\<close> and the others.

  \<^bold>\<open>The core of the client.\<close>
  \<^item> \<open>Registry\<close>: the contract that the event bus and the handler table share, interpreted in \<open>Events\<close>
    (\<^verbatim>\<open>xmpp/events.go\<close>) and \<open>Handlers\<close> (\<^verbatim>\<open>xmpp/handler.go\<close>, \<^verbatim>\<open>dispatch\<close>): order of calls, one-shot entries, and the
    refinement to the log of registrations. \<open>Matcher\<close> (\<^verbatim>\<open>xmpp/matcher.go\<close>), \<open>Api_Registry\<close> (\<^verbatim>\<open>xmpp/api_registry.go\<close>).
  \<^item> \<open>Plugins\<close> (\<^verbatim>\<open>xmpp/plugin.go\<close>): loading with dependencies and cycles, its termination, the load order as an
    invariant, and shutdown in the reverse order.
  \<^item> \<open>Config\<close>, \<open>Stream\<close>, \<open>Stream_Text\<close>, \<open>Sasl\<close>, \<open>Connect\<close> (\<^verbatim>\<open>xmpp/config.go\<close>, \<^verbatim>\<open>client.go\<close>, \<^verbatim>\<open>sasl.go\<close>, \<^verbatim>\<open>component.go\<close>): session
    establishment against an arbitrary peer. No credential leaves in the clear, every outcome is
    either a bound session or no connection, the SCRAM exchange is complete and sound, the stream
    opening cannot be broken by configured text, and the debug log never shows a SASL element.
  \<^item> \<open>Client\<close>, \<open>Exchange\<close>, \<open>Client_Api\<close> (\<^verbatim>\<open>xmpp/client.go\<close>): correlation of requests and answers in every
    interleaving, the read loop, closing, sending, the keep-alive loop, and creating a client.
  \<^item> \<open>Roster\<close> (\<^verbatim>\<open>xmpp/roster.go\<close>): the cache, and that only the own account or its server changes it.

  \<^bold>\<open>The extensions.\<close>
  \<^item> \<open>Forms\<close>, \<open>Rsm\<close>, \<open>Datetime\<close>, \<open>Payloads\<close>, \<open>Message_Extensions\<close>: codecs, validation against a declarative
    reference, and the independence of message annotations.
  \<^item> \<open>Client_Control\<close>, \<open>Stream_Management\<close> (\<^verbatim>\<open>xep/client_control.go\<close>): blocking, carbons, client state, and the
    acknowledgement queue with its 32-bit counters.
  \<^item> \<open>Disco\<close>, \<open>Mam\<close>, \<open>Muc\<close>, \<open>Pubsub\<close>, \<open>Storage\<close>: the stateful plugins. \<open>Disco\<close> keeps the backing array of the feature slices,
    because the code appends to shared ones; \<open>Mam\<close> and \<open>Muc\<close> run the handlers and the waiting calls
    in every interleaving.
  \<^item> \<open>Omemo_Store\<close>, \<open>Omemo\<close>, \<open>Omemo_Session\<close> (\<^verbatim>\<open>src/omemo\<close>): stores, wire formats, the manager, and end-to-end
    delivery between two managers.
  \<^item> \<open>Catalog\<close> (\<^verbatim>\<open>xep/catalog.go\<close>, \<^verbatim>\<open>registry.go\<close>), \<open>Lifecycle\<close>, \<open>Wiring\<close>: the catalogue of plugins, what each
    registers and takes back, and the manager, the catalogue and the registries in one state.

  \<^bold>\<open>The whole program.\<close>
  \<^item> \<open>Session\<close>: a connected client at work. The read loop runs on the live state, and the callbacks of the
    plugins that \<^verbatim>\<open>LoadDefaults\<close> loads write their answers to the connection that is being read; every
    stanza is answered in order and nothing else is written.
  \<^item> \<open>Programs\<close> (\<^verbatim>\<open>examples/echo\<close>, \<^verbatim>\<open>examples/component\<close>): the two \<^verbatim>\<open>main\<close> functions from their flags over
    \<^verbatim>\<open>NewClient\<close>, \<^verbatim>\<open>RegisterAll\<close>, \<^verbatim>\<open>LoadDefaults\<close> and \<^verbatim>\<open>Connect\<close> to their replies.
  \<^item> \<open>Room_Program\<close> (\<^verbatim>\<open>examples/muc\<close>), \<open>Omemo_Demo\<close> (\<^verbatim>\<open>examples/omemo\<close>): the room client with its join, its input and
    its leave, and an encrypted message between two parties.
  \<^item> \<open>Matrix\<close> (\<^verbatim>\<open>cmd/xep-matrix\<close>): the catalogue printed as Markdown, and a reader that gets it back.

  \<^bold>\<open>Interfaces.\<close> The locales are the contracts between the parts: \<open>priority_registry\<close> for the two callback
  tables, \<open>event_handlers\<close> and \<open>dispatching\<close> for callbacks that act on the state that calls them,
  \<open>attr_store\<close> for attribute lists, \<open>payload_codec\<close> for the formats and \<open>extension_slot\<close> for the message
  annotations, \<open>plugin_calls\<close> and \<open>ranked_plugins\<close> for what the manager needs of the plugins it loads,
  \<open>init_invariant\<close> for what every initialisation keeps, \<open>ownership\<close> for what a plugin owns in a registry,
  \<open>service\<close> for what the registered handlers answer to each stanza,
  \<open>transport\<close> for a connection that accepts partial writes, \<open>omemo_store\<close> for the two stores and
  \<open>session_pair\<close> for the two ends of an encrypted session. Each is interpreted on the definitions that
  model the code.

  \<^bold>\<open>Bounds.\<close> Loading takes the nesting depth of calls as fuel, and a plugin manager that runs out of it
  gives \<open>None\<close>; two more than the number of factories is always enough, and 6 is enough for the
  catalogue, whose longest chain of dependencies is shorter. Dispatch and emission take the nesting of calls
  from within handlers in the same way. Registration numbers are 64-bit words; results that depend on
  their being unique assume that fewer than \<open>2 ^ 64\<close> were given out, and the client of this theory needs
  at most 48. Loops over input end because the input gets shorter.

  \<^bold>\<open>Parameters.\<close> Code outside the repository is an argument of the definitions that use it, with the
  documented behaviour that a theorem needs among its premises: Unicode case mapping, regular
  expressions, hash functions and AES-GCM, random bytes, the clock, the iteration order of maps,
  JSON, URL parsing and HTTP, DNS, sockets and TLS, and the OMEMO session backend and store.

  \<^bold>\<open>Not modelled.\<close> Parsing of flags and log output are left out of the programs; the package comment \<^verbatim>\<open>doc.go\<close> has no code; \<^verbatim>\<open>debugf\<close> only formats for a logger; deadlines and the
  cancellation of contexts are events that may happen at any blocking point and not times; locks are
  not modelled, since every critical section is one step.
\<close>

section \<open>A client with its plugins\<close>

text \<open>C32: a new client can register the whole catalogue and load any of its plugins in any order.
  Loading succeeds, and afterwards the registries of the client hold exactly the handlers and
  event subscriptions of the loaded plugins, once each, whatever was loaded as a dependency.
  Shutting the manager down stops the plugins without a panic, and after that no handler, no
  subscription and no discovery API entry of any plugin is left.\<close>

theorem client_plugins_whole_life:
  assumes "NewClient U cfg = Inr c" "set ns \<subseteq> set catalog_numbers"
  shows "\<exists>ready loaded err stopped.
      RegisterAll (Some (wire_client c)) = (None, Some ready)
      \<and> load_numbers 6 (wired_env backend publish) ns ready = Some (None, loaded)
      \<and> xep_name ` set ns \<subseteq> dom (pm_loaded loaded)
      \<and> (\<forall>k. bij_betw handler_desc {h \<in> set (hr_handlers (wr_life loaded)). method_owner (h_Callback h) = Some k}
               (if k \<in> live_kinds loaded then set (described (plugin_callbacks k)) else {})
            \<and> bij_betw sub_desc {s \<in> all_subs (wr_life loaded). method_owner (sub_handler s) = Some k}
               (if k \<in> live_kinds loaded then set (described (plugin_events publish k)) else {}))
      \<and> shutdown stop loaded = Some (err, stopped)
      \<and> {h \<in> set (hr_handlers (wr_life (fold stop_plugin stopped loaded))). method_of (h_Callback h) \<noteq> None} = {}
      \<and> {s \<in> all_subs (wr_life (fold stop_plugin stopped loaded)). method_of (sub_handler s) \<noteq> None} = {}
      \<and> api_handlers (ls_API (wr_life (fold stop_plugin stopped loaded))) = Map.empty"
proof -
  note reg = RegisterAll_fresh(1)[OF wire_fresh(1)[OF assms(1)]]
  obtain m where m: "load_numbers 6 (wired_env backend publish) ns ((wire_client c)\<lparr>pm_factories := catalog_factories\<rparr>) = Some (None, m)"
      "pm_inv m" "wired_inv backend publish m" "xep_name ` set ns \<subseteq> dom (pm_loaded m)"
    by (rule wired_loading[OF assms])
  have life: "plugin_life publish (wr_life m) (wr_objs m) (live_kinds m)" using m(3) by (simp add: wired_inv_def)
  obtain err where sh: "shutdown stop m = Some (err, map (the \<circ> pm_loaded m) (rev (pm_order m)))"
    using shutdown_all[OF m(2)] by blast
  let ?fin = "wr_life (fold stop_plugin (map (the \<circ> pm_loaded m) (rev (pm_order m))) m)"
  have left: "{h \<in> set (hr_handlers ?fin). method_of (h_Callback h) \<noteq> None} = {}"
      "{s \<in> all_subs ?fin. method_of (sub_handler s) \<noteq> None} = {}" "api_handlers (ls_API ?fin) = Map.empty"
    using life_nothing_left[OF stopped_life[OF m(3,2)]] by auto
  show ?thesis
    by (rule exI, rule exI, rule exI, rule exI, intro conjI allI, rule reg, rule m(1), rule m(4),
        rule life_registered(1)[OF life], rule life_registered(2)[OF life], rule sh) (rule left)+
qed

text \<open>A client for \<^verbatim>\<open>romeo\<close>'s account that loads blocking, ping and the message archive.\<close>

definition example_account :: config where
  "example_account = DefaultConfig (JID_String example_jid) ''secret''"

theorem client_plugins_whole_life_witness:
  "\<exists>c ready loaded. NewClient example_unicode example_account = Inr c
     \<and> RegisterAll (Some (wire_client c)) = (None, Some ready)
     \<and> load_numbers 6 (wired_env False True) [191, 199, 313] ready = Some (None, loaded)
     \<and> xep_name ` set [191, 199, 313] \<subseteq> dom (pm_loaded loaded)"
proof -
  have "validate example_unicode (normalized example_account) = Inr example_jid"
    using ParseJID_String[OF example_jid_canonical]
    by (simp add: validate_def normalized_def example_account_def DefaultConfig_def config0_def)
  then have "\<exists>c. NewClient example_unicode example_account = Inr c" by (simp add: NewClient_def Let_def)
  moreover have "set [191, 199, 313] \<subseteq> set catalog_numbers" by (simp add: catalog_numbers_def catalog_titles_def)
  ultimately show ?thesis
    using client_plugins_whole_life[of example_unicode example_account _ "[191, 199, 313]" False True "\<lambda>_. None"] by blast
qed

end
